(* ===== verification/Prelude.thy ===== *)
theory Prelude imports Main begin

text \<open>
  Shared vocabulary of the development: results of fallible code as sums, the
  minimum-by-order selection used by SQL \<open>ORDER BY ... LIMIT 1\<close>, generic table
  updates, and the collections that carry the component proofs.
\<close>

section \<open>Collections of rewrite rules\<close>

named_theorems op_defs \<open>definitions of repository operations\<close>

named_theorems row_simps \<open>facts about single table rows\<close>

section \<open>Fallible code\<close>

text \<open>
  A raise is \<open>Inl\<close>, a normal return is \<open>Inr\<close>; \<open>bindE\<close> sequences two statements and
  stops at the first raise.
\<close>

definition bindE :: "'e + 'a \<Rightarrow> ('a \<Rightarrow> 'e + 'b) \<Rightarrow> 'e + 'b" where
  "bindE m k = (case m of Inl e \<Rightarrow> Inl e | Inr x \<Rightarrow> k x)"

lemma bindE_simps [simp]:
  "bindE (Inl e) k = Inl e"
  "bindE (Inr x) k = k x"
  by (simp_all add: bindE_def)

lemma bindE_Inr_iff: "bindE m k = Inr y \<longleftrightarrow> (\<exists>x. m = Inr x \<and> k x = Inr y)"
  by (cases m) auto

lemma bindE_Inl_iff: "bindE m k = Inl e \<longleftrightarrow> m = Inl e \<or> (\<exists>x. m = Inr x \<and> k x = Inl e)"
  by (cases m) auto

lemma bindE_pair_Inr:
  "bindE m (\<lambda>(rows, t). Inr (g rows, t)) = Inr (x, t') \<longleftrightarrow> (\<exists>rows. m = Inr (rows, t') \<and> x = g rows)"
  by (cases m) auto

lemma bindE_split: "P (bindE m k) \<longleftrightarrow> (\<forall>e. m = Inl e \<longrightarrow> P (Inl e)) \<and> (\<forall>x. m = Inr x \<longrightarrow> P (k x))"
  by (cases m) auto

fun mapE :: "('a \<Rightarrow> 'e + 'b) \<Rightarrow> 'a list \<Rightarrow> 'e + 'b list" where
  "mapE f [] = Inr []"
| "mapE f (x # xs) = bindE (f x) (\<lambda>y. bindE (mapE f xs) (\<lambda>ys. Inr (y # ys)))"

fun foldE :: "('a \<Rightarrow> 's \<Rightarrow> 'e + 's) \<Rightarrow> 'a list \<Rightarrow> 's \<Rightarrow> 'e + 's" where
  "foldE f [] s = Inr s"
| "foldE f (x # xs) s = bindE (f x s) (foldE f xs)"

lemma foldE_append: "foldE f (xs @ ys) s = bindE (foldE f xs s) (foldE f ys)"
  by (induction xs arbitrary: s) (auto simp: bindE_def split: sum.splits)

lemma foldE_invariant:
  assumes "foldE f xs s = Inr t" and "I s"
    and "\<And>x s s'. x \<in> set xs \<Longrightarrow> I s \<Longrightarrow> f x s = Inr s' \<Longrightarrow> I s'"
  shows "I t"
  using assms
proof (induction xs arbitrary: s)
  case Nil
  then show ?case by simp
next
  case (Cons x xs)
  from Cons.prems(1) obtain s1 where s1: "f x s = Inr s1" and rest: "foldE f xs s1 = Inr t"
    by (auto simp: bindE_Inr_iff)
  have "I s1" using Cons.prems(2,3) s1 by auto
  then show ?case using Cons.IH [OF rest] Cons.prems(3) by auto
qed

lemma mapE_length: "mapE f xs = Inr ys \<Longrightarrow> length ys = length xs"
  by (induction xs arbitrary: ys) (auto simp: bindE_Inr_iff)

lemma mapE_all:
  assumes "mapE f xs = Inr ys" and "\<And>x y. x \<in> set xs \<Longrightarrow> f x = Inr y \<Longrightarrow> P y"
  shows "\<forall>y\<in>set ys. P y"
  using assms
proof (induction xs arbitrary: ys)
  case Nil
  then show ?case by simp
next
  case (Cons x xs)
  from Cons.prems(1) obtain z zs where "f x = Inr z" "mapE f xs = Inr zs" "ys = z # zs"
    by (auto simp: bindE_Inr_iff)
  moreover from this have "P z" using Cons.prems(2) [of x z] by simp
  moreover have "\<forall>y\<in>set zs. P y"
    by (rule Cons.IH) (use calculation Cons.prems(2) in auto)
  ultimately show ?case by simp
qed

section \<open>Selecting the first row of an ordered query\<close>

text \<open>
  \<open>first_by lt xs\<close> is the row an \<open>ORDER BY ... LIMIT 1\<close> returns: a minimal element, the
  earliest one in table order among equals (PostgreSQL leaves ties open; the model fixes
  one permitted choice).
\<close>

fun first_by :: "('a \<Rightarrow> 'a \<Rightarrow> bool) \<Rightarrow> 'a list \<Rightarrow> 'a option" where
  "first_by lt [] = None"
| "first_by lt (x # xs) =
     (case first_by lt xs of None \<Rightarrow> Some x | Some y \<Rightarrow> if lt y x then Some y else Some x)"

lemma first_by_None_iff [simp]: "first_by lt xs = None \<longleftrightarrow> xs = []"
  by (cases xs) (auto split: option.splits)

lemma first_by_mem: "first_by lt xs = Some y \<Longrightarrow> y \<in> set xs"
  by (induction xs arbitrary: y) (auto split: option.splits if_splits)

locale weak_order =
  fixes lt :: "'a \<Rightarrow> 'a \<Rightarrow> bool"
  assumes lt_irrefl: "\<not> lt x x"
    and lt_trans: "lt x y \<Longrightarrow> lt y z \<Longrightarrow> lt x z"
    and lt_cotrans: "lt x z \<Longrightarrow> lt x y \<or> lt y z"
begin

lemma lt_asym: "lt x y \<Longrightarrow> \<not> lt y x"
  using lt_irrefl lt_trans by blast

lemma first_is_minimal: "first_by lt xs = Some y \<Longrightarrow> x \<in> set xs \<Longrightarrow> \<not> lt x y"
proof (induction xs arbitrary: y x)
  case Nil
  then show ?case by simp
next
  case (Cons a xs)
  show ?case
  proof (cases "first_by lt xs")
    case None
    with Cons.prems show ?thesis by (auto simp: lt_irrefl)
  next
    case (Some b)
    note IH = Cons.IH [OF Some]
    show ?thesis
    proof (cases "lt b a")
      case True
      with Cons.prems Some have "y = b" by simp
      with True Cons.prems IH show ?thesis by (auto dest: lt_asym)
    next
      case False
      with Cons.prems Some have "y = a" by simp
      with False Cons.prems IH lt_irrefl lt_cotrans show ?thesis by (metis set_ConsD)
    qed
  qed
qed

end

section \<open>Generic table updates\<close>

text \<open>\<open>UPDATE t SET f WHERE P\<close> on a table kept as a list of rows.\<close>

definition upd_where :: "('r \<Rightarrow> bool) \<Rightarrow> ('r \<Rightarrow> 'r) \<Rightarrow> 'r list \<Rightarrow> 'r list" where
  "upd_where P f tbl = map (\<lambda>r. if P r then f r else r) tbl"

lemma upd_where_none: "(\<And>r. r \<in> set tbl \<Longrightarrow> \<not> P r) \<Longrightarrow> upd_where P f tbl = tbl"
  by (induction tbl) (auto simp: upd_where_def)

lemma set_upd_where: "set (upd_where P f tbl) = {if P r then f r else r | r. r \<in> set tbl}"
  by (auto simp: upd_where_def)

lemma map_upd_where: "(\<And>r. P r \<Longrightarrow> k (f r) = k r) \<Longrightarrow> map k (upd_where P f tbl) = map k tbl"
  by (auto simp: upd_where_def)

lemma ball_upd_where:
  "(\<And>r. r \<in> set tbl \<Longrightarrow> Q r) \<Longrightarrow> (\<And>r. r \<in> set tbl \<Longrightarrow> P r \<Longrightarrow> Q r \<Longrightarrow> Q (f r)) \<Longrightarrow>
   \<forall>r\<in>set (upd_where P f tbl). Q r"
  by (auto simp: upd_where_def)

lemma find_upd_where:
  assumes "\<And>r. P r \<Longrightarrow> k (f r) = k r"
  shows "find (\<lambda>r. k r = x) (upd_where P f tbl) =
    map_option (\<lambda>r. if P r then f r else r) (find (\<lambda>r. k r = x) tbl)"
  using assms by (induction tbl) (auto simp: upd_where_def)

lemma find_Some_mem: "find P xs = Some x \<Longrightarrow> x \<in> set xs \<and> P x"
  by (induction xs) (auto split: if_splits)

lemma find_distinct_key:
  assumes "distinct (map k tbl)" and "r \<in> set tbl"
  shows "find (\<lambda>r'. k r' = k r) tbl = Some r"
  using assms by (induction tbl) (auto simp: rev_image_eqI)

lemma distinct_key_eq:
  "distinct (map k tbl) \<Longrightarrow> r \<in> set tbl \<Longrightarrow> r' \<in> set tbl \<Longrightarrow> k r = k r' \<Longrightarrow> r = r'"
  by (meson distinct_map inj_onD)

lemma filter_key_single:
  assumes "distinct (map k tbl)" and "r \<in> set tbl"
  shows "filter (\<lambda>r'. k r' = k r) tbl = [r]"
  using assms
proof (induction tbl)
  case Nil
  then show ?case by simp
next
  case (Cons a tbl)
  show ?case
  proof (cases "a = r")
    case True
    with Cons.prems(1) have "k r \<notin> k ` set tbl" by auto
    then have "filter (\<lambda>r'. k r' = k r) tbl = []" by (auto simp: filter_empty_conv image_iff)
    with True show ?thesis by simp
  next
    case False
    with Cons show ?thesis by (auto simp: rev_image_eqI)
  qed
qed

lemma disjoint_imageI: "(\<And>r. r \<in> A \<Longrightarrow> k r \<notin> K) \<Longrightarrow> K \<inter> k ` A = {}"
  by blast

lemma distinct_filter_map_cong:
  assumes "distinct (map k (filter Q tbl))"
    and "\<And>r. r \<in> set tbl \<Longrightarrow> Q (g r) \<Longrightarrow> Q r \<and> k (g r) = k r"
  shows "distinct (map k (filter Q (map g tbl)))"
  using assms
proof (induction tbl)
  case Nil
  then show ?case by simp
next
  case (Cons a tbl)
  have tl: "distinct (map k (filter Q (map g tbl)))"
    using Cons by (auto split: if_splits)
  show ?case
  proof (cases "Q (g a)")
    case True
    with Cons.prems(2) have qa: "Q a" "k (g a) = k a" by auto
    have "k a \<notin> k ` {x \<in> set (map g tbl). Q x}"
    proof
      assume "k a \<in> k ` {x \<in> set (map g tbl). Q x}"
      then obtain r where r: "r \<in> set tbl" "Q (g r)" "k (g r) = k a" by auto
      with Cons.prems(2) [of r] have "Q r" "k r = k a" by auto
      with r(1) qa Cons.prems(1) show False by (auto simp: image_iff)
    qed
    with True qa tl show ?thesis by auto
  next
    case False
    with tl show ?thesis by simp
  qed
qed

text \<open>
  Activating one row of a table with a partial unique index is accepted exactly when no
  indexed row has its key.
\<close>

lemma upd_where_single:
  assumes "r \<notin> set xs" and "r \<notin> set ys"
  shows "upd_where (\<lambda>x. x = r) f (xs @ r # ys) = xs @ f r # ys"
  using assms by (auto simp: upd_where_def intro!: map_idI)

lemma distinct_activate:
  assumes "distinct t" and "r \<in> set t" and "distinct (map k (filter Q t))" and "\<not> Q r" and "Q (f r)"
  shows "distinct (map k (filter Q (upd_where (\<lambda>x. x = r) f t))) \<longleftrightarrow>
    k (f r) \<notin> k ` {x \<in> set t. Q x}"
proof -
  from assms(2) obtain xs ys where t: "t = xs @ r # ys" by (meson split_list)
  with assms(1) have "r \<notin> set xs" "r \<notin> set ys" by auto
  note u = upd_where_single [OF this, of f]
  show ?thesis using assms(3-5) unfolding t u by auto
qed

lemma filter_upd_where:
  "(\<And>r. R r \<Longrightarrow> \<not> P r) \<Longrightarrow> (\<And>r. P r \<Longrightarrow> R (f r) = R r) \<Longrightarrow> filter R (upd_where P f t) = filter R t"
  by (induction t) (auto simp: upd_where_def)

text \<open>A table built by computing a value for each key of a list.\<close>

lemma mapE_keyed:
  assumes "mapE (\<lambda>k. bindE (f k) (\<lambda>v. Inr (k, v))) ks = Inr kvs"
  shows "map fst kvs = ks" and "k \<in> set ks \<Longrightarrow> \<exists>v. map_of kvs k = Some v \<and> f k = Inr v"
proof -
  from assms show "map fst kvs = ks"
    by (induction ks arbitrary: kvs) (auto simp: bindE_Inr_iff)
  from assms show "\<exists>v. map_of kvs k = Some v \<and> f k = Inr v" if "k \<in> set ks"
    using that
  proof (induction ks arbitrary: kvs)
    case Nil
    then show ?case by simp
  next
    case (Cons a ks)
    from Cons.prems(1) obtain v rest where "f a = Inr v" "kvs = (a, v) # rest"
      "mapE (\<lambda>k. bindE (f k) (\<lambda>v. Inr (k, v))) ks = Inr rest"
      by (auto simp: bindE_Inr_iff)
    with Cons show ?case by auto
  qed
qed

lemma mapE_total:
  assumes "\<And>x. x \<in> set xs \<Longrightarrow> \<exists>y. f x = Inr y"
  shows "\<exists>ys. mapE f xs = Inr ys"
  using assms
proof (induction xs)
  case (Cons x xs)
  then have "\<exists>y. f x = Inr y" "\<exists>ys. mapE f xs = Inr ys" by auto
  then show ?case by auto
qed simp

text \<open>A list comprehension with a condition that may raise.\<close>

fun filterE :: "('a \<Rightarrow> 'e + bool) \<Rightarrow> 'a list \<Rightarrow> 'e + 'a list" where
  "filterE p [] = Inr []"
| "filterE p (x # xs) =
     bindE (p x) (\<lambda>b. bindE (filterE p xs) (\<lambda>ys. Inr (if b then x # ys else ys)))"

lemma filterE_Inr:
  "filterE p xs = Inr ys \<Longrightarrow> ys = filter (\<lambda>x. p x = Inr True) xs \<and> (\<forall>x\<in>set xs. \<exists>b. p x = Inr b)"
  by (induction xs arbitrary: ys) (auto simp: bindE_Inr_iff)

end
