(* ===== verification/TaskQueue.thy ===== *)
theory TaskQueue imports Prelude Complex_Main begin

text \<open>
  The platform task queue: the \<open>worker_tasks\<close> and \<open>tenant_usage\<close> tables
  (teamEvolver/database/schema/001\_init.sql) and every statement of
  \<open>WorkerTaskRepository\<close> (teamEvolver/runtime/repository.py).

  A table is the list of its rows. A connection is the value of its
  \<open>app.tenant_id\<close> setting; row-level security shows a statement only the rows of that
  tenant and lets it write only such rows. The database clock \<open>now()\<close> (transaction start)
  and \<open>clock_timestamp()\<close> are arguments, in seconds. One repository call is one atomic
  step: each runs in one transaction and locks the rows it changes; the rows other open
  transactions hold locked are an argument of \<open>claim\<close>, which skips them. The tenant row
  the foreign key of each table names is taken to exist.
\<close>

section \<open>Rows\<close>

datatype task_status =
  Queued | Running | RetryWait | WaitingExternal | Reconciling | Succeeded | Failed | Cancelled

datatype db_error = UniqueViolation | InsufficientPrivilege

record task =
  wt_tenant_id :: string
  wt_task_id :: string
  wt_kind :: string
  wt_subject_type :: string
  wt_subject_id :: string
  wt_schema_version :: string
  wt_dedupe_key :: string
  wt_payload_ref :: string
  wt_payload_hash :: string
  wt_config_revision :: int
  wt_adapter_revision :: int
  wt_trace_id :: string
  wt_status :: task_status
  wt_attempt :: int
  wt_owner_id :: string
  wt_fence :: int
  wt_lease_until :: "rat option"
  wt_available_at :: rat
  wt_cancel_requested :: bool
  wt_upstream_task_id :: string
  wt_result_ref :: string
  wt_error_code :: string
  wt_created_at :: rat
  wt_updated_at :: rat

record claimed_task =
  ct_tenant_id :: string
  ct_task_id :: string
  ct_kind :: string
  ct_attempt :: int
  ct_fence :: int
  ct_subject_type :: string
  ct_subject_id :: string
  ct_payload_ref :: string
  ct_payload_hash :: string
  ct_config_revision :: int
  ct_adapter_revision :: int
  ct_trace_id :: string
  ct_upstream_task_id :: string
  ct_cancel_requested :: bool
  ct_owner_id :: string

type_synonym tasks = "task list"
type_synonym conn = string

abbreviation task_key :: "task \<Rightarrow> string \<times> string" where
  "task_key r \<equiv> (wt_tenant_id r, wt_task_id r)"

definition terminal_states :: "task_status list" where
  "terminal_states = [Succeeded, Failed, Cancelled]"

definition active_for_result :: "task_status list" where
  "active_for_result = [Running, Reconciling, WaitingExternal]"

section \<open>Constraints and row-level security\<close>

definition rls_visible :: "conn \<Rightarrow> string \<Rightarrow> bool" where
  "rls_visible c tenant \<longleftrightarrow> c \<noteq> '''' \<and> tenant = c"

text \<open>The partial unique index \<open>worker_tasks_dedupe_idx\<close>.\<close>

definition dedupe_indexed :: "task \<Rightarrow> bool" where
  "dedupe_indexed r \<longleftrightarrow> wt_dedupe_key r \<noteq> '''' \<and> wt_status r \<notin> set terminal_states"

definition dedupe_index_ok :: "tasks \<Rightarrow> bool" where
  "dedupe_index_ok t \<longleftrightarrow>
     distinct (map (\<lambda>r. (wt_tenant_id r, wt_kind r, wt_dedupe_key r)) (filter dedupe_indexed t))"

text \<open>
  \<open>UPDATE worker_tasks SET f WHERE P RETURNING *\<close> on a tenant connection: the rows
  returned and the new table, or the violated constraint (the transaction is then rolled
  back and the table is the old one).
\<close>

definition tasks_update ::
  "conn \<Rightarrow> (task \<Rightarrow> bool) \<Rightarrow> (task \<Rightarrow> task) \<Rightarrow> tasks \<Rightarrow> db_error + (task list \<times> tasks)" where
  "tasks_update c P f t =
     (let hit = (\<lambda>r. rls_visible c (wt_tenant_id r) \<and> P r); t' = upd_where hit f t
      in if dedupe_index_ok t' then Inr (map f (filter hit t), t') else Inl UniqueViolation)"

definition tasks_insert :: "conn \<Rightarrow> task \<Rightarrow> tasks \<Rightarrow> db_error + tasks" where
  "tasks_insert c r t =
     (if \<not> rls_visible c (wt_tenant_id r) then Inl InsufficientPrivilege
      else if task_key r \<in> task_key ` set t then Inl UniqueViolation
      else if dedupe_index_ok (t @ [r]) then Inr (t @ [r]) else Inl UniqueViolation)"

section \<open>Enqueue\<close>

record enqueue_request =
  eq_tenant_id :: string
  eq_task_id :: string
  eq_kind :: string
  eq_subject_type :: string
  eq_subject_id :: string
  eq_schema_version :: string
  eq_dedupe_key :: string
  eq_payload_ref :: string
  eq_payload_hash :: string
  eq_config_revision :: int
  eq_adapter_revision :: int
  eq_trace_id :: string
  eq_available_in_seconds :: rat

definition new_task_row :: "rat \<Rightarrow> enqueue_request \<Rightarrow> task" where
  "new_task_row now e =
     \<lparr>wt_tenant_id = eq_tenant_id e, wt_task_id = eq_task_id e, wt_kind = eq_kind e,
      wt_subject_type = eq_subject_type e, wt_subject_id = eq_subject_id e,
      wt_schema_version = eq_schema_version e, wt_dedupe_key = eq_dedupe_key e,
      wt_payload_ref = eq_payload_ref e, wt_payload_hash = eq_payload_hash e,
      wt_config_revision = eq_config_revision e, wt_adapter_revision = eq_adapter_revision e,
      wt_trace_id = eq_trace_id e, wt_status = Queued, wt_attempt = 0, wt_owner_id = '''',
      wt_fence = 0, wt_lease_until = None,
      wt_available_at = now + eq_available_in_seconds e, wt_cancel_requested = False,
      wt_upstream_task_id = '''', wt_result_ref = '''', wt_error_code = '''',
      wt_created_at = now, wt_updated_at = now\<rparr>"

definition enqueue_dedupe_lookup :: "conn \<Rightarrow> enqueue_request \<Rightarrow> tasks \<Rightarrow> task option" where
  "enqueue_dedupe_lookup c e t =
     find (\<lambda>r. rls_visible c (wt_tenant_id r) \<and> wt_kind r = eq_kind e \<and>
               wt_dedupe_key r = eq_dedupe_key e \<and> wt_status r \<notin> set terminal_states) t"

definition enqueue :: "conn \<Rightarrow> rat \<Rightarrow> enqueue_request \<Rightarrow> tasks \<Rightarrow> db_error + (string \<times> tasks)" where
  "enqueue c now e t =
     (case (if eq_dedupe_key e \<noteq> '''' then enqueue_dedupe_lookup c e t else None) of
        Some r \<Rightarrow> Inr (wt_task_id r, t)
      | None \<Rightarrow> bindE (tasks_insert c (new_task_row now e) t) (\<lambda>t'. Inr (eq_task_id e, t')))"

section \<open>Claim\<close>

definition claim_ready :: "rat \<Rightarrow> task \<Rightarrow> bool" where
  "claim_ready now r \<longleftrightarrow>
     wt_available_at r \<le> now \<and>
     (wt_status r \<in> {Queued, RetryWait} \<or>
      wt_status r \<in> {Running, Reconciling, WaitingExternal} \<and>
        (case wt_lease_until r of None \<Rightarrow> False | Some l \<Rightarrow> l < now))"

text \<open>\<open>list(kinds) if kinds else None\<close>: an empty list of kinds means every kind.\<close>

definition kind_matches :: "string list \<Rightarrow> task \<Rightarrow> bool" where
  "kind_matches kinds r \<longleftrightarrow> kinds = [] \<or> wt_kind r \<in> set kinds"

definition claimable :: "conn \<Rightarrow> rat \<Rightarrow> string list \<Rightarrow> task \<Rightarrow> bool" where
  "claimable c now kinds r \<longleftrightarrow>
     rls_visible c (wt_tenant_id r) \<and> claim_ready now r \<and> kind_matches kinds r"

definition claim_before :: "task \<Rightarrow> task \<Rightarrow> bool" where
  "claim_before r s \<longleftrightarrow>
     wt_available_at r < wt_available_at s \<or>
     wt_available_at r = wt_available_at s \<and> wt_created_at r < wt_created_at s"

definition claim_pick ::
  "conn \<Rightarrow> rat \<Rightarrow> (string \<times> string \<Rightarrow> bool) \<Rightarrow> string list \<Rightarrow> tasks \<Rightarrow> task option" where
  "claim_pick c now locked kinds t =
     first_by claim_before (filter (\<lambda>r. claimable c now kinds r \<and> \<not> locked (task_key r)) t)"

definition claim_set :: "string \<Rightarrow> rat \<Rightarrow> rat \<Rightarrow> task \<Rightarrow> task" where
  "claim_set owner now lease_seconds r =
     r\<lparr>wt_status := Running, wt_owner_id := owner, wt_attempt := wt_attempt r + 1,
       wt_fence := wt_fence r + 1, wt_lease_until := Some (now + lease_seconds),
       wt_updated_at := now\<rparr>"

definition claimed_of :: "string \<Rightarrow> task \<Rightarrow> claimed_task" where
  "claimed_of owner r =
     \<lparr>ct_tenant_id = wt_tenant_id r, ct_task_id = wt_task_id r, ct_kind = wt_kind r,
      ct_attempt = wt_attempt r, ct_fence = wt_fence r, ct_subject_type = wt_subject_type r,
      ct_subject_id = wt_subject_id r, ct_payload_ref = wt_payload_ref r,
      ct_payload_hash = wt_payload_hash r, ct_config_revision = wt_config_revision r,
      ct_adapter_revision = wt_adapter_revision r, ct_trace_id = wt_trace_id r,
      ct_upstream_task_id = wt_upstream_task_id r, ct_cancel_requested = wt_cancel_requested r,
      ct_owner_id = owner\<rparr>"

definition claim ::
  "conn \<Rightarrow> rat \<Rightarrow> (string \<times> string \<Rightarrow> bool) \<Rightarrow> string \<Rightarrow> rat \<Rightarrow> string list \<Rightarrow> tasks \<Rightarrow>
   db_error + (claimed_task option \<times> tasks)" where
  "claim c now locked owner lease_seconds kinds t =
     (case claim_pick c now locked kinds t of
        None \<Rightarrow> Inr (None, t)
      | Some p \<Rightarrow>
          bindE (tasks_update c (\<lambda>r. task_key r = task_key p) (claim_set owner now lease_seconds) t)
            (\<lambda>(rows, t'). case rows of
               [] \<Rightarrow> Inr (None, t')
             | r # _ \<Rightarrow> Inr (Some (claimed_of owner r), t')))"

section \<open>Lease and heartbeat\<close>

datatype runtime_error = Db db_error | AttemptLost

definition lease_live :: "rat \<Rightarrow> task \<Rightarrow> bool" where
  "lease_live clock r \<longleftrightarrow> (case wt_lease_until r of None \<Rightarrow> False | Some l \<Rightarrow> clock < l)"

definition require_current ::
  "conn \<Rightarrow> rat \<Rightarrow> claimed_task \<Rightarrow> bool \<Rightarrow> tasks \<Rightarrow> runtime_error + unit" where
  "require_current c clock ct allow_cancel t =
     (case find (\<lambda>r. rls_visible c (wt_tenant_id r) \<and>
                     wt_task_id r = ct_task_id ct \<and> wt_tenant_id r = ct_tenant_id ct \<and>
                     wt_fence r = ct_fence ct \<and> wt_attempt r = ct_attempt ct \<and>
                     wt_owner_id r = ct_owner_id ct \<and>
                     wt_status r \<in> {Running, Reconciling} \<and> lease_live clock r \<and>
                     (allow_cancel \<or> \<not> wt_cancel_requested r)) t of
        None \<Rightarrow> Inl AttemptLost
      | Some _ \<Rightarrow> Inr ())"

text \<open>The guard every fenced statement shares: \<open>task_id = $1 AND owner_id = $2 AND fence = $3\<close>.\<close>

definition guarded_by :: "string \<Rightarrow> string \<Rightarrow> int \<Rightarrow> task \<Rightarrow> bool" where
  "guarded_by tid owner fence r \<longleftrightarrow>
     wt_task_id r = tid \<and> wt_owner_id r = owner \<and> wt_fence r = fence"

definition heartbeat ::
  "conn \<Rightarrow> rat \<Rightarrow> rat \<Rightarrow> string \<Rightarrow> string \<Rightarrow> int \<Rightarrow> rat \<Rightarrow> tasks \<Rightarrow> db_error + (bool \<times> tasks)" where
  "heartbeat c now clock tid owner fence lease_seconds t =
     bindE (tasks_update c
              (\<lambda>r. guarded_by tid owner fence r \<and>
                   wt_status r \<in> {Running, Reconciling, WaitingExternal} \<and> lease_live clock r)
              (\<lambda>r. r\<lparr>wt_lease_until := Some (now + lease_seconds), wt_updated_at := now\<rparr>) t)
       (\<lambda>(rows, t'). Inr (rows \<noteq> [], t'))"

section \<open>Result transitions\<close>

definition transition ::
  "conn \<Rightarrow> rat \<Rightarrow> string \<Rightarrow> string \<Rightarrow> int \<Rightarrow> (task \<Rightarrow> task) \<Rightarrow> task_status list \<Rightarrow> tasks \<Rightarrow>
   db_error + (bool \<times> tasks)" where
  "transition c now tid owner fence sets from_states t =
     bindE (tasks_update c
              (\<lambda>r. guarded_by tid owner fence r \<and> wt_status r \<in> set from_states)
              (\<lambda>r. (sets r)\<lparr>wt_updated_at := now\<rparr>) t)
       (\<lambda>(rows, t'). Inr (rows \<noteq> [], t'))"

definition succeed ::
  "conn \<Rightarrow> rat \<Rightarrow> string \<Rightarrow> string \<Rightarrow> int \<Rightarrow> string \<Rightarrow> tasks \<Rightarrow> db_error + (bool \<times> tasks)" where
  "succeed c now tid owner fence result_ref =
     transition c now tid owner fence
       (\<lambda>r. r\<lparr>wt_status := Succeeded, wt_result_ref := result_ref, wt_error_code := ''''\<rparr>)
       active_for_result"

definition fail_task ::
  "conn \<Rightarrow> rat \<Rightarrow> string \<Rightarrow> string \<Rightarrow> int \<Rightarrow> string \<Rightarrow> tasks \<Rightarrow> db_error + (bool \<times> tasks)" where
  "fail_task c now tid owner fence error_code =
     transition c now tid owner fence
       (\<lambda>r. r\<lparr>wt_status := Failed, wt_error_code := error_code\<rparr>) active_for_result"

definition retry_task ::
  "conn \<Rightarrow> rat \<Rightarrow> string \<Rightarrow> string \<Rightarrow> int \<Rightarrow> rat \<Rightarrow> string \<Rightarrow> tasks \<Rightarrow> db_error + (bool \<times> tasks)" where
  "retry_task c now tid owner fence backoff_seconds error_code =
     transition c now tid owner fence
       (\<lambda>r. r\<lparr>wt_status := RetryWait, wt_owner_id := '''', wt_lease_until := None,
             wt_error_code := error_code, wt_available_at := now + backoff_seconds\<rparr>)
       [Running, Reconciling, WaitingExternal]"

definition wait_external ::
  "conn \<Rightarrow> rat \<Rightarrow> string \<Rightarrow> string \<Rightarrow> int \<Rightarrow> string \<Rightarrow> tasks \<Rightarrow> db_error + (bool \<times> tasks)" where
  "wait_external c now tid owner fence upstream =
     transition c now tid owner fence
       (\<lambda>r. r\<lparr>wt_status := WaitingExternal, wt_upstream_task_id := upstream\<rparr>) [Running]"

definition reconcile_task ::
  "conn \<Rightarrow> rat \<Rightarrow> string \<Rightarrow> string \<Rightarrow> int \<Rightarrow> tasks \<Rightarrow> db_error + (bool \<times> tasks)" where
  "reconcile_task c now tid owner fence =
     transition c now tid owner fence (\<lambda>r. r\<lparr>wt_status := Reconciling\<rparr>)
       [WaitingExternal, Running]"

section \<open>Cancellation and requeue\<close>

definition request_cancel ::
  "conn \<Rightarrow> rat \<Rightarrow> string \<Rightarrow> tasks \<Rightarrow> db_error + (task_status option \<times> tasks)" where
  "request_cancel c now tid t =
     bindE (tasks_update c
              (\<lambda>r. wt_task_id r = tid \<and> wt_status r \<notin> set terminal_states)
              (\<lambda>r. r\<lparr>wt_cancel_requested := True,
                    wt_status := (if wt_status r \<in> {Queued, RetryWait} then Cancelled
                                  else wt_status r),
                    wt_updated_at := now\<rparr>) t)
       (\<lambda>(rows, t'). Inr (case rows of [] \<Rightarrow> None | r # _ \<Rightarrow> Some (wt_status r), t'))"

definition mark_cancelled ::
  "conn \<Rightarrow> rat \<Rightarrow> string \<Rightarrow> string \<Rightarrow> int \<Rightarrow> tasks \<Rightarrow> db_error + (bool \<times> tasks)" where
  "mark_cancelled c now tid owner fence =
     transition c now tid owner fence (\<lambda>r. r\<lparr>wt_status := Cancelled\<rparr>) active_for_result"

definition requeue ::
  "conn \<Rightarrow> rat \<Rightarrow> string \<Rightarrow> tasks \<Rightarrow> db_error + (task_status option \<times> tasks)" where
  "requeue c now tid t =
     bindE (tasks_update c
              (\<lambda>r. wt_task_id r = tid \<and> wt_status r = Failed)
              (\<lambda>r. r\<lparr>wt_status := Queued, wt_owner_id := '''', wt_lease_until := None,
                    wt_cancel_requested := False, wt_error_code := '''', wt_available_at := now,
                    wt_updated_at := now\<rparr>) t)
       (\<lambda>(rows, t'). Inr (case rows of [] \<Rightarrow> None | r # _ \<Rightarrow> Some (wt_status r), t'))"

section \<open>Reads and usage accounting\<close>

definition get_task :: "conn \<Rightarrow> string \<Rightarrow> tasks \<Rightarrow> task option" where
  "get_task c tid t = find (\<lambda>r. rls_visible c (wt_tenant_id r) \<and> wt_task_id r = tid) t"

record usage =
  us_tenant_id :: string
  us_metric :: string
  us_window_key :: string
  us_counter :: int
  us_updated_at :: rat

abbreviation usage_key :: "usage \<Rightarrow> string \<times> string \<times> string" where
  "usage_key u \<equiv> (us_tenant_id u, us_metric u, us_window_key u)"

definition charge_usage ::
  "conn \<Rightarrow> rat \<Rightarrow> string \<Rightarrow> string \<Rightarrow> string \<Rightarrow> int \<Rightarrow> usage list \<Rightarrow> db_error + usage list" where
  "charge_usage c now tenant metric window amount us =
     (if \<not> rls_visible c tenant then Inl InsufficientPrivilege
      else if (tenant, metric, window) \<in> usage_key ` set us
      then Inr (upd_where (\<lambda>u. usage_key u = (tenant, metric, window))
                  (\<lambda>u. u\<lparr>us_counter := us_counter u + amount, us_updated_at := now\<rparr>) us)
      else Inr (us @ [\<lparr>us_tenant_id = tenant, us_metric = metric, us_window_key = window,
                       us_counter = amount, us_updated_at = now\<rparr>]))"

lemmas task_op_defs [op_defs] =
  succeed_def fail_task_def retry_task_def wait_external_def reconcile_task_def mark_cancelled_def

end
