(* ===== verification/Fencing.thy ===== *)
theory Fencing imports Prelude begin

text \<open>
  The fencing contract of the platform: a store hands out a fence number with each
  acquisition of a resource, never lowers it, and accepts a guarded write only under the
  current number. Late writes of a superseded holder are then refused along any
  interleaving of steps. Both the task queue and the resource leases interpret it.
\<close>

locale fenced_store =
  fixes ok :: "'s \<Rightarrow> bool"
    and step :: "'s \<Rightarrow> 's \<Rightarrow> bool"
    and fence_of :: "'k \<Rightarrow> 's \<Rightarrow> int option"
    and acquired :: "'k \<Rightarrow> int \<Rightarrow> 's \<Rightarrow> 's \<Rightarrow> bool"
    and written :: "'k \<Rightarrow> int \<Rightarrow> 's \<Rightarrow> 's \<Rightarrow> bool"
  assumes step_ok: "ok s \<Longrightarrow> step s s' \<Longrightarrow> ok s'"
    and acquired_step: "ok s \<Longrightarrow> acquired k f s s' \<Longrightarrow> step s s'"
    and fence_step: "ok s \<Longrightarrow> step s s' \<Longrightarrow> fence_of k s = Some f \<Longrightarrow>
      \<exists>f'. fence_of k s' = Some f' \<and> f \<le> f'"
    and acquired_fence: "ok s \<Longrightarrow> acquired k f s s' \<Longrightarrow> fence_of k s' = Some f"
    and acquired_fresh: "ok s \<Longrightarrow> acquired k f s s' \<Longrightarrow> fence_of k s = Some g \<Longrightarrow> g < f"
    and written_current: "ok s \<Longrightarrow> written k f s s' \<Longrightarrow> fence_of k s = Some f"
begin

lemma steps_ok: "step\<^sup>*\<^sup>* s s' \<Longrightarrow> ok s \<Longrightarrow> ok s'"
  by (induction rule: rtranclp_induct) (auto intro: step_ok)

lemma fence_steps:
  assumes "step\<^sup>*\<^sup>* s s'" and "ok s" and "fence_of k s = Some f"
  shows "\<exists>f'. fence_of k s' = Some f' \<and> f \<le> f'"
  using assms
proof (induction rule: rtranclp_induct)
  case base
  then show ?case by simp
next
  case (step y z)
  then obtain f' where f': "fence_of k y = Some f'" "f \<le> f'" by blast
  have "ok y" using step.hyps(1) step.prems(1) by (rule steps_ok)
  with f' step.hyps(2) show ?case by (meson fence_step order_trans)
qed

lemma later_acquisition_is_newer:
  assumes "ok s0" and "acquired k f s0 s1" and "step\<^sup>*\<^sup>* s1 s2" and "acquired k f' s2 s3"
  shows "f < f'"
proof -
  have ok1: "ok s1" using assms(1,2) acquired_step step_ok by blast
  have ok2: "ok s2" using assms(3) ok1 by (rule steps_ok)
  from acquired_fence [OF assms(1,2)] obtain g where "fence_of k s2 = Some g" "f \<le> g"
    using fence_steps [OF assms(3) ok1] by blast
  with acquired_fresh [OF ok2 assms(4)] show ?thesis by fastforce
qed

lemma superseded_fence:
  assumes "ok s0" and "acquired k f s0 s1" and "step\<^sup>*\<^sup>* s1 s2" and "acquired k f' s2 s3"
    and "step\<^sup>*\<^sup>* s3 s4"
  shows "ok s4 \<and> (\<exists>g. fence_of k s4 = Some g \<and> f < g)"
proof -
  have ok1: "ok s1" using assms(1,2) acquired_step step_ok by blast
  have ok2: "ok s2" using assms(3) ok1 by (rule steps_ok)
  have ok3: "ok s3" using ok2 assms(4) acquired_step step_ok by blast
  have ok4: "ok s4" using assms(5) ok3 by (rule steps_ok)
  from acquired_fence [OF ok2 assms(4)] obtain g where "fence_of k s4 = Some g" "f' \<le> g"
    using fence_steps [OF assms(5) ok3] by blast
  with later_acquisition_is_newer [OF assms(1-4)] ok4 show ?thesis by fastforce
qed

lemma superseded_write_refused:
  assumes "ok s0" and "acquired k f s0 s1" and "step\<^sup>*\<^sup>* s1 s2" and "acquired k f' s2 s3"
    and "step\<^sup>*\<^sup>* s3 s4"
  shows "\<not> written k f s4 s5"
  using superseded_fence [OF assms] written_current by fastforce

end

end
