(* ===== verification/TaskInvariants.thy ===== *)
theory TaskInvariants imports TaskQueue Fencing begin

text \<open>
  What the task queue keeps true: the table invariant, the row state machine every
  repository operation follows, the reachable tables, and the refusal of late writes.
\<close>

section \<open>The table invariant\<close>

definition task_row_ok :: "task \<Rightarrow> bool" where
  "task_row_ok r \<longleftrightarrow>
     0 \<le> wt_fence r \<and> wt_attempt r = wt_fence r \<and>
     (wt_status r \<in> {Queued, RetryWait} \<longrightarrow> wt_owner_id r = '''' \<and> wt_lease_until r = None) \<and>
     (wt_status r \<in> set active_for_result \<longrightarrow> 1 \<le> wt_fence r \<and> wt_lease_until r \<noteq> None)"

definition tasks_inv :: "tasks \<Rightarrow> bool" where
  "tasks_inv t \<longleftrightarrow> distinct (map task_key t) \<and> dedupe_index_ok t \<and> (\<forall>r\<in>set t. task_row_ok r)"

lemma tasks_inv_empty: "tasks_inv []"
  by (simp add: tasks_inv_def dedupe_index_ok_def)

lemma tasks_update_Inr:
  "tasks_update c P f t = Inr (rows, t') \<longleftrightarrow>
     rows = map f (filter (\<lambda>r. rls_visible c (wt_tenant_id r) \<and> P r) t) \<and>
     t' = upd_where (\<lambda>r. rls_visible c (wt_tenant_id r) \<and> P r) f t \<and> dedupe_index_ok t'"
  by (auto simp: tasks_update_def Let_def)

text \<open>
  An update that keeps the index columns and makes no indexed row of an unindexed one
  cannot violate the unique index.
\<close>

lemma tasks_update_total:
  assumes "dedupe_index_ok t"
    and "\<And>r. r \<in> set t \<Longrightarrow> P r \<Longrightarrow> dedupe_indexed (f r) \<Longrightarrow> dedupe_indexed r"
    and "\<And>r. r \<in> set t \<Longrightarrow> P r \<Longrightarrow> (wt_tenant_id (f r), wt_kind (f r), wt_dedupe_key (f r)) =
      (wt_tenant_id r, wt_kind r, wt_dedupe_key r)"
  shows "tasks_update c P f t =
    Inr (map f (filter (\<lambda>r. rls_visible c (wt_tenant_id r) \<and> P r) t),
         upd_where (\<lambda>r. rls_visible c (wt_tenant_id r) \<and> P r) f t)"
proof -
  have "dedupe_index_ok (upd_where (\<lambda>r. rls_visible c (wt_tenant_id r) \<and> P r) f t)"
    unfolding dedupe_index_ok_def upd_where_def
    by (rule distinct_filter_map_cong [OF assms(1) [unfolded dedupe_index_ok_def]])
      (use assms(2,3) in \<open>auto split: if_splits\<close>)
  then show ?thesis by (simp add: tasks_update_def Let_def)
qed

section \<open>How one row may change\<close>

text \<open>
  The state machine of a row, as the statements of the repository write it. The lease
  renewal and a repeated cancel request leave the status alone; a claim takes over a
  running attempt whose lease expired.
\<close>

inductive status_edge :: "task_status \<Rightarrow> task_status \<Rightarrow> bool" where
  se_refl: "status_edge s s"
| se_claim: "s \<in> {Queued, RetryWait, Running, Reconciling, WaitingExternal} \<Longrightarrow> status_edge s Running"
| se_result: "s \<in> {Running, Reconciling, WaitingExternal} \<Longrightarrow>
    s' \<in> {Succeeded, Failed, RetryWait, Cancelled} \<Longrightarrow> status_edge s s'"
| se_wait: "status_edge Running WaitingExternal"
| se_reconcile: "s \<in> {WaitingExternal, Running} \<Longrightarrow> status_edge s Reconciling"
| se_cancel: "s \<in> {Queued, RetryWait} \<Longrightarrow> status_edge s Cancelled"
| se_requeue: "status_edge Failed Queued"

inductive_simps status_edge_succeeded: "status_edge Succeeded s"

inductive_simps status_edge_cancelled: "status_edge Cancelled s"

inductive_simps status_edge_failed: "status_edge Failed s"

inductive_simps status_edge_queued: "status_edge Queued s"

definition task_evolves :: "task \<Rightarrow> task \<Rightarrow> bool" where
  "task_evolves r r' \<longleftrightarrow>
     task_key r' = task_key r \<and> wt_kind r' = wt_kind r \<and> wt_dedupe_key r' = wt_dedupe_key r \<and>
     wt_fence r \<le> wt_fence r' \<and> status_edge (wt_status r) (wt_status r') \<and>
     (wt_fence r' = wt_fence r \<longrightarrow>
        wt_attempt r' = wt_attempt r \<and> wt_owner_id r' \<in> {wt_owner_id r, ''''}) \<and>
     (wt_status r \<in> {Succeeded, Cancelled} \<longrightarrow> r' = r) \<and>
     (wt_status r = Failed \<longrightarrow> r' = r \<or> wt_status r' = Queued) \<and>
     (task_row_ok r \<longrightarrow> task_row_ok r')"

definition tasks_evolve :: "tasks \<Rightarrow> tasks \<Rightarrow> bool" where
  "tasks_evolve t t' \<longleftrightarrow>
     (\<exists>u new. t' = u @ new \<and> list_all2 task_evolves t u \<and> distinct (map task_key new) \<and>
        (\<forall>r\<in>set new. task_row_ok r \<and> wt_status r = Queued \<and> task_key r \<notin> task_key ` set t))"

lemma task_evolves_refl [simp]: "task_evolves r r"
  by (simp add: task_evolves_def se_refl)

lemma tasks_evolveI: "list_all2 task_evolves t u \<Longrightarrow> tasks_evolve t u"
  unfolding tasks_evolve_def by (intro exI [of _ u] exI [of _ "[]"]) simp

lemma tasks_evolve_refl [simp]: "tasks_evolve t t"
  by (intro tasks_evolveI) (simp add: list_all2_refl)

lemma list_all2_upd_where:
  "(\<And>r. r \<in> set t \<Longrightarrow> P r \<Longrightarrow> task_evolves r (f r)) \<Longrightarrow> list_all2 task_evolves t (upd_where P f t)"
  by (induction t) (auto simp: upd_where_def)

lemma tasks_update_evolves:
  assumes "tasks_update c P f t = Inr (rows, t')"
    and "\<And>r. P r \<Longrightarrow> task_evolves r (f r)"
  shows "tasks_evolve t t' \<and> dedupe_index_ok t'"
proof -
  from assms(1) have t': "t' = upd_where (\<lambda>r. rls_visible c (wt_tenant_id r) \<and> P r) f t"
    and ok: "dedupe_index_ok t'" by (auto simp: tasks_update_Inr)
  have "list_all2 task_evolves t t'"
    unfolding t' by (rule list_all2_upd_where) (use assms(2) in auto)
  then show ?thesis using ok by (simp add: tasks_evolveI)
qed

lemma list_all2_task_key: "list_all2 task_evolves t u \<Longrightarrow> map task_key u = map task_key t"
  by (induction rule: list_all2_induct) (auto simp: task_evolves_def)

lemma list_all2_row_ok:
  "list_all2 task_evolves t u \<Longrightarrow> \<forall>r\<in>set t. task_row_ok r \<Longrightarrow> \<forall>r\<in>set u. task_row_ok r"
  by (induction rule: list_all2_induct) (simp_all add: task_evolves_def)

lemma tasks_evolve_inv:
  assumes "tasks_evolve t t'" and "dedupe_index_ok t'" and "tasks_inv t"
  shows "tasks_inv t'"
proof -
  from assms(1) obtain u new where t': "t' = u @ new" and ev: "list_all2 task_evolves t u"
    and new: "distinct (map task_key new)"
      "\<forall>r\<in>set new. task_row_ok r \<and> task_key r \<notin> task_key ` set t"
    unfolding tasks_evolve_def by (elim exE conjE) simp
  have keys: "map task_key u = map task_key t" by (rule list_all2_task_key [OF ev])
  then have kset: "task_key ` set u = task_key ` set t" by (metis list.set_map)
  have "\<forall>r\<in>set u. task_row_ok r"
    by (rule list_all2_row_ok [OF ev]) (use assms(3) in \<open>simp add: tasks_inv_def\<close>)
  moreover have "distinct (map task_key t')"
  proof -
    have "task_key ` set u \<inter> task_key ` set new = {}" unfolding kset by (rule disjoint_imageI) (use new(2) in simp)
    then show ?thesis using assms(3) keys kset new(1) by (simp add: t' tasks_inv_def)
  qed
  ultimately show ?thesis using new(2) assms(2) by (simp add: t' tasks_inv_def ball_Un)
qed

section \<open>Every operation changes rows along the state machine\<close>

lemma new_task_row_simps [row_simps]:
  "task_row_ok (new_task_row now e)" "wt_status (new_task_row now e) = Queued"
  "wt_fence (new_task_row now e) = 0"
  by (simp_all add: task_row_ok_def new_task_row_def active_for_result_def)

lemma enqueue_evolves:
  assumes "enqueue c now e t = Inr (tid, t')" and "dedupe_index_ok t"
  shows "tasks_evolve t t' \<and> dedupe_index_ok t'"
proof (cases "t' = t")
  case True
  with assms(2) show ?thesis by simp
next
  case False
  with assms(1) have "tasks_insert c (new_task_row now e) t = Inr t'"
    by (auto simp: enqueue_def bindE_Inr_iff split: option.splits if_splits)
  then have t': "t' = t @ [new_task_row now e]" "dedupe_index_ok t'"
    "task_key (new_task_row now e) \<notin> task_key ` set t"
    by (auto simp: tasks_insert_def split: if_splits)
  have "tasks_evolve t (t @ [new_task_row now e])"
    unfolding tasks_evolve_def
    by (intro exI [of _ t] exI [of _ "[new_task_row now e]"])
      (use t'(3) in \<open>simp add: row_simps list_all2_refl\<close>)
  then show ?thesis using t'(1,2) by simp
qed

lemma claim_pick_Some:
  "claim_pick c now locked kinds t = Some p \<Longrightarrow>
     p \<in> set t \<and> claimable c now kinds p \<and> \<not> locked (task_key p)"
  unfolding claim_pick_def by (drule first_by_mem) auto

text \<open>
  The rows a claim updates share the key of the picked row; on a table with its primary
  key, that is the picked row only.
\<close>

lemma claim_cases:
  assumes "claim c now locked owner secs kinds t = Inr (res, t')" and "tasks_inv t"
  obtains (none) "claim_pick c now locked kinds t = None" "res = None" "t' = t"
  | (some) p where "claim_pick c now locked kinds t = Some p"
      "res = Some (claimed_of owner (claim_set owner now secs p))"
      "t' = upd_where (\<lambda>r. task_key r = task_key p) (claim_set owner now secs) t"
      "dedupe_index_ok t'"
proof (cases "claim_pick c now locked kinds t")
  case None
  then have "res = None" "t' = t" using assms(1) by (simp_all add: claim_def)
  with None show thesis by (rule none)
next
  case (Some p)
  then have p: "p \<in> set t" "rls_visible c (wt_tenant_id p)"
    by (auto dest!: claim_pick_Some simp: claimable_def)
  have hits: "(\<lambda>r. rls_visible c (wt_tenant_id r) \<and> task_key r = task_key p) =
      (\<lambda>r. task_key r = task_key p)"
    using p(2) by (auto simp: rls_visible_def)
  have one: "filter (\<lambda>r. task_key r = task_key p) t = [p]"
    using assms(2) p(1) by (intro filter_key_single) (auto simp: tasks_inv_def)
  have "tasks_update c (\<lambda>r. task_key r = task_key p) (claim_set owner now secs) t =
    (let t1 = upd_where (\<lambda>r. task_key r = task_key p) (claim_set owner now secs) t
     in if dedupe_index_ok t1 then Inr ([claim_set owner now secs p], t1) else Inl UniqueViolation)"
    unfolding tasks_update_def Let_def hits one by simp
  then have "res = Some (claimed_of owner (claim_set owner now secs p))"
    "t' = upd_where (\<lambda>r. task_key r = task_key p) (claim_set owner now secs) t"
    "dedupe_index_ok t'"
    using assms(1) Some
    by (simp_all add: claim_def Let_def split: if_splits)
  with Some show thesis by (rule some)
qed

lemma claim_set_evolves:
  assumes "claim_ready now r"
  shows "task_evolves r (claim_set owner now secs r)"
proof -
  have st: "wt_status r \<in> {Queued, RetryWait, Running, Reconciling, WaitingExternal}"
    using assms by (auto simp: claim_ready_def)
  then have "status_edge (wt_status r) Running" by (rule se_claim)
  with st show ?thesis
    by (auto simp add: task_evolves_def claim_set_def task_row_ok_def active_for_result_def)
qed

lemma claim_evolves:
  assumes "claim c now locked owner secs kinds t = Inr (res, t')" and "tasks_inv t"
  shows "tasks_evolve t t' \<and> dedupe_index_ok t'"
  using assms
proof (cases rule: claim_cases)
  case none
  with assms(2) show ?thesis by (simp add: tasks_inv_def)
next
  case (some p)
  then have p: "p \<in> set t" "claim_ready now p" by (auto dest!: claim_pick_Some simp: claimable_def)
  have "list_all2 task_evolves t t'"
    unfolding some(3)
  proof (rule list_all2_upd_where)
    fix r assume "r \<in> set t" "task_key r = task_key p"
    with p(1) assms(2) have "r = p"
      unfolding tasks_inv_def using distinct_key_eq [of task_key t r p] by blast
    with p(2) show "task_evolves r (claim_set owner now secs r)" by (simp add: claim_set_evolves)
  qed
  with some(4) show ?thesis by (simp add: tasks_evolveI)
qed

lemma in_list_cases:
  "x \<in> set [a] \<Longrightarrow> (x = a \<Longrightarrow> P) \<Longrightarrow> P"
  "x \<in> set [a, b] \<Longrightarrow> (x = a \<Longrightarrow> P) \<Longrightarrow> (x = b \<Longrightarrow> P) \<Longrightarrow> P"
  "x \<in> set [a, b, d] \<Longrightarrow> (x = a \<Longrightarrow> P) \<Longrightarrow> (x = b \<Longrightarrow> P) \<Longrightarrow> (x = d \<Longrightarrow> P) \<Longrightarrow> P"
  by auto

lemmas row_change_simps = task_evolves_def task_row_ok_def active_for_result_def
  terminal_states_def status_edge.simps

lemma heartbeat_evolves:
  assumes "heartbeat c now clock tid owner fence secs t = Inr (b, t')"
  shows "tasks_evolve t t' \<and> dedupe_index_ok t'"
proof -
  from assms obtain rows where
    "tasks_update c
       (\<lambda>r. guarded_by tid owner fence r \<and>
            wt_status r \<in> {Running, Reconciling, WaitingExternal} \<and> lease_live clock r)
       (\<lambda>r. r\<lparr>wt_lease_until := Some (now + secs), wt_updated_at := now\<rparr>) t = Inr (rows, t')"
    unfolding heartbeat_def bindE_pair_Inr by blast
  then show ?thesis
    by (rule tasks_update_evolves)
      (auto simp: row_change_simps)
qed

lemma transition_evolves:
  assumes "transition c now tid owner fence sets from t = Inr (b, t')"
    and "\<And>r. wt_status r \<in> set from \<Longrightarrow> task_evolves r ((sets r)\<lparr>wt_updated_at := now\<rparr>)"
  shows "tasks_evolve t t' \<and> dedupe_index_ok t'"
proof -
  from assms(1) obtain rows where
    "tasks_update c (\<lambda>r. guarded_by tid owner fence r \<and> wt_status r \<in> set from)
       (\<lambda>r. (sets r)\<lparr>wt_updated_at := now\<rparr>) t = Inr (rows, t')"
    unfolding transition_def bindE_pair_Inr by blast
  then show ?thesis by (rule tasks_update_evolves) (use assms(2) in auto)
qed

lemma fenced_ops_evolve:
  "succeed c now tid owner fence ref t = Inr (b, t') \<Longrightarrow> tasks_evolve t t' \<and> dedupe_index_ok t'"
  "fail_task c now tid owner fence code t = Inr (b, t') \<Longrightarrow> tasks_evolve t t' \<and> dedupe_index_ok t'"
  "retry_task c now tid owner fence backoff code t = Inr (b, t') \<Longrightarrow>
     tasks_evolve t t' \<and> dedupe_index_ok t'"
  "wait_external c now tid owner fence up t = Inr (b, t') \<Longrightarrow> tasks_evolve t t' \<and> dedupe_index_ok t'"
  "reconcile_task c now tid owner fence t = Inr (b, t') \<Longrightarrow> tasks_evolve t t' \<and> dedupe_index_ok t'"
  "mark_cancelled c now tid owner fence t = Inr (b, t') \<Longrightarrow> tasks_evolve t t' \<and> dedupe_index_ok t'"
  unfolding op_defs active_for_result_def
  by (erule transition_evolves, elim in_list_cases; simp add: row_change_simps)+

lemma request_cancel_evolves:
  assumes "request_cancel c now tid t = Inr (s, t')"
  shows "tasks_evolve t t' \<and> dedupe_index_ok t'"
proof -
  from assms obtain rows where
    "tasks_update c
       (\<lambda>r. wt_task_id r = tid \<and> wt_status r \<notin> set terminal_states)
       (\<lambda>r. r\<lparr>wt_cancel_requested := True,
             wt_status := (if wt_status r \<in> {Queued, RetryWait} then Cancelled else wt_status r),
             wt_updated_at := now\<rparr>) t = Inr (rows, t')"
    unfolding request_cancel_def bindE_pair_Inr by blast
  then show ?thesis
    by (rule tasks_update_evolves)
      (auto simp: row_change_simps)
qed

lemma requeued_evolves:
  assumes "wt_status r = Failed" and "wt_status r' = Queued" and "task_key r' = task_key r"
    and "wt_kind r' = wt_kind r" and "wt_dedupe_key r' = wt_dedupe_key r"
    and "wt_fence r' = wt_fence r" and "wt_attempt r' = wt_attempt r"
    and "wt_owner_id r' = ''''" and "wt_lease_until r' = None"
  shows "task_evolves r r'"
proof -
  have "status_edge (wt_status r) (wt_status r')" unfolding assms(1,2) by (rule se_requeue)
  with assms show ?thesis
    by (simp add: task_evolves_def task_row_ok_def active_for_result_def)
qed

lemma requeue_evolves:
  assumes "requeue c now tid t = Inr (s, t')"
  shows "tasks_evolve t t' \<and> dedupe_index_ok t'"
proof -
  from assms obtain rows where
    "tasks_update c (\<lambda>r. wt_task_id r = tid \<and> wt_status r = Failed)
       (\<lambda>r. r\<lparr>wt_status := Queued, wt_owner_id := '''', wt_lease_until := None,
             wt_cancel_requested := False, wt_error_code := '''', wt_available_at := now,
             wt_updated_at := now\<rparr>) t = Inr (rows, t')"
    unfolding requeue_def bindE_pair_Inr by blast
  then show ?thesis by (rule tasks_update_evolves) (rule requeued_evolves; simp)
qed

section \<open>Steps and reachable tables\<close>

text \<open>
  One rule per repository operation that writes the table, for any connection, clock,
  caller and arguments: the interleaving of every API replica and worker.
\<close>

inductive task_step_on :: "conn \<Rightarrow> tasks \<Rightarrow> tasks \<Rightarrow> bool" where
  ts_enqueue: "enqueue c now e t = Inr (tid, t') \<Longrightarrow> task_step_on c t t'"
| ts_claim: "claim c now locked owner secs kinds t = Inr (res, t') \<Longrightarrow> task_step_on c t t'"
| ts_heartbeat: "heartbeat c now clock tid owner fence secs t = Inr (b, t') \<Longrightarrow> task_step_on c t t'"
| ts_succeed: "succeed c now tid owner fence ref t = Inr (b, t') \<Longrightarrow> task_step_on c t t'"
| ts_fail: "fail_task c now tid owner fence code t = Inr (b, t') \<Longrightarrow> task_step_on c t t'"
| ts_retry: "retry_task c now tid owner fence backoff code t = Inr (b, t') \<Longrightarrow> task_step_on c t t'"
| ts_wait: "wait_external c now tid owner fence up t = Inr (b, t') \<Longrightarrow> task_step_on c t t'"
| ts_reconcile: "reconcile_task c now tid owner fence t = Inr (b, t') \<Longrightarrow> task_step_on c t t'"
| ts_request_cancel: "request_cancel c now tid t = Inr (s, t') \<Longrightarrow> task_step_on c t t'"
| ts_mark_cancelled: "mark_cancelled c now tid owner fence t = Inr (b, t') \<Longrightarrow> task_step_on c t t'"
| ts_requeue: "requeue c now tid t = Inr (s, t') \<Longrightarrow> task_step_on c t t'"

definition task_step :: "tasks \<Rightarrow> tasks \<Rightarrow> bool" where
  "task_step t t' \<longleftrightarrow> (\<exists>c. task_step_on c t t')"

inductive tasks_reachable :: "tasks \<Rightarrow> bool" where
  tr_start: "tasks_reachable []"
| tr_step: "tasks_reachable t \<Longrightarrow> task_step t t' \<Longrightarrow> tasks_reachable t'"

lemma task_step_evolves:
  assumes "task_step t t'" and "tasks_inv t"
  shows "tasks_evolve t t' \<and> dedupe_index_ok t'"
proof -
  have "dedupe_index_ok t" using assms(2) by (simp add: tasks_inv_def)
  from assms(1) obtain c where "task_step_on c t t'" by (auto simp: task_step_def)
  then show ?thesis using \<open>dedupe_index_ok t\<close> assms(2)
    by (cases rule: task_step_on.cases)
      (erule (1) enqueue_evolves claim_evolves |
        erule heartbeat_evolves fenced_ops_evolve request_cancel_evolves requeue_evolves)+
qed

lemma task_step_inv: "task_step t t' \<Longrightarrow> tasks_inv t \<Longrightarrow> tasks_inv t'"
  using task_step_evolves tasks_evolve_inv by blast

lemma reachable_tasks_inv: "tasks_reachable t \<Longrightarrow> tasks_inv t"
  by (induction rule: tasks_reachable.induct) (auto intro: tasks_inv_empty task_step_inv)

section \<open>Fencing\<close>

definition task_fence :: "string \<times> string \<Rightarrow> tasks \<Rightarrow> int option" where
  "task_fence k t = map_option wt_fence (find (\<lambda>r. task_key r = k) t)"

definition task_claimed :: "string \<times> string \<Rightarrow> int \<Rightarrow> tasks \<Rightarrow> tasks \<Rightarrow> bool" where
  "task_claimed k f t t' \<longleftrightarrow>
     (\<exists>c now locked owner secs kinds ct. claim c now locked owner secs kinds t = Inr (Some ct, t') \<and>
        (ct_tenant_id ct, ct_task_id ct) = k \<and> ct_fence ct = f)"

text \<open>A fenced statement that reports it changed a row of tenant and task \<open>k\<close> under fence \<open>f\<close>.\<close>

definition task_written :: "string \<times> string \<Rightarrow> int \<Rightarrow> tasks \<Rightarrow> tasks \<Rightarrow> bool" where
  "task_written k f t t' \<longleftrightarrow>
     (\<exists>now clock owner secs ref code backoff up.
        heartbeat (fst k) now clock (snd k) owner f secs t = Inr (True, t') \<or>
        succeed (fst k) now (snd k) owner f ref t = Inr (True, t') \<or>
        fail_task (fst k) now (snd k) owner f code t = Inr (True, t') \<or>
        retry_task (fst k) now (snd k) owner f backoff code t = Inr (True, t') \<or>
        wait_external (fst k) now (snd k) owner f up t = Inr (True, t') \<or>
        reconcile_task (fst k) now (snd k) owner f t = Inr (True, t') \<or>
        mark_cancelled (fst k) now (snd k) owner f t = Inr (True, t'))"

lemma find_evolves:
  assumes "list_all2 task_evolves t u" and "find (\<lambda>r. task_key r = k) t = Some r"
  shows "\<exists>r'. find (\<lambda>r. task_key r = k) u = Some r' \<and> task_evolves r r'"
  using assms by (induction rule: list_all2_induct) (auto simp: task_evolves_def split: if_splits)

lemma find_append_Some: "find P xs = Some x \<Longrightarrow> find P (xs @ ys) = Some x"
  by (induction xs) auto

lemma tasks_evolve_find:
  "tasks_evolve t t' \<Longrightarrow> find (\<lambda>r. task_key r = k) t = Some r \<Longrightarrow>
   \<exists>r'. find (\<lambda>r. task_key r = k) t' = Some r' \<and> task_evolves r r'"
  unfolding tasks_evolve_def by (blast dest: find_evolves intro: find_append_Some)

lemma find_task_key:
  "tasks_inv t \<Longrightarrow> r \<in> set t \<Longrightarrow> find (\<lambda>r'. task_key r' = task_key r) t = Some r"
  unfolding tasks_inv_def using find_distinct_key [of task_key t r] by blast

lemma updated_row:
  assumes "tasks_update c P f t = Inr (rows, t')" and "rows \<noteq> []"
  obtains r where "r \<in> set t" "P r" "wt_tenant_id r = c"
proof -
  from assms have "filter (\<lambda>r. rls_visible c (wt_tenant_id r) \<and> P r) t \<noteq> []"
    by (auto simp: tasks_update_Inr)
  then show thesis using that by (auto simp: filter_empty_conv rls_visible_def)
qed

lemma heartbeat_row:
  assumes "heartbeat c now clock tid owner fence secs t = Inr (True, t')"
  obtains r where "r \<in> set t" "wt_tenant_id r = c" "guarded_by tid owner fence r"
    "wt_status r \<in> set active_for_result" "lease_live clock r"
proof -
  from assms obtain rows where "rows \<noteq> []"
    "tasks_update c
       (\<lambda>r. guarded_by tid owner fence r \<and>
            wt_status r \<in> {Running, Reconciling, WaitingExternal} \<and> lease_live clock r)
       (\<lambda>r. r\<lparr>wt_lease_until := Some (now + secs), wt_updated_at := now\<rparr>) t = Inr (rows, t')"
    unfolding heartbeat_def bindE_pair_Inr by blast
  then show thesis by (auto simp: active_for_result_def elim!: updated_row intro!: that)
qed

lemma transition_row:
  assumes "transition c now tid owner fence sets from t = Inr (True, t')"
  obtains r where "r \<in> set t" "wt_tenant_id r = c" "guarded_by tid owner fence r"
    "wt_status r \<in> set from"
proof -
  from assms obtain rows where "rows \<noteq> []"
    "tasks_update c (\<lambda>r. guarded_by tid owner fence r \<and> wt_status r \<in> set from)
       (\<lambda>r. (sets r)\<lparr>wt_updated_at := now\<rparr>) t = Inr (rows, t')"
    unfolding transition_def bindE_pair_Inr by blast
  then show thesis by (auto elim!: updated_row intro!: that)
qed

lemma task_written_row:
  assumes "task_written k f t t'"
  obtains r where "r \<in> set t" "task_key r = k" "wt_fence r = f" "wt_status r \<in> set active_for_result"
  using assms unfolding task_written_def op_defs
  by (cases k)
    (auto simp: guarded_by_def active_for_result_def elim!: heartbeat_row transition_row intro!: that)

lemma task_claimed_row:
  assumes "task_claimed k f t t'" and "tasks_inv t"
  obtains p where "p \<in> set t" "task_key p = k" "wt_fence p + 1 = f" "task_fence k t' = Some f"
proof -
  from assms(1) obtain c now locked owner secs kinds ct where
    cl: "claim c now locked owner secs kinds t = Inr (Some ct, t')"
    and k: "(ct_tenant_id ct, ct_task_id ct) = k" "ct_fence ct = f"
    unfolding task_claimed_def by blast
  from cl assms(2) show thesis
  proof (cases rule: claim_cases)
    case none
    then show thesis by simp
  next
    case (some p)
    then have p: "p \<in> set t" by (auto dest: claim_pick_Some)
    have key: "task_key p = k" and fence: "wt_fence p + 1 = f"
      using some(2) k by (auto simp: claimed_of_def claim_set_def)
    have "find (\<lambda>r. task_key r = k) t = Some p"
      unfolding key [symmetric] by (rule find_task_key [OF assms(2) p])
    then have "find (\<lambda>r. task_key r = k) t' = Some (claim_set owner now secs p)"
      unfolding some(3) by (subst find_upd_where) (simp_all add: claim_set_def key)
    then have "task_fence k t' = Some f"
      using fence by (simp add: task_fence_def claim_set_def)
    with p key fence show thesis by (rule that)
  qed
qed

interpretation task_fencing: fenced_store tasks_inv task_step task_fence task_claimed task_written
proof
  fix t t' :: tasks
  show "tasks_inv t \<Longrightarrow> task_step t t' \<Longrightarrow> tasks_inv t'" by (rule task_step_inv)
  fix k f g
  show "tasks_inv t \<Longrightarrow> task_claimed k f t t' \<Longrightarrow> task_step t t'"
    unfolding task_claimed_def task_step_def by (blast intro: ts_claim)
  show "\<exists>f'. task_fence k t' = Some f' \<and> f \<le> f'"
    if "tasks_inv t" "task_step t t'" "task_fence k t = Some f"
    using that task_step_evolves [of t t'] tasks_evolve_find [of t t' k]
    unfolding task_fence_def task_evolves_def by force
  show "tasks_inv t \<Longrightarrow> task_claimed k f t t' \<Longrightarrow> task_fence k t' = Some f"
    by (erule (1) task_claimed_row)
  show "g < f" if "tasks_inv t" "task_claimed k f t t'" "task_fence k t = Some g"
  proof -
    from that(2,1) obtain p where p: "p \<in> set t" "task_key p = k" "wt_fence p + 1 = f"
      by (rule task_claimed_row)
    from find_task_key [OF that(1) p(1)] that(3) p(2,3) show ?thesis by (simp add: task_fence_def)
  qed
  show "task_fence k t = Some f" if "tasks_inv t" "task_written k f t t'"
  proof -
    from that(2) obtain r where r: "r \<in> set t" "task_key r = k" "wt_fence r = f"
      by (rule task_written_row)
    from find_task_key [OF that(1) r(1)] r(2,3) show ?thesis by (simp add: task_fence_def)
  qed
qed

text \<open>A fenced statement that finds no row under its guard reports \<open>False\<close> and changes nothing.\<close>

lemma guarded_update_misses:
  assumes "dedupe_index_ok t"
    and "\<And>r. r \<in> set t \<Longrightarrow> wt_tenant_id r = c \<Longrightarrow> \<not> guarded_by tid owner fence r"
  shows "tasks_update c (\<lambda>r. guarded_by tid owner fence r \<and> Q r) f t = Inr ([], t)"
proof -
  have "filter (\<lambda>r. rls_visible c (wt_tenant_id r) \<and> guarded_by tid owner fence r \<and> Q r) t = []"
    "upd_where (\<lambda>r. rls_visible c (wt_tenant_id r) \<and> guarded_by tid owner fence r \<and> Q r) f t = t"
    using assms(2) by (auto simp: rls_visible_def filter_empty_conv intro!: upd_where_none)
  with assms(1) show ?thesis by (simp add: tasks_update_def Let_def)
qed

lemma fenced_ops_miss:
  assumes "dedupe_index_ok t"
    and "\<And>r. r \<in> set t \<Longrightarrow> wt_tenant_id r = c \<Longrightarrow> \<not> guarded_by tid owner fence r"
  shows "heartbeat c now clock tid owner fence secs t = Inr (False, t)"
    and "transition c now tid owner fence sets from t = Inr (False, t)"
  by (simp_all add: heartbeat_def transition_def guarded_update_misses [OF assms])

end
