(* ===== verification/TaskProperties.thy ===== *)
theory TaskProperties imports TaskInvariants begin

text \<open>The properties of the task queue, over every reachable table.\<close>

section \<open>Claiming\<close>

interpretation claim_order: weak_order claim_before
  by unfold_locales (auto simp: claim_before_def)

lemma claim_never_fails:
  assumes "tasks_inv t"
  shows "\<exists>res t'. claim c now locked owner secs kinds t = Inr (res, t')"
proof (cases "claim_pick c now locked kinds t")
  case None
  then show ?thesis by (simp add: claim_def)
next
  case (Some p)
  then have p: "p \<in> set t" "claim_ready now p" by (auto dest!: claim_pick_Some simp: claimable_def)
  have same: "r = p" if "r \<in> set t" "task_key r = task_key p" for r
    using that p(1) assms distinct_key_eq [of task_key t r p] by (auto simp: tasks_inv_def)
  have live: "dedupe_indexed (claim_set owner now secs r) \<Longrightarrow> dedupe_indexed r"
    if "r \<in> set t" "task_key r = task_key p" for r
    using p(2) same [OF that] by (auto simp: dedupe_indexed_def claim_set_def claim_ready_def terminal_states_def)
  have "\<exists>x. tasks_update c (\<lambda>r. task_key r = task_key p) (claim_set owner now secs) t = Inr x"
    by (subst tasks_update_total) (use assms live in \<open>simp_all add: tasks_inv_def claim_set_def\<close>)
  then obtain rows t1 where
    upd: "tasks_update c (\<lambda>r. task_key r = task_key p) (claim_set owner now secs) t = Inr (rows, t1)"
    by auto
  show ?thesis
    unfolding claim_def Some option.case upd by (cases rows) simp_all
qed

text \<open>
  What a claim promises, without reference to how the statement finds the row: the ready
  unlocked row that no other such row precedes, or nothing when there is none.
\<close>

definition claim_spec ::
  "conn \<Rightarrow> rat \<Rightarrow> (string \<times> string \<Rightarrow> bool) \<Rightarrow> string \<Rightarrow> rat \<Rightarrow> string list \<Rightarrow> tasks \<Rightarrow>
   claimed_task option \<Rightarrow> tasks \<Rightarrow> bool" where
  "claim_spec c now locked owner secs kinds t res t' \<longleftrightarrow>
     (let ready = {r \<in> set t. claimable c now kinds r \<and> \<not> locked (task_key r)}
      in case res of
           None \<Rightarrow> ready = {} \<and> t' = t
         | Some ct \<Rightarrow> \<exists>p\<in>ready. {r \<in> ready. claim_before r p} = {} \<and>
             ct = claimed_of owner (claim_set owner now secs p) \<and>
             ct_attempt ct = wt_attempt p + 1 \<and> ct_fence ct = wt_fence p + 1 \<and>
             t' = map (\<lambda>r. if r = p then claim_set owner now secs p else r) t)"

lemma claim_matches:
  assumes "claim c now locked owner secs kinds t = Inr (res, t')" and "tasks_inv t"
  shows "claim_spec c now locked owner secs kinds t res t'"
  using assms
proof (cases rule: claim_cases)
  case none
  then show ?thesis by (auto simp: claim_spec_def claim_pick_def filter_empty_conv)
next
  case (some p)
  from some(1) have p: "p \<in> {r \<in> set t. claimable c now kinds r \<and> \<not> locked (task_key r)}"
    by (auto dest: claim_pick_Some)
  have first: "{r \<in> {r \<in> set t. claimable c now kinds r \<and> \<not> locked (task_key r)}. claim_before r p} = {}"
    using some(1) claim_order.first_is_minimal unfolding claim_pick_def by fastforce
  have t': "t' = map (\<lambda>r. if r = p then claim_set owner now secs p else r) t"
    unfolding some(3) upd_where_def
    using assms(2) p distinct_key_eq [of task_key t _ p] by (auto simp: tasks_inv_def)
  have nums: "ct_attempt (claimed_of owner (claim_set owner now secs p)) = wt_attempt p + 1"
    "ct_fence (claimed_of owner (claim_set owner now secs p)) = wt_fence p + 1"
    by (simp_all add: claimed_of_def claim_set_def)
  show ?thesis
    unfolding claim_spec_def Let_def some(2) option.case
    by (rule bexI [OF _ p]) (intro conjI first refl nums t')
qed

text \<open>
  C7: A late write of a superseded attempt is refused. When a worker claimed a task, any
  steps of any replicas followed, and the task was claimed again, then every later
  heartbeat or result write under the first claim's fence (by any owner) reports
  \<open>False\<close> and leaves the table as it is, whatever other steps came in between.
\<close>

theorem superseded_attempt_cannot_write:
  assumes "tasks_reachable t0"
    and "claim c now locked owner secs kinds t0 = Inr (Some ct, t1)"
    and "task_step\<^sup>*\<^sup>* t1 t2"
    and "claim c' now' locked' owner' secs' kinds' t2 = Inr (Some ct', t3)"
    and "ct_tenant_id ct' = ct_tenant_id ct" and "ct_task_id ct' = ct_task_id ct"
    and "task_step\<^sup>*\<^sup>* t3 t4"
    and "tenant = ct_tenant_id ct" and "tid = ct_task_id ct" and "fence = ct_fence ct"
  shows "heartbeat tenant now2 clock tid w fence lease t4 = Inr (False, t4) \<and>
    succeed tenant now2 tid w fence ref t4 = Inr (False, t4) \<and>
    fail_task tenant now2 tid w fence code t4 = Inr (False, t4) \<and>
    retry_task tenant now2 tid w fence backoff code t4 = Inr (False, t4) \<and>
    wait_external tenant now2 tid w fence up t4 = Inr (False, t4) \<and>
    reconcile_task tenant now2 tid w fence t4 = Inr (False, t4) \<and>
    mark_cancelled tenant now2 tid w fence t4 = Inr (False, t4)"
proof -
  let ?k = "(tenant, tid)"
  have "task_claimed ?k fence t0 t1" "\<exists>f'. task_claimed ?k f' t2 t3"
    using assms(2,4-6,8-10) unfolding task_claimed_def by fastforce+
  then obtain f' where cl: "task_claimed ?k fence t0 t1" "task_claimed ?k f' t2 t3" by blast
  from task_fencing.superseded_fence [OF reachable_tasks_inv [OF assms(1)] cl(1) assms(3) cl(2) assms(7)]
  obtain g where inv: "tasks_inv t4" and g: "task_fence ?k t4 = Some g" "fence < g" by blast
  have "\<not> guarded_by tid w fence r" if "r \<in> set t4" "wt_tenant_id r = tenant" for r
    using find_task_key [OF inv that(1)] that(2) g by (auto simp: task_fence_def guarded_by_def)
  moreover have "dedupe_index_ok t4" using inv by (simp add: tasks_inv_def)
  ultimately show ?thesis by (simp add: op_defs fenced_ops_miss)
qed

section \<open>The example table of the witnesses\<close>

definition demo_request :: enqueue_request where
  "demo_request =
     \<lparr>eq_tenant_id = ''acme'', eq_task_id = ''t1'', eq_kind = ''replay.run'', eq_subject_type = '''',
      eq_subject_id = '''', eq_schema_version = '''', eq_dedupe_key = ''d'', eq_payload_ref = '''',
      eq_payload_hash = '''', eq_config_revision = 0, eq_adapter_revision = 0, eq_trace_id = '''',
      eq_available_in_seconds = 0\<rparr>"

definition demo_queued :: task where
  "demo_queued = new_task_row 0 demo_request"

definition demo_first :: task where
  "demo_first = claim_set ''w1'' 0 60 demo_queued"

definition demo_second :: task where
  "demo_second = claim_set ''w2'' 61 60 demo_first"

lemmas demo_defs = demo_request_def demo_queued_def demo_first_def demo_second_def

lemma demo_enqueue: "enqueue ''acme'' 0 demo_request [] = Inr (''t1'', [demo_queued])"
  by (simp add: enqueue_def enqueue_dedupe_lookup_def tasks_insert_def rls_visible_def
      dedupe_index_ok_def new_task_row_def demo_defs)

lemmas claim_eval_defs = claim_def claim_pick_def claimable_def claim_ready_def kind_matches_def
  rls_visible_def tasks_update_def Let_def upd_where_def dedupe_index_ok_def claim_set_def
  new_task_row_def claimed_of_def

lemma demo_claim_first:
  "claim ''acme'' 0 (\<lambda>_. False) ''w1'' 60 [] [demo_queued] =
     Inr (Some (claimed_of ''w1'' demo_first), [demo_first])"
  by (simp add: claim_eval_defs demo_defs)

lemma demo_claim_second:
  "claim ''acme'' 61 (\<lambda>_. False) ''w2'' 60 [] [demo_first] =
     Inr (Some (claimed_of ''w2'' demo_second), [demo_second])"
  by (simp add: claim_eval_defs demo_defs)

lemma demo_reachable:
  "tasks_reachable [demo_queued]" "tasks_reachable [demo_first]" "tasks_reachable [demo_second]"
proof -
  show q: "tasks_reachable [demo_queued]"
    by (rule tr_step [OF tr_start]) (auto simp: task_step_def intro: ts_enqueue demo_enqueue)
  show f: "tasks_reachable [demo_first]"
    by (rule tr_step [OF q]) (auto simp: task_step_def intro: ts_claim demo_claim_first)
  show "tasks_reachable [demo_second]"
    by (rule tr_step [OF f]) (auto simp: task_step_def intro: ts_claim demo_claim_second)
qed

theorem superseded_attempt_cannot_write_witness:
  "ct_fence (claimed_of ''w1'' demo_first) = 1 \<and>
   succeed ''acme'' 62 ''t1'' ''w1'' 1 ''r'' [demo_second] = Inr (False, [demo_second])"
proof -
  have f: "ct_fence (claimed_of ''w1'' demo_first) = 1"
    by (simp add: claimed_of_def demo_defs claim_set_def new_task_row_def)
  have same: "ct_tenant_id (claimed_of ''w2'' demo_second) = ct_tenant_id (claimed_of ''w1'' demo_first)"
    "ct_task_id (claimed_of ''w2'' demo_second) = ct_task_id (claimed_of ''w1'' demo_first)"
    "''acme'' = ct_tenant_id (claimed_of ''w1'' demo_first)"
    "''t1'' = ct_task_id (claimed_of ''w1'' demo_first)"
    by (simp_all add: claimed_of_def demo_defs claim_set_def new_task_row_def)
  show ?thesis
    using f superseded_attempt_cannot_write [OF demo_reachable(1) demo_claim_first rtranclp.rtrancl_refl
        demo_claim_second same(1,2) rtranclp.rtrancl_refl same(3,4) f [symmetric]] by blast
qed

text \<open>
  C8: Finished tasks stay finished. A row that is succeeded or cancelled is in every later
  table, unchanged in every column, whatever the replicas do.
\<close>

theorem terminal_rows_are_final:
  assumes "tasks_reachable t" and "task_step\<^sup>*\<^sup>* t t'" and "r \<in> set t"
    and "wt_status r \<in> {Succeeded, Cancelled}"
  shows "r \<in> set t'"
  using assms(2)
proof (induction rule: rtranclp_induct)
  case base
  show ?case by (rule assms(3))
next
  case (step y z)
  have "tasks_inv y"
    using step.hyps(1) reachable_tasks_inv [OF assms(1)] by (rule task_fencing.steps_ok)
  with step.hyps(2) have "tasks_evolve y z" by (simp add: task_step_evolves)
  then obtain u new where z: "z = u @ new" and ev: "list_all2 task_evolves y u"
    unfolding tasks_evolve_def by blast
  from ev step.IH obtain r' where "r' \<in> set u" "task_evolves r r'"
    by (metis in_set_conv_nth list_all2_conv_all_nth)
  with z assms(4) show ?case by (auto simp: task_evolves_def)
qed

definition demo_done :: task where
  "demo_done = demo_second\<lparr>wt_status := Succeeded, wt_result_ref := ''r'', wt_error_code := '''',
     wt_updated_at := 62\<rparr>"

lemma demo_succeed: "succeed ''acme'' 62 ''t1'' ''w2'' 2 ''r'' [demo_second] = Inr (True, [demo_done])"
  by (simp add: op_defs transition_def tasks_update_def Let_def guarded_by_def upd_where_def
      rls_visible_def dedupe_index_ok_def active_for_result_def demo_defs demo_done_def claim_set_def
      new_task_row_def)

theorem terminal_rows_are_final_witness:
  "task_step\<^sup>*\<^sup>* [demo_done] [demo_done] \<and> demo_done \<in> set [demo_done]"
proof -
  have r: "tasks_reachable [demo_done]"
    by (rule tr_step [OF demo_reachable(3)]) (auto simp: task_step_def intro: ts_succeed demo_succeed)
  have st: "wt_status demo_done \<in> {Succeeded, Cancelled}" by (simp add: demo_done_def)
  have "request_cancel ''acme'' 63 ''t1'' [demo_done] = Inr (None, [demo_done])"
    by (simp add: request_cancel_def tasks_update_def Let_def upd_where_def
        rls_visible_def dedupe_index_ok_def dedupe_indexed_def terminal_states_def demo_done_def)
  then have s: "task_step\<^sup>*\<^sup>* [demo_done] [demo_done]"
    by (intro r_into_rtranclp) (auto simp: task_step_def intro: ts_request_cancel)
  from s terminal_rows_are_final [OF r s _ st] show ?thesis by simp
qed

section \<open>Which row a claim takes\<close>

text \<open>
  C9: A claim takes the right row or none. It never raises; it returns no task, and changes
  nothing, exactly when every ready row of the tenant is locked by another transaction;
  otherwise the attempt is a ready unlocked row that no other such row precedes in
  \<open>available_at, created_at\<close> order, which becomes running under the owner with attempt
  and fence raised by one, and no other row changes.
\<close>

theorem claim_takes_first_ready_row:
  assumes "tasks_reachable t"
  shows "\<exists>res t'. claim c now locked owner secs kinds t = Inr (res, t') \<and>
    claim_spec c now locked owner secs kinds t res t'"
  using claim_never_fails claim_matches reachable_tasks_inv [OF assms] by blast

theorem claim_takes_first_ready_row_witness:
  "\<exists>ct t'. claim ''acme'' 0 (\<lambda>_. False) ''w1'' 60 [] [demo_queued] = Inr (Some ct, t') \<and> ct_attempt ct = 1"
  using claim_takes_first_ready_row [OF demo_reachable(1), of "''acme''" 0 "\<lambda>_. False" "''w1''" 60 "[]"]
  by (simp only: demo_claim_first prod.inject sum.inject option.inject)
    (auto simp: demo_defs new_task_row_def claimed_of_def claim_set_def)

section \<open>Deduplication\<close>

lemma dedupe_unique:
  assumes "dedupe_index_ok t" and "r \<in> set t" and "s \<in> set t"
    and "dedupe_indexed r" and "dedupe_indexed s"
    and "(wt_tenant_id r, wt_kind r, wt_dedupe_key r) = (wt_tenant_id s, wt_kind s, wt_dedupe_key s)"
  shows "r = s"
  using assms distinct_key_eq [of "\<lambda>r. (wt_tenant_id r, wt_kind r, wt_dedupe_key r)"
      "filter dedupe_indexed t" r s]
  by (simp add: dedupe_index_ok_def)

lemma enqueue_dedupe_hit:
  assumes "dedupe_index_ok t" and "r \<in> set t" and "wt_tenant_id r = c" and "c \<noteq> ''''"
    and "wt_kind r = eq_kind e" and "wt_dedupe_key r = eq_dedupe_key e" and "dedupe_indexed r"
  shows "enqueue c now e t = Inr (wt_task_id r, t)"
proof -
  obtain s where s: "enqueue_dedupe_lookup c e t = Some s"
    using assms(2-7) by (cases "enqueue_dedupe_lookup c e t")
      (auto simp: enqueue_dedupe_lookup_def find_None_iff rls_visible_def dedupe_indexed_def)
  then have "s \<in> set t" "wt_tenant_id s = c" "wt_kind s = eq_kind e"
    "wt_dedupe_key s = eq_dedupe_key e" "wt_status s \<notin> set terminal_states"
    by (auto simp: enqueue_dedupe_lookup_def rls_visible_def dest!: find_Some_mem)
  then have "r = s"
    by (intro dedupe_unique [OF assms(1,2)]) (use assms in \<open>auto simp: dedupe_indexed_def\<close>)
  then show ?thesis using s assms(6,7) by (simp add: enqueue_def dedupe_indexed_def)
qed

text \<open>
  One live task per dedupe key. On every reachable table two unfinished rows of one
  tenant with the same kind and the same non-empty dedupe key are the same row, and while
  such a row exists an enqueue with its key returns its task id and adds nothing.
\<close>

lemma live_dedupe_key_is_unique:
  assumes "tasks_reachable t" and "r \<in> set t" and "wt_tenant_id r = c" and "c \<noteq> ''''"
    and "wt_status r \<notin> set terminal_states" and "wt_dedupe_key r \<noteq> ''''"
  shows "{s \<in> set t. wt_tenant_id s = c \<and> wt_kind s = wt_kind r \<and>
       wt_dedupe_key s = wt_dedupe_key r \<and> wt_status s \<notin> set terminal_states} = {r} \<and>
    enqueue c now (e\<lparr>eq_kind := wt_kind r, eq_dedupe_key := wt_dedupe_key r\<rparr>) t =
      Inr (wt_task_id r, t)"
proof -
  have ok: "dedupe_index_ok t" using reachable_tasks_inv [OF assms(1)] by (simp add: tasks_inv_def)
  have r: "dedupe_indexed r" using assms(5,6) by (simp add: dedupe_indexed_def)
  have "s = r" if "s \<in> set t" "wt_tenant_id s = c" "wt_kind s = wt_kind r"
    "wt_dedupe_key s = wt_dedupe_key r" "wt_status s \<notin> set terminal_states" for s
    by (rule dedupe_unique [OF ok that(1) assms(2) _ r])
      (use that assms(3,6) in \<open>simp_all add: dedupe_indexed_def\<close>)
  then have "{s \<in> set t. wt_tenant_id s = c \<and> wt_kind s = wt_kind r \<and>
       wt_dedupe_key s = wt_dedupe_key r \<and> wt_status s \<notin> set terminal_states} = {r}"
    using assms by auto
  with enqueue_dedupe_hit [OF ok assms(2-4) _ _ r] show ?thesis by simp
qed

lemma live_dedupe_key_is_unique_witness:
  "enqueue ''acme'' 5 (demo_request\<lparr>eq_task_id := ''t2'', eq_kind := ''replay.run'', eq_dedupe_key := ''d''\<rparr>)
     [demo_queued] = Inr (''t1'', [demo_queued])"
  using live_dedupe_key_is_unique [OF demo_reachable(1), of demo_queued "''acme''" 5
      "demo_request\<lparr>eq_task_id := ''t2''\<rparr>"]
  by (simp add: demo_defs new_task_row_def terminal_states_def)

section \<open>Totality\<close>

lemma transition_total:
  assumes "tasks_inv t"
    and "\<And>r. wt_tenant_id (sets r) = wt_tenant_id r \<and> wt_kind (sets r) = wt_kind r \<and>
      wt_dedupe_key (sets r) = wt_dedupe_key r"
    and "set from \<inter> set terminal_states = {}"
  shows "\<exists>b t'. transition c now tid owner fence sets from t = Inr (b, t')"
  unfolding transition_def
  by (subst tasks_update_total)
    (use assms in \<open>auto simp: tasks_inv_def dedupe_indexed_def\<close>)

lemma heartbeat_total:
  assumes "tasks_inv t"
  shows "\<exists>b t'. heartbeat c now clock tid owner fence secs t = Inr (b, t')"
  unfolding heartbeat_def
  by (subst tasks_update_total)
    (use assms in \<open>auto simp: tasks_inv_def dedupe_indexed_def terminal_states_def\<close>)

lemma request_cancel_total:
  assumes "tasks_inv t"
  shows "\<exists>s t'. request_cancel c now tid t = Inr (s, t')"
  unfolding request_cancel_def
  by (subst tasks_update_total)
    (use assms in \<open>auto simp: tasks_inv_def dedupe_indexed_def\<close>)

text \<open>
  The worker's statements cannot fail on a constraint. On every reachable table a
  claim, a lease renewal, each fenced result write and a cancel request return a value,
  whatever the arguments: none of them can violate the dedupe index.
\<close>

lemma worker_statements_never_raise:
  assumes "tasks_reachable t"
  shows "(\<exists>x. claim c now locked owner secs kinds t = Inr x) \<and>
    (\<exists>x. heartbeat c now clock tid owner fence secs t = Inr x) \<and>
    (\<exists>x. succeed c now tid owner fence ref t = Inr x) \<and>
    (\<exists>x. fail_task c now tid owner fence code t = Inr x) \<and>
    (\<exists>x. retry_task c now tid owner fence backoff code t = Inr x) \<and>
    (\<exists>x. wait_external c now tid owner fence up t = Inr x) \<and>
    (\<exists>x. reconcile_task c now tid owner fence t = Inr x) \<and>
    (\<exists>x. mark_cancelled c now tid owner fence t = Inr x) \<and>
    (\<exists>x. request_cancel c now tid t = Inr x)"
proof -
  have inv: "tasks_inv t" using assms by (rule reachable_tasks_inv)
  note tr = transition_total [OF inv, of _ _ c now tid owner fence]
  have fenced: "\<exists>x. succeed c now tid owner fence ref t = Inr x"
    "\<exists>x. fail_task c now tid owner fence code t = Inr x"
    "\<exists>x. retry_task c now tid owner fence backoff code t = Inr x"
    "\<exists>x. wait_external c now tid owner fence up t = Inr x"
    "\<exists>x. reconcile_task c now tid owner fence t = Inr x"
    "\<exists>x. mark_cancelled c now tid owner fence t = Inr x"
    unfolding op_defs
    by (simp_all only: split_paired_Ex) (rule tr; simp add: active_for_result_def terminal_states_def)+
  show ?thesis
    unfolding split_paired_Ex
    using claim_never_fails [OF inv] heartbeat_total [OF inv] request_cancel_total [OF inv]
      fenced [unfolded split_paired_Ex]
    by (intro conjI) blast+
qed

lemma worker_statements_never_raise_witness:
  "\<exists>x. retry_task ''acme'' 9 ''t1'' ''w1'' 1 5 ''boom'' [demo_first] = Inr x"
  using worker_statements_never_raise [OF demo_reachable(2)] by blast

section \<open>Requeue\<close>

text \<open>What the statement sets, and what it does to the unique index of a table with the failed row.\<close>

definition requeued_row :: "rat \<Rightarrow> task \<Rightarrow> task" where
  "requeued_row now r = r\<lparr>wt_status := Queued, wt_owner_id := '''', wt_lease_until := None,
     wt_cancel_requested := False, wt_error_code := '''', wt_available_at := now, wt_updated_at := now\<rparr>"

lemma requeue_index:
  assumes "tasks_inv t" and "r \<in> set t" and "wt_status r = Failed"
  shows "dedupe_index_ok (upd_where (\<lambda>s. s = r) (requeued_row now) t) \<longleftrightarrow>
    wt_dedupe_key r = '''' \<or>
    \<not> (\<exists>s\<in>set t. wt_tenant_id s = wt_tenant_id r \<and> wt_kind s = wt_kind r \<and> wt_dedupe_key s = wt_dedupe_key r \<and>
       wt_status s \<notin> set terminal_states)"
proof -
  let ?k = "\<lambda>r. (wt_tenant_id r, wt_kind r, wt_dedupe_key r)"
  have dist: "distinct t" using assms(1) by (simp add: tasks_inv_def distinct_map)
  have held: "?k r \<in> ?k ` {s \<in> set t. dedupe_indexed s} \<longleftrightarrow> wt_dedupe_key r \<noteq> '''' \<and>
      (\<exists>s\<in>set t. wt_tenant_id s = wt_tenant_id r \<and> wt_kind s = wt_kind r \<and> wt_dedupe_key s = wt_dedupe_key r \<and>
         wt_status s \<notin> set terminal_states)"
    unfolding dedupe_indexed_def image_iff prod.inject by (simp add: Bex_def) metis
  show ?thesis
  proof (cases "wt_dedupe_key r = ''''")
    case True
    have "distinct (map ?k (filter dedupe_indexed (map (\<lambda>s. if s = r then requeued_row now s else s) t)))"
      by (rule distinct_filter_map_cong) (use True assms(1) in
        \<open>auto simp: tasks_inv_def dedupe_index_ok_def dedupe_indexed_def requeued_row_def split: if_splits\<close>)
    with True show ?thesis by (simp add: upd_where_def dedupe_index_ok_def)
  next
    case False
    have q: "dedupe_indexed (requeued_row now r)" "\<not> dedupe_indexed r"
      using False assms(3) by (simp_all add: dedupe_indexed_def terminal_states_def requeued_row_def)
    have "distinct (map ?k (filter dedupe_indexed t))" using assms(1) by (simp add: tasks_inv_def dedupe_index_ok_def)
    from distinct_activate [where f = "requeued_row now", OF dist assms(2) this q(2,1)] held False show ?thesis
      by (simp add: requeued_row_def dedupe_index_ok_def)
  qed
qed

text \<open>
  C10: What the operator's retry does to a failed task. It queues the row again, unowned,
  unleased and with the fence kept, unless the row has a dedupe key that an unfinished
  task of its tenant and kind now holds: then the statement violates the unique index and
  raises, and the caller gets no status.
\<close>

theorem requeue_of_failed_task:
  assumes "tasks_reachable t" and "r \<in> set t" and "wt_status r = Failed" and "wt_tenant_id r = c"
    and "c \<noteq> ''''"
  shows "requeue c now (wt_task_id r) t =
    (if wt_dedupe_key r \<noteq> '''' \<and>
        (\<exists>s\<in>set t. wt_tenant_id s = c \<and> wt_kind s = wt_kind r \<and> wt_dedupe_key s = wt_dedupe_key r \<and>
           wt_status s \<notin> set terminal_states)
     then Inl UniqueViolation
     else Inr (Some Queued, map (\<lambda>s. if s = r
       then r\<lparr>wt_status := Queued, wt_owner_id := '''', wt_lease_until := None,
              wt_cancel_requested := False, wt_error_code := '''', wt_available_at := now,
              wt_updated_at := now\<rparr> else s) t))"
proof -
  have inv: "tasks_inv t" using assms(1) by (rule reachable_tasks_inv)
  let ?hit = "\<lambda>s. rls_visible c (wt_tenant_id s) \<and> wt_task_id s = wt_task_id r \<and> wt_status s = Failed"
  have hit: "?hit s \<longleftrightarrow> s = r" if "s \<in> set t" for s
    using that assms(2-5) inv distinct_key_eq [of task_key t s r] by (auto simp: rls_visible_def tasks_inv_def)
  have one: "filter ?hit t = [r]"
    using filter_key_single [of id t r] inv assms(2) hit by (simp add: tasks_inv_def distinct_map cong: filter_cong)
  have upd: "upd_where ?hit (requeued_row now) t = upd_where (\<lambda>s. s = r) (requeued_row now) t"
    unfolding upd_where_def using hit by (intro map_cong) auto
  have "tasks_update c (\<lambda>s. wt_task_id s = wt_task_id r \<and> wt_status s = Failed) (requeued_row now) t =
    (if wt_dedupe_key r \<noteq> '''' \<and>
        (\<exists>s\<in>set t. wt_tenant_id s = c \<and> wt_kind s = wt_kind r \<and> wt_dedupe_key s = wt_dedupe_key r \<and>
           wt_status s \<notin> set terminal_states)
     then Inl UniqueViolation else Inr ([requeued_row now r], upd_where (\<lambda>s. s = r) (requeued_row now) t))"
    unfolding tasks_update_def Let_def one upd requeue_index [OF inv assms(2,3)] assms(4)
    by (simp only: list.map) auto
  then show ?thesis
    unfolding requeue_def requeued_row_def [abs_def] by (auto simp: upd_where_def cong: map_cong)
qed

definition demo_failed :: task where
  "demo_failed = demo_first\<lparr>wt_status := Failed, wt_error_code := ''boom'', wt_updated_at := 10\<rparr>"

definition demo_twin :: task where
  "demo_twin = new_task_row 11 (demo_request\<lparr>eq_task_id := ''t2''\<rparr>)"

lemma demo_fail: "fail_task ''acme'' 10 ''t1'' ''w1'' 1 ''boom'' [demo_first] = Inr (True, [demo_failed])"
  by (simp add: op_defs transition_def tasks_update_def Let_def guarded_by_def upd_where_def
      rls_visible_def dedupe_index_ok_def active_for_result_def demo_defs demo_failed_def claim_set_def
      new_task_row_def)

lemma demo_enqueue_twin:
  "enqueue ''acme'' 11 (demo_request\<lparr>eq_task_id := ''t2''\<rparr>) [demo_failed] =
     Inr (''t2'', [demo_failed, demo_twin])"
  by (simp add: enqueue_def enqueue_dedupe_lookup_def tasks_insert_def rls_visible_def
      dedupe_index_ok_def dedupe_indexed_def terminal_states_def new_task_row_def demo_defs
      demo_failed_def demo_twin_def claim_set_def)

lemma demo_twin_reachable: "tasks_reachable [demo_failed, demo_twin]"
proof -
  have "tasks_reachable [demo_failed]"
    by (rule tr_step [OF demo_reachable(2)]) (auto simp: task_step_def intro: ts_fail demo_fail)
  then show ?thesis
    by (rule tr_step) (auto simp: task_step_def intro: ts_enqueue demo_enqueue_twin)
qed

theorem requeue_of_failed_task_witness:
  "requeue ''acme'' 12 ''t1'' [demo_failed, demo_twin] = Inl UniqueViolation"
  using requeue_of_failed_task [OF demo_twin_reachable, of demo_failed "''acme''" 12]
  by (simp add: demo_failed_def demo_twin_def demo_defs claim_set_def new_task_row_def terminal_states_def)

section \<open>Tenant isolation\<close>

lemma tasks_update_other_tenants:
  assumes "tasks_update c P f t = Inr (rows, t')" and "\<And>r. wt_tenant_id (f r) = wt_tenant_id r"
  shows "filter (\<lambda>r. wt_tenant_id r \<noteq> c) t' = filter (\<lambda>r. wt_tenant_id r \<noteq> c) t"
proof -
  from assms(1) have "t' = upd_where (\<lambda>r. rls_visible c (wt_tenant_id r) \<and> P r) f t"
    by (simp add: tasks_update_Inr)
  then show ?thesis using assms(2) by (auto simp: rls_visible_def intro!: filter_upd_where)
qed

lemma transition_other_tenants:
  assumes "transition c now tid owner fence sets from t = Inr (b, t')"
    and "\<And>r. wt_tenant_id (sets r) = wt_tenant_id r"
  shows "filter (\<lambda>r. wt_tenant_id r \<noteq> c) t' = filter (\<lambda>r. wt_tenant_id r \<noteq> c) t"
proof -
  from assms(1) obtain rows where
    "tasks_update c (\<lambda>r. guarded_by tid owner fence r \<and> wt_status r \<in> set from)
       (\<lambda>r. (sets r)\<lparr>wt_updated_at := now\<rparr>) t = Inr (rows, t')"
    unfolding transition_def bindE_pair_Inr by blast
  then show ?thesis by (rule tasks_update_other_tenants) (simp add: assms(2))
qed

lemma claim_other_tenants:
  assumes "claim c now locked owner secs kinds t = Inr (res, t')"
  shows "filter (\<lambda>r. wt_tenant_id r \<noteq> c) t' = filter (\<lambda>r. wt_tenant_id r \<noteq> c) t"
proof (cases "claim_pick c now locked kinds t")
  case None
  with assms show ?thesis by (simp add: claim_def)
next
  case (Some p)
  with assms obtain rows where
    "tasks_update c (\<lambda>r. task_key r = task_key p) (claim_set owner now secs) t = Inr (rows, t')"
    by (auto simp: claim_def bindE_Inr_iff neq_Nil_conv split: list.splits)
  then show ?thesis by (rule tasks_update_other_tenants) (simp add: claim_set_def)
qed

lemma enqueue_other_tenants:
  assumes "enqueue c now e t = Inr (tid, t')"
  shows "filter (\<lambda>r. wt_tenant_id r \<noteq> c) t' = filter (\<lambda>r. wt_tenant_id r \<noteq> c) t"
  using assms
  by (auto simp: enqueue_def bindE_Inr_iff tasks_insert_def rls_visible_def new_task_row_def
      split: option.splits if_splits)

text \<open>
  C11: Tenant isolation. A repository statement on a tenant's connection leaves the rows of
  every other tenant as they are, in number, order and content, and a read on it returns
  only rows of that tenant.
\<close>

theorem other_tenants_untouched:
  assumes "task_step_on c t t'"
  shows "filter (\<lambda>r. wt_tenant_id r \<noteq> c) t' = filter (\<lambda>r. wt_tenant_id r \<noteq> c) t \<and>
    wt_tenant_id ` set_option (get_task c tid t') \<subseteq> {c}"
proof -
  have "filter (\<lambda>r. wt_tenant_id r \<noteq> c) t' = filter (\<lambda>r. wt_tenant_id r \<noteq> c) t"
    using assms
    by (cases rule: task_step_on.cases)
      (unfold op_defs heartbeat_def request_cancel_def requeue_def bindE_pair_Inr,
        (elim enqueue_other_tenants claim_other_tenants exE conjE transition_other_tenants
          tasks_update_other_tenants; simp)+)
  moreover have "wt_tenant_id ` set_option (get_task c tid t') \<subseteq> {c}"
    by (cases "get_task c tid t'") (auto simp: get_task_def rls_visible_def dest!: find_Some_mem)
  ultimately show ?thesis ..
qed

theorem other_tenants_untouched_witness:
  "filter (\<lambda>r. wt_tenant_id r \<noteq> ''acme'') [demo_failed, demo_twin] =
   filter (\<lambda>r. wt_tenant_id r \<noteq> ''acme'') [demo_failed]"
  using other_tenants_untouched [OF ts_enqueue [OF demo_enqueue_twin]] by blast

section \<open>The row invariant\<close>

text \<open>
  C12: What every row satisfies. On every reachable table the primary key is unique; a row's
  attempt number equals its fence; a waiting row has no owner and no lease; and a row an
  attempt may write a result for has been claimed at least once and has a lease.
\<close>

theorem reachable_rows_are_consistent:
  assumes "tasks_reachable t" and "r \<in> set t"
  shows "distinct (map task_key t) \<and> wt_attempt r = wt_fence r \<and> 0 \<le> wt_fence r \<and>
    (if wt_status r \<in> {Queued, RetryWait} then wt_owner_id r = '''' \<and> wt_lease_until r = None
     else if wt_status r \<in> set active_for_result then 1 \<le> wt_fence r \<and> wt_lease_until r \<noteq> None
     else True)"
  using reachable_tasks_inv [OF assms(1)] assms(2)
  by (auto simp: tasks_inv_def task_row_ok_def)

theorem reachable_rows_are_consistent_witness: "wt_attempt demo_second = wt_fence demo_second"
  using reachable_rows_are_consistent [OF demo_reachable(3), of demo_second] by simp

section \<open>Usage accounting\<close>

definition usage_of :: "string \<times> string \<times> string \<Rightarrow> usage list \<Rightarrow> int" where
  "usage_of k us = (case find (\<lambda>u. usage_key u = k) us of None \<Rightarrow> 0 | Some u \<Rightarrow> us_counter u)"

text \<open>
  Charging usage adds the amount to its own counter and to no other. On a table with
  its primary key a charge on the tenant's connection never fails, keeps the key, raises
  the counter of (tenant, metric, window) by the amount, counting an absent row as zero,
  and leaves every other counter.
\<close>

lemma charge_usage_counts:
  assumes "distinct (map usage_key us)" and "tenant \<noteq> ''''"
  shows "\<exists>us'. charge_usage tenant now tenant metric window amount us = Inr us' \<and>
    distinct (map usage_key us') \<and>
    usage_of k us' = usage_of k us + (if k = (tenant, metric, window) then amount else 0)"
proof (cases "(tenant, metric, window) \<in> usage_key ` set us")
  case True
  let ?f = "\<lambda>u. u\<lparr>us_counter := us_counter u + amount, us_updated_at := now\<rparr>"
  let ?us = "upd_where (\<lambda>u. usage_key u = (tenant, metric, window)) ?f us"
  have "charge_usage tenant now tenant metric window amount us = Inr ?us"
    using True assms(2) by (simp add: charge_usage_def rls_visible_def)
  moreover have "map usage_key ?us = map usage_key us" by (rule map_upd_where) simp
  moreover have "usage_of k ?us = usage_of k us + (if k = (tenant, metric, window) then amount else 0)"
  proof -
    have none: "k \<noteq> (tenant, metric, window)" if "find (\<lambda>u. usage_key u = k) us = None"
      using True that by (auto simp: find_None_iff)
    have up: "find (\<lambda>u. usage_key u = k) ?us = map_option
        (\<lambda>u. if usage_key u = (tenant, metric, window) then ?f u else u) (find (\<lambda>u. usage_key u = k) us)"
      by (rule find_upd_where) simp
    show ?thesis
    proof (cases "find (\<lambda>u. usage_key u = k) us")
      case None
      with none show ?thesis unfolding usage_of_def up by simp
    next
      case (Some u)
      then have "usage_key u = k" by (auto dest: find_Some_mem)
      with Some show ?thesis unfolding usage_of_def up by auto
    qed
  qed
  ultimately show ?thesis using assms(1) by (intro exI [of _ ?us] conjI) (simp only:)+
next
  case False
  let ?u = "\<lparr>us_tenant_id = tenant, us_metric = metric, us_window_key = window,
    us_counter = amount, us_updated_at = now\<rparr>"
  have c: "charge_usage tenant now tenant metric window amount us = Inr (us @ [?u])"
    using False assms(2) by (simp add: charge_usage_def rls_visible_def)
  have "distinct (map usage_key (us @ [?u]))" using False assms(1) by simp
  moreover have "usage_of k (us @ [?u]) =
      usage_of k us + (if k = (tenant, metric, window) then amount else 0)"
  proof -
    have "find (\<lambda>u. usage_key u = k) (us @ [?u]) =
        (case find (\<lambda>u. usage_key u = k) us of None \<Rightarrow> if usage_key ?u = k then Some ?u else None | x \<Rightarrow> x)"
      by (induction us) (simp_all split: option.splits)
    moreover have "find (\<lambda>u. usage_key u = k) us = None" if "k = (tenant, metric, window)"
      using False that by (auto simp: find_None_iff)
    ultimately show ?thesis unfolding usage_of_def by (auto split: option.splits)
  qed
  ultimately show ?thesis using c by blast
qed

lemma charge_usage_counts_witness:
  "\<exists>us'. charge_usage ''acme'' 1 ''acme'' ''replay'' ''2024-01'' 2 [] = Inr us' \<and>
     usage_of (''acme'', ''replay'', ''2024-01'') us' = 2"
  using charge_usage_counts [of "[]" "''acme''" 1 "''replay''" "''2024-01''" 2 "(''acme'', ''replay'', ''2024-01'')"]
  by (auto simp: usage_of_def)

end
