(* ===== verification/Leases.thy ===== *)
theory Leases imports TaskQueue Fencing begin

text \<open>
  Resource leases: the \<open>resource_leases\<close> table and \<open>ResourceLeaseRepository\<close>
  (teamEvolver/runtime/repository.py), and the \<open>LeaseGuard\<close> handlers use over it
  (teamEvolver/runtime/leases.py). Rows, connections and clocks are as in \<open>TaskQueue\<close>.
\<close>

section \<open>The table and its operations\<close>

record lease =
  rl_tenant_id :: string
  rl_resource_key :: string
  rl_owner_id :: string
  rl_fence :: int
  rl_lease_until :: "rat option"
  rl_updated_at :: rat

type_synonym leases = "lease list"

abbreviation lease_key :: "lease \<Rightarrow> string \<times> string" where
  "lease_key r \<equiv> (rl_tenant_id r, rl_resource_key r)"

text \<open>The \<open>WHERE\<close> of the upsert: held by the caller, released, or expired.\<close>

definition lease_grantable :: "rat \<Rightarrow> string \<Rightarrow> lease \<Rightarrow> bool" where
  "lease_grantable now owner r \<longleftrightarrow>
     rl_owner_id r = owner \<or> (case rl_lease_until r of None \<Rightarrow> True | Some l \<Rightarrow> l < now)"

definition lease_take :: "string \<Rightarrow> rat \<Rightarrow> rat \<Rightarrow> lease \<Rightarrow> lease" where
  "lease_take owner now secs r =
     r\<lparr>rl_owner_id := owner, rl_fence := rl_fence r + 1, rl_lease_until := Some (now + secs),
       rl_updated_at := now\<rparr>"

definition lease_acquire ::
  "conn \<Rightarrow> rat \<Rightarrow> string \<Rightarrow> string \<Rightarrow> string \<Rightarrow> rat \<Rightarrow> leases \<Rightarrow> db_error + (int option \<times> leases)" where
  "lease_acquire c now tenant key owner secs ls =
     (if \<not> rls_visible c tenant then Inl InsufficientPrivilege
      else case find (\<lambda>r. lease_key r = (tenant, key)) ls of
        None \<Rightarrow> Inr (Some 1, ls @ [\<lparr>rl_tenant_id = tenant, rl_resource_key = key,
                  rl_owner_id = owner, rl_fence = 1, rl_lease_until = Some (now + secs),
                  rl_updated_at = now\<rparr>])
      | Some r \<Rightarrow>
          if lease_grantable now owner r
          then Inr (Some (rl_fence r + 1),
                    upd_where (\<lambda>r. lease_key r = (tenant, key)) (lease_take owner now secs) ls)
          else Inr (None, ls))"

definition lease_held_by :: "string \<Rightarrow> string \<Rightarrow> string \<Rightarrow> int \<Rightarrow> lease \<Rightarrow> bool" where
  "lease_held_by tenant key owner fence r \<longleftrightarrow>
     lease_key r = (tenant, key) \<and> rl_owner_id r = owner \<and> rl_fence r = fence"

definition leases_update :: "conn \<Rightarrow> (lease \<Rightarrow> bool) \<Rightarrow> (lease \<Rightarrow> lease) \<Rightarrow> leases \<Rightarrow> bool \<times> leases" where
  "leases_update c P f ls =
     (let hit = (\<lambda>r. rls_visible c (rl_tenant_id r) \<and> P r) in (filter hit ls \<noteq> [], upd_where hit f ls))"

definition lease_heartbeat ::
  "conn \<Rightarrow> rat \<Rightarrow> rat \<Rightarrow> string \<Rightarrow> string \<Rightarrow> string \<Rightarrow> int \<Rightarrow> rat \<Rightarrow> leases \<Rightarrow> bool \<times> leases" where
  "lease_heartbeat c now clock tenant key owner fence secs =
     leases_update c
       (\<lambda>r. lease_held_by tenant key owner fence r \<and>
            (case rl_lease_until r of None \<Rightarrow> False | Some l \<Rightarrow> clock < l))
       (\<lambda>r. r\<lparr>rl_lease_until := Some (now + secs), rl_updated_at := now\<rparr>)"

definition lease_release ::
  "conn \<Rightarrow> rat \<Rightarrow> string \<Rightarrow> string \<Rightarrow> string \<Rightarrow> int \<Rightarrow> leases \<Rightarrow> bool \<times> leases" where
  "lease_release c now tenant key owner fence =
     leases_update c (lease_held_by tenant key owner fence)
       (\<lambda>r. r\<lparr>rl_owner_id := '''', rl_lease_until := None, rl_updated_at := now\<rparr>)"

section \<open>The guard\<close>

record lease_handle =
  lh_tenant_id :: string
  lh_resource_key :: string
  lh_owner_id :: string
  lh_fence :: int

definition guard_acquire ::
  "conn \<Rightarrow> rat \<Rightarrow> string \<Rightarrow> string \<Rightarrow> string \<Rightarrow> rat \<Rightarrow> leases \<Rightarrow>
   db_error + (lease_handle option \<times> leases)" where
  "guard_acquire c now tenant key owner secs ls =
     bindE (lease_acquire c now tenant key owner secs ls) (\<lambda>(f, ls'). Inr (case f of
        None \<Rightarrow> None
      | Some f \<Rightarrow> Some \<lparr>lh_tenant_id = tenant, lh_resource_key = key, lh_owner_id = owner, lh_fence = f\<rparr>,
        ls'))"

definition guard_heartbeat :: "conn \<Rightarrow> rat \<Rightarrow> rat \<Rightarrow> lease_handle \<Rightarrow> rat \<Rightarrow> leases \<Rightarrow> bool \<times> leases" where
  "guard_heartbeat c now clock h secs =
     lease_heartbeat c now clock (lh_tenant_id h) (lh_resource_key h) (lh_owner_id h) (lh_fence h) secs"

definition guard_release :: "conn \<Rightarrow> rat \<Rightarrow> lease_handle \<Rightarrow> leases \<Rightarrow> bool \<times> leases" where
  "guard_release c now h =
     lease_release c now (lh_tenant_id h) (lh_resource_key h) (lh_owner_id h) (lh_fence h)"

section \<open>Steps\<close>

text \<open>
  A step is one guard call; it carries who called and the transaction time, so that an
  interleaving can be restricted to callers and times.
\<close>

inductive lease_step_by :: "string \<Rightarrow> rat \<Rightarrow> leases \<Rightarrow> leases \<Rightarrow> bool" where
  ls_acquire: "lease_acquire c now tenant key owner secs ls = Inr (res, ls') \<Longrightarrow>
    lease_step_by owner now ls ls'"
| ls_heartbeat: "lease_heartbeat c now clock tenant key owner fence secs ls = (b, ls') \<Longrightarrow>
    lease_step_by owner now ls ls'"
| ls_release: "lease_release c now tenant key owner fence ls = (b, ls') \<Longrightarrow>
    lease_step_by owner now ls ls'"

definition lease_step :: "leases \<Rightarrow> leases \<Rightarrow> bool" where
  "lease_step ls ls' \<longleftrightarrow> (\<exists>owner now. lease_step_by owner now ls ls')"

definition leases_inv :: "leases \<Rightarrow> bool" where
  "leases_inv ls \<longleftrightarrow> distinct (map lease_key ls) \<and> (\<forall>r\<in>set ls. 1 \<le> rl_fence r)"

inductive leases_reachable :: "leases \<Rightarrow> bool" where
  lr_start: "leases_reachable []"
| lr_step: "leases_reachable ls \<Longrightarrow> lease_step ls ls' \<Longrightarrow> leases_reachable ls'"

abbreviation lease_at :: "string \<times> string \<Rightarrow> leases \<Rightarrow> lease option" where
  "lease_at k ls \<equiv> find (\<lambda>r. lease_key r = k) ls"

definition lease_fence :: "string \<times> string \<Rightarrow> leases \<Rightarrow> int option" where
  "lease_fence k ls = map_option rl_fence (lease_at k ls)"

lemma lease_at_update:
  assumes "\<And>r. lease_key (f r) = lease_key r"
  shows "lease_at k (upd_where P f ls) = map_option (\<lambda>r. if P r then f r else r) (lease_at k ls)"
  by (rule find_upd_where) (rule assms)

lemma lease_at_append:
  "lease_at k (ls @ [r]) = (case lease_at k ls of None \<Rightarrow> if lease_key r = k then Some r else None | x \<Rightarrow> x)"
  by (induction ls) (simp_all split: option.splits)

lemma lease_take_key: "lease_key (lease_take owner now secs r) = lease_key r"
  by (simp add: lease_take_def)

text \<open>What a guard call does to the row of one key: nothing, a take-over, a renewal or a release.\<close>

lemma lease_step_row:
  assumes "lease_step_by owner now ls ls'" and "lease_at k ls = Some r"
  obtains (same) "lease_at k ls' = Some r"
  | (take) secs where "lease_grantable now owner r" "lease_at k ls' = Some (lease_take owner now secs r)"
  | (renew) secs where "rl_owner_id r = owner"
      "lease_at k ls' = Some (r\<lparr>rl_lease_until := Some (now + secs), rl_updated_at := now\<rparr>)"
  | (release) "rl_owner_id r = owner"
      "lease_at k ls' = Some (r\<lparr>rl_owner_id := '''', rl_lease_until := None, rl_updated_at := now\<rparr>)"
  using assms(1)
proof cases
  case (ls_acquire c tenant key secs res)
  show thesis
  proof (cases "k = (tenant, key) \<and> lease_grantable now owner r")
    case True
    then have "lease_at k ls' = map_option
        (\<lambda>r. if lease_key r = (tenant, key) then lease_take owner now secs r else r) (lease_at k ls)"
      using ls_acquire assms(2) lease_at_update [of "lease_take owner now secs", OF lease_take_key]
      by (auto simp: lease_acquire_def split: if_splits)
    moreover have "lease_key r = k" using assms(2) by (auto dest: find_Some_mem)
    ultimately show thesis using True assms(2) take by simp
  next
    case False
    have "lease_at k ls' = Some r"
    proof (cases "k = (tenant, key)")
      case True
      with False have "\<not> lease_grantable now owner r" by simp
      then show ?thesis using True ls_acquire assms(2)
        by (simp add: lease_acquire_def split: if_splits)
    next
      case False
      have kr: "lease_key r = k" using assms(2) by (auto dest: find_Some_mem)
      consider "ls' = ls" | new where "ls' = ls @ [new]"
        | "ls' = upd_where (\<lambda>r. lease_key r = (tenant, key)) (lease_take owner now secs) ls"
        using ls_acquire by (auto simp: lease_acquire_def split: if_splits option.splits)
      then show ?thesis
      proof cases
        case 3
        show ?thesis
          unfolding 3 lease_at_update [of "lease_take owner now secs", OF lease_take_key] assms(2) option.map kr
          using False by (simp only: if_False)
      qed (use assms(2) in \<open>simp_all only: lease_at_append option.case\<close>)
    qed
    then show thesis by (rule same)
  qed
next
  case (ls_heartbeat c clock tenant key fence secs b)
  let ?hit = "\<lambda>r. rls_visible c (rl_tenant_id r) \<and> lease_held_by tenant key owner fence r \<and>
    (case rl_lease_until r of None \<Rightarrow> False | Some l \<Rightarrow> clock < l)"
  let ?f = "\<lambda>r. r\<lparr>rl_lease_until := Some (now + secs), rl_updated_at := now\<rparr>"
  have "ls' = upd_where ?hit ?f ls"
    using ls_heartbeat by (auto simp: lease_heartbeat_def leases_update_def Let_def)
  then have at: "lease_at k ls' = map_option (\<lambda>r. if ?hit r then ?f r else r) (lease_at k ls)"
    by (simp only:) (rule lease_at_update, simp)
  show thesis
  proof (cases "?hit r")
    case True
    then have "rl_owner_id r = owner" by (simp add: lease_held_by_def)
    moreover have "lease_at k ls' = Some (?f r)" unfolding at assms(2) option.map if_P [OF True] ..
    ultimately show thesis by (rule renew)
  next
    case False
    have "lease_at k ls' = Some r" unfolding at assms(2) option.map if_not_P [OF False] ..
    then show thesis by (rule same)
  qed
next
  case (ls_release c tenant key fence b)
  let ?hit = "\<lambda>r. rls_visible c (rl_tenant_id r) \<and> lease_held_by tenant key owner fence r"
  let ?f = "\<lambda>r. r\<lparr>rl_owner_id := '''', rl_lease_until := None, rl_updated_at := now\<rparr>"
  have "ls' = upd_where ?hit ?f ls"
    using ls_release by (auto simp: lease_release_def leases_update_def Let_def)
  then have at: "lease_at k ls' = map_option (\<lambda>r. if ?hit r then ?f r else r) (lease_at k ls)"
    by (simp only:) (rule lease_at_update, simp)
  show thesis
  proof (cases "?hit r")
    case True
    then have "rl_owner_id r = owner" by (simp add: lease_held_by_def)
    moreover have "lease_at k ls' = Some (?f r)" unfolding at assms(2) option.map if_P [OF True] ..
    ultimately show thesis by (rule release)
  next
    case False
    have "lease_at k ls' = Some r" unfolding at assms(2) option.map if_not_P [OF False] ..
    then show thesis by (rule same)
  qed
qed

section \<open>Fencing\<close>

lemma lease_step_at:
  assumes "lease_step_by owner now ls ls'" and "lease_at k ls = Some r"
  shows "\<exists>r'. lease_at k ls' = Some r' \<and> rl_fence r \<le> rl_fence r'"
  using assms by (cases rule: lease_step_row) (auto simp: lease_take_def)

lemma leases_inv_empty: "leases_inv []"
  by (simp add: leases_inv_def)

lemma leases_update_inv:
  assumes "leases_inv ls" and "\<And>r. lease_key (f r) = lease_key r" and "\<And>r. rl_fence r \<le> rl_fence (f r)"
  shows "leases_inv (upd_where P f ls)"
proof -
  have "map lease_key (upd_where P f ls) = map lease_key ls" by (rule map_upd_where) (rule assms(2))
  moreover have "\<forall>r\<in>set (upd_where P f ls). 1 \<le> rl_fence r"
    by (rule ball_upd_where) (use assms(1,3) in \<open>auto simp: leases_inv_def intro: order_trans\<close>)
  ultimately show ?thesis using assms(1) by (simp only: leases_inv_def)
qed

lemma lease_step_inv:
  assumes "lease_step_by owner now ls ls'" and "leases_inv ls"
  shows "leases_inv ls'"
  using assms(1)
proof cases
  case (ls_acquire c tenant key secs res)
  show ?thesis
  proof (cases "lease_at (tenant, key) ls")
    case None
    then have "(tenant, key) \<notin> lease_key ` set ls" by (auto simp: find_None_iff)
    with None ls_acquire assms(2) show ?thesis
      by (auto simp: lease_acquire_def leases_inv_def split: if_splits)
  next
    case (Some r)
    have "leases_inv (upd_where (\<lambda>r. lease_key r = (tenant, key)) (lease_take owner now secs) ls)"
      by (rule leases_update_inv [OF assms(2)]) (simp_all add: lease_take_def)
    with Some ls_acquire assms(2) show ?thesis by (auto simp: lease_acquire_def split: if_splits)
  qed
next
  case ls_heartbeat
  then show ?thesis
    by (auto simp: lease_heartbeat_def leases_update_def Let_def intro!: leases_update_inv assms(2))
next
  case ls_release
  then show ?thesis
    by (auto simp: lease_release_def leases_update_def Let_def intro!: leases_update_inv assms(2))
qed

definition lease_acquired :: "string \<times> string \<Rightarrow> int \<Rightarrow> leases \<Rightarrow> leases \<Rightarrow> bool" where
  "lease_acquired k f ls ls' \<longleftrightarrow>
     (\<exists>now owner secs. lease_acquire (fst k) now (fst k) (snd k) owner secs ls = Inr (Some f, ls'))"

definition lease_written :: "string \<times> string \<Rightarrow> int \<Rightarrow> leases \<Rightarrow> leases \<Rightarrow> bool" where
  "lease_written k f ls ls' \<longleftrightarrow>
     (\<exists>now clock owner secs.
        lease_heartbeat (fst k) now clock (fst k) (snd k) owner f secs ls = (True, ls') \<or>
        lease_release (fst k) now (fst k) (snd k) owner f ls = (True, ls'))"

lemma lease_acquired_row:
  assumes "lease_acquired k f ls ls'"
  shows "lease_fence k ls' = Some f \<and> (\<forall>g. lease_fence k ls = Some g \<longrightarrow> f = g + 1)"
proof -
  from assms obtain now owner secs where
    acq: "lease_acquire (fst k) now (fst k) (snd k) owner secs ls = Inr (Some f, ls')"
    unfolding lease_acquired_def by blast
  show ?thesis
  proof (cases "lease_at k ls")
    case None
    then have "ls' = ls @ [\<lparr>rl_tenant_id = fst k, rl_resource_key = snd k, rl_owner_id = owner,
        rl_fence = 1, rl_lease_until = Some (now + secs), rl_updated_at = now\<rparr>] \<and> f = 1"
      using acq by (auto simp: lease_acquire_def split: if_splits)
    with None show ?thesis by (simp add: lease_fence_def lease_at_append)
  next
    case (Some r)
    then have "ls' = upd_where (\<lambda>r. lease_key r = k) (lease_take owner now secs) ls \<and> f = rl_fence r + 1"
      using acq by (auto simp: lease_acquire_def split: if_splits)
    moreover have "lease_key r = k" using Some by (auto dest: find_Some_mem)
    ultimately show ?thesis
      using Some lease_at_update [of "lease_take owner now secs", OF lease_take_key, of k]
      by (auto simp: lease_fence_def lease_take_def)
  qed
qed

lemma lease_written_row:
  assumes "lease_written k f ls ls'" and "leases_inv ls"
  shows "lease_fence k ls = Some f"
proof -
  from assms(1) obtain r where r: "r \<in> set ls" "lease_key r = k" "rl_fence r = f"
    unfolding lease_written_def lease_heartbeat_def lease_release_def leases_update_def Let_def
    by (cases k) (auto simp: filter_empty_conv lease_held_by_def)
  with assms(2) find_distinct_key [of lease_key ls r] show ?thesis
    by (simp add: lease_fence_def leases_inv_def)
qed

interpretation lease_fencing: fenced_store leases_inv lease_step lease_fence lease_acquired lease_written
proof
  fix ls ls' :: leases and k f g
  show "leases_inv ls \<Longrightarrow> lease_step ls ls' \<Longrightarrow> leases_inv ls'"
    unfolding lease_step_def using lease_step_inv by blast
  show "leases_inv ls \<Longrightarrow> lease_acquired k f ls ls' \<Longrightarrow> lease_step ls ls'"
    unfolding lease_acquired_def lease_step_def by (blast intro: ls_acquire)
  show "\<exists>f'. lease_fence k ls' = Some f' \<and> f \<le> f'" if "lease_step ls ls'" "lease_fence k ls = Some f"
    using that lease_step_at unfolding lease_step_def lease_fence_def by fastforce
  show "lease_acquired k f ls ls' \<Longrightarrow> lease_fence k ls' = Some f"
    using lease_acquired_row by blast
  show "g < f" if "lease_acquired k f ls ls'" "lease_fence k ls = Some g"
    using lease_acquired_row [OF that(1)] that(2) by simp
  show "leases_inv ls \<Longrightarrow> lease_written k f ls ls' \<Longrightarrow> lease_fence k ls = Some f"
    using lease_written_row by blast
qed

lemma leases_reachable_inv: "leases_reachable ls \<Longrightarrow> leases_inv ls"
  by (induction rule: leases_reachable.induct) (auto intro: leases_inv_empty lease_fencing.step_ok)

lemma leases_update_misses:
  assumes "\<And>r. r \<in> set ls \<Longrightarrow> \<not> P r"
  shows "leases_update c P f ls = (False, ls)"
  unfolding leases_update_def Let_def using assms by (auto intro!: upd_where_none simp: filter_empty_conv)

section \<open>Properties\<close>

text \<open>
  A run of guard calls, each by some caller at some time; \<open>others_steps owner until\<close> are
  the runs of other callers up to a time.
\<close>

inductive others_steps :: "string \<Rightarrow> rat \<Rightarrow> leases \<Rightarrow> leases \<Rightarrow> bool" for owner "until" where
  os_done: "others_steps owner until ls ls"
| os_step: "others_steps owner until ls ls' \<Longrightarrow> lease_step_by other now ls' ls'' \<Longrightarrow>
    other \<noteq> owner \<Longrightarrow> now \<le> until \<Longrightarrow> others_steps owner until ls ls''"

lemma others_steps_keep_row:
  assumes "others_steps owner until ls ls'" and "lease_at k ls = Some r"
    and "rl_owner_id r = owner" and "rl_lease_until r = Some until"
  shows "lease_at k ls' = Some r"
  using assms(1,2)
proof (induction rule: others_steps.induct)
  case os_done
  then show ?case by simp
next
  case (os_step ls ls1 other now ls2)
  from os_step.hyps(2) os_step.IH [OF os_step.prems] show ?case
    by (cases rule: lease_step_row)
      (use os_step.hyps(3,4) assms(3,4) in \<open>auto simp: lease_grantable_def\<close>)
qed

lemma guard_acquire_Some:
  assumes "guard_acquire c now tenant key owner secs ls = Inr (Some h, ls')"
  shows "c = tenant \<and> tenant \<noteq> '''' \<and>
    h = \<lparr>lh_tenant_id = tenant, lh_resource_key = key, lh_owner_id = owner, lh_fence = lh_fence h\<rparr> \<and>
    lease_acquire c now tenant key owner secs ls = Inr (Some (lh_fence h), ls') \<and>
    (\<exists>r. lease_at (tenant, key) ls' = Some r \<and> rl_owner_id r = owner \<and> rl_fence r = lh_fence h \<and>
       rl_lease_until r = Some (now + secs))"
proof -
  from assms obtain f where acq: "lease_acquire c now tenant key owner secs ls = Inr (Some f, ls')"
    and h: "h = \<lparr>lh_tenant_id = tenant, lh_resource_key = key, lh_owner_id = owner, lh_fence = f\<rparr>"
    by (auto simp: guard_acquire_def bindE_Inr_iff split: option.splits)
  have c: "c = tenant" "tenant \<noteq> ''''"
    using acq by (auto simp: lease_acquire_def rls_visible_def split: if_splits)
  have row: "\<exists>r. lease_at (tenant, key) ls' = Some r \<and> rl_owner_id r = owner \<and> rl_fence r = f \<and>
       rl_lease_until r = Some (now + secs)"
  proof (cases "lease_at (tenant, key) ls")
    case None
    then obtain new where "ls' = ls @ [new]" "lease_key new = (tenant, key)" "rl_owner_id new = owner"
      "rl_fence new = f" "rl_lease_until new = Some (now + secs)"
      using acq by (auto simp: lease_acquire_def split: if_splits)
    with None show ?thesis by (simp only: lease_at_append option.case simp_thms if_True option.inject)
  next
    case (Some r)
    then have ls': "ls' = upd_where (\<lambda>r. lease_key r = (tenant, key)) (lease_take owner now secs) ls"
      and f: "f = rl_fence r + 1"
      using acq by (auto simp: lease_acquire_def split: if_splits)
    have "lease_key r = (tenant, key)" using Some by (auto dest: find_Some_mem)
    then have "lease_at (tenant, key) ls' = Some (lease_take owner now secs r)"
      unfolding ls' lease_at_update [of "lease_take owner now secs", OF lease_take_key] Some option.map
      by (simp only: simp_thms if_True)
    then show ?thesis using f by (simp add: lease_take_def)
  qed
  from c row acq h show ?thesis by (simp only: lease_handle.simps simp_thms)
qed

text \<open>
  C13: A lease is exclusive while it runs. After a guard acquired a lease at time \<open>now\<close> for
  \<open>secs\<close> seconds, and whatever other owners call up to \<open>now + secs\<close>, every acquire of
  another owner in that time returns no handle and changes nothing, and the holder can
  still renew as long as the clock is before \<open>now + secs\<close>.
\<close>

theorem lease_is_exclusive:
  assumes "guard_acquire c now tenant key owner secs ls0 = Inr (Some h, ls1)"
    and "others_steps owner (now + secs) ls1 ls2"
    and "other \<noteq> owner" and "now2 \<le> now + secs" and "clock < now + secs"
  shows "guard_acquire c now2 tenant key other secs2 ls2 = Inr (None, ls2) \<and>
    fst (guard_heartbeat c now2 clock h secs2 ls2)"
proof -
  from guard_acquire_Some [OF assms(1)] obtain r where r: "lease_at (tenant, key) ls1 = Some r"
    "rl_owner_id r = owner" "rl_fence r = lh_fence h" "rl_lease_until r = Some (now + secs)"
    and h: "h = \<lparr>lh_tenant_id = tenant, lh_resource_key = key, lh_owner_id = owner, lh_fence = lh_fence h\<rparr>"
    and c: "c = tenant" "tenant \<noteq> ''''" by blast
  have at: "lease_at (tenant, key) ls2 = Some r" by (rule others_steps_keep_row [OF assms(2) r(1,2,4)])
  have held: "\<not> lease_grantable now2 other r"
    using r(2,4) assms(3,4) by (simp add: lease_grantable_def)
  have vis: "rls_visible c tenant" using c by (simp add: rls_visible_def)
  have "lease_acquire c now2 tenant key other secs2 ls2 = Inr (None, ls2)"
    unfolding lease_acquire_def at option.case using held vis by simp
  moreover have "r \<in> set ls2" "lease_key r = (tenant, key)"
    using at by (auto dest: find_Some_mem)
  ultimately show ?thesis
    using h r assms(5) vis
    by (cases h) (auto simp: guard_acquire_def guard_heartbeat_def lease_heartbeat_def leases_update_def
        Let_def filter_empty_conv lease_held_by_def)
qed

definition demo_lease :: lease where
  "demo_lease = \<lparr>rl_tenant_id = ''acme'', rl_resource_key = ''memory:x'', rl_owner_id = ''w1'',
     rl_fence = 1, rl_lease_until = Some 60, rl_updated_at = 0\<rparr>"

definition demo_handle :: lease_handle where
  "demo_handle = \<lparr>lh_tenant_id = ''acme'', lh_resource_key = ''memory:x'', lh_owner_id = ''w1'', lh_fence = 1\<rparr>"

lemma demo_guard_acquire:
  "guard_acquire ''acme'' 0 ''acme'' ''memory:x'' ''w1'' 60 [] = Inr (Some demo_handle, [demo_lease])"
  by (simp add: guard_acquire_def lease_acquire_def rls_visible_def demo_lease_def demo_handle_def)

theorem lease_is_exclusive_witness:
  "guard_acquire ''acme'' 30 ''acme'' ''memory:x'' ''w2'' 60 [demo_lease] = Inr (None, [demo_lease])"
  using lease_is_exclusive [OF demo_guard_acquire, of "[demo_lease]" "''w2''" 30 10 60] others_steps.os_done
  by simp

text \<open>
  C14: A superseded lease holder is fenced out. After a guard acquired a lease, any calls of
  any owners, a later acquisition of the same resource (by anyone, its own owner included)
  and any further calls, both the renewal and the release of the first handle report
  \<open>False\<close> and change nothing.
\<close>

theorem superseded_lease_is_fenced:
  assumes "leases_reachable ls0"
    and "guard_acquire c now tenant key owner secs ls0 = Inr (Some h, ls1)"
    and "lease_step\<^sup>*\<^sup>* ls1 ls2"
    and "guard_acquire c now' tenant key owner' secs' ls2 = Inr (Some h', ls3)"
    and "lease_step\<^sup>*\<^sup>* ls3 ls4"
  shows "guard_heartbeat c now2 clock h lease ls4 = (False, ls4) \<and>
    guard_release c now2 h ls4 = (False, ls4)"
proof -
  let ?k = "(tenant, key)"
  note a = guard_acquire_Some [OF assms(2)] and b = guard_acquire_Some [OF assms(4)]
  from a b have acq: "lease_acquired ?k (lh_fence h) ls0 ls1" "lease_acquired ?k (lh_fence h') ls2 ls3"
    unfolding lease_acquired_def by auto
  from lease_fencing.superseded_fence [OF leases_reachable_inv [OF assms(1)] acq(1) assms(3) acq(2) assms(5)]
  obtain g where inv: "leases_inv ls4" and g: "lease_fence ?k ls4 = Some g" "lh_fence h < g" by blast
  have "\<not> lease_held_by tenant key w (lh_fence h) r" if "r \<in> set ls4" for r w
    using find_distinct_key [of lease_key ls4 r] that inv g
    by (auto simp: leases_inv_def lease_fence_def lease_held_by_def)
  moreover have "lh_tenant_id h = tenant" "lh_resource_key h = key"
    using a by (metis lease_handle.select_convs(1), metis lease_handle.select_convs(2))
  ultimately show ?thesis
    unfolding guard_heartbeat_def guard_release_def lease_heartbeat_def lease_release_def
    by (auto intro!: leases_update_misses)
qed

theorem superseded_lease_is_fenced_witness:
  "guard_heartbeat ''acme'' 70 70 demo_handle 60 [demo_lease\<lparr>rl_owner_id := ''w2'', rl_fence := 2,
     rl_lease_until := Some 121, rl_updated_at := 61\<rparr>] =
   (False, [demo_lease\<lparr>rl_owner_id := ''w2'', rl_fence := 2, rl_lease_until := Some 121,
     rl_updated_at := 61\<rparr>])"
proof -
  have second: "guard_acquire ''acme'' 61 ''acme'' ''memory:x'' ''w2'' 60 [demo_lease] =
    Inr (Some (demo_handle\<lparr>lh_owner_id := ''w2'', lh_fence := 2\<rparr>),
      [demo_lease\<lparr>rl_owner_id := ''w2'', rl_fence := 2, rl_lease_until := Some 121, rl_updated_at := 61\<rparr>])"
    by (simp add: guard_acquire_def lease_acquire_def rls_visible_def demo_lease_def demo_handle_def
        lease_grantable_def lease_take_def upd_where_def)
  show ?thesis
    using superseded_lease_is_fenced [OF lr_start demo_guard_acquire rtranclp.rtrancl_refl second
        rtranclp.rtrancl_refl] by blast
qed

end
