(* ===== verification/Registry.thy ===== *)
theory Registry imports TaskQueue "HOL-Library.List_Lexorder" "HOL-Library.Char_ord" begin

text \<open>
  Task kinds, handler results and the handler registry (teamEvolver/runtime/tasks.py), and
  the services container with its roles (teamEvolver/runtime/services.py). A handler is
  code of a business module: the type variable \<open>'h\<close>. A dict is its list of items in
  insertion order. Sorting strings is Python's order on code points.
\<close>

section \<open>Task kinds\<close>

definition task_kinds :: "string list" where
  "task_kinds =
     [''session.pull'', ''session.normalize'', ''session.split'', ''session.analyze'',
      ''session.archive'', ''skill.evolve'', ''skill.validate'', ''skill.transfer'',
      ''experience.sync'', ''replay.run'', ''dataset.run'', ''memory.aggregate'',
      ''memory.compile'', ''memory.replay'', ''miner.track_compile'', ''miner.rebuild_index'',
      ''miner.skill_operation'', ''miner.skill_compile'']"

section \<open>Handler results\<close>

text \<open>The outcome is a plain string in the code: any value can be constructed.\<close>

record handler_result =
  hr_outcome :: string
  hr_result_ref :: string
  hr_error_code :: string
  hr_upstream_task_id :: string
  hr_backoff_seconds :: rat

definition handler_result_of :: "string \<Rightarrow> handler_result" where
  "handler_result_of outcome =
     \<lparr>hr_outcome = outcome, hr_result_ref = '''', hr_error_code = '''', hr_upstream_task_id = '''',
      hr_backoff_seconds = 0\<rparr>"

definition result_succeed :: "string \<Rightarrow> handler_result" where
  "result_succeed ref = (handler_result_of ''succeed'')\<lparr>hr_result_ref := ref\<rparr>"

definition result_fail :: "string \<Rightarrow> handler_result" where
  "result_fail code = (handler_result_of ''fail'')\<lparr>hr_error_code := code\<rparr>"

definition result_retry :: "string \<Rightarrow> rat \<Rightarrow> handler_result" where
  "result_retry code backoff =
     (handler_result_of ''retry'')\<lparr>hr_error_code := code, hr_backoff_seconds := backoff\<rparr>"

definition result_wait_external :: "string \<Rightarrow> handler_result" where
  "result_wait_external up = (handler_result_of ''wait_external'')\<lparr>hr_upstream_task_id := up\<rparr>"

definition result_reconcile :: handler_result where
  "result_reconcile = handler_result_of ''reconcile''"

definition result_cancelled :: handler_result where
  "result_cancelled = handler_result_of ''cancelled''"

lemmas result_defs = handler_result_of_def result_succeed_def result_fail_def result_retry_def
  result_wait_external_def result_reconcile_def result_cancelled_def

section \<open>The registry\<close>

type_synonym 'h task_registry = "(string \<times> 'h) list"

datatype registry_error =
    NoHandler string
  | UnknownKinds "string list"
  | MissingHandlers "string list"
  | InvalidRole string
  | ApiRegistersHandlers

definition registry_get :: "'h task_registry \<Rightarrow> string \<Rightarrow> registry_error + 'h" where
  "registry_get reg kind =
     (case map_of reg kind of None \<Rightarrow> Inl (NoHandler kind) | Some h \<Rightarrow> Inr h)"

definition registry_kinds :: "'h task_registry \<Rightarrow> string set" where
  "registry_kinds reg = fst ` set reg"

definition registry_contains :: "'h task_registry \<Rightarrow> string \<Rightarrow> bool" where
  "registry_contains reg kind \<longleftrightarrow> map_of reg kind \<noteq> None"

definition build_task_registry :: "(string \<times> 'h) list \<Rightarrow> bool \<Rightarrow> registry_error + 'h task_registry" where
  "build_task_registry handlers require_complete =
     (let unknown = sort (filter (\<lambda>k. k \<notin> set task_kinds) (map fst handlers));
          missing = sort (filter (\<lambda>k. k \<notin> fst ` set handlers) task_kinds)
      in if unknown \<noteq> [] then Inl (UnknownKinds unknown)
         else if require_complete \<and> missing \<noteq> [] then Inl (MissingHandlers missing)
         else Inr handlers)"

section \<open>Services\<close>

definition valid_roles :: "string list" where
  "valid_roles = [''api'', ''worker'', ''all'']"

record 'h services =
  sv_role :: string
  sv_registry :: "'h task_registry"
  sv_has_scheduler :: bool

definition runs_api :: "'h services \<Rightarrow> bool" where
  "runs_api sv \<longleftrightarrow> sv_role sv \<in> {''api'', ''all''}"

definition runs_worker :: "'h services \<Rightarrow> bool" where
  "runs_worker sv \<longleftrightarrow> sv_role sv \<in> {''worker'', ''all''}"

definition build_services :: "string \<Rightarrow> (string \<times> 'h) list \<Rightarrow> bool \<Rightarrow> registry_error + 'h services" where
  "build_services role handlers has_scheduler =
     (if role \<notin> set valid_roles then Inl (InvalidRole role)
      else if role = ''api'' \<and> handlers \<noteq> [] then Inl ApiRegistersHandlers
      else bindE (build_task_registry handlers (role = ''all''))
        (\<lambda>reg. Inr \<lparr>sv_role = role, sv_registry = reg, sv_has_scheduler = has_scheduler\<rparr>))"

lemma sort_eq_Nil_iff: "sort (xs :: 'a :: linorder list) = [] \<longleftrightarrow> xs = []"
  by (metis set_empty set_sort)

lemma build_task_registry_Inr:
  "build_task_registry handlers full = Inr reg \<longleftrightarrow>
     reg = handlers \<and> fst ` set handlers \<subseteq> set task_kinds \<and>
     (full \<longrightarrow> set task_kinds \<subseteq> fst ` set handlers)"
  by (auto simp: build_task_registry_def Let_def filter_empty_conv sort_eq_Nil_iff)

lemma registry_get_Inr_iff: "(\<exists>h. registry_get reg kind = Inr h) \<longleftrightarrow> kind \<in> registry_kinds reg"
  unfolding registry_get_def registry_kinds_def
  using map_of_eq_None_iff [of reg kind] by (cases "map_of reg kind") simp_all

text \<open>What a role may register: an api process nothing, a worker declared kinds only, an all process every declared kind.\<close>

definition role_accepts :: "string \<Rightarrow> string set \<Rightarrow> bool" where
  "role_accepts role kinds \<longleftrightarrow>
     (if role = ''api'' then kinds = {}
      else if role = ''worker'' then kinds \<subseteq> set task_kinds
      else role = ''all'' \<and> kinds = set task_kinds)"

lemma build_services_Inr:
  "build_services role handlers sched = Inr sv \<longleftrightarrow>
     role_accepts role (fst ` set handlers) \<and>
     sv = \<lparr>sv_role = role, sv_registry = handlers, sv_has_scheduler = sched\<rparr>"
proof -
  have nil: "handlers = [] \<longleftrightarrow> fst ` set handlers = {}" by simp
  consider "role = ''api''" | "role = ''worker''" | "role = ''all''"
    | "role \<notin> {''api'', ''worker'', ''all''}" by auto
  then show ?thesis
    unfolding build_services_def bindE_Inr_iff if_distrib nil
    by cases (auto simp: valid_roles_def role_accepts_def build_task_registry_Inr bindE_Inr_iff)
qed

text \<open>
  Roles decide what is registered. Services are built exactly when the role accepts
  the kinds of the handlers; the container then has exactly these kinds, each with its
  handler and any other raising, and it runs the worker unless its role is api.
\<close>

lemma services_registry_by_role:
  "case build_services role handlers sched of
     Inl e \<Rightarrow> \<not> role_accepts role (fst ` set handlers)
   | Inr sv \<Rightarrow> role_accepts role (fst ` set handlers) \<and>
       registry_kinds (sv_registry sv) = fst ` set handlers \<and>
       registry_get (sv_registry sv) kind =
         (case map_of handlers kind of None \<Rightarrow> Inl (NoHandler kind) | Some h \<Rightarrow> Inr h) \<and>
       runs_worker sv = (role \<noteq> ''api'') \<and> runs_api sv = (role \<noteq> ''worker'')"
proof (cases "build_services role handlers sched")
  case (Inl e)
  then show ?thesis using build_services_Inr [of role handlers sched] by auto
next
  case (Inr sv)
  then have r: "role_accepts role (fst ` set handlers)"
    "sv = \<lparr>sv_role = role, sv_registry = handlers, sv_has_scheduler = sched\<rparr>"
    by (simp_all add: build_services_Inr)
  then have "role \<in> {''api'', ''worker'', ''all''}" by (auto simp: role_accepts_def split: if_splits)
  with r Inr show ?thesis
    by (auto simp: registry_kinds_def registry_get_def runs_worker_def runs_api_def)
qed

end
