(* ===== verification/Worker.thy ===== *)
theory Worker imports TaskProperties Registry begin

text \<open>
  The worker (teamEvolver/runtime/worker.py): claim, run the handler while renewing the
  lease, write the fenced result, and the loop around it. What the code does not decide is
  an input: the transaction times, database failures, what a handler does and when it ends,
  the random jitter, and the changes other replicas make to the table between two of this
  worker's transactions. Seconds are rationals.
\<close>

section \<open>Backoff\<close>

definition retry_backoff_seconds :: "rat list" where
  "retry_backoff_seconds = [5, 30, 120]"

definition default_max_attempts :: int where
  "default_max_attempts = 3"

definition loop_backoff_max_seconds :: rat where
  "loop_backoff_max_seconds = 30"

definition tenant_refresh_seconds :: rat where
  "tenant_refresh_seconds = 30"

definition backoff_for_attempt :: "int \<Rightarrow> rat \<Rightarrow> rat" where
  "backoff_for_attempt attempt jitter =
     (let idx = max 0 (min (attempt - 1) (int (length retry_backoff_seconds) - 1))
      in retry_backoff_seconds ! nat idx + max 0 jitter)"

section \<open>Worker state\<close>

record worker_stats =
  st_claimed :: int
  st_succeeded :: int
  st_failed :: int
  st_retried :: int
  st_cancelled :: int
  st_reconciling :: int
  st_waiting_external :: int

definition empty_stats :: worker_stats where
  "empty_stats = \<lparr>st_claimed = 0, st_succeeded = 0, st_failed = 0, st_retried = 0, st_cancelled = 0,
     st_reconciling = 0, st_waiting_external = 0\<rparr>"

text \<open>
  The table, the counters, and the handler calls made so far, each with the tenant that the
  context variable holds while it runs.
\<close>

record worker_state =
  wk_tasks :: tasks
  wk_stats :: worker_stats
  wk_ran :: "(string \<times> claimed_task) list"

datatype worker_error =
    NotWorkerRole
  | DatabaseDown
  | DatabaseError db_error
  | UnknownOutcome string
  | SourceError string
  | OverflowError

section \<open>Inputs\<close>

datatype tx_outcome = TxOk | TxNoConnection | TxCommitFails

text \<open>
  What happens while a handler runs: it ends, returning a result (or \<open>None\<close>) or raising an
  exception of some class; or a third of the lease passes and the worker tries to renew it,
  at some times or failing. When the renewal fails the handler is cancelled; it may raise
  an exception other than \<open>CancelledError\<close> then.
\<close>

datatype wait_event =
    WorkDone "string + handler_result option"
  | RenewAt "tasks \<Rightarrow> tasks" rat rat "string option"
  | RenewFails "tasks \<Rightarrow> tasks" "string option"

datatype run_result = Returned "handler_result option" | HandlerRaised string

record worker_io =
  io_claim_env :: "string \<Rightarrow> tasks \<Rightarrow> tasks"
  io_claim_fails :: "string \<Rightarrow> bool"
  io_claim_now :: "string \<Rightarrow> rat"
  io_claim_locked :: "string \<Rightarrow> string \<times> string \<Rightarrow> bool"
  io_events :: "wait_event list"
  io_write_env :: "tasks \<Rightarrow> tasks"
  io_write_tx :: tx_outcome
  io_write_now :: rat
  io_rand :: rat

section \<open>Running a handler under a renewed lease\<close>

definition cancelled_work :: "string option \<Rightarrow> run_result" where
  "cancelled_work exn = (case exn of None \<Rightarrow> Returned None | Some e \<Rightarrow> HandlerRaised e)"

text \<open>\<open>None\<close>: the handler has not ended within the given events.\<close>

fun run_renewing ::
  "claimed_task \<Rightarrow> string \<Rightarrow> rat \<Rightarrow> wait_event list \<Rightarrow> tasks \<Rightarrow> (run_result \<times> tasks) option" where
  "run_renewing task owner secs [] t = None"
| "run_renewing task owner secs (WorkDone (Inr r) # es) t = Some (Returned r, t)"
| "run_renewing task owner secs (WorkDone (Inl e) # es) t = Some (HandlerRaised e, t)"
| "run_renewing task owner secs (RenewFails env exn # es) t = Some (cancelled_work exn, env t)"
| "run_renewing task owner secs (RenewAt env now clock exn # es) t =
     (case heartbeat (ct_tenant_id task) now clock (ct_task_id task) owner (ct_fence task) secs (env t) of
        Inl _ \<Rightarrow> Some (cancelled_work exn, env t)
      | Inr (False, t') \<Rightarrow> Some (cancelled_work exn, t')
      | Inr (True, t') \<Rightarrow> run_renewing task owner secs es t')"

section \<open>Writing the result\<close>

text \<open>
  One transition and the counter its success raises. A failed connection runs nothing; a
  failed commit rolls the table back after the counter was raised.
\<close>

definition write_step ::
  "tx_outcome \<Rightarrow> (tasks \<Rightarrow> db_error + (bool \<times> tasks)) \<Rightarrow> (worker_stats \<Rightarrow> worker_stats) \<Rightarrow>
   worker_state \<Rightarrow> (worker_error + unit) \<times> worker_state" where
  "write_step tx f count s =
     (case f (wk_tasks s) of
        Inl e \<Rightarrow> (Inl (DatabaseError e), s)
      | Inr (ok, t') \<Rightarrow>
          let s' = (if ok then s\<lparr>wk_stats := count (wk_stats s)\<rparr> else s)
          in if tx = TxCommitFails then (Inl DatabaseDown, s') else (Inr (), s'\<lparr>wk_tasks := t'\<rparr>))"

definition worker_write ::
  "tx_outcome \<Rightarrow> rat \<Rightarrow> rat \<Rightarrow> string \<Rightarrow> int \<Rightarrow> claimed_task \<Rightarrow> handler_result \<Rightarrow> worker_state \<Rightarrow>
   (worker_error + unit) \<times> worker_state" where
  "worker_write tx now rand owner max_attempts task r s =
     (let c = ct_tenant_id task; tid = ct_task_id task; fence = ct_fence task
      in if tx = TxNoConnection then (Inl DatabaseDown, s)
         else if hr_outcome r = ''succeed'' then
           write_step tx (succeed c now tid owner fence (hr_result_ref r))
             (\<lambda>st. st\<lparr>st_succeeded := st_succeeded st + 1\<rparr>) s
         else if hr_outcome r = ''fail'' then
           write_step tx (fail_task c now tid owner fence
               (if hr_error_code r \<noteq> '''' then hr_error_code r else ''handler_failed''))
             (\<lambda>st. st\<lparr>st_failed := st_failed st + 1\<rparr>) s
         else if hr_outcome r = ''cancelled'' then
           write_step tx (mark_cancelled c now tid owner fence)
             (\<lambda>st. st\<lparr>st_cancelled := st_cancelled st + 1\<rparr>) s
         else if hr_outcome r = ''wait_external'' then
           write_step tx (wait_external c now tid owner fence (hr_upstream_task_id r))
             (\<lambda>st. st\<lparr>st_waiting_external := st_waiting_external st + 1\<rparr>) s
         else if hr_outcome r = ''reconcile'' then
           write_step tx (reconcile_task c now tid owner fence)
             (\<lambda>st. st\<lparr>st_reconciling := st_reconciling st + 1\<rparr>) s
         else if hr_outcome r = ''retry'' then
           (if ct_attempt task \<ge> max_attempts then
              write_step tx (fail_task c now tid owner fence ''retries_exhausted'')
                (\<lambda>st. st\<lparr>st_failed := st_failed st + 1\<rparr>) s
            else
              let backoff = (if hr_backoff_seconds r \<noteq> 0 then hr_backoff_seconds r
                             else backoff_for_attempt (ct_attempt task) rand)
              in write_step tx (retry_task c now tid owner fence backoff (hr_error_code r))
                   (\<lambda>st. st\<lparr>st_retried := st_retried st + 1\<rparr>) s)
         else (Inl (UnknownOutcome (hr_outcome r)), s))"

section \<open>One claim\<close>

definition worker_claim ::
  "worker_io \<Rightarrow> string \<Rightarrow> string \<Rightarrow> rat \<Rightarrow> string list \<Rightarrow> worker_state \<Rightarrow>
   (worker_error + claimed_task option) \<times> worker_state" where
  "worker_claim io tenant owner secs kinds s =
     (let s1 = s\<lparr>wk_tasks := io_claim_env io tenant (wk_tasks s)\<rparr>
      in if io_claim_fails io tenant then (Inl DatabaseDown, s1)
         else case claim tenant (io_claim_now io tenant) (io_claim_locked io tenant) owner secs kinds
                     (wk_tasks s1) of
             Inl e \<Rightarrow> (Inl (DatabaseError e), s1)
           | Inr (res, t') \<Rightarrow> (Inr res, s1\<lparr>wk_tasks := t'\<rparr>))"

definition finish_task ::
  "worker_io \<Rightarrow> string \<Rightarrow> int \<Rightarrow> claimed_task \<Rightarrow> handler_result \<Rightarrow> worker_state \<Rightarrow>
   (worker_error + claimed_task option) \<times> worker_state" where
  "finish_task io owner max_attempts task r s =
     (case worker_write (io_write_tx io) (io_write_now io) (io_rand io) owner max_attempts task r
             (s\<lparr>wk_tasks := io_write_env io (wk_tasks s)\<rparr>) of
        (Inl e, s') \<Rightarrow> (Inl e, s')
      | (Inr _, s') \<Rightarrow> (Inr (Some task), s'))"

definition process_claimed ::
  "('h \<Rightarrow> bool) \<Rightarrow> worker_io \<Rightarrow> 'h services \<Rightarrow> string \<Rightarrow> rat \<Rightarrow> int \<Rightarrow> claimed_task \<Rightarrow> worker_state \<Rightarrow>
   ((worker_error + claimed_task option) \<times> worker_state) option" where
  "process_claimed reconcile_cancellation io sv owner secs max_attempts task s =
     (let reconcile_cancel = (case map_of (sv_registry sv) (ct_kind task) of
            None \<Rightarrow> False | Some h \<Rightarrow> reconcile_cancellation h)
      in if ct_cancel_requested task \<and> \<not> reconcile_cancel
         then Some (finish_task io owner max_attempts task result_cancelled s)
         else case registry_get (sv_registry sv) (ct_kind task) of
             Inl _ \<Rightarrow> Some (finish_task io owner max_attempts task
                        (result_retry ''handler_exception:KeyError'' 0) s)
           | Inr h \<Rightarrow>
               let s1 = s\<lparr>wk_ran := wk_ran s @ [(ct_tenant_id task, task)]\<rparr>
               in case run_renewing task owner secs (io_events io) (wk_tasks s1) of
                   None \<Rightarrow> None
                 | Some (Returned None, t') \<Rightarrow> Some (Inr (Some task), s1\<lparr>wk_tasks := t'\<rparr>)
                 | Some (Returned (Some r), t') \<Rightarrow>
                     Some (finish_task io owner max_attempts task r (s1\<lparr>wk_tasks := t'\<rparr>))
                 | Some (HandlerRaised e, t') \<Rightarrow>
                     Some (finish_task io owner max_attempts task
                       (result_retry (''handler_exception:'' @ e) 0) (s1\<lparr>wk_tasks := t'\<rparr>)))"

fun process_tenants ::
  "('h \<Rightarrow> bool) \<Rightarrow> worker_io \<Rightarrow> 'h services \<Rightarrow> string \<Rightarrow> rat \<Rightarrow> int \<Rightarrow> string list \<Rightarrow> string list \<Rightarrow>
   worker_state \<Rightarrow> ((worker_error + claimed_task option) \<times> worker_state) option" where
  "process_tenants rc io sv owner secs max_attempts kinds [] s = Some (Inr None, s)"
| "process_tenants rc io sv owner secs max_attempts kinds (tenant # tenants) s =
     (case worker_claim io tenant owner secs kinds s of
        (Inl e, s') \<Rightarrow> Some (Inl e, s')
      | (Inr None, s') \<Rightarrow> process_tenants rc io sv owner secs max_attempts kinds tenants s'
      | (Inr (Some task), s') \<Rightarrow>
          process_claimed rc io sv owner secs max_attempts task
            (s'\<lparr>wk_stats := (wk_stats s')\<lparr>st_claimed := st_claimed (wk_stats s') + 1\<rparr>\<rparr>))"

definition process_once ::
  "('h \<Rightarrow> bool) \<Rightarrow> worker_io \<Rightarrow> 'h services \<Rightarrow> string \<Rightarrow> rat \<Rightarrow> int \<Rightarrow> string list \<Rightarrow> string list \<Rightarrow>
   worker_state \<Rightarrow> ((worker_error + claimed_task option) \<times> worker_state) option" where
  "process_once rc io sv owner secs max_attempts kinds tenants s =
     (if \<not> runs_worker sv then Some (Inl NotWorkerRole, s)
      else process_tenants rc io sv owner secs max_attempts kinds tenants s)"

section \<open>The loop\<close>

text \<open>
  Python's \<open>2.0 ** n\<close> is a double: from exponent 1024 on it raises \<open>OverflowError\<close>.
\<close>

definition float_pow2 :: "nat \<Rightarrow> worker_error + rat" where
  "float_pow2 n = (if n < 1024 then Inr (2 ^ n) else Inl OverflowError)"

definition loop_delay :: "nat \<Rightarrow> rat \<Rightarrow> worker_error + rat" where
  "loop_delay failures jitter =
     bindE (float_pow2 (failures - 1)) (\<lambda>p. Inr (min loop_backoff_max_seconds p + jitter))"

text \<open>
  The loop's variables: the active tenants, the last refresh, the consecutive failures, the
  health reported last, and the pauses it made. One iteration's inputs: whether the stop
  event is set, the loop time, what the tenant source returns or raises, the inputs of the
  round, and the jitter of a failure pause. A scheduler that raises is only logged; what it
  enqueues reaches the table through the inputs of the round.
\<close>

record loop_state =
  lp_worker :: worker_state
  lp_active :: "string list"
  lp_last_refresh :: rat
  lp_failures :: nat
  lp_health :: "bool list"
  lp_pauses :: "rat list"
  lp_scheduled :: "string list"

record loop_io =
  li_stop :: bool
  li_time :: rat
  li_source :: "worker_error + string list"
  li_round :: worker_io
  li_jitter :: rat

definition refresh_due :: "loop_io \<Rightarrow> loop_state \<Rightarrow> bool" where
  "refresh_due li l \<longleftrightarrow>
     li_time li - lp_last_refresh l > tenant_refresh_seconds \<or> lp_last_refresh l = 0"

definition loop_refresh :: "'h services \<Rightarrow> bool \<Rightarrow> loop_io \<Rightarrow> loop_state \<Rightarrow> worker_error + loop_state" where
  "loop_refresh sv has_source li l =
     (if \<not> refresh_due li l then Inr l
      else bindE (if has_source then li_source li else Inr (lp_active l))
        (\<lambda>active. Inr (l\<lparr>lp_active := active, lp_last_refresh := li_time li,
           lp_scheduled := (if sv_has_scheduler sv then lp_scheduled l @ active else lp_scheduled l)\<rparr>)))"

text \<open>The body of the \<open>try\<close>: refresh, then one round. \<open>None\<close>: the handler has not ended.\<close>

definition loop_try ::
  "('h \<Rightarrow> bool) \<Rightarrow> 'h services \<Rightarrow> bool \<Rightarrow> string \<Rightarrow> rat \<Rightarrow> int \<Rightarrow> string list \<Rightarrow> loop_io \<Rightarrow> loop_state \<Rightarrow>
   ((worker_error + claimed_task option) \<times> loop_state) option" where
  "loop_try rc sv has_source owner secs m kinds li l =
     (case loop_refresh sv has_source li l of
        Inl e \<Rightarrow> Some (Inl e, l)
      | Inr l1 \<Rightarrow>
          map_option (\<lambda>(res, w). (res, l1\<lparr>lp_worker := w\<rparr>))
            (process_once rc (li_round li) sv owner secs m kinds (lp_active l1) (lp_worker l1)))"

text \<open>
  One iteration: \<open>Inl\<close> when an exception leaves the loop, which only the pause after a
  failure can raise.
\<close>

definition loop_iteration ::
  "('h \<Rightarrow> bool) \<Rightarrow> 'h services \<Rightarrow> bool \<Rightarrow> string \<Rightarrow> rat \<Rightarrow> int \<Rightarrow> rat \<Rightarrow> string list \<Rightarrow> loop_io \<Rightarrow>
   loop_state \<Rightarrow> (worker_error + loop_state) option" where
  "loop_iteration rc sv has_source owner secs m idle_sleep kinds li l =
     (case loop_try rc sv has_source owner secs m kinds li l of
        None \<Rightarrow> None
      | Some (Inl e, l1) \<Rightarrow>
          let l2 = l1\<lparr>lp_failures := lp_failures l1 + 1, lp_health := lp_health l1 @ [False]\<rparr>
          in Some (bindE (loop_delay (lp_failures l2) (li_jitter li))
               (\<lambda>d. Inr (l2\<lparr>lp_pauses := lp_pauses l2 @ [d]\<rparr>)))
      | Some (Inr claimed, l1) \<Rightarrow>
          let l2 = (if lp_failures l1 \<noteq> 0
                    then l1\<lparr>lp_failures := 0, lp_health := lp_health l1 @ [True]\<rparr> else l1)
          in Some (Inr (if claimed = None then l2\<lparr>lp_pauses := lp_pauses l2 @ [idle_sleep]\<rparr> else l2)))"

text \<open>
  The loop over the inputs of its iterations: it returns the counters when the stop event
  is observed; \<open>None\<close> when it is still running after the given inputs.
\<close>

fun run_worker ::
  "('h \<Rightarrow> bool) \<Rightarrow> 'h services \<Rightarrow> bool \<Rightarrow> string \<Rightarrow> rat \<Rightarrow> int \<Rightarrow> rat \<Rightarrow> string list \<Rightarrow> loop_io list \<Rightarrow>
   loop_state \<Rightarrow> (worker_error + worker_stats \<times> loop_state) option" where
  "run_worker rc sv has_source owner secs m idle kinds [] l = None"
| "run_worker rc sv has_source owner secs m idle kinds (li # lis) l =
     (if li_stop li then Some (Inr (wk_stats (lp_worker l), l))
      else case loop_iteration rc sv has_source owner secs m idle kinds li l of
        None \<Rightarrow> None
      | Some (Inl e) \<Rightarrow> Some (Inl e)
      | Some (Inr l') \<Rightarrow> run_worker rc sv has_source owner secs m idle kinds lis l')"

end
