(* ===== verification/WorkerProperties.thy ===== *)
theory WorkerProperties imports Worker begin

text \<open>
  The worker implements the queue's steps, runs at most one handler per round, and writes
  the result the handler asked for.
\<close>

section \<open>Backoff\<close>

text \<open>
  The retry backoff follows its schedule. The delay is 5, 30 or 120 seconds plus the
  jitter (never less than the schedule), a later attempt never waits less under the same
  jitter, and attempts from the third on wait the last entry.
\<close>

lemma backoff_schedule:
  "backoff_for_attempt n jitter = (if n \<le> 1 then 5 else if n = 2 then 30 else 120) + max 0 jitter \<and>
   mono (\<lambda>n. backoff_for_attempt n jitter)"
proof -
  have eq: "backoff_for_attempt n jitter = (if n \<le> 1 then 5 else if n = 2 then 30 else 120) + max 0 jitter"
    for n
  proof -
    consider "n \<le> 1" | "n = 2" | "3 \<le> n" by linarith
    then show ?thesis
      by cases (simp_all add: backoff_for_attempt_def retry_backoff_seconds_def Let_def max_def min_def)
  qed
  have "mono (\<lambda>n. backoff_for_attempt n jitter)"
    by (intro monoI) (simp add: eq)
  with eq show ?thesis by blast
qed

section \<open>The worker only takes queue steps\<close>

definition env_ok :: "(tasks \<Rightarrow> tasks) \<Rightarrow> bool" where
  "env_ok env \<longleftrightarrow> (\<forall>t. task_step\<^sup>*\<^sup>* t (env t))"

fun event_ok :: "wait_event \<Rightarrow> bool" where
  "event_ok (WorkDone _) = True"
| "event_ok (RenewAt env _ _ _) = env_ok env"
| "event_ok (RenewFails env _) = env_ok env"

definition io_ok :: "worker_io \<Rightarrow> bool" where
  "io_ok io \<longleftrightarrow> (\<forall>c. env_ok (io_claim_env io c)) \<and> list_all event_ok (io_events io) \<and> env_ok (io_write_env io)"

abbreviation steps :: "worker_state \<Rightarrow> worker_state \<Rightarrow> bool" where
  "steps s s' \<equiv> task_step\<^sup>*\<^sup>* (wk_tasks s) (wk_tasks s')"

lemma env_okD: "env_ok env \<Longrightarrow> task_step\<^sup>*\<^sup>* t (env t)"
  by (simp add: env_ok_def)

lemma op_is_step: "task_step_on c t t' \<Longrightarrow> task_step\<^sup>*\<^sup>* t t'"
  unfolding task_step_def by blast

lemma run_renewing_steps:
  "run_renewing task owner secs es t = Some (res, t') \<Longrightarrow> list_all event_ok es \<Longrightarrow> task_step\<^sup>*\<^sup>* t t'"
proof (induction task owner secs es t rule: run_renewing.induct)
  case (5 task owner secs env now clock exn es t)
  have env: "task_step\<^sup>*\<^sup>* t (env t)" using 5(3) by (simp add: env_okD)
  show ?case
  proof (cases "heartbeat (ct_tenant_id task) now clock (ct_task_id task) owner (ct_fence task) secs (env t)")
    case (Inl e)
    with 5(2) env show ?thesis by simp
  next
    case (Inr p)
    then obtain b t1 where p: "p = (b, t1)" by (cases p)
    then have "task_step\<^sup>*\<^sup>* (env t) t1" using Inr by (blast intro: op_is_step ts_heartbeat)
    with env have t1: "task_step\<^sup>*\<^sup>* t t1" by (rule rtranclp_trans)
    show ?thesis
    proof (cases b)
      case True
      with 5 Inr p have "task_step\<^sup>*\<^sup>* t1 t'" by simp
      with t1 show ?thesis by (rule rtranclp_trans)
    next
      case False
      with 5(2) Inr p t1 show ?thesis by simp
    qed
  qed
qed (auto simp: env_okD)

lemma write_step_steps:
  assumes "write_step tx f count s = (res, s')"
    and "\<And>b t'. f (wk_tasks s) = Inr (b, t') \<Longrightarrow> task_step_on c (wk_tasks s) t'"
  shows "steps s s' \<and> wk_ran s' = wk_ran s"
proof (cases "f (wk_tasks s)")
  case (Inl e)
  with assms(1) show ?thesis by (auto simp: write_step_def)
next
  case (Inr p)
  then obtain b t' where p: "f (wk_tasks s) = Inr (b, t')" by (cases p) simp
  from assms(2) [OF p] have "task_step\<^sup>*\<^sup>* (wk_tasks s) t'" by (rule op_is_step)
  with assms(1) p show ?thesis by (auto simp: write_step_def Let_def split: if_splits)
qed

lemma worker_write_steps:
  assumes "worker_write tx now rand owner m task r s = (res, s')"
  shows "steps s s' \<and> wk_ran s' = wk_ran s"
  using assms unfolding worker_write_def Let_def
  by (auto split: if_splits elim!: write_step_steps
      intro: ts_succeed ts_fail ts_mark_cancelled ts_wait ts_reconcile ts_retry)

lemma finish_task_steps:
  assumes "finish_task io owner m task r s = (res, s')" and "env_ok (io_write_env io)"
  shows "steps s s' \<and> wk_ran s' = wk_ran s"
proof -
  let ?s = "s\<lparr>wk_tasks := io_write_env io (wk_tasks s)\<rparr>"
  obtain wres w where w: "worker_write (io_write_tx io) (io_write_now io) (io_rand io) owner m task r ?s = (wres, w)"
    by fastforce
  with assms(1) have "s' = w" by (auto simp: finish_task_def split: sum.splits)
  moreover have "task_step\<^sup>*\<^sup>* (wk_tasks s) (wk_tasks ?s)" using assms(2) by (simp add: env_okD)
  ultimately show ?thesis using worker_write_steps [OF w] by (auto intro: rtranclp_trans)
qed

lemma worker_claim_steps:
  assumes "worker_claim io tenant owner secs kinds s = (res, s')" and "io_ok io"
  shows "steps s s' \<and> wk_ran s' = wk_ran s \<and> wk_stats s' = wk_stats s"
proof -
  have env: "task_step\<^sup>*\<^sup>* (wk_tasks s) (io_claim_env io tenant (wk_tasks s))"
    using assms(2) by (simp add: io_ok_def env_okD)
  show ?thesis
    using assms(1) env
    by (auto simp: worker_claim_def Let_def split: if_splits sum.splits
        intro: rtranclp_trans [OF env op_is_step [OF ts_claim]])
qed

lemma process_claimed_runs:
  assumes "process_claimed rc io sv owner secs m task s = Some (res, s')"
    and "\<not> ((ct_cancel_requested task \<and>
        \<not> (case map_of (sv_registry sv) (ct_kind task) of None \<Rightarrow> False | Some h \<Rightarrow> rc h)) \<or>
      map_of (sv_registry sv) (ct_kind task) = None)"
    and "s1 = s\<lparr>wk_ran := wk_ran s @ [(ct_tenant_id task, task)]\<rparr>"
  obtains rr t' where
    "run_renewing task owner secs (io_events io) (wk_tasks s1) = Some (rr, t')"
    "(\<exists>r. finish_task io owner m task r (s1\<lparr>wk_tasks := t'\<rparr>) = (res, s')) \<or>
     s' = s1\<lparr>wk_tasks := t'\<rparr>"
proof -
  from assms(2) obtain h where h: "registry_get (sv_registry sv) (ct_kind task) = Inr h"
    by (auto simp: registry_get_def)
  show thesis
  proof (cases "run_renewing task owner secs (io_events io) (wk_tasks s1)")
    case None
    with assms h show thesis by (simp add: process_claimed_def Let_def split: if_splits)
  next
    case (Some p)
    then obtain rr t' where p: "p = (rr, t')" by (cases p)
    have "(\<exists>r. finish_task io owner m task r (s1\<lparr>wk_tasks := t'\<rparr>) = (res, s')) \<or>
        s' = s1\<lparr>wk_tasks := t'\<rparr>"
      using assms h Some unfolding p
      by (cases rr) (auto simp: process_claimed_def Let_def split: if_splits option.splits)
    with Some p that show thesis by blast
  qed
qed

text \<open>
  The rounds a processed claim may take: it changes the table by queue steps only, and
  calls the handler of the claimed task once or not at all.
\<close>

lemma process_claimed_steps:
  assumes "process_claimed rc io sv owner secs m task s = Some (res, s')" and "io_ok io"
  shows "steps s s' \<and> wk_ran s' \<in> {wk_ran s, wk_ran s @ [(ct_tenant_id task, task)]}"
proof -
  have io: "env_ok (io_write_env io)" "list_all event_ok (io_events io)"
    using assms(2) by (simp_all add: io_ok_def)
  note fin = finish_task_steps [OF _ io(1)]
  let ?cancel = "ct_cancel_requested task \<and>
    \<not> (case map_of (sv_registry sv) (ct_kind task) of None \<Rightarrow> False | Some h \<Rightarrow> rc h)"
  show ?thesis
  proof (cases "?cancel \<or> map_of (sv_registry sv) (ct_kind task) = None")
    case True
    then obtain r where "finish_task io owner m task r s = (res, s')"
      using assms(1) by (auto simp: process_claimed_def Let_def registry_get_def split: if_splits)
    from fin [OF this] show ?thesis by simp
  next
    case False
    let ?s1 = "s\<lparr>wk_ran := wk_ran s @ [(ct_tenant_id task, task)]\<rparr>"
    from assms(1) False refl obtain rr t' where
      run: "run_renewing task owner secs (io_events io) (wk_tasks ?s1) = Some (rr, t')"
      and rest: "(\<exists>r. finish_task io owner m task r (?s1\<lparr>wk_tasks := t'\<rparr>) = (res, s')) \<or> s' = ?s1\<lparr>wk_tasks := t'\<rparr>"
      by (rule process_claimed_runs)
    from run_renewing_steps [OF run io(2)] have t': "task_step\<^sup>*\<^sup>* (wk_tasks s) t'" by simp
    from rest show ?thesis
    proof
      assume "\<exists>r. finish_task io owner m task r (?s1\<lparr>wk_tasks := t'\<rparr>) = (res, s')"
      then obtain r where "finish_task io owner m task r (?s1\<lparr>wk_tasks := t'\<rparr>) = (res, s')" ..
      from fin [OF this] t' show ?thesis by (auto intro: rtranclp_trans)
    next
      assume "s' = ?s1\<lparr>wk_tasks := t'\<rparr>"
      with t' show ?thesis by simp
    qed
  qed
qed

lemma write_step_claimed:
  "write_step tx f count s = (res, s') \<Longrightarrow> (\<And>st. st_claimed (count st) = st_claimed st) \<Longrightarrow>
   st_claimed (wk_stats s') = st_claimed (wk_stats s)"
  by (auto simp: write_step_def Let_def split: sum.splits if_splits)

lemma finish_task_claimed:
  assumes "finish_task io owner m task r s = (res, s')"
  shows "st_claimed (wk_stats s') = st_claimed (wk_stats s)"
proof -
  have "st_claimed (wk_stats w') = st_claimed (wk_stats w)"
    if "worker_write tx now rand owner m task r w = (wres, w')" for tx now rand w wres w'
    using that unfolding worker_write_def Let_def
    by (auto split: if_splits elim!: write_step_claimed)
  with assms show ?thesis by (fastforce simp: finish_task_def split: sum.splits prod.splits)
qed

lemma process_claimed_claimed:
  assumes "process_claimed rc io sv owner secs m task s = Some (res, s')"
  shows "st_claimed (wk_stats s') = st_claimed (wk_stats s) \<and> res \<noteq> Inr None"
proof -
  have fin: "st_claimed (wk_stats w') = st_claimed (wk_stats w) \<and> r \<noteq> Inr None"
    if "finish_task io owner m task x w = (r, w')" for x w r w'
    using finish_task_claimed [OF that] that by (auto simp: finish_task_def split: sum.splits prod.splits)
  show ?thesis
    using assms
    by (auto simp: process_claimed_def Let_def split: if_splits sum.splits option.splits run_result.splits
        dest!: fin)
qed

lemma process_tenants_steps:
  assumes "process_tenants rc io sv owner secs m kinds tenants s = Some (res, s')" and "io_ok io"
  shows "steps s s' \<and>
    (if st_claimed (wk_stats s') = st_claimed (wk_stats s)
     then wk_ran s' = wk_ran s \<and> (\<forall>task. res \<noteq> Inr (Some task))
     else st_claimed (wk_stats s') = st_claimed (wk_stats s) + 1 \<and> res \<noteq> Inr None \<and>
       (\<exists>task. wk_ran s' \<in> {wk_ran s, wk_ran s @ [(ct_tenant_id task, task)]}))"
  using assms(1)
proof (induction tenants arbitrary: s)
  case Nil
  then show ?case by auto
next
  case (Cons tenant tenants)
  obtain cres s1 where cl: "worker_claim io tenant owner secs kinds s = (cres, s1)" by fastforce
  note c = worker_claim_steps [OF cl assms(2)]
  show ?case
  proof (cases cres)
    case (Inl e)
    with Cons.prems cl c show ?thesis by auto
  next
    case (Inr found)
    show ?thesis
    proof (cases found)
      case None
      with Inr Cons.prems cl have "process_tenants rc io sv owner secs m kinds tenants s1 = Some (res, s')"
        by simp
      from Cons.IH [OF this] c show ?thesis by (auto intro: rtranclp_trans split: if_splits)
    next
      case (Some task)
      let ?s2 = "s1\<lparr>wk_stats := (wk_stats s1)\<lparr>st_claimed := st_claimed (wk_stats s1) + 1\<rparr>\<rparr>"
      from Some Inr Cons.prems cl have
        p: "process_claimed rc io sv owner secs m task ?s2 = Some (res, s')" by simp
      have "steps s s'" using process_claimed_steps [OF p assms(2)] c by (auto intro: rtranclp_trans)
      moreover have "wk_ran s' \<in> {wk_ran s, wk_ran s @ [(ct_tenant_id task, task)]}"
        using process_claimed_steps [OF p assms(2)] c by simp
      moreover have "st_claimed (wk_stats s') = st_claimed (wk_stats s) + 1 \<and> res \<noteq> Inr None"
        using process_claimed_claimed [OF p] c by simp
      ultimately show ?thesis by auto
    qed
  qed
qed

text \<open>
  C24: A worker round is a run of the queue with at most one attempt. If the other replicas
  change the table by repository statements only, the whole round does too, so every
  property of reachable tables holds along it. The round claims at most one task; it
  reports a task only when it claimed one and no task only when it claimed none; and it
  runs at most one handler, only after a claim, under the tenant of its task.
\<close>

theorem worker_round_takes_queue_steps:
  assumes "process_once rc io sv owner secs m kinds tenants s = Some (res, s')" and "io_ok io"
  shows "task_step\<^sup>*\<^sup>* (wk_tasks s) (wk_tasks s') \<and>
    (if st_claimed (wk_stats s') = st_claimed (wk_stats s)
     then wk_ran s' = wk_ran s \<and> (\<forall>task. res \<noteq> Inr (Some task))
     else st_claimed (wk_stats s') = st_claimed (wk_stats s) + 1 \<and> res \<noteq> Inr None \<and>
       (\<exists>task. wk_ran s' \<in> {wk_ran s, wk_ran s @ [(ct_tenant_id task, task)]}))"
  using assms process_tenants_steps [of rc io sv owner secs m kinds tenants s res s']
  by (auto simp: process_once_def split: if_splits)

section \<open>What the result write does to the row\<close>

lemma tasks_update_single:
  assumes "tasks_inv t" and "r \<in> set t" and "P r" and "wt_tenant_id r = c" and "c \<noteq> ''''"
    and "\<And>s. s \<in> set t \<Longrightarrow> wt_tenant_id s = c \<Longrightarrow> P s \<Longrightarrow> task_key s = task_key r"
    and "dedupe_indexed (f r) \<Longrightarrow> dedupe_indexed r"
    and "(wt_tenant_id (f r), wt_kind (f r), wt_dedupe_key (f r)) =
      (wt_tenant_id r, wt_kind r, wt_dedupe_key r)"
  shows "tasks_update c P f t = Inr ([f r], map (\<lambda>s. if s = r then f r else s) t)"
proof -
  have hit: "rls_visible c (wt_tenant_id s) \<and> P s \<longleftrightarrow> s = r" if "s \<in> set t" for s
  proof
    assume s: "rls_visible c (wt_tenant_id s) \<and> P s"
    then have "task_key s = task_key r" using assms(6) that by (simp add: rls_visible_def)
    with that assms(1,2) show "s = r"
      unfolding tasks_inv_def by (meson distinct_key_eq)
  next
    assume "s = r"
    then show "rls_visible c (wt_tenant_id s) \<and> P s" using assms(3-5) by (simp add: rls_visible_def)
  qed
  let ?hit = "\<lambda>s. rls_visible c (wt_tenant_id s) \<and> P s"
  have one: "filter ?hit t = [r]"
    using filter_key_single [of id t r] assms(1,2) hit
    by (simp add: tasks_inv_def distinct_map cong: filter_cong)
  have map_eq: "upd_where ?hit f t = map (\<lambda>s. if s = r then f r else s) t"
    unfolding upd_where_def using hit by (intro map_cong) auto
  have "dedupe_index_ok (map (\<lambda>s. if s = r then f r else s) t)"
    unfolding dedupe_index_ok_def
    by (rule distinct_filter_map_cong)
      (use assms(1,7,8) in \<open>auto simp: tasks_inv_def dedupe_index_ok_def split: if_splits\<close>)
  then show ?thesis unfolding tasks_update_def Let_def one map_eq by simp
qed

lemma transition_single:
  assumes "tasks_inv t" and "r \<in> set t" and "wt_tenant_id r = c" and "c \<noteq> ''''"
    and "guarded_by tid owner fence r" and "wt_status r \<in> set from"
    and "set from \<inter> set terminal_states = {}"
    and "wt_tenant_id (sets r) = wt_tenant_id r \<and> wt_kind (sets r) = wt_kind r \<and>
      wt_dedupe_key (sets r) = wt_dedupe_key r"
  shows "transition c now tid owner fence sets from t =
    Inr (True, map (\<lambda>s. if s = r then (sets r)\<lparr>wt_updated_at := now\<rparr> else s) t)"
proof -
  have "tasks_update c (\<lambda>r. guarded_by tid owner fence r \<and> wt_status r \<in> set from)
      (\<lambda>r. (sets r)\<lparr>wt_updated_at := now\<rparr>) t =
    Inr ([(sets r)\<lparr>wt_updated_at := now\<rparr>], map (\<lambda>s. if s = r then (sets r)\<lparr>wt_updated_at := now\<rparr> else s) t)"
    by (rule tasks_update_single [OF assms(1,2) _ assms(3,4)])
      (use assms in \<open>auto simp: guarded_by_def dedupe_indexed_def\<close>)
  then show ?thesis by (simp add: transition_def)
qed

text \<open>The row an attempt leaves behind, from the result of its handler.\<close>

definition result_row :: "rat \<Rightarrow> rat \<Rightarrow> int \<Rightarrow> int \<Rightarrow> handler_result \<Rightarrow> task \<Rightarrow> task" where
  "result_row now rand max_attempts attempt res r =
     (if hr_outcome res = ''succeed'' then
        r\<lparr>wt_status := Succeeded, wt_result_ref := hr_result_ref res, wt_error_code := '''', wt_updated_at := now\<rparr>
      else if hr_outcome res = ''fail'' then
        r\<lparr>wt_status := Failed, wt_updated_at := now,
          wt_error_code := (if hr_error_code res = '''' then ''handler_failed'' else hr_error_code res)\<rparr>
      else if hr_outcome res = ''cancelled'' then r\<lparr>wt_status := Cancelled, wt_updated_at := now\<rparr>
      else if hr_outcome res = ''wait_external'' then
        r\<lparr>wt_status := WaitingExternal, wt_upstream_task_id := hr_upstream_task_id res, wt_updated_at := now\<rparr>
      else if hr_outcome res = ''reconcile'' then r\<lparr>wt_status := Reconciling, wt_updated_at := now\<rparr>
      else if max_attempts \<le> attempt then
        r\<lparr>wt_status := Failed, wt_error_code := ''retries_exhausted'', wt_updated_at := now\<rparr>
      else
        r\<lparr>wt_status := RetryWait, wt_owner_id := '''', wt_lease_until := None,
          wt_error_code := hr_error_code res, wt_updated_at := now,
          wt_available_at := now + (if hr_backoff_seconds res = 0 then backoff_for_attempt attempt rand
                                    else hr_backoff_seconds res)\<rparr>)"

definition known_outcomes :: "string list" where
  "known_outcomes = [''succeed'', ''fail'', ''retry'', ''wait_external'', ''reconcile'', ''cancelled'']"

definition st_results :: "worker_stats \<Rightarrow> int" where
  "st_results st = st_succeeded st + st_failed st + st_retried st + st_cancelled st +
     st_reconciling st + st_waiting_external st"

lemma write_step_ok:
  assumes "f (wk_tasks s) = Inr (True, t')" and "\<And>st. st_results (count st) = st_results st + 1"
  shows "\<exists>s'. write_step TxOk f count s = (Inr (), s') \<and> wk_tasks s' = t' \<and>
    st_results (wk_stats s') = st_results (wk_stats s) + 1"
  using assms by (simp add: write_step_def Let_def)

lemma result_write_effect:
  assumes "tasks_reachable (wk_tasks s)" and "r \<in> set (wk_tasks s)"
    and "task_key r = (ct_tenant_id task, ct_task_id task)" and "ct_tenant_id task \<noteq> ''''"
    and "wt_owner_id r = owner" and "wt_fence r = ct_fence task" and "wt_status r = Running"
    and "hr_outcome res \<in> set known_outcomes"
  shows "\<exists>s'. worker_write TxOk now rand owner m task res s = (Inr (), s') \<and>
    wk_tasks s' = map (\<lambda>x. if x = r then result_row now rand m (ct_attempt task) res r else x) (wk_tasks s) \<and>
    st_results (wk_stats s') = st_results (wk_stats s) + 1"
proof -
  let ?c = "ct_tenant_id task" and ?tid = "ct_task_id task" and ?f = "ct_fence task"
  have inv: "tasks_inv (wk_tasks s)" using assms(1) by (rule reachable_tasks_inv)
  have g: "guarded_by ?tid owner ?f r" "wt_tenant_id r = ?c"
    using assms(3,5,6) by (simp_all add: guarded_by_def)
  have tr: "transition ?c now ?tid owner ?f sets sts (wk_tasks s) =
      Inr (True, map (\<lambda>x. if x = r then (sets r)\<lparr>wt_updated_at := now\<rparr> else x) (wk_tasks s))"
    if "Running \<in> set sts" "set sts \<inter> set terminal_states = {}"
      "wt_tenant_id (sets r) = wt_tenant_id r \<and> wt_kind (sets r) = wt_kind r \<and>
       wt_dedupe_key (sets r) = wt_dedupe_key r" for sets sts
    by (rule transition_single [OF inv assms(2) g(2) assms(4) g(1)]) (use that assms(7) in auto)
  note defs = op_defs tr active_for_result_def terminal_states_def
  consider "hr_outcome res = ''succeed''" | "hr_outcome res = ''fail''" | "hr_outcome res = ''cancelled''"
    | "hr_outcome res = ''wait_external''" | "hr_outcome res = ''reconcile''"
    | "hr_outcome res = ''retry''" "m \<le> ct_attempt task" | "hr_outcome res = ''retry''" "\<not> m \<le> ct_attempt task"
    using assms(8) by (auto simp: known_outcomes_def)
  then show ?thesis
    by cases (simp_all add: worker_write_def Let_def result_row_def defs write_step_def st_results_def
        cong: if_cong)
qed

text \<open>
  The result write does what the handler asked. When the attempt still holds its row
  (running, under its owner and fence), the write of a result with a known outcome succeeds
  and changes exactly that row, to the row the outcome prescribes: a retry goes back to
  waiting with its backoff while attempts are left and fails as \<open>retries_exhausted\<close> when
  the attempt was the last; exactly one result counter is raised.
\<close>

lemma result_write_applies:
  assumes "tasks_reachable (wk_tasks s)" and "r \<in> set (wk_tasks s)"
    and "task_key r = (ct_tenant_id task, ct_task_id task)" and "ct_tenant_id task \<noteq> ''''"
    and "wt_owner_id r = owner" and "wt_fence r = ct_fence task" and "wt_status r = Running"
    and "hr_outcome res \<in> set known_outcomes"
  shows "\<exists>s'. worker_write TxOk now rand owner m task res s = (Inr (), s') \<and>
    wk_tasks s' = map (\<lambda>x. if x = r then result_row now rand m (ct_attempt task) res r else x) (wk_tasks s) \<and>
    st_results (wk_stats s') = st_results (wk_stats s) + 1"
  using assms by (rule result_write_effect)

section \<open>An example round\<close>

definition demo_services :: "unit services" where
  "demo_services = \<lparr>sv_role = ''worker'', sv_registry = [], sv_has_scheduler = False\<rparr>"

definition demo_io :: worker_io where
  "demo_io = \<lparr>io_claim_env = (\<lambda>_ t. t), io_claim_fails = (\<lambda>_. False), io_claim_now = (\<lambda>_. 0),
     io_claim_locked = (\<lambda>_ _. False), io_events = [], io_write_env = (\<lambda>t. t), io_write_tx = TxOk,
     io_write_now = 1, io_rand = 0\<rparr>"

definition demo_state :: worker_state where
  "demo_state = \<lparr>wk_tasks = [demo_queued], wk_stats = empty_stats, wk_ran = []\<rparr>"

lemma demo_io_ok: "io_ok demo_io"
  by (simp add: io_ok_def demo_io_def env_ok_def)

text \<open>No handler is registered: the claimed task goes to waiting for five seconds.\<close>

lemma demo_round:
  "\<exists>res s'. process_once (\<lambda>_. False) demo_io demo_services ''w1'' 60 3 [] [''acme''] demo_state = Some (res, s') \<and>
     res = Inr (Some (claimed_of ''w1'' demo_first)) \<and>
     wk_stats s' = empty_stats\<lparr>st_claimed := 1, st_retried := 1\<rparr>"
proof -
  let ?s1 = "demo_state\<lparr>wk_tasks := [demo_first], wk_stats := empty_stats\<lparr>st_claimed := 1\<rparr>\<rparr>"
  have cl: "worker_claim demo_io ''acme'' ''w1'' 60 [] demo_state =
      (Inr (Some (claimed_of ''w1'' demo_first)), demo_state\<lparr>wk_tasks := [demo_first]\<rparr>)"
    using demo_claim_first by (simp add: worker_claim_def demo_io_def demo_state_def)
  have fields: "ct_tenant_id (claimed_of ''w1'' demo_first) = ''acme''"
    "ct_task_id (claimed_of ''w1'' demo_first) = ''t1''" "ct_fence (claimed_of ''w1'' demo_first) = 1"
    "ct_attempt (claimed_of ''w1'' demo_first) = 1" "\<not> ct_cancel_requested (claimed_of ''w1'' demo_first)"
    by (simp_all add: claimed_of_def demo_defs claim_set_def new_task_row_def)
  have retry: "\<exists>t'. retry_task ''acme'' 1 ''t1'' ''w1'' 1 5 code [demo_first] = Inr (True, t')" for code
    by (simp add: op_defs transition_def tasks_update_def Let_def guarded_by_def upd_where_def
        rls_visible_def dedupe_index_ok_def demo_defs claim_set_def new_task_row_def)
  have b: "backoff_for_attempt 1 0 = 5"
    by (simp add: backoff_for_attempt_def retry_backoff_seconds_def)
  have "\<exists>s'. finish_task demo_io ''w1'' 3 (claimed_of ''w1'' demo_first)
      (result_retry ''handler_exception:KeyError'' 0) ?s1 =
      (Inr (Some (claimed_of ''w1'' demo_first)), s') \<and>
      wk_stats s' = empty_stats\<lparr>st_claimed := 1, st_retried := 1\<rparr>"
    using retry [of "''handler_exception:KeyError''"]
    by (auto simp: finish_task_def worker_write_def Let_def fields b result_retry_def
        handler_result_of_def demo_io_def write_step_def empty_stats_def)
  then show ?thesis
    using cl by (simp add: process_once_def runs_worker_def demo_services_def process_claimed_def
        Let_def fields registry_get_def demo_state_def empty_stats_def)
qed

theorem worker_round_takes_queue_steps_witness:
  "\<exists>s'. process_once (\<lambda>_. False) demo_io demo_services ''w1'' 60 3 [] [''acme''] demo_state =
      Some (Inr (Some (claimed_of ''w1'' demo_first)), s') \<and>
    task_step\<^sup>*\<^sup>* [demo_queued] (wk_tasks s')"
  using demo_round worker_round_takes_queue_steps [OF _ demo_io_ok, of "\<lambda>_. False" demo_services "''w1''" 60 3 "[]"
      "[''acme'']" demo_state]
  by (auto simp: demo_state_def)

lemma result_write_applies_witness:
  "\<exists>s'. worker_write TxOk 1 0 ''w1'' 3 (claimed_of ''w1'' demo_first) (result_succeed ''ref'')
      (demo_state\<lparr>wk_tasks := [demo_first]\<rparr>) = (Inr (), s') \<and> map wt_status (wk_tasks s') = [Succeeded]"
proof -
  have fields: "ct_tenant_id (claimed_of ''w1'' demo_first) = wt_tenant_id demo_first"
    "ct_task_id (claimed_of ''w1'' demo_first) = wt_task_id demo_first"
    "ct_fence (claimed_of ''w1'' demo_first) = wt_fence demo_first"
    "wt_owner_id demo_first = ''w1''" "wt_status demo_first = Running" "wt_tenant_id demo_first = ''acme''"
    by (simp_all add: claimed_of_def demo_defs claim_set_def new_task_row_def)
  show ?thesis
    using result_write_applies [of "demo_state\<lparr>wk_tasks := [demo_first]\<rparr>" demo_first
        "claimed_of ''w1'' demo_first" "''w1''" "result_succeed ''ref''" 1 0 3]
    by (auto simp: demo_reachable(2) fields result_succeed_def handler_result_of_def known_outcomes_def
        result_row_def)
qed

section \<open>Cancellation observed at the claim\<close>

text \<open>
  A cancelled task never starts. When the task a worker claims has a pending cancel
  request and its handler does not handle cancellation itself, the round runs no handler
  and, if nobody else writes the row meanwhile, marks exactly that row cancelled.
\<close>

lemma cancel_at_claim_runs_no_handler:
  assumes "tasks_reachable t" and "t = io_claim_env io c (wk_tasks s)" and "runs_worker sv"
    and "\<not> io_claim_fails io c" and "io_write_tx io = TxOk" and "io_write_env io = (\<lambda>t. t)"
    and "claim_pick c (io_claim_now io c) (io_claim_locked io c) kinds t = Some p"
    and "wt_cancel_requested p"
    and "case map_of (sv_registry sv) (wt_kind p) of None \<Rightarrow> True | Some h \<Rightarrow> \<not> rc h"
  shows "\<exists>s'. process_once rc io sv owner secs m kinds (c # tenants) s =
      Some (Inr (Some (claimed_of owner (claim_set owner (io_claim_now io c) secs p))), s') \<and>
    wk_ran s' = wk_ran s \<and>
    wk_tasks s' = map (\<lambda>r. if r = p then (claim_set owner (io_claim_now io c) secs p)
      \<lparr>wt_status := Cancelled, wt_updated_at := io_write_now io\<rparr> else r) t"
proof -
  let ?p = "claim_set owner (io_claim_now io c) secs p"
  let ?ct = "claimed_of owner ?p"
  let ?t1 = "map (\<lambda>r. if r = p then ?p else r) t"
  have inv: "tasks_inv t" using assms(1) by (rule reachable_tasks_inv)
  have p: "p \<in> set t" "rls_visible c (wt_tenant_id p)"
    using claim_pick_Some [OF assms(7)] by (simp_all add: claimable_def)
  obtain cres t1 where cl0: "claim c (io_claim_now io c) (io_claim_locked io c) owner secs kinds t = Inr (cres, t1)"
    using claim_never_fails [OF inv] by blast
  then have cl: "claim c (io_claim_now io c) (io_claim_locked io c) owner secs kinds t = Inr (Some ?ct, ?t1)"
    using inv
  proof (cases rule: claim_cases)
    case none
    with assms(7) show ?thesis by simp
  next
    case (some q)
    then have "q = p" using assms(7) by simp
    moreover have "upd_where (\<lambda>r. task_key r = task_key p) (claim_set owner (io_claim_now io c) secs) t = ?t1"
      unfolding upd_where_def using inv p(1) distinct_key_eq [of task_key t _ p]
      by (auto simp: tasks_inv_def)
    ultimately show ?thesis using cl0 some(2,3) by simp
  qed
  let ?s1 = "s\<lparr>wk_tasks := ?t1, wk_stats := (wk_stats s)\<lparr>st_claimed := st_claimed (wk_stats s) + 1\<rparr>\<rparr>"
  have r1: "tasks_reachable ?t1"
    by (rule tr_step [OF assms(1)]) (use cl in \<open>auto simp: task_step_def intro: ts_claim\<close>)
  have fields: "task_key ?p = (ct_tenant_id ?ct, ct_task_id ?ct)" "ct_tenant_id ?ct \<noteq> ''''"
    "wt_owner_id ?p = owner" "wt_fence ?p = ct_fence ?ct" "wt_status ?p = Running"
    "ct_cancel_requested ?ct" "ct_kind ?ct = wt_kind p"
    using p(2) assms(8) by (auto simp: claimed_of_def claim_set_def rls_visible_def)
  have mem: "?p \<in> set (wk_tasks ?s1)" using p(1) by (auto simp: image_iff intro!: bexI [of _ p])
  obtain s' where s': "worker_write TxOk (io_write_now io) (io_rand io) owner m ?ct result_cancelled ?s1 = (Inr (), s')"
    "wk_tasks s' = map (\<lambda>x. if x = ?p then result_row (io_write_now io) (io_rand io) m (ct_attempt ?ct)
      result_cancelled ?p else x) ?t1"
    using result_write_effect [of ?s1 ?p ?ct owner result_cancelled "io_write_now io" "io_rand io" m]
      r1 mem fields by (auto simp: result_cancelled_def handler_result_of_def known_outcomes_def)
  have distinct: "x = p" if "x \<in> set t" "x = ?p" for x
  proof -
    have "task_key ?p = task_key p" by (simp add: claim_set_def)
    with that have "task_key x = task_key p" by (simp only:)
    with that(1) p(1) inv show ?thesis unfolding tasks_inv_def by (meson distinct_key_eq)
  qed
  have rows: "wk_tasks s' = map (\<lambda>r. if r = p then ?p\<lparr>wt_status := Cancelled, wt_updated_at := io_write_now io\<rparr>
      else r) t"
    unfolding s'(2) map_map o_def
    by (intro map_cong refl) (auto simp: result_row_def result_cancelled_def handler_result_of_def dest: distinct)
  have "worker_claim io c owner secs kinds s = (Inr (Some ?ct), s\<lparr>wk_tasks := ?t1\<rparr>)"
    using cl assms(2,4) by (simp add: worker_claim_def)
  then have "process_once rc io sv owner secs m kinds (c # tenants) s =
      process_claimed rc io sv owner secs m ?ct ?s1"
    using assms(3) by (simp add: process_once_def)
  also have "\<dots> = Some (finish_task io owner m ?ct result_cancelled ?s1)"
    using fields(6,7) assms(9) by (simp add: process_claimed_def split: option.splits)
  also have "\<dots> = Some (Inr (Some ?ct), s')"
  proof -
    have "?s1\<lparr>wk_tasks := io_write_env io (wk_tasks ?s1)\<rparr> = ?s1" using assms(6) by simp
    then show ?thesis unfolding finish_task_def assms(5) using s'(1) by (simp only: prod.case sum.case)
  qed
  finally show ?thesis using rows worker_write_steps [OF s'(1)] by simp
qed

section \<open>The loop survives failures, up to a point\<close>

lemma loop_try_failures:
  assumes "loop_try rc sv src owner secs m kinds li l = Some (res, l1)"
  shows "lp_failures l1 = lp_failures l"
  using assms
  by (auto simp: loop_try_def loop_refresh_def Let_def bindE_def split: sum.splits if_splits)

lemma loop_iteration_failures:
  assumes "loop_iteration rc sv src owner secs m idle kinds li l = Some (Inr l')"
  shows "lp_failures l' \<le> lp_failures l + 1"
  using assms loop_try_failures
  by (fastforce simp: loop_iteration_def Let_def bindE_Inr_iff split: option.splits prod.splits sum.splits if_splits)

lemma loop_iteration_raises:
  assumes "loop_iteration rc sv src owner secs m idle kinds li l = Some (Inl e)"
  shows "e = OverflowError \<and> 1024 \<le> lp_failures l"
  using assms loop_try_failures
  by (fastforce simp: loop_iteration_def Let_def bindE_Inl_iff loop_delay_def float_pow2_def
      split: option.splits prod.splits sum.splits if_splits)

text \<open>
  C25: The loop survives every outage of up to 1024 rounds. Whatever the database, the
  tenant source and the handlers do, an exception leaves a loop that started without
  failures only as an \<open>OverflowError\<close>, and only after more than 1024 iterations.
\<close>

theorem worker_loop_survives_outage:
  assumes "run_worker rc sv src owner secs m idle kinds lis l = Some (Inl e)" and "lp_failures l = 0"
  shows "e = OverflowError \<and> 1024 < length lis"
proof -
  have "e = OverflowError \<and> 1024 < length lis + lp_failures l"
    using assms(1)
  proof (induction lis arbitrary: l)
    case Nil
    then show ?case by simp
  next
    case (Cons li lis)
    show ?case
    proof (cases "loop_iteration rc sv src owner secs m idle kinds li l")
      case None
      with Cons.prems show ?thesis by (simp split: if_splits)
    next
      case (Some res)
      show ?thesis
      proof (cases res)
        case (Inl e')
        with Some Cons.prems have "e' = e" by (simp split: if_splits)
        with Inl Some loop_iteration_raises show ?thesis by fastforce
      next
        case (Inr l')
        with Some Cons.prems have "run_worker rc sv src owner secs m idle kinds lis l' = Some (Inl e)"
          by (simp split: if_splits)
        from Cons.IH [OF this] loop_iteration_failures Some Inr show ?thesis by fastforce
      qed
    qed
  qed
  with assms(2) show ?thesis by simp
qed

lemma outage_run:
  assumes "li_source li = Inl e" and "\<not> li_stop li" and "refresh_due li l" and "lp_failures l = 0"
  shows "run_worker rc sv True owner secs m idle kinds (replicate 1025 li) l = Some (Inl OverflowError)"
proof -
  have "run_worker rc sv True owner secs m idle kinds (replicate n li) l = Some (Inl OverflowError)"
    if "refresh_due li l" "n + lp_failures l = 1025" "0 < n" for n and l :: loop_state
    using that
  proof (induction n arbitrary: l)
    case 0
    then show ?case by simp
  next
    case (Suc n)
    have t: "loop_try rc sv True owner secs m kinds li l = Some (Inl e, l)"
      using Suc.prems(1) assms(1) by (simp add: loop_try_def loop_refresh_def)
    show ?case
    proof (cases "n = 0")
      case True
      with Suc.prems t assms(2) show ?thesis
        by (simp add: loop_iteration_def Let_def loop_delay_def float_pow2_def)
    next
      case False
      then have f: "lp_failures l < 1024" using Suc.prems by simp
      let ?l = "l\<lparr>lp_failures := lp_failures l + 1, lp_health := lp_health l @ [False],
        lp_pauses := lp_pauses l @ [min loop_backoff_max_seconds (2 ^ lp_failures l) + li_jitter li]\<rparr>"
      have "loop_iteration rc sv True owner secs m idle kinds li l = Some (Inr ?l)"
        using f t by (simp add: loop_iteration_def Let_def loop_delay_def float_pow2_def)
      moreover have "refresh_due li ?l" using Suc.prems(1) by (simp add: refresh_due_def)
      moreover have "n + lp_failures ?l = 1025" using Suc.prems(2) by simp
      ultimately show ?thesis using Suc.IH [of ?l] False assms(2) by simp
    qed
  qed
  with assms(3,4) show ?thesis by simp
qed

text \<open>
  A longer outage ends the worker. While the tenant source keeps raising, the loop of
  a worker that was healthy pauses \<open>min 30 (2 ^ n)\<close> seconds plus jitter after its n+1st
  failure, and its 1025th consecutive failure raises \<open>OverflowError\<close> out of the loop: the
  cap is taken after the power is computed.
\<close>

lemma long_outage_ends_worker:
  assumes "li_source li = Inl e" and "\<not> li_stop li" and "refresh_due li l" and "lp_failures l = 0"
  shows "run_worker rc sv True owner secs m idle kinds (replicate 1025 li) l = Some (Inl OverflowError)"
  using assms by (rule outage_run)

section \<open>Examples\<close>

definition demo_pending :: task where
  "demo_pending = demo_first\<lparr>wt_cancel_requested := True, wt_updated_at := 10\<rparr>"

lemma demo_pending_reachable: "tasks_reachable [demo_pending]"
proof -
  have "request_cancel ''acme'' 10 ''t1'' [demo_first] = Inr (Some Running, [demo_pending])"
    by (simp add: request_cancel_def tasks_update_def Let_def upd_where_def rls_visible_def
        dedupe_index_ok_def terminal_states_def demo_pending_def demo_defs claim_set_def new_task_row_def)
  then show ?thesis
    by (intro tr_step [OF demo_reachable(2)]) (auto simp: task_step_def intro: ts_request_cancel)
qed

lemma cancel_at_claim_runs_no_handler_witness:
  "\<exists>s'. process_once (\<lambda>_. False) (demo_io\<lparr>io_claim_now := \<lambda>_. 61\<rparr>) demo_services ''w2'' 60 3 [] [''acme'']
      (demo_state\<lparr>wk_tasks := [demo_pending]\<rparr>) =
      Some (Inr (Some (claimed_of ''w2'' (claim_set ''w2'' 61 60 demo_pending))), s') \<and>
    wk_ran s' = [] \<and> map wt_status (wk_tasks s') = [Cancelled]"
proof -
  have pick: "claim_pick ''acme'' 61 (\<lambda>_. False) [] [demo_pending] = Some demo_pending"
    by (simp add: claim_eval_defs demo_pending_def demo_defs)
  show ?thesis
    using cancel_at_claim_runs_no_handler [OF demo_pending_reachable,
        of "demo_io\<lparr>io_claim_now := \<lambda>_. 61\<rparr>" "''acme''" "demo_state\<lparr>wk_tasks := [demo_pending]\<rparr>"
          demo_services "[]" demo_pending "\<lambda>_. False" "''w2''" 60 3 "[]"] pick
    by (auto simp: demo_io_def demo_services_def runs_worker_def demo_state_def demo_pending_def)
qed

definition demo_loop :: loop_state where
  "demo_loop = \<lparr>lp_worker = demo_state, lp_active = [''default''], lp_last_refresh = 0, lp_failures = 0,
     lp_health = [], lp_pauses = [], lp_scheduled = []\<rparr>"

definition demo_outage :: loop_io where
  "demo_outage = \<lparr>li_stop = False, li_time = 100, li_source = Inl DatabaseDown, li_round = demo_io,
     li_jitter = 0\<rparr>"

lemma demo_outage_run:
  "run_worker (\<lambda>_. False) demo_services True ''w1'' 60 3 1 [] (replicate 1025 demo_outage) demo_loop =
     Some (Inl OverflowError)"
  by (rule outage_run) (simp_all add: demo_outage_def demo_loop_def refresh_due_def)

theorem worker_loop_survives_outage_witness:
  "run_worker (\<lambda>_. False) demo_services True ''w1'' 60 3 1 [] (replicate 1025 demo_outage) demo_loop =
     Some (Inl OverflowError) \<and> 1024 < length (replicate 1025 demo_outage)"
  using worker_loop_survives_outage [OF demo_outage_run] demo_outage_run
  by (simp add: demo_loop_def del: replicate.simps length_replicate replicate_Suc)

lemma long_outage_ends_worker_witness:
  "run_worker (\<lambda>_. False) demo_services True ''w2'' 60 3 1 [] (replicate 1025 demo_outage) demo_loop =
     Some (Inl OverflowError)"
  by (rule long_outage_ends_worker) (simp_all add: demo_outage_def demo_loop_def refresh_due_def)

end
