(* ===== verification/Jobs.thy ===== *)
theory Jobs imports WorkerProperties begin

text \<open>
  The job endpoints (teamEvolver/operations/api/\_\_init\_\_.py): reading, cancelling and
  retrying a task over the repository, each statement in a transaction of its own on the
  caller's tenant connection. Between two transactions of a request the table may change.
\<close>

record job_view =
  jv_job_id :: string
  jv_kind :: string
  jv_status :: task_status
  jv_attempt :: int
  jv_cancel_requested :: bool
  jv_upstream_task_id :: string
  jv_result_ref :: string
  jv_error_code :: string
  jv_created_at :: rat
  jv_updated_at :: rat

datatype http_error = NotFound404 | OnlyFailed409 task_status | NoLongerFailed409 | Unhandled db_error

datatype job_reply = JobView job_view | JobStatus string task_status bool

definition public_job :: "task \<Rightarrow> job_view" where
  "public_job r =
     \<lparr>jv_job_id = wt_task_id r, jv_kind = wt_kind r, jv_status = wt_status r, jv_attempt = wt_attempt r,
      jv_cancel_requested = wt_cancel_requested r, jv_upstream_task_id = wt_upstream_task_id r,
      jv_result_ref = wt_result_ref r, jv_error_code = wt_error_code r,
      jv_created_at = wt_created_at r, jv_updated_at = wt_updated_at r\<rparr>"

definition load_job :: "conn \<Rightarrow> string \<Rightarrow> tasks \<Rightarrow> http_error + task" where
  "load_job c tid t = (case get_task c tid t of None \<Rightarrow> Inl NotFound404 | Some r \<Rightarrow> Inr r)"

definition get_job :: "conn \<Rightarrow> string \<Rightarrow> tasks \<Rightarrow> http_error + job_reply" where
  "get_job c tid t = bindE (load_job c tid t) (\<lambda>r. Inr (JobView (public_job r)))"

definition cancel_job ::
  "conn \<Rightarrow> rat \<Rightarrow> (tasks \<Rightarrow> tasks) \<Rightarrow> (tasks \<Rightarrow> tasks) \<Rightarrow> string \<Rightarrow> tasks \<Rightarrow>
   (http_error + job_reply) \<times> tasks" where
  "cancel_job c now env1 env2 tid t =
     (case load_job c tid t of
        Inl e \<Rightarrow> (Inl e, t)
      | Inr _ \<Rightarrow>
          (case request_cancel c now tid (env1 t) of
             Inl e \<Rightarrow> (Inl (Unhandled e), env1 t)
           | Inr (None, t') \<Rightarrow> (get_job c tid (env2 t'), env2 t')
           | Inr (Some s, t') \<Rightarrow> (Inr (JobStatus tid s True), t')))"

definition retry_job ::
  "conn \<Rightarrow> rat \<Rightarrow> (tasks \<Rightarrow> tasks) \<Rightarrow> string \<Rightarrow> tasks \<Rightarrow> (http_error + job_reply) \<times> tasks" where
  "retry_job c now env tid t =
     (case load_job c tid t of
        Inl e \<Rightarrow> (Inl e, t)
      | Inr r \<Rightarrow>
          if wt_status r \<noteq> Failed then (Inl (OnlyFailed409 (wt_status r)), t)
          else (case requeue c now tid (env t) of
                  Inl e \<Rightarrow> (Inl (Unhandled e), env t)
                | Inr (None, t') \<Rightarrow> (Inl NoLongerFailed409, t')
                | Inr (Some s, t') \<Rightarrow> (Inr (JobStatus tid s False), t')))"

section \<open>Cancellation\<close>

lemma get_task_in_table:
  assumes "tasks_reachable t" and "r \<in> set t" and "wt_tenant_id r = c" and "c \<noteq> ''''"
  shows "get_task c (wt_task_id r) t = Some r"
proof -
  have "find (\<lambda>r'. rls_visible c (wt_tenant_id r') \<and> wt_task_id r' = wt_task_id r) t =
      find (\<lambda>r'. task_key r' = task_key r) t"
    using assms(3,4) by (intro arg_cong2 [where f = find] ext) (auto simp: rls_visible_def)
  then show ?thesis
    unfolding get_task_def by (simp only: find_task_key [OF reachable_tasks_inv [OF assms(1)] assms(2)])
qed

definition cancelled_row :: "rat \<Rightarrow> task \<Rightarrow> task" where
  "cancelled_row now r = r\<lparr>wt_cancel_requested := True, wt_updated_at := now,
     wt_status := (if wt_status r \<in> {Queued, RetryWait} then Cancelled else wt_status r)\<rparr>"

lemma request_cancel_row:
  assumes "tasks_reachable t" and "r \<in> set t" and "wt_tenant_id r = c" and "c \<noteq> ''''"
  shows "request_cancel c now (wt_task_id r) t =
    (if wt_status r \<in> set terminal_states then Inr (None, t)
     else Inr (Some (wt_status (cancelled_row now r)), map (\<lambda>s. if s = r then cancelled_row now r else s) t))"
proof -
  have inv: "tasks_inv t" using assms(1) by (rule reachable_tasks_inv)
  let ?P = "\<lambda>s. wt_task_id s = wt_task_id r \<and> wt_status s \<notin> set terminal_states"
  let ?f = "\<lambda>r. r\<lparr>wt_cancel_requested := True,
      wt_status := (if wt_status r \<in> {Queued, RetryWait} then Cancelled else wt_status r), wt_updated_at := now\<rparr>"
  have f: "?f r = cancelled_row now r" by (simp add: cancelled_row_def)
  have key: "s = r" if "s \<in> set t" "wt_tenant_id s = c" "wt_task_id s = wt_task_id r" for s
    using distinct_key_eq [of task_key t s r] that assms(2,3) inv by (auto simp: tasks_inv_def)
  show ?thesis
  proof (cases "wt_status r \<in> set terminal_states")
    case True
    have none: "\<not> (rls_visible c (wt_tenant_id s) \<and> ?P s)" if "s \<in> set t" for s
      using True key [OF that] by (auto simp: rls_visible_def)
    have "filter (\<lambda>s. rls_visible c (wt_tenant_id s) \<and> ?P s) t = []"
      "upd_where (\<lambda>s. rls_visible c (wt_tenant_id s) \<and> ?P s) ?f t = t"
      using none by (auto simp: filter_empty_conv intro!: upd_where_none)
    then have "tasks_update c ?P ?f t = Inr ([], t)"
      using inv by (simp add: tasks_update_def Let_def tasks_inv_def)
    with True show ?thesis by (simp add: request_cancel_def)
  next
    case False
    have "tasks_update c ?P ?f t = Inr ([?f r], map (\<lambda>s. if s = r then ?f r else s) t)"
      by (rule tasks_update_single [OF inv assms(2) _ assms(3,4)])
        (use False assms(3) in \<open>auto simp: dedupe_indexed_def\<close>)
    with False show ?thesis unfolding request_cancel_def f by simp
  qed
qed

text \<open>
  What cancelling a job answers and does. On a reachable table and with no other
  writer in between, the endpoint answers 404 for a job the tenant does not have, and
  changes nothing; a finished job is reported as it is; a waiting job is cancelled at once;
  and a job in flight keeps its status and only gets the cancel request.
\<close>

lemma cancel_job_effect:
  assumes "tasks_reachable t" and "c \<noteq> ''''"
  shows "cancel_job c now (\<lambda>t. t) (\<lambda>t. t) tid t =
    (case get_task c tid t of
       None \<Rightarrow> (Inl NotFound404, t)
     | Some r \<Rightarrow>
         if wt_status r \<in> {Succeeded, Failed, Cancelled} then (Inr (JobView (public_job r)), t)
         else (Inr (JobStatus tid (if wt_status r \<in> {Queued, RetryWait} then Cancelled else wt_status r) True),
               map (\<lambda>s. if s = r then cancelled_row now r else s) t))"
proof (cases "get_task c tid t")
  case None
  then show ?thesis by (simp add: cancel_job_def load_job_def)
next
  case (Some r)
  then have r: "r \<in> set t" "wt_tenant_id r = c" "wt_task_id r = tid"
    by (auto simp: get_task_def rls_visible_def dest!: find_Some_mem)
  note rc = request_cancel_row [OF assms(1) r(1,2) assms(2), unfolded r(3)]
  have st: "wt_status (cancelled_row now r) = (if wt_status r \<in> {Queued, RetryWait} then Cancelled else wt_status r)"
    by (simp add: cancelled_row_def)
  show ?thesis
    using Some unfolding cancel_job_def load_job_def rc st
    by (cases "wt_status r") (simp_all add: get_job_def load_job_def terminal_states_def)
qed

lemma cancel_job_effect_witness:
  "cancel_job ''acme'' 5 (\<lambda>t. t) (\<lambda>t. t) ''t1'' [demo_queued] =
     (Inr (JobStatus ''t1'' Cancelled True), [cancelled_row 5 demo_queued])"
  using cancel_job_effect [OF demo_reachable(1), of "''acme''" 5 "''t1''"]
  by (simp add: get_task_def rls_visible_def demo_defs new_task_row_def)

end
