(* ===== verification/Lifecycle.thy ===== *)
theory Lifecycle imports Registry begin

text \<open>
  Readiness, startup and ordered shutdown of one process
  (teamEvolver/runtime/lifecycle.py). The worker task and the closing of dependencies are
  inputs: how far the worker loop is, how the drain ends, whether closing raises. The
  effects are recorded in the order they happen.
\<close>

datatype worker_task = NoTask | TaskRunning | TaskDone

datatype effect = WorkerStarted | ReadinessOn | ReadinessOff | StopSet | WorkerDrained | WorkerCancelled | Closed

record lifecycle =
  lc_worker_main :: bool
  lc_on_close :: bool
  lc_ready :: bool
  lc_healthy :: bool
  lc_stop :: bool
  lc_worker :: worker_task
  lc_effects :: "effect list"

definition lifecycle_init :: "bool \<Rightarrow> bool \<Rightarrow> lifecycle" where
  "lifecycle_init worker_main on_close =
     \<lparr>lc_worker_main = worker_main, lc_on_close = on_close, lc_ready = False, lc_healthy = True,
      lc_stop = False, lc_worker = NoTask, lc_effects = []\<rparr>"

definition lifecycle_ready :: "lifecycle \<Rightarrow> bool" where
  "lifecycle_ready l \<longleftrightarrow>
     (let worker_alive = (lc_worker l = NoTask \<or> lc_worker l \<noteq> TaskDone)
      in lc_ready l \<and> lc_healthy l \<and> worker_alive)"

definition set_healthy :: "bool \<Rightarrow> lifecycle \<Rightarrow> lifecycle" where
  "set_healthy healthy l = l\<lparr>lc_healthy := healthy\<rparr>"

definition startup :: "'h services \<Rightarrow> lifecycle \<Rightarrow> lifecycle" where
  "startup sv l =
     (let l1 = (if runs_worker sv \<and> lc_worker_main l
                then l\<lparr>lc_worker := TaskRunning, lc_effects := lc_effects l @ [WorkerStarted]\<rparr> else l)
      in l1\<lparr>lc_ready := True, lc_effects := lc_effects l1 @ [ReadinessOn]\<rparr>)"

text \<open>The worker loop ends on its own: by the stop event, or by an exception.\<close>

definition worker_ends :: "lifecycle \<Rightarrow> lifecycle" where
  "worker_ends l = (if lc_worker l = TaskRunning then l\<lparr>lc_worker := TaskDone\<rparr> else l)"

text \<open>
  How waiting for the worker ends: it returns, it raises, the timeout passes (the worker is
  then cancelled and awaited, whatever it raises), or it turns out to be cancelled, which
  no handler of \<open>shutdown\<close> catches.
\<close>

datatype drain = DrainReturns | DrainRaises | DrainTimeout | DrainCancelled

definition shutdown :: "drain \<Rightarrow> bool \<Rightarrow> lifecycle \<Rightarrow> bool \<times> lifecycle" where
  "shutdown d close_raises l =
     (let l1 = l\<lparr>lc_ready := False, lc_effects := lc_effects l @ [ReadinessOff]\<rparr>;
          l2 = l1\<lparr>lc_stop := True, lc_effects := lc_effects l1 @ [StopSet]\<rparr>
      in if lc_worker l2 \<noteq> NoTask \<and> d = DrainCancelled then (False, l2)
         else
           let l3 = (if lc_worker l2 = NoTask then l2
                     else l2\<lparr>lc_worker := NoTask, lc_effects := lc_effects l2 @
                            [if d = DrainTimeout then WorkerCancelled else WorkerDrained]\<rparr>);
               l4 = (if lc_on_close l3 then l3\<lparr>lc_effects := lc_effects l3 @ [Closed]\<rparr> else l3)
           in (True, l4))"

section \<open>Steps\<close>

inductive lifecycle_step :: "'h services \<Rightarrow> lifecycle \<Rightarrow> lifecycle \<Rightarrow> bool" for sv where
  ls_health: "lifecycle_step sv l (set_healthy h l)"
| ls_worker: "lifecycle_step sv l (worker_ends l)"
| ls_shutdown: "shutdown d cr l = (ok, l') \<Longrightarrow> lifecycle_step sv l l'"

lemma lifecycle_step_stopped:
  assumes "lifecycle_step sv l l'" and "\<not> lc_ready l" and "lc_stop l"
  shows "\<not> lc_ready l' \<and> lc_stop l'"
  using assms
  by cases (auto simp: set_healthy_def worker_ends_def shutdown_def Let_def split: if_splits)

lemma lifecycle_steps_stopped:
  assumes "(lifecycle_step sv)\<^sup>*\<^sup>* l l'" and "\<not> lc_ready l" and "lc_stop l"
  shows "\<not> lc_ready l' \<and> lc_stop l'"
  using assms(1) by (induction rule: rtranclp_induct) (use assms(2,3) lifecycle_step_stopped in blast)+

text \<open>
  Shutdown runs in its order and is final. For a lifecycle whose worker was not
  cancelled by others, shutdown returns normally, having revoked readiness, then set the
  stop event, then drained or cancelled a running worker, and only then closed the
  dependencies, each once; afterwards, whatever health the worker reports and however often
  shutdown runs again, the process is not ready and its stop event stays set.
\<close>

lemma shutdown_is_ordered_and_final:
  assumes "d \<noteq> DrainCancelled"
  shows "\<exists>l'. shutdown d close_raises l = (True, l') \<and>
    lc_effects l' = lc_effects l @ [ReadinessOff, StopSet] @
      (if lc_worker l = NoTask then [] else [if d = DrainTimeout then WorkerCancelled else WorkerDrained]) @
      (if lc_on_close l then [Closed] else []) \<and>
    lc_worker l' = NoTask \<and>
    {l''. (lifecycle_step sv)\<^sup>*\<^sup>* l' l'' \<and> (lifecycle_ready l'' \<or> \<not> lc_stop l'')} = {}"
proof -
  obtain l' where l': "shutdown d close_raises l = (True, l')"
    using assms by (simp add: shutdown_def Let_def)
  then have st: "\<not> lc_ready l'" "lc_stop l'"
    using assms by (auto simp: shutdown_def Let_def split: if_splits)
  have "lc_effects l' = lc_effects l @ [ReadinessOff, StopSet] @
      (if lc_worker l = NoTask then [] else [if d = DrainTimeout then WorkerCancelled else WorkerDrained]) @
      (if lc_on_close l then [Closed] else [])" "lc_worker l' = NoTask"
    using l' assms by (auto simp: shutdown_def Let_def split: if_splits)
  moreover have "{l''. (lifecycle_step sv)\<^sup>*\<^sup>* l' l'' \<and> (lifecycle_ready l'' \<or> \<not> lc_stop l'')} = {}"
    using lifecycle_steps_stopped [OF _ st] by (auto simp: lifecycle_ready_def Let_def)
  ultimately show ?thesis using l' by blast
qed

lemma shutdown_is_ordered_and_final_witness:
  "\<exists>l'. shutdown DrainTimeout True (lifecycle_init False True) = (True, l') \<and>
     lc_effects l' = [ReadinessOff, StopSet, Closed]"
  using shutdown_is_ordered_and_final [of DrainTimeout True "lifecycle_init False True"]
  by (auto simp: lifecycle_init_def)

text \<open>
  What readiness means: a started process is ready exactly while the last reported
  health is good and its worker loop, if it has one, has not ended.
\<close>

lemma readiness_after_startup:
  "lifecycle_ready (startup sv (lifecycle_init wm oc)) \<and>
   \<not> lifecycle_ready (set_healthy False (startup sv (lifecycle_init wm oc))) \<and>
   lifecycle_ready (set_healthy True (set_healthy False (startup sv (lifecycle_init wm oc)))) \<and>
   lifecycle_ready (worker_ends (startup sv (lifecycle_init wm oc))) = (\<not> (runs_worker sv \<and> wm))"
  by (simp add: lifecycle_ready_def startup_def lifecycle_init_def set_healthy_def worker_ends_def Let_def)

end
