(* ===== verification/PyValue.thy ===== *)
theory PyValue imports Prelude Complex_Main "HOL-Library.List_Lexorder" "HOL-Library.Char_ord" begin

text \<open>
  The Python values and operations the modelled code uses. A value is a JSON value: its
  objects are dicts with string keys, kept as their items in insertion order. Characters
  are the code points up to 255 and strings their lists. Integers are unbounded. A float is
  a rational, an infinity or a NaN: binary rounding is not modelled. Raising an exception
  is \<open>Inl\<close> of its class and message (the messages of Python's own exceptions are left
  empty).
\<close>

section \<open>Values\<close>

datatype pyfloat = Fin rat | PosInf | NegInf | NaN

datatype pyval =
    PNone
  | PBool bool
  | PInt int
  | PFloat pyfloat
  | PStr string
  | PList "pyval list"
  | PDict "(string \<times> pyval) list"

type_synonym pydict = "(string \<times> pyval) list"

datatype pyexc = PyExc string string

abbreviation type_error :: pyexc where "type_error \<equiv> PyExc ''TypeError'' ''''"

abbreviation value_error :: pyexc where "value_error \<equiv> PyExc ''ValueError'' ''''"

abbreviation attribute_error :: pyexc where "attribute_error \<equiv> PyExc ''AttributeError'' ''''"

abbreviation overflow_error :: pyexc where "overflow_error \<equiv> PyExc ''OverflowError'' ''''"

fun is_dict :: "pyval \<Rightarrow> bool" where
  "is_dict (PDict d) = True"
| "is_dict _ = False"

fun is_list :: "pyval \<Rightarrow> bool" where
  "is_list (PList xs) = True"
| "is_list _ = False"

fun is_str :: "pyval \<Rightarrow> bool" where
  "is_str (PStr s) = True"
| "is_str _ = False"

text \<open>\<open>isinstance(v, int)\<close> holds of the booleans too.\<close>

fun is_int :: "pyval \<Rightarrow> bool" where
  "is_int (PInt _) = True"
| "is_int (PBool _) = True"
| "is_int _ = False"

fun is_bool :: "pyval \<Rightarrow> bool" where
  "is_bool (PBool _) = True"
| "is_bool _ = False"

fun truthy :: "pyval \<Rightarrow> bool" where
  "truthy PNone = False"
| "truthy (PBool b) = b"
| "truthy (PInt i) = (i \<noteq> 0)"
| "truthy (PFloat f) = (f \<noteq> Fin 0)"
| "truthy (PStr s) = (s \<noteq> '''')"
| "truthy (PList xs) = (xs \<noteq> [])"
| "truthy (PDict d) = (d \<noteq> [])"

definition py_or :: "pyval \<Rightarrow> pyval \<Rightarrow> pyval" where
  "py_or a b = (if truthy a then a else b)"

lemma py_or_simps [simp]:
  "py_or PNone b = b"
  "truthy a \<Longrightarrow> py_or a b = a"
  "\<not> truthy a \<Longrightarrow> py_or a b = b"
  by (simp_all add: py_or_def)

section \<open>Strings\<close>

definition is_space :: "char \<Rightarrow> bool" where
  "is_space c \<longleftrightarrow> of_char c \<in> ({9, 10, 11, 12, 13, 28, 29, 30, 31, 32, 133, 160} :: nat set)"

definition py_strip :: "string \<Rightarrow> string" where
  "py_strip s = rev (dropWhile is_space (rev (dropWhile is_space s)))"

text \<open>Lower case of a code point up to 255.\<close>

definition lower_char :: "char \<Rightarrow> char" where
  "lower_char c =
     (let n = of_char c :: nat
      in if (65 \<le> n \<and> n \<le> 90) \<or> (192 \<le> n \<and> n \<le> 222 \<and> n \<noteq> 215) then char_of (n + 32) else c)"

definition py_lower :: "string \<Rightarrow> string" where
  "py_lower s = map lower_char s"

definition py_replace_char :: "char \<Rightarrow> char \<Rightarrow> string \<Rightarrow> string" where
  "py_replace_char a b s = map (\<lambda>c. if c = a then b else c) s"

text \<open>\<open>s.split(c, 1)[0]\<close>: the part before the first \<open>c\<close>.\<close>

definition before_char :: "char \<Rightarrow> string \<Rightarrow> string" where
  "before_char c s = takeWhile (\<lambda>x. x \<noteq> c) s"

fun join_with :: "string \<Rightarrow> string list \<Rightarrow> string" where
  "join_with sep [] = ''''"
| "join_with sep [x] = x"
| "join_with sep (x # y # ys) = x @ sep @ join_with sep (y # ys)"

definition digit_char :: "nat \<Rightarrow> char" where
  "digit_char d = char_of (48 + d)"

function nat_str :: "nat \<Rightarrow> string" where
  "nat_str n = (if n < 10 then [digit_char n] else nat_str (n div 10) @ [digit_char (n mod 10)])"
  by pat_completeness auto
termination by (relation "measure id") auto

declare nat_str.simps [simp del]

definition int_str :: "int \<Rightarrow> string" where
  "int_str i = (if i < 0 then CHR ''-'' # nat_str (nat (- i)) else nat_str (nat i))"

text \<open>The decimals of a fraction in \<open>[0, 1)\<close>: at least one, at most \<open>n\<close>.\<close>

fun frac_digits :: "nat \<Rightarrow> rat \<Rightarrow> string" where
  "frac_digits 0 q = ''''"
| "frac_digits (Suc n) q =
     (let d = nat \<lfloor>q * 10\<rfloor>; r = q * 10 - of_nat d
      in digit_char d # (if r = 0 then '''' else frac_digits n r))"

definition float_str :: "pyfloat \<Rightarrow> string" where
  "float_str f =
     (case f of
        PosInf \<Rightarrow> ''inf'' | NegInf \<Rightarrow> ''-inf'' | NaN \<Rightarrow> ''nan''
      | Fin q \<Rightarrow> (if q < 0 then ''-'' else '''') @ nat_str (nat \<lfloor>\<bar>q\<bar>\<rfloor>) @ ''.'' @
          frac_digits 17 (\<bar>q\<bar> - of_int \<lfloor>\<bar>q\<bar>\<rfloor>))"

definition hex_digit :: "nat \<Rightarrow> char" where
  "hex_digit d = (if d < 10 then digit_char d else char_of (87 + d))"

definition repr_char :: "char \<Rightarrow> char \<Rightarrow> string" where
  "repr_char q c =
     (let n = of_char c :: nat
      in if n = 92 \<or> c = q then [CHR 0x5C, c]
         else if n = 9 then [CHR 0x5C, CHR ''t'']
         else if n = 10 then [CHR 0x5C, CHR ''n'']
         else if n = 13 then [CHR 0x5C, CHR ''r'']
         else if n < 32 \<or> (127 \<le> n \<and> n \<le> 160) \<or> n = 173
         then [CHR 0x5C, CHR ''x'', hex_digit (n div 16), hex_digit (n mod 16)]
         else [c])"

definition repr_str :: "string \<Rightarrow> string" where
  "repr_str s =
     (let q = (if CHR 0x27 \<in> set s \<and> CHR 0x22 \<notin> set s then CHR 0x22 else CHR 0x27)
      in q # concat (map (repr_char q) s) @ [q])"

fun py_repr :: "pyval \<Rightarrow> string" where
  "py_repr PNone = ''None''"
| "py_repr (PBool b) = (if b then ''True'' else ''False'')"
| "py_repr (PInt i) = int_str i"
| "py_repr (PFloat f) = float_str f"
| "py_repr (PStr s) = repr_str s"
| "py_repr (PList xs) = ''['' @ join_with '', '' (map py_repr xs) @ '']''"
| "py_repr (PDict d) =
     ''{'' @ join_with '', '' (map (\<lambda>(k, v). repr_str k @ '': '' @ py_repr v) d) @ ''}''"

fun py_str :: "pyval \<Rightarrow> string" where
  "py_str (PStr s) = s"
| "py_str v = py_repr v"

section \<open>Conversion to integers\<close>

definition digit_value :: "char \<Rightarrow> nat option" where
  "digit_value c =
     (let n = of_char c :: nat in if 48 \<le> n \<and> n \<le> 57 then Some (n - 48) else None)"

text \<open>
  The digits after the first, with single underscores allowed between digits; \<open>acc\<close> is the
  number so far.
\<close>

fun parse_digits :: "nat \<Rightarrow> string \<Rightarrow> nat option" where
  "parse_digits acc [] = Some acc"
| "parse_digits acc (c # cs) =
     (case digit_value c of
        Some d \<Rightarrow> parse_digits (acc * 10 + d) cs
      | None \<Rightarrow>
          if c = CHR ''_''
          then (case cs of [] \<Rightarrow> None
                | c' # cs' \<Rightarrow> (case digit_value c' of None \<Rightarrow> None
                              | Some d \<Rightarrow> parse_digits (acc * 10 + d) cs'))
          else None)"

definition parse_nat :: "string \<Rightarrow> nat option" where
  "parse_nat s =
     (case s of [] \<Rightarrow> None
      | c # cs \<Rightarrow> (case digit_value c of None \<Rightarrow> None | Some d \<Rightarrow> parse_digits d cs))"

definition parse_int :: "string \<Rightarrow> int option" where
  "parse_int s =
     (case s of [] \<Rightarrow> None
      | c # cs \<Rightarrow>
          if c = CHR ''-'' then map_option (\<lambda>n. - int n) (parse_nat cs)
          else if c = CHR ''+'' then map_option int (parse_nat cs)
          else map_option int (parse_nat s))"

definition truncate_rat :: "rat \<Rightarrow> int" where
  "truncate_rat q = (if q < 0 then \<lceil>q\<rceil> else \<lfloor>q\<rfloor>)"

definition py_int :: "pyval \<Rightarrow> pyexc + int" where
  "py_int v =
     (case v of
        PInt i \<Rightarrow> Inr i
      | PBool b \<Rightarrow> Inr (if b then 1 else 0)
      | PFloat (Fin q) \<Rightarrow> Inr (truncate_rat q)
      | PFloat NaN \<Rightarrow> Inl value_error
      | PFloat _ \<Rightarrow> Inl overflow_error
      | PStr s \<Rightarrow> (case parse_int (py_strip s) of None \<Rightarrow> Inl value_error | Some i \<Rightarrow> Inr i)
      | _ \<Rightarrow> Inl type_error)"

section \<open>Dicts\<close>

fun dget :: "pydict \<Rightarrow> string \<Rightarrow> pyval option" where
  "dget [] k = None"
| "dget ((k', v) # d) k = (if k' = k then Some v else dget d k)"

fun dput :: "string \<Rightarrow> pyval \<Rightarrow> pydict \<Rightarrow> pydict" where
  "dput k v [] = [(k, v)]"
| "dput k v ((k', v') # d) = (if k' = k then (k, v) # d else (k', v') # dput k v d)"

text \<open>\<open>{**a, **b}\<close>: later items override in place, new keys are appended.\<close>

definition dmerge :: "pydict \<Rightarrow> pydict \<Rightarrow> pydict" where
  "dmerge a b = fold (\<lambda>(k, v). dput k v) b a"

definition dkeys :: "pydict \<Rightarrow> string list" where
  "dkeys d = map fst d"

definition dict_ok :: "pydict \<Rightarrow> bool" where
  "dict_ok d \<longleftrightarrow> distinct (map fst d)"

text \<open>\<open>d.get(k, default)\<close> and \<open>d.get(k)\<close>.\<close>

definition dget_or :: "pydict \<Rightarrow> string \<Rightarrow> pyval \<Rightarrow> pyval" where
  "dget_or d k v = (case dget d k of None \<Rightarrow> v | Some x \<Rightarrow> x)"

abbreviation dget_none :: "pydict \<Rightarrow> string \<Rightarrow> pyval" where
  "dget_none d k \<equiv> dget_or d k PNone"

text \<open>\<open>v if isinstance(v, dict) else {}\<close>.\<close>

definition as_dict :: "pyval \<Rightarrow> pydict" where
  "as_dict v = (case v of PDict d \<Rightarrow> d | _ \<Rightarrow> [])"

definition as_list :: "pyval \<Rightarrow> pyval list" where
  "as_list v = (case v of PList xs \<Rightarrow> xs | _ \<Rightarrow> [])"

text \<open>\<open>v.get(k)\<close> on any value: only a dict has the method.\<close>

definition py_get :: "pyval \<Rightarrow> string \<Rightarrow> pyexc + pyval" where
  "py_get v k = (case v of PDict d \<Rightarrow> Inr (dget_none d k) | _ \<Rightarrow> Inl attribute_error)"

text \<open>What a \<open>for\<close> loop over a value iterates.\<close>

definition py_iter :: "pyval \<Rightarrow> pyexc + pyval list" where
  "py_iter v =
     (case v of
        PList xs \<Rightarrow> Inr xs
      | PDict d \<Rightarrow> Inr (map (PStr \<circ> fst) d)
      | PStr s \<Rightarrow> Inr (map (\<lambda>c. PStr [c]) s)
      | _ \<Rightarrow> Inl type_error)"

definition py_len :: "pyval \<Rightarrow> pyexc + int" where
  "py_len v =
     (case v of
        PList xs \<Rightarrow> Inr (int (length xs))
      | PDict d \<Rightarrow> Inr (int (length d))
      | PStr s \<Rightarrow> Inr (int (length s))
      | _ \<Rightarrow> Inl type_error)"

lemma dget_dput: "dget (dput k v d) k' = (if k' = k then Some v else dget d k')"
  by (induction d rule: dput.induct) auto

lemma dget_map_of: "dget d k = map_of d k"
  by (induction d) auto

lemma set_keys_dput: "fst ` set (dput k v d) = insert k (fst ` set d)"
  by (induction d rule: dput.induct) auto

lemma dput_ok: "dict_ok d \<Longrightarrow> dict_ok (dput k v d)"
  unfolding dict_ok_def
  by (induction k v d rule: dput.induct) (auto simp: set_keys_dput [unfolded image_def] image_def split: if_splits)

lemma dget_or_simps [simp]:
  "dget_or [] k v = v"
  "dget_or ((k', x) # d) k v = (if k' = k then x else dget_or d k v)"
  by (simp_all add: dget_or_def)

lemma dget_or_dput: "dget_or (dput k v d) k' x = (if k' = k then v else dget_or d k' x)"
  by (simp add: dget_or_def dget_dput)

section \<open>The contract of a keyed store\<close>

locale map_store =
  fixes get :: "'d \<Rightarrow> 'k \<Rightarrow> 'v option"
    and put :: "'k \<Rightarrow> 'v \<Rightarrow> 'd \<Rightarrow> 'd"
  assumes get_put: "get (put k v d) k' = (if k' = k then Some v else get d k')"
begin

lemma get_fold_put:
  "get (fold (\<lambda>(k, v). put k v) b a) k = (case map_of (rev b) k of None \<Rightarrow> get a k | Some v \<Rightarrow> Some v)"
  by (induction b arbitrary: a) (auto simp: get_put map_add_def split: option.splits)

lemma get_fold_put_same: "(k, v) \<in> set b \<Longrightarrow> distinct (map fst b) \<Longrightarrow> get (fold (\<lambda>(k, v). put k v) b a) k = Some v"
  by (simp add: get_fold_put map_of_eq_Some_iff flip: rev_map)

lemma get_fold_put_other: "k \<notin> fst ` set b \<Longrightarrow> get (fold (\<lambda>(k, v). put k v) b a) k = get a k"
  by (induction b arbitrary: a) (auto simp: get_put)

end

interpretation dict_store: map_store dget dput
  by unfold_locales (rule dget_dput)

lemma dget_dmerge:
  "dget (dmerge a b) k = (case map_of (rev b) k of None \<Rightarrow> dget a k | Some v \<Rightarrow> Some v)"
  unfolding dmerge_def by (rule dict_store.get_fold_put)

lemma map_of_rev: "distinct (map fst xs) \<Longrightarrow> map_of (rev xs) k = map_of xs k"
proof (induction xs)
  case Nil
  then show ?case by simp
next
  case (Cons x xs)
  then have "fst x \<notin> fst ` set xs" by auto
  then have "k = fst x \<Longrightarrow> map_of xs k = None" by (simp add: map_of_eq_None_iff)
  with Cons show ?case by (cases x) (auto simp: map_add_def split: option.splits)
qed

lemma dget_dmerge_ok:
  "dict_ok b \<Longrightarrow> dget (dmerge a b) k = (case dget b k of None \<Rightarrow> dget a k | Some v \<Rightarrow> Some v)"
  by (simp only: dget_dmerge dict_ok_def map_of_rev dget_map_of [of b])

section \<open>Facts about strings and merging used by the round trips\<close>

lemma dropWhile_id: "xs = [] \<or> \<not> P (hd xs) \<Longrightarrow> dropWhile P xs = xs"
  by (cases xs) auto

lemma dropWhile_hd: "dropWhile P xs = [] \<or> \<not> P (hd (dropWhile P xs))"
  by (induction xs) auto

lemma hd_strip_end: "rev (dropWhile P (rev t)) \<noteq> [] \<Longrightarrow> hd (rev (dropWhile P (rev t))) = hd t"
proof -
  assume ne: "rev (dropWhile P (rev t)) \<noteq> []"
  have "rev t = takeWhile P (rev t) @ dropWhile P (rev t)" by simp
  then have "t = rev (dropWhile P (rev t)) @ rev (takeWhile P (rev t))" by (metis rev_append rev_rev_ident)
  with ne show ?thesis by (metis hd_append2)
qed

lemma py_strip_ends: "py_strip s = [] \<or> \<not> is_space (hd (py_strip s)) \<and> \<not> is_space (last (py_strip s))"
proof (cases "py_strip s = []")
  case False
  let ?t = "dropWhile is_space s"
  have t: "?t \<noteq> []"
  proof
    assume "?t = []"
    then have "py_strip s = rev (dropWhile is_space (rev []))" unfolding py_strip_def by (simp only:)
    with False show False by simp
  qed
  have h: "hd (py_strip s) = hd ?t" using False unfolding py_strip_def by (rule hd_strip_end)
  have "\<not> is_space (hd ?t)" using dropWhile_hd t by metis
  moreover have "\<not> is_space (last (py_strip s))"
  proof -
    define w where "w = dropWhile is_space (rev ?t)"
    have w: "py_strip s = rev w" by (simp only: py_strip_def w_def)
    have "w = [] \<or> \<not> is_space (hd w)" unfolding w_def by (rule dropWhile_hd)
    with w False show ?thesis by (auto simp: last_rev)
  qed
  ultimately show ?thesis using h by simp
qed simp

lemma py_strip_idem [simp]: "py_strip (py_strip s) = py_strip s"
proof (cases "py_strip s = []")
  case True
  have "py_strip [] = []" unfolding py_strip_def by simp
  with True show ?thesis by simp
next
  case False
  with py_strip_ends [of s] have e: "\<not> is_space (hd (py_strip s))" "\<not> is_space (last (py_strip s))" by auto
  have "dropWhile is_space (py_strip s) = py_strip s" using e(1) by (intro dropWhile_id) simp
  moreover have "dropWhile is_space (rev (py_strip s)) = rev (py_strip s)"
    using e(2) False by (intro dropWhile_id) (simp add: hd_rev)
  ultimately have "rev (dropWhile is_space (rev (dropWhile is_space (py_strip s)))) = py_strip s" by simp
  then show ?thesis by (metis py_strip_def)
qed

lemma py_strip_Nil [simp]: "py_strip [] = []"
  by (simp add: py_strip_def)

lemma dput_same: "dget d k = Some v \<Longrightarrow> dput k v d = d"
  by (induction d) (auto split: if_splits)

lemma dmerge_same: "(\<And>k v. (k, v) \<in> set b \<Longrightarrow> dget d k = Some v) \<Longrightarrow> dmerge d b = d"
  unfolding dmerge_def by (induction b) (auto simp: dput_same)

section \<open>Decimal numerals\<close>

lemma digit_char_inj: "a < 10 \<Longrightarrow> b < 10 \<Longrightarrow> digit_char a = digit_char b \<Longrightarrow> a = b"
proof -
  have "inj_on digit_char {0..<10}" by code_simp
  then show "a < 10 \<Longrightarrow> b < 10 \<Longrightarrow> digit_char a = digit_char b \<Longrightarrow> a = b" by (auto dest: inj_onD)
qed

lemma nat_str_inj: "nat_str m = nat_str n \<Longrightarrow> m = n"
proof (induction m arbitrary: n rule: nat_str.induct)
  case (1 m)
  have ne: "nat_str k \<noteq> []" for k by (subst nat_str.simps) simp
  note um = nat_str.simps [of m] and un = nat_str.simps [of n]
  show ?case
  proof (cases "m < 10 \<or> n < 10")
    case True
    with 1(2) ne [of "m div 10"] ne [of "n div 10"] have "m < 10" "n < 10" "digit_char m = digit_char n"
      by (auto simp: um un split: if_splits)
    then show ?thesis by (rule digit_char_inj)
  next
    case False
    with 1(2) have eq: "nat_str (m div 10) = nat_str (n div 10)" "digit_char (m mod 10) = digit_char (n mod 10)"
      by (auto simp: um un)
    from False have "m div 10 = n div 10" by (intro 1(1) eq) simp
    moreover have "m mod 10 = n mod 10" by (rule digit_char_inj) (simp_all add: eq)
    ultimately show ?thesis by (metis div_mult_mod_eq)
  qed
qed

end
