(* ===== verification/Metrics.thy ===== *)
theory Metrics imports PyValue begin

text \<open>
  Replay metrics: reading numbers, comparing the efficiency of two branches and the
  objective decision (team\_replay/metrics.py).
\<close>

definition replay_metrics :: "string list" where
  "replay_metrics =
     [''interaction_turns'', ''tool_call_count'', ''total_tokens'', ''elapsed_seconds'',
      ''input_tokens'', ''output_tokens'', ''api_calls'']"

definition unavailable :: string where
  "unavailable = ''unavailable''"

section \<open>Reading metrics\<close>

text \<open>An integer that rounds to no finite double: \<open>math.isfinite\<close> raises on it.\<close>

definition exceeds_double :: "int \<Rightarrow> bool" where
  "exceeds_double i \<longleftrightarrow> 2 ^ 1024 - 2 ^ 970 \<le> \<bar>i\<bar>"

definition metric_number :: "pyval \<Rightarrow> pyexc + pyval option" where
  "metric_number v =
     (case v of
        PInt i \<Rightarrow> if exceeds_double i then Inl overflow_error
                  else Inr (if i < 0 then None else Some v)
      | PFloat (Fin q) \<Rightarrow> Inr (if q < 0 then None else Some v)
      | _ \<Rightarrow> Inr None)"

text \<open>The rational a number stands for.\<close>

fun num_of :: "pyval \<Rightarrow> rat" where
  "num_of (PInt i) = of_int i"
| "num_of (PFloat (Fin q)) = q"
| "num_of _ = 0"

definition count_tool_calls :: "pyval list \<Rightarrow> pyexc + int" where
  "count_tool_calls messages =
     bindE (mapE (\<lambda>m. case m of
                PDict d \<Rightarrow> if dget_none d ''role'' = PStr ''assistant''
                            then py_len (py_or (dget_none d ''tool_calls'') (PList []))
                            else Inr 0
              | _ \<Rightarrow> Inr 0) messages)
       (\<lambda>ns. Inr (sum_list ns))"

fun is_prefix :: "string \<Rightarrow> string \<Rightarrow> bool" where
  "is_prefix [] s = True"
| "is_prefix (c # cs) [] = False"
| "is_prefix (c # cs) (d # ds) = (c = d \<and> is_prefix cs ds)"

fun contains_str :: "string \<Rightarrow> string \<Rightarrow> bool" where
  "contains_str p [] = (p = [])"
| "contains_str p (c # cs) = (is_prefix p (c # cs) \<or> contains_str p cs)"

text \<open>\<open>key in v\<close>: a key of a dict, a part of a string, an element of a list.\<close>

definition py_contains :: "pyval \<Rightarrow> string \<Rightarrow> pyexc + bool" where
  "py_contains v k =
     (case v of
        PDict d \<Rightarrow> Inr (dget d k \<noteq> None)
      | PStr s \<Rightarrow> Inr (contains_str k s)
      | PList xs \<Rightarrow> Inr (PStr k \<in> set xs)
      | _ \<Rightarrow> Inl type_error)"

fun any_contains :: "string \<Rightarrow> pyval list \<Rightarrow> pyexc + bool" where
  "any_contains k [] = Inr False"
| "any_contains k (m # ms) =
     bindE (py_contains m k) (\<lambda>b. if b then Inr True else any_contains k ms)"

definition metric_or_unavailable :: "pyval \<Rightarrow> pyexc + pyval" where
  "metric_or_unavailable v =
     bindE (metric_number v) (\<lambda>n. Inr (case n of None \<Rightarrow> PStr unavailable | Some x \<Rightarrow> x))"

definition efficiency_keys :: "string list" where
  "efficiency_keys = replay_metrics @ [''cache_read_tokens'', ''cache_write_tokens'', ''reasoning_tokens'']"

definition branch_efficiency :: "pydict \<Rightarrow> pyexc + pydict" where
  "branch_efficiency branch =
     bindE (mapE (\<lambda>k. bindE (metric_or_unavailable (dget_none branch k)) (\<lambda>v. Inr (k, v))) efficiency_keys)
       (\<lambda>result.
          let messages = py_or (dget_none branch ''messages'') (PList [])
          in if dget result ''tool_call_count'' \<noteq> Some (PStr unavailable) then Inr result
             else bindE (py_iter messages) (\<lambda>ms.
               bindE (any_contains ''tool_calls'' ms) (\<lambda>b.
                 if b then bindE (count_tool_calls ms) (\<lambda>n. Inr (dput ''tool_call_count'' (PInt n) result))
                 else Inr result)))"

section \<open>Comparing two branches\<close>

text \<open>\<open>a - b\<close> of two numbers: an int when both are.\<close>

definition num_sub :: "pyval \<Rightarrow> pyval \<Rightarrow> pyval" where
  "num_sub a b =
     (case (a, b) of (PInt i, PInt j) \<Rightarrow> PInt (i - j) | _ \<Rightarrow> PFloat (Fin (num_of a - num_of b)))"

text \<open>\<open>round(x, 4)\<close>: to the nearest multiple of 1/10000, ties to the even one.\<close>

definition round4 :: "rat \<Rightarrow> rat" where
  "round4 x =
     (let y = x * 10000; f = \<lfloor>y\<rfloor>; d = y - of_int f
      in of_int (if d < 1/2 then f else if d > 1/2 then f + 1 else if even f then f else f + 1) / 10000)"

definition gain_of :: "rat \<Rightarrow> rat \<Rightarrow> rat" where
  "gain_of delta baseline = max (- 1) (min 1 (delta / max 1 baseline))"

definition winner_of :: "rat \<Rightarrow> string" where
  "winner_of delta = (if delta > 0 then ''candidate'' else if delta < 0 then ''baseline'' else ''tie'')"

definition dimension :: "pydict \<Rightarrow> pydict \<Rightarrow> string \<Rightarrow> pyexc + pydict" where
  "dimension base cand key =
     bindE (metric_number (dget_none base key)) (\<lambda>bv.
     bindE (metric_number (dget_none cand key)) (\<lambda>cv.
       Inr (case (bv, cv) of
         (Some b, Some c) \<Rightarrow>
           let delta = num_sub b c
           in [(''baseline'', b), (''candidate'', c), (''delta'', delta),
               (''reduction_ratio'', PFloat (Fin (round4 (gain_of (num_of delta) (num_of b))))),
               (''winner'', PStr (winner_of (num_of delta)))]
       | _ \<Rightarrow> [(''baseline'', dget_none base key), (''candidate'', dget_none cand key),
               (''delta'', PNone), (''reduction_ratio'', PNone), (''winner'', PStr unavailable)])))"

definition keys_with :: "string \<Rightarrow> pyval \<Rightarrow> (string \<times> pydict) list \<Rightarrow> pyval" where
  "keys_with field v ds =
     PList (map (PStr \<circ> fst) (filter (\<lambda>(k, d). dget_none d field = v) ds))"

definition compare_efficiency :: "pydict \<Rightarrow> pydict \<Rightarrow> pyexc + pydict" where
  "compare_efficiency baseline candidate =
     bindE (branch_efficiency baseline) (\<lambda>base.
     bindE (branch_efficiency candidate) (\<lambda>cand.
     bindE (mapE (\<lambda>k. bindE (dimension base cand k) (\<lambda>d. Inr (k, d))) replay_metrics) (\<lambda>dims.
       Inr [(''baseline'', PDict base), (''candidate'', PDict cand),
            (''dimensions'', PDict (map (\<lambda>(k, d). (k, PDict d)) dims)),
            (''improved_dimensions'', keys_with ''winner'' (PStr ''candidate'') dims),
            (''regressed_dimensions'', keys_with ''winner'' (PStr ''baseline'') dims),
            (''unchanged_dimensions'', keys_with ''winner'' (PStr ''tie'') dims)])))"

section \<open>The objective decision\<close>

definition change_status :: "rat \<Rightarrow> string" where
  "change_status delta = (if delta > 0 then ''improved'' else if delta < 0 then ''regressed'' else ''unchanged'')"

definition metric_change :: "pydict \<Rightarrow> string \<Rightarrow> pyexc + pydict" where
  "metric_change dims name =
     (let raw = as_dict (dget_none dims name)
      in bindE (metric_number (dget_none raw ''baseline'')) (\<lambda>bv.
         bindE (metric_number (dget_none raw ''candidate'')) (\<lambda>cv.
           Inr (case (bv, cv) of
             (Some b, Some c) \<Rightarrow>
               let delta = num_sub b c
               in [(''baseline'', b), (''candidate'', c), (''delta'', delta),
                   (''status'', PStr (change_status (num_of delta)))]
           | _ \<Rightarrow> [(''baseline'', case bv of None \<Rightarrow> PStr unavailable | Some b \<Rightarrow> b),
                   (''candidate'', case cv of None \<Rightarrow> PStr unavailable | Some c \<Rightarrow> c),
                   (''delta'', PNone), (''status'', PStr unavailable)]))))"

definition status_of :: "(string \<times> pydict) list \<Rightarrow> string \<Rightarrow> string" where
  "status_of changes name =
     (case map_of changes name of
        None \<Rightarrow> ''''
      | Some d \<Rightarrow> (case dget_none d ''status'' of PStr s \<Rightarrow> s | _ \<Rightarrow> ''''))"

definition secondary_metrics :: "string list" where
  "secondary_metrics = [''tool_call_count'', ''total_tokens'']"

text \<open>Accepted, verdict, basis and decisive metrics, from the status of each metric.\<close>

definition objective_verdict ::
  "(string \<Rightarrow> string) \<Rightarrow> bool \<times> string \<times> string \<times> string list" where
  "objective_verdict st =
     (let turn = st ''interaction_turns'';
          improved = filter (\<lambda>n. st n = ''improved'') secondary_metrics;
          regressed = filter (\<lambda>n. st n = ''regressed'') secondary_metrics
      in if turn = ''improved'' then
           (True, ''accept'', ''interaction_turns_decreased'', [''interaction_turns''])
         else if turn = ''regressed'' then
           (False, ''reject'', ''interaction_turns_increased'', [''interaction_turns''])
         else if improved \<noteq> [] \<and> regressed = [] then
           (True, ''accept'', ''secondary_metrics_decreased'', improved)
         else if regressed \<noteq> [] then
           (False, ''reject'', ''secondary_metrics_increased'', regressed)
         else
           (False, ''inconclusive'',
            if \<forall>n\<in>set replay_metrics. st n \<notin> {''improved'', ''regressed'', ''unchanged''}
            then ''metrics_unavailable'' else ''all_metrics_unchanged'', []))"

definition str_list :: "string list \<Rightarrow> pyval" where
  "str_list xs = PList (map PStr xs)"

definition objective_replay_decision :: "pydict \<Rightarrow> pyexc + pydict" where
  "objective_replay_decision efficiency =
     (let dims = as_dict (dget_none efficiency ''dimensions'')
      in bindE (mapE (\<lambda>k. bindE (metric_change dims k) (\<lambda>d. Inr (k, d))) replay_metrics) (\<lambda>changes.
           let (accepted, verdict, basis, decisive) = objective_verdict (status_of changes)
           in Inr [(''accepted'', PBool accepted), (''verdict'', PStr verdict),
                   (''policy'', PStr ''true-replay-turn-priority''), (''decision_basis'', PStr basis),
                   (''primary_metric'', PStr ''interaction_turns''),
                   (''secondary_metrics'', str_list secondary_metrics),
                   (''decisive_metrics'', str_list decisive),
                   (''no_regression'', PBool (verdict \<noteq> ''reject'')),
                   (''metric_changes'', PDict (map (\<lambda>(k, d). (k, PDict d)) changes)),
                   (''improved_metrics'', keys_with ''status'' (PStr ''improved'') changes),
                   (''regressed_metrics'', keys_with ''status'' (PStr ''regressed'') changes),
                   (''unchanged_metrics'', keys_with ''status'' (PStr ''unchanged'') changes),
                   (''unavailable_metrics'', keys_with ''status'' (PStr unavailable) changes)]))"

end
