(* ===== verification/MetricsProperties.thy ===== *)
theory MetricsProperties imports Metrics begin

text \<open>What the efficiency comparison and the objective decision promise.\<close>

section \<open>Numbers\<close>

lemma metric_number_Some: "metric_number v = Inr (Some x) \<Longrightarrow> x = v \<and> 0 \<le> num_of v"
  by (auto simp: metric_number_def split: pyval.splits pyfloat.splits if_splits)

lemma num_of_sub: "num_of (num_sub a b) = num_of a - num_of b"
  by (cases a; cases b) (simp_all add: num_sub_def)

text \<open>The metric of a branch, as the comparison reads it.\<close>

definition metric_at :: "pydict \<Rightarrow> string \<Rightarrow> rat option" where
  "metric_at d k = (case metric_number (dget_none d k) of Inr (Some v) \<Rightarrow> Some (num_of v) | _ \<Rightarrow> None)"

definition pair_status :: "rat option \<Rightarrow> rat option \<Rightarrow> string" where
  "pair_status b c = (case (b, c) of (Some x, Some y) \<Rightarrow> change_status (x - y) | _ \<Rightarrow> unavailable)"

lemma dimension_reads:
  assumes "dimension base cand k = Inr d"
  shows "metric_number (dget_none d ''baseline'') = metric_number (dget_none base k)"
    and "metric_number (dget_none d ''candidate'') = metric_number (dget_none cand k)"
    and "\<exists>bv cv. metric_number (dget_none base k) = Inr bv \<and> metric_number (dget_none cand k) = Inr cv"
proof -
  from assms obtain bv where b: "metric_number (dget_none base k) = Inr bv"
    by (cases "metric_number (dget_none base k)") (auto simp: dimension_def)
  with assms obtain cv where c: "metric_number (dget_none cand k) = Inr cv"
    by (cases "metric_number (dget_none cand k)") (auto simp: dimension_def)
  have d: "metric_number (dget_none d ''baseline'') = Inr bv \<and> metric_number (dget_none d ''candidate'') = Inr cv"
    using assms b c metric_number_Some [of "dget_none base k"] metric_number_Some [of "dget_none cand k"]
    by (cases bv; cases cv) (auto simp: dimension_def Let_def)
  show "metric_number (dget_none d ''baseline'') = metric_number (dget_none base k)"
    "metric_number (dget_none d ''candidate'') = metric_number (dget_none cand k)"
    using b c d by simp_all
  show "\<exists>bv cv. metric_number (dget_none base k) = Inr bv \<and> metric_number (dget_none cand k) = Inr cv"
    using b c by blast
qed

lemma metric_change_status:
  assumes "as_dict (dget_none dims k) = d" and "dimension base cand k = Inr d"
  shows "\<exists>ch. metric_change dims k = Inr ch \<and>
    dget_none ch ''status'' = PStr (pair_status (metric_at base k) (metric_at cand k))"
proof -
  note r = dimension_reads [OF assms(2)]
  from r(3) obtain bv cv where v: "metric_number (dget_none base k) = Inr bv"
    "metric_number (dget_none cand k) = Inr cv" by blast
  show ?thesis
    unfolding metric_change_def Let_def assms(1) r(1,2) v bindE_simps
    using v by (cases bv; cases cv)
      (auto simp: pair_status_def metric_at_def num_of_sub Let_def dest: metric_number_Some)
qed

section \<open>Dictionaries of dimensions\<close>

lemma dget_none_dims:
  "map_of ds k = Some d \<Longrightarrow> as_dict (dget_none (map (\<lambda>(k, d). (k, PDict d)) ds) k) = d"
  by (induction ds) (auto simp: as_dict_def split: if_splits)

lemma compare_efficiency_dims:
  assumes "compare_efficiency baseline candidate = Inr e"
  obtains base cand dims where "branch_efficiency baseline = Inr base"
    "branch_efficiency candidate = Inr cand"
    "mapE (\<lambda>k. bindE (dimension base cand k) (\<lambda>d. Inr (k, d))) replay_metrics = Inr dims"
    "dget_none e ''dimensions'' = PDict (map (\<lambda>(k, d). (k, PDict d)) dims)"
    "dget_none e ''baseline'' = PDict base" "dget_none e ''candidate'' = PDict cand"
    "dget_none e ''improved_dimensions'' = keys_with ''winner'' (PStr ''candidate'') dims"
    "dget_none e ''regressed_dimensions'' = keys_with ''winner'' (PStr ''baseline'') dims"
  using assms by (auto simp: compare_efficiency_def bindE_Inr_iff)

text \<open>The statuses the decision works with are those of the two branches' own numbers.\<close>

lemma decision_of_comparison:
  assumes "compare_efficiency baseline candidate = Inr e"
    and "branch_efficiency baseline = Inr base" and "branch_efficiency candidate = Inr cand"
  shows "\<exists>changes p. objective_replay_decision e = Inr p \<and>
    map fst changes = replay_metrics \<and>
    (\<forall>k\<in>set replay_metrics. status_of changes k = pair_status (metric_at base k) (metric_at cand k)) \<and>
    dget_none p ''accepted'' = PBool (fst (objective_verdict (status_of changes))) \<and>
    dget_none p ''verdict'' = PStr (fst (snd (objective_verdict (status_of changes)))) \<and>
    dget_none p ''no_regression'' = PBool (fst (snd (objective_verdict (status_of changes))) \<noteq> ''reject'')"
proof -
  from assms(1) obtain dims where
    dims: "mapE (\<lambda>k. bindE (dimension base cand k) (\<lambda>d. Inr (k, d))) replay_metrics = Inr dims"
    and e: "dget_none e ''dimensions'' = PDict (map (\<lambda>(k, d). (k, PDict d)) dims)"
    by (rule compare_efficiency_dims) (use assms(2,3) in simp)
  let ?dims = "map (\<lambda>(k, d). (k, PDict d)) dims"
  have ch: "\<exists>c. metric_change ?dims k = Inr c \<and>
      dget_none c ''status'' = PStr (pair_status (metric_at base k) (metric_at cand k))"
    if "k \<in> set replay_metrics" for k
  proof -
    from mapE_keyed(2) [OF dims that] obtain d where d: "map_of dims k = Some d" "dimension base cand k = Inr d"
      by blast
    from metric_change_status [OF dget_none_dims [OF d(1)] d(2)] show ?thesis .
  qed
  have "\<exists>cs. mapE (\<lambda>k. bindE (metric_change ?dims k) (\<lambda>d. Inr (k, d))) replay_metrics = Inr cs"
    by (rule mapE_total) (use ch in fastforce)
  then obtain cs where cs: "mapE (\<lambda>k. bindE (metric_change ?dims k) (\<lambda>d. Inr (k, d))) replay_metrics = Inr cs" ..
  have st: "status_of cs k = pair_status (metric_at base k) (metric_at cand k)"
    if "k \<in> set replay_metrics" for k
    using mapE_keyed(2) [OF cs that] ch [OF that] by (auto simp: status_of_def)
  obtain a v b dm where v: "objective_verdict (status_of cs) = (a, v, b, dm)" by (metis prod.exhaust)
  show ?thesis
    unfolding objective_replay_decision_def e Let_def
    using cs v st mapE_keyed(1) [OF cs] by (intro exI [of _ cs]) (simp add: as_dict_def)
qed

section \<open>The decision\<close>

definition metric_better :: "pydict \<Rightarrow> pydict \<Rightarrow> string \<Rightarrow> bool" where
  "metric_better b c k =
     (case (metric_at b k, metric_at c k) of (Some x, Some y) \<Rightarrow> y < x | _ \<Rightarrow> False)"

text \<open>
  The release policy on the numbers of the two branches: fewer interaction turns win, more
  lose; with turns equal or unknown, a candidate wins that lowers tool calls or tokens and
  raises neither.
\<close>

definition policy_accepts :: "pydict \<Rightarrow> pydict \<Rightarrow> bool" where
  "policy_accepts b c \<longleftrightarrow> metric_better b c ''interaction_turns'' \<or>
     \<not> metric_better c b ''interaction_turns'' \<and>
     (\<exists>k\<in>set secondary_metrics. metric_better b c k) \<and>
     \<not> (\<exists>k\<in>set secondary_metrics. metric_better c b k)"

definition policy_rejects :: "pydict \<Rightarrow> pydict \<Rightarrow> bool" where
  "policy_rejects b c \<longleftrightarrow> metric_better c b ''interaction_turns'' \<or>
     \<not> metric_better b c ''interaction_turns'' \<and> (\<exists>k\<in>set secondary_metrics. metric_better c b k)"

lemma pair_status_iff:
  "pair_status (metric_at b k) (metric_at c k) = ''improved'' \<longleftrightarrow> metric_better b c k"
  "pair_status (metric_at b k) (metric_at c k) = ''regressed'' \<longleftrightarrow> metric_better c b k"
  by (auto simp: pair_status_def metric_better_def change_status_def unavailable_def split: option.splits)

lemma metrics_mem:
  "''interaction_turns'' \<in> set replay_metrics" "set secondary_metrics \<subseteq> set replay_metrics"
  by (simp_all add: replay_metrics_def secondary_metrics_def)

lemma verdict_cases:
  assumes "\<And>k. k \<in> set replay_metrics \<Longrightarrow> st k = pair_status (metric_at b k) (metric_at c k)"
  shows "fst (objective_verdict st) = policy_accepts b c \<and>
    fst (snd (objective_verdict st)) =
      (if policy_accepts b c then ''accept'' else if policy_rejects b c then ''reject'' else ''inconclusive'')"
proof -
  have t: "st ''interaction_turns'' = ''improved'' \<longleftrightarrow> metric_better b c ''interaction_turns''"
    "st ''interaction_turns'' = ''regressed'' \<longleftrightarrow> metric_better c b ''interaction_turns''"
    using assms [OF metrics_mem(1)] pair_status_iff by simp_all
  have s: "filter (\<lambda>n. st n = ''improved'') secondary_metrics = filter (metric_better b c) secondary_metrics"
    "filter (\<lambda>n. st n = ''regressed'') secondary_metrics = filter (metric_better c b) secondary_metrics"
    using assms metrics_mem(2) pair_status_iff by (auto intro!: filter_cong)
  show ?thesis
    unfolding objective_verdict_def Let_def t s policy_accepts_def policy_rejects_def
    by (auto simp: filter_empty_conv)
qed

lemma policy_swap: "policy_accepts b c \<Longrightarrow> policy_rejects c b \<and> \<not> policy_accepts c b"
  unfolding policy_accepts_def policy_rejects_def metric_better_def
  by (auto split: option.splits)

lemma objective_decision_cases:
  assumes "compare_efficiency baseline candidate = Inr e"
    and "branch_efficiency baseline = Inr base" and "branch_efficiency candidate = Inr cand"
  shows "\<exists>p. objective_replay_decision e = Inr p \<and>
    dget_none p ''accepted'' = PBool (policy_accepts base cand) \<and>
    dget_none p ''no_regression'' = PBool (\<not> policy_rejects base cand) \<and>
    dget_none p ''verdict'' = PStr (if policy_accepts base cand then ''accept''
      else if policy_rejects base cand then ''reject'' else ''inconclusive'')"
proof -
  from decision_of_comparison [OF assms] obtain changes p where p: "objective_replay_decision e = Inr p"
    and st: "\<And>k. k \<in> set replay_metrics \<Longrightarrow> status_of changes k = pair_status (metric_at base k) (metric_at cand k)"
    and f: "dget_none p ''accepted'' = PBool (fst (objective_verdict (status_of changes)))"
      "dget_none p ''verdict'' = PStr (fst (snd (objective_verdict (status_of changes))))"
      "dget_none p ''no_regression'' = PBool (fst (snd (objective_verdict (status_of changes))) \<noteq> ''reject'')"
    by blast
  have excl: "policy_accepts base cand \<Longrightarrow> \<not> policy_rejects base cand"
    unfolding policy_accepts_def policy_rejects_def metric_better_def by (auto split: option.splits)
  note v = verdict_cases [of "status_of changes", OF st]
  show ?thesis
    using p f v excl by (intro exI [of _ p]) auto
qed

text \<open>
  C26: The objective decision follows the numbers of the branches. Once the comparison of
  two branches returned, the decision on it returns too; it accepts exactly when the
  turn-priority policy accepts on the two branches' own numbers, reports a regression
  exactly when the policy rejects, and is inconclusive otherwise.
\<close>

theorem objective_decision_follows_numbers:
  assumes "compare_efficiency baseline candidate = Inr e"
    and "branch_efficiency baseline = Inr base" and "branch_efficiency candidate = Inr cand"
  shows "\<exists>p. objective_replay_decision e = Inr p \<and>
    dget_none p ''accepted'' = PBool (policy_accepts base cand) \<and>
    dget_none p ''no_regression'' = PBool (\<not> policy_rejects base cand) \<and>
    dget_none p ''verdict'' = PStr (if policy_accepts base cand then ''accept''
      else if policy_rejects base cand then ''reject'' else ''inconclusive'')"
  using assms by (rule objective_decision_cases)

text \<open>
  Swapping the branches of an accepted comparison rejects. When the decision accepts a
  candidate over a baseline, the decision on the swapped comparison has verdict reject.
\<close>

lemma accepted_decision_swapped_rejects:
  assumes "compare_efficiency baseline candidate = Inr e" and "objective_replay_decision e = Inr p"
    and "dget_none p ''accepted'' = PBool True"
    and "compare_efficiency candidate baseline = Inr e'" and "objective_replay_decision e' = Inr p'"
  shows "dget_none p' ''verdict'' = PStr ''reject'' \<and> dget_none p' ''accepted'' = PBool False"
proof -
  from assms(1) obtain base cand where b: "branch_efficiency baseline = Inr base"
    "branch_efficiency candidate = Inr cand"
    by (rule compare_efficiency_dims)
  have "policy_accepts base cand"
    using objective_decision_cases [OF assms(1) b] assms(2,3) by auto
  then have "policy_rejects cand base" "\<not> policy_accepts cand base" using policy_swap by blast+
  then show ?thesis using objective_decision_cases [OF assms(4) b(2,1)] assms(5) by auto
qed

section \<open>The comparison\<close>

lemma round4_bounds:
  assumes "- 1 \<le> x" and "x \<le> 1"
  shows "- 1 \<le> round4 x \<and> round4 x \<le> 1"
proof -
  define f where "f = \<lfloor>x * 10000\<rfloor>"
  have fx: "of_int f \<le> x * 10000" unfolding f_def by (rule of_int_floor_le)
  have r: "round4 x = of_int f / 10000 \<or> round4 x = of_int (f + 1) / 10000 \<and> of_int f \<noteq> x * 10000"
    by (auto simp: round4_def Let_def f_def)
  have lo: "- 10000 \<le> f" unfolding f_def using assms by (simp add: le_floor_iff)
  have hi: "f \<le> 10000" unfolding f_def using assms by (simp add: floor_le_iff)
  have "f + 1 \<le> 10000" if "of_int f \<noteq> x * 10000"
  proof -
    have "(of_int f :: rat) < of_int 10000" using that fx assms by simp
    then have "f < 10000" by (simp only: of_int_less_iff)
    then show ?thesis by simp
  qed
  note up = this
  obtain g where g: "round4 x = of_int g / 10000" "- 10000 \<le> g" "g \<le> 10000"
  proof (cases "round4 x = of_int f / 10000")
    case True
    then show thesis using lo hi by (rule that)
  next
    case False
    with r have "round4 x = of_int (f + 1) / 10000" "of_int f \<noteq> x * 10000" by blast+
    with up lo that [of "f + 1"] show thesis by simp
  qed
  from g(2,3) have "(of_int (- 10000) :: rat) \<le> of_int g" "(of_int g :: rat) \<le> of_int 10000"
    by (simp_all only: of_int_le_iff)
  then show ?thesis unfolding g(1) by simp
qed

lemma gain_bounds: "- 1 \<le> gain_of d b \<and> gain_of d b \<le> 1"
  by (simp add: gain_of_def)

lemma dget_dims:
  "map_of ds k = Some d \<Longrightarrow> dget (map (\<lambda>(k, d). (k, PDict d)) ds) k = Some (PDict d)"
  by (induction ds) (auto split: if_splits)

text \<open>
  What a comparison reports per metric. Every replay metric has a dimension; when both
  branches have the number, its winner is the candidate exactly when the candidate's is
  smaller, the baseline exactly when it is larger, and its reduction ratio lies between -1
  and 1; when a number is missing it has no delta, no ratio and no winner.
\<close>

lemma comparison_dimensions:
  assumes "compare_efficiency baseline candidate = Inr e"
    and "branch_efficiency baseline = Inr base" and "branch_efficiency candidate = Inr cand"
    and "k \<in> set replay_metrics"
  shows "\<exists>d. dget (as_dict (dget_none e ''dimensions'')) k = Some (PDict d) \<and>
    (case (metric_at base k, metric_at cand k) of
       (Some x, Some y) \<Rightarrow>
         dget_none d ''winner'' = PStr (if y < x then ''candidate'' else if x < y then ''baseline'' else ''tie'') \<and>
         (\<exists>q. dget_none d ''reduction_ratio'' = PFloat (Fin q) \<and> - 1 \<le> q \<and> q \<le> 1)
     | _ \<Rightarrow> dget_none d ''delta'' = PNone \<and> dget_none d ''reduction_ratio'' = PNone \<and>
         dget_none d ''winner'' = PStr unavailable)"
proof -
  from assms(1) obtain dims where
    dims: "mapE (\<lambda>k. bindE (dimension base cand k) (\<lambda>d. Inr (k, d))) replay_metrics = Inr dims"
    and e: "dget_none e ''dimensions'' = PDict (map (\<lambda>(k, d). (k, PDict d)) dims)"
    by (rule compare_efficiency_dims) (use assms(2,3) in simp)
  from mapE_keyed(2) [OF dims assms(4)] obtain d where d: "map_of dims k = Some d"
    "dimension base cand k = Inr d" by blast
  from dimension_reads(3) [OF d(2)] obtain bv cv where
    v: "metric_number (dget_none base k) = Inr bv" "metric_number (dget_none cand k) = Inr cv" by blast
  have "dget (as_dict (dget_none e ''dimensions'')) k = Some (PDict d)"
    using e d(1) by (simp add: as_dict_def dget_dims)
  then show ?thesis
    using v d(2) metric_number_Some [of "dget_none base k"] metric_number_Some [of "dget_none cand k"]
      round4_bounds gain_bounds
    by (intro exI [of _ d])
      (cases bv; cases cv; auto simp: dimension_def metric_at_def num_of_sub winner_of_def Let_def)
qed

section \<open>Examples\<close>

definition demo_base :: pydict where
  "demo_base = [(''interaction_turns'', PInt 3), (''total_tokens'', PInt 900)]"

definition demo_cand :: pydict where
  "demo_cand = [(''interaction_turns'', PInt 2), (''total_tokens'', PInt 950)]"

definition demo_eff :: "int \<Rightarrow> int \<Rightarrow> pydict" where
  "demo_eff turns tokens = (let u = PStr unavailable in
     [(''interaction_turns'', PInt turns), (''tool_call_count'', u), (''total_tokens'', PInt tokens),
      (''elapsed_seconds'', u), (''input_tokens'', u), (''output_tokens'', u), (''api_calls'', u),
      (''cache_read_tokens'', u), (''cache_write_tokens'', u), (''reasoning_tokens'', u)])"

lemmas metrics_eval = metric_number_def metric_or_unavailable_def exceeds_double_def
  replay_metrics_def efficiency_keys_def unavailable_def

lemma demo_effs:
  "branch_efficiency demo_base = Inr (demo_eff 3 900)" "branch_efficiency demo_cand = Inr (demo_eff 2 950)"
  by (simp_all add: branch_efficiency_def demo_base_def demo_cand_def demo_eff_def metrics_eval
      py_or_def py_iter_def Let_def)

lemma demo_compare:
  "\<exists>e. compare_efficiency demo_base demo_cand = Inr e" "\<exists>e. compare_efficiency demo_cand demo_base = Inr e"
  unfolding compare_efficiency_def demo_effs bindE_simps
  by (simp_all add: demo_eff_def dimension_def metrics_eval Let_def)

lemma demo_accepts: "policy_accepts (demo_eff 3 900) (demo_eff 2 950)"
  by (simp add: policy_accepts_def metric_better_def metric_at_def demo_eff_def metrics_eval Let_def)

theorem objective_decision_follows_numbers_witness:
  "\<exists>e p. compare_efficiency demo_base demo_cand = Inr e \<and> objective_replay_decision e = Inr p \<and>
     dget_none p ''verdict'' = PStr ''accept''"
proof -
  from demo_compare(1) obtain e where e: "compare_efficiency demo_base demo_cand = Inr e" ..
  from objective_decision_follows_numbers [OF e demo_effs] demo_accepts e show ?thesis by auto
qed

lemma accepted_decision_swapped_rejects_witness:
  "\<exists>e p. compare_efficiency demo_cand demo_base = Inr e \<and> objective_replay_decision e = Inr p \<and>
     dget_none p ''verdict'' = PStr ''reject''"
proof -
  from demo_compare obtain e e' where e: "compare_efficiency demo_base demo_cand = Inr e"
    "compare_efficiency demo_cand demo_base = Inr e'" by blast
  from objective_decision_cases [OF e(1) demo_effs] demo_accepts obtain p where
    p: "objective_replay_decision e = Inr p" "dget_none p ''accepted'' = PBool True" by auto
  from objective_decision_cases [OF e(2) demo_effs(2,1)] obtain p' where
    p': "objective_replay_decision e' = Inr p'" by auto
  from accepted_decision_swapped_rejects [OF e(1) p e(2) p'] e(2) p' show ?thesis by blast
qed

lemma comparison_dimensions_witness:
  "\<exists>e d. compare_efficiency demo_base demo_cand = Inr e \<and>
     dget (as_dict (dget_none e ''dimensions'')) ''total_tokens'' = Some (PDict d) \<and>
     dget_none d ''winner'' = PStr ''baseline''"
proof -
  from demo_compare(1) obtain e where e: "compare_efficiency demo_base demo_cand = Inr e" ..
  have m: "metric_at (demo_eff 3 900) ''total_tokens'' = Some 900"
    "metric_at (demo_eff 2 950) ''total_tokens'' = Some 950"
    by (simp_all add: metric_at_def demo_eff_def metrics_eval Let_def)
  have k: "''total_tokens'' \<in> set replay_metrics" by (simp add: replay_metrics_def)
  from comparison_dimensions [OF e demo_effs k] m e show ?thesis by auto
qed

end
