(* ===== verification/Policy.thy ===== *)
theory Policy imports Metrics begin

text \<open>
  Progressive disclosure and the checklist-first decision (team\_replay/policy.py). A case,
  a branch, a report and a decision are dicts.
\<close>

text \<open>\<open>str(d.get(k) or "")\<close>.\<close>

definition str_field :: "pydict \<Rightarrow> string \<Rightarrow> string" where
  "str_field d k = py_str (py_or (dget_none d k) (PStr ''''))"

section \<open>Cases\<close>

definition check_ok :: "pyval \<Rightarrow> pyexc + bool" where
  "check_ok item =
     (case item of
        PDict d \<Rightarrow>
          if py_strip (str_field d ''id'') = '''' \<or> py_strip (str_field d ''text'') = '''' then Inr False
          else (case dget_none d ''kind'' of
                  PList _ \<Rightarrow> Inl type_error
                | PDict _ \<Rightarrow> Inl type_error
                | v \<Rightarrow> Inr (v = PStr ''output'' \<or> v = PStr ''trajectory''))
      | _ \<Rightarrow> Inr False)"

definition normalize_check :: "pydict \<Rightarrow> pydict" where
  "normalize_check d =
     [(''id'', PStr (str_field d ''id'')),
      (''text'', PStr (py_strip (str_field d ''text''))),
      (''kind'', PStr (str_field d ''kind''))] @
     (if dget_none d ''polarity'' = PStr ''must_not'' then [(''polarity'', PStr ''must_not'')] else [])"

definition normalize_case_checklist :: "pydict \<Rightarrow> pyexc + pydict list" where
  "normalize_case_checklist c =
     bindE (py_iter (py_or (dget_none c ''checks'') (PList []))) (\<lambda>raw_checks.
     bindE (filterE check_ok raw_checks) (\<lambda>items.
       Inr (map (normalize_check \<circ> as_dict) items)))"

definition progressive_config :: "pydict \<Rightarrow> pyexc + pydict" where
  "progressive_config c =
     (let replay = as_dict (dget_none c ''replay'');
          raw = as_dict (dget_none replay ''progressive_disclosure'')
      in bindE (py_int (py_or (dget_none raw ''batch_size'') (PInt 4))) (\<lambda>n.
           Inr [(''enabled'', PBool (truthy (dget_or raw ''enabled'' (PBool True)))),
                (''initial_visibility'', PStr ''query_only''),
                (''batch_size'', PInt (max 1 n)),
                (''stop_when'', PStr ''all_checklist_items_satisfied'')]))"

definition initial_query :: "pydict \<Rightarrow> string" where
  "initial_query c = py_strip (str_field c ''query'')"

fun select_from :: "nat \<Rightarrow> pyval list \<Rightarrow> (string \<times> nat) list" where
  "select_from i [] = []"
| "select_from i (PDict c # cs) =
     (let provenance = as_dict (dget_none c ''provenance'');
          window = py_str (py_or (dget_none provenance ''evidence_window'') (PStr ''recent''));
          case_id = py_str (py_or (dget_none c ''case_id'') (PInt (int i)))
      in (window @ '':'' @ case_id, i) # select_from (Suc i) cs)"
| "select_from i (c # cs) = select_from (Suc i) cs"

definition select_replay_cases :: "pyval list \<Rightarrow> (string \<times> nat) list" where
  "select_replay_cases cases = select_from 0 cases"

section \<open>Checklist reports\<close>

definition evidence_of :: "pydict \<Rightarrow> string" where
  "evidence_of d = str_field d ''evidence''"

text \<open>An item counts as satisfied only with evidence.\<close>

definition item_satisfied :: "pydict \<Rightarrow> bool" where
  "item_satisfied d \<longleftrightarrow> dget_none d ''satisfied'' = PBool True \<and> py_strip (evidence_of d) \<noteq> ''''"

definition items_by_id :: "pyval list \<Rightarrow> string \<Rightarrow> pydict" where
  "items_by_id raw_items i =
     (let entries = [(str_field d ''id'', d). PDict d \<leftarrow> raw_items, truthy (dget_none d ''id'')]
      in case map_of (rev entries) i of None \<Rightarrow> [] | Some d \<Rightarrow> d)"

definition expected_report_item :: "pyval list \<Rightarrow> pydict \<Rightarrow> pydict" where
  "expected_report_item raw_items expected_item =
     (let actual = items_by_id raw_items (str_field expected_item ''id'')
      in dmerge expected_item
           [(''satisfied'', PBool (item_satisfied actual)), (''evidence'', PStr (evidence_of actual))])"

definition free_report_item :: "pydict \<Rightarrow> pydict" where
  "free_report_item d =
     [(''id'', PStr (str_field d ''id'')), (''text'', PStr (str_field d ''text'')),
      (''kind'', PStr (py_str (py_or (dget_none d ''kind'') (PStr ''output'')))),
      (''satisfied'', PBool (item_satisfied d)), (''evidence'', PStr (evidence_of d))]"

definition report_items :: "pyval list \<Rightarrow> pydict list \<Rightarrow> pydict list" where
  "report_items raw_items expected =
     (if expected \<noteq> [] then map (expected_report_item raw_items) expected
      else [free_report_item d. PDict d \<leftarrow> raw_items])"

definition report_rounds :: "pydict \<Rightarrow> pydict \<Rightarrow> pyexc + int" where
  "report_rounds raw branch =
     (let r = py_or (dget_none raw ''rounds'') (dget_none branch ''interaction_turns'')
      in if truthy r then py_int r
         else bindE (py_len (py_or (dget_none branch ''interactions'') (PList []))) Inr)"

definition positive_observations :: "pydict \<Rightarrow> pyexc + pyval" where
  "positive_observations raw =
     bindE (py_iter (py_or (dget_none raw ''positive_observations'') (PList []))) (\<lambda>vs.
       Inr (PList (filter (\<lambda>v. case v of PStr s \<Rightarrow> py_strip s \<noteq> '''' | _ \<Rightarrow> False) vs)))"

definition item_ids :: "pydict list \<Rightarrow> pyval" where
  "item_ids items = PList (map (\<lambda>d. PStr (str_field d ''id'')) items)"

definition normalize_checklist_report :: "pydict \<Rightarrow> pydict list \<Rightarrow> pyexc + pydict" where
  "normalize_checklist_report branch expected =
     (let raw = as_dict (dget_none branch ''checklist_report'');
          raw_items = as_list (dget_none raw ''items'');
          items = report_items raw_items expected;
          satisfied = filter (\<lambda>d. truthy (dget_none d ''satisfied'')) items;
          unmet = filter (\<lambda>d. \<not> truthy (dget_none d ''satisfied'')) items;
          all_satisfied = (if items = [] then True else unmet = [])
      in bindE (report_rounds raw branch) (\<lambda>rounds.
         bindE (positive_observations raw) (\<lambda>observations.
           Inr [(''all_satisfied'', PBool all_satisfied),
                (''total'', PInt (int (length items))),
                (''satisfied_count'', PInt (int (length satisfied))),
                (''unmet_count'', PInt (int (length unmet))),
                (''items'', PList (map PDict items)),
                (''satisfied_ids'', item_ids satisfied),
                (''unmet_ids'', item_ids unmet),
                (''rounds'', PInt rounds),
                (''judge'', dget_or raw ''judge'' (dget_or branch ''judge'' (PStr ''''))),
                (''positive_observations'', observations)])))"

section \<open>Aggregation over cases\<close>

definition int_field :: "pydict \<Rightarrow> string \<Rightarrow> pyexc + int" where
  "int_field d k = py_int (py_or (dget_none d k) (PInt 0))"

definition case_reports :: "pyval list \<Rightarrow> string \<Rightarrow> pyexc + pydict list" where
  "case_reports cases branch =
     bindE (mapE (\<lambda>c. normalize_checklist_report (as_dict (dget_none c branch)) [])
              [c. PDict c \<leftarrow> cases])
       (\<lambda>reports. Inr (filter (\<lambda>r. case dget_none r ''total'' of PInt n \<Rightarrow> n > 0 | _ \<Rightarrow> False) reports))"

definition aggregate_case_checklists :: "pyval list \<Rightarrow> string \<Rightarrow> pyexc + pydict" where
  "aggregate_case_checklists cases branch =
     bindE (case_reports cases branch) (\<lambda>reports.
     bindE (mapE (\<lambda>r. int_field r ''total'') reports) (\<lambda>totals.
     bindE (mapE (\<lambda>r. int_field r ''satisfied_count'') reports) (\<lambda>sats.
     bindE (mapE (\<lambda>r. int_field r ''unmet_count'') reports) (\<lambda>unmets.
       Inr [(''all_satisfied'', PBool (list_all (\<lambda>r. truthy (dget_none r ''all_satisfied'')) reports)),
            (''case_count'', PInt (int (length reports))),
            (''total'', PInt (sum_list totals)),
            (''satisfied_count'', PInt (sum_list sats)),
            (''unmet_count'', PInt (sum_list unmets)),
            (''reports'', PList (map PDict reports)),
            (''judge'', PStr (if \<exists>r\<in>set reports. dget_none r ''judge'' = PStr ''unavailable''
                              then ''unavailable'' else ''model''))]))))"

section \<open>The decision\<close>

definition checklist_override :: "bool \<Rightarrow> bool \<Rightarrow> bool \<Rightarrow> bool \<Rightarrow> bool \<Rightarrow> pydict" where
  "checklist_override judge_missing candidate_has baseline_has candidate_passed baseline_passed =
     (if judge_missing then
        [(''accepted'', PBool False), (''verdict'', PStr ''inconclusive''), (''no_regression'', PBool False),
         (''decision_basis'', PStr ''checklist_judge_unavailable''), (''decisive_metrics'', PList [])]
      else if candidate_has \<and> baseline_has \<and> \<not> candidate_passed \<and> \<not> baseline_passed then
        [(''accepted'', PBool False), (''verdict'', PStr ''inconclusive''), (''no_regression'', PBool False),
         (''decision_basis'', PStr ''both_checklists_incomplete''), (''decisive_metrics'', PList [])]
      else if candidate_has \<and> \<not> candidate_passed then
        [(''accepted'', PBool False), (''verdict'', PStr ''reject''), (''no_regression'', PBool False),
         (''decision_basis'', PStr ''candidate_checklist_incomplete''),
         (''primary_metric'', PStr ''checklist_completion''),
         (''decisive_metrics'', str_list [''checklist_completion''])]
      else if candidate_has \<and> baseline_has \<and> \<not> baseline_passed then
        [(''accepted'', PBool True), (''verdict'', PStr ''accept''), (''no_regression'', PBool True),
         (''decision_basis'', PStr ''candidate_only_completed_checklist''),
         (''primary_metric'', PStr ''checklist_completion''),
         (''decisive_metrics'', str_list [''checklist_completion''])]
      else [])"

definition cleared_metrics :: pydict where
  "cleared_metrics =
     [(''metric_changes'', PDict []), (''improved_metrics'', PList []),
      (''regressed_metrics'', PList []), (''unchanged_metrics'', PList [])]"

definition progressive_replay_decision :: "pydict \<Rightarrow> pydict \<Rightarrow> pydict \<Rightarrow> pyexc + pydict" where
  "progressive_replay_decision efficiency baseline candidate =
     bindE (objective_replay_decision efficiency) (\<lambda>policy.
     bindE (int_field candidate ''total'') (\<lambda>ct.
     bindE (int_field baseline ''total'') (\<lambda>bt.
       let cp = truthy (dget_or candidate ''all_satisfied'' (PBool True));
           bp = truthy (dget_or baseline ''all_satisfied'' (PBool True));
           judge_missing = (dget_none baseline ''judge'' = PStr ''unavailable'' \<or>
                            dget_none candidate ''judge'' = PStr ''unavailable'');
           p1 = dmerge policy (checklist_override judge_missing (ct > 0) (bt > 0) cp bp);
           p2 = (if bp \<and> cp then p1 else dmerge p1 cleared_metrics)
       in Inr (dmerge p2
            [(''checklist'', PDict [(''baseline'', PDict baseline), (''candidate'', PDict candidate)]),
             (''policy'', PStr ''progressive-checklist-then-turn-priority'')]))))"

section \<open>Disclosure\<close>

definition report_status :: "pydict \<Rightarrow> pyexc + (string \<Rightarrow> bool)" where
  "report_status report =
     bindE (py_iter (py_or (dget_none report ''items'') (PList []))) (\<lambda>items.
       let entries = [(str_field d ''id'', truthy (dget_none d ''satisfied'')). PDict d \<leftarrow> items]
       in Inr (\<lambda>i. case map_of (rev entries) i of None \<Rightarrow> False | Some b \<Rightarrow> b))"

definition select_disclosure_items :: "pydict list \<Rightarrow> pydict \<Rightarrow> string set \<Rightarrow> int \<Rightarrow> pyexc + pydict list" where
  "select_disclosure_items checklist report disclosed batch_size =
     bindE (report_status report) (\<lambda>status.
       let unmet = filter (\<lambda>d. \<not> status (str_field d ''id'')) checklist;
           fresh = filter (\<lambda>d. str_field d ''id'' \<notin> disclosed) unmet;
           n = nat (max 1 (if batch_size = 0 then 1 else batch_size));
           batch = take n fresh
       in Inr (if batch = [] then take n unmet else batch))"

end
