(* ===== verification/PolicyProperties.thy ===== *)
theory PolicyProperties imports Policy MetricsProperties begin

text \<open>What checklist reports, the checklist-first decision and the disclosure promise.\<close>

lemma dget_or_dmerge:
  "dget_or (dmerge a b) k v = (case map_of (rev b) k of None \<Rightarrow> dget_or a k v | Some x \<Rightarrow> x)"
  by (simp add: dget_or_def dget_dmerge split: option.splits)

section \<open>Reports\<close>

text \<open>An item of a report: its verdict is a boolean, and a positive one has evidence.\<close>

definition report_item_ok :: "pydict \<Rightarrow> bool" where
  "report_item_ok d \<longleftrightarrow>
     dget_none d ''satisfied'' = PBool False \<or>
     dget_none d ''satisfied'' = PBool True \<and> py_strip (evidence_of d) \<noteq> ''''"

lemma str_field_of_str: "dget_none d k = PStr s \<Longrightarrow> str_field d k = s"
  by (cases "s = ''''") (simp_all add: str_field_def py_or_def)

lemma expected_report_item_ok: "report_item_ok (expected_report_item raw_items e)"
proof -
  let ?a = "items_by_id raw_items (str_field e ''id'')"
  have s: "dget_none (expected_report_item raw_items e) ''satisfied'' = PBool (item_satisfied ?a)"
    "dget_none (expected_report_item raw_items e) ''evidence'' = PStr (evidence_of ?a)"
    by (simp_all add: expected_report_item_def Let_def dget_or_dmerge)
  have "evidence_of (expected_report_item raw_items e) = evidence_of ?a"
    unfolding evidence_of_def by (rule str_field_of_str) (simp add: s(2) [unfolded evidence_of_def])
  with s(1) show ?thesis by (auto simp: report_item_ok_def item_satisfied_def)
qed

lemma free_report_item_ok: "report_item_ok (free_report_item d)"
proof -
  have "evidence_of (free_report_item d) = evidence_of d"
    unfolding evidence_of_def by (rule str_field_of_str) (simp add: free_report_item_def evidence_of_def)
  then show ?thesis by (auto simp: report_item_ok_def item_satisfied_def free_report_item_def)
qed

lemma report_items_ok: "d \<in> set (report_items raw_items expected) \<Longrightarrow> report_item_ok d"
  by (auto simp: report_items_def expected_report_item_ok free_report_item_ok split: if_splits)

lemma report_fields:
  assumes "normalize_checklist_report branch expected = Inr r"
  defines "items \<equiv> report_items (as_list (dget_none (as_dict (dget_none branch ''checklist_report'')) ''items'')) expected"
  shows "dget_none r ''items'' = PList (map PDict items)"
    and "dget_none r ''total'' = PInt (int (length items))"
    and "dget_none r ''satisfied_count'' = PInt (int (length (filter (\<lambda>d. truthy (dget_none d ''satisfied'')) items)))"
    and "dget_none r ''unmet_count'' = PInt (int (length (filter (\<lambda>d. \<not> truthy (dget_none d ''satisfied'')) items)))"
    and "dget_none r ''all_satisfied'' = PBool (filter (\<lambda>d. \<not> truthy (dget_none d ''satisfied'')) items = [])"
  using assms(1) unfolding items_def
  by (auto simp: normalize_checklist_report_def Let_def bindE_Inr_iff)

text \<open>
  A checklist report adds up and never trusts a claim without evidence. The counts of
  a normalized report are those of its items; it is all satisfied exactly when no item is
  unmet; against an expected checklist it has one item per expected item, in order and with
  its fields, whatever the branch reported; and an item is satisfied only when the branch
  reported exactly \<open>True\<close> for it with non-blank evidence.
\<close>

lemma checklist_report_is_consistent:
  assumes "normalize_checklist_report branch expected = Inr r"
  shows "\<exists>items sat unmet. dget_none r ''items'' = PList (map PDict items) \<and>
    dget_none r ''total'' = PInt (int (length items)) \<and>
    dget_none r ''satisfied_count'' = PInt sat \<and> dget_none r ''unmet_count'' = PInt unmet \<and>
    int (length items) = sat + unmet \<and>
    dget_none r ''all_satisfied'' = PBool (unmet = 0) \<and>
    (\<forall>d\<in>set items. report_item_ok d) \<and>
    (expected \<noteq> [] \<longrightarrow> length items = length expected \<and>
       (\<forall>i<length expected. \<forall>k. k \<notin> {''satisfied'', ''evidence''} \<longrightarrow>
          dget (items ! i) k = dget (expected ! i) k))"
proof -
  let ?raw = "as_list (dget_none (as_dict (dget_none branch ''checklist_report'')) ''items'')"
  let ?items = "report_items ?raw expected"
  let ?sat = "filter (\<lambda>d. truthy (dget_none d ''satisfied'')) ?items"
  let ?unmet = "filter (\<lambda>d. \<not> truthy (dget_none d ''satisfied'')) ?items"
  note f = report_fields [OF assms]
  have sum: "length ?items = length ?sat + length ?unmet"
    by (rule sum_length_filter_compl [symmetric])
  have same: "dget (?items ! i) k = dget (expected ! i) k"
    if "expected \<noteq> []" "i < length expected" "k \<notin> {''satisfied'', ''evidence''}" for i k
    using that by (simp add: report_items_def expected_report_item_def Let_def dget_dmerge)
  have len: "length ?items = length expected" if "expected \<noteq> []"
    using that by (simp add: report_items_def)
  have all: "dget_none r ''all_satisfied'' = PBool (int (length ?unmet) = 0)"
    using f(5) by simp
  show ?thesis
  proof (intro exI conjI)
    show "dget_none r ''items'' = PList (map PDict ?items)" by (rule f(1))
    show "dget_none r ''total'' = PInt (int (length ?items))" by (rule f(2))
    show "dget_none r ''satisfied_count'' = PInt (int (length ?sat))" by (rule f(3))
    show "dget_none r ''unmet_count'' = PInt (int (length ?unmet))" by (rule f(4))
    show "int (length ?items) = int (length ?sat) + int (length ?unmet)" using sum by linarith
    show "\<forall>d\<in>set ?items. report_item_ok d" using report_items_ok by blast
    show "expected \<noteq> [] \<longrightarrow> length ?items = length expected \<and>
       (\<forall>i<length expected. \<forall>k. k \<notin> {''satisfied'', ''evidence''} \<longrightarrow>
          dget (?items ! i) k = dget (expected ! i) k)"
      using len same by blast
  qed (rule all)
qed

section \<open>The decision\<close>

lemma override_accepted:
  assumes "dget (checklist_override jm ch bh cp bp) ''accepted'' \<noteq> Some (PBool False)"
  shows "\<not> jm \<and> (ch \<longrightarrow> cp)"
  using assms by (auto simp: checklist_override_def split: if_splits)

lemma override_ok: "dict_ok (checklist_override jm ch bh cp bp)"
  by (simp add: checklist_override_def dict_ok_def)

lemma cleared_ok: "dict_ok cleared_metrics"
  by (simp add: cleared_metrics_def dict_ok_def)

text \<open>A field the later updates do not set is the override's, or else the objective decision's.\<close>

lemma decision_field:
  assumes "progressive_replay_decision eff b c = Inr p"
    and "k \<notin> {''metric_changes'', ''improved_metrics'', ''regressed_metrics'', ''unchanged_metrics'',
      ''checklist'', ''policy''}"
  shows "\<exists>policy ct bt. objective_replay_decision eff = Inr policy \<and>
    int_field c ''total'' = Inr ct \<and> int_field b ''total'' = Inr bt \<and>
    dget p k = (case dget (checklist_override
        (dget_none b ''judge'' = PStr ''unavailable'' \<or> dget_none c ''judge'' = PStr ''unavailable'')
        (ct > 0) (bt > 0) (truthy (dget_or c ''all_satisfied'' (PBool True)))
        (truthy (dget_or b ''all_satisfied'' (PBool True)))) k of
      None \<Rightarrow> dget policy k | Some v \<Rightarrow> Some v)"
proof -
  from assms(1) obtain policy ct bt where q: "objective_replay_decision eff = Inr policy"
    "int_field c ''total'' = Inr ct" "int_field b ''total'' = Inr bt"
    by (auto simp: progressive_replay_decision_def bindE_Inr_iff)
  let ?o = "checklist_override
        (dget_none b ''judge'' = PStr ''unavailable'' \<or> dget_none c ''judge'' = PStr ''unavailable'')
        (ct > 0) (bt > 0) (truthy (dget_or c ''all_satisfied'' (PBool True)))
        (truthy (dget_or b ''all_satisfied'' (PBool True)))"
  let ?tail = "[(''checklist'', PDict [(''baseline'', PDict b), (''candidate'', PDict c)]),
             (''policy'', PStr ''progressive-checklist-then-turn-priority'')]"
  have p: "p = dmerge (if truthy (dget_or b ''all_satisfied'' (PBool True)) \<and>
      truthy (dget_or c ''all_satisfied'' (PBool True)) then dmerge policy ?o
      else dmerge (dmerge policy ?o) cleared_metrics) ?tail"
    using assms(1) q by (simp add: progressive_replay_decision_def Let_def)
  have tail: "dget (dmerge d ?tail) k = dget d k" for d
    using assms(2) by (auto simp: dget_dmerge)
  have clear: "dget (dmerge d cleared_metrics) k = dget d k" for d
    using assms(2) by (auto simp: dget_dmerge cleared_metrics_def)
  have "dget p k = dget (dmerge policy ?o) k"
    unfolding p tail by (simp only: clear split: if_split) simp
  with q show ?thesis unfolding dget_dmerge_ok [OF override_ok] by blast
qed

lemma decision_checklist_first:
  assumes "progressive_replay_decision eff b c = Inr p"
  shows "\<exists>policy ct bt. objective_replay_decision eff = Inr policy \<and>
    int_field c ''total'' = Inr ct \<and> int_field b ''total'' = Inr bt \<and>
    (dget_none p ''accepted'' = PBool True \<longrightarrow>
       dget_none b ''judge'' \<noteq> PStr ''unavailable'' \<and> dget_none c ''judge'' \<noteq> PStr ''unavailable'' \<and>
       (ct > 0 \<longrightarrow> truthy (dget_or c ''all_satisfied'' (PBool True)))) \<and>
    (dget_none b ''judge'' \<noteq> PStr ''unavailable'' \<and> dget_none c ''judge'' \<noteq> PStr ''unavailable'' \<and>
     truthy (dget_or b ''all_satisfied'' (PBool True)) \<and> truthy (dget_or c ''all_satisfied'' (PBool True)) \<longrightarrow>
       dget p ''accepted'' = dget policy ''accepted'' \<and> dget p ''verdict'' = dget policy ''verdict'' \<and>
       dget p ''decision_basis'' = dget policy ''decision_basis'')"
proof -
  from decision_field [OF assms, of "''accepted''"] obtain policy ct bt where
    q: "objective_replay_decision eff = Inr policy"
      "int_field c ''total'' = Inr ct" "int_field b ''total'' = Inr bt" by auto
  let ?o = "checklist_override
        (dget_none b ''judge'' = PStr ''unavailable'' \<or> dget_none c ''judge'' = PStr ''unavailable'')
        (ct > 0) (bt > 0) (truthy (dget_or c ''all_satisfied'' (PBool True)))
        (truthy (dget_or b ''all_satisfied'' (PBool True)))"
  have f: "dget p k = (case dget ?o k of None \<Rightarrow> dget policy k | Some v \<Rightarrow> Some v)"
    if "k \<in> {''accepted'', ''verdict'', ''decision_basis''}" for k
    using decision_field [OF assms, of k] that q by auto
  have acc: "dget_none p ''accepted'' = PBool True \<Longrightarrow> dget ?o ''accepted'' \<noteq> Some (PBool False)"
    using f [of "''accepted''"] by (auto simp: dget_or_def split: option.splits)
  have nil: "?o = []" if "dget_none b ''judge'' \<noteq> PStr ''unavailable''" "dget_none c ''judge'' \<noteq> PStr ''unavailable''"
    "truthy (dget_or b ''all_satisfied'' (PBool True))" "truthy (dget_or c ''all_satisfied'' (PBool True))"
    using that by (simp add: checklist_override_def)
  show ?thesis
  proof (intro exI conjI impI)
    show "objective_replay_decision eff = Inr policy" "int_field c ''total'' = Inr ct"
      "int_field b ''total'' = Inr bt" by (rule q)+
  next
    assume "dget_none p ''accepted'' = PBool True"
    from override_accepted [OF acc [OF this]]
    show "dget_none b ''judge'' \<noteq> PStr ''unavailable''" "dget_none c ''judge'' \<noteq> PStr ''unavailable''"
      "0 < ct \<Longrightarrow> truthy (dget_or c ''all_satisfied'' (PBool True))" by blast+
  qed (use nil f in \<open>simp_all\<close>)
qed

lemma override_accepted_values:
  "dget (checklist_override jm ch bh cp bp) ''accepted'' \<in> {None, Some (PBool False), Some (PBool True)}"
  by (simp add: checklist_override_def)

lemma decision_accepted_bool:
  assumes "progressive_replay_decision eff b c = Inr p"
  shows "\<exists>x. dget_none p ''accepted'' = PBool x"
proof -
  from decision_field [OF assms, of "''accepted''"] obtain policy o1 where
    q: "objective_replay_decision eff = Inr policy"
      "dget p ''accepted'' = (case dget o1 ''accepted'' of None \<Rightarrow> dget policy ''accepted'' | Some v \<Rightarrow> Some v)"
      "\<exists>jm ch bh cp bp. o1 = checklist_override jm ch bh cp bp"
    by blast
  have "\<exists>x. dget policy ''accepted'' = Some (PBool x)"
  proof -
    from q(1) obtain changes where m: "mapE (\<lambda>k. bindE (metric_change (as_dict (dget_none eff ''dimensions'')) k)
        (\<lambda>d. Inr (k, d))) replay_metrics = Inr changes"
      unfolding objective_replay_decision_def Let_def bindE_Inr_iff by blast
    obtain a v ba dm where "objective_verdict (status_of changes) = (a, v, ba, dm)" by (metis prod.exhaust)
    then show ?thesis using q(1) m by (auto simp: objective_replay_decision_def Let_def)
  qed
  moreover have "dget o1 ''accepted'' = None \<or> (\<exists>x. dget o1 ''accepted'' = Some (PBool x))"
  proof -
    from q(3) obtain jm ch bh cp bp where o1: "o1 = checklist_override jm ch bh cp bp" by blast
    show ?thesis using override_accepted_values [of jm ch bh cp bp] unfolding o1 by blast
  qed
  ultimately show ?thesis using q(2) by (auto simp: dget_or_def split: option.splits)
qed

text \<open>
  The checklist decides first. A decision accepts only a candidate whose checklist, if
  it has one, is complete, with the judge available for both branches; and when both
  branches count as complete and the judge was available, verdict and acceptance are those
  of the objective decision on the same efficiency.
\<close>

lemma checklist_decides_first:
  assumes "progressive_replay_decision eff b c = Inr p"
  shows "\<exists>policy ct bt. objective_replay_decision eff = Inr policy \<and>
    int_field c ''total'' = Inr ct \<and> int_field b ''total'' = Inr bt \<and>
    (dget_none p ''accepted'' = PBool True \<longrightarrow>
       dget_none b ''judge'' \<noteq> PStr ''unavailable'' \<and> dget_none c ''judge'' \<noteq> PStr ''unavailable'' \<and>
       (ct > 0 \<longrightarrow> truthy (dget_or c ''all_satisfied'' (PBool True)))) \<and>
    (dget_none b ''judge'' \<noteq> PStr ''unavailable'' \<and> dget_none c ''judge'' \<noteq> PStr ''unavailable'' \<and>
     truthy (dget_or b ''all_satisfied'' (PBool True)) \<and> truthy (dget_or c ''all_satisfied'' (PBool True)) \<longrightarrow>
       dget p ''accepted'' = dget policy ''accepted'' \<and> dget p ''verdict'' = dget policy ''verdict'' \<and>
       dget p ''decision_basis'' = dget policy ''decision_basis'')"
  using assms by (rule decision_checklist_first)

section \<open>Disclosure\<close>


section \<open>Examples\<close>

definition demo_checklist :: "pydict list" where
  "demo_checklist = [[(''id'', PStr ''a''), (''text'', PStr ''x'')], [(''id'', PStr ''b''), (''text'', PStr ''y'')]]"

definition demo_report :: pydict where
  "demo_report = [(''checklist_report'', PDict [(''items'', PList
     [PDict [(''id'', PStr ''a''), (''satisfied'', PBool True), (''evidence'', PStr ''seen'')],
      PDict [(''id'', PStr ''b''), (''satisfied'', PBool True)]])])]"

lemma demo_report_ok: "\<exists>r. normalize_checklist_report demo_report demo_checklist = Inr r"
  by (simp add: normalize_checklist_report_def demo_report_def as_dict_def as_list_def report_rounds_def
      positive_observations_def py_iter_def py_len_def py_or_def Let_def)

lemma checklist_report_is_consistent_witness:
  "\<exists>r items. normalize_checklist_report demo_report demo_checklist = Inr r \<and>
     dget_none r ''items'' = PList (map PDict items) \<and> length items = 2"
proof -
  from demo_report_ok obtain r where r: "normalize_checklist_report demo_report demo_checklist = Inr r" ..
  from checklist_report_is_consistent [OF r] r show ?thesis by (auto simp: demo_checklist_def)
qed

lemma checklist_decides_first_witness:
  "\<exists>e p. compare_efficiency demo_base demo_cand = Inr e \<and>
     progressive_replay_decision e [] [(''total'', PInt 1), (''all_satisfied'', PBool False)] = Inr p \<and>
     dget_none p ''accepted'' \<noteq> PBool True"
proof -
  from demo_compare(1) obtain e where e: "compare_efficiency demo_base demo_cand = Inr e" ..
  from objective_decision_cases [OF e demo_effs] obtain pol where pol: "objective_replay_decision e = Inr pol"
    by blast
  let ?c = "[(''total'', PInt 1), (''all_satisfied'', PBool False)]"
  have c: "int_field ?c ''total'' = Inr 1" "int_field [] ''total'' = Inr 0"
    by (simp_all add: int_field_def py_int_def py_or_def)
  then obtain p where p: "progressive_replay_decision e [] ?c = Inr p"
    using pol by (simp add: progressive_replay_decision_def Let_def)
  from checklist_decides_first [OF p] c(1) have "dget_none p ''accepted'' \<noteq> PBool True" by auto
  with e p show ?thesis by blast
qed


end
