(* ===== verification/Aggregation.thy ===== *)
theory Aggregation imports PolicyProperties begin

text \<open>
  One release decision from several replay windows (team\_replay/aggregation.py).
\<close>

section \<open>Model\<close>

definition num_add :: "pyval \<Rightarrow> pyval \<Rightarrow> pyval" where
  "num_add a b =
     (case (a, b) of (PInt i, PInt j) \<Rightarrow> PInt (i + j) | _ \<Rightarrow> PFloat (Fin (num_of a + num_of b)))"

definition window_evaluated :: "pydict \<Rightarrow> bool" where
  "window_evaluated result \<longleftrightarrow> str_field result ''status'' \<in> {'''', ''evaluated''}"

definition window_cases :: "string \<times> pydict \<Rightarrow> pyexc + pyval list" where
  "window_cases wr =
     bindE (py_iter (py_or (dget_none (snd wr) ''cases'') (PList []))) (\<lambda>raw.
       Inr [PDict (dput ''evidence_window'' (PStr (fst wr)) c). PDict c \<leftarrow> raw])"

text \<open>
  One metric of one branch over the evaluated windows: the sum, or unavailable as soon as
  one window lacks it.
\<close>

definition window_metric :: "string \<Rightarrow> string \<Rightarrow> pydict \<Rightarrow> pyexc + pyval option" where
  "window_metric branch key result =
     metric_number (dget_none (as_dict (dget_none (as_dict (dget_none result ''efficiency'')) branch)) key)"

definition total_metric :: "string \<Rightarrow> (string \<times> pydict) list \<Rightarrow> string \<Rightarrow> pyexc + pyval" where
  "total_metric branch evaluated key =
     bindE (mapE (\<lambda>wr. window_metric branch key (snd wr)) evaluated) (\<lambda>vs.
       Inr (if None \<in> set vs then PStr unavailable
            else foldl num_add (PInt 0) (map the vs)))"

definition efficiency_input :: "string \<Rightarrow> (string \<times> pydict) list \<Rightarrow> pyexc + pydict" where
  "efficiency_input branch evaluated =
     mapE (\<lambda>k. bindE (total_metric branch evaluated k) (\<lambda>v. Inr (k, v))) replay_metrics"

definition window_results :: "(string \<times> pydict) list \<Rightarrow> pyval" where
  "window_results results = PDict (dmerge [] (map (\<lambda>(w, r). (w, PDict r)) results))"

definition aggregate_true_replay_windows :: "(string \<times> pydict) list \<Rightarrow> pyexc + pydict" where
  "aggregate_true_replay_windows results =
     (let evaluated = filter (window_evaluated \<circ> snd) results
      in if evaluated = [] then
           Inr [(''status'', PStr ''skipped''), (''accepted'', PBool False), (''no_regression'', PBool False),
                (''reason'', PStr ''no replay window produced an evaluation''),
                (''window_results'', window_results results)]
         else
           let all_windows = (length evaluated = length results)
           in bindE (mapE window_cases evaluated) (\<lambda>css.
              bindE (efficiency_input ''baseline'' evaluated) (\<lambda>eb.
              bindE (efficiency_input ''candidate'' evaluated) (\<lambda>ec.
              bindE (compare_efficiency eb ec) (\<lambda>efficiency.
              bindE (aggregate_case_checklists (concat css) ''baseline'') (\<lambda>kb.
              bindE (aggregate_case_checklists (concat css) ''candidate'') (\<lambda>kc.
              bindE (progressive_replay_decision efficiency kb kc) (\<lambda>policy.
              bindE (mapE (\<lambda>wr. int_field (snd wr) ''case_count'') evaluated) (\<lambda>counts.
                let accepted = (truthy (dget_none policy ''accepted'') \<and> all_windows);
                    v = py_str (py_or (dget_none policy ''verdict'') (PStr ''inconclusive''));
                    verdict = (if \<not> all_windows \<and> v = ''accept'' then ''inconclusive'' else v);
                    no_regression = (truthy (dget_none policy ''no_regression'') \<and> all_windows)
                in Inr [(''status'', PStr ''evaluated''), (''mode'', PStr ''true_replay''),
                        (''accepted'', PBool accepted), (''verdict'', PStr verdict),
                        (''no_regression'', PBool no_regression),
                        (''case_count'', PInt (sum_list counts)), (''cases'', PList (concat css)),
                        (''efficiency'', PDict efficiency),
                        (''checklist'', PDict [(''baseline'', PDict kb), (''candidate'', PDict kc)]),
                        (''decision_policy'', PDict (dmerge policy
                           [(''accepted'', PBool accepted), (''all_windows_evaluated'', PBool all_windows)])),
                        (''window_results'', window_results results)])))))))))"

section \<open>Properties\<close>

lemma num_of_add: "num_of (num_add a b) = num_of a + num_of b"
  by (cases a; cases b) (simp_all add: num_add_def)

lemma num_of_total: "num_of (foldl num_add a vs) = num_of a + sum_list (map num_of vs)"
  by (induction vs arbitrary: a) (simp_all add: num_of_add)

lemma aggregate_parts:
  assumes "aggregate_true_replay_windows results = Inr agg"
    and "filter (window_evaluated \<circ> snd) results \<noteq> []"
  obtains css eb ec eff kb kc policy where
    "mapE window_cases (filter (window_evaluated \<circ> snd) results) = Inr css"
    "efficiency_input ''baseline'' (filter (window_evaluated \<circ> snd) results) = Inr eb"
    "efficiency_input ''candidate'' (filter (window_evaluated \<circ> snd) results) = Inr ec"
    "compare_efficiency eb ec = Inr eff"
    "aggregate_case_checklists (concat css) ''baseline'' = Inr kb"
    "aggregate_case_checklists (concat css) ''candidate'' = Inr kc"
    "progressive_replay_decision eff kb kc = Inr policy"
    "dget_none agg ''accepted'' = PBool (truthy (dget_none policy ''accepted'') \<and>
       length (filter (window_evaluated \<circ> snd) results) = length results)"
    "dget_none agg ''efficiency'' = PDict eff"
  using assms by (auto simp: aggregate_true_replay_windows_def bindE_Inr_iff Let_def)

lemma filter_length_all: "length (filter P xs) = length xs \<longleftrightarrow> list_all P xs"
  by (metis filter_id_conv length_filter_less list_all_iff nat_less_le)

lemma int_field_PInt: "dget_none d k = PInt n \<Longrightarrow> int_field d k = Inr n"
  by (cases "n = 0") (simp_all add: int_field_def py_or_def py_int_def)

lemma positive_totals:
  assumes "mapE (\<lambda>r. int_field r ''total'') reports = Inr totals" and "reports \<noteq> []"
    and "\<forall>r\<in>set reports. \<exists>n>0. dget_none r ''total'' = PInt n"
  shows "0 < sum_list totals"
  using assms
proof (induction reports arbitrary: totals)
  case Nil
  then show ?case by simp
next
  case (Cons r reports)
  from Cons.prems(3) obtain n where n: "n > 0" "dget_none r ''total'' = PInt n" by auto
  from Cons.prems(1) obtain rest where rest: "totals = n # rest"
    "mapE (\<lambda>r. int_field r ''total'') reports = Inr rest"
    by (auto simp: bindE_Inr_iff int_field_PInt [OF n(2)])
  show ?case
  proof (cases "reports = []")
    case True
    with rest n show ?thesis by simp
  next
    case False
    with Cons.IH [OF rest(2)] Cons.prems(3) rest(1) n show ?thesis by simp
  qed
qed

lemma aggregate_checklist_total:
  assumes "aggregate_case_checklists cases branch = Inr k"
  obtains reports n where "case_reports cases branch = Inr reports"
    "dget_or k ''all_satisfied'' (PBool True) =
      PBool (list_all (\<lambda>r. truthy (dget_none r ''all_satisfied'')) reports)"
    "int_field k ''total'' = Inr n" "reports = [] \<or> 0 < n"
proof -
  from assms obtain reports totals where r: "case_reports cases branch = Inr reports"
    "mapE (\<lambda>r. int_field r ''total'') reports = Inr totals"
    and k: "dget_or k ''all_satisfied'' (PBool True) =
      PBool (list_all (\<lambda>r. truthy (dget_none r ''all_satisfied'')) reports)"
      "dget_none k ''total'' = PInt (sum_list totals)"
    by (auto simp: aggregate_case_checklists_def bindE_Inr_iff)
  have "\<forall>x\<in>set reports. \<exists>n>0. dget_none x ''total'' = PInt n"
  proof
    fix x assume "x \<in> set reports"
    with r(1) have "case dget_none x ''total'' of PInt n \<Rightarrow> n > 0 | _ \<Rightarrow> False"
      by (auto simp: case_reports_def bindE_Inr_iff)
    then show "\<exists>n>0. dget_none x ''total'' = PInt n"
      by (cases "dget_none x ''total''") simp_all
  qed
  with positive_totals [OF r(2)] have "reports = [] \<or> 0 < sum_list totals" by blast
  then show thesis using that [OF r(1) k(1) int_field_PInt [OF k(2)]] by blast
qed

text \<open>
  A release needs every window and every candidate checklist. When the aggregate
  accepts, there was at least one window and every window was evaluated; the checklist
  reports of the candidate over the cases of all windows are all satisfied; and the
  checklist-first decision on the summed efficiency of the windows accepted.
\<close>

lemma aggregate_accepts_only_complete_runs:
  assumes "aggregate_true_replay_windows results = Inr agg" and "dget_none agg ''accepted'' = PBool True"
  shows "results \<noteq> [] \<and> list_all (window_evaluated \<circ> snd) results \<and>
    (\<exists>css reports. mapE window_cases results = Inr css \<and> case_reports (concat css) ''candidate'' = Inr reports \<and>
       list_all (\<lambda>r. truthy (dget_none r ''all_satisfied'')) reports) \<and>
    (\<exists>eb ec eff kb kc policy. efficiency_input ''baseline'' results = Inr eb \<and>
       efficiency_input ''candidate'' results = Inr ec \<and> compare_efficiency eb ec = Inr eff \<and>
       progressive_replay_decision eff kb kc = Inr policy \<and> truthy (dget_none policy ''accepted''))"
proof -
  have ne: "filter (window_evaluated \<circ> snd) results \<noteq> []"
  proof
    assume "filter (window_evaluated \<circ> snd) results = []"
    with assms show False by (auto simp: aggregate_true_replay_windows_def)
  qed
  from aggregate_parts [OF assms(1) ne] obtain css eb ec eff kb kc policy where
    p: "mapE window_cases (filter (window_evaluated \<circ> snd) results) = Inr css"
      "efficiency_input ''baseline'' (filter (window_evaluated \<circ> snd) results) = Inr eb"
      "efficiency_input ''candidate'' (filter (window_evaluated \<circ> snd) results) = Inr ec"
      "compare_efficiency eb ec = Inr eff"
      "aggregate_case_checklists (concat css) ''candidate'' = Inr kc"
      "progressive_replay_decision eff kb kc = Inr policy"
      "dget_none agg ''accepted'' = PBool (truthy (dget_none policy ''accepted'') \<and>
         length (filter (window_evaluated \<circ> snd) results) = length results)" by metis
  have all: "list_all (window_evaluated \<circ> snd) results" and acc: "truthy (dget_none policy ''accepted'')"
    using p(7) assms(2) by (simp_all add: filter_length_all)
  then have f: "filter (window_evaluated \<circ> snd) results = results"
    by (simp add: filter_id_conv list_all_iff)
  from aggregate_checklist_total [OF p(5)] obtain reports n where
    r: "case_reports (concat css) ''candidate'' = Inr reports"
      "dget_or kc ''all_satisfied'' (PBool True) =
        PBool (list_all (\<lambda>r. truthy (dget_none r ''all_satisfied'')) reports)"
      "int_field kc ''total'' = Inr n" "reports = [] \<or> 0 < n" .
  have "dget_none policy ''accepted'' = PBool True"
    using decision_accepted_bool [OF p(6)] acc by auto
  then have "list_all (\<lambda>r. truthy (dget_none r ''all_satisfied'')) reports"
    using decision_checklist_first [OF p(6)] r by auto
  then show ?thesis using ne all p r(1) acc f by auto
qed

section \<open>Examples\<close>

definition demo_window :: "string \<times> pydict" where
  "demo_window = (''recent'',
     [(''efficiency'', PDict [(''baseline'', PDict demo_base), (''candidate'', PDict demo_cand)])])"

lemma demo_inputs:
  "efficiency_input ''baseline'' [demo_window] = Inr (take 7 (demo_eff 3 900))"
  "efficiency_input ''candidate'' [demo_window] = Inr (take 7 (demo_eff 2 950))"
  by (simp_all add: efficiency_input_def total_metric_def window_metric_def demo_window_def as_dict_def
      demo_base_def demo_cand_def demo_eff_def metrics_eval num_add_def Let_def)

lemma demo_input_effs:
  "branch_efficiency (take 7 (demo_eff 3 900)) = Inr (demo_eff 3 900)"
  "branch_efficiency (take 7 (demo_eff 2 950)) = Inr (demo_eff 2 950)"
  by (simp_all add: branch_efficiency_def demo_eff_def metrics_eval py_or_def py_iter_def Let_def)

lemma demo_input_compare: "\<exists>e. compare_efficiency (take 7 (demo_eff 3 900)) (take 7 (demo_eff 2 950)) = Inr e"
  unfolding compare_efficiency_def demo_input_effs bindE_simps
  by (simp add: demo_eff_def dimension_def metrics_eval Let_def)

lemma demo_no_checklist:
  "\<exists>k. aggregate_case_checklists [] b = Inr k \<and> dget_none k ''judge'' = PStr ''model'' \<and>
     dget_or k ''all_satisfied'' (PBool True) = PBool True \<and> int_field k ''total'' = Inr 0"
  by (simp add: aggregate_case_checklists_def case_reports_def int_field_def py_or_def py_int_def)

lemma demo_aggregate:
  "\<exists>agg. aggregate_true_replay_windows [demo_window] = Inr agg \<and> dget_none agg ''accepted'' = PBool True"
proof -
  have ev: "filter (window_evaluated \<circ> snd) [demo_window] = [demo_window]"
    by (simp add: window_evaluated_def demo_window_def str_field_def)
  from demo_input_compare obtain e where
    e: "compare_efficiency (take 7 (demo_eff 3 900)) (take 7 (demo_eff 2 950)) = Inr e" ..
  from demo_no_checklist obtain kb where kb: "aggregate_case_checklists [] ''baseline'' = Inr kb"
    "dget_none kb ''judge'' = PStr ''model''" "dget_or kb ''all_satisfied'' (PBool True) = PBool True"
    "int_field kb ''total'' = Inr 0" by blast
  from demo_no_checklist obtain kc where kc: "aggregate_case_checklists [] ''candidate'' = Inr kc"
    "dget_none kc ''judge'' = PStr ''model''" "dget_or kc ''all_satisfied'' (PBool True) = PBool True"
    "int_field kc ''total'' = Inr 0" by blast
  from objective_decision_cases [OF e demo_input_effs] demo_accepts obtain pol where
    pol: "objective_replay_decision e = Inr pol" "dget_none pol ''accepted'' = PBool True" by auto
  obtain p where p: "progressive_replay_decision e kb kc = Inr p"
    using pol kb kc by (simp add: progressive_replay_decision_def Let_def)
  have "dget p ''accepted'' = dget pol ''accepted''"
    using decision_checklist_first [OF p] kb kc pol by auto
  then have acc: "dget_none p ''accepted'' = PBool True" using pol(2) by (simp add: dget_or_def)
  have cs: "mapE window_cases [demo_window] = Inr [[]]"
    by (simp add: window_cases_def demo_window_def py_iter_def)
  have n: "mapE (\<lambda>wr. int_field (snd wr) ''case_count'') [demo_window] = Inr [0]"
    by (simp add: int_field_def py_int_def demo_window_def)
  show ?thesis
    unfolding aggregate_true_replay_windows_def Let_def ev
    using e kb(1) kc(1) p acc cs n by (simp add: demo_inputs)
qed

lemma aggregate_accepts_only_complete_runs_witness:
  "\<exists>agg. aggregate_true_replay_windows [demo_window] = Inr agg \<and>
     list_all (window_evaluated \<circ> snd) [demo_window]"
proof -
  from demo_aggregate obtain agg where "aggregate_true_replay_windows [demo_window] = Inr agg"
    "dget_none agg ''accepted'' = PBool True" by blast
  with aggregate_accepts_only_complete_runs [OF this] show ?thesis by blast
qed

end
