(* ===== verification/RuntimeMatrix.thy ===== *)
theory RuntimeMatrix imports Policy "HOL-Library.Multiset" begin

text \<open>
  The runtime capability matrix: which runtimes a candidate must pass on and how their
  results are combined (team\_replay/runtime\_matrix.py).
\<close>

section \<open>Model\<close>

definition runtime_name :: "pyval \<Rightarrow> string" where
  "runtime_name v = py_replace_char CHR ''_'' CHR ''-'' (py_lower (py_strip (py_str (py_or v (PStr '''')))))"

definition runtime_type_for_case :: "pydict \<Rightarrow> string" where
  "runtime_type_for_case c =
     (let provenance = as_dict (dget_none c ''provenance'');
          runtime = as_dict (dget_none provenance ''source_runtime'')
      in runtime_name (dget_none runtime ''type''))"

text \<open>\<open>sorted({_runtime(item) for item in v or [] if _runtime(item)})\<close>.\<close>

definition runtime_set :: "pyval \<Rightarrow> pyexc + string list" where
  "runtime_set v =
     bindE (py_iter (py_or v (PList []))) (\<lambda>items.
       Inr (sort (remdups (filter (\<lambda>n. n \<noteq> '''') (map runtime_name items)))))"

definition missing_entry :: pydict where
  "missing_entry = [(''status'', PStr ''missing''), (''accepted'', PBool False)]"

definition result_entries :: "pydict \<Rightarrow> (string \<times> pyval) list" where
  "result_entries result =
     (let per_runtime = as_dict (dget_none result ''runtime_validation'')
      in if per_runtime \<noteq> [] then per_runtime
         else let runtime = runtime_name (dget_none result ''runtime_type'')
              in if runtime \<noteq> '''' then [(runtime, PDict result)] else [])"

definition entry_decision :: "pydict \<Rightarrow> string" where
  "entry_decision e = py_lower (py_str (py_or (py_or (dget_none e ''decision'') (dget_none e ''verdict'')) (PStr '''')))"

definition entry_done :: "pydict \<Rightarrow> pyexc + bool" where
  "entry_done e =
     (case dget_none e ''status'' of
        PList _ \<Rightarrow> Inl type_error
      | PDict _ \<Rightarrow> Inl type_error
      | v \<Rightarrow> Inr (v = PStr ''evaluated'' \<or> v = PStr ''completed''))"

definition entry_rejected :: "pydict \<Rightarrow> bool" where
  "entry_rejected e \<longleftrightarrow> truthy (dget_none e ''rejected'') \<or> entry_decision e = ''reject''"

text \<open>The matrix maps each required runtime to its current entry.\<close>

definition entry_status :: "pydict \<Rightarrow> string" where
  "entry_status e = (case dget_none e ''status'' of PStr s \<Rightarrow> s | _ \<Rightarrow> '''')"

definition adjudicate :: "pydict \<Rightarrow> bool \<Rightarrow> pydict \<Rightarrow> pydict" where
  "adjudicate e completed current =
     (let decision = entry_decision e;
          accepted = (decision = ''accept'' \<and> dget_none e ''accepted'' = PBool True \<and> completed)
      in if entry_rejected e then
           [(''status'', PStr ''rejected''), (''accepted'', PBool False), (''decision'', PStr ''reject'')]
         else if accepted \<and> entry_status current \<notin> {''rejected'', ''inconclusive''} then
           [(''status'', PStr ''accepted''), (''accepted'', PBool True),
            (''decision'', PStr (if decision \<noteq> '''' then decision else ''accept''))]
         else if \<not> accepted \<and> entry_status current \<noteq> ''rejected'' then
           [(''status'', PStr ''inconclusive''), (''accepted'', PBool False),
            (''decision'', PStr (if decision \<noteq> '''' then decision else ''inconclusive''))]
         else current)"

type_synonym runtime_matrix = "(string \<times> pydict) list"

definition matrix_step :: "string \<times> pyval \<Rightarrow> runtime_matrix \<Rightarrow> pyexc + runtime_matrix" where
  "matrix_step entry matrix =
     (let runtime = runtime_name (PStr (fst entry))
      in case snd entry of
           PDict e \<Rightarrow>
             if runtime \<notin> fst ` set matrix then Inr matrix
             else bindE (entry_done e) (\<lambda>completed.
                    Inr (map (\<lambda>(r, cur). (r, if r = runtime then adjudicate e completed cur else cur)) matrix))
         | _ \<Rightarrow> Inr matrix)"

definition incompatible_runtimes :: "pydict \<Rightarrow> pyexc + (string \<times> string) list" where
  "incompatible_runtimes policy =
     (case py_or (dget_none policy ''incompatible_runtimes'') (PDict []) of
        PDict d \<Rightarrow>
          let named = [(runtime_name (PStr k), PStr (py_str v)). (k, v) \<leftarrow> d, runtime_name (PStr k) \<noteq> '''']
          in Inr (map (\<lambda>k. (k, case dget (dmerge [] named) k of Some (PStr s) \<Rightarrow> s | _ \<Rightarrow> ''''))
                   (sort (dkeys (dmerge [] named))))
      | _ \<Rightarrow> Inl attribute_error)"

definition matrix_verdict ::
  "string list \<Rightarrow> (string \<times> string) list \<Rightarrow> string list \<Rightarrow> string \<times> string" where
  "matrix_verdict missing incompatible statuses =
     (if missing \<noteq> [] \<or> incompatible \<noteq> [] then
        (''blocked'', join_with ''; ''
           ((if missing \<noteq> [] then [''runtime not configured for validation: '' @ join_with '', '' missing] else []) @
            (if incompatible \<noteq> [] then [''incompatible runtimes: '' @ join_with '', ''
               (map (\<lambda>(r, why). r @ '' ('' @ why @ '')'') incompatible)] else [])))
      else if ''rejected'' \<in> set statuses then
        (''rejected'', ''one or more runtime classes rejected the candidate'')
      else if set statuses \<subseteq> {''accepted''} then
        (''passed'', ''every required runtime class accepted independently'')
      else if ''inconclusive'' \<in> set statuses then
        (''inconclusive'', ''one or more runtime classes are inconclusive'')
      else (''pending'', ''runtime validation results are incomplete''))"

definition evaluate_runtime_compatibility :: "pydict \<Rightarrow> pydict list \<Rightarrow> pyexc + pydict" where
  "evaluate_runtime_compatibility policy results =
     bindE (runtime_set (dget_none policy ''required_runtimes'')) (\<lambda>required.
       if required = [] then
         Inr [(''status'', PStr ''blocked''), (''required_runtimes'', PList []), (''matrix'', PDict []),
              (''reason'', PStr ''runtime validation matrix is required'')]
       else
         bindE (foldE matrix_step (concat (map result_entries results))
                  (map (\<lambda>r. (r, missing_entry)) required)) (\<lambda>matrix.
         bindE (runtime_set (dget_none policy ''missing_replay_runtimes'')) (\<lambda>missing.
         bindE (incompatible_runtimes policy) (\<lambda>incompatible.
           let (status, reason) = matrix_verdict missing incompatible (map (entry_status \<circ> snd) matrix)
           in Inr [(''status'', PStr status), (''required_runtimes'', str_list required),
                   (''matrix'', PDict (map (\<lambda>(r, e). (r, PDict e)) matrix)),
                   (''reason'', PStr reason)]))))"

section \<open>The status of a runtime is the worst result reported for it\<close>

datatype entry_class = Accepting | Unclear | Rejecting

definition class_of_entry :: "pydict \<Rightarrow> entry_class" where
  "class_of_entry e =
     (if entry_rejected e then Rejecting
      else if entry_decision e = ''accept'' \<and> dget_none e ''accepted'' = PBool True \<and> entry_done e = Inr True
      then Accepting else Unclear)"

definition worst_status :: "entry_class multiset \<Rightarrow> string" where
  "worst_status cs =
     (if Rejecting \<in># cs then ''rejected'' else if Unclear \<in># cs then ''inconclusive''
      else if Accepting \<in># cs then ''accepted'' else ''missing'')"

text \<open>The entries that count for a runtime.\<close>

definition entries_for :: "string \<Rightarrow> (string \<times> pyval) list \<Rightarrow> pydict list" where
  "entries_for r entries = [e. (k, PDict e) \<leftarrow> entries, runtime_name (PStr k) = r]"

lemma adjudicate_status:
  assumes "entry_status cur = worst_status cs" and "entry_done e = Inr completed"
  shows "entry_status (adjudicate e completed cur) = worst_status (add_mset (class_of_entry e) cs)"
  using assms
  by (auto simp: adjudicate_def Let_def worst_status_def class_of_entry_def entry_status_def
      split: if_splits pyval.splits)

lemma missing_entry_status: "entry_status missing_entry = worst_status {#}"
  by (simp add: entry_status_def missing_entry_def worst_status_def)

lemma matrix_step_keys: "matrix_step entry m = Inr m' \<Longrightarrow> map fst m' = map fst m"
  by (auto simp: matrix_step_def Let_def bindE_Inr_iff split: pyval.splits if_splits)

lemma matrix_step_status:
  assumes "matrix_step entry m = Inr m'" and "(r, cur) \<in> set m" and "entry_status cur = worst_status cs"
  shows "\<exists>cur'. (r, cur') \<in> set m' \<and>
    entry_status cur' = worst_status (cs + mset (map class_of_entry (entries_for r [entry])))"
proof (cases "\<exists>e. snd entry = PDict e \<and> runtime_name (PStr (fst entry)) = r")
  case True
  then obtain e where e: "snd entry = PDict e" "runtime_name (PStr (fst entry)) = r" by blast
  then have ent: "entries_for r [entry] = [e]" by (cases entry) (simp add: entries_for_def)
  have mem: "r \<in> fst ` set m" using assms(2) by (metis fst_conv image_eqI)
  with assms(1) e obtain completed where "entry_done e = Inr completed"
    "m' = map (\<lambda>(x, c). (x, if x = r then adjudicate e completed c else c)) m"
    by (auto simp: matrix_step_def Let_def bindE_Inr_iff split: if_splits)
  with adjudicate_status [OF assms(3)] assms(2) show ?thesis
    unfolding ent by (intro exI [of _ "adjudicate e completed cur"]) force
next
  case False
  have ent: "entries_for r [entry] = []"
    using False by (cases entry) (auto simp: entries_for_def split: pyval.splits)
  have "(r, cur) \<in> set m'"
  proof (cases "snd entry")
    case (PDict e)
    with False have "runtime_name (PStr (fst entry)) \<noteq> r" by blast
    with assms(1,2) PDict show ?thesis
      by (force simp: matrix_step_def Let_def bindE_Inr_iff split: if_splits)
  qed (use assms(1,2) in \<open>simp_all add: matrix_step_def Let_def\<close>)
  with assms(3) show ?thesis unfolding ent by auto
qed

lemma entries_for_Cons: "entries_for r (entry # entries) = entries_for r [entry] @ entries_for r entries"
  by (cases entry) (simp add: entries_for_def split: pyval.split)

lemma matrix_fold_status:
  assumes "foldE matrix_step entries m = Inr m'" and "(r, cur) \<in> set m" and "entry_status cur = worst_status cs"
  shows "\<exists>cur'. (r, cur') \<in> set m' \<and>
    entry_status cur' = worst_status (cs + mset (map class_of_entry (entries_for r entries)))"
  using assms
proof (induction entries arbitrary: m cur cs)
  case Nil
  then show ?case by (auto simp: entries_for_def)
next
  case (Cons entry entries)
  from Cons.prems(1) obtain m1 where m1: "matrix_step entry m = Inr m1" "foldE matrix_step entries m1 = Inr m'"
    by (auto simp: bindE_Inr_iff)
  from matrix_step_status [OF m1(1) Cons.prems(2,3)] obtain c1 where c1: "(r, c1) \<in> set m1"
    "entry_status c1 = worst_status (cs + mset (map class_of_entry (entries_for r [entry])))" by blast
  from Cons.IH [OF m1(2) c1] show ?case
    by (subst entries_for_Cons) (simp add: add.assoc)
qed

lemma matrix_fold_keys: "foldE matrix_step entries m = Inr m' \<Longrightarrow> map fst m' = map fst m"
  by (induction entries arbitrary: m) (auto simp: bindE_Inr_iff dest: matrix_step_keys)

lemma runtime_set_distinct: "runtime_set v = Inr rs \<Longrightarrow> distinct rs"
  by (auto simp: runtime_set_def bindE_Inr_iff)

lemma compatibility_matrix:
  assumes "evaluate_runtime_compatibility policy results = Inr res"
    and "runtime_set (dget_none policy ''required_runtimes'') = Inr required" and "required \<noteq> []"
  obtains matrix missing incompatible where
    "map fst matrix = required" "distinct required"
    "\<And>r e. (r, e) \<in> set matrix \<Longrightarrow> entry_status e =
       worst_status (mset (map class_of_entry (entries_for r (concat (map result_entries results)))))"
    "dget_none res ''matrix'' = PDict (map (\<lambda>(r, e). (r, PDict e)) matrix)"
    "runtime_set (dget_none policy ''missing_replay_runtimes'') = Inr missing"
    "incompatible_runtimes policy = Inr incompatible"
    "dget_none res ''status'' = PStr (fst (matrix_verdict missing incompatible (map (entry_status \<circ> snd) matrix)))"
proof -
  let ?entries = "concat (map result_entries results)"
  let ?m0 = "map (\<lambda>r. (r, missing_entry)) required"
  from assms obtain matrix missing incompatible where
    f: "foldE matrix_step ?entries ?m0 = Inr matrix"
      "runtime_set (dget_none policy ''missing_replay_runtimes'') = Inr missing"
      "incompatible_runtimes policy = Inr incompatible"
    unfolding evaluate_runtime_compatibility_def by (simp add: bindE_Inr_iff) blast
  obtain status reason where v: "matrix_verdict missing incompatible (map (entry_status \<circ> snd) matrix) = (status, reason)"
    by (metis surj_pair)
  have res: "dget_none res ''matrix'' = PDict (map (\<lambda>(r, e). (r, PDict e)) matrix)"
    "dget_none res ''status'' = PStr status"
    using assms f v unfolding evaluate_runtime_compatibility_def by auto
  have keys: "map fst matrix = required" using matrix_fold_keys [OF f(1)] by (simp add: o_def)
  have dist: "distinct required" using assms(2) by (rule runtime_set_distinct)
  have "entry_status e = worst_status (mset (map class_of_entry (entries_for r ?entries)))"
    if "(r, e) \<in> set matrix" for r e
  proof -
    have "r \<in> set required" using that keys by (metis fst_conv image_eqI list.set_map)
    then have "(r, missing_entry) \<in> set ?m0" by simp
    from matrix_fold_status [OF f(1) this missing_entry_status] obtain e' where
      e': "(r, e') \<in> set matrix"
      "entry_status e' = worst_status (mset (map class_of_entry (entries_for r ?entries)))" by auto
    have "e' = e" using that e'(1) keys dist by (metis eq_key_imp_eq_value)
    with e'(2) show ?thesis by simp
  qed
  then show thesis using that [OF keys dist _ res(1) f(2,3)] res(2) v by simp
qed

text \<open>
  C28: A runtime's status is the worst result reported for it, whatever the order. When
  adjudication returns, every required runtime has exactly one entry, whose status is
  rejected if some entry for it rejects, else inconclusive if some is unclear, else accepted
  if some accepts, else missing: a function of the multiset of entries.
\<close>

theorem matrix_status_is_worst_result:
  assumes "evaluate_runtime_compatibility policy results = Inr res"
    and "runtime_set (dget_none policy ''required_runtimes'') = Inr required" and "required \<noteq> []"
  shows "\<exists>matrix. dget_none res ''matrix'' = PDict (map (\<lambda>(r, e). (r, PDict e)) matrix) \<and>
    map fst matrix = required \<and> distinct required \<and>
    (\<forall>(r, e)\<in>set matrix. entry_status e =
       worst_status (mset (map class_of_entry (entries_for r (concat (map result_entries results))))))"
  by (rule compatibility_matrix [OF assms]) blast

text \<open>
  A passed matrix has an independent acceptance on every required runtime. The overall
  status is passed only if something is required, no runtime is unconfigured or
  incompatible, and for each required runtime some entry accepts and every entry does.
\<close>

lemma passed_matrix_accepts_every_runtime:
  assumes "evaluate_runtime_compatibility policy results = Inr res"
    and "dget_none res ''status'' = PStr ''passed''"
  shows "\<exists>required. runtime_set (dget_none policy ''required_runtimes'') = Inr required \<and> required \<noteq> [] \<and>
    runtime_set (dget_none policy ''missing_replay_runtimes'') = Inr [] \<and>
    incompatible_runtimes policy = Inr [] \<and>
    (\<forall>r\<in>set required.
       class_of_entry ` set (entries_for r (concat (map result_entries results))) = {Accepting})"
proof -
  from assms(1) obtain required where r: "runtime_set (dget_none policy ''required_runtimes'') = Inr required"
    by (auto simp: evaluate_runtime_compatibility_def bindE_Inr_iff)
  have ne: "required \<noteq> []"
    using assms r by (auto simp: evaluate_runtime_compatibility_def)
  from compatibility_matrix [OF assms(1) r ne] obtain matrix missing incompatible where
    keys: "map fst matrix = required"
    and st: "\<And>r e. (r, e) \<in> set matrix \<Longrightarrow> entry_status e =
       worst_status (mset (map class_of_entry (entries_for r (concat (map result_entries results)))))"
    and mi: "runtime_set (dget_none policy ''missing_replay_runtimes'') = Inr missing"
      "incompatible_runtimes policy = Inr incompatible"
    and v: "dget_none res ''status'' = PStr (fst (matrix_verdict missing incompatible (map (entry_status \<circ> snd) matrix)))"
    by metis
  from v assms(2) have mv: "missing = []" "incompatible = []"
    "set (map (entry_status \<circ> snd) matrix) \<subseteq> {''accepted''}"
    by (auto simp: matrix_verdict_def split: if_splits)
  have "class_of_entry ` set (entries_for r (concat (map result_entries results))) = {Accepting}"
    if "r \<in> set required" for r
  proof -
    from that keys obtain e where e: "(r, e) \<in> set matrix" by auto
    let ?cs = "mset (map class_of_entry (entries_for r (concat (map result_entries results))))"
    have "entry_status e = ''accepted''" using mv(3) e by force
    then have w: "worst_status ?cs = ''accepted''" using st [OF e] by simp
    have "Accepting \<in># ?cs \<and> Unclear \<notin># ?cs \<and> Rejecting \<notin># ?cs"
      using w by (auto simp only: worst_status_def split: if_splits)
    then have "x \<in># ?cs \<longleftrightarrow> x = Accepting" for x by (cases x) simp_all
    then have "set_mset ?cs = {Accepting}" by blast
    then show ?thesis by simp
  qed
  then show ?thesis using r ne mi mv by auto
qed

section \<open>Examples\<close>

definition demo_policy :: pydict where
  "demo_policy = [(''required_runtimes'', PList [PStr '' Claude_Code''])]"

definition demo_results :: "pydict list" where
  "demo_results = [[(''runtime_type'', PStr ''claude-code''), (''decision'', PStr ''ACCEPT''),
     (''accepted'', PBool True), (''status'', PStr ''evaluated'')]]"

lemma demo_required: "runtime_set (dget_none demo_policy ''required_runtimes'') = Inr [''claude-code'']"
  by code_simp

lemma demo_passed:
  "\<exists>res. evaluate_runtime_compatibility demo_policy demo_results = Inr res \<and> dget_none res ''status'' = PStr ''passed''"
proof -
  have "map_sum id (\<lambda>res. dget_none res ''status'') (evaluate_runtime_compatibility demo_policy demo_results) =
      Inr (PStr ''passed'')"
    by code_simp
  then show ?thesis by (cases "evaluate_runtime_compatibility demo_policy demo_results") auto
qed

theorem matrix_status_is_worst_result_witness:
  "\<exists>res matrix. evaluate_runtime_compatibility demo_policy demo_results = Inr res \<and>
     dget_none res ''matrix'' = PDict (map (\<lambda>(r, e). (r, PDict e)) matrix) \<and> map fst matrix = [''claude-code'']"
proof -
  from demo_passed obtain res where "evaluate_runtime_compatibility demo_policy demo_results = Inr res" by blast
  with matrix_status_is_worst_result [OF this demo_required] show ?thesis by auto
qed

lemma passed_matrix_accepts_every_runtime_witness:
  "class_of_entry ` set (entries_for ''claude-code'' (concat (map result_entries demo_results))) = {Accepting}"
proof -
  from demo_passed obtain res where "evaluate_runtime_compatibility demo_policy demo_results = Inr res"
    "dget_none res ''status'' = PStr ''passed''" by blast
  from passed_matrix_accepts_every_runtime [OF this] demo_required show ?thesis by auto
qed

end
