(* ===== verification/Protocol.thy ===== *)
theory Protocol imports Policy begin

text \<open>
  The wire contracts of replay-capable runtimes: validation and normalization of one turn's
  request and result (team\_replay/protocol.py). A payload is any JSON value.
\<close>

section \<open>Model\<close>

definition replay_protocol_version :: string where
  "replay_protocol_version = ''1.0''"

definition turn_request_schema :: string where
  "turn_request_schema = ''teamevolver.replay-turn-request.v1''"

definition turn_result_schema :: string where
  "turn_result_schema = ''teamevolver.replay-turn-result.v1''"

definition protocol_error :: "string \<Rightarrow> pyexc" where
  "protocol_error msg = PyExc ''ReplayProtocolError'' msg"

definition require_supported_version :: "pyval \<Rightarrow> pyexc + string" where
  "require_supported_version v =
     (let version = py_strip (py_str (py_or v (PStr '''')))
      in if version \<noteq> '''' \<and> before_char CHR ''.'' version \<noteq> ''1''
         then Inl (protocol_error (''PROTOCOL_VERSION_UNSUPPORTED: '' @ version))
         else Inr version)"

text \<open>\<open>raise\<close> unless the condition holds.\<close>

definition require :: "bool \<Rightarrow> string \<Rightarrow> pyexc + unit" where
  "require b msg = (if b then Inr () else Inl (protocol_error msg))"

fun positive_int :: "pyval \<Rightarrow> bool" where
  "positive_int (PInt i) = (1 \<le> i)"
| "positive_int _ = False"

text \<open>Only \<open>TypeError\<close> and \<open>ValueError\<close> of the conversion are turned into protocol errors.\<close>

definition timeout_of :: "pydict \<Rightarrow> pyexc + int" where
  "timeout_of limits =
     (case py_int (py_or (dget_none limits ''turn_timeout_seconds'') (PInt 600)) of
        Inr n \<Rightarrow> Inr n
      | Inl e \<Rightarrow> if e = type_error \<or> e = value_error
                 then Inl (protocol_error ''replay turn limits must be integers'') else Inl e)"

definition normalize_replay_turn_request :: "pyval \<Rightarrow> pyexc + pydict" where
  "normalize_replay_turn_request payload =
     (case payload of
        PDict p \<Rightarrow>
          let schema = py_lower (py_strip (str_field p ''schema_version''));
              request_id = py_strip (str_field p ''request_id'');
              branch = py_lower (py_strip (str_field p ''branch''));
              turn_num = dget_none p ''turn_num'';
              prompt = py_strip (str_field p ''prompt'');
              limits = as_dict (dget_none p ''limits'')
          in bindE (require_supported_version (py_or (dget_none p ''protocol_version'') (PStr ''1.0''))) (\<lambda>_.
             bindE (require (schema = turn_request_schema)
                     (''unsupported replay turn request schema: '' @ schema)) (\<lambda>_.
             bindE (require (request_id \<noteq> '''') ''replay turn request_id is required'') (\<lambda>_.
             bindE (require (branch \<in> {''baseline'', ''candidate''})
                     ''replay turn branch must be baseline or candidate'') (\<lambda>_.
             bindE (require (positive_int turn_num) ''replay turn_num must be a positive integer'') (\<lambda>_.
             bindE (require (prompt \<noteq> '''') ''replay turn prompt is required'') (\<lambda>_.
             bindE (timeout_of limits) (\<lambda>timeout.
             bindE (require (1 \<le> timeout \<and> timeout \<le> 3600)
                     ''replay turn_timeout_seconds must be between 1 and 3600'') (\<lambda>_.
               Inr (dmerge p
                 [(''schema_version'', PStr turn_request_schema),
                  (''protocol_version'', PStr replay_protocol_version),
                  (''request_id'', PStr request_id), (''branch'', PStr branch), (''turn_num'', turn_num),
                  (''prompt'', PStr prompt),
                  (''limits'', PDict (dmerge limits [(''turn_timeout_seconds'', PInt timeout)]))])))))))))
      | _ \<Rightarrow> Inl (protocol_error ''replay turn request must be an object''))"

fun nonneg_int :: "pyval \<Rightarrow> bool" where
  "nonneg_int (PInt i) = (0 \<le> i)"
| "nonneg_int _ = False"

definition check_metrics :: "pydict \<Rightarrow> pyexc + unit" where
  "check_metrics metrics =
     (case find (\<lambda>(k, v). \<not> nonneg_int v) metrics of
        None \<Rightarrow> Inr ()
      | Some (k, v) \<Rightarrow> Inl (protocol_error (''INVALID_RESPONSE: metrics.'' @ k @ '' must be a non-negative integer'')))"

definition missing_metrics :: "pydict \<Rightarrow> string list" where
  "missing_metrics metrics = filter (\<lambda>k. k \<notin> set (dkeys metrics)) [''tool_call_count'', ''total_tokens'']"

definition result_error :: "string \<Rightarrow> pyval \<Rightarrow> pyval" where
  "result_error status err =
     (if status \<noteq> ''succeeded'' \<and> \<not> is_dict err then
        PDict [(''code'', PStr ''EXECUTION_FAILED''),
               (''message'', PStr (py_str (py_or err (PStr ''replay turn failed'')))),
               (''retryable'', PBool False)]
      else err)"

definition normalize_replay_turn_result :: "pyval \<Rightarrow> string \<Rightarrow> int \<Rightarrow> pyexc + pydict" where
  "normalize_replay_turn_result payload expected_request_id expected_turn_num =
     (case payload of
        PDict p \<Rightarrow>
          let schema = py_lower (py_strip (str_field p ''schema_version''));
              request_id = str_field p ''request_id'';
              turn_num = dget_none p ''turn_num'';
              status = py_lower (str_field p ''status'');
              metrics = as_dict (dget_none p ''metrics'');
              missing = missing_metrics metrics
          in bindE (require_supported_version (py_or (dget_none p ''protocol_version'') (PStr ''1.0''))) (\<lambda>_.
             bindE (require (schema = turn_result_schema)
                     (''INVALID_RESPONSE: unsupported replay turn result schema: '' @ schema)) (\<lambda>_.
             bindE (require (request_id = expected_request_id)
                     ''INVALID_RESPONSE: replay turn request_id mismatch'') (\<lambda>_.
             bindE (require (turn_num = PInt expected_turn_num)
                     ''INVALID_RESPONSE: replay turn_num mismatch'') (\<lambda>_.
             bindE (require (status \<in> {''succeeded'', ''failed'', ''unsupported''})
                     ''INVALID_RESPONSE: invalid replay turn status'') (\<lambda>_.
             bindE (if status = ''succeeded'' then check_metrics metrics else Inr ()) (\<lambda>_.
               Inr (dmerge p
                 [(''schema_version'', PStr turn_result_schema),
                  (''protocol_version'', PStr replay_protocol_version),
                  (''request_id'', PStr request_id), (''turn_num'', turn_num), (''status'', PStr status),
                  (''metrics'', PDict metrics), (''metrics_incomplete'', PBool (missing \<noteq> [])),
                  (''metrics_incomplete_reason'', PStr (if status = ''succeeded'' \<and> missing \<noteq> []
                     then ''missing required metrics: '' @ join_with '', '' missing else '''')),
                  (''error'', result_error status (dget_none p ''error''))])))))))
      | _ \<Rightarrow> Inl (protocol_error ''INVALID_RESPONSE: replay turn result must be an object''))"

section \<open>Properties\<close>

lemma require_Inr [simp]: "require b msg = Inr u \<longleftrightarrow> b"
  by (simp add: require_def)

lemma str_field_PStr: "dget d k = Some (PStr s) \<Longrightarrow> str_field d k = s"
  by (cases "s = ''''") (simp_all add: str_field_def dget_or_def py_or_def)

lemma lower_branch: "s \<in> {''baseline'', ''candidate''} \<Longrightarrow> py_lower (py_strip s) = s"
  by (auto simp: py_lower_def lower_char_def py_strip_def is_space_def)

lemma lower_schema:
  "py_lower (py_strip turn_request_schema) = turn_request_schema"
  "py_lower (py_strip turn_result_schema) = turn_result_schema"
  by (simp_all add: py_lower_def lower_char_def py_strip_def is_space_def turn_request_schema_def
      turn_result_schema_def)

lemma lower_status: "s \<in> {''succeeded'', ''failed'', ''unsupported''} \<Longrightarrow> py_lower s = s"
  by (auto simp: py_lower_def lower_char_def)

lemma version_ok: "\<exists>s. require_supported_version (py_or (PStr replay_protocol_version) x) = Inr s"
  by (simp add: require_supported_version_def replay_protocol_version_def py_strip_def is_space_def
      before_char_def)

lemma request_normal_form:
  assumes "normalize_replay_turn_request payload = Inr q"
  shows "\<exists>p request_id branch n prompt timeout. payload = PDict p \<and>
    request_id = py_strip request_id \<and> request_id \<noteq> '''' \<and> branch \<in> {''baseline'', ''candidate''} \<and> 1 \<le> n \<and>
    prompt = py_strip prompt \<and> prompt \<noteq> '''' \<and> 1 \<le> timeout \<and> timeout \<le> 3600 \<and>
    q = dmerge p
      [(''schema_version'', PStr turn_request_schema), (''protocol_version'', PStr replay_protocol_version),
       (''request_id'', PStr request_id), (''branch'', PStr branch), (''turn_num'', PInt n),
       (''prompt'', PStr prompt),
       (''limits'', PDict (dmerge (as_dict (dget_none p ''limits'')) [(''turn_timeout_seconds'', PInt timeout)]))]"
proof -
  from assms obtain p where p: "payload = PDict p"
    by (cases payload) (simp_all add: normalize_replay_turn_request_def)
  from assms obtain timeout where t: "1 \<le> timeout" "timeout \<le> 3600"
    and ok: "py_strip (str_field p ''request_id'') \<noteq> ''''"
      "py_lower (py_strip (str_field p ''branch'')) \<in> {''baseline'', ''candidate''}"
      "positive_int (dget_none p ''turn_num'')" "py_strip (str_field p ''prompt'') \<noteq> ''''"
    and q: "q = dmerge p
      [(''schema_version'', PStr turn_request_schema), (''protocol_version'', PStr replay_protocol_version),
       (''request_id'', PStr (py_strip (str_field p ''request_id''))),
       (''branch'', PStr (py_lower (py_strip (str_field p ''branch'')))),
       (''turn_num'', dget_none p ''turn_num''), (''prompt'', PStr (py_strip (str_field p ''prompt''))),
       (''limits'', PDict (dmerge (as_dict (dget_none p ''limits'')) [(''turn_timeout_seconds'', PInt timeout)]))]"
    unfolding normalize_replay_turn_request_def p pyval.case Let_def bindE_Inr_iff require_Inr
    by (elim exE conjE) (drule Inr_inject, blast)
  from ok(3) obtain n where n: "dget_none p ''turn_num'' = PInt n" "1 \<le> n"
    by (cases "dget_none p ''turn_num''") auto
  show ?thesis using p t ok q n
    by (intro exI [of _ p] exI [of _ "py_strip (str_field p ''request_id'')"]
        exI [of _ "py_lower (py_strip (str_field p ''branch''))"] exI [of _ n]
        exI [of _ "py_strip (str_field p ''prompt'')"] exI [of _ timeout]) simp
qed

lemma dmerge_fixed:
  assumes "dict_ok b"
  shows "dmerge (dmerge a b) b = dmerge a b"
proof (rule dmerge_same)
  fix k v assume "(k, v) \<in> set b"
  with assms have "dget b k = Some v" by (simp add: dget_map_of dict_ok_def)
  then show "dget (dmerge a b) k = Some v" by (simp add: dget_dmerge_ok [OF assms])
qed

lemma timeout_of_merged:
  assumes "1 \<le> timeout"
  shows "timeout_of (dmerge l [(''turn_timeout_seconds'', PInt timeout)]) = Inr timeout"
  using assms by (simp add: timeout_of_def dget_or_def dget_dmerge py_or_def py_int_def)

text \<open>
  Request normalization is validation and a fixed point. A normalized turn request has
  a non-blank request id and prompt without surrounding space, one of the two branches, a
  positive turn number and a timeout between 1 and 3600 seconds, and normalizing it again
  returns it unchanged.
\<close>

lemma turn_request_normalization_is_idempotent:
  assumes "normalize_replay_turn_request payload = Inr q"
  shows "normalize_replay_turn_request (PDict q) = Inr q \<and>
    (\<exists>request_id branch n prompt limits timeout.
       dget q ''request_id'' = Some (PStr request_id) \<and> request_id \<noteq> '''' \<and> py_strip request_id = request_id \<and>
       dget q ''branch'' = Some (PStr branch) \<and> branch \<in> {''baseline'', ''candidate''} \<and>
       dget q ''turn_num'' = Some (PInt n) \<and> 1 \<le> n \<and>
       dget q ''prompt'' = Some (PStr prompt) \<and> prompt \<noteq> '''' \<and> py_strip prompt = prompt \<and>
       dget q ''limits'' = Some (PDict limits) \<and>
       dget limits ''turn_timeout_seconds'' = Some (PInt timeout) \<and> 1 \<le> timeout \<and> timeout \<le> 3600)"
proof -
  from request_normal_form [OF assms] obtain p rid branch n prompt timeout where
    v: "rid = py_strip rid" "rid \<noteq> ''''" "branch \<in> {''baseline'', ''candidate''}" "1 \<le> n"
      "prompt = py_strip prompt" "prompt \<noteq> ''''" "1 \<le> timeout" "timeout \<le> 3600"
    and q: "q = dmerge p
      [(''schema_version'', PStr turn_request_schema), (''protocol_version'', PStr replay_protocol_version),
       (''request_id'', PStr rid), (''branch'', PStr branch), (''turn_num'', PInt n), (''prompt'', PStr prompt),
       (''limits'', PDict (dmerge (as_dict (dget_none p ''limits'')) [(''turn_timeout_seconds'', PInt timeout)]))]"
    by blast
  let ?l = "dmerge (as_dict (dget_none p ''limits'')) [(''turn_timeout_seconds'', PInt timeout)]"
  have f: "dget q ''schema_version'' = Some (PStr turn_request_schema)"
    "dget q ''protocol_version'' = Some (PStr replay_protocol_version)"
    "dget q ''request_id'' = Some (PStr rid)" "dget q ''branch'' = Some (PStr branch)"
    "dget q ''turn_num'' = Some (PInt n)" "dget q ''prompt'' = Some (PStr prompt)"
    "dget q ''limits'' = Some (PDict ?l)"
    unfolding q by (simp_all add: dget_dmerge)
  have t: "dget ?l ''turn_timeout_seconds'' = Some (PInt timeout)" by (simp add: dget_dmerge)
  have s: "str_field q ''schema_version'' = turn_request_schema" "str_field q ''request_id'' = rid"
    "str_field q ''branch'' = branch" "str_field q ''prompt'' = prompt"
    using f by (auto intro: str_field_PStr)
  have o: "dget_none q ''turn_num'' = PInt n" "dget_none q ''limits'' = PDict ?l"
    "dget_none q ''protocol_version'' = PStr replay_protocol_version"
    using f by (simp_all add: dget_or_def)
  from version_ok obtain w where w: "require_supported_version (py_or (PStr replay_protocol_version) (PStr ''1.0'')) = Inr w"
    by blast
  have l: "dmerge ?l [(''turn_timeout_seconds'', PInt timeout)] = ?l"
    by (rule dmerge_fixed) (simp add: dict_ok_def)
  have "normalize_replay_turn_request (PDict q) = Inr (dmerge q
      [(''schema_version'', PStr turn_request_schema), (''protocol_version'', PStr replay_protocol_version),
       (''request_id'', PStr rid), (''branch'', PStr branch), (''turn_num'', PInt n), (''prompt'', PStr prompt),
       (''limits'', PDict ?l)])"
    unfolding normalize_replay_turn_request_def pyval.case Let_def s o w lower_schema lower_branch [OF v(3)]
      v(1,5) [symmetric] as_dict_def timeout_of_merged [OF v(7)] bindE_simps
    using v l by (simp add: require_def as_dict_def)
  also have "dmerge q
      [(''schema_version'', PStr turn_request_schema), (''protocol_version'', PStr replay_protocol_version),
       (''request_id'', PStr rid), (''branch'', PStr branch), (''turn_num'', PInt n), (''prompt'', PStr prompt),
       (''limits'', PDict ?l)] = q"
    unfolding q by (rule dmerge_fixed) (simp add: dict_ok_def)
  finally show ?thesis using f t v by auto
qed

definition demo_turn :: pyval where
  "demo_turn = PDict [(''schema_version'', PStr '' TeamEvolver.replay-turn-request.v1''),
     (''request_id'', PStr '' r1 ''), (''branch'', PStr ''Candidate''), (''turn_num'', PInt 1),
     (''prompt'', PStr ''go'')]"

lemma turn_request_normalization_is_idempotent_witness:
  "\<exists>q. normalize_replay_turn_request demo_turn = Inr q \<and> normalize_replay_turn_request (PDict q) = Inr q"
proof -
  have "map_sum id (\<lambda>q. dget_none q ''branch'') (normalize_replay_turn_request demo_turn) = Inr (PStr ''candidate'')"
    by code_simp
  then obtain q where "normalize_replay_turn_request demo_turn = Inr q"
    by (cases "normalize_replay_turn_request demo_turn") auto
  with turn_request_normalization_is_idempotent [OF this] show ?thesis by blast
qed

lemma check_metrics_Inr: "check_metrics m = Inr u \<longleftrightarrow> list_all (nonneg_int \<circ> snd) m"
proof (cases "find (\<lambda>(k, v). \<not> nonneg_int v) m")
  case None
  have "check_metrics m = Inr ()" unfolding check_metrics_def None by simp
  moreover have "list_all (nonneg_int \<circ> snd) m" using None by (auto simp: find_None_iff list_all_iff)
  ultimately show ?thesis by simp
next
  case (Some kv)
  then have "kv \<in> set m" "\<not> nonneg_int (snd kv)" by (auto dest!: find_Some_mem simp: case_prod_beta)
  with Some show ?thesis by (auto simp: check_metrics_def list_all_iff split: prod.splits)
qed

lemma result_error_idem: "result_error s (result_error s e) = result_error s e"
  by (cases "result_error s e") (auto simp: result_error_def split: if_splits)

lemma result_normal_form:
  assumes "normalize_replay_turn_result payload rid n = Inr q"
  shows "\<exists>p status. payload = PDict p \<and> status \<in> {''succeeded'', ''failed'', ''unsupported''} \<and>
    (status = ''succeeded'' \<longrightarrow> list_all (nonneg_int \<circ> snd) (as_dict (dget_none p ''metrics''))) \<and>
    q = dmerge p
      [(''schema_version'', PStr turn_result_schema), (''protocol_version'', PStr replay_protocol_version),
       (''request_id'', PStr rid), (''turn_num'', PInt n), (''status'', PStr status),
       (''metrics'', PDict (as_dict (dget_none p ''metrics''))),
       (''metrics_incomplete'', PBool (missing_metrics (as_dict (dget_none p ''metrics'')) \<noteq> [])),
       (''metrics_incomplete_reason'', PStr (if status = ''succeeded'' \<and>
            missing_metrics (as_dict (dget_none p ''metrics'')) \<noteq> []
          then ''missing required metrics: '' @ join_with '', '' (missing_metrics (as_dict (dget_none p ''metrics'')))
          else '''')),
       (''error'', result_error status (dget_none p ''error''))]"
proof -
  from assms obtain p where p: "payload = PDict p"
    by (cases payload) (simp_all add: normalize_replay_turn_result_def)
  let ?status = "py_lower (str_field p ''status'')"
  from assms obtain u where u: "str_field p ''request_id'' = rid" "dget_none p ''turn_num'' = PInt n"
    "?status \<in> {''succeeded'', ''failed'', ''unsupported''}"
    "(if ?status = ''succeeded'' then check_metrics (as_dict (dget_none p ''metrics'')) else Inr ()) = Inr u"
    and q: "q = dmerge p
      [(''schema_version'', PStr turn_result_schema), (''protocol_version'', PStr replay_protocol_version),
       (''request_id'', PStr (str_field p ''request_id'')), (''turn_num'', dget_none p ''turn_num''),
       (''status'', PStr ?status), (''metrics'', PDict (as_dict (dget_none p ''metrics''))),
       (''metrics_incomplete'', PBool (missing_metrics (as_dict (dget_none p ''metrics'')) \<noteq> [])),
       (''metrics_incomplete_reason'', PStr (if ?status = ''succeeded'' \<and>
            missing_metrics (as_dict (dget_none p ''metrics'')) \<noteq> []
          then ''missing required metrics: '' @ join_with '', '' (missing_metrics (as_dict (dget_none p ''metrics'')))
          else '''')),
       (''error'', result_error ?status (dget_none p ''error''))]"
    unfolding normalize_replay_turn_result_def p pyval.case Let_def bindE_Inr_iff require_Inr
    by (elim exE conjE) (drule Inr_inject, blast)
  from u(4) have "?status = ''succeeded'' \<longrightarrow> list_all (nonneg_int \<circ> snd) (as_dict (dget_none p ''metrics''))"
    by (auto simp: check_metrics_Inr split: if_splits)
  with u(3) q show ?thesis unfolding u(1,2)
    by (intro exI [of _ p] exI [of _ ?status] conjI p) simp_all
qed

text \<open>
  Result normalization never invents metrics and is a fixed point. A normalized turn
  result answers the expected request and turn; when it succeeded, all its metrics are
  non-negative integers and it is flagged incomplete exactly when tool calls or tokens are
  missing; otherwise it carries an error object; and normalizing it again returns it
  unchanged.
\<close>

lemma turn_result_normalization_is_idempotent:
  assumes "normalize_replay_turn_result payload rid n = Inr q"
  shows "normalize_replay_turn_result (PDict q) rid n = Inr q \<and>
    (\<exists>status metrics. dget q ''request_id'' = Some (PStr rid) \<and> dget q ''turn_num'' = Some (PInt n) \<and>
       dget q ''status'' = Some (PStr status) \<and> dget q ''metrics'' = Some (PDict metrics) \<and>
       dget q ''metrics_incomplete'' = Some (PBool (\<not> {''tool_call_count'', ''total_tokens''} \<subseteq> fst ` set metrics)) \<and>
       (if status = ''succeeded'' then list_all (nonneg_int \<circ> snd) metrics
        else status \<in> {''failed'', ''unsupported''} \<and> is_dict (dget_none q ''error'')))"
proof -
  from result_normal_form [OF assms] obtain p status where
    st: "status \<in> {''succeeded'', ''failed'', ''unsupported''}"
    and nn: "status = ''succeeded'' \<longrightarrow> list_all (nonneg_int \<circ> snd) (as_dict (dget_none p ''metrics''))"
    and q: "q = dmerge p
      [(''schema_version'', PStr turn_result_schema), (''protocol_version'', PStr replay_protocol_version),
       (''request_id'', PStr rid), (''turn_num'', PInt n), (''status'', PStr status),
       (''metrics'', PDict (as_dict (dget_none p ''metrics''))),
       (''metrics_incomplete'', PBool (missing_metrics (as_dict (dget_none p ''metrics'')) \<noteq> [])),
       (''metrics_incomplete_reason'', PStr (if status = ''succeeded'' \<and>
            missing_metrics (as_dict (dget_none p ''metrics'')) \<noteq> []
          then ''missing required metrics: '' @ join_with '', '' (missing_metrics (as_dict (dget_none p ''metrics'')))
          else '''')),
       (''error'', result_error status (dget_none p ''error''))]" by blast
  define m where "m = as_dict (dget_none p ''metrics'')"
  define e where "e = result_error status (dget_none p ''error'')"
  define b where "b = [(''schema_version'', PStr turn_result_schema), (''protocol_version'', PStr replay_protocol_version),
       (''request_id'', PStr rid), (''turn_num'', PInt n), (''status'', PStr status), (''metrics'', PDict m),
       (''metrics_incomplete'', PBool (missing_metrics m \<noteq> [])),
       (''metrics_incomplete_reason'', PStr (if status = ''succeeded'' \<and> missing_metrics m \<noteq> []
          then ''missing required metrics: '' @ join_with '', '' (missing_metrics m) else '''')),
       (''error'', e)]"
  have q: "q = dmerge p b" unfolding q b_def m_def e_def ..
  have ok: "dict_ok b" by (simp add: b_def dict_ok_def)
  have f: "dget q ''schema_version'' = Some (PStr turn_result_schema)"
    "dget q ''protocol_version'' = Some (PStr replay_protocol_version)"
    "dget q ''request_id'' = Some (PStr rid)" "dget q ''turn_num'' = Some (PInt n)"
    "dget q ''status'' = Some (PStr status)" "dget q ''metrics'' = Some (PDict m)"
    "dget q ''metrics_incomplete'' = Some (PBool (missing_metrics m \<noteq> []))" "dget q ''error'' = Some e"
    unfolding q dget_dmerge_ok [OF ok] by (simp_all add: b_def)
  have s: "str_field q ''schema_version'' = turn_result_schema" "str_field q ''request_id'' = rid"
    "str_field q ''status'' = status"
    using f by (auto intro: str_field_PStr)
  have o: "dget_none q ''turn_num'' = PInt n" "dget_none q ''metrics'' = PDict m"
    "dget_none q ''protocol_version'' = PStr replay_protocol_version" "dget_none q ''error'' = e"
    using f by (simp_all add: dget_or_def)
  from version_ok obtain w where w: "require_supported_version (py_or (PStr replay_protocol_version) (PStr ''1.0'')) = Inr w"
    by blast
  have chk: "(if status = ''succeeded'' then check_metrics m else Inr ()) = Inr ()"
    using nn by (simp add: check_metrics_Inr m_def)
  have "normalize_replay_turn_result (PDict q) rid n = Inr (dmerge q b)"
    unfolding normalize_replay_turn_result_def pyval.case Let_def s o w lower_schema lower_status [OF st]
      as_dict_def chk bindE_simps
    using st by (simp add: require_def b_def e_def result_error_idem)
  moreover have "dmerge q b = q" unfolding q by (rule dmerge_fixed [OF ok])
  moreover have "missing_metrics m \<noteq> [] \<longleftrightarrow> \<not> {''tool_call_count'', ''total_tokens''} \<subseteq> fst ` set m"
    by (auto simp: missing_metrics_def dkeys_def)
  moreover have "status \<noteq> ''succeeded'' \<Longrightarrow> is_dict e" by (auto simp: e_def result_error_def)
  ultimately show ?thesis using f o st nn by (auto simp: m_def)
qed

definition demo_turn_result :: pyval where
  "demo_turn_result = PDict [(''schema_version'', PStr ''teamevolver.replay-turn-result.v1''),
     (''request_id'', PStr ''r1''), (''turn_num'', PInt 1), (''status'', PStr ''FAILED''),
     (''error'', PStr ''boom'')]"

lemma turn_result_normalization_is_idempotent_witness:
  "\<exists>q. normalize_replay_turn_result demo_turn_result ''r1'' 1 = Inr q \<and>
     normalize_replay_turn_result (PDict q) ''r1'' 1 = Inr q"
proof -
  have "map_sum id (\<lambda>q. dget_none q ''status'') (normalize_replay_turn_result demo_turn_result ''r1'' 1) =
      Inr (PStr ''failed'')"
    by code_simp
  then obtain q where "normalize_replay_turn_result demo_turn_result ''r1'' 1 = Inr q"
    by (cases "normalize_replay_turn_result demo_turn_result ''r1'' 1") auto
  with turn_result_normalization_is_idempotent [OF this] show ?thesis by blast
qed

end
