(* ===== verification/Contracts.thy ===== *)
theory Contracts imports Protocol begin

text \<open>
  Replay specifications: their validation and the adaptation of skill jobs to them and back
  (team\_replay/contracts.py). A mapping is a dict; deep copies are the values themselves.
\<close>

section \<open>Model\<close>

definition dataset_schema :: string where
  "dataset_schema = ''team-replay.dataset''"

definition checklist_first_policy :: string where
  "checklist_first_policy = ''checklist-first-efficiency''"

record replay_treatment =
  tm_kind :: string
  tm_revision :: string
  tm_payload :: pydict
  tm_artifact_ref :: string
  tm_content_hash :: string

record replay_spec =
  rs_run_id :: string
  rs_subject_kind :: string
  rs_subject_id :: string
  rs_dataset_format :: string
  rs_cases :: "pydict list"
  rs_baseline :: replay_treatment
  rs_candidate :: replay_treatment
  rs_subject_ids :: "string list"
  rs_account_id :: string
  rs_policy_id :: string
  rs_runtime :: pydict
  rs_limits :: pydict
  rs_metadata :: pydict

definition contract_error :: "string \<Rightarrow> pyexc" where
  "contract_error msg = PyExc ''ReplayContractError'' msg"

text \<open>\<open>__post_init__\<close>: the first violated rule raises.\<close>

definition check_spec :: "replay_spec \<Rightarrow> pyexc + replay_spec" where
  "check_spec s =
     (if py_strip (rs_run_id s) = '''' then Inl (contract_error ''run_id is required'')
      else if rs_subject_kind s \<notin> {''skill'', ''skill_set'', ''memory''}
      then Inl (contract_error ''subject_kind must be skill, skill_set or memory'')
      else if rs_subject_kind s = ''skill_set'' \<and> rs_subject_ids s = []
      then Inl (contract_error ''skill_set requires subject_ids'')
      else if rs_subject_kind s \<noteq> ''skill_set'' \<and> py_strip (rs_subject_id s) = ''''
      then Inl (contract_error ''subject_id is required'')
      else if rs_cases s = [] then Inl (contract_error ''Test Dataset must contain at least one case'')
      else if rs_dataset_format s \<noteq> dataset_schema
      then Inl (contract_error (''dataset format must be '' @ dataset_schema))
      else if rs_policy_id s \<noteq> checklist_first_policy
      then Inl (contract_error (''unsupported Replay policy: '' @ rs_policy_id s))
      else Inr s)"

definition treatment_dict :: "replay_treatment \<Rightarrow> pydict" where
  "treatment_dict t =
     [(''kind'', PStr (tm_kind t)), (''revision'', PStr (tm_revision t)), (''payload'', PDict (tm_payload t)),
      (''artifact_ref'', PStr (tm_artifact_ref t)), (''content_hash'', PStr (tm_content_hash t))]"

definition spec_dict :: "replay_spec \<Rightarrow> pydict" where
  "spec_dict s =
     [(''schema_version'', PStr ''team-replay.spec''), (''run_id'', PStr (rs_run_id s)),
      (''account_id'', PStr (rs_account_id s)),
      (''subject'', PDict ([(''kind'', PStr (rs_subject_kind s))] @
         (if rs_subject_id s \<noteq> '''' then [(''id'', PStr (rs_subject_id s))] else []) @
         (if rs_subject_ids s \<noteq> [] then [(''ids'', str_list (rs_subject_ids s))] else []))),
      (''dataset'', PDict [(''format'', PStr (rs_dataset_format s)),
         (''cases'', PList (map PDict (rs_cases s)))]),
      (''branches'', PDict [(''baseline'', PDict (treatment_dict (rs_baseline s))),
         (''candidate'', PDict (treatment_dict (rs_candidate s)))]),
      (''runtime'', PDict (rs_runtime s)), (''policy'', PDict [(''id'', PStr (rs_policy_id s))]),
      (''limits'', PDict (rs_limits s)), (''metadata'', PDict (rs_metadata s))]"

definition subject_ids_of :: "pyval \<Rightarrow> pyexc + string list" where
  "subject_ids_of v =
     bindE (py_iter (py_or v (PList []))) (\<lambda>items.
       Inr (sort (remdups (filter (\<lambda>s. s \<noteq> '''')
         (map (\<lambda>i. py_strip (py_str (py_or i (PStr '''')))) items)))))"

definition baseline_revision_of :: "pydict \<Rightarrow> string" where
  "baseline_revision_of job =
     (case dget_none job ''baseline_ref'' of
        PDict d \<Rightarrow> py_str (dget_none d ''revision'')
      | _ \<Rightarrow> '''')"

definition interactions_of :: "pydict \<Rightarrow> pyexc + int" where
  "interactions_of d =
     bindE (py_int (py_or (dget_none d ''max_interactions'') (PInt 4))) (\<lambda>n. Inr (max 1 n))"

text \<open>The specification a job describes, before validation.\<close>

definition draft_spec :: "pydict \<Rightarrow> string \<Rightarrow> string list \<Rightarrow> pyval list \<Rightarrow> int \<Rightarrow> replay_spec" where
  "draft_spec job account_id subject_ids raw_cases interactions =
     (let run_id = py_strip (py_str (py_or (py_or (dget_none job ''job_id'') (dget_none job ''id'')) (PStr '''')));
          candidate = as_dict (dget_none job ''candidate_skill'');
          baseline = as_dict (dget_none job ''current_skill'');
          subject_id = py_strip (py_str (py_or (py_or (py_or (dget_none candidate ''name'')
            (dget_none job ''candidate_skill_name'')) (dget_none job ''skill_name'')) (PStr '''')));
          revision = py_str (py_or (py_or (dget_none job ''candidate_revision'')
            (dget_none candidate ''tree_sha256'')) (PStr ''1''));
          kind = (if is_list (dget_none candidate ''skills'') then ''skill_set'' else ''skill_bundle'')
      in \<lparr>rs_run_id = run_id,
          rs_subject_kind = (if length subject_ids > 1 then ''skill_set'' else ''skill''),
          rs_subject_id = subject_id, rs_dataset_format = dataset_schema,
          rs_cases = [c. PDict c \<leftarrow> raw_cases],
          rs_baseline = \<lparr>tm_kind = kind, tm_revision = baseline_revision_of job,
            tm_payload = baseline, tm_artifact_ref = '''', tm_content_hash = ''''\<rparr>,
          rs_candidate = \<lparr>tm_kind = kind, tm_revision = revision, tm_payload = candidate,
            tm_artifact_ref = '''', tm_content_hash = ''''\<rparr>,
          rs_subject_ids = subject_ids,
          rs_account_id = (if account_id \<noteq> '''' then account_id else ''default''),
          rs_policy_id = checklist_first_policy,
          rs_runtime = as_dict (dget_none job ''runtime_validation_policy''),
          rs_limits = [(''max_interactions'', PInt interactions)],
          rs_metadata = [(''source'', py_or (dget_none job ''source'') (PDict []))]\<rparr>)"

definition skill_replay_spec :: "pydict \<Rightarrow> string \<Rightarrow> pyexc + replay_spec" where
  "skill_replay_spec job account_id =
     bindE (subject_ids_of (dget_none job ''skill_ids'')) (\<lambda>subject_ids.
     bindE (py_iter (py_or (dget_none job ''replay_cases'') (PList []))) (\<lambda>raw_cases.
     bindE (interactions_of job) (\<lambda>interactions.
       check_spec (draft_spec job account_id subject_ids raw_cases interactions))))"

definition skill_job_from_spec :: "replay_spec \<Rightarrow> pyexc + pydict" where
  "skill_job_from_spec s =
     (if rs_subject_kind s \<notin> {''skill'', ''skill_set''}
      then Inl (contract_error ''Skill Replay engine requires a Skill subject'')
      else bindE (interactions_of (rs_limits s)) (\<lambda>interactions.
        Inr [(''job_id'', PStr (rs_run_id s)), (''skill_name'', PStr (rs_subject_id s)),
             (''candidate_skill_name'', PStr (rs_subject_id s)),
             (''skill_ids'', str_list (if rs_subject_ids s \<noteq> [] then rs_subject_ids s else [rs_subject_id s])),
             (''candidate_revision'', PStr (tm_revision (rs_candidate s))),
             (''candidate_skill'', PDict (tm_payload (rs_candidate s))),
             (''current_skill'', if tm_payload (rs_baseline s) \<noteq> [] then PDict (tm_payload (rs_baseline s)) else PNone),
             (''replay_cases'', PList (map PDict (rs_cases s))),
             (''runtime_validation_policy'', PDict (rs_runtime s)),
             (''max_interactions'', PInt interactions),
             (''source'', py_or (dget_none (rs_metadata s) ''source'') (PDict []))]))"

section \<open>Properties\<close>

lemma check_spec_Inr:
  "check_spec s = Inr s' \<longleftrightarrow> s' = s \<and> py_strip (rs_run_id s) \<noteq> '''' \<and>
     rs_subject_kind s \<in> {''skill'', ''skill_set'', ''memory''} \<and>
     (if rs_subject_kind s = ''skill_set'' then rs_subject_ids s \<noteq> [] else py_strip (rs_subject_id s) \<noteq> '''') \<and>
     rs_cases s \<noteq> [] \<and> rs_dataset_format s = dataset_schema \<and> rs_policy_id s = checklist_first_policy"
  by (auto simp: check_spec_def)

lemma py_str_nonempty: "truthy v \<Longrightarrow> py_str v \<noteq> ''''"
  by (cases v) (auto simp: repr_str_def Let_def int_str_def float_str_def nat_str.simps split: pyfloat.splits)

definition ids_ok :: "string list \<Rightarrow> bool" where
  "ids_ok ids \<longleftrightarrow> sorted ids \<and> distinct ids \<and> (\<forall>i\<in>set ids. i \<noteq> '''' \<and> py_strip i = i)"

lemma subject_ids_of_ok: "subject_ids_of v = Inr ids \<Longrightarrow> ids_ok ids"
  by (auto simp: subject_ids_of_def bindE_Inr_iff ids_ok_def)

lemma subject_ids_of_ids:
  assumes "ids_ok ids"
  shows "subject_ids_of (str_list ids) = Inr ids"
proof -
  have m: "map (\<lambda>i. py_strip (py_str (py_or i (PStr '''')))) (map PStr ids) = ids"
    using assms unfolding map_map ids_ok_def by (intro map_idI) (simp add: py_or_def)
  have f: "filter (\<lambda>s. s \<noteq> '''') ids = ids" using assms by (simp add: ids_ok_def filter_id_conv)
  have i: "py_iter (py_or (str_list ids) (PList [])) = Inr (map PStr ids)"
    by (cases ids) (simp_all add: str_list_def py_iter_def py_or_def)
  show ?thesis
    unfolding subject_ids_of_def i bindE_simps m f using assms
    by (simp add: ids_ok_def distinct_remdups_id sorted_sort_id)
qed

lemma py_str_or_PStr: "py_str (py_or (py_or (PStr s) x) (PStr '''')) = (if s \<noteq> '''' then s else py_str (py_or x (PStr '''')))"
  by (simp add: py_or_def)

lemma PDict_items: "[c. PDict c \<leftarrow> map PDict cs] = cs"
  by (induction cs) auto

lemma interactions_of_PInt: "1 \<le> n \<Longrightarrow> dget_none d ''max_interactions'' = PInt n \<Longrightarrow> interactions_of d = Inr n"
  by (simp add: interactions_of_def py_or_def py_int_def)

lemma skill_spec_draft:
  assumes "skill_replay_spec job account = Inr s"
  obtains ids raw n where "ids_ok ids" "1 \<le> n" "s = draft_spec job account ids raw n" "check_spec s = Inr s"
proof -
  from assms obtain ids raw n where i: "subject_ids_of (dget_none job ''skill_ids'') = Inr ids"
    "interactions_of job = Inr n" "check_spec (draft_spec job account ids raw n) = Inr s"
    unfolding skill_replay_spec_def bindE_Inr_iff by blast
  have "s = draft_spec job account ids raw n" using i(3) unfolding check_spec_Inr by blast
  moreover from this have "check_spec s = Inr s" using i(3) by simp
  moreover have "1 \<le> n" using i(2) by (auto simp: interactions_of_def bindE_Inr_iff)
  ultimately show thesis using that subject_ids_of_ok [OF i(1)] by blast
qed

text \<open>The engine job of a specification without subject ids names its subject.\<close>

lemma draft_job:
  assumes "s = draft_spec job account ids raw n" and "check_spec s = Inr s" and "1 \<le> n"
  shows "skill_job_from_spec s = Inr
    [(''job_id'', PStr (rs_run_id s)), (''skill_name'', PStr (rs_subject_id s)),
     (''candidate_skill_name'', PStr (rs_subject_id s)),
     (''skill_ids'', str_list (if ids \<noteq> [] then ids else [rs_subject_id s])),
     (''candidate_revision'', PStr (tm_revision (rs_candidate s))),
     (''candidate_skill'', PDict (as_dict (dget_none job ''candidate_skill''))),
     (''current_skill'', if as_dict (dget_none job ''current_skill'') \<noteq> []
        then PDict (as_dict (dget_none job ''current_skill'')) else PNone),
     (''replay_cases'', PList (map PDict (rs_cases s))),
     (''runtime_validation_policy'', PDict (rs_runtime s)), (''max_interactions'', PInt n),
     (''source'', py_or (dget_none job ''source'') (PDict []))]"
proof -
  have k: "rs_subject_kind s \<in> {''skill'', ''skill_set''}"
    using assms(1) by (simp add: draft_spec_def Let_def)
  have l: "interactions_of (rs_limits s) = Inr n"
    using assms(1,3) by (intro interactions_of_PInt) (simp_all add: draft_spec_def Let_def)
  have src: "py_or (dget_none (rs_metadata s) ''source'') (PDict []) = py_or (dget_none job ''source'') (PDict [])"
    unfolding assms(1) by (simp add: draft_spec_def Let_def py_or_def)
  have f: "rs_subject_ids s = ids" "tm_payload (rs_candidate s) = as_dict (dget_none job ''candidate_skill'')"
    "tm_payload (rs_baseline s) = as_dict (dget_none job ''current_skill'')"
    unfolding assms(1) by (simp_all add: draft_spec_def Let_def)
  show ?thesis using k unfolding skill_job_from_spec_def l src f bindE_simps by auto
qed

lemma draft_fields:
  assumes "s = draft_spec job account ids raw n"
  shows "rs_run_id s = py_strip (py_str (py_or (py_or (dget_none job ''job_id'') (dget_none job ''id'')) (PStr '''')))"
    and "rs_subject_id s = py_strip (py_str (py_or (py_or (py_or
        (dget_none (as_dict (dget_none job ''candidate_skill'')) ''name'')
        (dget_none job ''candidate_skill_name'')) (dget_none job ''skill_name'')) (PStr '''')))"
    and "tm_revision (rs_candidate s) = py_str (py_or (py_or (dget_none job ''candidate_revision'')
        (dget_none (as_dict (dget_none job ''candidate_skill'')) ''tree_sha256'')) (PStr ''1''))"
    and "rs_cases s = [c. PDict c \<leftarrow> raw]" and "rs_account_id s \<noteq> ''''"
    and "rs_runtime s = as_dict (dget_none job ''runtime_validation_policy'')" and "rs_subject_ids s = ids"
    and "rs_subject_kind s = (if length ids > 1 then ''skill_set'' else ''skill'')"
  unfolding assms by (simp_all add: draft_spec_def Let_def)

text \<open>Reading a specification's job again gives its fields back.\<close>

lemma draft_again:
  assumes "s = draft_spec job account ids raw n"
    and "py_strip (rs_run_id s) = rs_run_id s" and "rs_run_id s \<noteq> ''''"
    and "tm_revision (rs_candidate s) \<noteq> ''''" and "rs_account_id s \<noteq> ''''"
    and "py_strip (py_str (py_or (py_or (py_or
        (dget_none (as_dict (dget_none job ''candidate_skill'')) ''name'')
        (PStr (rs_subject_id s))) (PStr (rs_subject_id s))) (PStr ''''))) = rs_subject_id s"
  defines "ids' \<equiv> if ids \<noteq> [] then ids else [rs_subject_id s]"
  shows "draft_spec [(''job_id'', PStr (rs_run_id s)), (''skill_name'', PStr (rs_subject_id s)),
     (''candidate_skill_name'', PStr (rs_subject_id s)), (''skill_ids'', str_list ids'),
     (''candidate_revision'', PStr (tm_revision (rs_candidate s))),
     (''candidate_skill'', PDict (as_dict (dget_none job ''candidate_skill''))),
     (''current_skill'', if as_dict (dget_none job ''current_skill'') \<noteq> []
        then PDict (as_dict (dget_none job ''current_skill'')) else PNone),
     (''replay_cases'', PList (map PDict (rs_cases s))),
     (''runtime_validation_policy'', PDict (rs_runtime s)), (''max_interactions'', PInt n),
     (''source'', py_or (dget_none job ''source'') (PDict []))]
     (rs_account_id s) ids' (map PDict (rs_cases s)) n =
   s\<lparr>rs_baseline := (rs_baseline s)\<lparr>tm_revision := ''''\<rparr>, rs_subject_ids := ids'\<rparr>"
proof -
  let ?cs = "as_dict (dget_none job ''candidate_skill'')"
  have base: "as_dict (if as_dict (dget_none job ''current_skill'') \<noteq> []
      then PDict (as_dict (dget_none job ''current_skill'')) else PNone) = as_dict (dget_none job ''current_skill'')"
    by (simp add: as_dict_def)
  have src: "py_or (py_or (dget_none job ''source'') (PDict [])) (PDict []) = py_or (dget_none job ''source'') (PDict [])"
    by (simp add: py_or_def)
  have run: "py_strip (py_str (py_or (py_or (PStr (rs_run_id s)) PNone) (PStr ''''))) = rs_run_id s"
    using assms(2,3) by simp
  have rev: "py_str (py_or (py_or (PStr (tm_revision (rs_candidate s))) (dget_none ?cs ''tree_sha256'')) (PStr ''1'')) =
      tm_revision (rs_candidate s)"
    using assms(4) by simp
  have d: "as_dict (PDict x) = x" for x by (simp add: as_dict_def)
  have one: "length ids' > 1 \<longleftrightarrow> length ids > 1" by (simp add: ids'_def)
  note parts = assms(1) [unfolded draft_spec_def Let_def]
  have fields: "rs_subject_kind s = (if length ids > 1 then ''skill_set'' else ''skill'')"
    "rs_dataset_format s = dataset_schema" "rs_policy_id s = checklist_first_policy"
    "rs_limits s = [(''max_interactions'', PInt n)]"
    "rs_metadata s = [(''source'', py_or (dget_none job ''source'') (PDict []))]"
    "tm_kind (rs_candidate s) = (if is_list (dget_none ?cs ''skills'') then ''skill_set'' else ''skill_bundle'')"
    "tm_payload (rs_candidate s) = ?cs" "tm_artifact_ref (rs_candidate s) = ''''"
    "tm_content_hash (rs_candidate s) = ''''"
    "tm_kind (rs_baseline s) = (if is_list (dget_none ?cs ''skills'') then ''skill_set'' else ''skill_bundle'')"
    "tm_payload (rs_baseline s) = as_dict (dget_none job ''current_skill'')" "tm_artifact_ref (rs_baseline s) = ''''"
    "tm_content_hash (rs_baseline s) = ''''"
    unfolding parts by (simp_all only: replay_spec.simps replay_treatment.simps)
  show ?thesis
    unfolding draft_spec_def Let_def baseline_revision_of_def dget_or_simps
    by (rule replay_spec.equality; (rule replay_treatment.equality)?;
        simp add: run assms(5,6) rev base src d PDict_items [unfolded map_map o_def] o_def one [simplified] fields)
qed

text \<open>
  Specification and job round trip. A specification adapted from a skill job projects
  onto an engine job, and adapting that job again gives the specification back, except that
  the revision of the baseline is lost and a specification without subject ids gets its
  subject as the only one.
\<close>

lemma skill_spec_job_round_trip:
  assumes "skill_replay_spec job account = Inr s"
  shows "\<exists>job'. skill_job_from_spec s = Inr job' \<and>
    skill_replay_spec job' (rs_account_id s) = Inr (s\<lparr>rs_baseline := (rs_baseline s)\<lparr>tm_revision := ''''\<rparr>,
      rs_subject_ids := if rs_subject_ids s = [] then [rs_subject_id s] else rs_subject_ids s\<rparr>)"
proof -
  from skill_spec_draft [OF assms] obtain ids raw n where
    ids: "ids_ok ids" and n: "1 \<le> n" and s: "s = draft_spec job account ids raw n"
    and chk: "check_spec s = Inr s" .
  let ?ids = "if ids \<noteq> [] then ids else [rs_subject_id s]"
  let ?job = "[(''job_id'', PStr (rs_run_id s)), (''skill_name'', PStr (rs_subject_id s)),
     (''candidate_skill_name'', PStr (rs_subject_id s)), (''skill_ids'', str_list ?ids),
     (''candidate_revision'', PStr (tm_revision (rs_candidate s))),
     (''candidate_skill'', PDict (as_dict (dget_none job ''candidate_skill''))),
     (''current_skill'', if as_dict (dget_none job ''current_skill'') \<noteq> []
        then PDict (as_dict (dget_none job ''current_skill'')) else PNone),
     (''replay_cases'', PList (map PDict (rs_cases s))),
     (''runtime_validation_policy'', PDict (rs_runtime s)), (''max_interactions'', PInt n),
     (''source'', py_or (dget_none job ''source'') (PDict []))]"
  note f = draft_fields [OF s]
  have c: "py_strip (rs_run_id s) \<noteq> ''''" "rs_cases s \<noteq> []"
    "length ids \<le> 1 \<Longrightarrow> rs_subject_id s \<noteq> ''''"
    using chk f(8) unfolding check_spec_Inr by (auto simp: f(7) split: if_splits)
  have strip: "py_strip (rs_run_id s) = rs_run_id s" "py_strip (rs_subject_id s) = rs_subject_id s"
    unfolding f(1,2) by simp_all
  have rev: "tm_revision (rs_candidate s) \<noteq> ''''"
    unfolding f(3) by (rule py_str_nonempty) (simp add: py_or_def)
  have ok: "ids_ok ?ids" using ids c(3) strip(2) by (auto simp: ids_ok_def)
  let ?s = "s\<lparr>rs_baseline := (rs_baseline s)\<lparr>tm_revision := ''''\<rparr>, rs_subject_ids := ?ids\<rparr>"
  have sid: "py_strip (py_str (py_or (py_or (py_or
        (dget_none (as_dict (dget_none job ''candidate_skill'')) ''name'')
        (PStr (rs_subject_id s))) (PStr (rs_subject_id s))) (PStr ''''))) = rs_subject_id s"
  proof (cases "truthy (dget_none (as_dict (dget_none job ''candidate_skill'')) ''name'')")
    case True
    then show ?thesis unfolding f(2) by simp
  next
    case False
    then show ?thesis using strip(2) by (cases "rs_subject_id s = ''''") simp_all
  qed
  have draft: "draft_spec ?job (rs_account_id s) ?ids (map PDict (rs_cases s)) n = ?s"
    by (rule draft_again [OF s]) (use c(1,3) rev f(5) sid strip ids in \<open>auto simp: ids_ok_def\<close>)
  have "skill_replay_spec ?job (rs_account_id s) = check_spec ?s"
  proof -
    have "subject_ids_of (dget_none ?job ''skill_ids'') = Inr ?ids"
      using subject_ids_of_ids [OF ok] by simp
    moreover have "py_iter (py_or (dget_none ?job ''replay_cases'') (PList [])) = Inr (map PDict (rs_cases s))"
      using c(2) by (simp add: py_iter_def)
    moreover have "interactions_of ?job = Inr n" by (rule interactions_of_PInt [OF n]) simp
    ultimately show ?thesis unfolding skill_replay_spec_def draft [symmetric] by simp
  qed
  also have "check_spec ?s = Inr ?s"
    using chk unfolding check_spec_Inr by (auto simp: f(7) split: if_splits)
  finally show ?thesis using draft_job [OF s chk n] by (auto simp: f(7))
qed

definition demo_job :: pydict where
  "demo_job = [(''job_id'', PStr ''j1 ''), (''skill_name'', PStr ''s''), (''replay_cases'', PList [PDict []])]"

lemma skill_spec_job_round_trip_witness:
  "\<exists>s job'. skill_replay_spec demo_job '''' = Inr s \<and> skill_job_from_spec s = Inr job' \<and>
     rs_subject_ids s = [] \<and> (\<exists>s'. skill_replay_spec job' (rs_account_id s) = Inr s' \<and> rs_subject_ids s' = [''s''])"
proof -
  have "map_sum id (\<lambda>s. (rs_subject_ids s, rs_subject_id s)) (skill_replay_spec demo_job '''') = Inr ([], ''s'')"
    by code_simp
  then obtain s where s: "skill_replay_spec demo_job '''' = Inr s" "rs_subject_ids s = []" "rs_subject_id s = ''s''"
    by (cases "skill_replay_spec demo_job ''''") auto
  from skill_spec_job_round_trip [OF s(1)] s show ?thesis by auto
qed

end
