(* ===== verification/Bytes.thy ===== *)
theory Bytes imports PyValue begin

text \<open>
  Byte strings and the standard-library codecs the skill library uses. A byte is a
  character with its code. In this theory and those that build on it a Python text is
  represented by its UTF-8 encoding, so \<open>encode\<close> is the identity and \<open>decode\<close> a check;
  order, equality, slicing at a match and concatenation of texts are those of their
  encodings. White space, case and line ends are the ASCII ones. SHA-256 is an argument
  of the definitions that hash (\<open>sha\<close>, bytes to hexadecimal digest).
\<close>

type_synonym bytes = string

section \<open>UTF-8\<close>

text \<open>The ranges of the continuation bytes a leading byte announces.\<close>

definition utf8_tail :: "char \<Rightarrow> (nat \<times> nat) list option" where
  "utf8_tail c =
     (let n = of_char c :: nat; t = (128, 191)
      in if n < 128 then Some []
         else if 194 \<le> n \<and> n \<le> 223 then Some [t]
         else if n = 224 then Some [(160, 191), t]
         else if n = 237 then Some [(128, 159), t]
         else if 225 \<le> n \<and> n \<le> 239 then Some [t, t]
         else if n = 240 then Some [(144, 191), t, t]
         else if 241 \<le> n \<and> n \<le> 243 then Some [t, t, t]
         else if n = 244 then Some [(128, 143), t, t]
         else None)"

fun utf8_run :: "(nat \<times> nat) list \<Rightarrow> bytes \<Rightarrow> bool" where
  "utf8_run [] [] = True"
| "utf8_run (r # rs) [] = False"
| "utf8_run [] (c # cs) = (case utf8_tail c of None \<Rightarrow> False | Some rs \<Rightarrow> utf8_run rs cs)"
| "utf8_run ((lo, hi) # rs) (c # cs) = (lo \<le> of_char c \<and> of_char c \<le> hi \<and> utf8_run rs cs)"

text \<open>\<open>data.decode("utf-8")\<close> does not raise.\<close>

definition is_utf8 :: "bytes \<Rightarrow> bool" where
  "is_utf8 data = utf8_run [] data"

definition utf8_decode :: "bytes \<Rightarrow> string option" where
  "utf8_decode data = (if is_utf8 data then Some data else None)"

section \<open>Base64\<close>

definition b64_char :: "nat \<Rightarrow> char" where
  "b64_char n =
     (if n < 26 then char_of (65 + n) else if n < 52 then char_of (71 + n)
      else if n < 62 then char_of (n - 4) else if n = 62 then CHR ''+'' else CHR ''/'')"

definition b64_val :: "char \<Rightarrow> nat option" where
  "b64_val c =
     (let n = of_char c :: nat
      in if 65 \<le> n \<and> n \<le> 90 then Some (n - 65)
         else if 97 \<le> n \<and> n \<le> 122 then Some (n - 71)
         else if 48 \<le> n \<and> n \<le> 57 then Some (n + 4)
         else if c = CHR ''+'' then Some 62
         else if c = CHR ''/'' then Some 63 else None)"

fun b64encode :: "bytes \<Rightarrow> string" where
  "b64encode [] = []"
| "b64encode [a] =
     (let n = of_char a :: nat in [b64_char (n div 4), b64_char (n mod 4 * 16), CHR ''='', CHR ''=''])"
| "b64encode [a, b] =
     (let n = of_char a :: nat; m = of_char b :: nat
      in [b64_char (n div 4), b64_char (n mod 4 * 16 + m div 16), b64_char (m mod 16 * 4), CHR ''=''])"
| "b64encode (a # b # c # cs) =
     (let n = of_char a :: nat; m = of_char b :: nat; k = of_char c :: nat
      in [b64_char (n div 4), b64_char (n mod 4 * 16 + m div 16), b64_char (m mod 16 * 4 + k div 64),
          b64_char (k mod 64)] @ b64encode cs)"

text \<open>\<open>b64decode(s, validate=True)\<close>: padding only at the end; \<open>None\<close> where it raises.\<close>

definition b64_byte1 :: "nat \<Rightarrow> nat \<Rightarrow> char" where
  "b64_byte1 w x = char_of (w * 4 + x div 16)"

definition b64_byte2 :: "nat \<Rightarrow> nat \<Rightarrow> char" where
  "b64_byte2 x y = char_of (x mod 16 * 16 + y div 4)"

definition b64_byte3 :: "nat \<Rightarrow> nat \<Rightarrow> char" where
  "b64_byte3 y z = char_of (y mod 4 * 64 + z)"

definition b64_quad :: "char \<Rightarrow> char \<Rightarrow> char \<Rightarrow> char \<Rightarrow> bytes option" where
  "b64_quad w x y z =
     (case (b64_val w, b64_val x, b64_val y, b64_val z) of
        (Some a, Some b, Some c, Some d) \<Rightarrow> Some [b64_byte1 a b, b64_byte2 b c, b64_byte3 c d]
      | _ \<Rightarrow> None)"

definition b64_last :: "char \<Rightarrow> char \<Rightarrow> char \<Rightarrow> char \<Rightarrow> bytes option" where
  "b64_last w x y z =
     (case (b64_val w, b64_val x, b64_val y) of
        (Some a, Some b, Some c) \<Rightarrow> if z = CHR ''='' then Some [b64_byte1 a b, b64_byte2 b c] else None
      | (Some a, Some b, None) \<Rightarrow>
          if y = CHR ''='' \<and> z = CHR ''='' then Some [b64_byte1 a b] else None
      | _ \<Rightarrow> None)"

fun b64decode :: "string \<Rightarrow> bytes option" where
  "b64decode [] = Some []"
| "b64decode (w # x # y # z # rest) =
     (case b64_quad w x y z of
        Some g \<Rightarrow> map_option (\<lambda>r. g @ r) (b64decode rest)
      | None \<Rightarrow> if rest = [] then b64_last w x y z else None)"
| "b64decode _ = None"

lemma b64_val_char: "n < 64 \<Longrightarrow> b64_val (b64_char n) = Some n"
  by (auto simp: b64_char_def b64_val_def Let_def not_less)

lemma b64_val_pad: "b64_val (CHR ''='') = None"
  by (simp add: b64_val_def)

lemma byte_bound: "(of_char c :: nat) < 256"
  by (rule nat_of_char_less_256)

lemma b64_parts:
  fixes n m k :: nat
  assumes "n < 256" "m < 256" "k < 256"
  shows "n div 4 < 64" "n mod 4 * 16 < 64" "n mod 4 * 16 + m div 16 < 64" "m mod 16 * 4 < 64"
    "m mod 16 * 4 + k div 64 < 64" "k mod 64 < 64"
proof -
  have q: "n div 4 < 64" "m div 16 < 16" "k div 64 < 4" using assms by auto
  have r: "n mod 4 < 4" "m mod 16 < 16" "k mod 64 < 64" by simp_all
  show "n div 4 < 64" by (rule q)
  show "n mod 4 * 16 < 64" using r by linarith
  show "n mod 4 * 16 + m div 16 < 64" using q r by linarith
  show "m mod 16 * 4 < 64" using r by linarith
  show "m mod 16 * 4 + k div 64 < 64" using q r by linarith
  show "k mod 64 < 64" by (rule r)
qed

lemma b64_bytes:
  assumes "n = of_char a" "m = of_char b" "k = of_char c"
  shows "b64_byte1 (n div 4) (n mod 4 * 16) = a"
    "b64_byte1 (n div 4) (n mod 4 * 16 + m div 16) = a"
    "b64_byte2 (n mod 4 * 16 + m div 16) (m mod 16 * 4) = b"
    "b64_byte2 (n mod 4 * 16 + m div 16) (m mod 16 * 4 + k div 64) = b"
    "b64_byte3 (m mod 16 * 4 + k div 64) (k mod 64) = c"
proof -
  have lt: "n < 256" "m < 256" "k < 256" using assms by (simp_all add: byte_bound)
  have "n div 4 * 4 + n mod 4 * 16 div 16 = n"
    "n div 4 * 4 + (n mod 4 * 16 + m div 16) div 16 = n"
    "(n mod 4 * 16 + m div 16) mod 16 * 16 + m mod 16 * 4 div 4 = m"
    "(n mod 4 * 16 + m div 16) mod 16 * 16 + (m mod 16 * 4 + k div 64) div 4 = m"
    "(m mod 16 * 4 + k div 64) mod 4 * 64 + k mod 64 = k"
  proof -
    have q: "m div 16 < 16" "k div 64 < 4" using lt by auto
    then show "n div 4 * 4 + n mod 4 * 16 div 16 = n"
      "n div 4 * 4 + (n mod 4 * 16 + m div 16) div 16 = n"
      "(n mod 4 * 16 + m div 16) mod 16 * 16 + m mod 16 * 4 div 4 = m"
      "(n mod 4 * 16 + m div 16) mod 16 * 16 + (m mod 16 * 4 + k div 64) div 4 = m"
      "(m mod 16 * 4 + k div 64) mod 4 * 64 + k mod 64 = k"
      by simp_all
  qed
  with assms show "b64_byte1 (n div 4) (n mod 4 * 16) = a"
    "b64_byte1 (n div 4) (n mod 4 * 16 + m div 16) = a"
    "b64_byte2 (n mod 4 * 16 + m div 16) (m mod 16 * 4) = b"
    "b64_byte2 (n mod 4 * 16 + m div 16) (m mod 16 * 4 + k div 64) = b"
    "b64_byte3 (m mod 16 * 4 + k div 64) (k mod 64) = c"
    unfolding b64_byte1_def b64_byte2_def b64_byte3_def by (simp_all only: char_of_char)
qed

lemma b64_round_trip: "b64decode (b64encode data) = Some data"
proof (induction data rule: b64encode.induct)
  case 1
  then show ?case by simp
next
  case (2 a)
  note p = b64_parts [OF byte_bound [of a] byte_bound [of a] byte_bound [of a]]
  show ?case
    by (simp add: Let_def b64_quad_def b64_last_def b64_val_pad b64_val_char p b64_bytes [OF refl refl refl])
next
  case (3 a b)
  note p = b64_parts [OF byte_bound [of a] byte_bound [of b] byte_bound [of b]]
  show ?case
    by (simp add: Let_def b64_quad_def b64_last_def b64_val_pad b64_val_char p b64_bytes [OF refl refl refl])
next
  case (4 a b c cs)
  note p = b64_parts [OF byte_bound [of a] byte_bound [of b] byte_bound [of c]]
  from 4 show ?case
    by (simp add: Let_def b64_quad_def b64_val_char p b64_bytes [OF refl refl refl])
qed

section \<open>Text\<close>

definition ascii_space :: "char \<Rightarrow> bool" where
  "ascii_space c \<longleftrightarrow> of_char c \<in> ({9, 10, 11, 12, 13, 28, 29, 30, 31, 32} :: nat set)"

definition text_strip :: "string \<Rightarrow> string" where
  "text_strip s = rev (dropWhile ascii_space (rev (dropWhile ascii_space s)))"

definition ascii_lower :: "char \<Rightarrow> char" where
  "ascii_lower c = (let n = of_char c :: nat in if 65 \<le> n \<and> n \<le> 90 then char_of (n + 32) else c)"

definition text_lower :: "string \<Rightarrow> string" where
  "text_lower s = map ascii_lower s"

text \<open>\<open>s.split(c)\<close> for a single character.\<close>

fun split_char :: "char \<Rightarrow> string \<Rightarrow> string list" where
  "split_char c [] = [[]]"
| "split_char c (x # xs) =
     (if x = c then [] # split_char c xs
      else (case split_char c xs of [] \<Rightarrow> [[x]] | p # ps \<Rightarrow> (x # p) # ps))"

text \<open>\<open>s.split()\<close>: the maximal runs of characters that are not white space.\<close>

fun split_words :: "string \<Rightarrow> string list" where
  "split_words [] = []"
| "split_words (x # xs) =
     (if ascii_space x then split_words xs
      else (case xs of
              [] \<Rightarrow> [[x]]
            | y # ys \<Rightarrow> if ascii_space y then [x] # split_words xs
                      else (case split_words xs of [] \<Rightarrow> [[x]] | p # ps \<Rightarrow> (x # p) # ps)))"

text \<open>\<open>s.splitlines()\<close> with the ASCII line ends.\<close>

definition line_end :: "char \<Rightarrow> bool" where
  "line_end c \<longleftrightarrow> of_char c \<in> ({10, 11, 12, 13, 28, 29, 30} :: nat set)"

fun splitlines_from :: "string \<Rightarrow> string \<Rightarrow> string list" where
  "splitlines_from acc [] = (if acc = [] then [] else [rev acc])"
| "splitlines_from acc (c # cs) =
     (if c = CHR 0x0D
      then (case cs of
              [] \<Rightarrow> [rev acc]
            | d # ds \<Rightarrow> rev acc # splitlines_from [] (if d = CHR 0x0A then ds else cs))
      else if line_end c then rev acc # splitlines_from [] cs
      else splitlines_from (c # acc) cs)"

definition splitlines :: "string \<Rightarrow> string list" where
  "splitlines s = splitlines_from [] s"

fun starts_with :: "string \<Rightarrow> string \<Rightarrow> bool" where
  "starts_with [] s = True"
| "starts_with (p # ps) s = (case s of [] \<Rightarrow> False | c # cs \<Rightarrow> c = p \<and> starts_with ps cs)"

definition ends_with :: "string \<Rightarrow> string \<Rightarrow> bool" where
  "ends_with p s = starts_with (rev p) (rev s)"

text \<open>\<open>str(v or "")\<close> and \<open>str(v or d)\<close>.\<close>

definition str_or :: "pyval \<Rightarrow> string \<Rightarrow> string" where
  "str_or v d = py_str (py_or v (PStr d))"

section \<open>JSON text\<close>

text \<open>
  \<open>json.dumps(s)\<close> of a text, for the texts the request hashes are made of: names,
  digests and operation names are ASCII.
\<close>

definition json_char :: "char \<Rightarrow> string" where
  "json_char c =
     (let n = of_char c :: nat
      in if n = 34 \<or> n = 92 then [CHR 0x5C, c]
         else if n = 8 then [CHR 0x5C, CHR ''b''] else if n = 9 then [CHR 0x5C, CHR ''t'']
         else if n = 10 then [CHR 0x5C, CHR ''n''] else if n = 12 then [CHR 0x5C, CHR ''f'']
         else if n = 13 then [CHR 0x5C, CHR ''r'']
         else if n < 32
         then [CHR 0x5C, CHR ''u'', CHR ''0'', CHR ''0'', hex_digit (n div 16), hex_digit (n mod 16)]
         else [c])"

definition json_str :: "string \<Rightarrow> string" where
  "json_str s = CHR 0x22 # concat (map json_char s) @ [CHR 0x22]"

end
