(* ===== verification/Bundle.thy ===== *)
theory Bundle imports Bytes begin

text \<open>
  Multi-file skill bundles: the in-memory functions of team\_skills/library/bundle.py.
  A bundle is its dict of files in insertion order. Raises are \<open>Inl\<close>. The functions that
  read or write a directory are left out; \<open>difflib.unified_diff\<close> is the argument \<open>udiff\<close>.
\<close>

section \<open>Paths\<close>

abbreviation bundle_error :: "string \<Rightarrow> pyexc" where
  "bundle_error msg \<equiv> PyExc ''SkillBundleError'' msg"

definition ignored_names :: "string list" where
  "ignored_names = [''.DS_Store'']"

definition ignored_dir_names :: "string list" where
  "ignored_dir_names = [''.git'', ''__pycache__'', ''.pytest_cache'', ''.mypy_cache'', ''.ruff_cache'']"

definition ignored_suffixes :: "string list" where
  "ignored_suffixes = [''.pyc'', ''.pyo'']"

text \<open>\<open>PurePosixPath(value).parts\<close>: a root of one slash, or of exactly two, is a part.\<close>

fun posix_root :: "string \<Rightarrow> string \<times> string" where
  "posix_root [] = ([], [])"
| "posix_root (c # cs) =
     (if c \<noteq> CHR ''/'' then ([], c # cs)
      else (case cs of
              [] \<Rightarrow> (''/'', [])
            | d # ds \<Rightarrow> if d = CHR ''/'' \<and> \<not> starts_with ''/'' ds then (''//'', ds) else (''/'', cs)))"

definition path_parts :: "string \<Rightarrow> string list" where
  "path_parts v =
     (let (root, rel) = posix_root v;
          tail = filter (\<lambda>p. p \<noteq> [] \<and> p \<noteq> ''.'') (split_char (CHR ''/'') rel)
      in if root = [] then tail else root # tail)"

definition normalize_bundle_rel_path :: "string \<Rightarrow> pyexc + string" where
  "normalize_bundle_rel_path rel_path =
     (let value = py_replace_char (CHR 0x5C) (CHR ''/'') (text_strip rel_path)
      in if value = [] then Inl (bundle_error ''Bundle path must not be empty'')
         else let parts = path_parts value
           in if parts = [] then Inl (bundle_error ''Bundle path must not be empty'')
              else if \<exists>p\<in>set parts. p \<in> {'''', ''.'', ''..''}
              then Inl (bundle_error (''Unsafe bundle path: '' @ repr_str rel_path))
              else Inr (join_with ''/'' parts))"

definition is_ignored_bundle_rel_path :: "string \<Rightarrow> pyexc + bool" where
  "is_ignored_bundle_rel_path rel_path =
     bindE (normalize_bundle_rel_path rel_path) (\<lambda>n.
       let parts = path_parts n
       in if parts = [] then Inl (PyExc ''IndexError'' '''')
          else let leaf = last parts
            in Inr ((\<exists>p\<in>set (butlast parts). p \<in> set ignored_dir_names) \<or> leaf \<in> set ignored_names \<or>
                    (\<exists>s\<in>set ignored_suffixes. ends_with s leaf)))"

section \<open>Bundles\<close>

datatype bundle_data = BytesData bytes | TextData string | OtherData string

type_synonym bundle_files = "(string \<times> bundle_data) list"
type_synonym skill_bundle = "(string \<times> bytes) list"

definition coerce_bytes :: "bundle_data \<Rightarrow> pyexc + bytes" where
  "coerce_bytes d =
     (case d of
        BytesData b \<Rightarrow> Inr b
      | TextData s \<Rightarrow> Inr s
      | OtherData t \<Rightarrow> Inl (PyExc ''TypeError'' (''Unsupported bundle payload type: '' @ t)))"

text \<open>\<open>bundle[path] = data\<close>.\<close>

fun bput :: "string \<Rightarrow> 'v \<Rightarrow> (string \<times> 'v) list \<Rightarrow> (string \<times> 'v) list" where
  "bput k v [] = [(k, v)]"
| "bput k v ((k', v') # b) = (if k' = k then (k, v) # b else (k', v') # bput k v b)"

definition coerce_file :: "string \<times> bundle_data \<Rightarrow> skill_bundle \<Rightarrow> pyexc + skill_bundle" where
  "coerce_file = (\<lambda>(raw_rel_path, raw_data) b.
     bindE (normalize_bundle_rel_path raw_rel_path) (\<lambda>rel_path.
     bindE (is_ignored_bundle_rel_path rel_path) (\<lambda>ignored.
       if ignored then Inr b
       else bindE (coerce_bytes raw_data) (\<lambda>d. Inr (bput rel_path d b)))))"

definition coerce_skill_bundle :: "bundle_files \<Rightarrow> pyexc + skill_bundle" where
  "coerce_skill_bundle files = foldE coerce_file files []"

text \<open>A bundle of bytes passed where any bundle is expected.\<close>

definition as_files :: "skill_bundle \<Rightarrow> bundle_files" where
  "as_files b = map (\<lambda>(p, d). (p, BytesData d)) b"

record file_record =
  fr_path :: string
  fr_sha256 :: string
  fr_size :: int

definition file_record_of :: "(bytes \<Rightarrow> string) \<Rightarrow> string \<times> bytes \<Rightarrow> file_record" where
  "file_record_of sha = (\<lambda>(p, d). \<lparr>fr_path = p, fr_sha256 = sha d, fr_size = int (length d)\<rparr>)"

definition bundle_file_records :: "(bytes \<Rightarrow> string) \<Rightarrow> bundle_files \<Rightarrow> pyexc + file_record list" where
  "bundle_file_records sha files =
     bindE (coerce_skill_bundle files) (\<lambda>b. Inr (map (file_record_of sha) (sort_key fst b)))"

definition record_line :: "file_record \<Rightarrow> bytes" where
  "record_line r =
     fr_path r @ [CHR 0x00] @ fr_sha256 r @ [CHR 0x00] @ int_str (fr_size r) @ [CHR 0x0A]"

definition bundle_tree_sha256 :: "(bytes \<Rightarrow> string) \<Rightarrow> bundle_files \<Rightarrow> pyexc + string" where
  "bundle_tree_sha256 sha files =
     bindE (bundle_file_records sha files) (\<lambda>rs. Inr (sha (concat (map record_line rs))))"

definition bundle_entrypoint_bytes :: "bundle_files \<Rightarrow> string \<Rightarrow> pyexc + bytes" where
  "bundle_entrypoint_bytes files entrypoint =
     bindE (coerce_skill_bundle files) (\<lambda>b.
     bindE (normalize_bundle_rel_path entrypoint) (\<lambda>key.
       case map_of b key of
         None \<Rightarrow> Inl (bundle_error (''Skill bundle is missing required entrypoint '' @ key))
       | Some d \<Rightarrow> Inr d))"

definition bundle_has_only_entrypoint :: "bundle_files \<Rightarrow> string \<Rightarrow> pyexc + bool" where
  "bundle_has_only_entrypoint files entrypoint =
     bindE (coerce_skill_bundle files) (\<lambda>b.
     bindE (normalize_bundle_rel_path entrypoint) (\<lambda>key. Inr (set (map fst b) = {key})))"

section \<open>JSON payloads\<close>

definition encode_file :: "(bytes \<Rightarrow> string) \<Rightarrow> string \<times> bytes \<Rightarrow> pyval" where
  "encode_file sha = (\<lambda>(rel_path, d).
     let (content, encoding) =
           (case utf8_decode d of Some t \<Rightarrow> (t, ''utf-8'') | None \<Rightarrow> (b64encode d, ''base64''))
     in PDict [(''path'', PStr rel_path), (''encoding'', PStr encoding), (''content'', PStr content),
               (''sha256'', PStr (sha d)), (''size'', PInt (int (length d)))])"

definition encode_bundle_payload :: "(bytes \<Rightarrow> string) \<Rightarrow> bundle_files \<Rightarrow> pyexc + pydict" where
  "encode_bundle_payload sha files =
     bindE (coerce_skill_bundle files) (\<lambda>b.
     bindE (bundle_tree_sha256 sha (as_files b)) (\<lambda>tree.
       Inr [(''format'', PStr ''skill-bundle''), (''entrypoint'', PStr ''SKILL.md''),
            (''tree_sha256'', PStr tree), (''files'', PList (map (encode_file sha) (sort_key fst b)))]))"

definition decode_content :: "pydict \<Rightarrow> string \<Rightarrow> pyexc + bytes" where
  "decode_content item rel_path =
     (let encoding = text_lower (str_or (dget_none item ''encoding'') ''utf-8'')
      in case dget_none item ''content'' of
           PStr content \<Rightarrow>
             if encoding = ''utf-8'' then Inr content
             else if encoding = ''base64''
             then (case b64decode content of
                     None \<Rightarrow> Inl (bundle_error (''Invalid base64 bundle content: '' @ rel_path))
                   | Some d \<Rightarrow> Inr d)
             else Inl (bundle_error (''Unsupported bundle encoding '' @ repr_str encoding @ '': '' @ rel_path))
         | _ \<Rightarrow> Inl (bundle_error (''Bundle content must be text: '' @ rel_path)))"

definition check_size :: "pyval \<Rightarrow> bytes \<Rightarrow> string \<Rightarrow> pyexc + unit" where
  "check_size declared d rel_path =
     (if declared = PNone then Inr ()
      else bindE (py_int declared) (\<lambda>n.
        if n \<noteq> int (length d) then Inl (bundle_error (''Bundle size mismatch: '' @ rel_path)) else Inr ()))"

definition decode_file :: "(bytes \<Rightarrow> string) \<Rightarrow> pyval \<Rightarrow> skill_bundle \<Rightarrow> pyexc + skill_bundle" where
  "decode_file sha v b =
     (case v of
        PDict item \<Rightarrow>
          bindE (normalize_bundle_rel_path (str_or (dget_none item ''path'') '''')) (\<lambda>rel_path.
            if rel_path \<in> fst ` set b then Inl (bundle_error (''Duplicate bundle path: '' @ rel_path))
            else bindE (decode_content item rel_path) (\<lambda>d.
              bindE (check_size (dget_none item ''size'') d rel_path) (\<lambda>_.
                let declared_sha = str_or (dget_none item ''sha256'') ''''
                in if declared_sha \<noteq> '''' \<and> declared_sha \<noteq> sha d
                   then Inl (bundle_error (''Bundle hash mismatch: '' @ rel_path))
                   else Inr (bput rel_path d b))))
      | _ \<Rightarrow> Inl (bundle_error ''Bundle file entry must be an object''))"

definition decode_bundle_payload :: "(bytes \<Rightarrow> string) \<Rightarrow> pydict \<Rightarrow> pyexc + skill_bundle" where
  "decode_bundle_payload sha payload =
     (if str_or (dget_none payload ''format'') '''' \<noteq> ''skill-bundle''
      then Inl (bundle_error ''Unsupported bundle payload format'')
      else case dget_none payload ''files'' of
        PList raw_files \<Rightarrow>
          bindE (foldE (decode_file sha) raw_files []) (\<lambda>b.
          bindE (bundle_tree_sha256 sha (as_files b)) (\<lambda>actual_tree.
            let declared_tree = str_or (dget_none payload ''tree_sha256'') ''''
            in if declared_tree \<noteq> '''' \<and> declared_tree \<noteq> actual_tree
               then Inl (bundle_error ''Bundle tree hash mismatch'') else Inr b))
      | _ \<Rightarrow> Inl (bundle_error ''Bundle payload files must be a list''))"

definition candidate_skill_bundle :: "(bytes \<Rightarrow> string) \<Rightarrow> pydict \<Rightarrow> pyexc + skill_bundle" where
  "candidate_skill_bundle sha skill =
     (case dget_none skill ''bundle'' of
        PDict raw_bundle \<Rightarrow>
          bindE (decode_bundle_payload sha raw_bundle) (\<lambda>b.
          bindE (bundle_entrypoint_bytes (as_files b) ''SKILL.md'') (\<lambda>_. Inr b))
      | _ \<Rightarrow> Inl (bundle_error ''Skill candidate requires a canonical bundle''))"

section \<open>File-level diffs\<close>

definition diff_status :: "bytes option \<Rightarrow> bytes option \<Rightarrow> string" where
  "diff_status old_data new_data =
     (case old_data of
        None \<Rightarrow> ''added''
      | Some od \<Rightarrow> (case new_data of
                    None \<Rightarrow> ''deleted''
                  | Some nd \<Rightarrow> if od = nd then ''unchanged'' else ''modified''))"

definition diff_text :: "bytes option \<Rightarrow> string list option" where
  "diff_text d =
     (case d of None \<Rightarrow> Some [] | Some b \<Rightarrow> map_option splitlines (utf8_decode b))"

definition diff_file ::
  "(bytes \<Rightarrow> string) \<Rightarrow> (string list \<Rightarrow> string list \<Rightarrow> string \<Rightarrow> string \<Rightarrow> string list) \<Rightarrow>
   skill_bundle \<Rightarrow> skill_bundle \<Rightarrow> string \<Rightarrow> pydict" where
  "diff_file sha udiff old new rel_path =
     (let od = map_of old rel_path; nd = map_of new rel_path; status = diff_status od nd;
          size = (\<lambda>d. case d of None \<Rightarrow> PInt 0 | Some b \<Rightarrow> PInt (int (length b)));
          digest = (\<lambda>d. case d of None \<Rightarrow> PStr '''' | Some b \<Rightarrow> PStr (sha b))
      in [(''path'', PStr rel_path), (''status'', PStr status), (''old_sha256'', digest od),
          (''new_sha256'', digest nd), (''old_size'', size od), (''new_size'', size nd)] @
         (case (diff_text od, diff_text nd) of
            (Some ot, Some nt) \<Rightarrow>
              (''is_text'', PBool True) #
              (if status = ''unchanged'' then []
               else [(''diff'', PStr (join_with [CHR 0x0A]
                       (udiff ot nt (''current/'' @ rel_path) (''candidate/'' @ rel_path))))])
          | _ \<Rightarrow> [(''is_text'', PBool False)]))"

definition diff_skill_bundles ::
  "(bytes \<Rightarrow> string) \<Rightarrow> (string list \<Rightarrow> string list \<Rightarrow> string \<Rightarrow> string \<Rightarrow> string list) \<Rightarrow>
   bundle_files \<Rightarrow> bundle_files \<Rightarrow> pyexc + pydict" where
  "diff_skill_bundles sha udiff before after =
     bindE (coerce_skill_bundle before) (\<lambda>old.
     bindE (coerce_skill_bundle after) (\<lambda>new.
     bindE (bundle_tree_sha256 sha (as_files old)) (\<lambda>old_tree.
     bindE (bundle_tree_sha256 sha (as_files new)) (\<lambda>new_tree.
       let files = map (diff_file sha udiff old new) (sort (remdups (map fst old @ map fst new)))
       in Inr [(''before_tree_sha256'', PStr old_tree), (''after_tree_sha256'', PStr new_tree),
               (''changed_count'',
                PInt (int (length (filter (\<lambda>f. dget_none f ''status'' \<noteq> PStr ''unchanged'') files)))),
               (''files'', PList (map PDict files))]))))"

end
