(* ===== verification/Frontmatter.thy ===== *)
theory Frontmatter imports Bytes begin

text \<open>
  The SKILL.md wire format: team\_skills/library/frontmatter.py and render.py. PyYAML is
  two arguments: \<open>yaml_load\<close> (\<open>Inl\<close> is the message of a \<open>YAMLError\<close>) and \<open>yaml_dump\<close>; the
  mappings it returns have text keys. A text is its UTF-8 encoding (theory \<open>Bytes\<close>). The
  regular expressions are written out as the recognisers they are.
\<close>

section \<open>The frontmatter delimiters\<close>

definition skip_blanks :: "string \<Rightarrow> string" where
  "skip_blanks s = dropWhile (\<lambda>c. c = CHR '' '' \<or> c = CHR 0x09) s"

text \<open>\<open>\r?\n\<close>.\<close>

definition eat_newline :: "string \<Rightarrow> string option" where
  "eat_newline s =
     (case s of
        [] \<Rightarrow> None
      | c # cs \<Rightarrow>
          if c = CHR 0x0A then Some cs
          else if c = CHR 0x0D then (case cs of [] \<Rightarrow> None | d # ds \<Rightarrow> if d = CHR 0x0A then Some ds else None)
          else None)"

text \<open>\<open>\A---[ \t]*\r?\n\<close>.\<close>

definition open_fence :: "string \<Rightarrow> string option" where
  "open_fence s = (if starts_with ''---'' s then eat_newline (skip_blanks (drop 3 s)) else None)"

text \<open>\<open>(?:\r?\n)---[ \t]*(?:\r?\n|\Z)\<close>.\<close>

definition close_fence :: "string \<Rightarrow> string option" where
  "close_fence s =
     (case eat_newline s of
        None \<Rightarrow> None
      | Some t \<Rightarrow>
          if starts_with ''---'' t
          then let u = skip_blanks (drop 3 t) in if u = [] then Some [] else eat_newline u
          else None)"

fun until_close :: "string \<Rightarrow> (string \<times> string) option" where
  "until_close s =
     (case close_fence s of
        Some body \<Rightarrow> Some ([], body)
      | None \<Rightarrow> (case s of
                  [] \<Rightarrow> None
                | c # cs \<Rightarrow> map_option (\<lambda>(header, body). (c # header, body)) (until_close cs)))"

declare until_close.simps [simp del]

definition split_frontmatter :: "string \<Rightarrow> (string \<times> string) option" where
  "split_frontmatter raw =
     (case open_fence raw of
        None \<Rightarrow> None
      | Some rest \<Rightarrow> map_option (\<lambda>(header, body). (text_strip header, text_strip body)) (until_close rest))"

definition split_skill_md :: "bool \<Rightarrow> string \<Rightarrow> pyexc + (string \<times> string) option" where
  "split_skill_md strict raw =
     (let sp = split_frontmatter raw
      in if sp = None \<and> strict \<and> starts_with ''---'' raw
         then Inl (PyExc ''ValueError'' ''SKILL.md has an unterminated YAML frontmatter block'')
         else Inr sp)"

definition single_line :: "pyval \<Rightarrow> string" where
  "single_line value = join_with '' '' (split_words (str_or value ''''))"

section \<open>Validation\<close>

text \<open>\<open>re.match(r"^description\s*:", line)\<close>, and what follows the first colon.\<close>

definition description_line :: "string \<Rightarrow> bool" where
  "description_line line \<longleftrightarrow>
     starts_with ''description'' line \<and> starts_with '':'' (dropWhile ascii_space (drop 11 line))"

definition after_colon :: "string \<Rightarrow> string" where
  "after_colon line = drop 1 (dropWhile (\<lambda>c. c \<noteq> CHR '':'') line)"

fun index_where :: "('a \<Rightarrow> bool) \<Rightarrow> 'a list \<Rightarrow> nat option" where
  "index_where P [] = None"
| "index_where P (x # xs) = (if P x then Some 0 else map_option Suc (index_where P xs))"

definition check_description_line :: "string list \<Rightarrow> pyexc + unit" where
  "check_description_line header_lines =
     (case index_where description_line header_lines of
        None \<Rightarrow> Inl (PyExc ''ValueError'' ''description must be encoded on one physical line'')
      | Some i \<Rightarrow>
          if text_strip (after_colon (header_lines ! i)) = ''''
          then Inl (PyExc ''ValueError'' ''description must be encoded on one physical line'')
          else if i + 1 < length header_lines \<and>
                  (starts_with '' '' (header_lines ! (i + 1)) \<or> starts_with [CHR 0x09] (header_lines ! (i + 1)))
          then Inl (PyExc ''ValueError'' ''description must not use a folded YAML continuation'')
          else Inr ())"

definition check_skill_fields :: "pydict \<Rightarrow> string \<Rightarrow> pyexc + unit" where
  "check_skill_fields values expected_name =
     (let name = text_strip (str_or (dget_none values ''name'') '''');
          description = text_strip (str_or (dget_none values ''description'') '''')
      in if name = '''' then Inl (PyExc ''ValueError'' ''SKILL.md frontmatter requires name'')
         else if expected_name \<noteq> '''' \<and> name \<noteq> expected_name
         then Inl (PyExc ''ValueError'' (''SKILL.md name '' @ repr_str name @
                     '' does not match expected '' @ repr_str expected_name))
         else if description = '''' then Inl (PyExc ''ValueError'' ''SKILL.md frontmatter requires description'')
         else Inr ())"

definition validate_skill_md ::
  "(string \<Rightarrow> string + pyval) \<Rightarrow> bytes \<Rightarrow> string \<Rightarrow> pyexc + (pydict \<times> string)" where
  "validate_skill_md yaml_load raw expected_name =
     (case utf8_decode raw of
        None \<Rightarrow> Inl (PyExc ''ValueError'' ''SKILL.md must be UTF-8'')
      | Some text_ \<Rightarrow>
          bindE (split_skill_md True text_) (\<lambda>sp.
            case sp of
              None \<Rightarrow> Inl (PyExc ''ValueError'' ''SKILL.md must start with YAML frontmatter'')
            | Some (header, body) \<Rightarrow>
                (case yaml_load header of
                   Inl msg \<Rightarrow> Inl (PyExc ''ValueError'' (''SKILL.md frontmatter is invalid YAML: '' @ msg))
                 | Inr loaded \<Rightarrow>
                     (case py_or loaded (PDict []) of
                        PDict values \<Rightarrow>
                          bindE (check_skill_fields values expected_name) (\<lambda>_.
                          bindE (check_description_line (splitlines header)) (\<lambda>_.
                            if starts_with ''---'' body
                            then Inl (PyExc ''ValueError'' ''SKILL.md body contains a second leading frontmatter block'')
                            else Inr (values, body)))
                      | _ \<Rightarrow> Inl (PyExc ''ValueError'' ''SKILL.md frontmatter must be a mapping'')))))"

section \<open>Rendering\<close>

definition drop_keys :: "string list \<Rightarrow> pydict \<Rightarrow> pydict" where
  "drop_keys ks d = filter (\<lambda>(k, v). k \<notin> set ks) d"

definition embedded_frontmatter ::
  "(string \<Rightarrow> string + pyval) \<Rightarrow> string \<Rightarrow> pyexc + (pydict \<times> string)" where
  "embedded_frontmatter yaml_load body =
     (if \<not> starts_with ''---'' body then Inr ([], body)
      else bindE (split_skill_md True body) (\<lambda>sp.
        case sp of
          None \<Rightarrow> Inl (PyExc ''ValueError'' ''invalid embedded SKILL.md frontmatter'')
        | Some (header, rest) \<Rightarrow>
            (case yaml_load header of
               Inl msg \<Rightarrow> Inl (PyExc ''ValueError'' (''embedded SKILL.md frontmatter is invalid: '' @ msg))
             | Inr loaded \<Rightarrow>
                 (case py_or loaded (PDict []) of
                    PDict parsed \<Rightarrow> Inr (drop_keys [''name'', ''description'', ''category''] parsed, rest)
                  | _ \<Rightarrow> Inl (PyExc ''ValueError'' ''embedded SKILL.md frontmatter must be a mapping'')))))"

text \<open>
  \<open>extra_frontmatter\<close> and \<open>metadata\<close> are dicts, or \<open>[]\<close> where the caller passes \<open>None\<close>: an
  empty one is treated alike.
\<close>

definition render_skill_md ::
  "(string \<Rightarrow> string + pyval) \<Rightarrow> (pydict \<Rightarrow> string) \<Rightarrow> pyval \<Rightarrow> pyval \<Rightarrow> pyval \<Rightarrow> pyval \<Rightarrow>
   pydict \<Rightarrow> pydict \<Rightarrow> pyexc + string" where
  "render_skill_md yaml_load yaml_dump name description category content extra_frontmatter metadata =
     (let normalized_name = text_strip (str_or name '''');
          normalized_description = single_line description;
          stripped_category = text_strip (str_or category ''general'');
          normalized_category = (if stripped_category = '''' then ''general'' else stripped_category)
      in if normalized_name = '''' then Inl (PyExc ''ValueError'' ''skill name must not be empty'')
         else if normalized_description = ''''
         then Inl (PyExc ''ValueError'' ''skill description must not be empty'')
         else bindE (embedded_frontmatter yaml_load (str_or content '''')) (\<lambda>(embedded, body).
           let fields = dput ''category'' (PStr normalized_category)
                 (dput ''description'' (PStr normalized_description)
                   (dput ''name'' (PStr normalized_name) (dmerge embedded extra_frontmatter)));
               frontmatter_values = (if metadata = [] then fields else dput ''metadata'' (PDict metadata) fields);
               header = text_strip (yaml_dump frontmatter_values);
               rendered = ''---'' @ [CHR 0x0A] @ header @ [CHR 0x0A] @ ''---'' @ [CHR 0x0A, CHR 0x0A] @
                 text_strip body @ [CHR 0x0A]
           in bindE (validate_skill_md yaml_load rendered normalized_name) (\<lambda>_. Inr rendered)))"

definition build_skill_md ::
  "(string \<Rightarrow> string + pyval) \<Rightarrow> (pydict \<Rightarrow> string) \<Rightarrow> pydict \<Rightarrow> pyexc + string" where
  "build_skill_md yaml_load yaml_dump skill =
     render_skill_md yaml_load yaml_dump
       (dget_or skill ''name'' (PStr ''unknown'')) (dget_or skill ''description'' (PStr ''''))
       (dget_or skill ''category'' (PStr ''general'')) (dget_or skill ''content'' (PStr ''''))
       (as_dict (dget_none skill ''extra_frontmatter'')) (as_dict (dget_none skill ''metadata''))"

section \<open>Manifest metadata\<close>

definition load_frontmatter :: "(string \<Rightarrow> string + pyval) \<Rightarrow> string \<Rightarrow> pydict option" where
  "load_frontmatter yaml_load raw =
     (case split_frontmatter raw of
        None \<Rightarrow> None
      | Some (fm_text, body) \<Rightarrow>
          (case yaml_load fm_text of
             Inl msg \<Rightarrow> Some []
           | Inr loaded \<Rightarrow> (case py_or loaded (PDict []) of PDict fm \<Rightarrow> Some fm | _ \<Rightarrow> None)))"

definition resolve_category :: "pydict \<Rightarrow> string option" where
  "resolve_category fm =
     (let ns_meta = (case dget_none fm ''metadata'' of
                       PDict m \<Rightarrow> dget_or m ''teamEvolver'' (PDict [])
                     | _ \<Rightarrow> PDict [])
      in if truthy (dget_none (as_dict ns_meta) ''category'')
         then Some (text_strip (py_str (dget_none (as_dict ns_meta) ''category'')))
         else if truthy (dget_none fm ''category'')
         then Some (text_strip (py_str (dget_none fm ''category'')))
         else None)"

definition runtime_policy_of :: "pydict \<Rightarrow> pyexc + pydict option" where
  "runtime_policy_of fm =
     (let portable = dget_none fm ''portable''; supported = dget_none fm ''supported_runtimes''
      in if is_bool portable \<or> is_list supported
         then bindE (py_iter (py_or supported (PList []))) (\<lambda>items.
           Inr (Some [(''portable'', PBool (truthy portable)),
                      (''supported_runtimes'',
                       PList (map (\<lambda>v. PStr (text_lower (text_strip (py_str v))))
                         (filter (\<lambda>v. text_strip (py_str v) \<noteq> '''') items)))]))
         else Inr None)"

definition apply_frontmatter :: "pydict \<Rightarrow> pydict option \<Rightarrow> pyexc + pydict" where
  "apply_frontmatter entry fm =
     (case fm of
        None \<Rightarrow> Inr entry
      | Some values \<Rightarrow>
          if values = [] then Inr entry
          else
            let desc = dget_none values ''description'';
                e1 = (if truthy desc then dput ''description'' (PStr (text_strip (py_str desc))) entry else entry);
                e2 = (case resolve_category values of
                        Some c \<Rightarrow> if c \<noteq> '''' then dput ''category'' (PStr c) e1 else e1
                      | None \<Rightarrow> e1)
            in bindE (runtime_policy_of values) (\<lambda>policy.
                 Inr (case policy of Some p \<Rightarrow> dput ''runtime_policy'' (PDict p) e2 | None \<Rightarrow> e2)))"

text \<open>
  \<open>decode("utf-8", errors="replace")\<close> is the identity on the UTF-8 documents validation lets
  through; the replacement of malformed bytes is not modelled.
\<close>

definition enrich_manifest_entry_from_raw ::
  "(string \<Rightarrow> string + pyval) \<Rightarrow> pydict \<Rightarrow> bytes \<Rightarrow> pyexc + pydict" where
  "enrich_manifest_entry_from_raw yaml_load entry raw =
     apply_frontmatter entry (load_frontmatter yaml_load raw)"

definition parse_skill_md_text :: "(string \<Rightarrow> string + pyval) \<Rightarrow> string \<Rightarrow> (string \<times> string) option" where
  "parse_skill_md_text yaml_load raw =
     (case split_frontmatter raw of
        None \<Rightarrow> None
      | Some (fm_text, body) \<Rightarrow>
          (case yaml_load fm_text of
             Inl msg \<Rightarrow> None
           | Inr loaded \<Rightarrow>
               (case py_or loaded (PDict []) of
                  PDict fm \<Rightarrow>
                    let name = text_strip (py_str (dget_or fm ''name'' (PStr '''')));
                        description = text_strip (py_str (dget_or fm ''description'' (PStr '''')))
                    in if name = '''' \<or> description = '''' then None else Some (name, description)
                | _ \<Rightarrow> None)))"

end
