(* ===== verification/Library.thy ===== *)
theory Library imports Bundle Frontmatter begin

text \<open>
  The skill library: team\_skills/library/repository.py over the tables of
  teamEvolver/database/schema/003\_skills.sql. Row-level security confines every statement
  to the bound tenant, so the state is that tenant's rows and the tenant column is left
  out. One call is one transaction: a raise (\<open>Inl\<close>) rolls it back and leaves no state. The
  head row lock serialises the calls on one skill. The database clock is an argument.
\<close>

section \<open>Rows\<close>

record skill_head =
  sk_name :: string
  sk_skill_id :: string
  sk_current_version :: int
  sk_deleted :: bool
  sk_description :: string
  sk_category :: string
  sk_sha256 :: string
  sk_tree_sha256 :: string
  sk_runtime_policy :: pydict
  sk_updated_by :: string
  sk_created_at :: rat
  sk_updated_at :: rat

record skill_version =
  sv_name :: string
  sv_version :: int
  sv_action :: string
  sv_deleted :: bool
  sv_sha256 :: string
  sv_tree_sha256 :: string
  sv_file_count :: int
  sv_total_bytes :: int
  sv_description :: string
  sv_category :: string
  sv_runtime_policy :: pydict
  sv_restored_from :: "int option"
  sv_mutation_id :: string
  sv_actor :: string
  sv_created_at :: rat

record version_file =
  vf_name :: string
  vf_version :: int
  vf_path :: string
  vf_sha256 :: string
  vf_size :: int

record skill_blob =
  sb_sha256 :: string
  sb_size :: int
  sb_content :: bytes

record skill_mutation =
  mu_id :: string
  mu_action :: string
  mu_name :: string
  mu_status :: string
  mu_version :: int
  mu_previous_version :: int
  mu_request_hash :: string
  mu_actor :: string
  mu_source :: string
  mu_metadata :: pydict
  mu_created_at :: rat

record library =
  lib_skills :: "skill_head list"
  lib_versions :: "skill_version list"
  lib_files :: "version_file list"
  lib_blobs :: "skill_blob list"
  lib_mutations :: "skill_mutation list"

record bundle_limits =
  bl_max_files :: int
  bl_max_bytes :: int
  bl_max_file_bytes :: int

definition default_bundle_limits :: bundle_limits where
  "default_bundle_limits =
     \<lparr>bl_max_files = 1024, bl_max_bytes = 64 * 1024 * 1024, bl_max_file_bytes = 16 * 1024 * 1024\<rparr>"

record skill_commit =
  sc_name :: string
  sc_action :: string
  sc_status :: string
  sc_version :: int
  sc_previous_version :: int
  sc_mutation_id :: string
  sc_replayed :: bool
  sc_restored_from :: "int option"
  sc_record :: "skill_head option"

section \<open>Names and request hashes\<close>

abbreviation library_error :: "string \<Rightarrow> pyexc" where
  "library_error msg \<equiv> PyExc ''SkillLibraryError'' msg"

abbreviation not_found :: "string \<Rightarrow> pyexc" where
  "not_found msg \<equiv> PyExc ''SkillNotFound'' msg"

abbreviation too_large :: "string \<Rightarrow> pyexc" where
  "too_large msg \<equiv> PyExc ''SkillBundleTooLarge'' msg"

definition status_code :: "pyexc \<Rightarrow> int option" where
  "status_code e =
     (case e of PyExc c msg \<Rightarrow>
        if c = ''SkillLibraryError'' then Some 400
        else if c = ''SkillNotFound'' then Some 404
        else if c \<in> {''SkillMutationConflict'', ''SkillVersionConflict'', ''CandidateStateError''} then Some 409
        else if c = ''SkillBundleTooLarge'' then Some 413
        else None)"

definition name_char :: "char \<Rightarrow> bool" where
  "name_char c =
     (let n = of_char c :: nat
      in 65 \<le> n \<and> n \<le> 90 \<or> 97 \<le> n \<and> n \<le> 122 \<or> 48 \<le> n \<and> n \<le> 57)"

text \<open>\<open>^[A-Za-z0-9][A-Za-z0-9._-]*$\<close> on a stripped value.\<close>

definition skill_name_ok :: "string \<Rightarrow> bool" where
  "skill_name_ok s =
     (case s of [] \<Rightarrow> False
      | c # cs \<Rightarrow> name_char c \<and> list_all (\<lambda>d. name_char d \<or> d \<in> set ''._-'') cs)"

definition editor_validate_skill_name :: "string \<Rightarrow> pyexc + string" where
  "editor_validate_skill_name name =
     (let value = text_strip name
      in if value = '''' then Inl (PyExc ''SkillEditorError'' ''Skill name must not be empty'')
         else if \<not> skill_name_ok value
         then Inl (PyExc ''SkillEditorError'' (''Invalid skill name '' @ repr_str name @
                     '': use letters, digits, '' @ [CHR 0x27] @ ''.'' @ [CHR 0x27] @ '', '' @
                     [CHR 0x27] @ ''-'' @ [CHR 0x27] @ '' or '' @ [CHR 0x27] @ ''_'' @ [CHR 0x27] @ '' only''))
         else Inr value)"

text \<open>\<open>except classes as exc: raise SkillLibraryError(str(exc))\<close>.\<close>

definition rethrow :: "string list \<Rightarrow> pyexc + 'a \<Rightarrow> pyexc + 'a" where
  "rethrow classes m =
     (case m of
        Inr x \<Rightarrow> Inr x
      | Inl (PyExc c msg) \<Rightarrow> if c \<in> set classes then Inl (library_error msg) else Inl (PyExc c msg))"

definition value_errors :: "string list" where
  "value_errors = [''ValueError'', ''SkillEditorError'', ''SkillBundleError'']"

definition validate_skill_name :: "string \<Rightarrow> pyexc + string" where
  "validate_skill_name name = rethrow value_errors (editor_validate_skill_name name)"

definition skill_id_for :: "(bytes \<Rightarrow> string) \<Rightarrow> string \<Rightarrow> string" where
  "skill_id_for sha name = take 12 (sha name)"

text \<open>The fields of the request as name and JSON text.\<close>

definition request_hash :: "(bytes \<Rightarrow> string) \<Rightarrow> (string \<times> string) list \<Rightarrow> string" where
  "request_hash sha payload =
     sha (''{'' @ join_with '','' (map (\<lambda>(k, v). json_str k @ '':'' @ v) (sort_key fst payload)) @ ''}'')"

section \<open>Validation and metadata\<close>

definition check_file_size :: "bundle_limits \<Rightarrow> string \<times> bytes \<Rightarrow> pyexc + int" where
  "check_file_size limits = (\<lambda>(rel_path, d).
     if int (length d) > bl_max_file_bytes limits
     then Inl (too_large (rel_path @ '' exceeds '' @ int_str (bl_max_file_bytes limits) @ '' bytes''))
     else Inr (int (length d)))"

definition validate_bundle ::
  "(string \<Rightarrow> string + pyval) \<Rightarrow> string \<Rightarrow> bundle_files \<Rightarrow> bundle_limits \<Rightarrow> pyexc + skill_bundle" where
  "validate_bundle yaml_load name files limits =
     bindE (rethrow (''TypeError'' # value_errors) (coerce_skill_bundle files)) (\<lambda>clean.
       case map_of clean ''SKILL.md'' of
         None \<Rightarrow> Inl (library_error ''skill bundle requires SKILL.md'')
       | Some entry \<Rightarrow>
           bindE (rethrow value_errors (validate_skill_md yaml_load entry name)) (\<lambda>_.
             if int (length clean) > bl_max_files limits
             then Inl (too_large (''skill bundle exceeds '' @ int_str (bl_max_files limits) @ '' files''))
             else bindE (mapE (check_file_size limits) clean) (\<lambda>sizes.
               if sum_list sizes > bl_max_bytes limits
               then Inl (too_large (''skill bundle exceeds '' @ int_str (bl_max_bytes limits) @ '' bytes''))
               else Inr clean)))"

record skill_meta =
  sm_sha256 :: string
  sm_tree_sha256 :: string
  sm_files :: "file_record list"
  sm_description :: string
  sm_category :: string
  sm_runtime_policy :: pydict

definition bundle_metadata ::
  "(bytes \<Rightarrow> string) \<Rightarrow> (string \<Rightarrow> string + pyval) \<Rightarrow> string \<Rightarrow> skill_bundle \<Rightarrow> pyexc + skill_meta" where
  "bundle_metadata sha yaml_load name b =
     (case map_of b ''SKILL.md'' of
        None \<Rightarrow> Inl (PyExc ''KeyError'' ''SKILL.md'')
      | Some raw \<Rightarrow>
          bindE (enrich_manifest_entry_from_raw yaml_load [] raw) (\<lambda>entry.
          bindE (bundle_tree_sha256 sha (as_files b)) (\<lambda>tree.
          bindE (bundle_file_records sha (as_files b)) (\<lambda>records.
            Inr \<lparr>sm_sha256 = sha raw, sm_tree_sha256 = tree, sm_files = records,
                 sm_description = str_or (dget_none entry ''description'') '''',
                 sm_category = str_or (dget_none entry ''category'') ''general'',
                 sm_runtime_policy = as_dict (dget_none entry ''runtime_policy'')\<rparr>))))"

section \<open>Blobs\<close>

definition blob_insert :: "skill_blob \<Rightarrow> skill_blob list \<Rightarrow> skill_blob list" where
  "blob_insert b t = (if sb_sha256 b \<in> sb_sha256 ` set t then t else t @ [b])"

definition blob_of :: "skill_bundle \<Rightarrow> file_record \<Rightarrow> pyexc + skill_blob" where
  "blob_of b r =
     (case map_of b (fr_path r) of
        None \<Rightarrow> Inl (PyExc ''KeyError'' (fr_path r))
      | Some d \<Rightarrow> Inr \<lparr>sb_sha256 = fr_sha256 r, sb_size = fr_size r, sb_content = d\<rparr>)"

definition put_blobs ::
  "(bytes \<Rightarrow> string) \<Rightarrow> skill_bundle \<Rightarrow> skill_blob list \<Rightarrow> pyexc + (file_record list \<times> skill_blob list)" where
  "put_blobs sha b t =
     bindE (bundle_file_records sha (as_files b)) (\<lambda>records.
     bindE (mapE (blob_of b) records) (\<lambda>rows. Inr (records, fold blob_insert rows t)))"

definition assemble_row ::
  "(bytes \<Rightarrow> string) \<Rightarrow> string \<times> string \<times> bytes \<Rightarrow> skill_bundle \<Rightarrow> pyexc + skill_bundle" where
  "assemble_row sha = (\<lambda>(path, digest, content) b.
     if sha content \<noteq> digest then Inl (PyExc ''RuntimeError'' (''skill blob hash mismatch for '' @ path))
     else Inr (bput path content b))"

definition assemble_bundle ::
  "(bytes \<Rightarrow> string) \<Rightarrow> (string \<times> string \<times> bytes) list \<Rightarrow> pyexc + skill_bundle" where
  "assemble_bundle sha rows = foldE (assemble_row sha) rows []"

text \<open>
  \<open>SELECT path, f.sha256, b.content FROM files f JOIN skill_blobs b ON b.sha256 = f.sha256
  WHERE P ORDER BY path\<close>.
\<close>

definition file_rows ::
  "(version_file \<Rightarrow> bool) \<Rightarrow> version_file list \<Rightarrow> skill_blob list \<Rightarrow> (string \<times> string \<times> bytes) list" where
  "file_rows P files blobs =
     sort_key fst (concat (map (\<lambda>f.
       map (\<lambda>b. (vf_path f, vf_sha256 f, sb_content b)) (filter (\<lambda>b. sb_sha256 b = vf_sha256 f) blobs))
       (filter P files)))"

section \<open>Reads\<close>

definition find_head :: "library \<Rightarrow> string \<Rightarrow> skill_head option" where
  "find_head lib name = find (\<lambda>h. sk_name h = name) (lib_skills lib)"

definition get_skill :: "library \<Rightarrow> string \<Rightarrow> bool \<Rightarrow> skill_head option" where
  "get_skill lib name include_deleted =
     (case find_head lib name of
        None \<Rightarrow> None
      | Some h \<Rightarrow>
          if sk_current_version h \<le> 0 \<or> (sk_deleted h \<and> \<not> include_deleted) then None else Some h)"

definition list_versions :: "library \<Rightarrow> string \<Rightarrow> skill_version list" where
  "list_versions lib name =
     rev (sort_key sv_version (filter (\<lambda>v. sv_name v = name) (lib_versions lib)))"

definition get_version :: "library \<Rightarrow> string \<Rightarrow> int \<Rightarrow> skill_version option" where
  "get_version lib name version =
     find (\<lambda>v. sv_name v = name \<and> sv_version v = version) (lib_versions lib)"

definition version_rows :: "library \<Rightarrow> string \<Rightarrow> int \<Rightarrow> (string \<times> string \<times> bytes) list" where
  "version_rows lib name version =
     file_rows (\<lambda>f. vf_name f = name \<and> vf_version f = version) (lib_files lib) (lib_blobs lib)"

definition read_version_bundle ::
  "(bytes \<Rightarrow> string) \<Rightarrow> library \<Rightarrow> string \<Rightarrow> int \<Rightarrow> pyexc + skill_bundle" where
  "read_version_bundle sha lib name version =
     (let absent = Inl (not_found (''version v'' @ int_str version @ '' of '' @ name @ '' not found''))
      in case get_version lib name version of
           None \<Rightarrow> absent
         | Some meta \<Rightarrow>
             if sv_deleted meta then absent
             else bindE (assemble_bundle sha (version_rows lib name version)) (\<lambda>b.
                  bindE (bundle_tree_sha256 sha (as_files b)) (\<lambda>tree.
                    if tree \<noteq> sv_tree_sha256 meta
                    then Inl (PyExc ''RuntimeError''
                           (''skill '' @ name @ '' v'' @ int_str version @ '' tree hash mismatch''))
                    else Inr b)))"

definition read_current_bundle ::
  "(bytes \<Rightarrow> string) \<Rightarrow> library \<Rightarrow> string \<Rightarrow> pyexc + (skill_head \<times> skill_bundle)" where
  "read_current_bundle sha lib name =
     (case get_skill lib name False of
        None \<Rightarrow> Inl (not_found (''skill not found: '' @ name))
      | Some h \<Rightarrow> bindE (read_version_bundle sha lib name (sk_current_version h)) (\<lambda>b. Inr (h, b)))"

text \<open>The files of the current versions of the skills that are not deleted.\<close>

definition current_files :: "library \<Rightarrow> version_file list" where
  "current_files lib =
     filter (\<lambda>f. \<exists>h\<in>set (lib_skills lib). sk_name h = vf_name f \<and> sk_current_version h = vf_version f \<and>
                    \<not> sk_deleted h) (lib_files lib)"

definition live_heads :: "library \<Rightarrow> skill_head list" where
  "live_heads lib =
     sort_key sk_name (filter (\<lambda>h. sk_current_version h > 0 \<and> \<not> sk_deleted h) (lib_skills lib))"

definition list_skills :: "library \<Rightarrow> (skill_head \<times> file_record list) list" where
  "list_skills lib =
     map (\<lambda>h. (h, map (\<lambda>f. \<lparr>fr_path = vf_path f, fr_sha256 = vf_sha256 f, fr_size = vf_size f\<rparr>)
                    (sort_key vf_path (filter (\<lambda>f. vf_name f = sk_name h) (current_files lib)))))
       (live_heads lib)"

definition read_current_bundles ::
  "(bytes \<Rightarrow> string) \<Rightarrow> library \<Rightarrow> pyexc + (string \<times> skill_bundle) list" where
  "read_current_bundles sha lib =
     (let rows = (\<lambda>n. file_rows (\<lambda>f. vf_name f = n) (current_files lib) (lib_blobs lib));
          names = filter (\<lambda>n. rows n \<noteq> []) (sort (remdups (map vf_name (current_files lib))))
      in mapE (\<lambda>n. bindE (assemble_bundle sha (rows n)) (\<lambda>b. Inr (n, b))) names)"

definition get_mutation :: "library \<Rightarrow> string \<Rightarrow> skill_mutation option" where
  "get_mutation lib mutation_id = find (\<lambda>m. mu_id m = mutation_id) (lib_mutations lib)"

section \<open>Write helpers\<close>

record commit_request =
  cr_name :: string
  cr_mutation_id :: string
  cr_actor :: string
  cr_source :: string
  cr_metadata :: pydict

definition replay :: "library \<Rightarrow> string \<Rightarrow> string \<Rightarrow> string \<Rightarrow> pyexc + skill_commit option" where
  "replay lib mutation_id name rhash =
     (case get_mutation lib mutation_id of
        None \<Rightarrow> Inr None
      | Some m \<Rightarrow>
          if mu_name m \<noteq> name \<or> mu_request_hash m \<noteq> rhash
          then Inl (PyExc ''SkillMutationConflict''
                 (''mutation id '' @ repr_str mutation_id @ '' was already used for a different request''))
          else Inr (Some \<lparr>sc_name = name, sc_action = mu_action m, sc_status = mu_status m,
                 sc_version = mu_version m, sc_previous_version = mu_previous_version m,
                 sc_mutation_id = mutation_id, sc_replayed = True, sc_restored_from = None,
                 sc_record = get_skill lib name True\<rparr>))"

definition record_mutation :: "skill_mutation \<Rightarrow> library \<Rightarrow> pyexc + library" where
  "record_mutation m lib =
     (if mu_id m \<in> mu_id ` set (lib_mutations lib)
      then Inl (PyExc ''SkillMutationConflict'' (''mutation id '' @ repr_str (mu_id m) @ '' is already in use''))
      else Inr (lib\<lparr>lib_mutations := lib_mutations lib @ [m]\<rparr>))"

text \<open>The insert of one version row, under the primary key (name, version).\<close>

definition insert_version :: "skill_version \<Rightarrow> library \<Rightarrow> pyexc + library" where
  "insert_version v lib =
     (if (sv_name v, sv_version v) \<in> (\<lambda>w. (sv_name w, sv_version w)) ` set (lib_versions lib)
      then Inl (PyExc ''UniqueViolationError'' '''')
      else Inr (lib\<lparr>lib_versions := lib_versions lib @ [v]\<rparr>))"

definition move_head :: "string \<Rightarrow> int \<Rightarrow> bool \<Rightarrow> skill_meta \<Rightarrow> string \<Rightarrow> rat \<Rightarrow> skill_head \<Rightarrow> skill_head" where
  "move_head name version deleted meta actor now h =
     h\<lparr>sk_current_version := version, sk_deleted := deleted, sk_description := sm_description meta,
       sk_category := sm_category meta, sk_sha256 := sm_sha256 meta, sk_tree_sha256 := sm_tree_sha256 meta,
       sk_runtime_policy := sm_runtime_policy meta, sk_updated_by := actor, sk_updated_at := now\<rparr>"

definition version_file_of :: "string \<Rightarrow> int \<Rightarrow> file_record \<Rightarrow> version_file" where
  "version_file_of name version r =
     \<lparr>vf_name = name, vf_version = version, vf_path = fr_path r, vf_sha256 = fr_sha256 r, vf_size = fr_size r\<rparr>"

definition new_version_row ::
  "rat \<Rightarrow> commit_request \<Rightarrow> string \<Rightarrow> int \<Rightarrow> string \<Rightarrow> bool \<Rightarrow> file_record list \<Rightarrow> skill_meta \<Rightarrow>
   int option \<Rightarrow> skill_version" where
  "new_version_row now cr name version action deleted records meta restored_from =
     \<lparr>sv_name = name, sv_version = version, sv_action = action, sv_deleted = deleted,
      sv_sha256 = sm_sha256 meta, sv_tree_sha256 = sm_tree_sha256 meta,
      sv_file_count = int (length records), sv_total_bytes = sum_list (map fr_size records),
      sv_description = sm_description meta, sv_category = sm_category meta,
      sv_runtime_policy = sm_runtime_policy meta, sv_restored_from = restored_from,
      sv_mutation_id = cr_mutation_id cr, sv_actor = cr_actor cr, sv_created_at = now\<rparr>"

text \<open>A bundle of \<open>None\<close> is a delete tombstone.\<close>

definition append_version ::
  "(bytes \<Rightarrow> string) \<Rightarrow> rat \<Rightarrow> commit_request \<Rightarrow> string \<Rightarrow> int \<Rightarrow> string \<Rightarrow> skill_bundle option \<Rightarrow>
   skill_meta \<Rightarrow> int option \<Rightarrow> library \<Rightarrow> pyexc + library" where
  "append_version sha now cr name version action b meta restored_from lib =
     (let deleted = (b = None)
      in bindE (case b of None \<Rightarrow> Inr ([], lib_blobs lib) | Some d \<Rightarrow> put_blobs sha d (lib_blobs lib))
           (\<lambda>(records, blobs).
         bindE (insert_version (new_version_row now cr name version action deleted records meta restored_from)
                  (lib\<lparr>lib_blobs := blobs\<rparr>)) (\<lambda>l.
           Inr (l\<lparr>lib_files := lib_files l @ map (version_file_of name version) records,
                  lib_skills := upd_where (\<lambda>h. sk_name h = name)
                    (move_head name version deleted meta (cr_actor cr) now) (lib_skills l)\<rparr>))))"

definition mutation_row ::
  "rat \<Rightarrow> commit_request \<Rightarrow> string \<Rightarrow> string \<Rightarrow> string \<Rightarrow> int \<Rightarrow> int \<Rightarrow> string \<Rightarrow> pydict \<Rightarrow> skill_mutation" where
  "mutation_row now cr name action status version previous rhash metadata =
     \<lparr>mu_id = cr_mutation_id cr, mu_action = action, mu_name = name, mu_status = status,
      mu_version = version, mu_previous_version = previous, mu_request_hash = rhash,
      mu_actor = cr_actor cr, mu_source = cr_source cr, mu_metadata = metadata, mu_created_at = now\<rparr>"

definition commit_of ::
  "commit_request \<Rightarrow> string \<Rightarrow> string \<Rightarrow> string \<Rightarrow> int \<Rightarrow> int \<Rightarrow> int option \<Rightarrow> skill_head option \<Rightarrow> skill_commit" where
  "commit_of cr name action status version previous restored rec =
     \<lparr>sc_name = name, sc_action = action, sc_status = status, sc_version = version,
      sc_previous_version = previous, sc_mutation_id = cr_mutation_id cr, sc_replayed = False,
      sc_restored_from = restored, sc_record = rec\<rparr>"

section \<open>Mutations\<close>

definition new_head :: "(bytes \<Rightarrow> string) \<Rightarrow> rat \<Rightarrow> string \<Rightarrow> skill_head" where
  "new_head sha now name =
     \<lparr>sk_name = name, sk_skill_id = skill_id_for sha name, sk_current_version = 0, sk_deleted = False,
      sk_description = '''', sk_category = ''general'', sk_sha256 = '''', sk_tree_sha256 = '''',
      sk_runtime_policy = [], sk_updated_by = '''', sk_created_at = now, sk_updated_at = now\<rparr>"

definition ensure_head :: "(bytes \<Rightarrow> string) \<Rightarrow> rat \<Rightarrow> string \<Rightarrow> library \<Rightarrow> library" where
  "ensure_head sha now name lib =
     (if find_head lib name = None then lib\<lparr>lib_skills := lib_skills lib @ [new_head sha now name]\<rparr> else lib)"

definition bundle_request_hash :: "(bytes \<Rightarrow> string) \<Rightarrow> string \<Rightarrow> string \<Rightarrow> string" where
  "bundle_request_hash sha name tree =
     request_hash sha [(''op'', json_str ''bundle''), (''name'', json_str name), (''tree'', json_str tree)]"

text \<open>The new version, once the replay check and the base version check have passed.\<close>

definition publish_version ::
  "(bytes \<Rightarrow> string) \<Rightarrow> rat \<Rightarrow> commit_request \<Rightarrow> string \<Rightarrow> string \<Rightarrow> skill_bundle option \<Rightarrow> skill_meta \<Rightarrow>
   int option \<Rightarrow> string \<Rightarrow> pydict \<Rightarrow> int \<Rightarrow> library \<Rightarrow> pyexc + (skill_commit \<times> library)" where
  "publish_version sha now cr name action b meta restored rhash metadata current lib =
     bindE (append_version sha now cr name (current + 1) action b meta restored lib) (\<lambda>l1.
     bindE (record_mutation (mutation_row now cr name action ''published'' (current + 1) current rhash metadata) l1)
       (\<lambda>l2. Inr (commit_of cr name action ''published'' (current + 1) current restored
                    (get_skill l2 name (b = None)), l2)))"

definition commit_clean_bundle ::
  "(bytes \<Rightarrow> string) \<Rightarrow> rat \<Rightarrow> commit_request \<Rightarrow> string \<Rightarrow> skill_bundle \<Rightarrow> skill_meta \<Rightarrow> int option \<Rightarrow> library \<Rightarrow>
   pyexc + (skill_commit \<times> library)" where
  "commit_clean_bundle sha now cr name clean meta base_version lib0 =
     (let rhash = bundle_request_hash sha name (sm_tree_sha256 meta);
          lib = ensure_head sha now name lib0
      in case find_head lib name of
           None \<Rightarrow> Inl (PyExc ''TypeError'' '''')
         | Some head \<Rightarrow>
             bindE (replay lib (cr_mutation_id cr) name rhash) (\<lambda>rp.
               case rp of
                 Some c \<Rightarrow> Inr (c, lib)
               | None \<Rightarrow>
                   let current = sk_current_version head;
                       live = (current > 0 \<and> \<not> sk_deleted head);
                       action = (if live then ''update'' else ''publish'')
                   in if (case base_version of None \<Rightarrow> False | Some bv \<Rightarrow> bv \<noteq> current)
                      then Inl (PyExc ''SkillVersionConflict''
                             (name @ '' is at v'' @ int_str current @ '', not the expected v'' @
                              (case base_version of None \<Rightarrow> '''' | Some bv \<Rightarrow> int_str bv)))
                      else if live \<and> sk_tree_sha256 head = sm_tree_sha256 meta
                      then bindE (record_mutation (mutation_row now cr name action ''unchanged'' current current
                                    rhash (cr_metadata cr)) lib)
                             (\<lambda>l. Inr (commit_of cr name action ''unchanged'' current current None
                                         (get_skill l name False), l))
                      else publish_version sha now cr name action (Some clean) meta None rhash
                             (cr_metadata cr) current lib))"

definition commit_bundle ::
  "(bytes \<Rightarrow> string) \<Rightarrow> (string \<Rightarrow> string + pyval) \<Rightarrow> rat \<Rightarrow> commit_request \<Rightarrow> bundle_files \<Rightarrow>
   bundle_limits \<Rightarrow> int option \<Rightarrow> library \<Rightarrow> pyexc + (skill_commit \<times> library)" where
  "commit_bundle sha yaml_load now cr files limits base_version lib =
     bindE (validate_skill_name (cr_name cr)) (\<lambda>name.
     bindE (validate_bundle yaml_load name files limits) (\<lambda>clean.
     bindE (bundle_metadata sha yaml_load name clean) (\<lambda>meta.
       commit_clean_bundle sha now cr name clean meta base_version lib)))"

text \<open>The checks \<open>commit_rollback\<close> and \<open>commit_delete\<close> share, then what each does with the live head.\<close>

definition with_live_head ::
  "commit_request \<Rightarrow> string \<Rightarrow> string \<Rightarrow> library \<Rightarrow> (skill_head \<Rightarrow> pyexc + (skill_commit \<times> library)) \<Rightarrow>
   pyexc + (skill_commit \<times> library)" where
  "with_live_head cr name rhash lib act =
     (let absent = Inl (not_found (''skill not found: '' @ name))
      in case find_head lib name of
           None \<Rightarrow> absent
         | Some head \<Rightarrow>
             if sk_current_version head \<le> 0 then absent
             else bindE (replay lib (cr_mutation_id cr) name rhash) (\<lambda>rp.
               case rp of
                 Some c \<Rightarrow> Inr (c, lib)
               | None \<Rightarrow> if sk_deleted head then absent else act head))"

definition commit_rollback ::
  "(bytes \<Rightarrow> string) \<Rightarrow> (string \<Rightarrow> string + pyval) \<Rightarrow> rat \<Rightarrow> commit_request \<Rightarrow> int \<Rightarrow> library \<Rightarrow>
   pyexc + (skill_commit \<times> library)" where
  "commit_rollback sha yaml_load now cr target lib =
     bindE (validate_skill_name (cr_name cr)) (\<lambda>name.
       let rhash = request_hash sha [(''op'', json_str ''rollback''), (''name'', json_str name),
                                     (''target'', int_str target)]
       in with_live_head cr name rhash lib (\<lambda>head.
            bindE (read_version_bundle sha lib name target) (\<lambda>b.
            bindE (bundle_metadata sha yaml_load name b) (\<lambda>meta.
              publish_version sha now cr name ''rollback'' (Some b) meta (Some target) rhash
                (dput ''restored_from'' (PInt target) (cr_metadata cr)) (sk_current_version head) lib))))"

definition tombstone_meta :: "skill_head \<Rightarrow> skill_meta" where
  "tombstone_meta head =
     \<lparr>sm_sha256 = '''', sm_tree_sha256 = sk_tree_sha256 head, sm_files = [], sm_description = '''',
      sm_category = ''general'', sm_runtime_policy = []\<rparr>"

definition commit_delete ::
  "(bytes \<Rightarrow> string) \<Rightarrow> rat \<Rightarrow> commit_request \<Rightarrow> library \<Rightarrow> pyexc + (skill_commit \<times> library)" where
  "commit_delete sha now cr lib =
     bindE (validate_skill_name (cr_name cr)) (\<lambda>name.
       let rhash = request_hash sha [(''op'', json_str ''delete''), (''name'', json_str name)]
       in with_live_head cr name rhash lib (\<lambda>head.
            publish_version sha now cr name ''delete'' None (tombstone_meta head) None rhash
              (cr_metadata cr) (sk_current_version head) lib))"

end
