(* ===== verification/BundleProperties.thy ===== *)
theory BundleProperties imports Bundle begin

text \<open>
  Facts about bundles: coercion is the identity on clean bundles, records and tree hash do
  not depend on the order of the files, and a payload decodes to the bundle it was made
  from.
\<close>

section \<open>Clean bundles\<close>

text \<open>A path that normalisation leaves as it is. Absolute paths are not of this kind.\<close>

definition canonical_path :: "string \<Rightarrow> bool" where
  "canonical_path p \<longleftrightarrow> normalize_bundle_rel_path p = Inr p"

definition canonical_bundle :: "skill_bundle \<Rightarrow> bool" where
  "canonical_bundle b = list_all canonical_path (map fst b)"

definition clean_bundle :: "skill_bundle \<Rightarrow> bool" where
  "clean_bundle b \<longleftrightarrow> distinct (map fst b) \<and>
     (\<forall>p\<in>fst ` set b. canonical_path p \<and> is_ignored_bundle_rel_path p = Inr False)"

lemma map_of_bput: "map_of (bput k v b) k' = (if k' = k then Some v else map_of b k')"
  by (induction b rule: bput.induct) auto

interpretation bundle_store: map_store "\<lambda>b. map_of (b :: (string \<times> 'v) list)" bput
  by unfold_locales (rule map_of_bput)

lemma keys_bput: "fst ` set (bput k v b) = insert k (fst ` set b)"
  by (induction b rule: bput.induct) auto

lemma distinct_bput: "distinct (map fst b) \<Longrightarrow> distinct (map fst (bput k v b))"
proof (induction k v b rule: bput.induct)
  case (2 k v k' v' b)
  then show ?case using keys_bput [of k v b] by (auto simp flip: image_set)
qed simp

lemma bput_fresh: "k \<notin> fst ` set b \<Longrightarrow> bput k v b = b @ [(k, v)]"
  by (induction b rule: bput.induct) auto

lemma coerce_file_Inr:
  assumes "coerce_file f b = Inr b'"
    and "distinct (map fst b) \<and> (\<forall>p\<in>fst ` set b. is_ignored_bundle_rel_path p = Inr False)"
  shows "distinct (map fst b') \<and> (\<forall>p\<in>fst ` set b'. is_ignored_bundle_rel_path p = Inr False)"
proof -
  obtain p d where f: "f = (p, d)" by (cases f)
  from assms(1) obtain n ig where n: "is_ignored_bundle_rel_path n = Inr ig"
    and b': "(if ig then Inr b else bindE (coerce_bytes d) (\<lambda>d. Inr (bput n d b))) = Inr b'"
    unfolding f coerce_file_def prod.case bindE_Inr_iff by blast
  show ?thesis
  proof (cases ig)
    case True
    with b' assms(2) show ?thesis by simp
  next
    case False
    with b' obtain x where "b' = bput n x b" by (auto simp: bindE_Inr_iff)
    with assms(2) n False show ?thesis by (simp add: distinct_bput keys_bput)
  qed
qed

lemma coerce_Inr:
  assumes "coerce_skill_bundle files = Inr b"
  shows "distinct (map fst b) \<and> (\<forall>p\<in>fst ` set b. is_ignored_bundle_rel_path p = Inr False)"
proof (rule foldE_invariant [OF assms [unfolded coerce_skill_bundle_def]])
  fix x and s s' :: skill_bundle
  assume "distinct (map fst s) \<and> (\<forall>p\<in>fst ` set s. is_ignored_bundle_rel_path p = Inr False)"
    and "coerce_file x s = Inr s'"
  then show "distinct (map fst s') \<and> (\<forall>p\<in>fst ` set s'. is_ignored_bundle_rel_path p = Inr False)"
    by (rule coerce_file_Inr [rotated])
qed simp

lemma coerce_clean: "coerce_skill_bundle files = Inr b \<Longrightarrow> canonical_bundle b \<Longrightarrow> clean_bundle b"
  using coerce_Inr [of files b] by (auto simp: clean_bundle_def canonical_bundle_def list_all_iff)

lemma clean_sort: "clean_bundle b \<Longrightarrow> clean_bundle (sort_key fst b)"
  by (simp add: clean_bundle_def distinct_map)

lemma foldE_coerce:
  assumes "clean_bundle (a @ b)"
  shows "foldE coerce_file (as_files b) a = Inr (a @ b)"
  using assms
proof (induction b arbitrary: a)
  case Nil
  then show ?case by (simp add: as_files_def)
next
  case (Cons x b)
  obtain p d where x: "x = (p, d)" by (cases x)
  from Cons.prems have p: "normalize_bundle_rel_path p = Inr p" "is_ignored_bundle_rel_path p = Inr False"
    and fresh: "p \<notin> fst ` set a"
    by (auto simp: clean_bundle_def canonical_path_def x)
  have "coerce_file (p, BytesData d) a = Inr (a @ [(p, d)])"
    by (simp add: coerce_file_def p coerce_bytes_def bput_fresh [OF fresh])
  moreover have "clean_bundle ((a @ [(p, d)]) @ b)" using Cons.prems by (simp add: x)
  note Cons.IH [OF this]
  ultimately show ?case by (simp add: as_files_def x)
qed

lemma coerce_as_files: "clean_bundle b \<Longrightarrow> coerce_skill_bundle (as_files b) = Inr b"
  unfolding coerce_skill_bundle_def using foldE_coerce [of "[]" b] by simp

lemma sort_key_idem [simp]: "sort_key f (sort_key f xs) = sort_key f xs"
  by (rule sort_key_id_if_sorted) simp

lemma records_clean:
  "clean_bundle b \<Longrightarrow> bundle_file_records sha (as_files b) = Inr (map (file_record_of sha) (sort_key fst b))"
  by (simp add: bundle_file_records_def coerce_as_files)

lemma tree_clean:
  "clean_bundle b \<Longrightarrow>
   bundle_tree_sha256 sha (as_files b) =
     Inr (sha (concat (map record_line (map (file_record_of sha) (sort_key fst b)))))"
  by (simp add: bundle_tree_sha256_def records_clean)

lemma tree_sort: "clean_bundle b \<Longrightarrow>
   bundle_tree_sha256 sha (as_files (sort_key fst b)) = bundle_tree_sha256 sha (as_files b)"
  by (simp add: tree_clean clean_sort)

section \<open>The payload round trip\<close>

lemma truthy_PStr: "py_or (PStr s) (PStr d) = PStr (if s = '''' then d else s)"
  by (simp add: py_or_def)

lemma decode_encode_file:
  assumes "canonical_path p" and "p \<notin> fst ` set b" and "p \<noteq> ''''"
  shows "decode_file sha (encode_file sha (p, d)) b = Inr (b @ [(p, d)])"
proof -
  have content: "decode_content (as_dict (encode_file sha (p, d))) p = Inr d"
    by (auto simp: decode_content_def encode_file_def as_dict_def str_or_def truthy_PStr utf8_decode_def
        b64_round_trip text_lower_def ascii_lower_def)
  show ?thesis using assms content
    by (auto simp: decode_file_def encode_file_def as_dict_def str_or_def truthy_PStr canonical_path_def
        check_size_def py_int_def bput_fresh Let_def split: option.splits)
qed

lemma canonical_not_Nil: "canonical_path p \<Longrightarrow> p \<noteq> ''''"
  by (auto simp: canonical_path_def normalize_bundle_rel_path_def text_strip_def py_replace_char_def Let_def)

lemma decode_encode_files:
  assumes "clean_bundle (a @ b)"
  shows "foldE (decode_file sha) (map (encode_file sha) b) a = Inr (a @ b)"
  using assms
proof (induction b arbitrary: a)
  case Nil
  then show ?case by simp
next
  case (Cons x b)
  obtain p d where x: "x = (p, d)" by (cases x)
  from Cons.prems have p: "canonical_path p" "p \<notin> fst ` set a"
    by (auto simp: clean_bundle_def x)
  have "clean_bundle ((a @ [(p, d)]) @ b)" using Cons.prems by (simp add: x)
  note Cons.IH [OF this]
  with decode_encode_file [OF p canonical_not_Nil [OF p(1)]] show ?case by (simp add: x)
qed

lemma encode_clean:
  assumes "coerce_skill_bundle files = Inr b" and "clean_bundle b"
  shows "encode_bundle_payload sha files =
    Inr [(''format'', PStr ''skill-bundle''), (''entrypoint'', PStr ''SKILL.md''),
         (''tree_sha256'', PStr (sha (concat (map record_line (map (file_record_of sha) (sort_key fst b)))))),
         (''files'', PList (map (encode_file sha) (sort_key fst b)))]"
  using assms by (simp add: encode_bundle_payload_def tree_clean)

text \<open>
  C20: Encoding a bundle as a JSON payload and decoding the payload gives the bundle's
  files back, sorted by path, whatever their bytes: UTF-8 files travel as text and all
  others as base64, and the recorded sizes, hashes and tree hash are accepted. The paths
  have to be canonical: an absolute path changes each time it is normalised.
\<close>

theorem bundle_payload_round_trip:
  assumes "coerce_skill_bundle files = Inr b" and "canonical_bundle b"
  shows "bindE (encode_bundle_payload sha files) (decode_bundle_payload sha) = Inr (sort_key fst b)"
proof -
  note clean = coerce_clean [OF assms]
  have d: "foldE (decode_file sha) (map (encode_file sha) (sort_key fst b)) [] = Inr (sort_key fst b)"
    using decode_encode_files [of "[]" "sort_key fst b"] clean_sort [OF clean] by simp
  show ?thesis
    by (simp add: encode_clean [OF assms(1) clean] decode_bundle_payload_def str_or_def truthy_PStr d
        tree_sort [OF clean] tree_clean [OF clean])
qed

theorem bundle_payload_round_trip_witness:
  "bindE (encode_bundle_payload (take 4)
       [('' scripts'' @ CHR 0x5C # ''run.py'', TextData ''pass''), (''SKILL.md'', TextData ''---''), (''a/__pycache__/x'', TextData ''''),
        (''logo'', BytesData [CHR 0xFF, CHR 0x00])]) (decode_bundle_payload (take 4)) =
     Inr [(''SKILL.md'', ''---''), (''logo'', [CHR 0xFF, CHR 0x00]), (''scripts/run.py'', ''pass'')]"
proof -
  let ?files = "[('' scripts'' @ CHR 0x5C # ''run.py'', TextData ''pass''), (''SKILL.md'', TextData ''---''),
    (''a/__pycache__/x'', TextData ''''), (''logo'', BytesData [CHR 0xFF, CHR 0x00])]"
  let ?b = "[(''scripts/run.py'', ''pass''), (''SKILL.md'', ''---''), (''logo'', [CHR 0xFF, CHR 0x00])]"
  have c: "coerce_skill_bundle ?files = Inr ?b" by code_simp
  have k: "canonical_bundle ?b" unfolding canonical_bundle_def canonical_path_def by code_simp
  have s: "sort_key fst ?b = [(''SKILL.md'', ''---''), (''logo'', [CHR 0xFF, CHR 0x00]), (''scripts/run.py'', ''pass'')]"
    by code_simp
  from bundle_payload_round_trip [OF c k, of "take 4"] show ?thesis by (simp only: s)
qed

section \<open>Absolute paths\<close>

text \<open>
  The path check lets absolute paths through: the root is a part of its own, and joining
  the parts keeps it. The result is not a fixed point either, so the records made from
  such a bundle name other paths than the bundle has.
\<close>

lemma absolute_path_accepted:
  "normalize_bundle_rel_path ''/etc/x'' = Inr ''//etc/x''"
  "normalize_bundle_rel_path ''//etc/x'' = Inr ''///etc/x''"
  "normalize_bundle_rel_path ''///etc/x'' = Inr ''//etc/x''"
  by code_simp+

end
