(* ===== verification/Logs.thy ===== *)
theory Logs imports Prelude begin

text \<open>
  Sequences of transactions and the contract of append-only tables: a table that every
  transaction only extends keeps its rows, and what a lookup finds stays found.
\<close>

text \<open>A transaction that raises is rolled back.\<close>

fun run_ops :: "('op \<Rightarrow> 's \<Rightarrow> 'e + ('r \<times> 's)) \<Rightarrow> 'op list \<Rightarrow> 's \<Rightarrow> 's" where
  "run_ops step [] s = s"
| "run_ops step (p # ps) s =
     run_ops step ps (case step p s of Inl e \<Rightarrow> s | Inr (r, s') \<Rightarrow> s')"

lemma run_ops_append: "run_ops step (ps @ qs) s = run_ops step qs (run_ops step ps s)"
  by (induction ps arbitrary: s) auto

lemma run_ops_invariant:
  assumes "I s" and "\<And>p s r s'. I s \<Longrightarrow> step p s = Inr (r, s') \<Longrightarrow> I s'"
  shows "I (run_ops step ps s)"
  using assms(1)
proof (induction ps arbitrary: s)
  case Nil
  then show ?case by simp
next
  case (Cons p ps)
  have "I (case step p s of Inl e \<Rightarrow> s | Inr (r, s') \<Rightarrow> s')"
    using Cons.prems assms(2) [of s p] by (auto split: sum.split)
  then show ?case by (simp add: Cons.IH)
qed

lemma find_append: "find P (xs @ ys) = (case find P xs of None \<Rightarrow> find P ys | Some x \<Rightarrow> Some x)"
  by (induction xs) auto

locale append_log =
  fixes step :: "'op \<Rightarrow> 's \<Rightarrow> 'e + ('r \<times> 's)"
    and log :: "'s \<Rightarrow> 'x list"
  assumes step_extends: "step p s = Inr (r, s') \<Longrightarrow> \<exists>new. log s' = log s @ new"
begin

lemma run_extends: "\<exists>new. log (run_ops step ps s) = log s @ new"
proof (induction ps arbitrary: s)
  case Nil
  then show ?case by simp
next
  case (Cons p ps)
  show ?case
  proof (cases "step p s")
    case (Inl e)
    then show ?thesis using Cons by simp
  next
    case (Inr q)
    obtain r s' where q: "q = (r, s')" by (cases q)
    obtain new where "log s' = log s @ new" using step_extends Inr q by blast
    moreover obtain rest where "log (run_ops step ps s') = log s' @ rest" using Cons by blast
    ultimately show ?thesis using Inr q by simp
  qed
qed

lemma entry_kept: "x \<in> set (log s) \<Longrightarrow> x \<in> set (log (run_ops step ps s))"
  using run_extends [of ps s] by auto

lemma found_kept: "find P (log s) = Some x \<Longrightarrow> find P (log (run_ops step ps s)) = Some x"
  using run_extends [of ps s] by (auto simp: find_append)

end

end
