(* ===== verification/LibraryProperties.thy ===== *)
theory LibraryProperties imports Library BundleProperties Logs begin

text \<open>
  The skill library keeps its history: consistent heads, append-only versions, idempotent
  mutations, and a committed bundle reads back.
\<close>

section \<open>Operations\<close>

datatype lib_op =
    CommitBundle rat commit_request bundle_files bundle_limits "int option"
  | CommitRollback rat commit_request int
  | CommitDelete rat commit_request

fun lib_step ::
  "(bytes \<Rightarrow> string) \<Rightarrow> (string \<Rightarrow> string + pyval) \<Rightarrow> lib_op \<Rightarrow> library \<Rightarrow> pyexc + (skill_commit \<times> library)" where
  "lib_step sha yaml_load (CommitBundle now cr files limits base_version) lib =
     commit_bundle sha yaml_load now cr files limits base_version lib"
| "lib_step sha yaml_load (CommitRollback now cr target) lib = commit_rollback sha yaml_load now cr target lib"
| "lib_step sha yaml_load (CommitDelete now cr) lib = commit_delete sha now cr lib"

definition empty_library :: library where
  "empty_library = \<lparr>lib_skills = [], lib_versions = [], lib_files = [], lib_blobs = [], lib_mutations = []\<rparr>"

abbreviation version_key :: "skill_version \<Rightarrow> string \<times> int" where
  "version_key v \<equiv> (sv_name v, sv_version v)"

abbreviation file_key :: "version_file \<Rightarrow> string \<times> int" where
  "file_key f \<equiv> (vf_name f, vf_version f)"

text \<open>A concrete library call, for the examples below.\<close>

definition sample_yaml :: "string \<Rightarrow> string + pyval" where
  "sample_yaml header = Inr (PDict [(''name'', PStr ''a''), (''description'', PStr ''b'')])"

definition sample_request :: "string \<Rightarrow> commit_request" where
  "sample_request i = \<lparr>cr_name = ''a'', cr_mutation_id = i, cr_actor = '''', cr_source = ''console'', cr_metadata = []\<rparr>"

definition sample_skill_md :: "string \<Rightarrow> bytes" where
  "sample_skill_md body =
     ''---'' @ CHR 0x0A # ''name: a'' @ CHR 0x0A # ''description: b'' @ CHR 0x0A # ''---'' @ CHR 0x0A # body"

definition sample_commit :: "string \<Rightarrow> string \<Rightarrow> lib_op" where
  "sample_commit i body = CommitBundle 0 (sample_request i)
     [(''SKILL.md'', BytesData (sample_skill_md body)), (''run.sh'', TextData ''ls'')] default_bundle_limits None"

section \<open>What a successful mutation did\<close>

lemma blob_insert_extends: "\<exists>new. blob_insert b t = t @ new"
  by (simp add: blob_insert_def)

lemma fold_blob_insert_extends: "\<exists>new. fold blob_insert rows t = t @ new"
proof (induction rows arbitrary: t)
  case (Cons r rows)
  from blob_insert_extends [of r t] obtain a where a: "blob_insert r t = t @ a" by blast
  from Cons.IH [of "blob_insert r t"] show ?case by (auto simp: a)
qed simp

lemma fold_blob_insert_keys: "sb_sha256 ` set (fold blob_insert rows t) = sb_sha256 ` set t \<union> sb_sha256 ` set rows"
  by (induction rows arbitrary: t) (auto simp: blob_insert_def)

lemma fold_blob_insert_distinct:
  "distinct (map sb_sha256 t) \<Longrightarrow> distinct (map sb_sha256 (fold blob_insert rows t))"
  by (induction rows arbitrary: t) (auto simp: blob_insert_def)

lemma mapE_blob_sha: "mapE (blob_of b) records = Inr rows \<Longrightarrow> map sb_sha256 rows = map fr_sha256 records"
proof (induction records arbitrary: rows)
  case Nil
  then show ?case by simp
next
  case (Cons r records)
  then obtain x xs where "blob_of b r = Inr x" "mapE (blob_of b) records = Inr xs" "rows = x # xs"
    by (auto simp: bindE_Inr_iff)
  moreover from this have "sb_sha256 x = fr_sha256 r" by (auto simp: blob_of_def split: option.splits)
  ultimately show ?case using Cons.IH by simp
qed

lemma put_blobs_Inr:
  assumes "put_blobs sha b t = Inr (records, t')"
  shows "(\<exists>new. t' = t @ new) \<and> (distinct (map sb_sha256 t) \<longrightarrow> distinct (map sb_sha256 t')) \<and>
    fr_sha256 ` set records \<subseteq> sb_sha256 ` set t'"
proof -
  from assms obtain rows where r: "mapE (blob_of b) records = Inr rows" and t': "t' = fold blob_insert rows t"
    by (auto simp: put_blobs_def bindE_Inr_iff)
  from mapE_blob_sha [OF r] have "fr_sha256 ` set records = sb_sha256 ` set rows"
    by (metis image_set)
  then show ?thesis unfolding t'
    by (simp add: fold_blob_insert_extends fold_blob_insert_distinct fold_blob_insert_keys)
qed

lemma append_version_Inr:
  assumes "append_version sha now cr name version action b meta restored lib = Inr l"
  obtains records blobs where
    "(b = None \<and> records = [] \<and> blobs = lib_blobs lib) \<or>
     (\<exists>d. b = Some d \<and> put_blobs sha d (lib_blobs lib) = Inr (records, blobs))"
    "(name, version) \<notin> version_key ` set (lib_versions lib)"
    "l = lib\<lparr>lib_skills := upd_where (\<lambda>h. sk_name h = name)
                  (move_head name version (b = None) meta (cr_actor cr) now) (lib_skills lib),
             lib_versions := lib_versions lib @
               [new_version_row now cr name version action (b = None) records meta restored],
             lib_files := lib_files lib @ map (version_file_of name version) records,
             lib_blobs := blobs\<rparr>"
proof -
  from assms obtain records blobs l1 where
    b: "(case b of None \<Rightarrow> Inr ([], lib_blobs lib) | Some d \<Rightarrow> put_blobs sha d (lib_blobs lib)) = Inr (records, blobs)"
    and v: "insert_version (new_version_row now cr name version action (b = None) records meta restored)
              (lib\<lparr>lib_blobs := blobs\<rparr>) = Inr l1"
    and l: "l = l1\<lparr>lib_files := lib_files l1 @ map (version_file_of name version) records,
                  lib_skills := upd_where (\<lambda>h. sk_name h = name)
                    (move_head name version (b = None) meta (cr_actor cr) now) (lib_skills l1)\<rparr>"
    unfolding append_version_def Let_def bindE_Inr_iff by (auto simp: bindE_Inr_iff)
  from v have v': "(name, version) \<notin> version_key ` set (lib_versions lib)"
    "l1 = lib\<lparr>lib_blobs := blobs, lib_versions := lib_versions lib @
               [new_version_row now cr name version action (b = None) records meta restored]\<rparr>"
    by (auto simp: insert_version_def new_version_row_def split: if_splits)
  show thesis
  proof (rule that)
    show "(b = None \<and> records = [] \<and> blobs = lib_blobs lib) \<or>
     (\<exists>d. b = Some d \<and> put_blobs sha d (lib_blobs lib) = Inr (records, blobs))"
      using b by (cases b) auto
  qed (simp_all add: v' l)
qed

inductive mutation_outcome ::
  "(bytes \<Rightarrow> string) \<Rightarrow> rat \<Rightarrow> commit_request \<Rightarrow> string \<Rightarrow> string \<Rightarrow> library \<Rightarrow> skill_commit \<Rightarrow> library \<Rightarrow> bool"
  for sha now cr name rhash lib where
  replayed: "replay lib (cr_mutation_id cr) name rhash = Inr (Some c) \<Longrightarrow>
    mutation_outcome sha now cr name rhash lib c lib"
| unchanged: "replay lib (cr_mutation_id cr) name rhash = Inr None \<Longrightarrow>
    record_mutation (mutation_row now cr name action ''unchanged'' version version rhash metadata) lib = Inr l \<Longrightarrow>
    c = commit_of cr name action ''unchanged'' version version None rec \<Longrightarrow>
    mutation_outcome sha now cr name rhash lib c l"
| published: "replay lib (cr_mutation_id cr) name rhash = Inr None \<Longrightarrow>
    find_head lib name = Some head \<Longrightarrow>
    publish_version sha now cr name action b meta restored rhash metadata (sk_current_version head) lib = Inr (c, l) \<Longrightarrow>
    mutation_outcome sha now cr name rhash lib c l"

lemma commit_clean_bundle_outcome:
  assumes "commit_clean_bundle sha now cr name clean meta base_version lib = Inr (c, l)"
  shows "mutation_outcome sha now cr name (bundle_request_hash sha name (sm_tree_sha256 meta))
    (ensure_head sha now name lib) c l"
proof -
  let ?lib = "ensure_head sha now name lib"
  let ?rhash = "bundle_request_hash sha name (sm_tree_sha256 meta)"
  from assms obtain head rp where head: "find_head ?lib name = Some head"
    and rp: "replay ?lib (cr_mutation_id cr) name ?rhash = Inr rp"
    by (auto simp: commit_clean_bundle_def Let_def bindE_Inr_iff split: option.splits)
  show ?thesis
  proof (cases rp)
    case (Some x)
    with assms head rp show ?thesis
      by (auto simp: commit_clean_bundle_def Let_def intro: mutation_outcome.replayed)
  next
    case None
    let ?cur = "sk_current_version head"
    let ?live = "?cur > 0 \<and> \<not> sk_deleted head"
    let ?action = "if ?live then ''update'' else ''publish''"
    show ?thesis
    proof (cases "?live \<and> sk_tree_sha256 head = sm_tree_sha256 meta")
      case True
      with assms head rp None obtain lx where
        "record_mutation (mutation_row now cr name ?action ''unchanged'' ?cur ?cur ?rhash (cr_metadata cr)) ?lib = Inr lx"
        and "c = commit_of cr name ?action ''unchanged'' ?cur ?cur None (get_skill lx name False)" "l = lx"
        by (auto simp: commit_clean_bundle_def Let_def bindE_Inr_iff split: if_splits option.splits)
      with rp None show ?thesis by (auto intro: mutation_outcome.unchanged)
    next
      case False
      with assms head rp None have
        "publish_version sha now cr name ?action (Some clean) meta None ?rhash (cr_metadata cr) ?cur ?lib = Inr (c, l)"
        by (auto simp: commit_clean_bundle_def Let_def split: if_splits option.splits)
      with rp None head show ?thesis by (auto intro: mutation_outcome.published)
    qed
  qed
qed

lemma with_live_head_outcome:
  assumes "with_live_head cr name rhash lib act = Inr (c, l)"
    and "\<And>head. find_head lib name = Some head \<Longrightarrow> sk_current_version head > 0 \<Longrightarrow> \<not> sk_deleted head \<Longrightarrow>
      act head = Inr (c, l) \<Longrightarrow>
      \<exists>action b meta restored metadata.
        publish_version sha now cr name action b meta restored rhash metadata (sk_current_version head) lib = Inr (c, l)"
  shows "mutation_outcome sha now cr name rhash lib c l"
proof -
  from assms(1) obtain head rp where head: "find_head lib name = Some head" "sk_current_version head > 0"
    and rp: "replay lib (cr_mutation_id cr) name rhash = Inr rp"
    and rest: "(case rp of Some x \<Rightarrow> Inr (x, lib)
      | None \<Rightarrow> if sk_deleted head then Inl (not_found (''skill not found: '' @ name)) else act head) = Inr (c, l)"
    by (auto simp: with_live_head_def Let_def bindE_Inr_iff split: option.splits if_splits)
  show ?thesis
  proof (cases rp)
    case (Some x)
    with rest rp show ?thesis by (auto intro: mutation_outcome.replayed)
  next
    case None
    with rest have "\<not> sk_deleted head" "act head = Inr (c, l)" by (auto split: if_splits)
    from assms(2) [OF head this] rp None head show ?thesis by (auto intro: mutation_outcome.published)
  qed
qed

lemma rollback_outcome:
  assumes "commit_rollback sha yaml_load now cr target lib = Inr (c, l)"
  obtains name where "validate_skill_name (cr_name cr) = Inr name"
    "mutation_outcome sha now cr name
       (request_hash sha [(''op'', json_str ''rollback''), (''name'', json_str name), (''target'', int_str target)])
       lib c l"
    "\<exists>act. with_live_head cr name
       (request_hash sha [(''op'', json_str ''rollback''), (''name'', json_str name), (''target'', int_str target)])
       lib act = Inr (c, l)"
proof -
  let ?h = "\<lambda>name. request_hash sha [(''op'', json_str ''rollback''), (''name'', json_str name), (''target'', int_str target)]"
  from assms obtain name where n: "validate_skill_name (cr_name cr) = Inr name"
    and w: "with_live_head cr name (?h name) lib (\<lambda>head.
            bindE (read_version_bundle sha lib name target) (\<lambda>b.
            bindE (bundle_metadata sha yaml_load name b) (\<lambda>meta.
              publish_version sha now cr name ''rollback'' (Some b) meta (Some target) (?h name)
                (dput ''restored_from'' (PInt target) (cr_metadata cr)) (sk_current_version head) lib))) = Inr (c, l)"
    unfolding commit_rollback_def bindE_Inr_iff Let_def by blast
  show thesis
  proof (rule that [OF n])
    show "mutation_outcome sha now cr name (?h name) lib c l"
    proof (rule with_live_head_outcome [OF w])
      fix head
      assume "bindE (read_version_bundle sha lib name target) (\<lambda>b.
              bindE (bundle_metadata sha yaml_load name b) (\<lambda>meta.
                publish_version sha now cr name ''rollback'' (Some b) meta (Some target) (?h name)
                  (dput ''restored_from'' (PInt target) (cr_metadata cr)) (sk_current_version head) lib)) = Inr (c, l)"
      then show "\<exists>action b meta restored metadata.
          publish_version sha now cr name action b meta restored (?h name) metadata (sk_current_version head) lib = Inr (c, l)"
        unfolding bindE_Inr_iff by blast
    qed
    show "\<exists>act. with_live_head cr name (?h name) lib act = Inr (c, l)" using w by blast
  qed
qed

lemma delete_outcome:
  assumes "commit_delete sha now cr lib = Inr (c, l)"
  obtains name where "validate_skill_name (cr_name cr) = Inr name"
    "mutation_outcome sha now cr name
       (request_hash sha [(''op'', json_str ''delete''), (''name'', json_str name)]) lib c l"
    "\<exists>act. with_live_head cr name
       (request_hash sha [(''op'', json_str ''delete''), (''name'', json_str name)]) lib act = Inr (c, l)"
proof -
  let ?h = "\<lambda>name. request_hash sha [(''op'', json_str ''delete''), (''name'', json_str name)]"
  from assms obtain name where n: "validate_skill_name (cr_name cr) = Inr name"
    and w: "with_live_head cr name (?h name) lib (\<lambda>head.
            publish_version sha now cr name ''delete'' None (tombstone_meta head) None (?h name)
              (cr_metadata cr) (sk_current_version head) lib) = Inr (c, l)"
    unfolding commit_delete_def bindE_Inr_iff Let_def by blast
  show thesis
  proof (rule that [OF n])
    show "mutation_outcome sha now cr name (?h name) lib c l" by (rule with_live_head_outcome [OF w]) blast
    show "\<exists>act. with_live_head cr name (?h name) lib act = Inr (c, l)" using w by blast
  qed
qed

lemma bundle_outcome:
  assumes "commit_bundle sha yaml_load now cr files limits base_version lib = Inr (c, l)"
  obtains name clean meta where "validate_skill_name (cr_name cr) = Inr name"
    "validate_bundle yaml_load name files limits = Inr clean" "bundle_metadata sha yaml_load name clean = Inr meta"
    "mutation_outcome sha now cr name (bundle_request_hash sha name (sm_tree_sha256 meta))
       (ensure_head sha now name lib) c l"
  using assms unfolding commit_bundle_def bindE_Inr_iff by (blast intro: commit_clean_bundle_outcome)

lemma lib_step_outcome:
  assumes "lib_step sha yaml_load p lib = Inr (c, l)"
  obtains now cr name rhash lib0 where
    "lib0 = lib \<or> lib0 = ensure_head sha now name lib" "mutation_outcome sha now cr name rhash lib0 c l"
proof (cases p)
  case (CommitBundle now cr files limits base_version)
  with assms show thesis by (auto elim!: bundle_outcome intro: that)
next
  case (CommitRollback now cr target)
  with assms show thesis by (auto elim!: rollback_outcome intro: that)
next
  case (CommitDelete now cr)
  with assms show thesis by (auto elim!: delete_outcome intro: that)
qed

text \<open>A new version: the version row, the files and blobs behind it, the moved head, and the ledger row.\<close>

lemma publish_version_Inr:
  assumes "publish_version sha now cr name action b meta restored rhash metadata current lib = Inr (c, l)"
  obtains records blobs where
    "(b = None \<and> records = [] \<and> blobs = lib_blobs lib) \<or>
     (\<exists>d. b = Some d \<and> put_blobs sha d (lib_blobs lib) = Inr (records, blobs))"
    "(name, current + 1) \<notin> version_key ` set (lib_versions lib)"
    "cr_mutation_id cr \<notin> mu_id ` set (lib_mutations lib)"
    "l = \<lparr>lib_skills = upd_where (\<lambda>h. sk_name h = name)
                  (move_head name (current + 1) (b = None) meta (cr_actor cr) now) (lib_skills lib),
          lib_versions = lib_versions lib @
               [new_version_row now cr name (current + 1) action (b = None) records meta restored],
          lib_files = lib_files lib @ map (version_file_of name (current + 1)) records,
          lib_blobs = blobs,
          lib_mutations = lib_mutations lib @
            [mutation_row now cr name action ''published'' (current + 1) current rhash metadata]\<rparr>"
    "c = commit_of cr name action ''published'' (current + 1) current restored (get_skill l name (b = None))"
proof -
  from assms obtain l1 where
    a: "append_version sha now cr name (current + 1) action b meta restored lib = Inr l1"
    and m: "record_mutation (mutation_row now cr name action ''published'' (current + 1) current rhash metadata) l1 = Inr l"
    and c: "c = commit_of cr name action ''published'' (current + 1) current restored (get_skill l name (b = None))"
    unfolding publish_version_def bindE_Inr_iff by blast
  from a show thesis
  proof (rule append_version_Inr)
    fix records blobs
    assume x: "(b = None \<and> records = [] \<and> blobs = lib_blobs lib) \<or>
       (\<exists>d. b = Some d \<and> put_blobs sha d (lib_blobs lib) = Inr (records, blobs))"
      "(name, current + 1) \<notin> version_key ` set (lib_versions lib)"
      and l1: "l1 = lib\<lparr>lib_skills := upd_where (\<lambda>h. sk_name h = name)
                  (move_head name (current + 1) (b = None) meta (cr_actor cr) now) (lib_skills lib),
             lib_versions := lib_versions lib @
               [new_version_row now cr name (current + 1) action (b = None) records meta restored],
             lib_files := lib_files lib @ map (version_file_of name (current + 1)) records,
             lib_blobs := blobs\<rparr>"
    from m l1 have "cr_mutation_id cr \<notin> mu_id ` set (lib_mutations lib)"
      "l = l1\<lparr>lib_mutations := lib_mutations lib @
            [mutation_row now cr name action ''published'' (current + 1) current rhash metadata]\<rparr>"
      by (auto simp: record_mutation_def mutation_row_def split: if_splits)
    with x l1 c show thesis by (auto intro!: that)
  qed
qed

lemma record_mutation_Inr:
  "record_mutation m lib = Inr l \<Longrightarrow>
   mu_id m \<notin> mu_id ` set (lib_mutations lib) \<and> l = lib\<lparr>lib_mutations := lib_mutations lib @ [m]\<rparr>"
  by (auto simp: record_mutation_def split: if_splits)

lemma ensure_head_simps [simp]:
  "lib_versions (ensure_head sha now name lib) = lib_versions lib"
  "lib_files (ensure_head sha now name lib) = lib_files lib"
  "lib_blobs (ensure_head sha now name lib) = lib_blobs lib"
  "lib_mutations (ensure_head sha now name lib) = lib_mutations lib"
  by (simp_all add: ensure_head_def)

section \<open>The tables are append-only\<close>

lemma outcome_extends:
  assumes "mutation_outcome sha now cr name rhash lib c l"
  shows "(\<exists>new. lib_versions l = lib_versions lib @ new) \<and> (\<exists>new. lib_files l = lib_files lib @ new) \<and>
    (\<exists>new. lib_blobs l = lib_blobs lib @ new) \<and> (\<exists>new. lib_mutations l = lib_mutations lib @ new)"
  using assms
proof cases
  case replayed
  then show ?thesis by simp
next
  case unchanged
  then show ?thesis by (auto dest: record_mutation_Inr)
next
  case (published head action b meta restored metadata)
  show ?thesis by (rule publish_version_Inr [OF published(3)]) (auto dest: put_blobs_Inr)
qed

lemma lib_step_extends:
  assumes "lib_step sha yaml_load p lib = Inr (c, l)"
  shows "(\<exists>new. lib_versions l = lib_versions lib @ new) \<and> (\<exists>new. lib_files l = lib_files lib @ new) \<and>
    (\<exists>new. lib_blobs l = lib_blobs lib @ new) \<and> (\<exists>new. lib_mutations l = lib_mutations lib @ new)"
  using assms by (rule lib_step_outcome) (auto dest: outcome_extends)

interpretation version_log: append_log "lib_step sha yaml_load" lib_versions for sha yaml_load
  by unfold_locales (use lib_step_extends in blast)

interpretation file_log: append_log "lib_step sha yaml_load" lib_files for sha yaml_load
  by unfold_locales (use lib_step_extends in blast)

interpretation blob_log: append_log "lib_step sha yaml_load" lib_blobs for sha yaml_load
  by unfold_locales (use lib_step_extends in blast)

interpretation mutation_log: append_log "lib_step sha yaml_load" lib_mutations for sha yaml_load
  by unfold_locales (use lib_step_extends in blast)

section \<open>Consistency\<close>

text \<open>
  The head of a skill counts its versions, which are numbered from 1 without gaps; files
  belong to versions and their blobs are stored; keys are unique.
\<close>

definition version_row_ok :: "skill_head list \<Rightarrow> skill_version \<Rightarrow> bool" where
  "version_row_ok heads v \<longleftrightarrow>
     (\<exists>h\<in>set heads. sk_name h = sv_name v \<and> 1 \<le> sv_version v \<and> sv_version v \<le> sk_current_version h)"

definition head_ok :: "skill_version list \<Rightarrow> skill_head \<Rightarrow> bool" where
  "head_ok versions h \<longleftrightarrow>
     0 \<le> sk_current_version h \<and>
     (\<forall>k\<in>{1..sk_current_version h}. (sk_name h, k) \<in> version_key ` set versions) \<and>
     (0 < sk_current_version h \<longrightarrow>
        (\<exists>v\<in>set versions. version_key v = (sk_name h, sk_current_version h) \<and>
           sv_tree_sha256 v = sk_tree_sha256 h \<and> sv_deleted v = sk_deleted h))"

definition library_ok :: "library \<Rightarrow> bool" where
  "library_ok lib \<longleftrightarrow>
     distinct (map sk_name (lib_skills lib)) \<and> distinct (map version_key (lib_versions lib)) \<and>
     distinct (map sb_sha256 (lib_blobs lib)) \<and> distinct (map mu_id (lib_mutations lib)) \<and>
     (\<forall>h\<in>set (lib_skills lib). head_ok (lib_versions lib) h) \<and>
     (\<forall>v\<in>set (lib_versions lib). version_row_ok (lib_skills lib) v) \<and>
     (\<forall>f\<in>set (lib_files lib). file_key f \<in> version_key ` set (lib_versions lib) \<and>
        vf_sha256 f \<in> sb_sha256 ` set (lib_blobs lib))"

lemma library_ok_empty: "library_ok empty_library"
  by (simp add: library_ok_def empty_library_def)

lemma find_None_name: "find (\<lambda>h. k h = x) xs = None \<longleftrightarrow> x \<notin> k ` set xs"
  by (induction xs) auto

lemma version_row_ok_mono:
  "version_row_ok heads v \<Longrightarrow> set heads \<subseteq> set heads' \<Longrightarrow> version_row_ok heads' v"
  by (auto simp: version_row_ok_def)

lemma library_ok_ensure_head: "library_ok lib \<Longrightarrow> library_ok (ensure_head sha now name lib)"
  unfolding library_ok_def ensure_head_def
  by (auto simp: find_head_def find_None_name new_head_def head_ok_def version_row_ok_def)

lemma library_ok_mutation:
  "library_ok lib \<Longrightarrow> mu_id m \<notin> mu_id ` set (lib_mutations lib) \<Longrightarrow>
   library_ok (lib\<lparr>lib_mutations := lib_mutations lib @ [m]\<rparr>)"
  by (simp add: library_ok_def)

lemma find_head_Some:
  "find_head lib name = Some h \<Longrightarrow> h \<in> set (lib_skills lib) \<and> sk_name h = name"
  unfolding find_head_def by (rule find_Some_mem)

lemma head_ok_mono:
  assumes "head_ok vs h"
  shows "head_ok (vs @ ws) h"
proof -
  have "\<forall>k\<in>{1..sk_current_version h}. (sk_name h, k) \<in> version_key ` set (vs @ ws)"
    using assms unfolding head_ok_def set_append image_Un by blast
  moreover have "0 < sk_current_version h \<Longrightarrow>
      \<exists>v\<in>set (vs @ ws). version_key v = (sk_name h, sk_current_version h) \<and>
        sv_tree_sha256 v = sk_tree_sha256 h \<and> sv_deleted v = sk_deleted h"
    using assms unfolding head_ok_def set_append by blast
  ultimately show ?thesis using assms unfolding head_ok_def by blast
qed

lemma head_ok_moved:
  assumes "head_ok vs h" and "sk_name h = name"
  shows "head_ok (vs @ [new_version_row now cr name (sk_current_version h + 1) action deleted records meta restored])
    (move_head name (sk_current_version h + 1) deleted meta actor t h)"
proof -
  let ?v = "new_version_row now cr name (sk_current_version h + 1) action deleted records meta restored"
  let ?h = "move_head name (sk_current_version h + 1) deleted meta actor t h"
  have h: "sk_name ?h = name" "sk_current_version ?h = sk_current_version h + 1"
    "sk_tree_sha256 ?h = sm_tree_sha256 meta" "sk_deleted ?h = deleted"
    by (simp_all add: move_head_def assms(2))
  have v: "version_key ?v = (name, sk_current_version h + 1)" "sv_tree_sha256 ?v = sm_tree_sha256 meta"
    "sv_deleted ?v = deleted"
    by (simp_all add: new_version_row_def)
  have pos: "0 \<le> sk_current_version h"
    and old: "\<And>k. 1 \<le> k \<Longrightarrow> k \<le> sk_current_version h \<Longrightarrow> (name, k) \<in> version_key ` set vs"
    using assms unfolding head_ok_def by auto
  have "(name, k) \<in> version_key ` set (vs @ [?v])" if "k \<in> {1..sk_current_version h + 1}" for k
  proof (cases "k = sk_current_version h + 1")
    case True
    then show ?thesis unfolding set_append image_Un using v(1) by simp
  next
    case False
    with that old show ?thesis unfolding set_append image_Un by auto
  qed
  moreover have "\<exists>v\<in>set (vs @ [?v]). version_key v = (name, sk_current_version h + 1) \<and>
      sv_tree_sha256 v = sm_tree_sha256 meta \<and> sv_deleted v = deleted"
    using v by (intro bexI [of _ ?v]) simp_all
  ultimately show ?thesis unfolding head_ok_def h using pos by simp
qed

lemma library_ok_publish:
  assumes ok: "library_ok lib" and head: "find_head lib name = Some head"
    and pub: "publish_version sha now cr name action b meta restored rhash metadata (sk_current_version head) lib = Inr (c, l)"
  shows "library_ok l"
proof (rule publish_version_Inr [OF pub])
  fix records blobs
  let ?cur = "sk_current_version head"
  let ?f = "move_head name (?cur + 1) (b = None) meta (cr_actor cr) now"
  let ?row = "new_version_row now cr name (?cur + 1) action (b = None) records meta restored"
  let ?heads = "upd_where (\<lambda>h. sk_name h = name) ?f (lib_skills lib)"
  assume b: "(b = None \<and> records = [] \<and> blobs = lib_blobs lib) \<or>
     (\<exists>d. b = Some d \<and> put_blobs sha d (lib_blobs lib) = Inr (records, blobs))"
    and fresh: "(name, ?cur + 1) \<notin> version_key ` set (lib_versions lib)"
    and mid: "cr_mutation_id cr \<notin> mu_id ` set (lib_mutations lib)"
    and l: "l = \<lparr>lib_skills = ?heads, lib_versions = lib_versions lib @ [?row],
          lib_files = lib_files lib @ map (version_file_of name (?cur + 1)) records, lib_blobs = blobs,
          lib_mutations = lib_mutations lib @
            [mutation_row now cr name action ''published'' (?cur + 1) ?cur rhash metadata]\<rparr>"
  note o = ok [unfolded library_ok_def]
  from find_head_Some [OF head] have hd: "head \<in> set (lib_skills lib)" "sk_name head = name" by auto
  have only: "h = head" if "h \<in> set (lib_skills lib)" "sk_name h = name" for h
    using distinct_key_eq [of sk_name "lib_skills lib" h head] o that hd by simp
  have key: "version_key ?row = (name, ?cur + 1)" by (simp add: new_version_row_def)
  have heads: "set ?heads = {if sk_name h = name then ?f h else h | h. h \<in> set (lib_skills lib)}"
    by (rule set_upd_where)
  have blob: "distinct (map sb_sha256 blobs)" "fr_sha256 ` set records \<subseteq> sb_sha256 ` set blobs"
    "\<exists>new. blobs = lib_blobs lib @ new"
  proof -
    have d: "distinct (map sb_sha256 (lib_blobs lib))" using o by blast
    have "distinct (map sb_sha256 blobs) \<and> fr_sha256 ` set records \<subseteq> sb_sha256 ` set blobs \<and>
      (\<exists>new. blobs = lib_blobs lib @ new)"
      using b
    proof
      assume "b = None \<and> records = [] \<and> blobs = lib_blobs lib"
      with d show ?thesis by simp
    next
      assume "\<exists>d. b = Some d \<and> put_blobs sha d (lib_blobs lib) = Inr (records, blobs)"
      with d show ?thesis by (blast dest: put_blobs_Inr)
    qed
    then show "distinct (map sb_sha256 blobs)" "fr_sha256 ` set records \<subseteq> sb_sha256 ` set blobs"
      "\<exists>new. blobs = lib_blobs lib @ new" by blast+
  qed
  have p1: "distinct (map sk_name ?heads)"
    by (subst map_upd_where) (use o in \<open>auto simp: move_head_def\<close>)
  have p2: "distinct (map version_key (lib_versions lib @ [?row]))"
    using o fresh key unfolding map_append distinct_append by simp
  have p3: "head_ok (lib_versions lib @ [?row]) h'" if "h' \<in> set ?heads" for h'
  proof -
    from that heads obtain h where h: "h \<in> set (lib_skills lib)" "h' = (if sk_name h = name then ?f h else h)" by blast
    show ?thesis
    proof (cases "sk_name h = name")
      case True
      with only h have "h' = ?f head" by simp
      moreover have "head_ok (lib_versions lib) head" using o hd by blast
      ultimately show ?thesis using head_ok_moved hd(2) by blast
    next
      case False
      with h o show ?thesis by (simp add: head_ok_mono)
    qed
  qed
  have fc: "sk_name (?f head) = name" "sk_current_version (?f head) = ?cur + 1"
    by (simp_all add: move_head_def hd)
  have fin: "?f head \<in> set ?heads" unfolding heads using hd by force
  have cur: "0 \<le> ?cur" using o hd unfolding head_ok_def by blast
  have p4: "version_row_ok ?heads v" if v: "v \<in> set (lib_versions lib @ [?row])" for v
  proof (cases "v = ?row")
    case True
    then show ?thesis using fin fc cur key unfolding version_row_ok_def by (intro bexI [of _ "?f head"]) simp_all
  next
    case False
    with v o obtain h where h: "h \<in> set (lib_skills lib)" "sk_name h = sv_name v" "1 \<le> sv_version v"
      "sv_version v \<le> sk_current_version h" unfolding version_row_ok_def by auto
    show ?thesis
    proof (cases "sk_name h = name")
      case True
      with h only have "h = head" by blast
      with h fin fc hd show ?thesis unfolding version_row_ok_def by (intro bexI [of _ "?f head"]) simp_all
    next
      case False
      then have "h \<in> set ?heads" unfolding heads using h(1) by force
      with h show ?thesis unfolding version_row_ok_def by blast
    qed
  qed
  have p5: "file_key f \<in> version_key ` set (lib_versions lib @ [?row]) \<and> vf_sha256 f \<in> sb_sha256 ` set blobs"
    if "f \<in> set (lib_files lib @ map (version_file_of name (?cur + 1)) records)" for f
  proof (cases "f \<in> set (lib_files lib)")
    case True
    with o blob(3) show ?thesis by auto
  next
    case False
    with that obtain r where r: "r \<in> set records" "f = version_file_of name (?cur + 1) r" by auto
    then have "file_key f = version_key ?row" "vf_sha256 f = fr_sha256 r"
      by (simp_all add: version_file_of_def key)
    with r blob(2) show ?thesis by auto
  qed
  have p6: "distinct (map mu_id (lib_mutations lib @
            [mutation_row now cr name action ''published'' (?cur + 1) ?cur rhash metadata]))"
    using o mid by (simp add: mutation_row_def)
  show "library_ok l"
    unfolding library_ok_def l library.simps using p1 p2 p3 p4 p5 p6 blob(1) by blast
qed

lemma library_ok_outcome:
  assumes "mutation_outcome sha now cr name rhash lib c l" and "library_ok lib"
  shows "library_ok l"
  using assms(1)
proof cases
  case replayed
  with assms(2) show ?thesis by simp
next
  case unchanged
  with assms(2) show ?thesis by (auto dest!: record_mutation_Inr intro: library_ok_mutation)
next
  case (published head action b meta restored metadata)
  show ?thesis by (rule library_ok_publish [OF assms(2) published(2,3)])
qed

lemma library_ok_step:
  assumes "library_ok lib" and "lib_step sha yaml_load p lib = Inr (c, l)"
  shows "library_ok l"
  using assms(2) by (rule lib_step_outcome) (use assms(1) in \<open>auto intro: library_ok_outcome library_ok_ensure_head\<close>)

lemma library_ok_run: "library_ok lib \<Longrightarrow> library_ok (run_ops (lib_step sha yaml_load) ps lib)"
  by (rule run_ops_invariant) (auto intro: library_ok_step)

section \<open>Versions are immutable\<close>

lemma file_rows_extend:
  assumes files: "filter P (files @ fnew) = filter P files"
    and blobs: "distinct (map sb_sha256 (blobs @ bnew))"
    and stored: "\<And>f. f \<in> set files \<Longrightarrow> vf_sha256 f \<in> sb_sha256 ` set blobs"
  shows "file_rows P (files @ fnew) (blobs @ bnew) = file_rows P files blobs"
proof -
  have "filter (\<lambda>b. sb_sha256 b = vf_sha256 f) (blobs @ bnew) = filter (\<lambda>b. sb_sha256 b = vf_sha256 f) blobs"
    if "f \<in> set (filter P files)" for f
  proof -
    from that stored have "vf_sha256 f \<in> sb_sha256 ` set blobs" by simp
    with blobs have "vf_sha256 f \<notin> sb_sha256 ` set bnew" by auto
    then have "\<forall>b\<in>set bnew. sb_sha256 b \<noteq> vf_sha256 f" by (metis image_eqI)
    then have "filter (\<lambda>b. sb_sha256 b = vf_sha256 f) bnew = []" by (simp add: filter_empty_conv)
    then show ?thesis by simp
  qed
  then have "map (\<lambda>f. map (\<lambda>b. (vf_path f, vf_sha256 f, sb_content b))
        (filter (\<lambda>b. sb_sha256 b = vf_sha256 f) (blobs @ bnew))) (filter P files) =
      map (\<lambda>f. map (\<lambda>b. (vf_path f, vf_sha256 f, sb_content b))
        (filter (\<lambda>b. sb_sha256 b = vf_sha256 f) blobs)) (filter P files)"
    by (intro map_cong) simp_all
  then show ?thesis unfolding file_rows_def files by (simp only:)
qed

lemma outcome_version_rows:
  assumes out: "mutation_outcome sha now cr nm rhash lib c l" and ok: "library_ok lib"
    and key: "(name, k) \<in> version_key ` set (lib_versions lib)"
  shows "version_rows l name k = version_rows lib name k"
  using out
proof cases
  case replayed
  then show ?thesis by simp
next
  case unchanged
  then show ?thesis by (auto dest!: record_mutation_Inr simp: version_rows_def)
next
  case (published head action b meta restored metadata)
  have okl: "library_ok l" by (rule library_ok_outcome [OF out ok])
  show ?thesis
  proof (rule publish_version_Inr [OF published(3)])
    fix records blobs
    let ?cur = "sk_current_version head"
    let ?P = "\<lambda>f. vf_name f = name \<and> vf_version f = k"
    assume b: "(b = None \<and> records = [] \<and> blobs = lib_blobs lib) \<or>
       (\<exists>d. b = Some d \<and> put_blobs sha d (lib_blobs lib) = Inr (records, blobs))"
      and fresh: "(nm, ?cur + 1) \<notin> version_key ` set (lib_versions lib)"
      and l: "l = \<lparr>lib_skills = upd_where (\<lambda>h. sk_name h = nm)
                  (move_head nm (?cur + 1) (b = None) meta (cr_actor cr) now) (lib_skills lib),
          lib_versions = lib_versions lib @ [new_version_row now cr nm (?cur + 1) action (b = None) records meta restored],
          lib_files = lib_files lib @ map (version_file_of nm (?cur + 1)) records, lib_blobs = blobs,
          lib_mutations = lib_mutations lib @
            [mutation_row now cr nm action ''published'' (?cur + 1) ?cur rhash metadata]\<rparr>"
    from b obtain bnew where bl: "blobs = lib_blobs lib @ bnew" by (auto dest: put_blobs_Inr)
    have "distinct (map sb_sha256 (lib_blobs lib @ bnew))" using okl unfolding library_ok_def l library.simps bl by blast
    moreover have "(nm, ?cur + 1) \<noteq> (name, k)" using fresh key by metis
    then have "filter ?P (map (version_file_of nm (?cur + 1)) records) = []"
      by (auto simp: filter_empty_conv version_file_of_def)
    then have "filter ?P (lib_files lib @ map (version_file_of nm (?cur + 1)) records) = filter ?P (lib_files lib)"
      by simp
    ultimately show ?thesis unfolding version_rows_def l library.simps bl
      using ok by (intro file_rows_extend) (simp_all add: library_ok_def)
  qed
qed

lemma version_rows_ensure_head [simp]:
  "version_rows (ensure_head sha now nm lib) name k = version_rows lib name k"
  by (simp add: version_rows_def)

lemma step_version_rows:
  assumes "lib_step sha yaml_load p lib = Inr (c, l)" and "library_ok lib"
    and "(name, k) \<in> version_key ` set (lib_versions lib)"
  shows "version_rows l name k = version_rows lib name k"
  using assms(1)
proof (rule lib_step_outcome)
  fix now cr nm rhash lib0
  assume lib0: "lib0 = lib \<or> lib0 = ensure_head sha now nm lib" and out: "mutation_outcome sha now cr nm rhash lib0 c l"
  from lib0 assms(2) have "library_ok lib0" by (auto intro: library_ok_ensure_head)
  from outcome_version_rows [OF out this] lib0 assms(3) show ?thesis by auto
qed

lemma run_version_rows:
  assumes "library_ok lib" and "(name, k) \<in> version_key ` set (lib_versions lib)"
  shows "version_rows (run_ops (lib_step sha yaml_load) ps lib) name k = version_rows lib name k"
proof -
  let ?I = "\<lambda>l. library_ok l \<and> (name, k) \<in> version_key ` set (lib_versions l) \<and>
    version_rows l name k = version_rows lib name k"
  have "?I (run_ops (lib_step sha yaml_load) ps lib)"
  proof (rule run_ops_invariant)
    show "?I lib" using assms by simp
  next
    fix p s r s'
    assume s: "?I s" and st: "lib_step sha yaml_load p s = Inr (r, s')"
    from lib_step_extends [OF st] s have "(name, k) \<in> version_key ` set (lib_versions s')" by auto
    with s st show "?I s'" using library_ok_step step_version_rows by metis
  qed
  then show ?thesis by blast
qed

lemma get_version_Some:
  "get_version lib name k = Some v \<Longrightarrow> (name, k) \<in> version_key ` set (lib_versions lib)"
  unfolding get_version_def by (auto dest!: find_Some_mem intro!: image_eqI [of _ _ v])

text \<open>
  C16: The version history is append-only. Whatever mutations were made and whatever
  mutations follow, a version that exists keeps its row, and reading its bundle gives the
  same result: the same files, or the same error for a tombstone.
\<close>

theorem versions_are_immutable:
  assumes "lib = run_ops (lib_step sha yaml_load) before empty_library"
    and "get_version lib name k = Some v"
  shows "get_version (run_ops (lib_step sha yaml_load) after lib) name k = Some v \<and>
    read_version_bundle sha (run_ops (lib_step sha yaml_load) after lib) name k =
      read_version_bundle sha lib name k"
proof -
  let ?l = "run_ops (lib_step sha yaml_load) after lib"
  have ok: "library_ok lib" unfolding assms(1) by (rule library_ok_run [OF library_ok_empty])
  have "get_version ?l name k = Some v"
    using assms(2) unfolding get_version_def by (rule version_log.found_kept)
  moreover have "version_rows ?l name k = version_rows lib name k"
    by (rule run_version_rows [OF ok get_version_Some [OF assms(2)]])
  ultimately show ?thesis using assms(2) by (simp add: read_version_bundle_def)
qed

section \<open>Mutations are idempotent\<close>

definition recorded :: "library \<Rightarrow> string \<Rightarrow> string \<Rightarrow> string \<Rightarrow> skill_commit \<Rightarrow> bool" where
  "recorded lib mutation_id name rhash c \<longleftrightarrow>
     (\<exists>m. get_mutation lib mutation_id = Some m \<and> mu_name m = name \<and> mu_request_hash m = rhash \<and>
        sc_name c = name \<and> sc_mutation_id c = mutation_id \<and> sc_action c = mu_action m \<and>
        sc_status c = mu_status m \<and> sc_version c = mu_version m \<and> sc_previous_version c = mu_previous_version m)"

lemma get_mutation_new:
  "mu_id m \<notin> mu_id ` set ms \<Longrightarrow> find (\<lambda>x. mu_id x = mu_id m) (ms @ [m]) = Some m"
  by (induction ms) auto

lemma outcome_recorded:
  assumes "mutation_outcome sha now cr name rhash lib c l"
  shows "recorded l (cr_mutation_id cr) name rhash c"
  using assms
proof cases
  case replayed
  then show ?thesis by (auto simp: replay_def recorded_def split: option.splits if_splits)
next
  case (unchanged action version metadata rec)
  let ?m = "mutation_row now cr name action ''unchanged'' version version rhash metadata"
  from record_mutation_Inr [OF unchanged(2)] have "get_mutation l (mu_id ?m) = Some ?m"
    by (simp add: get_mutation_def get_mutation_new)
  then show ?thesis unfolding recorded_def unchanged(3)
    by (intro exI [of _ ?m]) (simp add: mutation_row_def commit_of_def)
next
  case (published head action b meta restored metadata)
  show ?thesis
  proof (rule publish_version_Inr [OF published(3)])
    let ?cur = "sk_current_version head"
    let ?m = "mutation_row now cr name action ''published'' (?cur + 1) ?cur rhash metadata"
    fix records blobs
    assume "cr_mutation_id cr \<notin> mu_id ` set (lib_mutations lib)"
      and l: "l = \<lparr>lib_skills = upd_where (\<lambda>h. sk_name h = name)
                  (move_head name (?cur + 1) (b = None) meta (cr_actor cr) now) (lib_skills lib),
          lib_versions = lib_versions lib @ [new_version_row now cr name (?cur + 1) action (b = None) records meta restored],
          lib_files = lib_files lib @ map (version_file_of name (?cur + 1)) records, lib_blobs = blobs,
          lib_mutations = lib_mutations lib @ [?m]\<rparr>"
      and c: "c = commit_of cr name action ''published'' (?cur + 1) ?cur restored (get_skill l name (b = None))"
    then have "get_mutation l (mu_id ?m) = Some ?m"
      unfolding get_mutation_def l library.simps by (intro get_mutation_new) (simp add: mutation_row_def)
    then show ?thesis unfolding recorded_def c
      by (intro exI [of _ ?m]) (simp add: mutation_row_def commit_of_def)
  qed
qed

lemma recorded_run:
  "recorded lib i name rhash c \<Longrightarrow> recorded (run_ops (lib_step sha yaml_load) ps lib) i name rhash c"
  unfolding recorded_def get_mutation_def using mutation_log.found_kept by blast

definition same_commit :: "skill_commit \<Rightarrow> skill_commit \<Rightarrow> bool" where
  "same_commit c c' \<longleftrightarrow>
     sc_name c' = sc_name c \<and> sc_mutation_id c' = sc_mutation_id c \<and> sc_action c' = sc_action c \<and>
     sc_status c' = sc_status c \<and> sc_version c' = sc_version c \<and> sc_previous_version c' = sc_previous_version c"

lemma recorded_replay:
  assumes "recorded lib i name rhash c"
  shows "\<exists>c'. replay lib i name rhash = Inr (Some c') \<and> sc_replayed c' \<and> same_commit c c'"
  using assms by (auto simp: recorded_def replay_def same_commit_def)

lemma outcome_names: "mutation_outcome sha now cr name rhash lib c l \<Longrightarrow>
  sk_name ` set (lib_skills l) = sk_name ` set (lib_skills lib)"
proof (induction rule: mutation_outcome.induct)
  case (unchanged action version metadata l c rec)
  then show ?case by (auto dest!: record_mutation_Inr)
next
  case (published head action b meta restored metadata c l)
  show ?case
  proof (rule publish_version_Inr [OF published(3)])
    fix records blobs
    let ?f = "move_head name (sk_current_version head + 1) (b = None) meta (cr_actor cr) now"
    assume l: "l = \<lparr>lib_skills = upd_where (\<lambda>h. sk_name h = name) ?f (lib_skills lib),
          lib_versions = lib_versions lib @
            [new_version_row now cr name (sk_current_version head + 1) action (b = None) records meta restored],
          lib_files = lib_files lib @ map (version_file_of name (sk_current_version head + 1)) records,
          lib_blobs = blobs,
          lib_mutations = lib_mutations lib @
            [mutation_row now cr name action ''published'' (sk_current_version head + 1)
              (sk_current_version head) rhash metadata]\<rparr>"
    have "map sk_name (upd_where (\<lambda>h. sk_name h = name) ?f (lib_skills lib)) = map sk_name (lib_skills lib)"
      by (rule map_upd_where) (simp add: move_head_def)
    then show ?thesis unfolding l library.simps by (metis image_set)
  qed
qed simp

lemma find_head_names: "find_head lib name \<noteq> None \<longleftrightarrow> name \<in> sk_name ` set (lib_skills lib)"
  unfolding find_head_def by (simp add: find_None_name)

lemma step_names:
  assumes "lib_step sha yaml_load p lib = Inr (c, l)"
  shows "sk_name ` set (lib_skills lib) \<subseteq> sk_name ` set (lib_skills l)"
  using assms by (rule lib_step_outcome) (auto dest!: outcome_names simp: ensure_head_def split: if_splits)

lemma run_names:
  assumes "find_head lib name \<noteq> None"
  shows "find_head (run_ops (lib_step sha yaml_load) ps lib) name \<noteq> None"
  unfolding find_head_names
  by (rule run_ops_invariant) (use assms find_head_names step_names in blast)+

lemma ensure_head_found: "find_head (ensure_head sha now name lib) name \<noteq> None"
  unfolding find_head_names by (auto simp: ensure_head_def new_head_def find_head_def find_None_name)

lemma ensure_head_noop: "find_head lib name \<noteq> None \<Longrightarrow> ensure_head sha now name lib = lib"
  by (simp add: ensure_head_def)

lemma version_has_head:
  assumes ok: "library_ok lib" and key: "(name, k) \<in> version_key ` set (lib_versions lib)"
  obtains head where "find_head lib name = Some head" "0 < sk_current_version head"
proof -
  from key obtain v where v: "v \<in> set (lib_versions lib)" "sv_name v = name" by auto
  with ok obtain h where h: "h \<in> set (lib_skills lib)" "sk_name h = name" "1 \<le> sk_current_version h"
    unfolding library_ok_def version_row_ok_def by force
  have d: "distinct (map sk_name (lib_skills lib))" using ok unfolding library_ok_def by blast
  from find_distinct_key [OF d h(1)] h that show thesis by (simp add: find_head_def)
qed

lemma with_live_head_version:
  assumes w: "with_live_head cr name rhash lib act = Inr (c, l)" and ok: "library_ok lib"
    and out: "mutation_outcome sha now cr name rhash lib c l"
  shows "\<exists>k. (name, k) \<in> version_key ` set (lib_versions l)"
proof -
  from w obtain head where h: "find_head lib name = Some head" "0 < sk_current_version head"
    by (auto simp: with_live_head_def Let_def split: option.splits if_splits)
  from find_head_Some [OF h(1)] ok have "head_ok (lib_versions lib) head" "sk_name head = name"
    unfolding library_ok_def by auto
  with h have "(name, sk_current_version head) \<in> version_key ` set (lib_versions lib)"
    unfolding head_ok_def by auto
  moreover obtain new where "lib_versions l = lib_versions lib @ new" using outcome_extends [OF out] by blast
  ultimately have "(name, sk_current_version head) \<in> version_key ` set (lib_versions l)" by auto
  then show ?thesis by blast
qed

fun at_time :: "rat \<Rightarrow> lib_op \<Rightarrow> lib_op" where
  "at_time t (CommitBundle now cr files limits base_version) = CommitBundle t cr files limits base_version"
| "at_time t (CommitRollback now cr target) = CommitRollback t cr target"
| "at_time t (CommitDelete now cr) = CommitDelete t cr"

lemma retry_live_head:
  assumes "library_ok lib" and "(name, k) \<in> version_key ` set (lib_versions lib)"
    and "recorded lib (cr_mutation_id cr) name rhash c"
  shows "\<exists>c'. with_live_head cr name rhash lib act = Inr (c', lib) \<and> sc_replayed c' \<and> same_commit c c'"
proof (rule version_has_head [OF assms(1,2)])
  fix head
  assume h: "find_head lib name = Some head" "0 < sk_current_version head"
  from recorded_replay [OF assms(3)] obtain c' where
    "replay lib (cr_mutation_id cr) name rhash = Inr (Some c')" "sc_replayed c'" "same_commit c c'" by blast
  with h show ?thesis by (intro exI [of _ c']) (simp add: with_live_head_def)
qed

lemma retry_bundle:
  assumes "find_head lib name \<noteq> None"
    and "recorded lib (cr_mutation_id cr) name (bundle_request_hash sha name (sm_tree_sha256 meta)) c"
  shows "\<exists>c'. commit_clean_bundle sha t cr name clean meta base_version lib = Inr (c', lib) \<and>
    sc_replayed c' \<and> same_commit c c'"
proof -
  from assms(1) obtain head where h: "find_head lib name = Some head" by blast
  from recorded_replay [OF assms(2)] obtain c' where
    "replay lib (cr_mutation_id cr) name (bundle_request_hash sha name (sm_tree_sha256 meta)) = Inr (Some c')"
    "sc_replayed c'" "same_commit c c'" by blast
  with h show ?thesis
    by (intro exI [of _ c']) (simp add: commit_clean_bundle_def ensure_head_noop [OF assms(1)])
qed

lemma live_head_replays:
  assumes "library_ok lib" and "library_ok later" and "mutation_outcome sha now cr name h lib c l"
    and "\<exists>act. with_live_head cr name h lib act = Inr (c, l)"
    and "\<And>i name h c. recorded l i name h c \<Longrightarrow> recorded later i name h c"
    and "\<And>name k. (name, k) \<in> version_key ` set (lib_versions l) \<Longrightarrow> (name, k) \<in> version_key ` set (lib_versions later)"
  shows "\<exists>c'. with_live_head cr name h later act = Inr (c', later) \<and> sc_replayed c' \<and> same_commit c c'"
proof -
  from assms(4) with_live_head_version [OF _ assms(1,3)] obtain k where "(name, k) \<in> version_key ` set (lib_versions l)"
    by blast
  from retry_live_head [OF assms(2) assms(6) [OF this] assms(5) [OF outcome_recorded [OF assms(3)]]] show ?thesis .
qed

lemma bundle_replays:
  assumes "commit_bundle sha yaml_load now cr files limits base_version lib = Inr (c, l)"
    and "\<And>i name h c. recorded l i name h c \<Longrightarrow> recorded later i name h c"
    and "\<And>name. find_head l name \<noteq> None \<Longrightarrow> find_head later name \<noteq> None"
  shows "\<exists>c'. commit_bundle sha yaml_load t cr files limits base_version later = Inr (c', later) \<and>
    sc_replayed c' \<and> same_commit c c'"
  using assms(1)
proof (rule bundle_outcome)
  fix name clean and meta :: skill_meta
  let ?h = "bundle_request_hash sha name (sm_tree_sha256 meta)"
  assume v: "validate_skill_name (cr_name cr) = Inr name" "validate_bundle yaml_load name files limits = Inr clean"
    "bundle_metadata sha yaml_load name clean = Inr meta"
    and out: "mutation_outcome sha now cr name ?h (ensure_head sha now name lib) c l"
  have "find_head l name \<noteq> None"
    using ensure_head_found outcome_names [OF out] unfolding find_head_names by blast
  from retry_bundle [OF assms(3) [OF this] assms(2) [OF outcome_recorded [OF out]]]
  show ?thesis by (simp add: commit_bundle_def v)
qed

text \<open>
  C17: Mutations are idempotent. A mutation that succeeded, sent again with the same id and
  content at any later time and after any other mutations, is answered from the ledger: the
  answer is marked as replayed, carries the first result's version, previous version,
  action and status, and the library does not change.
\<close>

theorem repeated_mutation_replays:
  assumes "lib = run_ops (lib_step sha yaml_load) before empty_library"
    and "lib_step sha yaml_load p lib = Inr (c, l)"
    and "later = run_ops (lib_step sha yaml_load) after l"
  shows "\<exists>c'. lib_step sha yaml_load (at_time t p) later = Inr (c', later) \<and> sc_replayed c' \<and> same_commit c c'"
proof -
  have ok: "library_ok lib" unfolding assms(1) by (rule library_ok_run [OF library_ok_empty])
  have okl: "library_ok later" unfolding assms(3) by (rule library_ok_run [OF library_ok_step [OF ok assms(2)]])
  have rec: "recorded later i name rhash c" if "recorded l i name rhash c" for i name rhash c
    unfolding assms(3) by (rule recorded_run [OF that])
  have key: "(name, k) \<in> version_key ` set (lib_versions later)"
    if "(name, k) \<in> version_key ` set (lib_versions l)" for name k
    using that unfolding assms(3) using version_log.entry_kept by blast
  note live = live_head_replays [OF ok okl _ _ rec key]
  show ?thesis
  proof (cases p)
    case (CommitBundle now cr files limits base_version)
    have "find_head later name \<noteq> None" if "find_head l name \<noteq> None" for name
      using that unfolding assms(3) by (rule run_names)
    with bundle_replays [OF _ rec] assms(2) show ?thesis unfolding CommitBundle by simp
  next
    case (CommitRollback now cr target)
    with assms(2) have "commit_rollback sha yaml_load now cr target lib = Inr (c, l)" by simp
    then show ?thesis
      by (rule rollback_outcome) (use live in \<open>simp add: CommitRollback commit_rollback_def Let_def\<close>)
  next
    case (CommitDelete now cr)
    with assms(2) have "commit_delete sha now cr lib = Inr (c, l)" by simp
    then show ?thesis
      by (rule delete_outcome) (use live in \<open>simp add: CommitDelete commit_delete_def Let_def\<close>)
  qed
qed

section \<open>A committed bundle reads back\<close>

text \<open>SHA-256 tells the files of the bundle apart, and from the blobs already stored.\<close>

definition collision_free :: "(bytes \<Rightarrow> string) \<Rightarrow> library \<Rightarrow> skill_bundle \<Rightarrow> bool" where
  "collision_free sha lib b \<longleftrightarrow>
     inj_on sha (snd ` set b) \<and>
     (\<forall>x\<in>set (lib_blobs lib). \<forall>d\<in>snd ` set b. sb_sha256 x = sha d \<longrightarrow> sb_content x = d)"

lemma fold_blob_insert_subset: "set (fold blob_insert rows t) \<subseteq> set t \<union> set rows"
  by (induction rows arbitrary: t) (fastforce simp: blob_insert_def split: if_splits)+

definition blob_row :: "(bytes \<Rightarrow> string) \<Rightarrow> string \<times> bytes \<Rightarrow> skill_blob" where
  "blob_row sha = (\<lambda>(p, d). \<lparr>sb_sha256 = sha d, sb_size = int (length d), sb_content = d\<rparr>)"

lemma mapE_blob_of:
  assumes "distinct (map fst b)" and "set xs \<subseteq> set b"
  shows "mapE (blob_of b) (map (file_record_of sha) xs) = Inr (map (blob_row sha) xs)"
  using assms(2)
proof (induction xs)
  case Nil
  then show ?case by simp
next
  case (Cons x xs)
  obtain p d where x: "x = (p, d)" by (cases x)
  with Cons.prems assms(1) have "map_of b p = Some d" by simp
  then have "blob_of b (file_record_of sha x) = Inr (blob_row sha x)"
    by (simp add: blob_of_def file_record_of_def blob_row_def x)
  with Cons show ?case by simp
qed

lemma put_blobs_clean:
  assumes "clean_bundle b"
  shows "put_blobs sha b t =
    Inr (map (file_record_of sha) (sort_key fst b), fold blob_insert (map (blob_row sha) (sort_key fst b)) t)"
proof -
  have "distinct (map fst b)" using assms by (simp add: clean_bundle_def)
  from mapE_blob_of [OF this, of "sort_key fst b" sha] show ?thesis
    by (simp add: put_blobs_def records_clean [OF assms])
qed

lemma stored_blob:
  assumes distinct: "distinct (map sb_sha256 (lib_blobs lib))"
    and free: "collision_free sha lib b" and d: "(p, d) \<in> set b"
  shows "\<exists>x. sb_content x = d \<and>
    filter (\<lambda>x. sb_sha256 x = sha d) (fold blob_insert (map (blob_row sha) (sort_key fst b)) (lib_blobs lib)) = [x]"
proof -
  let ?rows = "map (blob_row sha) (sort_key fst b)"
  let ?t = "fold blob_insert ?rows (lib_blobs lib)"
  have "sha d \<in> sb_sha256 ` set ?rows" using d by (force simp: blob_row_def)
  then obtain x where x: "x \<in> set ?t" "sb_sha256 x = sha d"
    unfolding fold_blob_insert_keys [of ?rows "lib_blobs lib", symmetric]
    by (metis (no_types, lifting) UnI2 fold_blob_insert_keys imageE)
  have "sb_content x = d"
  proof (cases "x \<in> set (lib_blobs lib)")
    case True
    with free x d show ?thesis unfolding collision_free_def by force
  next
    case False
    with fold_blob_insert_subset x(1) have "x \<in> set ?rows" by blast
    then obtain q e where e: "(q, e) \<in> set b" "x = blob_row sha (q, e)" by auto
    with x have "sha e = sha d" by (simp add: blob_row_def)
    moreover have "e \<in> snd ` set b" "d \<in> snd ` set b" using e d by force+
    ultimately have "e = d" using free unfolding collision_free_def inj_on_def by blast
    with e show ?thesis by (simp add: blob_row_def)
  qed
  moreover have "filter (\<lambda>y. sb_sha256 y = sb_sha256 x) ?t = [x]"
    by (rule filter_key_single [OF fold_blob_insert_distinct [OF distinct] x(1)])
  ultimately show ?thesis using x(2) by auto
qed

lemma concat_singletons: "(\<And>x. x \<in> set xs \<Longrightarrow> f x = [g x]) \<Longrightarrow> concat (map f xs) = map g xs"
  by (induction xs) auto

lemma new_version_rows:
  assumes ok: "library_ok lib" and clean: "clean_bundle b" and free: "collision_free sha lib b"
    and fresh: "(name, k) \<notin> version_key ` set (lib_versions lib)"
  shows "file_rows (\<lambda>f. vf_name f = name \<and> vf_version f = k)
      (lib_files lib @ map (version_file_of name k) (map (file_record_of sha) (sort_key fst b)))
      (fold blob_insert (map (blob_row sha) (sort_key fst b)) (lib_blobs lib)) =
    map (\<lambda>(p, d). (p, sha d, d)) (sort_key fst b)"
proof -
  let ?P = "\<lambda>f. vf_name f = name \<and> vf_version f = k"
  let ?t = "fold blob_insert (map (blob_row sha) (sort_key fst b)) (lib_blobs lib)"
  let ?file = "\<lambda>x. version_file_of name k (file_record_of sha x)"
  let ?row = "\<lambda>f x. (vf_path f, vf_sha256 f, sb_content x)"
  have d: "distinct (map sb_sha256 (lib_blobs lib))" using ok unfolding library_ok_def by blast
  have "\<And>f. f \<in> set (lib_files lib) \<Longrightarrow> file_key f \<noteq> (name, k)"
    using ok fresh unfolding library_ok_def by metis
  then have "filter ?P (lib_files lib) = []" by (auto simp: filter_empty_conv)
  moreover have "filter ?P (map ?file (sort_key fst b)) = map ?file (sort_key fst b)"
    by (simp add: version_file_of_def)
  ultimately have f: "filter ?P (lib_files lib @ map ?file (sort_key fst b)) = map ?file (sort_key fst b)" by simp
  have "map (?row (?file x)) (filter (\<lambda>y. sb_sha256 y = vf_sha256 (?file x)) ?t) = [(fst x, sha (snd x), snd x)]"
    if "x \<in> set (sort_key fst b)" for x
  proof -
    from that have "(fst x, snd x) \<in> set b" by simp
    from stored_blob [OF d free this] obtain y where
      "sb_content y = snd x" "filter (\<lambda>z. sb_sha256 z = sha (snd x)) ?t = [y]" by blast
    moreover have "vf_sha256 (?file x) = sha (snd x)" "vf_path (?file x) = fst x"
      by (simp_all add: version_file_of_def file_record_of_def split: prod.splits)
    ultimately show ?thesis by simp
  qed
  then have "concat (map (\<lambda>x. map (?row (?file x)) (filter (\<lambda>y. sb_sha256 y = vf_sha256 (?file x)) ?t)) (sort_key fst b)) =
    map (\<lambda>x. (fst x, sha (snd x), snd x)) (sort_key fst b)" by (rule concat_singletons)
  then have rows: "file_rows ?P (lib_files lib @ map (version_file_of name k) (map (file_record_of sha) (sort_key fst b))) ?t =
    sort_key fst (map (\<lambda>x. (fst x, sha (snd x), snd x)) (sort_key fst b))"
    unfolding file_rows_def map_map comp_def f by (simp only:)
  have "sort_key fst (map (\<lambda>x. (fst x, sha (snd x), snd x)) (sort_key fst b)) =
    map (\<lambda>x. (fst x, sha (snd x), snd x)) (sort_key fst b)"
    by (rule sort_key_id_if_sorted) (simp add: comp_def)
  then show ?thesis unfolding rows by (simp add: split_def)
qed

lemma assemble_rows:
  assumes "distinct (map fst (a @ b))"
  shows "foldE (assemble_row sha) (map (\<lambda>(p, d). (p, sha d, d)) b) a = Inr (a @ b)"
  using assms
proof (induction b arbitrary: a)
  case Nil
  then show ?case by simp
next
  case (Cons x b)
  obtain p d where x: "x = (p, d)" by (cases x)
  with Cons.prems have "p \<notin> fst ` set a" by auto
  with Cons.prems Cons.IH [of "a @ [x]"] show ?case by (simp add: x assemble_row_def bput_fresh)
qed

lemma publish_reads_back:
  assumes ok: "library_ok lib" and head: "find_head lib name = Some head"
    and clean: "clean_bundle b" and free: "collision_free sha lib b"
    and tree: "bundle_tree_sha256 sha (as_files b) = Inr (sm_tree_sha256 meta)"
    and pub: "publish_version sha now cr name action (Some b) meta restored rhash metadata (sk_current_version head) lib
      = Inr (c, l)"
  shows "\<exists>h. read_current_bundle sha l name = Inr (h, sort_key fst b) \<and> sk_current_version h = sk_current_version head + 1"
proof (rule publish_version_Inr [OF pub])
  fix records blobs
  let ?k = "sk_current_version head + 1"
  let ?f = "move_head name ?k (Some b = None) meta (cr_actor cr) now"
  let ?row = "new_version_row now cr name ?k action (Some b = None) records meta restored"
  assume put: "(Some b = None \<and> records = [] \<and> blobs = lib_blobs lib) \<or>
     (\<exists>d. Some b = Some d \<and> put_blobs sha d (lib_blobs lib) = Inr (records, blobs))"
    and fresh: "(name, ?k) \<notin> version_key ` set (lib_versions lib)"
    and l: "l = \<lparr>lib_skills = upd_where (\<lambda>h. sk_name h = name) ?f (lib_skills lib),
          lib_versions = lib_versions lib @ [?row],
          lib_files = lib_files lib @ map (version_file_of name ?k) records, lib_blobs = blobs,
          lib_mutations = lib_mutations lib @
            [mutation_row now cr name action ''published'' ?k (sk_current_version head) rhash metadata]\<rparr>"
  from put have "put_blobs sha b (lib_blobs lib) = Inr (records, blobs)" by auto
  with put_blobs_clean [OF clean] have rb: "records = map (file_record_of sha) (sort_key fst b)"
    "blobs = fold blob_insert (map (blob_row sha) (sort_key fst b)) (lib_blobs lib)" by simp_all
  have rows: "version_rows l name ?k = map (\<lambda>(p, d). (p, sha d, d)) (sort_key fst b)"
    unfolding version_rows_def l library.simps rb by (rule new_version_rows [OF ok clean free fresh])
  have version: "get_version l name ?k = Some ?row"
  proof -
    have "distinct (map version_key (lib_versions l))"
      using library_ok_publish [OF ok head pub] unfolding library_ok_def by blast
    moreover have "?row \<in> set (lib_versions l)" unfolding l by simp
    ultimately have "find (\<lambda>v. version_key v = version_key ?row) (lib_versions l) = Some ?row"
      by (rule find_distinct_key)
    then show ?thesis by (simp add: get_version_def new_version_row_def)
  qed
  have d: "distinct (map fst ([] @ sort_key fst b))" using clean_sort [OF clean] unfolding clean_bundle_def by simp
  have whole: "read_version_bundle sha l name ?k = Inr (sort_key fst b)"
    by (simp add: read_version_bundle_def version new_version_row_def rows assemble_bundle_def
        assemble_rows [OF d, simplified] tree_sort [OF clean] tree)
  from find_head_Some [OF head] have hn: "sk_name head = name" by blast
  have pos: "0 \<le> sk_current_version head"
    using find_head_Some [OF head] ok unfolding library_ok_def head_ok_def by blast
  have "find_head l name = map_option (\<lambda>r. if sk_name r = name then ?f r else r) (find_head lib name)"
    unfolding find_head_def l library.simps by (rule find_upd_where) (simp add: move_head_def)
  then have "find_head l name = Some (?f head)" by (simp add: head hn)
  then have "get_skill l name False = Some (?f head)" using pos by (simp add: get_skill_def move_head_def)
  with whole show ?thesis by (intro exI [of _ "?f head"]) (simp add: read_current_bundle_def move_head_def)
qed

lemma replay_not_None: "replay lib i name rhash = Inr (Some c) \<Longrightarrow> sc_replayed c"
  by (auto simp: replay_def split: option.splits if_splits)

lemma commit_clean_published:
  assumes com: "commit_clean_bundle sha now cr name clean meta base_version lib = Inr (c, l)"
    and new: "sc_status c = ''published''" "\<not> sc_replayed c"
  obtains head action rhash metadata where "find_head (ensure_head sha now name lib) name = Some head"
    "publish_version sha now cr name action (Some clean) meta None rhash metadata (sk_current_version head)
       (ensure_head sha now name lib) = Inr (c, l)"
proof -
  let ?lib = "ensure_head sha now name lib"
  let ?rhash = "bundle_request_hash sha name (sm_tree_sha256 meta)"
  from com obtain head rp where head: "find_head ?lib name = Some head"
    and rp: "replay ?lib (cr_mutation_id cr) name ?rhash = Inr rp"
    by (auto simp: commit_clean_bundle_def Let_def bindE_Inr_iff split: option.splits)
  have none: "rp = None"
    using com head rp new(2) replay_not_None by (cases rp) (auto simp: commit_clean_bundle_def)
  let ?cur = "sk_current_version head"
  let ?live = "?cur > 0 \<and> \<not> sk_deleted head"
  have "\<not> (?live \<and> sk_tree_sha256 head = sm_tree_sha256 meta)"
  proof
    assume "?live \<and> sk_tree_sha256 head = sm_tree_sha256 meta"
    with com head rp none have "sc_status c = ''unchanged''"
      by (auto simp: commit_clean_bundle_def Let_def bindE_Inr_iff commit_of_def split: if_splits option.splits)
    with new(1) show False by simp
  qed
  with com head rp none have "publish_version sha now cr name (if ?live then ''update'' else ''publish'')
      (Some clean) meta None ?rhash (cr_metadata cr) ?cur ?lib = Inr (c, l)"
    by (auto simp: commit_clean_bundle_def Let_def split: if_splits option.splits)
  with head that show thesis by blast
qed

lemma validate_bundle_Inr:
  assumes "validate_bundle yaml_load name files limits = Inr clean"
  shows "coerce_skill_bundle files = Inr clean"
proof -
  from assms obtain b where "rethrow (''TypeError'' # value_errors) (coerce_skill_bundle files) = Inr b" "clean = b"
    unfolding validate_bundle_def bindE_Inr_iff by (auto simp: bindE_Inr_iff split: option.splits if_splits)
  then show ?thesis by (auto simp: rethrow_def split: sum.splits pyexc.splits if_splits)
qed

lemma bundle_metadata_tree:
  "bundle_metadata sha yaml_load name b = Inr meta \<Longrightarrow> bundle_tree_sha256 sha (as_files b) = Inr (sm_tree_sha256 meta)"
  by (auto simp: bundle_metadata_def bindE_Inr_iff split: option.splits)

text \<open>
  C15: A published bundle reads back. After a commit that published a new version, reading
  the skill's current bundle succeeds with that version and with exactly the files of the
  normalised bundle, through the shared blob store, where the paths are canonical and
  SHA-256 has no collision among the bundle's files and the blobs stored before.
\<close>

theorem published_bundle_reads_back:
  assumes "lib = run_ops (lib_step sha yaml_load) before empty_library"
    and "commit_bundle sha yaml_load now cr files limits base_version lib = Inr (c, l)"
    and "sc_status c = ''published''" and "\<not> sc_replayed c"
    and "coerce_skill_bundle files = Inr b" and "canonical_bundle b" and "collision_free sha lib b"
  shows "\<exists>head. read_current_bundle sha l (sc_name c) = Inr (head, sort_key fst b) \<and>
    sk_current_version head = sc_version c"
proof -
  have ok: "library_ok lib" unfolding assms(1) by (rule library_ok_run [OF library_ok_empty])
  from assms(2) obtain name clean and meta :: skill_meta where
    v: "validate_bundle yaml_load name files limits = Inr clean" "bundle_metadata sha yaml_load name clean = Inr meta"
    and com: "commit_clean_bundle sha now cr name clean meta base_version lib = Inr (c, l)"
    unfolding commit_bundle_def bindE_Inr_iff by blast
  have b: "clean = b" using validate_bundle_Inr [OF v(1)] assms(5) by simp
  let ?lib = "ensure_head sha now name lib"
  from commit_clean_published [OF com assms(3,4)] obtain head action rhash metadata where
    head: "find_head ?lib name = Some head"
    and pub: "publish_version sha now cr name action (Some b) meta None rhash metadata (sk_current_version head) ?lib
      = Inr (c, l)" unfolding b by blast
  have "collision_free sha ?lib b" using assms(7) by (simp add: collision_free_def)
  from publish_reads_back [OF library_ok_ensure_head [OF ok] head coerce_clean [OF assms(5,6)] this
      bundle_metadata_tree [OF v(2) [unfolded b]] pub]
  obtain h where "read_current_bundle sha l name = Inr (h, sort_key fst b)"
    "sk_current_version h = sk_current_version head + 1" by blast
  moreover have "sc_name c = name" "sc_version c = sk_current_version head + 1"
    by (rule publish_version_Inr [OF pub], simp add: commit_of_def)+
  ultimately show ?thesis by auto
qed

theorem published_bundle_reads_back_witness:
  "\<exists>c l head. lib_step (\<lambda>d. d) sample_yaml (sample_commit ''m1'' ''x'') empty_library = Inr (c, l) \<and>
     read_current_bundle (\<lambda>d. d) l ''a'' = Inr (head, [(''SKILL.md'', sample_skill_md ''x''), (''run.sh'', ''ls'')]) \<and>
     sk_current_version head = 1"
proof -
  let ?files = "[(''SKILL.md'', BytesData (sample_skill_md ''x'')), (''run.sh'', TextData ''ls'')]"
  let ?b = "[(''SKILL.md'', sample_skill_md ''x''), (''run.sh'', ''ls'')]"
  let ?com = "commit_bundle (\<lambda>d. d) sample_yaml 0 (sample_request ''m1'') ?files default_bundle_limits None empty_library"
  have "case ?com of Inl e \<Rightarrow> False
    | Inr (c, l) \<Rightarrow> sc_status c = ''published'' \<and> \<not> sc_replayed c \<and> sc_name c = ''a'' \<and> sc_version c = 1"
    by code_simp
  then obtain c l where com: "?com = Inr (c, l)"
    and c: "sc_status c = ''published''" "\<not> sc_replayed c" "sc_name c = ''a''" "sc_version c = 1"
    by (auto split: sum.splits)
  have b: "coerce_skill_bundle ?files = Inr ?b" "sort_key fst ?b = ?b" by code_simp+
  have k: "canonical_bundle ?b" unfolding canonical_bundle_def canonical_path_def by code_simp
  have f: "collision_free (\<lambda>d. d) empty_library ?b" by (simp add: collision_free_def empty_library_def)
  have e: "empty_library = run_ops (lib_step (\<lambda>d. d) sample_yaml) [] empty_library" by simp
  from published_bundle_reads_back [OF e com c(1,2) b(1) k f] com c b(2) show ?thesis
    by (auto simp: sample_commit_def)
qed

theorem versions_are_immutable_witness:
  "\<exists>v. get_version (run_ops (lib_step (\<lambda>d. d) sample_yaml)
           [CommitDelete 2 (sample_request ''m3'')]
           (run_ops (lib_step (\<lambda>d. d) sample_yaml) [sample_commit ''m1'' ''x'', sample_commit ''m2'' ''y''] empty_library))
         ''a'' 1 = Some v"
proof -
  let ?step = "lib_step (\<lambda>d. d) sample_yaml"
  let ?lib = "run_ops ?step [sample_commit ''m1'' ''x'', sample_commit ''m2'' ''y''] empty_library"
  have "get_version ?lib ''a'' 1 \<noteq> None" by code_simp
  then obtain v where "get_version ?lib ''a'' 1 = Some v" by blast
  from versions_are_immutable [OF refl this, of "[CommitDelete 2 (sample_request ''m3'')]"] show ?thesis by blast
qed

theorem repeated_mutation_replays_witness:
  "\<exists>c l. lib_step (\<lambda>d. d) sample_yaml (sample_commit ''m1'' ''x'') empty_library = Inr (c, l) \<and>
     (let later = run_ops (lib_step (\<lambda>d. d) sample_yaml) [CommitDelete 2 (sample_request ''m3'')] l
      in \<exists>c'. lib_step (\<lambda>d. d) sample_yaml (at_time 9 (sample_commit ''m1'' ''x'')) later = Inr (c', later) \<and>
           sc_replayed c' \<and> sc_version c' = 1)"
proof -
  let ?step = "lib_step (\<lambda>d. d) sample_yaml"
  have "case ?step (sample_commit ''m1'' ''x'') empty_library of Inl e \<Rightarrow> False | Inr (c, l) \<Rightarrow> sc_version c = 1"
    by code_simp
  then obtain c l where s: "?step (sample_commit ''m1'' ''x'') empty_library = Inr (c, l)" and c: "sc_version c = 1"
    by (auto split: sum.splits)
  have e: "empty_library = run_ops ?step [] empty_library" by simp
  from repeated_mutation_replays [OF e s refl, of 9 "[CommitDelete 2 (sample_request ''m3'')]"] s c
  show ?thesis unfolding same_commit_def Let_def by auto
qed

end
