(* ===== verification/Candidates.thy ===== *)
theory Candidates imports Library begin

text \<open>
  Skill candidates: team\_skills/candidates/repository.py over the candidate tables of
  teamEvolver/database/schema/003\_skills.sql, as the bound tenant sees them (see theory
  \<open>Library\<close>). One call is one atomic step: it holds the candidate's row lock, and \<open>create\<close>
  the advisory lock of the skill name. \<open>now\<close> is the transaction's clock.
\<close>

section \<open>Rows\<close>

record candidate =
  cd_candidate_id :: string
  cd_skill_name :: string
  cd_proposed_action :: string
  cd_status :: string
  cd_verdict :: string
  cd_revision :: int
  cd_base_version :: int
  cd_tree_sha256 :: string
  cd_reviewed :: bool
  cd_adopted :: bool
  cd_rejected :: bool
  cd_published_version :: int
  cd_mutation_id :: string
  cd_validate_task_id :: string
  cd_detail :: pydict
  cd_evaluation :: pydict
  cd_decision :: pydict
  cd_created_at :: rat
  cd_updated_at :: rat
  cd_decided_at :: "rat option"

record candidate_file =
  cf_candidate_id :: string
  cf_path :: string
  cf_sha256 :: string
  cf_size :: int

record candidate_event =
  ce_candidate_id :: string
  ce_seq :: int
  ce_kind :: string
  ce_from_status :: string
  ce_to_status :: string
  ce_revision :: int
  ce_actor :: string
  ce_detail :: pydict
  ce_created_at :: rat

record candidate_db =
  cdb_candidates :: "candidate list"
  cdb_files :: "candidate_file list"
  cdb_events :: "candidate_event list"
  cdb_blobs :: "skill_blob list"

definition candidate_statuses :: "string list" where
  "candidate_statuses = [''open'', ''validating'', ''published'', ''rejected'']"

definition terminal_statuses :: "string list" where
  "terminal_statuses = [''published'', ''rejected'']"

definition verdicts :: "string list" where
  "verdicts = [''accept'', ''reject'', ''inconclusive'']"

definition candidate_transitions :: "(string \<times> string list) list" where
  "candidate_transitions =
     [(''open'', [''validating'', ''published'', ''rejected'']),
      (''validating'', [''open'', ''published'', ''rejected'']),
      (''published'', []), (''rejected'', [])]"

definition may_transition :: "string \<Rightarrow> string \<Rightarrow> bool" where
  "may_transition from_status to_status \<longleftrightarrow>
     (case map_of candidate_transitions from_status of None \<Rightarrow> False | Some ts \<Rightarrow> to_status \<in> set ts)"

abbreviation state_error :: "string \<Rightarrow> pyexc" where
  "state_error msg \<equiv> PyExc ''CandidateStateError'' msg"

definition new_candidate_id :: "string \<Rightarrow> string \<Rightarrow> string \<Rightarrow> string" where
  "new_candidate_id stamp uuid_hex skill_name =
     stamp @ ''-'' @ text_lower skill_name @ ''-'' @ take 8 uuid_hex"

section \<open>Reads\<close>

definition get_candidate :: "candidate_db \<Rightarrow> string \<Rightarrow> candidate option" where
  "get_candidate db cid = find (\<lambda>r. cd_candidate_id r = cid) (cdb_candidates db)"

definition require_candidate :: "candidate_db \<Rightarrow> string \<Rightarrow> pyexc + candidate" where
  "require_candidate db cid =
     (case get_candidate db cid of
        None \<Rightarrow> Inl (not_found (''candidate not found: '' @ cid))
      | Some r \<Rightarrow> Inr r)"

definition scope_statuses :: "string \<Rightarrow> string list option" where
  "scope_statuses scope =
     map_of [(''open'', [''open'', ''validating'']), (''processed'', [''published'', ''rejected'']),
             (''all'', candidate_statuses)] scope"

text \<open>\<open>ORDER BY updated_at DESC, candidate_id LIMIT l OFFSET o\<close>, and the count.\<close>

definition list_candidates :: "candidate_db \<Rightarrow> string \<Rightarrow> int \<Rightarrow> int \<Rightarrow> pyexc + (candidate list \<times> int)" where
  "list_candidates db scope limit offset =
     (case scope_statuses scope of
        None \<Rightarrow> Inl (library_error (''invalid candidate scope: '' @ repr_str scope))
      | Some statuses \<Rightarrow>
          let l = max 1 (min 200 limit); o' = max 0 offset;
              hit = filter (\<lambda>r. cd_status r \<in> set statuses) (cdb_candidates db)
          in Inr (take (nat l) (drop (nat o')
                    (sort_key (\<lambda>r. - cd_updated_at r) (sort_key cd_candidate_id hit))),
                  int (length hit)))"

definition is_live :: "candidate \<Rightarrow> bool" where
  "is_live r \<longleftrightarrow> cd_status r \<in> {''open'', ''validating''}"

definition live_for_skill :: "candidate_db \<Rightarrow> string \<Rightarrow> candidate option" where
  "live_for_skill db skill_name = find (\<lambda>r. cd_skill_name r = skill_name \<and> is_live r) (cdb_candidates db)"

definition candidate_rows :: "candidate_db \<Rightarrow> string \<Rightarrow> (string \<times> string \<times> bytes) list" where
  "candidate_rows db cid =
     sort_key fst (concat (map (\<lambda>f.
       map (\<lambda>b. (cf_path f, cf_sha256 f, sb_content b)) (filter (\<lambda>b. sb_sha256 b = cf_sha256 f) (cdb_blobs db)))
       (filter (\<lambda>f. cf_candidate_id f = cid) (cdb_files db))))"

definition read_candidate_bundle :: "(bytes \<Rightarrow> string) \<Rightarrow> candidate_db \<Rightarrow> string \<Rightarrow> pyexc + skill_bundle" where
  "read_candidate_bundle sha db cid =
     bindE (assemble_bundle sha (candidate_rows db cid)) (\<lambda>b.
     bindE (require_candidate db cid) (\<lambda>item.
     bindE (bundle_tree_sha256 sha (as_files b)) (\<lambda>tree.
       if tree \<noteq> cd_tree_sha256 item
       then Inl (PyExc ''RuntimeError'' ''candidate bundle tree hash mismatch'') else Inr b)))"

definition candidate_events :: "candidate_db \<Rightarrow> string \<Rightarrow> candidate_event list" where
  "candidate_events db cid = sort_key ce_seq (filter (\<lambda>e. ce_candidate_id e = cid) (cdb_events db))"

section \<open>Write helpers\<close>

definition next_seq :: "candidate_event list \<Rightarrow> string \<Rightarrow> int" where
  "next_seq events cid = fold max (map ce_seq (filter (\<lambda>e. ce_candidate_id e = cid) events)) 0 + 1"

definition add_event ::
  "rat \<Rightarrow> string \<Rightarrow> string \<Rightarrow> string \<Rightarrow> string \<Rightarrow> int \<Rightarrow> string \<Rightarrow> pydict \<Rightarrow> candidate_db \<Rightarrow> candidate_db" where
  "add_event now cid kind from_status to_status revision actor detail db =
     db\<lparr>cdb_events := cdb_events db @
       [\<lparr>ce_candidate_id = cid, ce_seq = next_seq (cdb_events db) cid, ce_kind = kind,
         ce_from_status = from_status, ce_to_status = to_status, ce_revision = revision,
         ce_actor = actor, ce_detail = detail, ce_created_at = now\<rparr>]\<rparr>"

definition write_files ::
  "(bytes \<Rightarrow> string) \<Rightarrow> string \<Rightarrow> skill_bundle \<Rightarrow> candidate_db \<Rightarrow> pyexc + candidate_db" where
  "write_files sha cid b db =
     bindE (put_blobs sha b (cdb_blobs db)) (\<lambda>(records, blobs).
       Inr (db\<lparr>cdb_blobs := blobs,
              cdb_files := filter (\<lambda>f. cf_candidate_id f \<noteq> cid) (cdb_files db) @
                map (\<lambda>r. \<lparr>cf_candidate_id = cid, cf_path = fr_path r, cf_sha256 = fr_sha256 r,
                          cf_size = fr_size r\<rparr>) records\<rparr>))"

definition check_revision :: "candidate \<Rightarrow> int option \<Rightarrow> pyexc + unit" where
  "check_revision item expected_revision =
     (case expected_revision of
        None \<Rightarrow> Inr ()
      | Some n \<Rightarrow> if n \<noteq> cd_revision item
                then Inl (state_error ''candidate revision changed; reload before acting'') else Inr ())"

text \<open>The partial unique index \<open>skill_candidates_live_skill_idx\<close>.\<close>

definition live_index_ok :: "candidate list \<Rightarrow> bool" where
  "live_index_ok rows = distinct (map cd_skill_name (filter is_live rows))"

text \<open>\<open>UPDATE skill_candidates SET f WHERE candidate_id = cid\<close>, and the insert of a row.\<close>

definition update_candidate :: "string \<Rightarrow> (candidate \<Rightarrow> candidate) \<Rightarrow> candidate_db \<Rightarrow> pyexc + candidate_db" where
  "update_candidate cid f db =
     (let rows = upd_where (\<lambda>r. cd_candidate_id r = cid) f (cdb_candidates db)
      in if \<exists>r\<in>set rows. cd_base_version r < 0 then Inl (PyExc ''CheckViolationError'' '''')
         else if live_index_ok rows then Inr (db\<lparr>cdb_candidates := rows\<rparr>)
         else Inl (PyExc ''UniqueViolationError'' ''''))"

definition insert_candidate :: "candidate \<Rightarrow> candidate_db \<Rightarrow> pyexc + candidate_db" where
  "insert_candidate r db =
     (if cd_base_version r < 0 then Inl (PyExc ''CheckViolationError'' '''')
      else if cd_candidate_id r \<in> cd_candidate_id ` set (cdb_candidates db) \<or>
              \<not> live_index_ok (cdb_candidates db @ [r])
      then Inl (PyExc ''UniqueViolationError'' '''')
      else Inr (db\<lparr>cdb_candidates := cdb_candidates db @ [r]\<rparr>))"

text \<open>Every mutation ends by reading the row back.\<close>

definition returning :: "string \<Rightarrow> candidate_db \<Rightarrow> pyexc + (candidate option \<times> candidate_db)" where
  "returning cid db = bindE (require_candidate db cid) (\<lambda>r. Inr (Some r, db))"

section \<open>Mutations\<close>

definition revise_row :: "rat \<Rightarrow> string \<Rightarrow> pydict \<Rightarrow> int \<Rightarrow> int \<Rightarrow> candidate \<Rightarrow> candidate" where
  "revise_row now tree detail base_version revision r =
     r\<lparr>cd_revision := revision, cd_tree_sha256 := tree, cd_detail := detail,
       cd_base_version := base_version, cd_status := ''open'', cd_verdict := '''', cd_evaluation := [],
       cd_decision := [], cd_validate_task_id := '''', cd_updated_at := now\<rparr>"

definition revise ::
  "(bytes \<Rightarrow> string) \<Rightarrow> rat \<Rightarrow> candidate \<Rightarrow> skill_bundle \<Rightarrow> string \<Rightarrow> pydict \<Rightarrow> int \<Rightarrow> string \<Rightarrow> candidate_db \<Rightarrow>
   pyexc + (candidate option \<times> candidate_db)" where
  "revise sha now item b tree detail base_version actor db =
     (let cid = cd_candidate_id item; revision = cd_revision item + 1;
          merged = dmerge (cd_detail item) detail
      in bindE (update_candidate cid (revise_row now tree merged base_version revision) db) (\<lambda>db1.
         bindE (write_files sha cid b db1) (\<lambda>db2.
           returning cid (add_event now cid ''revised'' (cd_status item) ''open'' revision actor
             [(''tree_sha256'', PStr tree)] db2))))"

record create_request =
  cq_skill_name :: string
  cq_bundle :: bundle_files
  cq_limits :: bundle_limits
  cq_proposed_action :: string
  cq_base_version :: int
  cq_detail :: pydict
  cq_candidate_id :: string
  cq_actor :: string

definition new_candidate :: "rat \<Rightarrow> create_request \<Rightarrow> string \<Rightarrow> string \<Rightarrow> string \<Rightarrow> candidate" where
  "new_candidate now q cid name tree =
     \<lparr>cd_candidate_id = cid, cd_skill_name = name, cd_proposed_action = cq_proposed_action q,
      cd_status = ''open'', cd_verdict = '''', cd_revision = 1, cd_base_version = cq_base_version q,
      cd_tree_sha256 = tree, cd_reviewed = False, cd_adopted = False, cd_rejected = False,
      cd_published_version = 0, cd_mutation_id = '''', cd_validate_task_id = '''',
      cd_detail = cq_detail q, cd_evaluation = [], cd_decision = [], cd_created_at = now,
      cd_updated_at = now, cd_decided_at = None\<rparr>"

text \<open>\<open>stamp\<close> and \<open>uuid_hex\<close> are the clock and the random id \<open>new_candidate_id\<close> draws.\<close>

definition create_candidate ::
  "(bytes \<Rightarrow> string) \<Rightarrow> (string \<Rightarrow> string + pyval) \<Rightarrow> rat \<Rightarrow> string \<Rightarrow> string \<Rightarrow> create_request \<Rightarrow> candidate_db \<Rightarrow>
   pyexc + (candidate option \<times> candidate_db)" where
  "create_candidate sha yaml_load now stamp uuid_hex q db =
     bindE (validate_skill_name (cq_skill_name q)) (\<lambda>name.
       if cq_proposed_action q \<notin> {''create'', ''update''}
       then Inl (library_error (''invalid proposed_action: '' @ repr_str (cq_proposed_action q)))
       else bindE (validate_bundle yaml_load name (cq_bundle q) (cq_limits q)) (\<lambda>clean.
            bindE (bundle_metadata sha yaml_load name clean) (\<lambda>meta.
              let tree = sm_tree_sha256 meta
              in case live_for_skill db name of
                   Some live \<Rightarrow>
                     revise sha now live clean tree (cq_detail q) (cq_base_version q) (cq_actor q) db
                 | None \<Rightarrow>
                     let cid = (if cq_candidate_id q \<noteq> '''' then cq_candidate_id q
                                else new_candidate_id stamp uuid_hex name)
                     in bindE (insert_candidate (new_candidate now q cid name tree) db) (\<lambda>db1.
                        bindE (write_files sha cid clean db1) (\<lambda>db2.
                          returning cid (add_event now cid ''created'' '''' ''open'' 1 (cq_actor q)
                            [(''tree_sha256'', PStr tree)] db2))))))"

definition revise_content ::
  "(bytes \<Rightarrow> string) \<Rightarrow> (string \<Rightarrow> string + pyval) \<Rightarrow> rat \<Rightarrow> string \<Rightarrow> bundle_files \<Rightarrow> bundle_limits \<Rightarrow>
   string \<Rightarrow> int option \<Rightarrow> candidate_db \<Rightarrow> pyexc + (candidate option \<times> candidate_db)" where
  "revise_content sha yaml_load now cid files limits actor expected_revision db =
     bindE (require_candidate db cid) (\<lambda>item.
       if cd_status item \<in> set terminal_statuses
       then Inl (state_error ''processed candidates are read-only'')
       else bindE (check_revision item expected_revision) (\<lambda>_.
            bindE (validate_bundle yaml_load (cd_skill_name item) files limits) (\<lambda>clean.
            bindE (bundle_metadata sha yaml_load (cd_skill_name item) clean) (\<lambda>meta.
              revise sha now item clean (sm_tree_sha256 meta) [] (cd_base_version item) actor db))))"

record transition_request =
  tq_to_status :: string
  tq_actor :: string
  tq_expected_revision :: "int option"
  tq_verdict :: "string option"
  tq_evaluation :: "pydict option"
  tq_decision :: "pydict option"
  tq_published_version :: "int option"
  tq_mutation_id :: "string option"
  tq_validate_task_id :: "string option"
  tq_reason :: string

text \<open>The columns the update sets, in the order the statement is put together.\<close>

definition opt_set :: "('v \<Rightarrow> candidate \<Rightarrow> candidate) \<Rightarrow> 'v option \<Rightarrow> candidate \<Rightarrow> candidate" where
  "opt_set f v r = (case v of None \<Rightarrow> r | Some x \<Rightarrow> f x r)"

definition transition_row :: "rat \<Rightarrow> transition_request \<Rightarrow> candidate \<Rightarrow> candidate" where
  "transition_row now q r =
     (let r1 = r\<lparr>cd_status := tq_to_status q, cd_updated_at := now\<rparr>;
          r2 = opt_set (\<lambda>v s. s\<lparr>cd_verdict := v\<rparr>) (tq_verdict q) r1;
          r3 = opt_set (\<lambda>v s. s\<lparr>cd_evaluation := v\<rparr>) (tq_evaluation q) r2;
          r4 = opt_set (\<lambda>v s. s\<lparr>cd_decision := v\<rparr>) (tq_decision q) r3;
          r5 = opt_set (\<lambda>v s. s\<lparr>cd_published_version := v\<rparr>) (tq_published_version q) r4;
          r6 = opt_set (\<lambda>v s. s\<lparr>cd_mutation_id := v\<rparr>) (tq_mutation_id q) r5;
          r7 = opt_set (\<lambda>v s. s\<lparr>cd_validate_task_id := v\<rparr>) (tq_validate_task_id q) r6;
          r8 = (if tq_to_status q = ''published'' then r7\<lparr>cd_adopted := True, cd_rejected := False\<rparr> else r7);
          r9 = (if tq_to_status q = ''rejected'' then r8\<lparr>cd_rejected := True, cd_adopted := False\<rparr> else r8)
      in if tq_to_status q \<in> set terminal_statuses then r9\<lparr>cd_decided_at := Some now\<rparr> else r9)"

definition str_item :: "string \<Rightarrow> string option \<Rightarrow> pydict" where
  "str_item k v = (case v of None \<Rightarrow> [] | Some s \<Rightarrow> if s = '''' then [] else [(k, PStr s)])"

definition transition_detail :: "transition_request \<Rightarrow> pydict" where
  "transition_detail q =
     str_item ''verdict'' (tq_verdict q) @ str_item ''reason'' (Some (tq_reason q)) @
     (case tq_published_version q of None \<Rightarrow> [] | Some n \<Rightarrow> [(''published_version'', PInt n)]) @
     str_item ''mutation_id'' (tq_mutation_id q) @ str_item ''validate_task_id'' (tq_validate_task_id q)"

definition transition_candidate ::
  "rat \<Rightarrow> string \<Rightarrow> transition_request \<Rightarrow> candidate_db \<Rightarrow> pyexc + (candidate option \<times> candidate_db)" where
  "transition_candidate now cid q db =
     bindE (require_candidate db cid) (\<lambda>item.
       let from_status = cd_status item; to_status = tq_to_status q
       in if \<not> may_transition from_status to_status
          then Inl (state_error (''illegal candidate transition '' @ from_status @ '' -> '' @ to_status))
          else bindE (check_revision item (tq_expected_revision q)) (\<lambda>_.
            if (case tq_verdict q of None \<Rightarrow> False | Some v \<Rightarrow> v \<notin> set verdicts)
            then Inl (library_error (''invalid verdict: '' @
                   (case tq_verdict q of None \<Rightarrow> '''' | Some v \<Rightarrow> repr_str v)))
            else bindE (update_candidate cid (transition_row now q) db) (\<lambda>db1.
              returning cid (add_event now cid ''transition'' from_status to_status (cd_revision item)
                (tq_actor q) (transition_detail q) db1))))"

definition verdict_row :: "rat \<Rightarrow> string \<Rightarrow> pydict \<Rightarrow> candidate \<Rightarrow> candidate" where
  "verdict_row now verdict evaluation r =
     r\<lparr>cd_status := ''open'', cd_verdict := verdict, cd_evaluation := evaluation, cd_updated_at := now\<rparr>"

definition record_verdict ::
  "rat \<Rightarrow> string \<Rightarrow> int \<Rightarrow> string \<Rightarrow> pydict \<Rightarrow> string \<Rightarrow> string \<Rightarrow> candidate_db \<Rightarrow>
   pyexc + (candidate option \<times> candidate_db)" where
  "record_verdict now cid revision verdict evaluation actor task_id db =
     (if verdict \<notin> set verdicts then Inl (library_error (''invalid verdict: '' @ repr_str verdict))
      else bindE (require_candidate db cid) (\<lambda>item.
        if cd_revision item \<noteq> revision \<or> cd_status item \<in> set terminal_statuses then Inr (None, db)
        else if task_id \<noteq> '''' \<and> cd_validate_task_id item \<noteq> task_id then Inr (None, db)
        else bindE (update_candidate cid (verdict_row now verdict evaluation) db) (\<lambda>db1.
          returning cid (add_event now cid ''verdict'' (cd_status item) ''open'' revision actor
            [(''verdict'', PStr verdict)] db1))))"

definition set_marks ::
  "rat \<Rightarrow> string \<Rightarrow> pydict \<Rightarrow> string \<Rightarrow> candidate_db \<Rightarrow> pyexc + (candidate option \<times> candidate_db)" where
  "set_marks now cid changes actor db =
     (case (set (map fst changes) = {''reviewed''}, dget changes ''reviewed'') of
        (True, Some (PBool reviewed)) \<Rightarrow>
          bindE (require_candidate db cid) (\<lambda>item.
            if cd_status item \<in> set terminal_statuses
            then Inl (state_error ''processed candidates are read-only'')
            else if cd_reviewed item = reviewed then Inr (Some item, db)
            else bindE (update_candidate cid (\<lambda>r. r\<lparr>cd_reviewed := reviewed, cd_updated_at := now\<rparr>) db) (\<lambda>db1.
              returning cid (add_event now cid ''feedback'' (cd_status item) (cd_status item)
                (cd_revision item) actor [(''reviewed'', PBool reviewed)] db1)))
      | _ \<Rightarrow> Inl (library_error ''only reviewed can be marked manually''))"

end
