(* ===== verification/CandidateProperties.thy ===== *)
theory CandidateProperties imports Candidates LibraryProperties begin

text \<open>
  Candidates change only along the closed state machine, every change is audited, and the
  event log determines the state of a candidate.
\<close>

section \<open>Operations\<close>

datatype cand_op =
    CandCreate rat string string create_request
  | CandRevise rat string bundle_files bundle_limits string "int option"
  | CandTransition rat string transition_request
  | CandVerdict rat string int string pydict string string
  | CandMarks rat string pydict string

fun cand_step ::
  "(bytes \<Rightarrow> string) \<Rightarrow> (string \<Rightarrow> string + pyval) \<Rightarrow> cand_op \<Rightarrow> candidate_db \<Rightarrow>
   pyexc + (candidate option \<times> candidate_db)" where
  "cand_step sha yl (CandCreate now stamp uuid_hex q) db = create_candidate sha yl now stamp uuid_hex q db"
| "cand_step sha yl (CandRevise now cid files limits actor er) db =
     revise_content sha yl now cid files limits actor er db"
| "cand_step sha yl (CandTransition now cid q) db = transition_candidate now cid q db"
| "cand_step sha yl (CandVerdict now cid revision verdict evaluation actor task_id) db =
     record_verdict now cid revision verdict evaluation actor task_id db"
| "cand_step sha yl (CandMarks now cid changes actor) db = set_marks now cid changes actor db"

definition empty_candidates :: "skill_blob list \<Rightarrow> candidate_db" where
  "empty_candidates blobs = \<lparr>cdb_candidates = [], cdb_files = [], cdb_events = [], cdb_blobs = blobs\<rparr>"

section \<open>What a successful operation did\<close>

text \<open>
  Nothing to the candidates; or a row that is not processed was updated together with its
  event; or a row was inserted together with its first event.
\<close>

definition new_event ::
  "rat \<Rightarrow> candidate_event list \<Rightarrow> string \<Rightarrow> string \<Rightarrow> string \<Rightarrow> candidate \<Rightarrow> string \<Rightarrow> pydict \<Rightarrow> candidate_event" where
  "new_event now events cid kind from_status r actor detail =
     \<lparr>ce_candidate_id = cid, ce_seq = next_seq events cid, ce_kind = kind, ce_from_status = from_status,
      ce_to_status = cd_status r, ce_revision = cd_revision r, ce_actor = actor, ce_detail = detail,
      ce_created_at = now\<rparr>"

definition keeps_identity :: "(candidate \<Rightarrow> candidate) \<Rightarrow> bool" where
  "keeps_identity f \<longleftrightarrow> (\<forall>r. cd_candidate_id (f r) = cd_candidate_id r \<and> cd_skill_name (f r) = cd_skill_name r)"

inductive cand_outcome :: "candidate_db \<Rightarrow> candidate_db \<Rightarrow> bool" for db where
  nothing: "cdb_candidates db' = cdb_candidates db \<Longrightarrow> cdb_events db' = cdb_events db \<Longrightarrow> cand_outcome db db'"
| updated: "get_candidate db cid = Some item \<Longrightarrow> cd_status item \<notin> set terminal_statuses \<Longrightarrow> keeps_identity f \<Longrightarrow>
    cd_status (f item) = cd_status item \<or> cd_status (f item) = ''open'' \<or>
      may_transition (cd_status item) (cd_status (f item)) \<Longrightarrow>
    cdb_candidates db' = upd_where (\<lambda>r. cd_candidate_id r = cid) f (cdb_candidates db) \<Longrightarrow>
    live_index_ok (cdb_candidates db') \<Longrightarrow>
    cdb_events db' = cdb_events db @
      [new_event now (cdb_events db) cid kind (cd_status item) (f item) actor detail] \<Longrightarrow>
    cand_outcome db db'"
| inserted: "cd_candidate_id r \<notin> cd_candidate_id ` set (cdb_candidates db) \<Longrightarrow> cd_status r = ''open'' \<Longrightarrow>
    cdb_candidates db' = cdb_candidates db @ [r] \<Longrightarrow> live_index_ok (cdb_candidates db') \<Longrightarrow>
    cdb_events db' = cdb_events db @
      [new_event now (cdb_events db) (cd_candidate_id r) ''created'' '''' r actor detail] \<Longrightarrow>
    cand_outcome db db'"

lemma require_candidate_Inr: "require_candidate db cid = Inr r \<longleftrightarrow> get_candidate db cid = Some r"
  by (auto simp: require_candidate_def split: option.splits)

lemma get_candidate_Some: "get_candidate db cid = Some r \<Longrightarrow> r \<in> set (cdb_candidates db) \<and> cd_candidate_id r = cid"
  unfolding get_candidate_def by (rule find_Some_mem)

lemma update_candidate_Inr:
  "update_candidate cid f db = Inr db1 \<Longrightarrow>
   db1 = db\<lparr>cdb_candidates := upd_where (\<lambda>r. cd_candidate_id r = cid) f (cdb_candidates db)\<rparr> \<and>
   live_index_ok (upd_where (\<lambda>r. cd_candidate_id r = cid) f (cdb_candidates db))"
  by (auto simp: update_candidate_def Let_def split: if_splits)

lemma write_files_Inr:
  "write_files sha cid b db = Inr db1 \<Longrightarrow>
   cdb_candidates db1 = cdb_candidates db \<and> cdb_events db1 = cdb_events db"
  by (auto simp: write_files_def bindE_Inr_iff split: prod.splits)

lemma returning_Inr: "returning cid db = Inr (x, db') \<Longrightarrow> db' = db"
  by (auto simp: returning_def bindE_Inr_iff)

lemma add_event_simps [simp]:
  "cdb_candidates (add_event now cid kind from_status to_status revision actor detail db) = cdb_candidates db"
  "cdb_events (add_event now cid kind from_status (cd_status r) (cd_revision r) actor detail db) =
     cdb_events db @ [new_event now (cdb_events db) cid kind from_status r actor detail]"
  by (simp_all add: add_event_def new_event_def)

lemma revise_outcome:
  assumes rev: "revise sha now item b tree detail base_version actor db = Inr (x, db')"
    and item: "get_candidate db (cd_candidate_id item) = Some item" "cd_status item \<notin> set terminal_statuses"
  shows "cand_outcome db db'"
proof -
  let ?cid = "cd_candidate_id item"
  let ?f = "revise_row now tree (dmerge (cd_detail item) detail) base_version (cd_revision item + 1)"
  from rev obtain db1 db2 where up: "update_candidate ?cid ?f db = Inr db1"
    and files: "write_files sha ?cid b db1 = Inr db2"
    and ret: "returning ?cid (add_event now ?cid ''revised'' (cd_status item) ''open'' (cd_revision item + 1) actor
      [(''tree_sha256'', PStr tree)] db2) = Inr (x, db')"
    unfolding revise_def Let_def bindE_Inr_iff by blast
  have st: "cd_status (?f item) = ''open''" "cd_revision (?f item) = cd_revision item + 1"
    by (simp_all add: revise_row_def)
  show ?thesis
  proof (rule cand_outcome.updated [OF item, where f = ?f and now = now and kind = "''revised''" and actor = actor
        and detail = "[(''tree_sha256'', PStr tree)]"])
    show "keeps_identity ?f" by (simp add: keeps_identity_def revise_row_def)
    show "cd_status (?f item) = cd_status item \<or> cd_status (?f item) = ''open'' \<or>
      may_transition (cd_status item) (cd_status (?f item))" by (simp add: st)
    note ev = add_event_simps(2) [where r = "?f item", unfolded st]
    show "cdb_candidates db' = upd_where (\<lambda>r. cd_candidate_id r = ?cid) ?f (cdb_candidates db)"
      "live_index_ok (cdb_candidates db')"
      "cdb_events db' = cdb_events db @
        [new_event now (cdb_events db) ?cid ''revised'' (cd_status item) (?f item) actor [(''tree_sha256'', PStr tree)]]"
      using returning_Inr [OF ret] update_candidate_Inr [OF up] write_files_Inr [OF files] by (simp_all add: ev)
  qed
qed

lemma update_event_outcome:
  assumes item: "get_candidate db cid = Some item" "cd_status item \<notin> set terminal_statuses"
    and up: "update_candidate cid f db = Inr db1"
    and ret: "returning cid (add_event now cid kind (cd_status item) to_status revision actor detail db1) = Inr (x, db')"
    and f: "keeps_identity f" "cd_status (f item) = to_status" "cd_revision (f item) = revision"
    and legal: "to_status = cd_status item \<or> to_status = ''open'' \<or> may_transition (cd_status item) to_status"
  shows "cand_outcome db db'"
  using returning_Inr [OF ret] update_candidate_Inr [OF up] legal
  by (intro cand_outcome.updated [OF item f(1), where now = now and kind = kind and actor = actor and detail = detail])
    (simp_all flip: f(2,3))

lemma may_transition_not_terminal: "may_transition s t \<Longrightarrow> s \<notin> set terminal_statuses"
  by (auto simp: may_transition_def candidate_transitions_def terminal_statuses_def split: if_splits)

lemma opt_set_field:
  "(\<And>v r. cd_candidate_id (f v r) = cd_candidate_id r) \<Longrightarrow> cd_candidate_id (opt_set f x r) = cd_candidate_id r"
  "(\<And>v r. cd_skill_name (f v r) = cd_skill_name r) \<Longrightarrow> cd_skill_name (opt_set f x r) = cd_skill_name r"
  "(\<And>v r. cd_status (f v r) = cd_status r) \<Longrightarrow> cd_status (opt_set f x r) = cd_status r"
  "(\<And>v r. cd_revision (f v r) = cd_revision r) \<Longrightarrow> cd_revision (opt_set f x r) = cd_revision r"
  by (simp_all add: opt_set_def split: option.split)

lemma transition_row_simps:
  "cd_candidate_id (transition_row now q r) = cd_candidate_id r"
  "cd_skill_name (transition_row now q r) = cd_skill_name r"
  "cd_status (transition_row now q r) = tq_to_status q"
  "cd_revision (transition_row now q r) = cd_revision r"
  by (simp_all add: transition_row_def Let_def opt_set_field)
lemma create_outcome:
  assumes com: "create_candidate sha yl now stamp uuid_hex q db = Inr (x, db')"
    and distinct: "distinct (map cd_candidate_id (cdb_candidates db))"
  shows "cand_outcome db db'"
proof -
  from com obtain name clean and meta :: skill_meta where
    rest: "(let tree = sm_tree_sha256 meta
      in case live_for_skill db name of
           Some live \<Rightarrow> revise sha now live clean tree (cq_detail q) (cq_base_version q) (cq_actor q) db
         | None \<Rightarrow>
             let cid = (if cq_candidate_id q \<noteq> '''' then cq_candidate_id q else new_candidate_id stamp uuid_hex name)
             in bindE (insert_candidate (new_candidate now q cid name tree) db) (\<lambda>db1.
                bindE (write_files sha cid clean db1) (\<lambda>db2.
                  returning cid (add_event now cid ''created'' '''' ''open'' 1 (cq_actor q)
                    [(''tree_sha256'', PStr tree)] db2)))) = Inr (x, db')"
    unfolding create_candidate_def bindE_Inr_iff by (auto simp: bindE_Inr_iff split: if_splits)
  let ?tree = "sm_tree_sha256 meta"
  show ?thesis
  proof (cases "live_for_skill db name")
    case (Some live)
    then have l: "live \<in> set (cdb_candidates db)" "is_live live"
      unfolding live_for_skill_def by (auto dest: find_Some_mem)
    from rest Some have rev: "revise sha now live clean ?tree (cq_detail q) (cq_base_version q) (cq_actor q) db = Inr (x, db')"
      by (simp add: Let_def)
    have "get_candidate db (cd_candidate_id live) = Some live"
      unfolding get_candidate_def by (rule find_distinct_key [OF distinct l(1)])
    moreover have "cd_status live \<notin> set terminal_statuses"
      using l(2) by (auto simp: is_live_def terminal_statuses_def)
    ultimately show ?thesis using revise_outcome [OF rev] by blast
  next
    case None
    define cid where "cid = (if cq_candidate_id q \<noteq> '''' then cq_candidate_id q else new_candidate_id stamp uuid_hex name)"
    define r where "r = new_candidate now q cid name ?tree"
    have r: "cd_candidate_id r = cid" "cd_status r = ''open''" "cd_revision r = 1"
      by (simp_all add: r_def new_candidate_def)
    from rest None obtain db1 db2 where ins: "insert_candidate r db = Inr db1"
      and files: "write_files sha cid clean db1 = Inr db2"
      and ret: "returning cid (add_event now cid ''created'' '''' ''open'' 1 (cq_actor q)
        [(''tree_sha256'', PStr ?tree)] db2) = Inr (x, db')"
      by (auto simp: Let_def bindE_Inr_iff simp flip: cid_def r_def)
    from ins have i: "cd_candidate_id r \<notin> cd_candidate_id ` set (cdb_candidates db)"
      "live_index_ok (cdb_candidates db @ [r])" "db1 = db\<lparr>cdb_candidates := cdb_candidates db @ [r]\<rparr>"
      by (auto simp: insert_candidate_def split: if_splits)
    note ev = add_event_simps(2) [where r = r, unfolded r]
    show ?thesis
      using returning_Inr [OF ret] write_files_Inr [OF files] i(3)
      by (intro cand_outcome.inserted [OF i(1) r(2) _ _, where now = now and actor = "cq_actor q" and
            detail = "[(''tree_sha256'', PStr ?tree)]"]) (simp_all add: ev r(1) i(2))
  qed
qed

lemma revise_content_outcome:
  assumes "revise_content sha yl now cid files limits actor er db = Inr (x, db')"
  shows "cand_outcome db db'"
proof -
  from assms obtain item clean and meta :: skill_meta where
    item: "get_candidate db cid = Some item" "cd_status item \<notin> set terminal_statuses"
    and rev: "revise sha now item clean (sm_tree_sha256 meta) [] (cd_base_version item) actor db = Inr (x, db')"
    unfolding revise_content_def bindE_Inr_iff require_candidate_Inr by (auto simp: bindE_Inr_iff split: if_splits)
  have "cd_candidate_id item = cid" using get_candidate_Some [OF item(1)] by simp
  with item revise_outcome [OF rev] show ?thesis by simp
qed

lemma transition_outcome:
  assumes "transition_candidate now cid q db = Inr (x, db')"
  shows "cand_outcome db db'"
proof -
  from assms obtain item db1 where item: "get_candidate db cid = Some item"
    and legal: "may_transition (cd_status item) (tq_to_status q)"
    and up: "update_candidate cid (transition_row now q) db = Inr db1"
    and ret: "returning cid (add_event now cid ''transition'' (cd_status item) (tq_to_status q) (cd_revision item)
                (tq_actor q) (transition_detail q) db1) = Inr (x, db')"
    unfolding transition_candidate_def bindE_Inr_iff require_candidate_Inr Let_def
    by (auto simp: bindE_Inr_iff split: if_splits)
  show ?thesis
    by (rule update_event_outcome [OF item may_transition_not_terminal [OF legal] up ret])
      (simp_all add: keeps_identity_def transition_row_simps legal)
qed

lemma verdict_outcome:
  assumes "record_verdict now cid revision verdict evaluation actor task_id db = Inr (x, db')"
  shows "cand_outcome db db'"
proof -
  from assms obtain item where item: "get_candidate db cid = Some item"
    and rest: "(if cd_revision item \<noteq> revision \<or> cd_status item \<in> set terminal_statuses then Inr (None, db)
        else if task_id \<noteq> '''' \<and> cd_validate_task_id item \<noteq> task_id then Inr (None, db)
        else bindE (update_candidate cid (verdict_row now verdict evaluation) db) (\<lambda>db1.
          returning cid (add_event now cid ''verdict'' (cd_status item) ''open'' revision actor
            [(''verdict'', PStr verdict)] db1))) = Inr (x, db')"
    unfolding record_verdict_def by (auto simp: bindE_Inr_iff require_candidate_Inr split: if_splits)
  show ?thesis
  proof (cases "cd_revision item \<noteq> revision \<or> cd_status item \<in> set terminal_statuses \<or>
      (task_id \<noteq> '''' \<and> cd_validate_task_id item \<noteq> task_id)")
    case True
    with rest have "db' = db" by (auto split: if_splits)
    then show ?thesis by (simp add: cand_outcome.nothing)
  next
    case False
    with rest obtain db1 where up: "update_candidate cid (verdict_row now verdict evaluation) db = Inr db1"
      and ret: "returning cid (add_event now cid ''verdict'' (cd_status item) ''open'' revision actor
            [(''verdict'', PStr verdict)] db1) = Inr (x, db')"
      by (auto simp: bindE_Inr_iff split: if_splits)
    from False have "cd_status item \<notin> set terminal_statuses" by blast
    from update_event_outcome [OF item this up ret] False show ?thesis
      by (simp add: keeps_identity_def verdict_row_def)
  qed
qed

lemma marks_outcome:
  assumes "set_marks now cid changes actor db = Inr (x, db')"
  shows "cand_outcome db db'"
proof -
  from assms obtain reviewed item where item: "get_candidate db cid = Some item" "cd_status item \<notin> set terminal_statuses"
    and rest: "(if cd_reviewed item = reviewed then Inr (Some item, db)
            else bindE (update_candidate cid (\<lambda>r. r\<lparr>cd_reviewed := reviewed, cd_updated_at := now\<rparr>) db) (\<lambda>db1.
              returning cid (add_event now cid ''feedback'' (cd_status item) (cd_status item)
                (cd_revision item) actor [(''reviewed'', PBool reviewed)] db1))) = Inr (x, db')"
  proof -
    obtain reviewed where v: "dget changes ''reviewed'' = Some (PBool reviewed)" "set (map fst changes) = {''reviewed''}"
    proof (cases "set (map fst changes) = {''reviewed''}")
      case True
      with assms that show thesis by (cases "dget changes ''reviewed''"; cases "the (dget changes ''reviewed'')")
        (simp_all add: set_marks_def)
    next
      case False
      then have "(set (map fst changes) = {''reviewed''}) = False" by blast
      with assms show thesis by (simp add: set_marks_def)
    qed
    then have "(set (map fst changes) = {''reviewed''}) = True" by blast
    with assms v(1) have "bindE (require_candidate db cid) (\<lambda>item.
            if cd_status item \<in> set terminal_statuses
            then Inl (state_error ''processed candidates are read-only'')
            else if cd_reviewed item = reviewed then Inr (Some item, db)
            else bindE (update_candidate cid (\<lambda>r. r\<lparr>cd_reviewed := reviewed, cd_updated_at := now\<rparr>) db) (\<lambda>db1.
              returning cid (add_event now cid ''feedback'' (cd_status item) (cd_status item)
                (cd_revision item) actor [(''reviewed'', PBool reviewed)] db1))) = Inr (x, db')"
      unfolding set_marks_def by simp
    with that show thesis unfolding bindE_Inr_iff [of "require_candidate db cid"] require_candidate_Inr
      by (metis (no_types, lifting) sum.distinct(1))
  qed
  show ?thesis
  proof (cases "cd_reviewed item = reviewed")
    case True
    with rest show ?thesis by (simp add: cand_outcome.nothing)
  next
    case False
    with rest obtain db1 where up: "update_candidate cid (\<lambda>r. r\<lparr>cd_reviewed := reviewed, cd_updated_at := now\<rparr>) db = Inr db1"
      and ret: "returning cid (add_event now cid ''feedback'' (cd_status item) (cd_status item)
                (cd_revision item) actor [(''reviewed'', PBool reviewed)] db1) = Inr (x, db')"
      by (auto simp: bindE_Inr_iff)
    from update_event_outcome [OF item up ret] show ?thesis by (simp add: keeps_identity_def)
  qed
qed

lemma cand_step_outcome:
  assumes "cand_step sha yl p db = Inr (x, db')" and "distinct (map cd_candidate_id (cdb_candidates db))"
  shows "cand_outcome db db'"
  using assms by (cases p) (auto intro: create_outcome revise_content_outcome transition_outcome verdict_outcome marks_outcome)

section \<open>The event log determines the state\<close>

text \<open>
  The events of one candidate: numbered from 1, starting from no status, each continuing
  from the status the one before left, never from a terminal one, along the state machine.
\<close>

definition events_of :: "candidate_db \<Rightarrow> string \<Rightarrow> candidate_event list" where
  "events_of db cid = filter (\<lambda>e. ce_candidate_id e = cid) (cdb_events db)"

definition legal_change :: "string \<Rightarrow> string \<Rightarrow> bool" where
  "legal_change s t \<longleftrightarrow> s \<notin> set terminal_statuses \<and> (t = s \<or> may_transition s t)"

definition continues :: "candidate_event \<Rightarrow> candidate_event \<Rightarrow> bool" where
  "continues a b \<longleftrightarrow> ce_from_status b = ce_to_status a \<and> legal_change (ce_from_status b) (ce_to_status b)"

definition history_of :: "candidate_event list \<Rightarrow> candidate \<Rightarrow> bool" where
  "history_of es r \<longleftrightarrow> es \<noteq> [] \<and> map ce_seq es = [1..int (length es)] \<and>
     ce_from_status (hd es) = '''' \<and> ce_to_status (hd es) = ''open'' \<and> successively continues es \<and>
     ce_to_status (last es) = cd_status r \<and> ce_revision (last es) = cd_revision r"

definition candidates_ok :: "candidate_db \<Rightarrow> bool" where
  "candidates_ok db \<longleftrightarrow>
     distinct (map cd_candidate_id (cdb_candidates db)) \<and> live_index_ok (cdb_candidates db) \<and>
     (\<forall>r\<in>set (cdb_candidates db). cd_status r \<in> set candidate_statuses \<and>
        history_of (events_of db (cd_candidate_id r)) r) \<and>
     (\<forall>e\<in>set (cdb_events db). ce_candidate_id e \<in> cd_candidate_id ` set (cdb_candidates db))"

lemma fold_max_upto: "fold max [1..int n] 0 = int n"
proof (induction n)
  case (Suc n)
  have "[1..int (Suc n)] = [1..int n] @ [int (Suc n)]"
    using upto_rec2 [of 1 "int (Suc n)"] by simp
  then show ?case using Suc by simp
qed simp

lemma next_seq_history:
  "map ce_seq (events_of db cid) = [1..int (length (events_of db cid))] \<Longrightarrow>
   next_seq (cdb_events db) cid = int (length (events_of db cid)) + 1"
  unfolding next_seq_def events_of_def [symmetric] by (simp add: fold_max_upto)

lemma history_extend:
  assumes "history_of es r" and "ce_seq e = int (length es) + 1" and "ce_from_status e = cd_status r"
    and "legal_change (cd_status r) (ce_to_status e)"
    and "ce_to_status e = cd_status r'" and "ce_revision e = cd_revision r'"
  shows "history_of (es @ [e]) r'"
proof -
  have "[1..int (length es) + 1] = [1..int (length es)] @ [int (length es) + 1]"
    using upto_rec2 [of 1 "int (length es) + 1"] by simp
  moreover have "successively continues (es @ [e])"
    using assms by (simp add: history_of_def successively_append_iff continues_def)
  ultimately show ?thesis using assms by (simp add: history_of_def ac_simps)
qed

lemma legal_after:
  assumes "s \<in> set candidate_statuses" and "s \<notin> set terminal_statuses"
    and "t = s \<or> t = ''open'' \<or> may_transition s t"
  shows "legal_change s t \<and> t \<in> set candidate_statuses"
proof -
  have s: "s = ''open'' \<or> s = ''validating''" using assms(1,2)
    by (auto simp: candidate_statuses_def terminal_statuses_def)
  have "may_transition ''validating'' ''open''" by code_simp
  moreover have "may_transition s t \<Longrightarrow> t \<in> set candidate_statuses"
    using s by (auto simp: may_transition_def candidate_transitions_def candidate_statuses_def)
  moreover have "''open'' \<in> set candidate_statuses" by code_simp
  ultimately show ?thesis using assms s unfolding legal_change_def by metis
qed

lemma candidates_ok_updated:
  assumes ok: "candidates_ok db" and item: "get_candidate db cid = Some item" "cd_status item \<notin> set terminal_statuses"
    and f: "keeps_identity f"
    and st: "cd_status (f item) = cd_status item \<or> cd_status (f item) = ''open'' \<or>
      may_transition (cd_status item) (cd_status (f item))"
    and rows: "cdb_candidates db' = upd_where (\<lambda>r. cd_candidate_id r = cid) f (cdb_candidates db)"
    and live: "live_index_ok (cdb_candidates db')"
    and events: "cdb_events db' = cdb_events db @
      [new_event now (cdb_events db) cid kind (cd_status item) (f item) actor detail]"
  shows "candidates_ok db'"
proof -
  let ?e = "new_event now (cdb_events db) cid kind (cd_status item) (f item) actor detail"
  note o = ok [unfolded candidates_ok_def]
  from get_candidate_Some [OF item(1)] have i: "item \<in> set (cdb_candidates db)" "cd_candidate_id item = cid" by auto
  have ids: "map cd_candidate_id (cdb_candidates db') = map cd_candidate_id (cdb_candidates db)"
    unfolding rows by (rule map_upd_where) (use f in \<open>simp add: keeps_identity_def\<close>)
  have hist: "history_of (events_of db cid) item" using o i by blast
  have legal: "legal_change (cd_status item) (cd_status (f item))" "cd_status (f item) \<in> set candidate_statuses"
    using legal_after [OF _ item(2) st] o i by blast+
  have e: "ce_candidate_id ?e = cid" by (simp add: new_event_def)
  have row: "cd_status r' \<in> set candidate_statuses \<and> history_of (events_of db' (cd_candidate_id r')) r'"
    if "r' \<in> set (cdb_candidates db')" for r'
  proof -
    from that rows obtain r where r: "r \<in> set (cdb_candidates db)"
      "r' = (if cd_candidate_id r = cid then f r else r)" by (auto simp: set_upd_where)
    show ?thesis
    proof (cases "cd_candidate_id r = cid")
      case True
      have "r = item" by (rule distinct_key_eq [of cd_candidate_id "cdb_candidates db"])
          (use o r(1) i True in auto)
      with r True have r': "r' = f item" by simp
      then have "cd_candidate_id r' = cid" using f i by (simp add: keeps_identity_def)
      moreover have "history_of (events_of db cid @ [?e]) (f item)"
        by (rule history_extend [OF hist])
          (use hist legal(1) next_seq_history [of db cid] in \<open>simp_all add: new_event_def history_of_def\<close>)
      moreover have "events_of db' cid = events_of db cid @ [?e]" by (simp add: events_of_def events e)
      ultimately show ?thesis using legal(2) r' by simp
    next
      case False
      then have "events_of db' (cd_candidate_id r) = events_of db (cd_candidate_id r)"
        by (simp add: events_of_def events e)
      with o r False show ?thesis by simp
    qed
  qed
  have ev: "ce_candidate_id x \<in> cd_candidate_id ` set (cdb_candidates db')" if "x \<in> set (cdb_events db')" for x
  proof -
    have "cd_candidate_id ` set (cdb_candidates db') = cd_candidate_id ` set (cdb_candidates db)"
      using ids by (metis image_set)
    moreover have "cid \<in> cd_candidate_id ` set (cdb_candidates db)" using i by blast
    ultimately show ?thesis using that o events e by auto
  qed
  show ?thesis unfolding candidates_ok_def ids using o live row ev by blast
qed

lemma candidates_ok_inserted:
  assumes ok: "candidates_ok db" and fresh: "cd_candidate_id r \<notin> cd_candidate_id ` set (cdb_candidates db)"
    and st: "cd_status r = ''open''" and rows: "cdb_candidates db' = cdb_candidates db @ [r]"
    and live: "live_index_ok (cdb_candidates db')"
    and events: "cdb_events db' = cdb_events db @
      [new_event now (cdb_events db) (cd_candidate_id r) ''created'' '''' r actor detail]"
  shows "candidates_ok db'"
proof -
  let ?e = "new_event now (cdb_events db) (cd_candidate_id r) ''created'' '''' r actor detail"
  note o = ok [unfolded candidates_ok_def]
  have e: "ce_candidate_id ?e = cd_candidate_id r" by (simp add: new_event_def)
  have none: "events_of db (cd_candidate_id r) = []"
    unfolding events_of_def filter_empty_conv using o fresh by metis
  have row: "cd_status r' \<in> set candidate_statuses \<and> history_of (events_of db' (cd_candidate_id r')) r'"
    if "r' \<in> set (cdb_candidates db')" for r'
  proof (cases "cd_candidate_id r' = cd_candidate_id r")
    case True
    with fresh have "r' \<notin> set (cdb_candidates db)" by (metis image_eqI)
    with that rows have "r' = r" by simp
    moreover have "events_of db' (cd_candidate_id r) = [?e]"
      using none by (simp add: events_of_def events e)
    moreover have "next_seq (cdb_events db) (cd_candidate_id r) = 1"
      using next_seq_history [of db "cd_candidate_id r"] none by simp
    ultimately show ?thesis using st by (simp add: history_of_def new_event_def candidate_statuses_def)
  next
    case False
    with that rows have "r' \<in> set (cdb_candidates db)" by auto
    moreover from False have "events_of db' (cd_candidate_id r') = events_of db (cd_candidate_id r')"
      by (simp add: events_of_def events e)
    ultimately show ?thesis using o by simp
  qed
  have "distinct (map cd_candidate_id (cdb_candidates db'))" using o fresh rows by simp
  moreover have "\<forall>x\<in>set (cdb_events db'). ce_candidate_id x \<in> cd_candidate_id ` set (cdb_candidates db')"
    using o unfolding events rows by (auto simp: e)
  ultimately show ?thesis unfolding candidates_ok_def using live row by blast
qed

lemma candidates_ok_outcome:
  assumes "cand_outcome db db'" and "candidates_ok db"
  shows "candidates_ok db'"
  using assms(1)
proof cases
  case nothing
  with assms(2) show ?thesis by (simp add: candidates_ok_def events_of_def)
next
  case updated
  show ?thesis by (rule candidates_ok_updated [OF assms(2) updated])
next
  case inserted
  show ?thesis by (rule candidates_ok_inserted [OF assms(2) inserted])
qed

lemma candidates_ok_step:
  assumes "candidates_ok db" and "cand_step sha yl p db = Inr (x, db')"
  shows "candidates_ok db'"
  using candidates_ok_outcome [OF cand_step_outcome [OF assms(2)]] assms(1) unfolding candidates_ok_def by blast

lemma candidates_ok_run: "candidates_ok (run_ops (cand_step sha yl) ps (empty_candidates blobs))"
proof (rule run_ops_invariant)
  show "candidates_ok (empty_candidates blobs)"
    by (simp add: candidates_ok_def empty_candidates_def live_index_ok_def)
qed (rule candidates_ok_step)

lemma add_event_extends:
  "\<exists>new. cdb_events (add_event now cid kind fs ts n actor detail db) = cdb_events db @ new"
  by (simp add: add_event_def)

lemma updated_event_extends:
  "update_candidate cid f db = Inr db1 \<Longrightarrow>
   returning cid (add_event now cid kind fs ts n actor detail db1) = Inr (x, db') \<Longrightarrow>
   \<exists>new. cdb_events db' = cdb_events db @ new"
  by (auto dest!: returning_Inr update_candidate_Inr simp: add_event_def)

lemma revise_extends:
  assumes "revise sha now item b tree detail base_version actor db = Inr (x, db')"
  shows "\<exists>new. cdb_events db' = cdb_events db @ new"
  using assms unfolding revise_def Let_def bindE_Inr_iff
  by (auto dest!: returning_Inr update_candidate_Inr write_files_Inr simp: add_event_def)

lemma create_extends:
  assumes "create_candidate sha yl now stamp uuid_hex q db = Inr (x, db')"
  shows "\<exists>new. cdb_events db' = cdb_events db @ new"
  using assms unfolding create_candidate_def
  by (auto simp: bindE_Inr_iff insert_candidate_def Let_def add_event_def split: if_splits option.splits
      dest!: revise_extends returning_Inr write_files_Inr)

lemma cand_step_extends:
  assumes "cand_step sha yl p db = Inr (x, db')"
  shows "\<exists>new. cdb_events db' = cdb_events db @ new"
proof (cases p)
  case (CandCreate now stamp uuid_hex q)
  with assms show ?thesis by (simp add: create_extends)
next
  case (CandRevise now cid files limits actor er)
  with assms show ?thesis
    by (auto simp: revise_content_def bindE_Inr_iff split: if_splits dest!: revise_extends)
qed (use assms in \<open>auto dest!: transition_outcome verdict_outcome marks_outcome elim: cand_outcome.cases\<close>)

interpretation event_log: append_log "cand_step sha yl" cdb_events for sha yl
  by unfold_locales (rule cand_step_extends)

text \<open>
  C19: The event log determines the state of every candidate. Whatever operations were
  made, the events of a candidate are numbered 1, 2, 3 and so on, the first one opens it,
  each later one starts from the status the one before it left, follows the state machine
  and never leaves a terminal status, and the last one carries the candidate's current
  status and revision. At most one candidate of a skill is live.
\<close>

theorem event_log_determines_state:
  assumes "db = run_ops (cand_step sha yl) ps (empty_candidates blobs)" and "get_candidate db cid = Some r"
  shows "history_of (events_of db cid) r \<and> cd_status r \<in> set candidate_statuses \<and>
    (is_live r \<longrightarrow> live_for_skill db (cd_skill_name r) = Some r)"
proof -
  have ok: "candidates_ok db" unfolding assms(1) by (rule candidates_ok_run)
  from get_candidate_Some [OF assms(2)] have r: "r \<in> set (cdb_candidates db)" "cd_candidate_id r = cid" by auto
  have "live_for_skill db (cd_skill_name r) = Some r" if "is_live r"
  proof -
    have d: "distinct (map cd_skill_name (filter is_live (cdb_candidates db)))"
      using ok unfolding candidates_ok_def live_index_ok_def by blast
    have "r \<in> set (filter is_live (cdb_candidates db))" using r(1) that by simp
    from find_distinct_key [OF d this]
    have "find (\<lambda>x. cd_skill_name x = cd_skill_name r) (filter is_live (cdb_candidates db)) = Some r" .
    moreover have "find P (filter Q xs) = find (\<lambda>x. P x \<and> Q x) xs" for P Q and xs :: "candidate list"
      by (induction xs) auto
    ultimately show ?thesis by (simp add: live_for_skill_def)
  qed
  with ok r show ?thesis unfolding candidates_ok_def by blast
qed

section \<open>Processed candidates are final\<close>

lemma outcome_terminal:
  assumes "cand_outcome db db'" and "get_candidate db cid = Some r" and "cd_status r \<in> set terminal_statuses"
  shows "get_candidate db' cid = Some r"
  using assms(1)
proof cases
  case nothing
  with assms(2) show ?thesis by (simp add: get_candidate_def)
next
  case (updated cid' item f)
  have "cid' \<noteq> cid" using updated assms(2,3) by auto
  moreover have "get_candidate db' cid = map_option (\<lambda>r. if cd_candidate_id r = cid' then f r else r) (get_candidate db cid)"
    unfolding get_candidate_def updated(5) by (rule find_upd_where) (use updated(3) in \<open>simp add: keeps_identity_def\<close>)
  ultimately show ?thesis using get_candidate_Some [OF assms(2)] assms(2) by auto
next
  case (inserted r')
  with assms(2) show ?thesis by (simp add: get_candidate_def find_append)
qed

text \<open>
  C18: A processed candidate is final. Once a candidate is published or rejected its row
  never changes again, whatever operations follow, and an operation addressed to it is
  refused with a state error or, for a late validation verdict, ignored without a write.
\<close>

theorem processed_candidates_are_final:
  assumes "db = run_ops (cand_step sha yl) ps (empty_candidates blobs)" and "get_candidate db cid = Some r"
    and "cd_status r \<in> set terminal_statuses"
  shows "get_candidate (run_ops (cand_step sha yl) qs db) cid = Some r \<and>
    transition_candidate now cid q db =
      Inl (state_error (''illegal candidate transition '' @ cd_status r @ '' -> '' @ tq_to_status q)) \<and>
    revise_content sha yl now cid files limits actor er db = Inl (state_error ''processed candidates are read-only'') \<and>
    (verdict \<in> set verdicts \<longrightarrow> record_verdict now cid n verdict evaluation actor task db = Inr (None, db)) \<and>
    set_marks now cid [(''reviewed'', PBool b)] actor db = Inl (state_error ''processed candidates are read-only'')"
proof -
  let ?I = "\<lambda>db. candidates_ok db \<and> get_candidate db cid = Some r"
  have "?I (run_ops (cand_step sha yl) qs db)"
  proof (rule run_ops_invariant)
    show "?I db" using assms(1,2) candidates_ok_run by blast
  next
    fix p s x s'
    assume "?I s" and "cand_step sha yl p s = Inr (x, s')"
    then have ok: "candidates_ok s" and g: "get_candidate s cid = Some r" and st: "cand_step sha yl p s = Inr (x, s')"
      by blast+
    have "cand_outcome s s'" using cand_step_outcome [OF st] ok unfolding candidates_ok_def by blast
    from outcome_terminal [OF this g assms(3)] candidates_ok_step [OF ok st] show "?I s'" by blast
  qed
  moreover have "\<not> may_transition (cd_status r) (tq_to_status q)"
    using assms(3) may_transition_not_terminal by blast
  ultimately show ?thesis using assms(2,3)
    by (simp add: transition_candidate_def revise_content_def record_verdict_def set_marks_def require_candidate_def)
qed

section \<open>Examples\<close>

definition sample_create :: create_request where
  "sample_create =
     \<lparr>cq_skill_name = ''a'', cq_bundle = [(''SKILL.md'', BytesData (sample_skill_md ''x''))],
      cq_limits = default_bundle_limits, cq_proposed_action = ''create'', cq_base_version = 0,
      cq_detail = [], cq_candidate_id = ''c1'', cq_actor = ''evolution''\<rparr>"

definition sample_transition :: "string \<Rightarrow> transition_request" where
  "sample_transition s =
     \<lparr>tq_to_status = s, tq_actor = ''u'', tq_expected_revision = Some 1, tq_verdict = None, tq_evaluation = None,
      tq_decision = None, tq_published_version = None, tq_mutation_id = None, tq_validate_task_id = None,
      tq_reason = ''''\<rparr>"

definition sample_candidates :: "string list \<Rightarrow> candidate_db" where
  "sample_candidates path =
     run_ops (cand_step (\<lambda>d. d) sample_yaml)
       (CandCreate 0 '''' '''' sample_create # map (\<lambda>s. CandTransition 1 ''c1'' (sample_transition s)) path)
       (empty_candidates [])"

lemma sample_status:
  "map_option cd_status (get_candidate (sample_candidates [''validating'', ''published'']) ''c1'') = Some ''published''"
  "map_option cd_status (get_candidate (sample_candidates [''validating'', ''open'']) ''c1'') = Some ''open''"
  by code_simp+

theorem event_log_determines_state_witness:
  "\<exists>r. get_candidate (sample_candidates [''validating'', ''open'']) ''c1'' = Some r \<and>
     history_of (events_of (sample_candidates [''validating'', ''open'']) ''c1'') r \<and>
     live_for_skill (sample_candidates [''validating'', ''open'']) (cd_skill_name r) = Some r"
proof -
  from sample_status(2) obtain r where
    r: "get_candidate (sample_candidates [''validating'', ''open'']) ''c1'' = Some r" "cd_status r = ''open''" by auto
  from event_log_determines_state [OF sample_candidates_def r(1)] r show ?thesis by (auto simp: is_live_def)
qed

theorem processed_candidates_are_final_witness:
  "\<exists>r. get_candidate (sample_candidates [''validating'', ''published'']) ''c1'' = Some r \<and>
     get_candidate (run_ops (cand_step (\<lambda>d. d) sample_yaml) [CandTransition 2 ''c1'' (sample_transition ''open'')]
       (sample_candidates [''validating'', ''published''])) ''c1'' = Some r \<and>
     record_verdict 3 ''c1'' 1 ''accept'' [] ''validator'' '''' (sample_candidates [''validating'', ''published'']) =
       Inr (None, sample_candidates [''validating'', ''published''])"
proof -
  from sample_status(1) obtain r where
    r: "get_candidate (sample_candidates [''validating'', ''published'']) ''c1'' = Some r" "cd_status r = ''published''"
    by auto
  then have t: "cd_status r \<in> set terminal_statuses" by (simp add: terminal_statuses_def)
  have v: "''accept'' \<in> set verdicts" by (simp add: verdicts_def)
  from processed_candidates_are_final [OF sample_candidates_def r(1) t] v r(1) show ?thesis by blast
qed

end
