(* ===== verification/BundleChanges.thy ===== *)
theory BundleChanges imports LibraryProperties begin

text \<open>
  Model-proposed changes of a bundle's files:
  team\_skills/evolution/kernel/bundle\_changes.py, and \<open>attach_bundle_payload\<close> of
  team\_skills/library/bundle.py.
\<close>

section \<open>Editable files\<close>

abbreviation change_error :: "string \<Rightarrow> pyexc" where
  "change_error msg \<equiv> PyExc ''BundleChangeError'' msg"

definition normalized_extensions :: "string list \<Rightarrow> string set" where
  "normalized_extensions extensions =
     set (map (\<lambda>v. CHR ''.'' # dropWhile (\<lambda>c. c = CHR ''.'') (text_lower (text_strip v)))
       (filter (\<lambda>v. dropWhile (\<lambda>c. c = CHR ''.'') (text_strip v) \<noteq> '''') extensions))"

text \<open>\<open>PurePosixPath(p).suffix\<close>: from the last dot of the name, unless it is its first or last character.\<close>

definition path_suffix :: "string \<Rightarrow> string" where
  "path_suffix p =
     (let parts = path_parts p; name = (if parts = [] \<or> parts = [fst (posix_root p)] then [] else last parts);
          ext = takeWhile (\<lambda>c. c \<noteq> CHR ''.'') (rev name); stem = drop (length ext + 1) (rev name)
      in if length ext = length name \<or> ext = [] \<or> stem = [] then [] else CHR ''.'' # rev ext)"

definition validate_editable_path :: "string \<Rightarrow> string set \<Rightarrow> pyexc + string" where
  "validate_editable_path path extensions =
     bindE (case normalize_bundle_rel_path path of
              Inr p \<Rightarrow> Inr p
            | Inl (PyExc c msg) \<Rightarrow> if c = ''SkillBundleError'' then Inl (change_error msg) else Inl (PyExc c msg))
       (\<lambda>rel_path.
         if rel_path = ''SKILL.md'' then Inl (change_error ''SKILL.md must be edited through skill content'')
         else bindE (is_ignored_bundle_rel_path rel_path) (\<lambda>ignored.
           if ignored then Inl (change_error (''Ignored bundle path cannot be edited: '' @ rel_path))
           else if text_lower (path_suffix rel_path) \<notin> extensions
           then Inl (change_error (''Bundle path is not editable: '' @ rel_path))
           else Inr rel_path))"

definition priority_set :: "string list \<Rightarrow> string set" where
  "priority_set paths =
     set (map (\<lambda>p. dropWhile (\<lambda>c. c = CHR ''.'' \<or> c = CHR ''/'')
                 (py_replace_char (CHR 0x5C) (CHR ''/'') (text_strip p)))
       (filter (\<lambda>p. text_strip p \<noteq> '''') paths))"

text \<open>The tuple \<open>(priority, size, path, text)\<close> of a file that qualifies; a file that does not is skipped.\<close>

definition editable_candidate ::
  "string set \<Rightarrow> string set \<Rightarrow> int \<Rightarrow> string \<times> bytes \<Rightarrow> pyexc + (nat \<times> nat \<times> string \<times> string) option" where
  "editable_candidate allowed priority max_file_bytes = (\<lambda>(raw_path, d).
     case validate_editable_path raw_path allowed of
       Inl (PyExc c msg) \<Rightarrow> if c = ''BundleChangeError'' then Inr None else Inl (PyExc c msg)
     | Inr rel_path \<Rightarrow>
         if int (length d) > max 1 max_file_bytes then Inr None
         else case utf8_decode d of
           None \<Rightarrow> Inr None
         | Some t \<Rightarrow> Inr (Some (if rel_path \<in> priority then 0 else 1, length d, rel_path, t)))"

definition select_step ::
  "int \<Rightarrow> nat \<times> nat \<times> string \<times> string \<Rightarrow> (string \<times> string) list \<times> int \<Rightarrow> (string \<times> string) list \<times> int" where
  "select_step budget = (\<lambda>(prio, size, rel_path, t) (selected, used).
     if used + int size > budget then (selected, used) else (bput rel_path t selected, used + int size))"

text \<open>\<open>sorted(candidates)\<close> of tuples: stable sorts from the last component to the first.\<close>

definition select_editable_files ::
  "skill_bundle \<Rightarrow> string list \<Rightarrow> int \<Rightarrow> int \<Rightarrow> string list \<Rightarrow> pyexc + (string \<times> string) list" where
  "select_editable_files b extensions max_file_bytes max_prompt_bytes priority_paths =
     bindE (mapE (editable_candidate (normalized_extensions extensions) (priority_set priority_paths) max_file_bytes) b)
       (\<lambda>found.
         let candidates = sort_key fst (sort_key (fst \<circ> snd) (sort_key (fst \<circ> snd \<circ> snd)
               (sort_key (snd \<circ> snd \<circ> snd) (map the (filter (\<lambda>x. x \<noteq> None) found)))))
         in Inr (fst (fold (select_step (max 1 max_prompt_bytes)) candidates ([], 0))))"

section \<open>Applying changes\<close>

record change_state =
  cs_bundle :: skill_bundle
  cs_audit :: "pyval list"
  cs_seen :: "string set"

definition apply_operation ::
  "string set \<Rightarrow> int \<Rightarrow> bool \<Rightarrow> pydict \<Rightarrow> string \<Rightarrow> string \<Rightarrow> skill_bundle \<Rightarrow> pyexc + skill_bundle" where
  "apply_operation visible max_file_bytes allow_delete change rel_path operation b =
     (if operation = ''upsert''
      then if rel_path \<in> fst ` set b \<and> rel_path \<notin> visible
           then Inl (change_error (''Existing file was not visible to the model: '' @ rel_path))
           else (case dget_none change ''content'' of
                   PStr content \<Rightarrow>
                     if int (length content) > max 1 max_file_bytes
                     then Inl (change_error (''Changed file exceeds size limit: '' @ rel_path))
                     else Inr (bput rel_path content b)
                 | _ \<Rightarrow> Inl (change_error (''Upsert requires UTF-8 text content: '' @ rel_path)))
      else if operation = ''delete''
      then if \<not> allow_delete then Inl (change_error ''Bundle file deletion is disabled'')
           else if rel_path \<notin> visible \<or> rel_path \<notin> fst ` set b
           then Inl (change_error (''Delete target was not visible or does not exist: '' @ rel_path))
           else Inr (filter (\<lambda>(p, d). p \<noteq> rel_path) b)
      else Inl (change_error (''Unsupported file operation '' @ repr_str operation @ '': '' @ rel_path)))"

definition apply_change ::
  "string set \<Rightarrow> string set \<Rightarrow> int \<Rightarrow> bool \<Rightarrow> pyval \<Rightarrow> change_state \<Rightarrow> pyexc + change_state" where
  "apply_change extensions visible max_file_bytes allow_delete raw_change s =
     (case raw_change of
        PDict change \<Rightarrow>
          bindE (validate_editable_path (str_or (dget_none change ''path'') '''') extensions) (\<lambda>rel_path.
            if rel_path \<in> cs_seen s then Inl (change_error (''Duplicate file change: '' @ rel_path))
            else
              let operation = text_lower (text_strip (str_or (dget_none change ''operation'') ''''));
                  reason = text_strip (str_or (dget_none change ''reason'') '''')
              in if reason = '''' then Inl (change_error (''File change requires a reason: '' @ rel_path))
                 else bindE (apply_operation visible max_file_bytes allow_delete change rel_path operation (cs_bundle s))
                   (\<lambda>b. Inr \<lparr>cs_bundle = b,
                             cs_audit = cs_audit s @ [PDict [(''path'', PStr rel_path), (''operation'', PStr operation),
                                                             (''reason'', PStr reason)]],
                             cs_seen = insert rel_path (cs_seen s)\<rparr>))
      | _ \<Rightarrow> Inl (change_error ''Each file change must be an object''))"

definition apply_file_changes ::
  "string list \<Rightarrow> string set \<Rightarrow> int \<Rightarrow> bool \<Rightarrow> skill_bundle \<Rightarrow> pyval list \<Rightarrow> pyexc + change_state" where
  "apply_file_changes extensions visible max_file_bytes allow_delete current_bundle file_changes =
     foldE (apply_change (normalized_extensions extensions) visible max_file_bytes allow_delete) file_changes
       \<lparr>cs_bundle = current_bundle, cs_audit = [], cs_seen = {}\<rparr>"

definition attach_bundle_payload ::
  "(bytes \<Rightarrow> string) \<Rightarrow> (string \<Rightarrow> string + pyval) \<Rightarrow> (pydict \<Rightarrow> string) \<Rightarrow> pydict \<Rightarrow> bundle_files \<Rightarrow>
   pyval list option \<Rightarrow> pyexc + pydict" where
  "attach_bundle_payload sha yaml_load yaml_dump skill files file_changes =
     (let payload = drop_keys [''bundle_files''] skill
      in bindE (coerce_skill_bundle files) (\<lambda>b.
         bindE (build_skill_md yaml_load yaml_dump payload) (\<lambda>md.
         bindE (encode_bundle_payload sha (as_files (bput ''SKILL.md'' md b))) (\<lambda>enc.
           let p = dput ''bundle'' (PDict enc) payload
           in Inr (case file_changes of None \<Rightarrow> p | Some cs \<Rightarrow> dput ''file_changes'' (PList cs) p)))))"

definition materialize_bundle_changes ::
  "(bytes \<Rightarrow> string) \<Rightarrow> (string \<Rightarrow> string + pyval) \<Rightarrow> (pydict \<Rightarrow> string) \<Rightarrow>
   (string list \<Rightarrow> string list \<Rightarrow> string \<Rightarrow> string \<Rightarrow> string list) \<Rightarrow> pydict \<Rightarrow> skill_bundle \<Rightarrow> pyval list \<Rightarrow>
   string list \<Rightarrow> string list \<Rightarrow> int \<Rightarrow> bool \<Rightarrow> pyexc + (pydict \<times> pydict)" where
  "materialize_bundle_changes sha yaml_load yaml_dump udiff skill current_bundle file_changes editable_paths
       extensions max_file_bytes allow_delete =
     bindE (mapE normalize_bundle_rel_path editable_paths) (\<lambda>visible.
     bindE (apply_file_changes extensions (set visible) max_file_bytes allow_delete current_bundle file_changes) (\<lambda>s.
       let seed = drop_keys [''bundle'', ''bundle_files'', ''_editable_bundle_files''] skill
       in bindE (build_skill_md yaml_load yaml_dump seed) (\<lambda>md.
          let final = as_files (bput ''SKILL.md'' md (cs_bundle s))
          in bindE (attach_bundle_payload sha yaml_load yaml_dump seed final (Some (cs_audit s))) (\<lambda>candidate.
             bindE (diff_skill_bundles sha udiff (as_files current_bundle) final) (\<lambda>diff. Inr (candidate, diff))))))"

section \<open>What a change may touch\<close>

text \<open>
  A file that a batch of changes may have altered: its path passed the checks, an existing
  file was visible to the model, a new content respects the size limit, and a file is
  deleted only where deletion is allowed.
\<close>

definition allowed_change ::
  "string set \<Rightarrow> string set \<Rightarrow> int \<Rightarrow> bool \<Rightarrow> skill_bundle \<Rightarrow> skill_bundle \<Rightarrow> string \<Rightarrow> bool" where
  "allowed_change extensions visible max_file_bytes allow_delete before after p \<longleftrightarrow>
     p \<noteq> ''SKILL.md'' \<and> is_ignored_bundle_rel_path p = Inr False \<and> text_lower (path_suffix p) \<in> extensions \<and>
     (p \<in> fst ` set before \<longrightarrow> p \<in> visible) \<and>
     (case map_of after p of None \<Rightarrow> allow_delete | Some d \<Rightarrow> int (length d) \<le> max 1 max_file_bytes)"

lemma validate_editable_path_Inr:
  assumes "validate_editable_path path extensions = Inr p"
  shows "p \<noteq> ''SKILL.md'' \<and> is_ignored_bundle_rel_path p = Inr False \<and> text_lower (path_suffix p) \<in> extensions"
  using assms unfolding validate_editable_path_def bindE_Inr_iff
  by (auto simp: bindE_Inr_iff split: sum.splits pyexc.splits if_splits)

lemma map_of_remove: "map_of (filter (\<lambda>(q, d). q \<noteq> p) b) q = (if q = p then None else map_of b q)"
  by (induction b) auto

lemma in_keys: "p \<in> fst ` set b \<longleftrightarrow> map_of b p \<noteq> None"
  by (induction b) auto

lemma apply_operation_Inr:
  assumes "apply_operation visible m allow change p operation b = Inr b'"
  shows "(\<forall>q. q \<noteq> p \<longrightarrow> map_of b' q = map_of b q) \<and> (map_of b p \<noteq> None \<longrightarrow> p \<in> visible) \<and>
    (case map_of b' p of None \<Rightarrow> allow | Some d \<Rightarrow> int (length d) \<le> max 1 m)"
  using assms unfolding apply_operation_def in_keys
  by (auto simp: map_of_bput map_of_remove split: if_splits pyval.splits)

lemma apply_change_Inr:
  assumes "apply_change extensions visible m allow v s = Inr s'"
  obtains p where "p \<notin> cs_seen s" "cs_seen s' = insert p (cs_seen s)"
    "p \<noteq> ''SKILL.md'' \<and> is_ignored_bundle_rel_path p = Inr False \<and> text_lower (path_suffix p) \<in> extensions"
    "(\<forall>q. q \<noteq> p \<longrightarrow> map_of (cs_bundle s') q = map_of (cs_bundle s) q) \<and> (map_of (cs_bundle s) p \<noteq> None \<longrightarrow> p \<in> visible) \<and>
     (case map_of (cs_bundle s') p of None \<Rightarrow> allow | Some d \<Rightarrow> int (length d) \<le> max 1 m)"
proof -
  from assms obtain change where v: "v = PDict change" by (cases v) (auto simp: apply_change_def)
  with assms obtain p b operation where p: "validate_editable_path (str_or (dget_none change ''path'') '''') extensions = Inr p"
    and "p \<notin> cs_seen s" and b: "apply_operation visible m allow change p operation (cs_bundle s) = Inr b"
    and s': "cs_bundle s' = b" "cs_seen s' = insert p (cs_seen s)"
    by (auto simp: apply_change_def bindE_Inr_iff Let_def split: if_splits)
  then show thesis using validate_editable_path_Inr [OF p] apply_operation_Inr [OF b] that by simp
qed

lemma apply_changes_invariant:
  assumes "foldE (apply_change extensions visible m allow) vs s = Inr t"
    and "\<forall>p. map_of (cs_bundle s) p \<noteq> map_of b p \<or> p \<in> cs_seen s \<longrightarrow>
      allowed_change extensions visible m allow b (cs_bundle s) p \<and> p \<in> cs_seen s"
  shows "\<forall>p. map_of (cs_bundle t) p \<noteq> map_of b p \<longrightarrow>
      allowed_change extensions visible m allow b (cs_bundle t) p"
proof -
  let ?I = "\<lambda>s. \<forall>p. map_of (cs_bundle s) p \<noteq> map_of b p \<or> p \<in> cs_seen s \<longrightarrow>
      allowed_change extensions visible m allow b (cs_bundle s) p \<and> p \<in> cs_seen s"
  have "?I t"
  proof (rule foldE_invariant [OF assms(1), of ?I])
    show "?I s" by (rule assms(2))
  next
    fix v s s'
    assume I: "?I s" and "apply_change extensions visible m allow v s = Inr s'"
    from this(2) show "?I s'"
    proof (rule apply_change_Inr)
      fix p
      assume p: "p \<notin> cs_seen s" "cs_seen s' = insert p (cs_seen s)"
        "p \<noteq> ''SKILL.md'' \<and> is_ignored_bundle_rel_path p = Inr False \<and> text_lower (path_suffix p) \<in> extensions"
        "(\<forall>q. q \<noteq> p \<longrightarrow> map_of (cs_bundle s') q = map_of (cs_bundle s) q) \<and> (map_of (cs_bundle s) p \<noteq> None \<longrightarrow> p \<in> visible) \<and>
         (case map_of (cs_bundle s') p of None \<Rightarrow> allow | Some d \<Rightarrow> int (length d) \<le> max 1 m)"
      have same: "map_of (cs_bundle s) p = map_of b p" using I p(1) by blast
      have "allowed_change extensions visible m allow b (cs_bundle s') p"
        using p(3,4) same unfolding allowed_change_def in_keys by simp
      moreover have "allowed_change extensions visible m allow b (cs_bundle s') q"
        if "q \<noteq> p" "allowed_change extensions visible m allow b (cs_bundle s) q" for q
        using that p(4) unfolding allowed_change_def by simp
      ultimately show ?thesis using I p(2,4) by (metis insert_iff)
    qed
  qed
  then show ?thesis by blast
qed

text \<open>
  C21: Model-proposed changes stay in scope. When a batch is materialised, every file whose
  content differs from the current bundle has an editable extension and is neither SKILL.md
  nor an ignored file; a file that existed was visible to the model; a new content respects
  the size limit and a file only disappears when deletion is allowed. The candidate carries
  the audited list of the changes.
\<close>

theorem bundle_changes_stay_in_scope:
  assumes "materialize_bundle_changes sha yaml_load yaml_dump udiff skill b changes editable_paths extensions m allow =
    Inr (candidate, diff)"
  shows "\<exists>visible s. mapE normalize_bundle_rel_path editable_paths = Inr visible \<and>
    apply_file_changes extensions (set visible) m allow b changes = Inr s \<and>
    dget candidate ''file_changes'' = Some (PList (cs_audit s)) \<and>
    (\<forall>p. map_of (cs_bundle s) p \<noteq> map_of b p \<longrightarrow>
       allowed_change (normalized_extensions extensions) (set visible) m allow b (cs_bundle s) p)"
proof -
  from assms obtain visible s seed final where
    v: "mapE normalize_bundle_rel_path editable_paths = Inr visible"
    and s: "apply_file_changes extensions (set visible) m allow b changes = Inr s"
    and a: "attach_bundle_payload sha yaml_load yaml_dump seed final (Some (cs_audit s)) = Inr candidate"
    unfolding materialize_bundle_changes_def by (auto simp: bindE_Inr_iff Let_def)
  from a have "dget candidate ''file_changes'' = Some (PList (cs_audit s))"
    by (auto simp: attach_bundle_payload_def bindE_Inr_iff Let_def dget_dput)
  moreover have "\<forall>p. map_of (cs_bundle s) p \<noteq> map_of b p \<longrightarrow>
      allowed_change (normalized_extensions extensions) (set visible) m allow b (cs_bundle s) p"
    by (rule apply_changes_invariant [OF s [unfolded apply_file_changes_def]]) simp
  ultimately show ?thesis using v s by blast
qed

definition sample_dump :: "pydict \<Rightarrow> string" where
  "sample_dump d = ''name: a'' @ CHR 0x0A # ''description: b''"

definition sample_changes :: "pyval list" where
  "sample_changes =
     [PDict [(''path'', PStr ''run.sh''), (''operation'', PStr ''upsert''), (''content'', PStr ''pwd''), (''reason'', PStr ''r'')],
      PDict [(''path'', PStr ''old.sh''), (''operation'', PStr ''delete''), (''reason'', PStr ''r'')]]"

theorem bundle_changes_stay_in_scope_witness:
  "\<exists>visible s. apply_file_changes [''.sh''] (set visible) 10 True
       [(''run.sh'', ''ls''), (''old.sh'', ''x''), (''b.bin'', ''y'')] sample_changes = Inr s \<and>
     map_of (cs_bundle s) ''b.bin'' = Some ''y''"
proof -
  let ?b = "[(''run.sh'', ''ls''), (''old.sh'', ''x''), (''b.bin'', ''y'')]"
  let ?m = "materialize_bundle_changes (\<lambda>d. d) sample_yaml sample_dump (\<lambda>before after f t. []) [(''name'', PStr ''a''), (''description'', PStr ''b'')]
    ?b sample_changes [''run.sh'', ''old.sh''] [''.sh''] 10 True"
  have "case ?m of Inl e \<Rightarrow> False | Inr x \<Rightarrow> True" by code_simp
  then obtain candidate diff where "?m = Inr (candidate, diff)" by (auto split: sum.splits)
  from bundle_changes_stay_in_scope [OF this] obtain visible s where
    s: "apply_file_changes [''.sh''] (set visible) 10 True ?b sample_changes = Inr s"
    and p: "map_of (cs_bundle s) ''b.bin'' \<noteq> map_of ?b ''b.bin'' \<Longrightarrow>
      allowed_change (normalized_extensions [''.sh'']) (set visible) 10 True ?b (cs_bundle s) ''b.bin''" by blast
  have "text_lower (path_suffix ''b.bin'') \<notin> normalized_extensions [''.sh'']" by code_simp
  then have "map_of (cs_bundle s) ''b.bin'' = map_of ?b ''b.bin''" using p by (auto simp: allowed_change_def)
  with s show ?thesis by auto
qed

end
