(* ===== verification/SkillEdits.thy ===== *)
theory SkillEdits imports Bytes "HOL-Library.Sublist" begin

text \<open>
  Search and replace edits of a skill document:
  team\_skills/evolution/kernel/skill\_edits.py. Texts are lists of characters as in theory
  \<open>PyValue\<close>. The reason of a failure is kept as the branch that raised it, not as its
  (Chinese) message; a snippet is its text and whether an ellipsis was appended.
\<close>

section \<open>Matching\<close>

text \<open>The text before and after the first match, as \<open>work.find(needle)\<close> locates it.\<close>

fun split_first :: "string \<Rightarrow> string \<Rightarrow> (string \<times> string) option" where
  "split_first needle s =
     (if starts_with needle s then Some ([], drop (length needle) s)
      else (case s of
              [] \<Rightarrow> None
            | c # cs \<Rightarrow> map_option (\<lambda>(a, b). (c # a, b)) (split_first needle cs)))"

declare split_first.simps [simp del]

lemma starts_with_iff: "starts_with p s \<longleftrightarrow> prefix p s"
  by (induction p s rule: starts_with.induct) (auto simp: prefix_Cons split: list.splits)

lemma split_first_append: "split_first needle s = Some (a, b) \<Longrightarrow> s = a @ needle @ b"
proof (induction needle s arbitrary: a rule: split_first.induct)
  case (1 needle s)
  show ?case
  proof (cases "starts_with needle s")
    case True
    with 1 show ?thesis by (auto simp: starts_with_iff prefix_def split_first.simps [of needle s])
  next
    case False
    with 1 show ?thesis by (auto simp: split_first.simps [of needle s] split: list.splits)
  qed
qed

text \<open>\<open>work.count(needle)\<close> of a non-empty needle: matches that do not overlap.\<close>

function count_sub :: "string \<Rightarrow> string \<Rightarrow> nat" where
  "count_sub needle s =
     (if needle = [] then 0
      else case split_first needle s of None \<Rightarrow> 0 | Some (a, b) \<Rightarrow> Suc (count_sub needle b))"
  by pat_completeness auto
termination
  by (relation "measure (\<lambda>(needle, s). length s)") (auto dest!: split_first_append)

declare count_sub.simps [simp del]

definition match_once :: "string \<Rightarrow> string \<Rightarrow> nat \<times> int" where
  "match_once work needle =
     (let count = count_sub needle work
      in if count = 0 then (0, -1)
         else (count, case split_first needle work of None \<Rightarrow> -1 | Some (a, b) \<Rightarrow> int (length a)))"

section \<open>Failures\<close>

datatype edit_reason =
    EditsNotAList
  | EditNotAnObject
  | UnsupportedOperation
  | OldStringRequired
  | NewStringNotText
  | AnchorRequired
  | NewStringRequired
  | NotFoundInText
  | MatchedTimes nat

record edit_failure =
  ef_index :: nat
  ef_operation :: string
  ef_reason :: edit_reason
  ef_snippet :: "(string \<times> bool) option"

record edit_application =
  ea_ok :: bool
  ea_content :: string
  ea_applied :: nat
  ea_failures :: "edit_failure list"

definition edit_operations :: "string list" where
  "edit_operations = [''replace'', ''insert_after'']"

fun py_split :: "string \<Rightarrow> string list" where
  "py_split [] = []"
| "py_split (x # xs) =
     (if is_space x then py_split xs
      else (case xs of
              [] \<Rightarrow> [[x]]
            | y # ys \<Rightarrow> if is_space y then [x] # py_split xs
                      else (case py_split xs of [] \<Rightarrow> [[x]] | p # ps \<Rightarrow> (x # p) # ps)))"

definition snippet_of :: "string \<Rightarrow> string \<times> bool" where
  "snippet_of s =
     (let compact = join_with '' '' (py_split s)
      in if length compact > 80 then (take 79 compact, True) else (compact, False))"

definition failure :: "nat \<Rightarrow> string \<Rightarrow> edit_reason \<Rightarrow> edit_failure" where
  "failure i operation reason =
     \<lparr>ef_index = i, ef_operation = operation, ef_reason = reason, ef_snippet = None\<rparr>"

definition failure_at :: "nat \<Rightarrow> string \<Rightarrow> edit_reason \<Rightarrow> string \<Rightarrow> edit_failure" where
  "failure_at i operation reason anchor =
     \<lparr>ef_index = i, ef_operation = operation, ef_reason = reason, ef_snippet = Some (snippet_of anchor)\<rparr>"

section \<open>Applying edits\<close>

text \<open>The check of a match: exactly one, by \<open>count\<close>; then the split text is put together by \<open>k\<close>.\<close>

definition at_match ::
  "nat \<Rightarrow> string \<Rightarrow> string \<Rightarrow> string \<Rightarrow> (string \<Rightarrow> string \<Rightarrow> string) \<Rightarrow> edit_failure + string" where
  "at_match i operation work needle k =
     (let (count, pos) = match_once work needle
      in if count = 0 then Inl (failure_at i operation NotFoundInText needle)
         else if count > 1 then Inl (failure_at i operation (MatchedTimes count) needle)
         else Inr (k (take (nat pos) work) (drop (nat pos + length needle) work)))"

definition edit_replace :: "nat \<Rightarrow> pydict \<Rightarrow> string \<Rightarrow> edit_failure + string" where
  "edit_replace i edit work =
     (case (dget_none edit ''old_string'', dget_or edit ''new_string'' (PStr '''')) of
        (PStr old, new) \<Rightarrow>
          if old = '''' then Inl (failure i ''replace'' OldStringRequired)
          else (case new of
                  PStr n \<Rightarrow> at_match i ''replace'' work old (\<lambda>a b. a @ n @ b)
                | _ \<Rightarrow> Inl (failure i ''replace'' NewStringNotText))
      | _ \<Rightarrow> Inl (failure i ''replace'' OldStringRequired))"

definition edit_insert_after :: "nat \<Rightarrow> pydict \<Rightarrow> string \<Rightarrow> edit_failure + string" where
  "edit_insert_after i edit work =
     (case (dget_none edit ''anchor'', dget_none edit ''new_string'') of
        (PStr anchor, new) \<Rightarrow>
          if anchor = '''' then Inl (failure i ''insert_after'' AnchorRequired)
          else (case new of
                  PStr n \<Rightarrow>
                    if n = '''' then Inl (failure i ''insert_after'' NewStringRequired)
                    else at_match i ''insert_after'' work anchor (\<lambda>a b. a @ anchor @ n @ b)
                | _ \<Rightarrow> Inl (failure i ''insert_after'' NewStringRequired))
      | _ \<Rightarrow> Inl (failure i ''insert_after'' AnchorRequired))"

definition edit_one :: "nat \<Rightarrow> pyval \<Rightarrow> string \<Rightarrow> edit_failure + string" where
  "edit_one i v work =
     (case v of
        PDict edit \<Rightarrow>
          let operation = py_strip (str_or (dget_none edit ''operation'') '''')
          in if operation \<notin> set edit_operations then Inl (failure i operation UnsupportedOperation)
             else if operation = ''replace'' then edit_replace i edit work
             else edit_insert_after i edit work
      | _ \<Rightarrow> Inl (failure i '''' EditNotAnObject))"

fun edit_loop ::
  "nat \<Rightarrow> pyval list \<Rightarrow> string \<Rightarrow> edit_failure list \<Rightarrow> nat \<Rightarrow> string \<times> edit_failure list \<times> nat" where
  "edit_loop i [] work failures applied = (work, failures, applied)"
| "edit_loop i (v # vs) work failures applied =
     (case edit_one i v work of
        Inl f \<Rightarrow> edit_loop (Suc i) vs work (failures @ [f]) applied
      | Inr work' \<Rightarrow> edit_loop (Suc i) vs work' failures (applied + 1))"

definition apply_skill_edits :: "pyval \<Rightarrow> pyval \<Rightarrow> edit_application" where
  "apply_skill_edits content edits =
     (let original = str_or content ''''
      in case edits of
           PList (v # vs) \<Rightarrow>
             let (work, failures, applied) = edit_loop 0 (v # vs) original [] 0
             in if failures \<noteq> []
                then \<lparr>ea_ok = False, ea_content = original, ea_applied = 0, ea_failures = failures\<rparr>
                else \<lparr>ea_ok = True, ea_content = work, ea_applied = applied, ea_failures = []\<rparr>
         | _ \<Rightarrow> \<lparr>ea_ok = False, ea_content = original, ea_applied = 0,
                 ea_failures = [failure 0 '''' EditsNotAList]\<rparr>)"

section \<open>The reference: one exact match per edit\<close>

text \<open>\<open>needle\<close> has its first match between \<open>a\<close> and \<open>b\<close>, and no further one in \<open>b\<close>.\<close>

definition matches_once :: "string \<Rightarrow> string \<Rightarrow> string \<Rightarrow> string \<Rightarrow> bool" where
  "matches_once needle s a b \<longleftrightarrow>
     needle \<noteq> [] \<and> s = a @ needle @ b \<and> \<not> sublist needle (butlast (a @ needle)) \<and> \<not> sublist needle b"

definition operation_of :: "pydict \<Rightarrow> string" where
  "operation_of edit = py_strip (str_or (dget_none edit ''operation'') '''')"

inductive edit_step :: "pyval \<Rightarrow> string \<Rightarrow> string \<Rightarrow> bool" where
  replace: "operation_of edit = ''replace'' \<Longrightarrow> dget_none edit ''old_string'' = PStr old \<Longrightarrow>
    dget_or edit ''new_string'' (PStr '''') = PStr new \<Longrightarrow> matches_once old s a b \<Longrightarrow>
    edit_step (PDict edit) s (a @ new @ b)"
| insert_after: "operation_of edit = ''insert_after'' \<Longrightarrow> dget_none edit ''anchor'' = PStr anchor \<Longrightarrow>
    dget_none edit ''new_string'' = PStr new \<Longrightarrow> new \<noteq> '''' \<Longrightarrow> matches_once anchor s a b \<Longrightarrow>
    edit_step (PDict edit) s (a @ anchor @ new @ b)"

inductive edit_steps :: "pyval list \<Rightarrow> string \<Rightarrow> string \<Rightarrow> bool" where
  none: "edit_steps [] s s"
| step: "edit_step v s s' \<Longrightarrow> edit_steps vs s' t \<Longrightarrow> edit_steps (v # vs) s t"

inductive_cases edit_steps_ConsE: "edit_steps (v # vs) s t"

inductive_simps edit_steps_Nil: "edit_steps [] s t"

inductive_cases edit_stepE: "edit_step (PDict edit) s t"

lemma split_first_None: "split_first needle s = None \<longleftrightarrow> \<not> sublist needle s"
proof (induction s)
  case Nil
  then show ?case by (simp add: split_first.simps [of needle "[]"] starts_with_iff)
next
  case (Cons c cs)
  then show ?case by (simp add: split_first.simps [of needle "c # cs"] starts_with_iff sublist_Cons_right)
qed

lemma prefix_butlast: "prefix p (x @ p' ) \<Longrightarrow> length p < length (x @ p') \<Longrightarrow> prefix p (butlast (x @ p'))"
  by (metis prefix_snoc append_butlast_last_id length_0_conv less_nat_zero_code nat_neq_iff)

lemma split_first_Some:
  assumes "needle \<noteq> []"
  shows "split_first needle s = Some (a, b) \<longleftrightarrow> s = a @ needle @ b \<and> \<not> sublist needle (butlast (a @ needle))"
proof (induction s arbitrary: a)
  case Nil
  then show ?case using assms by (simp add: split_first.simps [of needle "[]"] starts_with_iff)
next
  case (Cons c cs)
  note IH = Cons.IH
  show ?case
  proof (cases "starts_with needle (c # cs)")
    case True
    then obtain t where t: "c # cs = needle @ t" by (auto simp: starts_with_iff prefix_def)
    have "a = []" if "c # cs = a @ needle @ b" "\<not> sublist needle (butlast (a @ needle))"
    proof (rule ccontr)
      assume "a \<noteq> []"
      with that t have "prefix needle (a @ needle)"
        by (metis append_assoc append_eq_append_conv_if prefix_order.refl prefixI prefix_length_prefix prefix_prefix
            length_append le_add2)
      then have "prefix needle (butlast (a @ needle))" using \<open>a \<noteq> []\<close> by (intro prefix_butlast) simp_all
      then show False using that(2) by (simp add: prefix_imp_sublist)
    qed
    moreover have "\<not> sublist needle (butlast needle)"
      using assms by (metis length_butlast sublist_length_le diff_less length_greater_0_conv not_less zero_less_one)
    moreover have "split_first needle (c # cs) = Some ([], t)"
      using True unfolding t by (simp add: split_first.simps [of needle "needle @ t"])
    ultimately show ?thesis unfolding t by auto
  next
    case False
    have "a \<noteq> []" if "c # cs = a @ needle @ b"
      using that False by (auto simp: starts_with_iff)
    note ne = this
    have sub: "sublist needle (butlast ((c # a') @ needle)) \<longleftrightarrow> sublist needle (butlast (a' @ needle))"
      if "c # cs = (c # a') @ needle @ b" for a'
    proof -
      have "\<not> prefix needle (butlast ((c # a') @ needle))"
      proof
        assume p: "prefix needle (butlast ((c # a') @ needle))"
        have "prefix (butlast ((c # a') @ needle)) (c # cs)"
          unfolding that append_assoc [symmetric] by (meson prefix_append prefixeq_butlast)
        with p False show False unfolding starts_with_iff by (meson prefix_order.trans)
      qed
      moreover have "butlast ((c # a') @ needle) = c # butlast (a' @ needle)" using assms by simp
      ultimately show ?thesis by (simp add: sublist_Cons_right)
    qed
    have eq: "split_first needle (c # cs) = map_option (\<lambda>(a, b). (c # a, b)) (split_first needle cs)"
      using False by (simp add: split_first.simps [of needle "c # cs"])
    show ?thesis
    proof (cases a)
      case Nil
      with ne show ?thesis by (auto simp: eq)
    next
      case (Cons d a')
      have "split_first needle (c # cs) = Some (a, b) \<longleftrightarrow> d = c \<and> split_first needle cs = Some (a', b)"
        unfolding eq Cons by auto
      also have "\<dots> \<longleftrightarrow> d = c \<and> cs = a' @ needle @ b \<and> \<not> sublist needle (butlast (a' @ needle))"
        using IH [of a'] by simp
      also have "\<dots> \<longleftrightarrow> c # cs = a @ needle @ b \<and> \<not> sublist needle (butlast (a @ needle))"
        using sub [of a'] Cons by auto
      finally show ?thesis .
    qed
  qed
qed

lemma count_one:
  assumes "needle \<noteq> []"
  shows "count_sub needle s = 1 \<longleftrightarrow> (\<exists>a b. matches_once needle s a b)"
    and "matches_once needle s a b \<Longrightarrow> match_once s needle = (1, int (length a))"
proof -
  have z: "count_sub needle s = 0 \<longleftrightarrow> \<not> sublist needle s" for s
    using assms by (simp add: count_sub.simps [of needle s] flip: split_first_None split: option.splits)
  have one: "count_sub needle s = 1 \<longleftrightarrow> (\<exists>a b. split_first needle s = Some (a, b) \<and> \<not> sublist needle b)"
    using assms z by (simp add: count_sub.simps [of needle s] split: option.splits)
  show "count_sub needle s = 1 \<longleftrightarrow> (\<exists>a b. matches_once needle s a b)"
    unfolding one matches_once_def split_first_Some [OF assms] using assms by blast
  assume m: "matches_once needle s a b"
  then have "split_first needle s = Some (a, b)" unfolding matches_once_def split_first_Some [OF assms] by blast
  moreover have "\<not> sublist needle b" using m by (simp add: matches_once_def)
  ultimately show "match_once s needle = (1, int (length a))"
    using one by (auto simp: match_once_def)
qed

lemma matches_once_split: "matches_once needle s a b \<Longrightarrow> split_first needle s = Some (a, b)"
  unfolding matches_once_def using split_first_Some [of needle s a b] by blast

lemma at_match_iff:
  assumes "needle \<noteq> []"
  shows "at_match i operation s needle k = Inr t \<longleftrightarrow> (\<exists>a b. matches_once needle s a b \<and> t = k a b)"
proof (cases "\<exists>a b. matches_once needle s a b")
  case True
  then obtain a b where m: "matches_once needle s a b" by blast
  have u: "a' = a \<and> b' = b" if "matches_once needle s a' b'" for a' b'
    using matches_once_split [OF that] matches_once_split [OF m] by simp
  have "take (length a) s = a" "drop (length a + length needle) s = b" using m by (auto simp: matches_once_def)
  note td = this
  have "at_match i operation s needle k = Inr (k (take (length a) s) (drop (length a + length needle) s))"
    unfolding at_match_def count_one(2) [OF assms m] by simp
  then have "at_match i operation s needle k = Inr (k a b)" unfolding td .
  moreover have "(\<exists>a' b'. matches_once needle s a' b' \<and> t = k a' b') \<longleftrightarrow> t = k a b"
    using m u by metis
  ultimately show ?thesis by (simp only: sum.inject) metis
next
  case False
  then have "count_sub needle s \<noteq> 1" using count_one(1) [OF assms, of s] by blast
  then have "\<not> (\<exists>t. at_match i operation s needle k = Inr t)"
    by (auto simp: at_match_def match_once_def Let_def split: if_splits)
  with False show ?thesis by blast
qed

lemma edit_replace_iff:
  assumes "operation_of edit = ''replace''"
  shows "edit_replace i edit s = Inr t \<longleftrightarrow> edit_step (PDict edit) s t"
proof
  assume e: "edit_replace i edit s = Inr t"
  then obtain old new where "dget_none edit ''old_string'' = PStr old" "old \<noteq> ''''"
    "dget_or edit ''new_string'' (PStr '''') = PStr new"
    "at_match i ''replace'' s old (\<lambda>a b. a @ new @ b) = Inr t"
    by (auto simp: edit_replace_def split: pyval.splits if_splits)
  with assms show "edit_step (PDict edit) s t" by (auto simp: at_match_iff intro: edit_step.replace)
next
  assume "edit_step (PDict edit) s t"
  then show "edit_replace i edit s = Inr t"
  proof (rule edit_stepE)
    fix old new a b
    assume x: "t = a @ new @ b" "dget_none edit ''old_string'' = PStr old"
      "dget_or edit ''new_string'' (PStr '''') = PStr new" "matches_once old s a b"
    then have "old \<noteq> []" by (simp add: matches_once_def)
    with x show ?thesis by (auto simp: edit_replace_def at_match_iff)
  qed (use assms in auto)
qed

lemma edit_insert_iff:
  assumes "operation_of edit = ''insert_after''"
  shows "edit_insert_after i edit s = Inr t \<longleftrightarrow> edit_step (PDict edit) s t"
proof
  assume e: "edit_insert_after i edit s = Inr t"
  then obtain anchor new where "dget_none edit ''anchor'' = PStr anchor" "anchor \<noteq> ''''"
    "dget_none edit ''new_string'' = PStr new" "new \<noteq> ''''"
    "at_match i ''insert_after'' s anchor (\<lambda>a b. a @ anchor @ new @ b) = Inr t"
    by (auto simp: edit_insert_after_def split: pyval.splits if_splits)
  with assms show "edit_step (PDict edit) s t" by (auto simp: at_match_iff intro: edit_step.insert_after)
next
  assume "edit_step (PDict edit) s t"
  then show "edit_insert_after i edit s = Inr t"
  proof (rule edit_stepE)
    fix anchor new a b
    assume x: "t = a @ anchor @ new @ b" "dget_none edit ''anchor'' = PStr anchor"
      "dget_none edit ''new_string'' = PStr new" "new \<noteq> ''''" "matches_once anchor s a b"
    then have "anchor \<noteq> []" by (simp add: matches_once_def)
    with x show ?thesis by (auto simp: edit_insert_after_def at_match_iff)
  qed (use assms in auto)
qed

lemma edit_one_iff: "edit_one i v s = Inr t \<longleftrightarrow> edit_step v s t"
proof (cases "\<exists>edit. v = PDict edit")
  case True
  then obtain edit where v: "v = PDict edit" by blast
  consider "operation_of edit = ''replace''" | "operation_of edit = ''insert_after''"
    | "operation_of edit \<notin> set edit_operations"
    by (auto simp: edit_operations_def)
  then show ?thesis
  proof cases
    case 3
    then have "\<not> edit_step (PDict edit) s t" by (auto elim!: edit_stepE simp: edit_operations_def)
    with 3 show ?thesis by (simp add: v edit_one_def operation_of_def Let_def)
  qed (simp_all add: v edit_one_def edit_operations_def edit_replace_iff edit_insert_iff flip: operation_of_def)
next
  case False
  then have "edit_one i v s = Inl (failure i '''' EditNotAnObject)" by (cases v) (auto simp: edit_one_def)
  moreover have "\<not> edit_step v s t" using False by (auto elim: edit_step.cases)
  ultimately show ?thesis by simp
qed

lemma edit_loop_keeps: "\<exists>new. fst (snd (edit_loop i vs s failures n)) = failures @ new"
  by (induction i vs s failures n rule: edit_loop.induct) (auto split: sum.splits)

lemma edit_loop_ok:
  "fst (snd (edit_loop i vs s failures n)) = [] \<longleftrightarrow> failures = [] \<and> (\<exists>t. edit_steps vs s t)"
proof (induction i vs s failures n rule: edit_loop.induct)
  case (1 i s failures n)
  then show ?case by (auto simp: edit_steps_Nil)
next
  case (2 i v vs s failures n)
  show ?case
  proof (cases "edit_one i v s")
    case (Inl f)
    then have "\<not> (\<exists>t. edit_step v s t)" by (metis edit_one_iff sum.distinct(1))
    moreover obtain new where "fst (snd (edit_loop (Suc i) vs s (failures @ [f]) n)) = (failures @ [f]) @ new"
      using edit_loop_keeps by blast
    ultimately show ?thesis using Inl by (auto elim: edit_steps_ConsE)
  next
    case (Inr t)
    then have st: "edit_step v s t" by (simp add: edit_one_iff)
    have det: "s' = t" if "edit_step v s s'" for s' using that Inr by (metis edit_one_iff sum.inject(2))
    have "(\<exists>u. edit_steps (v # vs) s u) \<longleftrightarrow> (\<exists>u. edit_steps vs t u)"
      using st det by (blast elim: edit_steps_ConsE intro: edit_steps.step)
    with 2(2) [OF Inr] Inr show ?thesis by simp
  qed
qed

lemma edit_loop_steps:
  "edit_steps vs s t \<Longrightarrow> edit_loop i vs s failures n = (t, failures, n + length vs)"
proof (induction arbitrary: i n rule: edit_steps.induct)
  case (step v s s' vs t)
  then have "edit_one i v s = Inr s'" by (simp add: edit_one_iff)
  with step.IH show ?case by simp
qed simp

text \<open>
  C22: Edits are applied all or nothing. A round succeeds exactly when there is an edit and
  every edit, on the text the ones before it left, has exactly one match of its anchor
  (counted without overlaps); the result is then the text with each match replaced or
  extended in order. Otherwise the original text comes back, with the failures.
\<close>

theorem edits_apply_all_or_nothing:
  fixes content edits
  defines "r \<equiv> apply_skill_edits (PStr content) (PList edits)"
  shows "(ea_ok r \<longleftrightarrow> edits \<noteq> [] \<and> (\<exists>t. edit_steps edits content t)) \<and>
    (ea_ok r \<longrightarrow> edit_steps edits content (ea_content r) \<and> ea_applied r = length edits \<and> ea_failures r = []) \<and>
    (\<not> ea_ok r \<longrightarrow> ea_content r = content \<and> ea_applied r = 0 \<and> ea_failures r \<noteq> [])"
proof -
  have original: "str_or (PStr content) '''' = content"
    by (cases content) (simp_all add: str_or_def py_or_def)
  show ?thesis
  proof (cases edits)
    case Nil
    then show ?thesis by (simp add: r_def apply_skill_edits_def original)
  next
    case (Cons v vs)
    obtain w f n where loop: "edit_loop 0 edits content [] 0 = (w, f, n)" by (cases "edit_loop 0 edits content [] 0")
    have ok: "f = [] \<longleftrightarrow> (\<exists>t. edit_steps edits content t)"
      using edit_loop_ok [of 0 edits content "[]" 0] by (simp add: loop)
    have r: "r = (if f \<noteq> [] then \<lparr>ea_ok = False, ea_content = content, ea_applied = 0, ea_failures = f\<rparr>
                else \<lparr>ea_ok = True, ea_content = w, ea_applied = n, ea_failures = []\<rparr>)"
      using loop by (simp add: r_def apply_skill_edits_def original Cons)
    have "edit_steps edits content w \<and> n = length edits" if "f = []"
    proof -
      from that ok obtain t where t: "edit_steps edits content t" by blast
      from edit_loop_steps [OF t, of 0 "[]" 0] loop have "w = t" "n = length edits" by simp_all
      with t show ?thesis by simp
    qed
    with ok Cons show ?thesis unfolding r by simp
  qed
qed

definition sample_edits :: "pyval list" where
  "sample_edits =
     [PDict [(''operation'', PStr ''replace''), (''old_string'', PStr ''two''), (''new_string'', PStr ''2'')],
      PDict [(''operation'', PStr ''insert_after''), (''anchor'', PStr ''2''), (''new_string'', PStr ''!'')]]"

theorem edits_apply_all_or_nothing_witness:
  "edit_steps sample_edits ''one two'' ''one 2!'' \<and>
   ea_content (apply_skill_edits (PStr ''two two'') (PList sample_edits)) = ''two two''"
proof -
  have "ea_ok (apply_skill_edits (PStr ''one two'') (PList sample_edits))"
    "ea_content (apply_skill_edits (PStr ''one two'') (PList sample_edits)) = ''one 2!''"
    "\<not> ea_ok (apply_skill_edits (PStr ''two two'') (PList sample_edits))" by code_simp+
  with edits_apply_all_or_nothing [of "''one two''" sample_edits]
    edits_apply_all_or_nothing [of "''two two''" sample_edits] show ?thesis by metis
qed

text \<open>
  Overlapping matches are counted once: an anchor that occurs twice in the text is taken
  as unique when its occurrences overlap.
\<close>

lemma overlapping_anchor_accepted:
  "ea_content (apply_skill_edits (PStr ''aaa'')
     (PList [PDict [(''operation'', PStr ''replace''), (''old_string'', PStr ''aa''), (''new_string'', PStr ''b'')]])) = ''ba''"
  by code_simp

end
