(* ===== verification/ContextStore.thy ===== *)
theory ContextStore imports Bytes begin

text \<open>
  Agent context rows: teamEvolver/context/repository.py and usage.py over the
  \<open>context_*\<close> tables of teamEvolver/database/schema/010\_memory\_context.sql. Every statement
  binds the principal's tenant and user, the subject of a row. One call is one atomic step
  (its transaction locks the session or the snapshot id); a raise leaves no state. \<open>now\<close> is
  the transaction's clock in seconds, \<open>token\<close> what \<open>secrets.token_urlsafe\<close> draws.
\<close>

section \<open>Stable hashes\<close>

fun json_canonical :: "pyval \<Rightarrow> string" where
  "json_canonical PNone = ''null''"
| "json_canonical (PBool b) = (if b then ''true'' else ''false'')"
| "json_canonical (PInt i) = int_str i"
| "json_canonical (PFloat f) =
     (case f of PosInf \<Rightarrow> ''Infinity'' | NegInf \<Rightarrow> ''-Infinity'' | NaN \<Rightarrow> ''NaN'' | Fin q \<Rightarrow> float_str f)"
| "json_canonical (PStr s) = json_str s"
| "json_canonical (PList xs) = ''['' @ join_with '','' (map json_canonical xs) @ '']''"
| "json_canonical (PDict d) =
     ''{'' @ join_with '','' (map (\<lambda>(k, v). json_str k @ '':'' @ v)
               (sort_key fst (map (\<lambda>(k, v). (k, json_canonical v)) d))) @ ''}''"

definition stable_hash :: "(bytes \<Rightarrow> string) \<Rightarrow> pyval \<Rightarrow> string" where
  "stable_hash sha v = sha (json_canonical v)"

section \<open>Rows\<close>

type_synonym subject = "string \<times> string"

record ctx_session =
  xs_subject :: subject
  xs_session_id :: string
  xs_external_hash :: string
  xs_ov_session_id :: string
  xs_ov_created :: bool
  xs_committed :: bool
  xs_result_hash :: string
  xs_last_sequence :: int
  xs_created_at :: rat
  xs_updated_at :: rat

record ctx_event =
  xe_subject :: subject
  xe_session_id :: string
  xe_event_id :: string
  xe_sequence :: int
  xe_payload_hash :: string

record ctx_ref =
  xr_subject :: subject
  xr_ref_id :: string
  xr_session_id :: string
  xr_scope :: string
  xr_uri :: string
  xr_kind :: string
  xr_version :: string
  xr_revoked :: bool
  xr_expires_at :: rat
  xr_created_at :: rat

record ctx_snapshot =
  xn_subject :: subject
  xn_snapshot_id :: string
  xn_session_id :: string
  xn_created_at :: rat

record ctx_item =
  xi_subject :: subject
  xi_snapshot_id :: string
  xi_ref_id :: string
  xi_position :: int
  xi_item :: pydict

record ctx_read =
  xd_subject :: subject
  xd_ref_id :: string
  xd_level :: string
  xd_value :: pyval

record ctx_usage =
  xu_subject :: subject
  xu_session_id :: string
  xu_usage_key :: string

record ctx_audit =
  xa_subject :: subject
  xa_action :: string
  xa_subject_hash :: string

record context_db =
  xdb_sessions :: "ctx_session list"
  xdb_events :: "ctx_event list"
  xdb_refs :: "ctx_ref list"
  xdb_snapshots :: "ctx_snapshot list"
  xdb_items :: "ctx_item list"
  xdb_reads :: "ctx_read list"
  xdb_usage :: "ctx_usage list"
  xdb_audit :: "ctx_audit list"

type_synonym 'a ctx_result = "pyexc + ('a \<times> context_db)"

text \<open>\<open>subject(principal)\<close>: both parts are required.\<close>

definition subject_of :: "subject \<Rightarrow> pyexc + subject" where
  "subject_of p =
     (if fst p = '''' \<or> snd p = '''' then Inl (PyExc ''ValueError'' ''Context subject required'') else Inr p)"

abbreviation unique_violation :: pyexc where "unique_violation \<equiv> PyExc ''UniqueViolationError'' ''''"

definition audit_row :: "(bytes \<Rightarrow> string) \<Rightarrow> subject \<Rightarrow> string \<Rightarrow> pyval \<Rightarrow> context_db \<Rightarrow> context_db" where
  "audit_row sha p action v db =
     db\<lparr>xdb_audit := xdb_audit db @ [\<lparr>xa_subject = p, xa_action = action, xa_subject_hash = stable_hash sha v\<rparr>]\<rparr>"

section \<open>Sessions and events\<close>

definition find_session :: "context_db \<Rightarrow> subject \<Rightarrow> string \<Rightarrow> ctx_session option" where
  "find_session db p sid = find (\<lambda>s. xs_subject s = p \<and> xs_session_id s = sid) (xdb_sessions db)"

definition ctx_session_row :: "subject \<Rightarrow> string \<Rightarrow> context_db \<Rightarrow> pyexc + ctx_session" where
  "ctx_session_row p sid db =
     bindE (subject_of p) (\<lambda>p.
       case find_session db p sid of
         None \<Rightarrow> Inl (PyExc ''KeyError'' ''context session not found'')
       | Some s \<Rightarrow> Inr s)"

definition start_session ::
  "(bytes \<Rightarrow> string) \<Rightarrow> rat \<Rightarrow> subject \<Rightarrow> string \<Rightarrow> context_db \<Rightarrow> (ctx_session \<times> bool) ctx_result" where
  "start_session sha now p external_id db =
     bindE (subject_of p) (\<lambda>p.
       let digest = take 32 (stable_hash sha (PList [PStr (fst p), PStr (snd p), PStr external_id]));
           sid = ''ctxs_'' @ digest; external_hash = stable_hash sha (PStr external_id);
           conflict = (\<exists>s\<in>set (xdb_sessions db). xs_subject s = p \<and>
                         (xs_session_id s = sid \<or> xs_external_hash s = external_hash));
           row = \<lparr>xs_subject = p, xs_session_id = sid, xs_external_hash = external_hash,
                  xs_ov_session_id = ''agent-'' @ digest, xs_ov_created = False, xs_committed = False,
                  xs_result_hash = '''', xs_last_sequence = 0, xs_created_at = now, xs_updated_at = now\<rparr>;
           db1 = (if conflict then db else db\<lparr>xdb_sessions := xdb_sessions db @ [row]\<rparr>)
       in bindE (ctx_session_row p sid db1) (\<lambda>s. Inr ((s, \<not> conflict), db1)))"

text \<open>\<open>UPDATE context_sessions SET f WHERE\<close> the session is \<open>sid\<close> of the subject.\<close>

definition update_session :: "subject \<Rightarrow> string \<Rightarrow> (ctx_session \<Rightarrow> ctx_session) \<Rightarrow> context_db \<Rightarrow> context_db" where
  "update_session p sid f db =
     db\<lparr>xdb_sessions := upd_where (\<lambda>s. xs_subject s = p \<and> xs_session_id s = sid) f (xdb_sessions db)\<rparr>"

definition mark_created :: "rat \<Rightarrow> subject \<Rightarrow> string \<Rightarrow> context_db \<Rightarrow> unit ctx_result" where
  "mark_created now p sid db =
     bindE (subject_of p) (\<lambda>p.
       Inr ((), update_session p sid (\<lambda>s. s\<lparr>xs_ov_created := True, xs_updated_at := now\<rparr>) db))"

definition find_event :: "context_db \<Rightarrow> subject \<Rightarrow> string \<Rightarrow> string \<Rightarrow> ctx_event option" where
  "find_event db p sid eid =
     find (\<lambda>e. xe_subject e = p \<and> xe_session_id e = sid \<and> xe_event_id e = eid) (xdb_events db)"

definition event_status ::
  "(bytes \<Rightarrow> string) \<Rightarrow> subject \<Rightarrow> string \<Rightarrow> string \<Rightarrow> int \<Rightarrow> pyval \<Rightarrow> context_db \<Rightarrow> pyexc + (ctx_session \<times> bool)" where
  "event_status sha p sid eid sequence payload db =
     bindE (ctx_session_row p sid db) (\<lambda>s.
       case find_event db p sid eid of
         Some e \<Rightarrow>
           if xe_payload_hash e \<noteq> stable_hash sha payload \<or> xe_sequence e \<noteq> sequence
           then Inl (PyExc ''ValueError'' ''event id reused with different payload'')
           else Inr (s, True)
       | None \<Rightarrow>
           if xs_committed s then Inl (PyExc ''ValueError'' ''context session already committed'')
           else if sequence \<noteq> xs_last_sequence s + 1
           then Inl (PyExc ''ValueError'' (''context event sequence must be '' @ int_str (xs_last_sequence s + 1)))
           else Inr (s, False))"

definition record_event ::
  "(bytes \<Rightarrow> string) \<Rightarrow> rat \<Rightarrow> subject \<Rightarrow> string \<Rightarrow> string \<Rightarrow> int \<Rightarrow> pyval \<Rightarrow> context_db \<Rightarrow> unit ctx_result" where
  "record_event sha now p sid eid sequence payload db =
     bindE (subject_of p) (\<lambda>p.
       if \<exists>e\<in>set (xdb_events db). xe_subject e = p \<and> xe_session_id e = sid \<and>
            (xe_event_id e = eid \<or> xe_sequence e = sequence)
       then Inl unique_violation
       else if find_session db p sid = None then Inl (PyExc ''ForeignKeyViolationError'' '''')
       else
         let db1 = db\<lparr>xdb_events := xdb_events db @
               [\<lparr>xe_subject = p, xe_session_id = sid, xe_event_id = eid, xe_sequence = sequence,
                 xe_payload_hash = stable_hash sha payload\<rparr>]\<rparr>;
             db2 = update_session p sid (\<lambda>s. s\<lparr>xs_last_sequence := sequence, xs_updated_at := now\<rparr>) db1
         in Inr ((), audit_row sha p ''session.append'' (PList [PStr sid, PStr eid]) db2))"

text \<open>
  One append request (teamEvolver/context/api): the status check, then, when the event is
  new, the call to OpenViking (a failure of it raises and rolls back) and the record. The
  result says whether the event was a duplicate.
\<close>

definition append_event ::
  "(bytes \<Rightarrow> string) \<Rightarrow> rat \<Rightarrow> subject \<Rightarrow> string \<Rightarrow> string \<Rightarrow> int \<Rightarrow> pyval \<Rightarrow> pyexc option \<Rightarrow> context_db \<Rightarrow>
   bool ctx_result" where
  "append_event sha now p sid eid sequence payload ov_failure db =
     bindE (event_status sha p sid eid sequence payload db) (\<lambda>(s, duplicate).
       if duplicate then Inr (True, db)
       else case ov_failure of
         Some e \<Rightarrow> Inl e
       | None \<Rightarrow> bindE (record_event sha now p sid eid sequence payload db) (\<lambda>(u, db'). Inr (False, db')))"

definition commit_session ::
  "(bytes \<Rightarrow> string) \<Rightarrow> rat \<Rightarrow> subject \<Rightarrow> string \<Rightarrow> pyval \<Rightarrow> context_db \<Rightarrow> unit ctx_result" where
  "commit_session sha now p sid result db =
     bindE (subject_of p) (\<lambda>p.
       Inr ((), audit_row sha p ''session.commit'' (PStr sid)
         (update_session p sid (\<lambda>s. s\<lparr>xs_committed := True, xs_result_hash := stable_hash sha result,
                                      xs_updated_at := now\<rparr>) db)))"

section \<open>References\<close>

definition issue_ref ::
  "rat \<Rightarrow> string \<Rightarrow> subject \<Rightarrow> string \<Rightarrow> string \<Rightarrow> string \<Rightarrow> string \<Rightarrow> string \<Rightarrow> context_db \<Rightarrow> ctx_ref ctx_result" where
  "issue_ref now token p session_id scope uri kind version db =
     bindE (if session_id \<noteq> '''' then bindE (ctx_session_row p session_id db) (\<lambda>_. Inr ()) else Inr ()) (\<lambda>_.
     bindE (subject_of p) (\<lambda>p.
       let row = \<lparr>xr_subject = p, xr_ref_id = ''ctx_'' @ token, xr_session_id = session_id, xr_scope = scope,
                  xr_uri = uri, xr_kind = kind, xr_version = version, xr_revoked = False,
                  xr_expires_at = now + 900, xr_created_at = now\<rparr>
       in if \<exists>r\<in>set (xdb_refs db). xr_subject r = p \<and> xr_ref_id r = ''ctx_'' @ token then Inl unique_violation
          else Inr (row, db\<lparr>xdb_refs := xdb_refs db @ [row]\<rparr>)))"

definition live_ref :: "rat \<Rightarrow> subject \<Rightarrow> string \<Rightarrow> context_db \<Rightarrow> pyexc + ctx_ref option" where
  "live_ref now p rid db =
     bindE (subject_of p) (\<lambda>p.
       Inr (find (\<lambda>r. xr_subject r = p \<and> xr_ref_id r = rid \<and> \<not> xr_revoked r \<and> xr_expires_at r > now) (xdb_refs db)))"

definition revoke_ref :: "subject \<Rightarrow> string \<Rightarrow> context_db \<Rightarrow> unit ctx_result" where
  "revoke_ref p rid db =
     bindE (subject_of p) (\<lambda>p.
       Inr ((), db\<lparr>xdb_refs := upd_where (\<lambda>r. xr_subject r = p \<and> xr_ref_id r = rid) (\<lambda>r. r\<lparr>xr_revoked := True\<rparr>)
                                 (xdb_refs db)\<rparr>))"

definition record_read ::
  "(bytes \<Rightarrow> string) \<Rightarrow> rat \<Rightarrow> subject \<Rightarrow> string \<Rightarrow> string \<Rightarrow> pyval \<Rightarrow> context_db \<Rightarrow> unit ctx_result" where
  "record_read sha now p rid level v db =
     bindE (live_ref now p rid db) (\<lambda>r.
       if r = None then Inl (PyExc ''KeyError'' ''context reference not found'')
       else
         let known = (\<exists>x\<in>set (xdb_reads db). xd_subject x = p \<and> xd_ref_id x = rid \<and> xd_level x = level);
             db1 = (if known then db
                    else db\<lparr>xdb_reads := xdb_reads db @
                            [\<lparr>xd_subject = p, xd_ref_id = rid, xd_level = level, xd_value = v\<rparr>]\<rparr>)
         in Inr ((), audit_row sha p ''context.read'' (PList [PStr rid, PStr level]) db1))"

section \<open>Snapshots\<close>

definition item_ref :: "pydict \<Rightarrow> pyexc + string" where
  "item_ref item =
     (case dget item ''context_ref'' of None \<Rightarrow> Inl (PyExc ''KeyError'' ''context_ref'') | Some v \<Rightarrow> Inr (py_str v))"

definition check_item :: "rat \<Rightarrow> subject \<Rightarrow> string \<Rightarrow> context_db \<Rightarrow> pydict \<Rightarrow> pyexc + unit" where
  "check_item now p sid db item =
     bindE (item_ref item) (\<lambda>rid.
     bindE (live_ref now p rid db) (\<lambda>r.
       case r of
         None \<Rightarrow> Inl (PyExc ''ValueError'' ''invalid snapshot reference'')
       | Some x \<Rightarrow> if xr_session_id x \<noteq> sid then Inl (PyExc ''ValueError'' ''invalid snapshot reference'')
                  else Inr ()))"

definition snapshot_items :: "context_db \<Rightarrow> subject \<Rightarrow> string \<Rightarrow> ctx_item list" where
  "snapshot_items db p snapshot_id =
     sort_key xi_position (filter (\<lambda>i. xi_subject i = p \<and> xi_snapshot_id i = snapshot_id) (xdb_items db))"

definition find_snapshot :: "context_db \<Rightarrow> subject \<Rightarrow> string \<Rightarrow> ctx_snapshot option" where
  "find_snapshot db p snapshot_id =
     find (\<lambda>n. xn_subject n = p \<and> xn_snapshot_id n = snapshot_id) (xdb_snapshots db)"

text \<open>Items compare as JSON values: the order of the keys does not matter.\<close>

definition same_items :: "pydict list \<Rightarrow> pydict list \<Rightarrow> bool" where
  "same_items xs ys \<longleftrightarrow> map (json_canonical \<circ> PDict) xs = map (json_canonical \<circ> PDict) ys"

definition read_level ::
  "(bytes \<Rightarrow> string) \<Rightarrow> rat \<Rightarrow> subject \<Rightarrow> string \<Rightarrow> pydict \<Rightarrow> string \<Rightarrow> context_db \<Rightarrow> pyexc + context_db" where
  "read_level sha now p rid item level db =
     (if truthy (dget_none item level)
      then bindE (record_read sha now p rid level (dget_none item level) db) (\<lambda>(u, db'). Inr db') else Inr db)"

definition insert_item ::
  "(bytes \<Rightarrow> string) \<Rightarrow> rat \<Rightarrow> subject \<Rightarrow> string \<Rightarrow> nat \<times> pydict \<Rightarrow> context_db \<Rightarrow> pyexc + context_db" where
  "insert_item sha now p snapshot_id = (\<lambda>(index, item) db.
     bindE (item_ref item) (\<lambda>rid.
       let known = (\<exists>i\<in>set (xdb_items db). xi_subject i = p \<and> xi_snapshot_id i = snapshot_id \<and> xi_ref_id i = rid);
           db1 = (if known then db
                  else db\<lparr>xdb_items := xdb_items db @
                          [\<lparr>xi_subject = p, xi_snapshot_id = snapshot_id, xi_ref_id = rid,
                            xi_position = int index, xi_item = item\<rparr>]\<rparr>)
       in foldE (read_level sha now p rid item) [''l0'', ''l1''] db1))"

definition save_snapshot ::
  "(bytes \<Rightarrow> string) \<Rightarrow> rat \<Rightarrow> subject \<Rightarrow> string \<Rightarrow> string \<Rightarrow> pydict list \<Rightarrow> context_db \<Rightarrow> unit ctx_result" where
  "save_snapshot sha now p sid snapshot_id items db =
     bindE (subject_of p) (\<lambda>p.
     bindE (if sid \<noteq> '''' then bindE (ctx_session_row p sid db) (\<lambda>_. Inr ()) else Inr ()) (\<lambda>_.
     bindE (mapE (check_item now p sid db) items) (\<lambda>_.
       case find_snapshot db p snapshot_id of
         Some prior \<Rightarrow>
           if xn_session_id prior \<noteq> sid \<or> \<not> same_items (map xi_item (snapshot_items db p snapshot_id)) items
           then Inl (PyExc ''ValueError'' ''snapshot is immutable'') else Inr ((), db)
       | None \<Rightarrow>
           let row = \<lparr>xn_subject = p, xn_snapshot_id = snapshot_id, xn_session_id = sid, xn_created_at = now\<rparr>;
               db1 = db\<lparr>xdb_snapshots := xdb_snapshots db @ [row]\<rparr>
           in bindE (foldE (insert_item sha now p snapshot_id) (enumerate 0 items) db1) (\<lambda>db2.
                Inr ((), audit_row sha p ''snapshot.create'' (PStr snapshot_id) db2)))))"

text \<open>One loaded item: the stored one, its reference's columns and the levels read.\<close>

definition loaded_item :: "context_db \<Rightarrow> subject \<Rightarrow> ctx_item \<Rightarrow> ctx_ref \<Rightarrow> pydict" where
  "loaded_item db p i r =
     (let reads = filter (\<lambda>x. xd_subject x = p \<and> xd_ref_id x = xi_ref_id i) (xdb_reads db)
      in dput ''expanded'' (PDict (fold (\<lambda>x. dput (xd_level x) (xd_value x)) reads []))
           (dmerge (xi_item i) [(''uri'', PStr (xr_uri r)), (''scope'', PStr (xr_scope r)),
                                (''kind'', PStr (xr_kind r)), (''version'', PStr (xr_version r))]))"

definition item_rows :: "context_db \<Rightarrow> subject \<Rightarrow> string \<Rightarrow> (ctx_item \<times> ctx_ref) list" where
  "item_rows db p snapshot_id =
     concat (map (\<lambda>i. map (\<lambda>r. (i, r))
       (filter (\<lambda>r. xr_subject r = p \<and> xr_ref_id r = xi_ref_id i) (xdb_refs db)))
       (snapshot_items db p snapshot_id))"

definition load_snapshot ::
  "(bytes \<Rightarrow> string) \<Rightarrow> rat \<Rightarrow> subject \<Rightarrow> string \<Rightarrow> context_db \<Rightarrow> pyexc + pydict option" where
  "load_snapshot sha now p snapshot_id db =
     bindE (subject_of p) (\<lambda>p.
       case find (\<lambda>n. xn_subject n = p \<and> xn_snapshot_id n = snapshot_id \<and> xn_created_at n > now - 900)
              (xdb_snapshots db) of
         None \<Rightarrow> Inr None
       | Some n \<Rightarrow>
           let rows = item_rows db p snapshot_id
           in if \<exists>(i, r)\<in>set rows. xr_revoked r \<or> \<not> xr_expires_at r > now then Inr None
              else
                let items = map (\<lambda>(i, r). PDict (loaded_item db p i r)) rows
                in Inr (Some [(''snapshot_id'', PStr snapshot_id),
                     (''subject'', PDict [(''tenant_id'', PStr (fst p)), (''user_id'', PStr (snd p))]),
                     (''session_id'', PStr (xn_session_id n)), (''items'', PList items),
                     (''manifest_hash'', PStr (stable_hash sha (PList items)))]))"

section \<open>Usage\<close>

definition usage_ref :: "rat \<Rightarrow> subject \<Rightarrow> string \<Rightarrow> context_db \<Rightarrow> string \<Rightarrow> pyexc + ctx_ref" where
  "usage_ref now p sid db rid =
     bindE (live_ref now p rid db) (\<lambda>ref.
       let valid = (\<exists>i\<in>set (xdb_items db). xi_subject i = p \<and> xi_ref_id i = rid \<and>
             (\<exists>n\<in>set (xdb_snapshots db). xn_subject n = p \<and> xn_snapshot_id n = xi_snapshot_id i \<and> xn_session_id n = sid) \<and>
             (\<exists>x\<in>set (xdb_reads db). xd_subject x = p \<and> xd_ref_id x = rid));
           invalid = Inl (PyExc ''ValueError'' ''used context reference invalid for session'')
       in case ref of
            None \<Rightarrow> invalid
          | Some r \<Rightarrow> if xr_session_id r \<noteq> sid \<or> xr_kind r \<notin> {''memory'', ''skill''} \<or> \<not> valid then invalid
                     else Inr r)"

text \<open>\<open>dict.fromkeys(ref_ids)\<close>: the first occurrence of each.\<close>

definition usage_refs :: "rat \<Rightarrow> subject \<Rightarrow> string \<Rightarrow> string list \<Rightarrow> context_db \<Rightarrow> pyexc + ctx_ref list" where
  "usage_refs now p sid ref_ids db =
     (if length ref_ids > 200 then Inl (PyExc ''ValueError'' ''at most 200 used_context_refs allowed'')
      else mapE (usage_ref now p sid db) (rev (remdups (rev ref_ids))))"

definition usage_submitted :: "subject \<Rightarrow> string \<Rightarrow> string \<Rightarrow> bool \<Rightarrow> context_db \<Rightarrow> bool ctx_result" where
  "usage_submitted p sid key mark db =
     bindE (subject_of p) (\<lambda>p.
       let known = (\<lambda>d. \<exists>u\<in>set (xdb_usage d). xu_subject u = p \<and> xu_session_id u = sid \<and> xu_usage_key u = key)
       in if mark \<and> \<not> known db
          then if find_session db p sid = None then Inl (PyExc ''ForeignKeyViolationError'' '''')
               else Inr (True, db\<lparr>xdb_usage := xdb_usage db @
                      [\<lparr>xu_subject = p, xu_session_id = sid, xu_usage_key = key\<rparr>]\<rparr>)
          else Inr (known db, db))"

end
