(* ===== verification/ContextProperties.thy ===== *)
theory ContextProperties imports ContextStore Logs begin

text \<open>
  The event log of a context session is contiguous, retries are recognised, and a committed
  session accepts no more events.
\<close>

section \<open>Operations\<close>

datatype ctx_op =
    CtxStart rat subject string
  | CtxMarkCreated rat subject string
  | CtxAppend rat subject string string int pyval "pyexc option"
  | CtxCommit rat subject string pyval
  | CtxIssue rat string subject string string string string string
  | CtxRevoke subject string
  | CtxRead rat subject string string pyval
  | CtxSave rat subject string string "pydict list"
  | CtxSubmit subject string string

definition drop_result :: "'a ctx_result \<Rightarrow> unit ctx_result" where
  "drop_result m = bindE m (\<lambda>(x, db). Inr ((), db))"

fun ctx_step :: "(bytes \<Rightarrow> string) \<Rightarrow> ctx_op \<Rightarrow> context_db \<Rightarrow> unit ctx_result" where
  "ctx_step sha (CtxStart now p ext) db = drop_result (start_session sha now p ext db)"
| "ctx_step sha (CtxMarkCreated now p sid) db = mark_created now p sid db"
| "ctx_step sha (CtxAppend now p sid eid n payload ov) db = drop_result (append_event sha now p sid eid n payload ov db)"
| "ctx_step sha (CtxCommit now p sid result) db = commit_session sha now p sid result db"
| "ctx_step sha (CtxIssue now token p sid scope uri kind version) db =
     drop_result (issue_ref now token p sid scope uri kind version db)"
| "ctx_step sha (CtxRevoke p rid) db = revoke_ref p rid db"
| "ctx_step sha (CtxRead now p rid level v) db = record_read sha now p rid level v db"
| "ctx_step sha (CtxSave now p sid snapshot_id items) db = save_snapshot sha now p sid snapshot_id items db"
| "ctx_step sha (CtxSubmit p sid key) db = drop_result (usage_submitted p sid key True db)"

definition empty_context :: context_db where
  "empty_context = \<lparr>xdb_sessions = [], xdb_events = [], xdb_refs = [], xdb_snapshots = [], xdb_items = [],
     xdb_reads = [], xdb_usage = [], xdb_audit = []\<rparr>"

section \<open>Effect on sessions and events\<close>

definition session_events :: "context_db \<Rightarrow> subject \<Rightarrow> string \<Rightarrow> ctx_event list" where
  "session_events db p sid = filter (\<lambda>e. xe_subject e = p \<and> xe_session_id e = sid) (xdb_events db)"

text \<open>
  Either no event is added, sessions keep their last sequence and stay committed, and new
  sessions start at zero; or one event is added at the end of an open session.
\<close>

inductive ctx_outcome :: "context_db \<Rightarrow> context_db \<Rightarrow> bool" for db db' where
  quiet: "xdb_events db' = xdb_events db \<Longrightarrow>
    (\<And>q t. case find_session db q t of
        None \<Rightarrow> (case find_session db' q t of None \<Rightarrow> True | Some s' \<Rightarrow> xs_last_sequence s' = 0)
      | Some s \<Rightarrow> (\<exists>s'. find_session db' q t = Some s' \<and> xs_last_sequence s' = xs_last_sequence s \<and>
                       (xs_committed s \<longrightarrow> xs_committed s'))) \<Longrightarrow>
    ctx_outcome db db'"
| appended: "find_session db p sid = Some s \<Longrightarrow> \<not> xs_committed s \<Longrightarrow> find_event db p sid (xe_event_id e) = None \<Longrightarrow>
    xe_subject e = p \<Longrightarrow> xe_session_id e = sid \<Longrightarrow> xe_sequence e = xs_last_sequence s + 1 \<Longrightarrow>
    xdb_events db' = xdb_events db @ [e] \<Longrightarrow>
    (\<And>q t. find_session db' q t = map_option (\<lambda>s. if (q, t) = (p, sid)
        then s\<lparr>xs_last_sequence := xe_sequence e, xs_updated_at := now\<rparr> else s) (find_session db q t)) \<Longrightarrow>
    ctx_outcome db db'"

lemma find_session_update:
  assumes "\<And>s. xs_subject (f s) = xs_subject s \<and> xs_session_id (f s) = xs_session_id s"
  shows "find_session (update_session p sid f db) q t =
    map_option (\<lambda>s. if (q, t) = (p, sid) then f s else s) (find_session db q t)"
proof -
  have "find (\<lambda>s. xs_subject s = q \<and> xs_session_id s = t)
      (upd_where (\<lambda>s. xs_subject s = p \<and> xs_session_id s = sid) f xs) =
    map_option (\<lambda>s. if (q, t) = (p, sid) then f s else s) (find (\<lambda>s. xs_subject s = q \<and> xs_session_id s = t) xs)" for xs
    by (induction xs) (use assms in \<open>auto simp: upd_where_def\<close>)
  then show ?thesis by (simp add: find_session_def update_session_def)
qed

lemma update_session_simps [simp]: "xdb_events (update_session p sid f db) = xdb_events db"
  by (simp add: update_session_def)

lemma audit_row_simps [simp]:
  "xdb_sessions (audit_row sha p a v db) = xdb_sessions db" "xdb_events (audit_row sha p a v db) = xdb_events db"
  "xdb_items (audit_row sha p a v db) = xdb_items db" "xdb_snapshots (audit_row sha p a v db) = xdb_snapshots db"
  by (simp_all add: audit_row_def)

lemma find_session_cong: "xdb_sessions db' = xdb_sessions db \<Longrightarrow> find_session db' p sid = find_session db p sid"
  by (simp add: find_session_def)

lemma quiet_same:
  "xdb_events db' = xdb_events db \<Longrightarrow> xdb_sessions db' = xdb_sessions db \<Longrightarrow> ctx_outcome db db'"
  by (rule ctx_outcome.quiet) (auto simp: find_session_cong [of db' db] split: option.splits)

lemma quiet_update:
  assumes "xdb_events db' = xdb_events db" and "xdb_sessions db' = xdb_sessions (update_session p sid f db)"
    and "\<And>s. xs_subject (f s) = xs_subject s \<and> xs_session_id (f s) = xs_session_id s \<and>
      xs_last_sequence (f s) = xs_last_sequence s \<and> (xs_committed s \<longrightarrow> xs_committed (f s))"
  shows "ctx_outcome db db'"
proof (rule ctx_outcome.quiet [OF assms(1)])
  fix q t
  show "case find_session db q t of
        None \<Rightarrow> (case find_session db' q t of None \<Rightarrow> True | Some s' \<Rightarrow> xs_last_sequence s' = 0)
      | Some s \<Rightarrow> (\<exists>s'. find_session db' q t = Some s' \<and> xs_last_sequence s' = xs_last_sequence s \<and>
                       (xs_committed s \<longrightarrow> xs_committed s'))"
    unfolding find_session_cong [OF assms(2)] using assms(3)
    by (simp add: find_session_update split: option.split)
qed

lemma record_read_same:
  "record_read sha now p rid level v db = Inr (u, db') \<Longrightarrow>
   xdb_events db' = xdb_events db \<and> xdb_sessions db' = xdb_sessions db"
  by (auto simp: record_read_def bindE_Inr_iff Let_def split: if_splits)

lemma insert_item_same:
  assumes "insert_item sha now p n x db = Inr db'"
  shows "xdb_events db' = xdb_events db \<and> xdb_sessions db' = xdb_sessions db"
proof -
  obtain index item where x: "x = (index, item)" by (cases x)
  let ?db1 = "\<lambda>rid. if \<exists>i\<in>set (xdb_items db). xi_subject i = p \<and> xi_snapshot_id i = n \<and> xi_ref_id i = rid then db
      else db\<lparr>xdb_items := xdb_items db @ [\<lparr>xi_subject = p, xi_snapshot_id = n, xi_ref_id = rid,
                            xi_position = int index, xi_item = item\<rparr>]\<rparr>"
  from assms obtain rid where f: "foldE (read_level sha now p rid item) [''l0'', ''l1''] (?db1 rid) = Inr db'"
    unfolding x insert_item_def prod.case bindE_Inr_iff Let_def by blast
  have 1: "xdb_events (?db1 rid) = xdb_events db" "xdb_sessions (?db1 rid) = xdb_sessions db" by simp_all
  show ?thesis
  proof (rule foldE_invariant [OF f])
    show "xdb_events (?db1 rid) = xdb_events db \<and> xdb_sessions (?db1 rid) = xdb_sessions db" using 1 by (rule conjI)
  next
    fix level s s'
    assume "xdb_events s = xdb_events db \<and> xdb_sessions s = xdb_sessions db"
      "read_level sha now p rid item level s = Inr s'"
    then show "xdb_events s' = xdb_events db \<and> xdb_sessions s' = xdb_sessions db"
      by (auto simp: read_level_def bindE_Inr_iff split: if_splits prod.splits dest!: record_read_same)
  qed
qed

lemma save_snapshot_same:
  assumes "save_snapshot sha now p sid n items db = Inr (u, db')"
  shows "xdb_events db' = xdb_events db \<and> xdb_sessions db' = xdb_sessions db"
proof (cases "find_snapshot db p n")
  case (Some prior)
  with assms have "db' = db" by (auto simp: save_snapshot_def bindE_Inr_iff subject_of_def split: if_splits)
  then show ?thesis by simp
next
  case None
  let ?db1 = "db\<lparr>xdb_snapshots := xdb_snapshots db @
    [\<lparr>xn_subject = p, xn_snapshot_id = n, xn_session_id = sid, xn_created_at = now\<rparr>]\<rparr>"
  from assms have "subject_of p = Inr p"
    by (auto simp: save_snapshot_def subject_of_def split: if_splits)
  with assms None obtain db2 where
    f: "foldE (insert_item sha now p n) (enumerate 0 items) ?db1 = Inr db2"
    and 2: "db' = audit_row sha p ''snapshot.create'' (PStr n) db2"
    unfolding save_snapshot_def bindE_Inr_iff Let_def by (auto simp: bindE_Inr_iff)
  have "xdb_events db2 = xdb_events db \<and> xdb_sessions db2 = xdb_sessions db"
    by (rule foldE_invariant [OF f]) (auto dest!: insert_item_same)
  with 2 show ?thesis by simp
qed

lemma start_session_outcome:
  assumes "start_session sha now p ext db = Inr (x, db')"
  shows "ctx_outcome db db'"
proof -
  let ?digest = "take 32 (stable_hash sha (PList [PStr (fst p), PStr (snd p), PStr ext]))"
  let ?row = "\<lparr>xs_subject = p, xs_session_id = ''ctxs_'' @ ?digest, xs_external_hash = stable_hash sha (PStr ext),
                  xs_ov_session_id = ''agent-'' @ ?digest, xs_ov_created = False, xs_committed = False,
                  xs_result_hash = '''', xs_last_sequence = 0, xs_created_at = now, xs_updated_at = now\<rparr>"
  from assms have "db' = db \<or> db' = db\<lparr>xdb_sessions := xdb_sessions db @ [?row]\<rparr>"
    by (auto simp: start_session_def subject_of_def bindE_Inr_iff Let_def split: if_splits)
  then show ?thesis
  proof
    assume "db' = db"
    then show ?thesis by (simp add: quiet_same)
  next
    define row where "row = ?row"
    have zero: "xs_last_sequence row = 0" by (simp add: row_def)
    assume "db' = db\<lparr>xdb_sessions := xdb_sessions db @ [?row]\<rparr>"
    then have db': "db' = db\<lparr>xdb_sessions := xdb_sessions db @ [row]\<rparr>" unfolding row_def .
    show ?thesis
    proof (rule ctx_outcome.quiet)
      fix q t
      have "find_session db' q t = (case find_session db q t of
          None \<Rightarrow> if xs_subject row = q \<and> xs_session_id row = t then Some row else None | Some s \<Rightarrow> Some s)"
        unfolding db' find_session_def by (simp add: find_append split: option.split)
      then show "case find_session db q t of
        None \<Rightarrow> (case find_session db' q t of None \<Rightarrow> True | Some s' \<Rightarrow> xs_last_sequence s' = 0)
      | Some s \<Rightarrow> (\<exists>s'. find_session db' q t = Some s' \<and> xs_last_sequence s' = xs_last_sequence s \<and>
                       (xs_committed s \<longrightarrow> xs_committed s'))"
        by (simp add: zero split: option.split)
    qed (simp add: db')
  qed
qed

lemma event_status_new:
  assumes "event_status sha p sid eid n payload db = Inr (s, False)"
  shows "subject_of p = Inr p \<and> find_session db p sid = Some s \<and> \<not> xs_committed s \<and>
    find_event db p sid eid = None \<and> n = xs_last_sequence s + 1"
  using assms
  by (auto simp: event_status_def ctx_session_row_def bindE_Inr_iff subject_of_def split: option.splits if_splits)

lemma append_event_outcome:
  assumes "append_event sha now p sid eid n payload ov db = Inr (x, db')"
  shows "ctx_outcome db db'"
proof -
  from assms obtain s duplicate where st: "event_status sha p sid eid n payload db = Inr (s, duplicate)"
    and rest: "(if duplicate then Inr (True, db)
       else case ov of Some e \<Rightarrow> Inl e
       | None \<Rightarrow> bindE (record_event sha now p sid eid n payload db) (\<lambda>(u, db'). Inr (False, db'))) = Inr (x, db')"
    unfolding append_event_def bindE_Inr_iff by auto
  show ?thesis
  proof (cases duplicate)
    case True
    with rest show ?thesis by (simp add: quiet_same)
  next
    case False
    note ok = event_status_new [OF st [unfolded eq_False [THEN iffD2, OF False]]]
    from rest False have rec: "record_event sha now p sid eid n payload db = Inr ((), db')"
      by (auto simp: bindE_Inr_iff split: option.splits)
    let ?e = "\<lparr>xe_subject = p, xe_session_id = sid, xe_event_id = eid, xe_sequence = n,
                 xe_payload_hash = stable_hash sha payload\<rparr>"
    let ?db1 = "db\<lparr>xdb_events := xdb_events db @ [?e]\<rparr>"
    let ?f = "\<lambda>s. s\<lparr>xs_last_sequence := n, xs_updated_at := now\<rparr>"
    from rec ok have db': "db' = audit_row sha p ''session.append'' (PList [PStr sid, PStr eid]) (update_session p sid ?f ?db1)"
      by (auto simp: record_event_def Let_def split: if_splits)
    show ?thesis
    proof (rule ctx_outcome.appended [where e = ?e and now = now])
      show "find_session db p sid = Some s" "\<not> xs_committed s" "find_event db p sid (xe_event_id ?e) = None"
        "xe_subject ?e = p" "xe_session_id ?e = sid" "xe_sequence ?e = xs_last_sequence s + 1"
        using ok by simp_all
      show "xdb_events db' = xdb_events db @ [?e]" by (simp add: db')
      fix q t
      have "find_session db' q t = find_session (update_session p sid ?f ?db1) q t"
        unfolding db' by (rule find_session_cong) simp
      also have "\<dots> = map_option (\<lambda>s. if (q, t) = (p, sid) then ?f s else s) (find_session ?db1 q t)"
        by (rule find_session_update) simp
      also have "find_session ?db1 q t = find_session db q t" by (rule find_session_cong) simp
      finally show "find_session db' q t = map_option (\<lambda>s. if (q, t) = (p, sid)
        then s\<lparr>xs_last_sequence := xe_sequence ?e, xs_updated_at := now\<rparr> else s) (find_session db q t)"
        unfolding ctx_event.simps .
    qed
  qed
qed

lemma drop_result_Inr: "drop_result m = Inr (u, db') \<longleftrightarrow> (\<exists>x. m = Inr (x, db'))"
  by (auto simp: drop_result_def bindE_Inr_iff)

lemma ctx_step_outcome:
  assumes "ctx_step sha op db = Inr (u, db')"
  shows "ctx_outcome db db'"
proof (cases op)
  case (CtxStart now p ext)
  with assms show ?thesis by (auto simp: drop_result_Inr intro: start_session_outcome)
next
  case (CtxMarkCreated now p sid)
  with assms have "db' = update_session p sid (\<lambda>s. s\<lparr>xs_ov_created := True, xs_updated_at := now\<rparr>) db"
    by (auto simp: mark_created_def subject_of_def split: if_splits)
  then show ?thesis by (intro quiet_update [where f = "\<lambda>s. s\<lparr>xs_ov_created := True, xs_updated_at := now\<rparr>"]) auto
next
  case (CtxAppend now p sid eid n payload ov)
  with assms show ?thesis by (auto simp: drop_result_Inr intro: append_event_outcome)
next
  case (CtxCommit now p sid result)
  let ?f = "\<lambda>s. s\<lparr>xs_committed := True, xs_result_hash := stable_hash sha result, xs_updated_at := now\<rparr>"
  from CtxCommit assms have "db' = audit_row sha p ''session.commit'' (PStr sid) (update_session p sid ?f db)"
    by (auto simp: commit_session_def subject_of_def split: if_splits)
  then show ?thesis by (intro quiet_update [where f = ?f]) auto
next
  case (CtxIssue now token p sid scope uri kind version)
  with assms show ?thesis
    by (auto simp: drop_result_Inr issue_ref_def bindE_Inr_iff Let_def split: if_splits intro!: quiet_same)
next
  case (CtxRevoke p rid)
  with assms show ?thesis by (auto simp: revoke_ref_def bindE_Inr_iff intro!: quiet_same)
next
  case (CtxRead now p rid level v)
  with assms show ?thesis by (auto dest!: record_read_same intro: quiet_same)
next
  case (CtxSave now p sid snapshot_id items)
  with assms show ?thesis by (auto dest!: save_snapshot_same intro: quiet_same)
next
  case (CtxSubmit p sid key)
  with assms show ?thesis
    by (auto simp: drop_result_Inr usage_submitted_def bindE_Inr_iff Let_def split: if_splits intro!: quiet_same)
qed

section \<open>The event log of a session\<close>

definition event_log_ok :: "context_db \<Rightarrow> bool" where
  "event_log_ok db \<longleftrightarrow>
     (\<forall>p sid. case find_session db p sid of
        None \<Rightarrow> session_events db p sid = []
      | Some s \<Rightarrow> map xe_sequence (session_events db p sid) = [1..xs_last_sequence s] \<and> 0 \<le> xs_last_sequence s \<and>
          distinct (map xe_event_id (session_events db p sid)))"

lemma find_event_None:
  "find_event db p sid eid = None \<longleftrightarrow> eid \<notin> xe_event_id ` set (session_events db p sid)"
  unfolding find_event_def session_events_def find_None_iff by auto

lemma event_log_ok_outcome:
  assumes "ctx_outcome db db'" and ok: "event_log_ok db"
  shows "event_log_ok db'"
  using assms(1)
proof cases
  case quiet
  have ev: "session_events db' q t = session_events db q t" for q t
    by (simp add: session_events_def quiet(1))
  show ?thesis unfolding event_log_ok_def ev
  proof (intro allI)
    fix q t
    show "case find_session db' q t of
        None \<Rightarrow> session_events db q t = []
      | Some s \<Rightarrow> map xe_sequence (session_events db q t) = [1..xs_last_sequence s] \<and> 0 \<le> xs_last_sequence s \<and>
          distinct (map xe_event_id (session_events db q t))"
      using quiet(2) [of q t] ok [unfolded event_log_ok_def, rule_format, of q t]
      by (auto split: option.splits)
  qed
next
  case (appended p sid s e now)
  have ev: "session_events db' q t = (if (q, t) = (p, sid) then session_events db q t @ [e] else session_events db q t)" for q t
    using appended(4,5) by (auto simp: session_events_def appended(7))
  have old: "map xe_sequence (session_events db p sid) = [1..xs_last_sequence s]" "0 \<le> xs_last_sequence s"
    "distinct (map xe_event_id (session_events db p sid))"
    using ok [unfolded event_log_ok_def, rule_format, of p sid] appended(1) by simp_all
  have "[1..xs_last_sequence s + 1] = [1..xs_last_sequence s] @ [xs_last_sequence s + 1]"
    using upto_rec2 [of 1 "xs_last_sequence s + 1"] old(2) by simp
  moreover have "xe_event_id e \<notin> xe_event_id ` set (session_events db p sid)"
    using appended(3) by (simp add: find_event_None)
  ultimately have new: "map xe_sequence (session_events db p sid @ [e]) = [1..xe_sequence e]" "0 \<le> xe_sequence e"
    "distinct (map xe_event_id (session_events db p sid @ [e]))"
    using old appended(6) by simp_all
  show ?thesis unfolding event_log_ok_def
  proof (intro allI)
    fix q t
    show "case find_session db' q t of
        None \<Rightarrow> session_events db' q t = []
      | Some s \<Rightarrow> map xe_sequence (session_events db' q t) = [1..xs_last_sequence s] \<and> 0 \<le> xs_last_sequence s \<and>
          distinct (map xe_event_id (session_events db' q t))"
    proof (cases "(q, t) = (p, sid)")
      case True
      then show ?thesis unfolding ev appended(8) using new appended(1) by simp
    next
      case False
      then show ?thesis unfolding ev appended(8)
        using ok [unfolded event_log_ok_def, rule_format, of q t] by (auto split: option.split)
    qed
  qed
qed

lemma event_log_ok_run: "event_log_ok (run_ops (ctx_step sha) ps empty_context)"
proof (rule run_ops_invariant)
  show "event_log_ok empty_context"
    by (simp add: event_log_ok_def empty_context_def find_session_def session_events_def)
qed (use event_log_ok_outcome ctx_step_outcome in blast)

lemma committed_outcome:
  assumes "ctx_outcome db db'" and "find_session db p sid = Some s" and "xs_committed s"
  shows "session_events db' p sid = session_events db p sid \<and> (\<exists>s'. find_session db' p sid = Some s' \<and> xs_committed s')"
  using assms(1)
proof cases
  case quiet
  with quiet(2) [of p sid] assms show ?thesis by (auto simp: session_events_def)
next
  case (appended p' sid' s' e now)
  then have "(p, sid) \<noteq> (p', sid')" using assms by auto
  with appended assms show ?thesis by (auto simp: session_events_def)
qed

lemma append_accepts_next:
  assumes ok: "event_log_ok db" and s: "find_session db p sid = Some s" and p: "subject_of p = Inr p"
    and fresh: "find_event db p sid eid = None"
  shows "(\<exists>db'. append_event sha now p sid eid n payload None db = Inr (False, db')) \<longleftrightarrow>
    \<not> xs_committed s \<and> n = xs_last_sequence s + 1"
proof
  assume "\<exists>db'. append_event sha now p sid eid n payload None db = Inr (False, db')"
  then obtain db' where "append_event sha now p sid eid n payload None db = Inr (False, db')" by blast
  then obtain s' where "event_status sha p sid eid n payload db = Inr (s', False)"
    by (auto simp: append_event_def bindE_Inr_iff split: if_splits)
  from event_status_new [OF this] s show "\<not> xs_committed s \<and> n = xs_last_sequence s + 1" by simp
next
  assume n: "\<not> xs_committed s \<and> n = xs_last_sequence s + 1"
  have "map xe_sequence (session_events db p sid) = [1..xs_last_sequence s]"
    using ok [unfolded event_log_ok_def, rule_format, of p sid] s by simp
  then have "xe_sequence ` set (session_events db p sid) = {1..xs_last_sequence s}"
    by (metis image_set set_upto)
  then have "n \<notin> xe_sequence ` set (session_events db p sid)" using n by simp
  moreover have "eid \<notin> xe_event_id ` set (session_events db p sid)" using fresh by (simp add: find_event_None)
  ultimately have free: "\<not> (\<exists>e\<in>set (xdb_events db). xe_subject e = p \<and> xe_session_id e = sid \<and>
      (xe_event_id e = eid \<or> xe_sequence e = n))"
    by (auto simp: session_events_def)
  have "event_status sha p sid eid n payload db = Inr (s, False)"
    using n by (simp add: event_status_def ctx_session_row_def p s fresh)
  then show "\<exists>db'. append_event sha now p sid eid n payload None db = Inr (False, db')"
    using free s by (simp add: append_event_def record_event_def p Let_def)
qed

text \<open>
  C23: The event log of a context session is contiguous. Whatever operations were made, the
  events of a session carry the sequence numbers 1 to the session's last sequence in the
  order they were recorded, with distinct ids; a new event is accepted exactly when the
  session is open and the event has the next number; and a committed session keeps its
  events whatever follows.
\<close>

theorem session_event_log_is_contiguous:
  assumes "db = run_ops (ctx_step sha) ps empty_context" and "find_session db p sid = Some s"
  shows "map xe_sequence (session_events db p sid) = [1..xs_last_sequence s] \<and>
    distinct (map xe_event_id (session_events db p sid)) \<and>
    (subject_of p = Inr p \<longrightarrow> find_event db p sid eid = None \<longrightarrow>
       ((\<exists>db'. append_event sha now p sid eid n payload None db = Inr (False, db')) \<longleftrightarrow>
        \<not> xs_committed s \<and> n = xs_last_sequence s + 1)) \<and>
    (xs_committed s \<longrightarrow> session_events (run_ops (ctx_step sha) qs db) p sid = session_events db p sid)"
proof -
  have ok: "event_log_ok db" unfolding assms(1) by (rule event_log_ok_run)
  have closed: "session_events (run_ops (ctx_step sha) qs db) p sid = session_events db p sid" if c: "xs_committed s"
  proof -
    let ?I = "\<lambda>x. session_events x p sid = session_events db p sid \<and> (\<exists>s'. find_session x p sid = Some s' \<and> xs_committed s')"
    have "?I (run_ops (ctx_step sha) qs db)"
    proof (rule run_ops_invariant)
      show "?I db" using assms(2) c by blast
    next
      fix op x u x'
      assume "?I x" and "ctx_step sha op x = Inr (u, x')"
      then show "?I x'" using committed_outcome [OF ctx_step_outcome] by metis
    qed
    then show ?thesis by blast
  qed
  show ?thesis
    using ok [unfolded event_log_ok_def, rule_format, of p sid] assms(2) append_accepts_next [OF ok assms(2)] closed
    by simp
qed

definition sample_context :: "ctx_op list" where
  "sample_context =
     [CtxStart 0 (''t'', ''u'') ''x'', CtxAppend 1 (''t'', ''u'') ''ctxs_['' ''e1'' 1 (PStr ''a'') None,
      CtxAppend 2 (''t'', ''u'') ''ctxs_['' ''e2'' 2 (PStr ''b'') None]"

theorem session_event_log_is_contiguous_witness:
  "\<exists>s. find_session (run_ops (ctx_step (take 1)) sample_context empty_context) (''t'', ''u'') ''ctxs_['' = Some s \<and>
     map xe_sequence (session_events (run_ops (ctx_step (take 1)) sample_context empty_context) (''t'', ''u'') ''ctxs_['') = [1, 2] \<and>
     (\<exists>db'. append_event (take 1) 3 (''t'', ''u'') ''ctxs_['' ''e3'' 3 (PStr ''c'') None
        (run_ops (ctx_step (take 1)) sample_context empty_context) = Inr (False, db'))"
proof -
  let ?db = "run_ops (ctx_step (take 1)) sample_context empty_context"
  have "map_option (\<lambda>s. (xs_last_sequence s, xs_committed s)) (find_session ?db (''t'', ''u'') ''ctxs_['') = Some (2, False)"
    by code_simp
  then obtain s where s: "find_session ?db (''t'', ''u'') ''ctxs_['' = Some s" "xs_last_sequence s = 2" "\<not> xs_committed s"
    by auto
  have "map_option xe_event_id (find_event ?db (''t'', ''u'') ''ctxs_['' ''e3'') = None" by code_simp
  then have e: "find_event ?db (''t'', ''u'') ''ctxs_['' ''e3'' = None" by simp
  have p: "subject_of (''t'', ''u'') = Inr (''t'', ''u'')" by (simp add: subject_of_def)
  have u: "[1..2] = [1, 2 :: int]" by code_simp
  from session_event_log_is_contiguous [OF refl s(1), of "''e3''" 3 3 "PStr ''c''" "[]"] s e p u show ?thesis
    by simp
qed

end
