(* ===== verification/Datasets.thy ===== *)
theory Datasets imports Contracts begin

text \<open>
  Test datasets: normalisation and validation of a dataset document
  (team\_replay/datasets/schema.py). Texts are those of theory \<open>PyValue\<close>. The problems that
  \<open>validate_document\<close> lists are kept as the branch that reports them, not as their text.
  Deep copies are the values themselves; the current time is an argument.
\<close>

section \<open>Model\<close>

datatype case_problem =
    CaseNotObject
  | CaseUnsupportedFields
  | CaseIdEmptyOrRepeated
  | CaseQueryEmpty
  | CaseSkillIdsNotList
  | CaseSkillIdsEmptyOrRepeated
  | CaseSkillsUndeclared "string list"
  | CaseChecksInvalid string
  | CaseMaterialsNotList
  | CaseProvenanceNotObject
  | CaseReplayNotObject
  | CaseMetadataNotObject

datatype document_problem =
    NotAnObject
  | WrongSchemaVersion
  | UnsupportedFields
  | DatasetIdEmpty
  | DatasetNameEmpty
  | SkillsNotList
  | SkillWithoutId
  | SkillIdsRepeated
  | SourceNotObject
  | MetadataNotObject
  | CasesNotNonemptyList
  | CaseProblem nat case_problem

text \<open>
  \<open>DatasetSchemaError\<close> with its text, the same error with the problems of the document, or
  another exception.
\<close>

datatype dataset_exc =
    DatasetSchemaError string
  | InvalidDocument "document_problem list"
  | RaisesOther pyexc

type_synonym 'a dataset_result = "dataset_exc + 'a"

definition document_keys :: "string set" where
  "document_keys =
     {''schema_version'', ''dataset_id'', ''name'', ''description'', ''skills'', ''source'', ''cases'',
      ''created_at'', ''updated_at'', ''metadata''}"

definition case_keys :: "string set" where
  "case_keys =
     {''case_id'', ''query'', ''skill_ids'', ''checks'', ''materials'', ''provenance'', ''replay'', ''metadata''}"

text \<open>\<open>raise DatasetSchemaError\<close> when the condition holds.\<close>

definition reject_if :: "bool \<Rightarrow> string \<Rightarrow> unit dataset_result" where
  "reject_if b msg = (if b then Inl (DatasetSchemaError msg) else Inr ())"

text \<open>\<open>str(v or "").strip()\<close>.\<close>

definition stripped_text :: "pyval \<Rightarrow> string" where
  "stripped_text v = py_strip (py_str (py_or v (PStr '''')))"

definition text_items :: "pyval \<Rightarrow> string list" where
  "text_items v =
     fold (\<lambda>raw result. let t = stripped_text raw in if t \<noteq> '''' \<and> t \<notin> set result then result @ [t] else result)
       (case v of PList xs \<Rightarrow> xs | _ \<Rightarrow> [v]) []"

definition check_item_step ::
  "nat \<times> pyval \<Rightarrow> string set \<times> pydict list \<Rightarrow> (string set \<times> pydict list) dataset_result" where
  "check_item_step = (\<lambda>(i, raw) (seen, checks).
     case raw of
       PDict d \<Rightarrow>
         let check_id = stripped_text (dget_none d ''id''); kind = stripped_text (dget_none d ''kind'');
             txt = stripped_text (dget_none d ''text'')
         in bindE (reject_if (check_id = '''' \<or> check_id \<in> seen) ''check ids must be nonempty and unique'') (\<lambda>_.
            bindE (reject_if (kind \<notin> {''output'', ''trajectory''}) ''check kind must be output or trajectory'') (\<lambda>_.
            bindE (reject_if (txt = '''') ''check text is required'') (\<lambda>_.
              Inr (insert check_id seen,
                   checks @ [[(''id'', PStr check_id), (''kind'', PStr kind), (''text'', PStr txt)] @
                     (if dget_none d ''polarity'' = PStr ''must_not''
                      then [(''polarity'', PStr ''must_not'')] else [])]))))
     | _ \<Rightarrow> Inl (DatasetSchemaError (''checks['' @ nat_str i @ ''] must be an object'')))"

definition normalize_checks :: "pyval \<Rightarrow> pydict list dataset_result" where
  "normalize_checks v =
     (case v of
        PList xs \<Rightarrow>
          bindE (foldE check_item_step (enumerate 0 xs) ({}, [])) (\<lambda>(seen, checks).
          bindE (reject_if (checks = []) ''checks must contain at least one item'') (\<lambda>_. Inr checks))
      | _ \<Rightarrow> Inl (DatasetSchemaError ''checks must be an array''))"

definition requirements_of :: "string \<Rightarrow> pydict \<Rightarrow> string list dataset_result" where
  "requirements_of kind c =
     bindE (normalize_checks (dget_none c ''checks'')) (\<lambda>checks.
       Inr (map (\<lambda>k. py_str (dget_none k ''text''))
              (filter (\<lambda>k. dget_none k ''kind'' = PStr kind) checks)))"

definition output_requirements :: "pydict \<Rightarrow> string list dataset_result" where
  "output_requirements c = requirements_of ''output'' c"

definition trajectory_requirements :: "pydict \<Rightarrow> string list dataset_result" where
  "trajectory_requirements c = requirements_of ''trajectory'' c"

text \<open>\<open>item.get(key) not in (None, "")\<close>, and then the key with its value.\<close>

definition ref_field :: "pydict \<Rightarrow> string \<Rightarrow> pydict" where
  "ref_field d k = (if dget_none d k \<in> {PNone, PStr ''''} then [] else [(k, dget_none d k)])"

definition skill_ref_of :: "pyval \<Rightarrow> (string \<times> pydict) dataset_result" where
  "skill_ref_of item =
     (case item of
        PDict d \<Rightarrow>
          bindE (reject_if (\<not> set (dkeys d) \<subseteq> {''skill_id'', ''revision'', ''content_hash''})
                   ''unsupported Skill reference field'') (\<lambda>_.
            let sid = stripped_text (dget_none d ''skill_id'')
            in Inr (sid, [(''skill_id'', PStr sid)] @ ref_field d ''revision'' @ ref_field d ''content_hash''))
      | _ \<Rightarrow> Inr (stripped_text item, [(''skill_id'', PStr (stripped_text item))]))"

definition skill_ref_step ::
  "pyval \<Rightarrow> string set \<times> pydict list \<Rightarrow> (string set \<times> pydict list) dataset_result" where
  "skill_ref_step item = (\<lambda>(seen, result).
     bindE (skill_ref_of item) (\<lambda>(sid, r).
     bindE (reject_if (sid = '''' \<or> sid \<in> seen) ''Skill ids must be nonempty and unique'') (\<lambda>_.
       Inr (insert sid seen, result @ [r]))))"

definition ref_skill_id :: "pydict \<Rightarrow> string" where
  "ref_skill_id r = py_str (dget_none r ''skill_id'')"

definition normalize_skill_refs :: "pyval \<Rightarrow> pydict list dataset_result" where
  "normalize_skill_refs v =
     (case v of
        PList xs \<Rightarrow>
          bindE (foldE skill_ref_step xs ({}, [])) (\<lambda>(seen, result). Inr (sort_key ref_skill_id result))
      | _ \<Rightarrow> Inl (DatasetSchemaError ''skills must be an array''))"

definition document_skill_ids :: "pydict \<Rightarrow> string list dataset_result" where
  "document_skill_ids d = bindE (normalize_skill_refs (dget_none d ''skills'')) (\<lambda>refs. Inr (map ref_skill_id refs))"

section \<open>Cases\<close>

text \<open>The skill ids of a case, or the default ones when the key is missing.\<close>

definition case_skill_ids :: "pydict \<Rightarrow> string list \<Rightarrow> string list dataset_result" where
  "case_skill_ids d default_ids =
     (case dget_or d ''skill_ids'' (PList (map PStr default_ids)) of
        PList raw \<Rightarrow>
          bindE (reject_if (\<not> list_all is_str raw) ''skill_ids must be an array of strings'') (\<lambda>_.
          bindE (reject_if (\<not> distinct raw \<or> list_ex (\<lambda>v. py_strip (py_str v) = '''') raw)
                   ''skill_ids must be nonempty and unique'') (\<lambda>_.
            Inr (sort (text_items (PList raw)))))
      | _ \<Rightarrow> Inl (DatasetSchemaError ''skill_ids must be an array of strings''))"

definition material_ok :: "pyval \<Rightarrow> bool" where
  "material_ok v = (case v of PDict d \<Rightarrow> truthy (dget_none d ''path'') | _ \<Rightarrow> False)"

definition case_materials :: "pydict \<Rightarrow> pyval list dataset_result" where
  "case_materials d =
     (case dget_or d ''materials'' (PList []) of
        PList ms \<Rightarrow> bindE (reject_if (\<not> list_all material_ok ms) ''each material requires a path'') (\<lambda>_. Inr ms)
      | _ \<Rightarrow> Inl (DatasetSchemaError ''materials must be an array''))"

text \<open>\<open>payload.get(key, {})\<close>, which must be an object.\<close>

definition object_field :: "pydict \<Rightarrow> string \<Rightarrow> pydict dataset_result" where
  "object_field d k =
     (case dget_or d k (PDict []) of
        PDict o' \<Rightarrow> Inr o'
      | _ \<Rightarrow> Inl (DatasetSchemaError (k @ '' must be an object'')))"

text \<open>\<open>type(n) is int\<close> refuses a boolean.\<close>

definition normalize_disclosure :: "pydict \<Rightarrow> pydict dataset_result" where
  "normalize_disclosure replay =
     (case dget_or replay ''progressive_disclosure'' (PDict []) of
        PDict raw \<Rightarrow>
          (case dget_or raw ''batch_size'' (PInt 4) of
             PInt n \<Rightarrow>
               bindE (reject_if (\<not> (1 \<le> n \<and> n \<le> 100)) ''progressive disclosure batch_size must be 1..100'') (\<lambda>_.
                 Inr (dput ''progressive_disclosure''
                   (PDict [(''enabled'', PBool (truthy (dget_or raw ''enabled'' (PBool True)))),
                           (''initial_visibility'', PStr ''query_only''), (''batch_size'', PInt n),
                           (''stop_when'', PStr ''all_checklist_items_satisfied'')]) replay))
           | _ \<Rightarrow> Inl (DatasetSchemaError ''progressive disclosure batch_size must be 1..100''))
      | _ \<Rightarrow> Inl (DatasetSchemaError ''replay.progressive_disclosure must be an object''))"

definition unsupported_keys :: "pydict \<Rightarrow> string set \<Rightarrow> string list" where
  "unsupported_keys d allowed = sort (remdups (filter (\<lambda>k. k \<notin> allowed) (dkeys d)))"

definition normalize_case :: "pyval \<Rightarrow> string \<Rightarrow> string list \<Rightarrow> pydict dataset_result" where
  "normalize_case payload default_case_id default_ids =
     (case payload of
        PDict d \<Rightarrow>
          bindE (reject_if (unsupported_keys d case_keys \<noteq> [])
                   (''unsupported case fields: '' @ join_with '', '' (unsupported_keys d case_keys))) (\<lambda>_.
          let case_id = py_strip (py_str (py_or (dget_none d ''case_id'') (PStr default_case_id)));
              query = stripped_text (dget_none d ''query'')
          in bindE (reject_if (case_id = '''') ''case_id is required'') (\<lambda>_.
             bindE (reject_if (query = '''') (''case '' @ case_id @ '' query is required'')) (\<lambda>_.
             bindE (case_skill_ids d default_ids) (\<lambda>skill_ids.
             bindE (case_materials d) (\<lambda>materials.
             bindE (object_field d ''provenance'') (\<lambda>provenance.
             bindE (object_field d ''replay'') (\<lambda>replay.
             bindE (object_field d ''metadata'') (\<lambda>metadata.
             bindE (normalize_disclosure replay) (\<lambda>replay'.
             bindE (normalize_checks (dget_none d ''checks'')) (\<lambda>checks.
               Inr [(''case_id'', PStr case_id), (''query'', PStr query), (''skill_ids'', str_list skill_ids),
                    (''checks'', PList (map PDict checks)), (''materials'', PList materials),
                    (''provenance'', PDict provenance), (''replay'', PDict replay'),
                    (''metadata'', PDict metadata)]))))))))))
      | _ \<Rightarrow> Inl (DatasetSchemaError ''case must be an object''))"

section \<open>Documents\<close>

text \<open>The problems of a document: the message is reported when the condition holds.\<close>

definition problem_if :: "bool \<Rightarrow> 'p \<Rightarrow> 'p list" where
  "problem_if b p = (if b then [p] else [])"

definition skill_id_problems :: "pyval \<Rightarrow> string list \<Rightarrow> case_problem list" where
  "skill_id_problems v declared =
     (case v of
        PList xs \<Rightarrow>
          let ids = map stripped_text xs; unknown = sort (remdups (filter (\<lambda>s. s \<notin> set declared) ids))
          in problem_if ('''' \<in> set ids \<or> \<not> distinct ids) CaseSkillIdsEmptyOrRepeated @
             problem_if (unknown \<noteq> []) (CaseSkillsUndeclared unknown)
      | _ \<Rightarrow> [CaseSkillIdsNotList])"

definition check_problems :: "pyval \<Rightarrow> case_problem list" where
  "check_problems v =
     (case normalize_checks v of Inl (DatasetSchemaError msg) \<Rightarrow> [CaseChecksInvalid msg] | _ \<Rightarrow> [])"

definition case_problems :: "string list \<Rightarrow> string set \<Rightarrow> pydict \<Rightarrow> case_problem list" where
  "case_problems declared seen c =
     (let case_id = stripped_text (dget_none c ''case_id'')
      in problem_if (\<not> set (dkeys c) \<subseteq> case_keys) CaseUnsupportedFields @
         problem_if (case_id = '''' \<or> case_id \<in> seen) CaseIdEmptyOrRepeated @
         problem_if (stripped_text (dget_none c ''query'') = '''') CaseQueryEmpty @
         skill_id_problems (dget_none c ''skill_ids'') declared @
         check_problems (dget_none c ''checks'') @
         problem_if (\<not> is_list (dget_none c ''materials'')) CaseMaterialsNotList @
         problem_if (\<not> is_dict (dget_none c ''provenance'')) CaseProvenanceNotObject @
         problem_if (\<not> is_dict (dget_none c ''replay'')) CaseReplayNotObject @
         problem_if (\<not> is_dict (dget_none c ''metadata'')) CaseMetadataNotObject)"

fun cases_problems :: "string list \<Rightarrow> nat \<Rightarrow> string set \<Rightarrow> pyval list \<Rightarrow> document_problem list" where
  "cases_problems declared i seen [] = []"
| "cases_problems declared i seen (PDict c # cs) =
     map (CaseProblem i) (case_problems declared seen c) @
       cases_problems declared (Suc i) (insert (stripped_text (dget_none c ''case_id'')) seen) cs"
| "cases_problems declared i seen (v # cs) =
     CaseProblem i CaseNotObject # cases_problems declared (Suc i) seen cs"

text \<open>The ids of the declared skills, of the entries that are objects.\<close>

definition declared_ids :: "pyval \<Rightarrow> string list" where
  "declared_ids skills = [stripped_text (dget_none d ''skill_id''). PDict d \<leftarrow> as_list skills]"

definition validate_document :: "pyval \<Rightarrow> bool \<Rightarrow> document_problem list" where
  "validate_document payload allow_empty =
     (case payload of
        PDict d \<Rightarrow>
          let skills = dget_none d ''skills''; ids = declared_ids skills
          in problem_if (dget_none d ''schema_version'' \<noteq> PStr dataset_schema) WrongSchemaVersion @
             problem_if (\<not> set (dkeys d) \<subseteq> document_keys) UnsupportedFields @
             problem_if (stripped_text (dget_none d ''dataset_id'') = '''') DatasetIdEmpty @
             problem_if (stripped_text (dget_none d ''name'') = '''') DatasetNameEmpty @
             problem_if (\<not> is_list skills) SkillsNotList @
             problem_if (length ids \<noteq> length (as_list skills) \<or> '''' \<in> set ids) SkillWithoutId @
             problem_if (\<not> distinct ids) SkillIdsRepeated @
             problem_if (\<not> is_dict (dget_none d ''source'')) SourceNotObject @
             problem_if (\<not> is_dict (dget_none d ''metadata'')) MetadataNotObject @
             (case dget_none d ''cases'' of
                PList cs \<Rightarrow>
                  if cs = [] \<and> \<not> allow_empty then [CasesNotNonemptyList] else cases_problems ids 0 {} cs
              | _ \<Rightarrow> [CasesNotNonemptyList])
      | _ \<Rightarrow> [NotAnObject])"

text \<open>\<open>f"case-{index:03d}"\<close>: the number with at least three digits.\<close>

definition default_case_id :: "nat \<Rightarrow> string" where
  "default_case_id i = ''case-'' @ replicate (3 - length (nat_str i)) CHR ''0'' @ nat_str i"

record document_parts =
  dp_dataset_id :: string
  dp_name :: string
  dp_description :: string
  dp_skills :: pyval
  dp_source :: pydict
  dp_metadata :: pydict
  dp_created_at :: string
  dp_updated_at :: string

definition make_document :: "string \<Rightarrow> document_parts \<Rightarrow> pyval list \<Rightarrow> bool \<Rightarrow> pydict dataset_result" where
  "make_document now p cases allow_empty =
     bindE (case py_iter (py_or (dp_skills p) (PList [])) of Inl e \<Rightarrow> Inl (RaisesOther e) | Inr xs \<Rightarrow> Inr xs) (\<lambda>skills.
     bindE (normalize_skill_refs (PList skills)) (\<lambda>refs.
     bindE (mapE (\<lambda>(i, c). normalize_case c (default_case_id i) (map ref_skill_id refs)) (enumerate 1 cases))
       (\<lambda>normalized.
     bindE (reject_if (normalized = [] \<and> \<not> allow_empty) ''dataset must contain at least one case'') (\<lambda>_.
       let created = (if dp_created_at p \<noteq> '''' then dp_created_at p else now);
           doc = [(''schema_version'', PStr dataset_schema), (''dataset_id'', PStr (py_strip (dp_dataset_id p))),
                  (''name'', PStr (py_strip (dp_name p))), (''description'', PStr (py_strip (dp_description p))),
                  (''skills'', PList (map PDict refs)), (''source'', PDict (dp_source p)),
                  (''cases'', PList (map PDict normalized)), (''created_at'', PStr created),
                  (''updated_at'', PStr (if dp_updated_at p \<noteq> '''' then dp_updated_at p else created)),
                  (''metadata'', PDict (dp_metadata p))];
           errors = validate_document (PDict doc) allow_empty
       in if errors \<noteq> [] then Inl (InvalidDocument errors) else Inr doc))))"

text \<open>\<open>str(payload.get(k) or default)\<close>.\<close>

definition text_or :: "pydict \<Rightarrow> string \<Rightarrow> string \<Rightarrow> string" where
  "text_or d k dflt = py_str (py_or (dget_none d k) (PStr dflt))"

definition normalize_document ::
  "string \<Rightarrow> pyval \<Rightarrow> string \<Rightarrow> string \<Rightarrow> bool \<Rightarrow> pydict dataset_result" where
  "normalize_document now payload default_dataset_id default_name allow_empty =
     (case payload of
        PDict d \<Rightarrow>
          bindE (reject_if (unsupported_keys d document_keys \<noteq> [])
                   (''unsupported dataset fields: '' @ join_with '', '' (unsupported_keys d document_keys))) (\<lambda>_.
          bindE (reject_if (dget_none d ''schema_version'' \<noteq> PStr dataset_schema)
                   (''schema_version must be '' @ dataset_schema)) (\<lambda>_.
          bindE (case dget_none d ''cases'' of
                   PList cs \<Rightarrow> Inr cs | _ \<Rightarrow> Inl (DatasetSchemaError ''cases must be an array'')) (\<lambda>cases.
          bindE (reject_if (\<not> list_all is_dict cases) ''every case must be an object'') (\<lambda>_.
          bindE (object_field d ''source'') (\<lambda>source.
          bindE (object_field d ''metadata'') (\<lambda>metadata.
            make_document now
              \<lparr>dp_dataset_id = text_or d ''dataset_id'' default_dataset_id, dp_name = text_or d ''name'' default_name,
               dp_description = text_or d ''description'' '''', dp_skills = dget_or d ''skills'' (PList []),
               dp_source = source, dp_metadata = metadata, dp_created_at = text_or d ''created_at'' '''',
               dp_updated_at = text_or d ''updated_at'' ''''\<rparr> cases allow_empty))))))
      | _ \<Rightarrow> Inl (DatasetSchemaError ''dataset document must be an object''))"

end
