(* ===== verification/DatasetProperties.thy ===== *)
theory DatasetProperties imports Datasets "HOL-Library.Multiset" begin

text \<open>
  A dataset document that was accepted is in normal form: normalising it again, at any
  later time, gives the same document, and its cases refer to declared skills only.
\<close>

section \<open>Rebuilding a list of unique entries\<close>

lemma reject_if_Inr [simp]: "reject_if b msg = Inr u \<longleftrightarrow> \<not> b"
  by (simp add: reject_if_def)

lemma reject_if_False [simp]: "reject_if False msg = Inr ()"
  by (simp add: reject_if_def)

text \<open>
  A loop that refuses an entry seen before and collects the others in order, run over
  entries that it leaves as they are.
\<close>

lemma foldE_rebuild:
  assumes "\<And>x seen acc. x \<in> set xs \<Longrightarrow> key (out x) \<notin> seen \<Longrightarrow>
      f x (seen, acc) = Inr (insert (key (out x)) seen, acc @ [out x])"
    and "distinct (map key (map out xs))" and "set (map key (map out xs)) \<inter> seen = {}"
  shows "\<exists>seen'. foldE f xs (seen, acc) = Inr (seen', acc @ map out xs)"
  using assms
proof (induction xs arbitrary: seen acc)
  case Nil
  then show ?case by simp
next
  case (Cons x xs)
  have x: "f x (seen, acc) = Inr (insert (key (out x)) seen, acc @ [out x])" using Cons.prems by auto
  have "\<exists>seen'. foldE f xs (insert (key (out x)) seen, acc @ [out x]) = Inr (seen', (acc @ [out x]) @ map out xs)"
    using Cons.prems by (intro Cons.IH) auto
  then show ?case by (simp add: x)
qed

text \<open>What such a loop collects: entries with the property of the single step, under distinct keys.\<close>

lemma foldE_collects:
  assumes "foldE f xs ({}, []) = Inr (seen, ys)"
    and "\<And>x s acc s' acc'. f x (s, acc) = Inr (s', acc') \<Longrightarrow>
      \<exists>y. acc' = acc @ [y] \<and> key y \<notin> s \<and> s' = insert (key y) s \<and> P y"
  shows "list_all P ys" and "distinct (map key ys)"
proof -
  let ?I = "\<lambda>(s, acc). s = key ` set acc \<and> list_all P acc \<and> distinct (map key acc)"
  have "?I (seen, ys)"
  proof (rule foldE_invariant [OF assms(1)])
    show "?I ({}, [])" by simp
    fix x s s' assume I: "?I s" and f: "f x s = Inr s'"
    obtain s0 acc0 s1 acc1 where "s = (s0, acc0)" "s' = (s1, acc1)" by fastforce
    with assms(2) f I show "?I s'" by fastforce
  qed
  then show "list_all P ys" "distinct (map key ys)" by simp_all
qed

section \<open>Checks\<close>

definition check_normal :: "pydict \<Rightarrow> bool" where
  "check_normal c \<longleftrightarrow>
     (\<exists>i k t p. c = [(''id'', PStr i), (''kind'', PStr k), (''text'', PStr t)] @ p \<and>
        i \<noteq> '''' \<and> py_strip i = i \<and> k \<in> {''output'', ''trajectory''} \<and> t \<noteq> '''' \<and> py_strip t = t \<and>
        p \<in> {[], [(''polarity'', PStr ''must_not'')]})"

definition check_key :: "pydict \<Rightarrow> string" where
  "check_key c = py_str (dget_none c ''id'')"

lemma stripped_PStr [simp]: "stripped_text (PStr s) = py_strip s"
  by (simp add: stripped_text_def py_or_def)

lemma stripped_idem [simp]: "py_strip (stripped_text v) = stripped_text v"
  by (simp add: stripped_text_def)

lemma check_step_normal:
  assumes "check_item_step x (s, acc) = Inr (s', acc')"
  shows "\<exists>y. acc' = acc @ [y] \<and> check_key y \<notin> s \<and> s' = insert (check_key y) s \<and> check_normal y"
proof -
  obtain i d where x: "x = (i, PDict d)"
    using assms by (cases x; cases "snd x") (auto simp: check_item_step_def)
  show ?thesis using assms unfolding x check_item_step_def check_normal_def check_key_def
    by (auto simp: bindE_Inr_iff Let_def split: if_splits)
qed

lemma strip_kinds: "py_strip ''output'' = ''output''" "py_strip ''trajectory'' = ''trajectory''"
  by code_simp+

lemma check_step_fixed:
  assumes "check_normal c" and "check_key c \<notin> s"
  shows "check_item_step (i, PDict c) (s, acc) = Inr (insert (check_key c) s, acc @ [c])"
  using assms by (auto simp: check_normal_def check_key_def check_item_step_def Let_def strip_kinds)

lemma checks_normal:
  assumes "normalize_checks v = Inr cs"
  shows "list_all check_normal cs" and "distinct (map check_key cs)" and "cs \<noteq> []"
proof -
  from assms obtain xs seen where f: "foldE check_item_step (enumerate 0 xs) ({}, []) = Inr (seen, cs)" and "cs \<noteq> []"
    by (auto simp: normalize_checks_def bindE_Inr_iff split: pyval.splits)
  then show "list_all check_normal cs" "distinct (map check_key cs)" "cs \<noteq> []"
    using foldE_collects [OF f check_step_normal] by auto
qed

lemma enumerate_dicts: "map (as_dict \<circ> snd) (enumerate n (map PDict cs)) = cs"
  by (induction cs arbitrary: n) (auto simp: as_dict_def)

lemma checks_fixed:
  assumes "list_all check_normal cs" and "distinct (map check_key cs)" and "cs \<noteq> []"
  shows "normalize_checks (PList (map PDict cs)) = Inr cs"
proof -
  let ?xs = "enumerate 0 (map PDict cs)"
  have "\<exists>seen. foldE check_item_step ?xs ({}, []) = Inr (seen, [] @ map (as_dict \<circ> snd) ?xs)"
  proof (rule foldE_rebuild [where key = check_key])
    fix x s acc assume mem: "x \<in> set ?xs" and k: "check_key ((as_dict \<circ> snd) x) \<notin> s"
    define c where "c = cs ! fst x"
    from mem [unfolded in_set_enumerate_eq] have "x = (fst x, PDict c)" and "c \<in> set cs"
      by (cases x, simp_all add: c_def)
    then obtain i where x: "x = (i, PDict c)" by metis
    have "c \<in> set cs" by fact
    then have "check_normal c" using assms(1) by (simp add: list_all_iff)
    with k show "check_item_step x (s, acc) =
        Inr (insert (check_key ((as_dict \<circ> snd) x)) s, acc @ [(as_dict \<circ> snd) x])"
      by (simp add: x as_dict_def check_step_fixed)
  qed (use assms(2) in \<open>simp_all only: enumerate_dicts\<close>, simp)
  then show ?thesis using assms(3) by (auto simp: normalize_checks_def enumerate_dicts)
qed

section \<open>Skill references\<close>

definition ref_normal :: "pydict \<Rightarrow> bool" where
  "ref_normal r \<longleftrightarrow>
     (\<exists>s d. r = [(''skill_id'', PStr s)] @ ref_field d ''revision'' @ ref_field d ''content_hash'' \<and>
        s \<noteq> '''' \<and> py_strip s = s)"

lemma ref_field_again:
  assumes "r = [(''skill_id'', PStr s)] @ ref_field d ''revision'' @ ref_field d ''content_hash''"
  shows "ref_field r ''revision'' = ref_field d ''revision''" and "ref_field r ''content_hash'' = ref_field d ''content_hash''"
    and "set (dkeys r) \<subseteq> {''skill_id'', ''revision'', ''content_hash''}" and "ref_skill_id r = s"
    and "dget_none r ''skill_id'' = PStr s"
  unfolding assms by (auto simp: ref_field_def dkeys_def ref_skill_id_def)

lemma ref_step_fixed:
  assumes "ref_normal r" and "ref_skill_id r \<notin> seen"
  shows "skill_ref_step (PDict r) (seen, acc) = Inr (insert (ref_skill_id r) seen, acc @ [r])"
proof -
  from assms(1) obtain s d where r: "r = [(''skill_id'', PStr s)] @ ref_field d ''revision'' @ ref_field d ''content_hash''"
    and s: "s \<noteq> ''''" "py_strip s = s" by (auto simp: ref_normal_def)
  note a = ref_field_again [OF r]
  have "skill_ref_of (PDict r) = Inr (s, r)"
    unfolding skill_ref_of_def pyval.case a(1,2,5) using a(3) s r by (simp add: reject_if_def)
  then show ?thesis using assms(2) s by (simp add: skill_ref_step_def a(4))
qed

lemma skill_ref_of_normal:
  assumes "skill_ref_of item = Inr (sid, r)" and "sid \<noteq> ''''"
  shows "ref_normal r" and "ref_skill_id r = sid"
proof -
  have "\<exists>d. r = [(''skill_id'', PStr sid)] @ ref_field d ''revision'' @ ref_field d ''content_hash'' \<and> py_strip sid = sid"
  proof (cases item)
    case (PDict d)
    with assms show ?thesis by (auto simp: skill_ref_of_def bindE_Inr_iff Let_def)
  qed (use assms in \<open>auto simp: skill_ref_of_def ref_field_def intro!: exI [of _ "[]"]\<close>)
  with assms(2) show "ref_normal r" "ref_skill_id r = sid"
    by (auto simp: ref_normal_def ref_skill_id_def)
qed

lemma skill_ref_step_normal:
  assumes "skill_ref_step x (s, acc) = Inr (s', acc')"
  shows "\<exists>y. acc' = acc @ [y] \<and> ref_skill_id y \<notin> s \<and> s' = insert (ref_skill_id y) s \<and> ref_normal y"
proof -
  from assms obtain sid r where "skill_ref_of x = Inr (sid, r)" "sid \<noteq> ''''" "sid \<notin> s"
    "s' = insert sid s" "acc' = acc @ [r]"
    by (auto simp: skill_ref_step_def bindE_Inr_iff)
  with skill_ref_of_normal show ?thesis by auto
qed

lemma refs_normal:
  assumes "normalize_skill_refs v = Inr rs"
  shows "list_all ref_normal rs" and "distinct (map ref_skill_id rs)" and "sorted (map ref_skill_id rs)"
proof -
  from assms obtain xs seen ys where f: "foldE skill_ref_step xs ({}, []) = Inr (seen, ys)"
    and rs: "rs = sort_key ref_skill_id ys"
    by (auto simp: normalize_skill_refs_def bindE_Inr_iff split: pyval.splits)
  have all: "list_all ref_normal ys" and d: "distinct (map ref_skill_id ys)"
    by (rule foldE_collects [OF f], erule skill_ref_step_normal)+
  from all show "list_all ref_normal rs" by (simp add: rs list_all_iff)
  have "mset (map ref_skill_id rs) = mset (map ref_skill_id ys)" by (simp add: rs)
  with d show "distinct (map ref_skill_id rs)" by (metis mset_eq_imp_distinct_iff)
  show "sorted (map ref_skill_id rs)" by (simp add: rs)
qed

lemma refs_fixed:
  assumes "list_all ref_normal rs" and "distinct (map ref_skill_id rs)" and "sorted (map ref_skill_id rs)"
  shows "normalize_skill_refs (PList (map PDict rs)) = Inr rs"
proof -
  have "\<exists>seen. foldE skill_ref_step (map PDict rs) ({}, []) = Inr (seen, [] @ map as_dict (map PDict rs))"
  proof (rule foldE_rebuild [where key = ref_skill_id])
    fix x s acc assume "x \<in> set (map PDict rs)" and k: "ref_skill_id (as_dict x) \<notin> s"
    then obtain r where x: "x = PDict r" and "r \<in> set rs" by auto
    then have "ref_normal r" using assms(1) by (simp add: list_all_iff)
    with k show "skill_ref_step x (s, acc) = Inr (insert (ref_skill_id (as_dict x)) s, acc @ [as_dict x])"
      by (simp add: x as_dict_def ref_step_fixed)
  qed (use assms(2) in \<open>simp_all add: as_dict_def comp_def\<close>)
  then show ?thesis using assms(3)
    by (auto simp: normalize_skill_refs_def as_dict_def comp_def sort_key_id_if_sorted)
qed

section \<open>Cases\<close>

definition texts_normal :: "string list \<Rightarrow> bool" where
  "texts_normal xs \<longleftrightarrow> distinct xs \<and> list_all (\<lambda>s. s \<noteq> '''' \<and> py_strip s = s) xs"

lemma texts_normal_items: "texts_normal (text_items v)"
proof -
  have "texts_normal acc \<Longrightarrow> texts_normal (fold (\<lambda>raw result. let t = stripped_text raw
      in if t \<noteq> '''' \<and> t \<notin> set result then result @ [t] else result) vs acc)" for vs acc
    by (induction vs arbitrary: acc) (auto simp: Let_def texts_normal_def)
  then show ?thesis unfolding text_items_def by (simp add: texts_normal_def)
qed

lemma text_items_normal:
  assumes "texts_normal xs"
  shows "text_items (PList (map PStr xs)) = xs"
proof -
  have "texts_normal (acc @ ys) \<Longrightarrow> fold (\<lambda>raw result. let t = stripped_text raw
      in if t \<noteq> '''' \<and> t \<notin> set result then result @ [t] else result) (map PStr ys) acc = acc @ ys" for ys acc
  proof (induction ys arbitrary: acc)
    case (Cons y ys)
    have "texts_normal ((acc @ [y]) @ ys)" using Cons.prems by simp
    then show ?case using Cons.prems Cons.IH [of "acc @ [y]"] by (simp add: texts_normal_def)
  qed simp
  from this [of "[]" xs] assms show ?thesis by (simp add: text_items_def)
qed

lemma case_skill_ids_normal:
  assumes "case_skill_ids d ids = Inr xs"
  shows "texts_normal xs" and "sorted xs"
proof -
  from assms obtain v where "xs = sort (text_items v)"
    by (auto simp: case_skill_ids_def bindE_Inr_iff split: pyval.splits)
  then show "texts_normal xs" "sorted xs" using texts_normal_items [of v] by (simp_all add: texts_normal_def list_all_iff)
qed

lemma case_skill_ids_fixed:
  assumes "texts_normal xs" and "sorted xs" and "dget d ''skill_ids'' = Some (str_list xs)"
  shows "case_skill_ids d ids = Inr xs"
proof -
  have "distinct (map PStr xs)" using assms(1) by (simp add: texts_normal_def distinct_map inj_on_def)
  moreover have "list_all is_str (map PStr xs)" by (simp add: list_all_iff)
  moreover have "\<not> list_ex (\<lambda>v. py_strip (py_str v) = '''') (map PStr xs)"
    using assms(1) by (auto simp: texts_normal_def list_ex_iff list_all_iff)
  ultimately show ?thesis using assms(2) text_items_normal [OF assms(1)]
    by (simp add: case_skill_ids_def dget_or_def assms(3) str_list_def sorted_sort_id)
qed

lemma disclosure_fixed:
  assumes "normalize_disclosure r = Inr r'"
  shows "normalize_disclosure r' = Inr r'"
proof -
  from assms obtain b n where r': "r' = dput ''progressive_disclosure''
      (PDict [(''enabled'', PBool b), (''initial_visibility'', PStr ''query_only''), (''batch_size'', PInt n),
              (''stop_when'', PStr ''all_checklist_items_satisfied'')]) r" and "1 \<le> n" "n \<le> 100"
    by (auto simp: normalize_disclosure_def bindE_Inr_iff split: pyval.splits)
  then show ?thesis
    by (simp add: normalize_disclosure_def dget_or_dput dput_same dget_dput)
qed

text \<open>The form of a normalised case.\<close>

definition case_normal :: "pydict \<Rightarrow> bool" where
  "case_normal c \<longleftrightarrow>
     (\<exists>case_id query ids checks ms provenance replay metadata.
        c = [(''case_id'', PStr case_id), (''query'', PStr query), (''skill_ids'', str_list ids),
             (''checks'', PList (map PDict checks)), (''materials'', PList ms), (''provenance'', PDict provenance),
             (''replay'', PDict replay), (''metadata'', PDict metadata)] \<and>
        case_id \<noteq> '''' \<and> py_strip case_id = case_id \<and> query \<noteq> '''' \<and> py_strip query = query \<and>
        texts_normal ids \<and> sorted ids \<and> list_all check_normal checks \<and> distinct (map check_key checks) \<and>
        checks \<noteq> [] \<and> list_all material_ok ms \<and> normalize_disclosure replay = Inr replay)"

lemma sorted_rest_Nil: "sort (remdups (filter P xs)) = [] \<longleftrightarrow> (\<forall>x\<in>set xs. \<not> P x)"
proof -
  have "l = [] \<longleftrightarrow> set l = {}" for l :: "'a list" by simp
  then have "sort (remdups (filter P xs)) = [] \<longleftrightarrow> set (sort (remdups (filter P xs))) = {}" .
  also have "\<dots> \<longleftrightarrow> (\<forall>x\<in>set xs. \<not> P x)" by auto
  finally show ?thesis .
qed

lemma unsupported_keys_iff: "unsupported_keys d ks = [] \<longleftrightarrow> set (dkeys d) \<subseteq> ks"
  unfolding unsupported_keys_def sorted_rest_Nil by auto

lemma normalize_case_normal:
  assumes "normalize_case v i ids = Inr c"
  shows "case_normal c"
proof -
  from assms obtain d where v: "v = PDict d" by (cases v) (auto simp: normalize_case_def)
  define cid where "cid = py_strip (py_str (py_or (dget_none d ''case_id'') (PStr i)))"
  define qry where "qry = stripped_text (dget_none d ''query'')"
  have strip: "py_strip cid = cid" "py_strip qry = qry" by (simp_all add: cid_def qry_def)
  from assms obtain xs ms provenance replay replay' metadata checks
    where s: "case_skill_ids d ids = Inr xs" "case_materials d = Inr ms" "normalize_disclosure replay = Inr replay'"
      "normalize_checks (dget_none d ''checks'') = Inr checks" "cid \<noteq> ''''" "qry \<noteq> ''''"
      and c: "c = [(''case_id'', PStr cid), (''query'', PStr qry), (''skill_ids'', str_list xs),
             (''checks'', PList (map PDict checks)), (''materials'', PList ms), (''provenance'', PDict provenance),
             (''replay'', PDict replay'), (''metadata'', PDict metadata)]"
    unfolding v normalize_case_def pyval.case Let_def bindE_Inr_iff reject_if_Inr cid_def [symmetric] qry_def [symmetric]
    by blast
  have "list_all material_ok ms"
    using s(2) by (auto simp: case_materials_def bindE_Inr_iff split: pyval.splits)
  then show ?thesis
    unfolding case_normal_def
    using s(5,6) strip case_skill_ids_normal [OF s(1)] checks_normal [OF s(4)] disclosure_fixed [OF s(3)]
    by - (intro exI, intro conjI, rule c, simp_all)
qed

lemma normalize_case_fixed:
  assumes "case_normal c"
  shows "normalize_case (PDict c) i ids = Inr c"
proof -
  from assms obtain cid qry xs checks ms provenance replay metadata where
    c: "c = [(''case_id'', PStr cid), (''query'', PStr qry), (''skill_ids'', str_list xs),
             (''checks'', PList (map PDict checks)), (''materials'', PList ms), (''provenance'', PDict provenance),
             (''replay'', PDict replay), (''metadata'', PDict metadata)]"
    and n: "cid \<noteq> ''''" "py_strip cid = cid" "qry \<noteq> ''''" "py_strip qry = qry" "texts_normal xs" "sorted xs"
      "list_all check_normal checks" "distinct (map check_key checks)" "checks \<noteq> []" "list_all material_ok ms"
      "normalize_disclosure replay = Inr replay"
    unfolding case_normal_def by blast
  have keys: "unsupported_keys c case_keys = []"
    unfolding unsupported_keys_iff c by (simp add: dkeys_def case_keys_def)
  have ids: "case_skill_ids c ids = Inr xs" by (rule case_skill_ids_fixed [OF n(5,6)]) (simp add: c)
  have fields: "case_materials c = Inr ms" "object_field c ''provenance'' = Inr provenance"
    "object_field c ''replay'' = Inr replay" "object_field c ''metadata'' = Inr metadata"
    "normalize_checks (dget_none c ''checks'') = Inr checks"
    using n by (simp_all add: c case_materials_def object_field_def checks_fixed)
  have texts: "py_strip (py_str (py_or (dget_none c ''case_id'') (PStr i))) = cid"
    "stripped_text (dget_none c ''query'') = qry"
    using n by (simp_all add: c py_or_def)
  have "normalize_case (PDict c) i ids =
      Inr [(''case_id'', PStr cid), (''query'', PStr qry), (''skill_ids'', str_list xs),
             (''checks'', PList (map PDict checks)), (''materials'', PList ms), (''provenance'', PDict provenance),
             (''replay'', PDict replay), (''metadata'', PDict metadata)]"
    by (simp only: normalize_case_def pyval.case Let_def keys texts ids fields n(1,3,11)
        reject_if_False bindE_simps simp_thms)
  then show ?thesis by (simp only: c)
qed

section \<open>Documents\<close>

lemma cases_fixed:
  "list_all case_normal cs \<Longrightarrow>
   mapE (\<lambda>(i, c). normalize_case c (f i) ids) (enumerate n (map PDict cs)) = Inr cs"
  by (induction cs arbitrary: n) (auto simp: normalize_case_fixed)

lemma cases_normal:
  assumes "mapE (\<lambda>(i, c). normalize_case c (f i) ids) xs = Inr cs"
  shows "list_all case_normal cs"
  unfolding list_all_iff
  by (rule mapE_all [OF assms]) (auto intro: normalize_case_normal)

definition document_dict :: "document_parts \<Rightarrow> pydict list \<Rightarrow> pydict list \<Rightarrow> pydict" where
  "document_dict p refs cases =
     [(''schema_version'', PStr dataset_schema), (''dataset_id'', PStr (dp_dataset_id p)),
      (''name'', PStr (dp_name p)), (''description'', PStr (dp_description p)),
      (''skills'', PList (map PDict refs)), (''source'', PDict (dp_source p)),
      (''cases'', PList (map PDict cases)), (''created_at'', PStr (dp_created_at p)),
      (''updated_at'', PStr (dp_updated_at p)), (''metadata'', PDict (dp_metadata p))]"

text \<open>The parts of an accepted document.\<close>

definition document_normal :: "document_parts \<Rightarrow> pydict list \<Rightarrow> pydict list \<Rightarrow> bool \<Rightarrow> bool" where
  "document_normal p refs cases allow_empty \<longleftrightarrow>
     py_strip (dp_dataset_id p) = dp_dataset_id p \<and> py_strip (dp_name p) = dp_name p \<and>
     py_strip (dp_description p) = dp_description p \<and> dp_created_at p \<noteq> '''' \<and> dp_updated_at p \<noteq> '''' \<and>
     dp_skills p = PList (map PDict refs) \<and> list_all ref_normal refs \<and> distinct (map ref_skill_id refs) \<and>
     sorted (map ref_skill_id refs) \<and> list_all case_normal cases \<and> (cases = [] \<longrightarrow> allow_empty) \<and>
     validate_document (PDict (document_dict p refs cases)) allow_empty = []"

lemma make_document_normal:
  assumes "make_document now p cs ae = Inr doc" and "now \<noteq> ''''"
  shows "\<exists>p refs cases. document_normal p refs cases ae \<and> doc = document_dict p refs cases"
proof -
  define created where "created = (if dp_created_at p \<noteq> '''' then dp_created_at p else now)"
  let ?q = "\<lambda>refs. \<lparr>dp_dataset_id = py_strip (dp_dataset_id p), dp_name = py_strip (dp_name p),
      dp_description = py_strip (dp_description p), dp_skills = PList (map PDict refs), dp_source = dp_source p,
      dp_metadata = dp_metadata p, dp_created_at = created,
      dp_updated_at = (if dp_updated_at p \<noteq> '''' then dp_updated_at p else created)\<rparr>"
  from assms(1) obtain xs refs cases where refs: "normalize_skill_refs (PList xs) = Inr refs"
    and cases: "mapE (\<lambda>(i, c). normalize_case c (default_case_id i) (map ref_skill_id refs)) (enumerate 1 cs) = Inr cases"
    and ne: "cases = [] \<longrightarrow> ae"
    and doc: "doc = document_dict (?q refs) refs cases"
    and valid: "validate_document (PDict doc) ae = []"
    unfolding make_document_def Let_def bindE_Inr_iff reject_if_Inr created_def [symmetric] document_dict_def
    by (auto split: if_splits)
  have "created \<noteq> ''''" using assms(2) by (simp add: created_def)
  moreover have "validate_document (PDict (document_dict (?q refs) refs cases)) ae = []" using valid doc by simp
  ultimately have "document_normal (?q refs) refs cases ae"
    unfolding document_normal_def using ne refs_normal [OF refs] cases_normal [OF cases] by simp
  with doc show ?thesis by blast
qed

lemma normalize_document_normal:
  assumes "normalize_document now v i n ae = Inr doc" and "now \<noteq> ''''"
  shows "\<exists>p refs cases. document_normal p refs cases ae \<and> doc = document_dict p refs cases"
proof -
  from assms(1) obtain p cs where "make_document now p cs ae = Inr doc"
    by (cases v) (auto simp: normalize_document_def bindE_Inr_iff)
  then show ?thesis using assms(2) by (rule make_document_normal)
qed

lemma document_ids_nonempty:
  assumes "document_normal p refs cases ae"
  shows "dp_dataset_id p \<noteq> ''''" and "dp_name p \<noteq> ''''"
  using assms by (auto simp: document_normal_def validate_document_def document_dict_def Let_def problem_if_def)

lemma make_document_fixed:
  assumes "document_normal p refs cases ae"
  shows "make_document now p (map PDict cases) ae = Inr (document_dict p refs cases)"
proof -
  note n = assms [unfolded document_normal_def]
  have iter: "py_iter (py_or (dp_skills p) (PList [])) = Inr (map PDict refs)"
    using n by (simp add: py_or_def py_iter_def)
  have refs: "normalize_skill_refs (PList (map PDict refs)) = Inr refs" using n by (intro refs_fixed) simp_all
  have cases: "mapE (\<lambda>(i, c). normalize_case c (default_case_id i) (map ref_skill_id refs))
      (enumerate 1 (map PDict cases)) = Inr cases"
    using n by (intro cases_fixed) simp
  have "(cases = [] \<and> \<not> ae) = False" using n by simp
  then show ?thesis
    using n unfolding make_document_def iter sum.case refs cases bindE_simps Let_def document_dict_def [symmetric]
    by (simp add: document_dict_def reject_if_def)
qed

lemma normalize_document_fixed:
  assumes "document_normal p refs cases ae"
  shows "normalize_document now (PDict (document_dict p refs cases)) i n ae = Inr (document_dict p refs cases)"
proof -
  let ?d = "document_dict p refs cases"
  note n = assms [unfolded document_normal_def] and ids = document_ids_nonempty [OF assms]
  have keys: "unsupported_keys ?d document_keys = []"
    unfolding unsupported_keys_iff by (simp add: document_dict_def dkeys_def document_keys_def)
  have dicts: "list_all is_dict (map PDict cases)" by (simp add: list_all_iff)
  have fields: "dget_none ?d ''schema_version'' = PStr dataset_schema" "dget_none ?d ''cases'' = PList (map PDict cases)"
    "object_field ?d ''source'' = Inr (dp_source p)" "object_field ?d ''metadata'' = Inr (dp_metadata p)"
    "dget_or ?d ''skills'' (PList []) = dp_skills p"
    using n by (simp_all add: document_dict_def object_field_def)
  have texts: "text_or ?d ''dataset_id'' i = dp_dataset_id p" "text_or ?d ''name'' n = dp_name p"
    "text_or ?d ''description'' '''' = dp_description p" "text_or ?d ''created_at'' '''' = dp_created_at p"
    "text_or ?d ''updated_at'' '''' = dp_updated_at p"
    using n ids by (simp_all add: document_dict_def text_or_def py_or_def)
  have eta: "\<lparr>dp_dataset_id = dp_dataset_id p, dp_name = dp_name p, dp_description = dp_description p,
      dp_skills = dp_skills p, dp_source = dp_source p, dp_metadata = dp_metadata p,
      dp_created_at = dp_created_at p, dp_updated_at = dp_updated_at p\<rparr> = p" by simp
  have "normalize_document now (PDict ?d) i n ae = make_document now p (map PDict cases) ae"
    by (simp only: normalize_document_def pyval.case keys dicts fields texts reject_if_False bindE_simps
        simp_thms) (simp add: eta)
  then show ?thesis using make_document_fixed [OF assms] by simp
qed

section \<open>Properties\<close>

lemma declared_ids_normal:
  "list_all ref_normal refs \<Longrightarrow> declared_ids (PList (map PDict refs)) = map ref_skill_id refs"
  by (induction refs) (auto simp: declared_ids_def as_list_def ref_normal_def ref_skill_id_def)

lemma cases_problems_Nil:
  assumes "cases_problems ids i seen (map PDict cs) = []"
  shows "distinct (map (\<lambda>c. stripped_text (dget_none c ''case_id'')) cs)"
    and "\<forall>c\<in>set cs. stripped_text (dget_none c ''case_id'') \<notin> seen \<and> skill_id_problems (dget_none c ''skill_ids'') ids = []"
proof -
  have "distinct (map (\<lambda>c. stripped_text (dget_none c ''case_id'')) cs) \<and>
    (\<forall>c\<in>set cs. stripped_text (dget_none c ''case_id'') \<notin> seen \<and> skill_id_problems (dget_none c ''skill_ids'') ids = [])"
    using assms
  proof (induction cs arbitrary: i seen)
    case (Cons c cs)
    let ?id = "stripped_text (dget_none c ''case_id'')"
    have "cases_problems ids (Suc i) (insert ?id seen) (map PDict cs) = []" using Cons.prems by simp
    note IH = Cons.IH [OF this]
    have "?id \<notin> seen" "skill_id_problems (dget_none c ''skill_ids'') ids = []"
      using Cons.prems by (auto simp: case_problems_def Let_def problem_if_def split: if_splits)
    with IH show ?case by auto
  qed simp
  then show "distinct (map (\<lambda>c. stripped_text (dget_none c ''case_id'')) cs)"
    "\<forall>c\<in>set cs. stripped_text (dget_none c ''case_id'') \<notin> seen \<and> skill_id_problems (dget_none c ''skill_ids'') ids = []"
    by simp_all
qed

lemma skill_ids_declared:
  assumes "skill_id_problems (str_list ids) declared = []" and "texts_normal ids"
  shows "set ids \<subseteq> set declared"
proof -
  have "map stripped_text (map PStr ids) = ids" using assms(2) by (simp add: texts_normal_def list_all_iff map_idI)
  then show ?thesis
    using assms(1) unfolding skill_id_problems_def str_list_def pyval.case Let_def problem_if_def
    by (auto simp: sorted_rest_Nil split: if_splits)
qed

text \<open>
  C38: An accepted dataset document is in normal form. Normalising it again, at any later
  time and with any defaults, gives the same document, and its validation reports nothing.
\<close>

theorem normalized_dataset_is_fixed:
  assumes "normalize_document now payload i n allow_empty = Inr doc" and "now \<noteq> ''''"
  shows "normalize_document later (PDict doc) i' n' allow_empty = Inr doc \<and>
    validate_document (PDict doc) allow_empty = []"
proof -
  from normalize_document_normal [OF assms] obtain p refs cases
    where n: "document_normal p refs cases allow_empty" and doc: "doc = document_dict p refs cases" by blast
  show ?thesis unfolding doc using normalize_document_fixed [OF n] n by (simp add: document_normal_def)
qed

text \<open>
  C39: The cases of an accepted dataset document hang together with its skills: skill ids
  are unique and sorted, case ids unique, and every case has unique skill ids among the
  declared ones and a nonempty list of checks with unique ids.
\<close>

theorem normalized_dataset_is_consistent:
  assumes "normalize_document now payload i n allow_empty = Inr doc" and "now \<noteq> ''''"
  shows "\<exists>skills cases. dget doc ''skills'' = Some (PList (map PDict skills)) \<and>
    distinct (map ref_skill_id skills) \<and> sorted (map ref_skill_id skills) \<and>
    dget doc ''cases'' = Some (PList (map PDict cases)) \<and> (cases = [] \<longrightarrow> allow_empty) \<and>
    distinct (map (\<lambda>c. py_str (dget_none c ''case_id'')) cases) \<and>
    (\<forall>c\<in>set cases. \<exists>ids checks.
       dget c ''skill_ids'' = Some (str_list ids) \<and> distinct ids \<and> set ids \<subseteq> set (map ref_skill_id skills) \<and>
       dget c ''checks'' = Some (PList (map PDict checks)) \<and> checks \<noteq> [] \<and>
       distinct (map (\<lambda>k. py_str (dget_none k ''id'')) checks))"
proof -
  from normalize_document_normal [OF assms] obtain p refs cases
    where n: "document_normal p refs cases allow_empty" and doc: "doc = document_dict p refs cases" by blast
  note n' = n [unfolded document_normal_def]
  have "cases_problems (map ref_skill_id refs) 0 {} (map PDict cases) = []"
    using n' declared_ids_normal [of refs]
    by (simp add: validate_document_def document_dict_def Let_def problem_if_def split: if_splits)
  note problems = cases_problems_Nil [OF this]
  have case_id: "stripped_text (dget_none c ''case_id'') = py_str (dget_none c ''case_id'')" if "c \<in> set cases" for c
  proof -
    have "case_normal c" using n' that by (simp add: list_all_iff)
    then show ?thesis unfolding case_normal_def by fastforce
  qed
  have ids: "map (\<lambda>c. stripped_text (dget_none c ''case_id'')) cases = map (\<lambda>c. py_str (dget_none c ''case_id'')) cases"
    by (rule map_cong [OF refl]) (rule case_id)
  have ok: "\<exists>ids checks. dget c ''skill_ids'' = Some (str_list ids) \<and> distinct ids \<and>
      set ids \<subseteq> set (map ref_skill_id refs) \<and> dget c ''checks'' = Some (PList (map PDict checks)) \<and> checks \<noteq> [] \<and>
      distinct (map (\<lambda>k. py_str (dget_none k ''id'')) checks)" if "c \<in> set cases" for c
  proof -
    have "case_normal c" using n' that by (simp add: list_all_iff)
    then obtain ids checks where "dget c ''skill_ids'' = Some (str_list ids)" "texts_normal ids"
      "dget c ''checks'' = Some (PList (map PDict checks))" "checks \<noteq> []" "distinct (map check_key checks)"
      unfolding case_normal_def by fastforce
    moreover from this have "set ids \<subseteq> set (map ref_skill_id refs)"
      using problems(2) that by (intro skill_ids_declared) (auto simp: dget_or_def)
    ultimately show ?thesis unfolding check_key_def [abs_def] texts_normal_def by blast
  qed
  show ?thesis
    using n' problems(1) ids ok
    by (intro exI [of _ refs] exI [of _ cases]) (simp add: doc document_dict_def)
qed

section \<open>Examples\<close>

definition sample_case :: pyval where
  "sample_case = PDict [(''case_id'', PStr '' c ''), (''query'', PStr ''q''),
     (''checks'', PList [PDict [(''id'', PStr ''k''), (''kind'', PStr ''output''), (''text'', PStr '' t''),
       (''polarity'', PStr ''must_not'')]])]"

definition sample_dataset :: "pyval \<Rightarrow> pyval" where
  "sample_dataset skills = PDict [(''schema_version'', PStr dataset_schema), (''name'', PStr ''n''),
     (''skills'', skills), (''cases'', PList [sample_case])]"

definition sample_normal :: "string list \<Rightarrow> pydict" where
  "sample_normal ids =
     [(''schema_version'', PStr dataset_schema), (''dataset_id'', PStr ''d''), (''name'', PStr ''n''),
      (''description'', PStr ''''), (''skills'', PList (map (\<lambda>s. PDict [(''skill_id'', PStr s)]) ids)),
      (''source'', PDict []),
      (''cases'', PList [PDict [(''case_id'', PStr ''c''), (''query'', PStr ''q''), (''skill_ids'', str_list ids),
         (''checks'', PList [PDict [(''id'', PStr ''k''), (''kind'', PStr ''output''), (''text'', PStr ''t''),
            (''polarity'', PStr ''must_not'')]]), (''materials'', PList []), (''provenance'', PDict []),
         (''replay'', PDict [(''progressive_disclosure'', PDict [(''enabled'', PBool True),
            (''initial_visibility'', PStr ''query_only''), (''batch_size'', PInt 4),
            (''stop_when'', PStr ''all_checklist_items_satisfied'')])]), (''metadata'', PDict [])]]),
      (''created_at'', PStr ''0''), (''updated_at'', PStr ''0''), (''metadata'', PDict [])]"

lemma sample_normalizes:
  "normalize_document ''0'' (sample_dataset (PList [PStr ''b'', PStr '' a''])) ''d'' '''' False =
     Inr (sample_normal [''a'', ''b''])"
  by code_simp

theorem normalized_dataset_is_fixed_witness:
  "normalize_document ''1'' (PDict (sample_normal [''a'', ''b''])) ''x'' ''y'' False = Inr (sample_normal [''a'', ''b'']) \<and>
   validate_document (PDict (sample_normal [''a'', ''b''])) False = []"
  by (rule normalized_dataset_is_fixed [OF sample_normalizes]) simp

theorem normalized_dataset_is_consistent_witness:
  "\<exists>skills cases. dget (sample_normal [''a'', ''b'']) ''skills'' = Some (PList (map PDict skills)) \<and>
     sorted (map ref_skill_id skills) \<and>
     dget (sample_normal [''a'', ''b'']) ''cases'' = Some (PList (map PDict cases)) \<and> cases \<noteq> []"
proof -
  have "''0'' \<noteq> ''''" by simp
  from normalized_dataset_is_consistent [OF sample_normalizes this] show ?thesis by blast
qed

text \<open>
  The test that skills are an array is never reached: a text is taken apart into its
  characters, and a number raises \<open>TypeError\<close>.
\<close>

lemma skills_text_is_split:
  "normalize_document ''0'' (sample_dataset (PStr ''ab'')) ''d'' '''' False = Inr (sample_normal [''a'', ''b''])"
  "normalize_document ''0'' (sample_dataset (PInt 5)) ''d'' '''' False = Inl (RaisesOther type_error)"
  by code_simp+

text \<open>Skill ids of a case that differ in surrounding space only are accepted and merged.\<close>

lemma repeated_skill_id_accepted: "case_skill_ids [(''skill_ids'', str_list [''a'', '' a''])] [] = Inr [''a'']"
  by code_simp

end
