(* ===== verification/ReplayBranch.thy ===== *)
theory ReplayBranch imports Aggregation begin

text \<open>
  One branch of a replay: the turn loop (team\_replay/execution.py), the checks on what a
  customer runtime returns (team\_replay/hooks.py) and the checklist judge
  (team\_replay/judging.py). The runtime, the language model, the hash and the clock are
  arguments: what \<open>send\<close> returns is a function of the messages sent so far, the clock a
  function of the number of its readings. An exception leaves the effects made before it, so
  a statement takes the state of the branch and returns it with the exception or a value.
\<close>

section \<open>Statements with effects and exceptions\<close>

definition bindS ::
  "('s \<Rightarrow> ('e + 'a) \<times> 's) \<Rightarrow> ('a \<Rightarrow> 's \<Rightarrow> ('e + 'b) \<times> 's) \<Rightarrow> 's \<Rightarrow> ('e + 'b) \<times> 's" where
  "bindS m k s = (case m s of (Inl e, t) \<Rightarrow> (Inl e, t) | (Inr x, t) \<Rightarrow> k x t)"

definition liftS :: "'e + 'a \<Rightarrow> 's \<Rightarrow> ('e + 'a) \<times> 's" where
  "liftS r s = (r, s)"

definition updateS :: "('s \<Rightarrow> 's) \<Rightarrow> 's \<Rightarrow> ('e + unit) \<times> 's" where
  "updateS f s = (Inr (), f s)"

section \<open>Observations\<close>

definition runtime_metrics :: "string list" where
  "runtime_metrics =
     [''tool_call_count'', ''total_tokens'', ''input_tokens'', ''output_tokens'', ''api_calls'',
      ''cache_read_tokens'', ''cache_write_tokens'', ''reasoning_tokens'']"

record observation =
  ob_response :: pyval
  ob_messages :: "pyval list"
  ob_artifacts :: "pyval list"
  ob_metrics :: pyval
  ob_trace_id :: pyval
  ob_reason :: pyval

datatype sent_value = NotObservation | Observation observation

text \<open>A boolean is no metric; \<open>math.isfinite\<close> raises on an integer no double can hold.\<close>

definition check_runtime_metric :: "string \<times> pyval \<Rightarrow> pyexc + unit" where
  "check_runtime_metric = (\<lambda>(k, v).
     let bad = Inl (PyExc ''ValueError'' (''invalid runtime metric: '' @ k))
     in if k \<notin> set runtime_metrics then Inl (PyExc ''ValueError'' (''unsupported runtime metric: '' @ k))
        else case v of
          PInt i \<Rightarrow> if exceeds_double i then Inl overflow_error else if i < 0 then bad else Inr ()
        | PFloat (Fin q) \<Rightarrow> if q < 0 then bad else Inr ()
        | _ \<Rightarrow> bad)"

definition validate_observation :: "sent_value \<Rightarrow> pyexc + observation" where
  "validate_observation v =
     (case v of
        NotObservation \<Rightarrow> Inl (PyExc ''ValueError'' ''send() must return AgentObservation with a nonempty response'')
      | Observation ob \<Rightarrow>
          if \<not> (case ob_response ob of PStr s \<Rightarrow> py_strip s \<noteq> '''' | _ \<Rightarrow> False)
          then Inl (PyExc ''ValueError'' ''send() must return AgentObservation with a nonempty response'')
          else if \<not> list_all is_dict (ob_messages ob)
          then Inl (PyExc ''ValueError'' ''observation messages must be mappings'')
          else if \<not> list_all (\<lambda>a. is_dict a \<or> is_str a) (ob_artifacts ob)
          then Inl (PyExc ''ValueError'' ''observation artifacts must be mappings or strings'')
          else if ob_metrics ob \<noteq> PNone \<and> \<not> is_dict (ob_metrics ob)
          then Inl (PyExc ''ValueError'' ''observation metrics must be a mapping'')
          else bindE (mapE check_runtime_metric (as_dict (ob_metrics ob))) (\<lambda>_. Inr ob))"

section \<open>The judge\<close>

definition judged_pair :: "pydict \<Rightarrow> pyexc + pyval" where
  "judged_pair i =
     (case (dget i ''prompt'', dget i ''response'') of
        (Some p, Some r) \<Rightarrow> Inr (PDict [(''user'', p), (''agent'', r)])
      | _ \<Rightarrow> Inl (PyExc ''KeyError'' ''''))"

text \<open>
  What the model returned has the required form, for the ids expected. A list or an object
  given as an id cannot be put in a set, which raises.
\<close>

definition judged_item_ok :: "pyval \<Rightarrow> bool" where
  "judged_item_ok v =
     (case v of PDict d \<Rightarrow> is_bool (dget_none d ''satisfied'') \<and> is_str (dget_none d ''evidence'') | _ \<Rightarrow> False)"

definition judge_output_ok :: "string list \<Rightarrow> pydict \<Rightarrow> pyexc + bool" where
  "judge_output_ok expected raw =
     (case dget_none raw ''items'' of
        PList items \<Rightarrow>
          let ids = map (\<lambda>v. dget_none (as_dict v) ''id'') items
          in if \<not> is_bool (dget_none raw ''all_satisfied'') \<or> length items \<noteq> length expected \<or>
                \<not> list_all is_dict items
             then Inr False
             else if list_ex (\<lambda>v. is_list v \<or> is_dict v) ids then Inl type_error
             else Inr (set ids = set (map PStr expected) \<and> list_all judged_item_ok items \<and>
                    (case dget_none raw ''positive_observations'' of PList os \<Rightarrow> list_all is_str os | _ \<Rightarrow> False))
      | _ \<Rightarrow> Inr False)"

definition exc_text :: "pyexc \<Rightarrow> string" where
  "exc_text e = (case e of PyExc c msg \<Rightarrow> msg)"

text \<open>
  The \<open>try\<close> block. \<open>completion\<close> is the model call on its payload, with the reading of the
  harness (prompt, temperature) that precedes it.
\<close>

definition judge_model ::
  "(pyval \<Rightarrow> pyexc + pydict) \<Rightarrow> pydict list \<Rightarrow> pydict list \<Rightarrow> pyval list \<Rightarrow> pyval list \<Rightarrow> pyexc + pydict" where
  "judge_model completion checklist interactions messages artifacts =
     (let expected = map (\<lambda>d. str_field d ''id'') checklist
      in if expected = [] \<or> \<not> distinct expected
         then Inl (PyExc ''ValueError'' ''Checklist must contain unique nonempty requirements'')
         else bindE (mapE judged_pair interactions) (\<lambda>pairs.
              bindE (completion (PDict [(''checklist'', PList (map PDict checklist)), (''interactions'', PList pairs),
                       (''messages'', PList messages), (''artifacts'', PList artifacts)])) (\<lambda>raw.
              bindE (judge_output_ok expected raw) (\<lambda>valid.
                if \<not> valid then Inl (PyExc ''ValueError'' ''invalid Checklist judge output'')
                else bindE (normalize_checklist_report [(''checklist_report'', PDict raw)] checklist) (\<lambda>report.
                  let r = dput ''judge'' (PStr ''model'') report
                  in Inr (if dget_none r ''satisfied_count'' = PInt 0
                          then dput ''positive_observations'' (PList []) r else r))))))"

definition judge_checklist ::
  "(pyval \<Rightarrow> pyexc + pydict) \<Rightarrow> pydict list \<Rightarrow> pydict list \<Rightarrow> pyval list \<Rightarrow> pyval list \<Rightarrow> pyexc + pydict" where
  "judge_checklist completion checklist interactions messages artifacts =
     (case judge_model completion checklist interactions messages artifacts of
        Inr report \<Rightarrow> Inr report
      | Inl e \<Rightarrow>
          bindE (normalize_checklist_report [(''checklist_report'', PDict [])] checklist) (\<lambda>report.
            Inr (dmerge report [(''all_satisfied'', PBool False), (''judge'', PStr ''unavailable''),
                                (''error'', PStr (exc_text e)), (''positive_observations'', PList [])])))"

section \<open>The branch\<close>

text \<open>
  A session of the customer runtime: \<open>send\<close> and \<open>close\<close>, when they are callable. What
  \<open>send\<close> gives depends on the messages sent so far, the last one included.
\<close>

record replay_session =
  se_send :: "(string list \<Rightarrow> pyexc + sent_value) option"
  se_close :: "(pyexc + unit) option"

record replay_context =
  cx_branch :: string
  cx_runtime_type :: string
  cx_request_id :: string
  cx_snapshot :: pyval
  cx_materials :: "pyval list"
  cx_timeout :: int
  cx_skill :: "pydict option"
  cx_source :: pydict
  cx_turn_num :: int

text \<open>What the branch is given: the clock, the hash, the judge and the simulated user.\<close>

record branch_env =
  be_clock :: "nat \<Rightarrow> rat"
  be_judge :: "pydict list \<Rightarrow> pydict list \<Rightarrow> pyval list \<Rightarrow> pyval list \<Rightarrow> pyexc + pydict"
  be_feedback :: "string \<Rightarrow> pyval list \<Rightarrow> pydict list \<Rightarrow> string list \<Rightarrow> nat \<Rightarrow> pyexc + string"
  be_timeout :: int
  be_max_interactions :: int
  be_batch_size :: int
  be_checklist :: "pydict list"

text \<open>
  The local variables of the loop and the mutable parts of \<open>result\<close>, with the messages sent,
  the number of clock readings and of calls of \<open>close\<close>.
\<close>

record branch_state =
  bs_session :: "replay_session option"
  bs_sent :: "string list"
  bs_reads :: nat
  bs_closes :: nat
  bs_completed :: bool
  bs_messages :: "pyval list"
  bs_interactions :: "pydict list"
  bs_artifacts :: "pyval list"
  bs_disclosures :: "pydict list"
  bs_trace_ids :: "pyval list"
  bs_incomplete_reasons :: "pyval list"
  bs_report :: pydict
  bs_final_response :: "string option"
  bs_judge_lost :: bool
  bs_totals :: pydict
  bs_unavailable :: "string set"
  bs_message :: string
  bs_disclosed_ids :: "string set"
  bs_disclosed_texts :: "string list"

definition initial_branch_state :: "string \<Rightarrow> replay_session option \<Rightarrow> branch_state" where
  "initial_branch_state query session =
     \<lparr>bs_session = session, bs_sent = [], bs_reads = 1, bs_closes = 0, bs_completed = False, bs_messages = [],
      bs_interactions = [], bs_artifacts = [], bs_disclosures = [], bs_trace_ids = [], bs_incomplete_reasons = [],
      bs_report = [(''judge'', PStr ''unavailable''), (''all_satisfied'', PBool False)],
      bs_final_response = None, bs_judge_lost = False, bs_totals = [], bs_unavailable = {}, bs_message = query,
      bs_disclosed_ids = {}, bs_disclosed_texts = []\<rparr>"

type_synonym 'a branch_step = "branch_state \<Rightarrow> (pyexc + 'a) \<times> branch_state"

text \<open>\<open>if time.monotonic() - started >= context.timeout_seconds: raise TimeoutError\<close>.\<close>

definition check_deadline :: "branch_env \<Rightarrow> unit branch_step" where
  "check_deadline e s =
     (if be_clock e (bs_reads s) - be_clock e 0 \<ge> of_int (be_timeout e)
      then Inl (PyExc ''TimeoutError'' ''Replay branch timeout'') else Inr (),
      s\<lparr>bs_reads := bs_reads s + 1\<rparr>)"

definition send_message :: "observation branch_step" where
  "send_message s =
     (let s1 = s\<lparr>bs_sent := bs_sent s @ [bs_message s]\<rparr>
      in (case bs_session s of
            Some se \<Rightarrow>
              (case se_send se of
                 Some f \<Rightarrow> bindE (f (bs_sent s1)) validate_observation
               | None \<Rightarrow> Inl type_error)
          | None \<Rightarrow> Inl attribute_error, s1))"

definition round_metrics :: "observation \<Rightarrow> pyexc + pydict" where
  "round_metrics ob =
     bindE (any_contains ''tool_calls'' (ob_messages ob)) (\<lambda>b.
       if b then bindE (count_tool_calls (ob_messages ob)) (\<lambda>n.
                   Inr (dput ''tool_call_count'' (PInt n) (as_dict (ob_metrics ob))))
       else Inr (as_dict (ob_metrics ob)))"


definition add_metric :: "pydict \<Rightarrow> string \<Rightarrow> branch_state \<Rightarrow> branch_state" where
  "add_metric rm k s =
     (case dget rm k of
        None \<Rightarrow> s\<lparr>bs_unavailable := insert k (bs_unavailable s)\<rparr>
      | Some v \<Rightarrow> s\<lparr>bs_totals := dput k (num_add (dget_or (bs_totals s) k (PInt 0)) v) (bs_totals s)\<rparr>)"

definition interaction_of :: "nat \<Rightarrow> string \<Rightarrow> observation \<Rightarrow> pydict \<Rightarrow> pydict" where
  "interaction_of turn prompt ob rm =
     [(''interaction_num'', PInt (int turn)), (''prompt'', PStr prompt), (''response'', ob_response ob),
      (''metrics'', PDict (map (\<lambda>k. (k, dget_or rm k (PStr unavailable))) runtime_metrics)),
      (''trace_id'', ob_trace_id ob), (''metrics_incomplete_reason'', ob_reason ob)]"

definition if_truthy :: "pyval \<Rightarrow> pyval list" where
  "if_truthy v = (if truthy v then [v] else [])"

text \<open>What an answered message adds to the result.\<close>

definition record_interaction :: "nat \<Rightarrow> observation \<Rightarrow> pydict \<Rightarrow> branch_state \<Rightarrow> branch_state" where
  "record_interaction turn ob rm s =
     (let s1 = fold (add_metric rm) runtime_metrics s
      in s1\<lparr>bs_messages := bs_messages s1 @ ob_messages ob, bs_artifacts := bs_artifacts s1 @ ob_artifacts ob,
            bs_trace_ids := bs_trace_ids s1 @ if_truthy (ob_trace_id ob),
            bs_incomplete_reasons := bs_incomplete_reasons s1 @ if_truthy (ob_reason ob),
            bs_interactions := bs_interactions s1 @ [interaction_of turn (bs_message s1) ob rm],
            bs_final_response := Some (py_str (ob_response ob))\<rparr>)"

text \<open>The judge's report goes to the result and to the interaction it is about, the last one.\<close>

definition record_report :: "pydict \<Rightarrow> branch_state \<Rightarrow> branch_state" where
  "record_report report s =
     s\<lparr>bs_report := report,
       bs_interactions := butlast (bs_interactions s) @
         [dput ''checklist_report'' (PDict report) (last (bs_interactions s))]\<rparr>"

definition judge_turn :: "branch_env \<Rightarrow> nat \<Rightarrow> pydict branch_step" where
  "judge_turn e turn s =
     bindS (liftS (be_judge e (be_checklist e) (bs_interactions s) (bs_messages s) (bs_artifacts s)))
       (\<lambda>r. let report = dput ''rounds'' (PInt (int turn)) r
            in bindS (updateS (record_report report)) (\<lambda>_ s1.
              if dget_none report ''judge'' = PStr ''unavailable''
              then (Inl (PyExc ''RuntimeError'' ''Checklist judge unavailable''), s1\<lparr>bs_judge_lost := True\<rparr>)
              else (Inr report, s1))) s"

definition disclose :: "nat \<Rightarrow> pydict list \<Rightarrow> string \<Rightarrow> branch_state \<Rightarrow> branch_state" where
  "disclose turn selected message s =
     (let entries = fold (\<lambda>d (ids, texts).
            (insert (str_field d ''id'') ids,
             if str_field d ''id'' \<in> ids then texts else texts @ [str_field d ''text'']))
            selected (bs_disclosed_ids s, bs_disclosed_texts s)
      in s\<lparr>bs_message := message,
           bs_disclosures := bs_disclosures s @
             [[(''after_turn'', PInt (int turn)), (''ids'', item_ids selected), (''message'', PStr message)]],
           bs_disclosed_ids := fst entries, bs_disclosed_texts := snd entries\<rparr>)"

text \<open>Ask for what is still missing; \<open>False\<close> when nothing is left to ask for.\<close>

definition request_missing :: "branch_env \<Rightarrow> nat \<Rightarrow> observation \<Rightarrow> pydict \<Rightarrow> bool branch_step" where
  "request_missing e turn ob report s =
     bindS (liftS (select_disclosure_items (be_checklist e) report (bs_disclosed_ids s) (be_batch_size e)))
       (\<lambda>selected s1.
          if selected = [] then (Inr False, s1)
          else bindS (liftS (bindE (py_iter (py_or (dget_none report ''positive_observations'') (PList []))) (\<lambda>observed.
                   be_feedback e (py_str (ob_response ob)) observed selected (bs_disclosed_texts s1) (turn + 1))))
                 (\<lambda>message. bindS (updateS (disclose turn selected message)) (\<lambda>_. liftS (Inr True))) s1) s"

text \<open>After the judge: stop, or go on. \<open>True\<close> continues the loop.\<close>

definition next_request :: "branch_env \<Rightarrow> nat \<Rightarrow> observation \<Rightarrow> pydict \<Rightarrow> bool branch_step" where
  "next_request e turn ob report =
     bindS (check_deadline e) (\<lambda>_ s.
       if truthy (dget_none report ''all_satisfied'') then (Inr False, s\<lparr>bs_completed := True\<rparr>)
       else if int turn \<ge> be_max_interactions e then (Inr False, s)
       else bindS (check_deadline e) (\<lambda>_. request_missing e turn ob report) s)"

definition branch_turn :: "branch_env \<Rightarrow> nat \<Rightarrow> bool branch_step" where
  "branch_turn e turn =
     bindS (check_deadline e) (\<lambda>_.
     bindS send_message (\<lambda>ob.
     bindS (check_deadline e) (\<lambda>_.
     bindS (liftS (round_metrics ob)) (\<lambda>rm.
     bindS (updateS (record_interaction turn ob rm)) (\<lambda>_.
     bindS (judge_turn e turn) (\<lambda>report.
       next_request e turn ob report))))))"

fun branch_turns :: "branch_env \<Rightarrow> nat list \<Rightarrow> unit branch_step" where
  "branch_turns e [] s = (Inr (), s)"
| "branch_turns e (t # ts) s =
     bindS (branch_turn e t) (\<lambda>go s1. if go then branch_turns e ts s1 else (Inr (), s1)) s"

text \<open>\<open>range(1, max(1, min(20, max_interactions)) + 1)\<close>.\<close>

definition turn_numbers :: "int \<Rightarrow> nat list" where
  "turn_numbers m = [1..<nat (max 1 (min 20 m)) + 1]"

definition session_ready :: "replay_session option \<Rightarrow> bool" where
  "session_ready session = (case session of None \<Rightarrow> False | Some se \<Rightarrow> se_send se \<noteq> None \<and> se_close se \<noteq> None)"

text \<open>The \<open>try\<close> block: a session that is not given is opened by the factory.\<close>

definition branch_body :: "branch_env \<Rightarrow> (pyexc + replay_session option) \<Rightarrow> unit branch_step" where
  "branch_body e factory_open s =
     (if py_strip (bs_message s) = '''' \<or> be_checklist e = []
      then (Inl (PyExc ''ValueError'' ''Replay requires an initial query and a nonempty Checklist''), s)
      else bindS (if bs_session s = None
                  then bindS (liftS factory_open) (\<lambda>se. updateS (\<lambda>t. t\<lparr>bs_session := se\<rparr>))
                  else liftS (Inr ()))
             (\<lambda>_ s1. if \<not> session_ready (bs_session s1)
                then (Inl (PyExc ''TypeError''
                        ''factory.open(context) must return a ReplaySession with send() and close()''), s1)
                else branch_turns e (turn_numbers (be_max_interactions e)) s1) s)"

section \<open>The result\<close>

definition exc_class :: "pyexc \<Rightarrow> string" where
  "exc_class e = (case e of PyExc c msg \<Rightarrow> c)"

text \<open>What the end of the \<open>try\<close> block, or the \<open>except\<close> clause that is taken, writes.\<close>

definition branch_outcome :: "pyexc + unit \<Rightarrow> branch_state \<Rightarrow> pydict \<Rightarrow> pydict" where
  "branch_outcome r s result =
     (case r of
        Inr _ \<Rightarrow> dmerge result [(''ok'', PBool True),
                   (''status'', PStr (if bs_completed s then ''completed'' else ''checklist_incomplete''))]
      | Inl e \<Rightarrow>
          if exc_class e = ''ReplayUnsupported''
          then dmerge result [(''status'', PStr ''unsupported''), (''error_code'', PStr ''REPLAY_UNSUPPORTED''),
                              (''error'', PStr (exc_text e))]
          else let r1 = dmerge result [(''status'', PStr ''failed''), (''error'', PStr (exc_text e))]
               in if dget r1 ''error_code'' = None
                  then dput ''error_code'' (PStr (if exc_class e = ''TimeoutError'' then ''TIMEOUT'' else ''REPLAY_FAILED'')) r1
                  else r1)"

text \<open>The \<open>finally\<close> block closes the session and reports a failure of that.\<close>

definition close_session :: "branch_state \<Rightarrow> (pyexc + unit) \<times> branch_state" where
  "close_session s =
     (case bs_session s of
        None \<Rightarrow> (Inr (), s)
      | Some se \<Rightarrow>
          (case se_close se of None \<Rightarrow> (Inr (), s) | Some r \<Rightarrow> (r, s\<lparr>bs_closes := bs_closes s + 1\<rparr>)))"

definition cleanup_outcome :: "pyexc + unit \<Rightarrow> pydict \<Rightarrow> pydict" where
  "cleanup_outcome r result =
     (case r of
        Inr _ \<Rightarrow> result
      | Inl e \<Rightarrow> dmerge result [(''ok'', PBool False), (''status'', PStr ''failed''),
                   (''error_code'', PStr ''REPLAY_CLEANUP_FAILED''), (''error'', PStr (exc_text e))])"

text \<open>\<open>round(x, 6)\<close>: to the nearest millionth, ties to the even one.\<close>

definition round6 :: "rat \<Rightarrow> rat" where
  "round6 x = round4 (x * 100) / 100"

definition total_of :: "branch_state \<Rightarrow> string \<Rightarrow> pyval" where
  "total_of s k =
     (case dget (bs_totals s) k of
        Some v \<Rightarrow> if k \<in> bs_unavailable s then PStr unavailable else v
      | None \<Rightarrow> PStr unavailable)"

definition manifest_of :: "replay_context \<Rightarrow> string \<Rightarrow> int \<Rightarrow> pyval" where
  "manifest_of cx query max_interactions =
     PDict [(''runtime_type'', PStr (cx_runtime_type cx)), (''materials'', PList (cx_materials cx)),
            (''timeout_seconds'', PInt (cx_timeout cx)), (''query'', PStr query),
            (''max_interactions'', PInt max_interactions)]"

text \<open>The result with the values its keys have when the \<open>try\<close> block is left.\<close>

definition result_so_far :: "(pyval \<Rightarrow> string) \<Rightarrow> replay_context \<Rightarrow> string \<Rightarrow> int \<Rightarrow> branch_state \<Rightarrow> pydict" where
  "result_so_far hash cx query max_interactions s =
     [(''branch'', PStr (cx_branch cx)), (''runtime'', PStr (cx_runtime_type cx)),
      (''request_id'', PStr (cx_request_id cx)), (''ok'', PBool False), (''completed'', PBool (bs_completed s)),
      (''context_input_hash'', PStr (hash (cx_snapshot cx))),
      (''execution_manifest_hash'', PStr (hash (manifest_of cx query max_interactions))),
      (''messages'', PList (bs_messages s)), (''interactions'', PList (map PDict (bs_interactions s))),
      (''artifacts'', PList (bs_artifacts s)), (''disclosures'', PList (map PDict (bs_disclosures s))),
      (''trace_ids'', PList (bs_trace_ids s)), (''metrics_incomplete_reasons'', PList (bs_incomplete_reasons s)),
      (''checklist_report'', PDict (bs_report s))] @
     (case bs_final_response s of None \<Rightarrow> [] | Some r \<Rightarrow> [(''final_response'', PStr r)]) @
     (if bs_judge_lost s then [(''error_code'', PStr ''REPLAY_JUDGE_UNAVAILABLE'')] else [])"

definition final_metrics :: "rat \<Rightarrow> branch_state \<Rightarrow> pydict" where
  "final_metrics elapsed s =
     [(''interaction_turns'', PInt (int (length (bs_interactions s)))),
      (''elapsed_seconds'', PFloat (Fin (round6 elapsed)))] @
     map (\<lambda>k. (k, total_of s k)) runtime_metrics"

record branch_args =
  ba_clock :: "nat \<Rightarrow> rat"
  ba_hash :: "pyval \<Rightarrow> string"
  ba_judge :: "pydict list \<Rightarrow> pydict list \<Rightarrow> pyval list \<Rightarrow> pyval list \<Rightarrow> pyexc + pydict"
  ba_feedback :: "string \<Rightarrow> pyval list \<Rightarrow> pydict list \<Rightarrow> string list \<Rightarrow> nat \<Rightarrow> pyexc + string"
  ba_open :: "pyexc + replay_session option"
  ba_session :: "replay_session option"

definition branch_env_of :: "branch_args \<Rightarrow> replay_context \<Rightarrow> int \<Rightarrow> int \<Rightarrow> pydict list \<Rightarrow> branch_env" where
  "branch_env_of a cx max_interactions batch_size checklist =
     \<lparr>be_clock = ba_clock a, be_judge = ba_judge a, be_feedback = ba_feedback a, be_timeout = cx_timeout cx,
      be_max_interactions = max_interactions, be_batch_size = batch_size, be_checklist = checklist\<rparr>"

text \<open>The result and the last state, which tells what happened to the runtime.\<close>

definition run_branch :: "branch_args \<Rightarrow> replay_context \<Rightarrow> pydict \<Rightarrow> int \<Rightarrow> pyexc + (pydict \<times> branch_state)" where
  "run_branch a cx replay_case max_interactions =
     (let query = str_field replay_case ''query''
      in bindE (normalize_case_checklist replay_case) (\<lambda>checklist.
         bindE (progressive_config replay_case) (\<lambda>config.
           let batch_size = (case dget_none config ''batch_size'' of PInt n \<Rightarrow> n | _ \<Rightarrow> 0);
               e = branch_env_of a cx max_interactions batch_size checklist;
               (r, s) = branch_body e (ba_open a) (initial_branch_state query (ba_session a));
               result = branch_outcome r s (result_so_far (ba_hash a) cx query max_interactions s);
               (c, s') = close_session s;
               elapsed = ba_clock a (bs_reads s') - ba_clock a 0
           in Inr (dmerge (cleanup_outcome c result) (final_metrics elapsed s'), s'))))"

end
