(* ===== verification/ReplayEngine.thy ===== *)
theory ReplayEngine imports ReplayBranch begin

text \<open>
  The evaluation of a replay job: the members of a treatment (team\_replay/artifacts.py), the
  contexts of the two branches, the pair of branches and the decision over all cases
  (team\_replay/engine.py). The host is an argument: source sessions, snapshots, the factory,
  the static validation, the clock of each branch, the ids of the requests. So are the
  judge and the simulated user, the texts of trajectories, and the paths a query refers to,
  which the code finds by regular expressions over Chinese punctuation and looks up on disk.
  The two branches run concurrently on sessions of their own; their results are taken in the
  order baseline, candidate, one of the two orders \<open>as_completed\<close> may give.
\<close>

section \<open>Treatments\<close>

definition artifact_error :: "string \<Rightarrow> pyexc" where
  "artifact_error msg = PyExc ''ReplayArtifactError'' msg"

abbreviation unsupported :: "string \<Rightarrow> pyexc" where
  "unsupported msg \<equiv> PyExc ''ReplayUnsupported'' msg"

definition member_name :: "pydict \<Rightarrow> string" where
  "member_name d = py_strip (str_field d ''name'')"

definition skill_treatment_members :: "pyval \<Rightarrow> pyexc + pydict list" where
  "skill_treatment_members treatment =
     (if \<not> truthy treatment then Inr []
      else case treatment of
        PDict t \<Rightarrow>
          (case dget_none t ''skills'' of
             PList raw \<Rightarrow>
               let members = [d. PDict d \<leftarrow> raw]; names = map member_name members
               in if length members \<noteq> length raw then Inl (artifact_error ''Skill set members must be objects'')
                  else if members = [] then Inl (artifact_error ''Skill set must contain at least one Skill'')
                  else if '''' \<in> set names then Inl (artifact_error ''Every Skill set member requires a name'')
                  else if \<not> distinct names then Inl (artifact_error ''Skill set member names must be unique'')
                  else Inr members
           | _ \<Rightarrow> Inr [t])
      | _ \<Rightarrow> Inl attribute_error)"

definition requested_skills :: "pydict \<Rightarrow> pyexc + string list" where
  "requested_skills c =
     bindE (py_iter (py_or (dget_none c ''skill_ids'') (PList []))) (\<lambda>items.
       Inr (sort (remdups (filter (\<lambda>s. s \<noteq> '''') (map (\<lambda>v. py_strip (py_str (py_or v (PStr '''')))) items)))))"

text \<open>\<open>None\<close> is no skill; a skill is an object.\<close>

definition treatment_for_case :: "pyval \<Rightarrow> pydict \<Rightarrow> pyexc + pyval" where
  "treatment_for_case treatment c =
     bindE (skill_treatment_members treatment) (\<lambda>members.
     bindE (requested_skills c) (\<lambda>requested.
       if requested = [] \<or> members = [] then Inr treatment
       else
         let selected = filter (\<lambda>d. str_field d ''name'' \<in> set requested) members;
             missing = filter (\<lambda>r. r \<notin> set (map (\<lambda>d. str_field d ''name'') selected)) requested
         in if missing \<noteq> []
            then Inl (unsupported (''Replay Case references unavailable Skills: '' @ join_with '', '' missing))
            else (case selected of
                    [d] \<Rightarrow> Inr (PDict d)
                  | _ \<Rightarrow> Inr (PDict [(''kind'', PStr ''skill_set''), (''skills'', PList (map PDict selected))]))))"

section \<open>Contexts\<close>

text \<open>\<open>v or {}\<close>, read with \<open>get\<close>: any truthy value that is no object raises.\<close>

definition get_in :: "pydict \<Rightarrow> string \<Rightarrow> string \<Rightarrow> pyexc + pyval" where
  "get_in d k k' = py_get (py_or (dget_none d k) (PDict [])) k'"

definition source_runtime_type :: "pydict \<Rightarrow> pyexc + string" where
  "source_runtime_type source =
     bindE (get_in source ''runtime'' ''type'') (\<lambda>t.
       Inr (py_lower (py_strip (py_str (py_or (py_or t (dget_none source ''source'')) (PStr ''''))))))"

text \<open>\<open>v == n\<close> for a number \<open>n\<close>.\<close>

definition equals_int :: "pyval \<Rightarrow> int \<Rightarrow> bool" where
  "equals_int v n =
     (case v of PInt i \<Rightarrow> i = n | PBool b \<Rightarrow> (if b then 1 else 0) = n | PFloat f \<Rightarrow> f = Fin (of_int n) | _ \<Rightarrow> False)"

fun find_turn :: "int \<Rightarrow> pyval list \<Rightarrow> pyexc + pydict" where
  "find_turn n [] = Inr []"
| "find_turn n (t # ts) =
     (case t of
        PDict d \<Rightarrow> if equals_int (dget_none d ''turn_num'') n then Inr d else find_turn n ts
      | _ \<Rightarrow> Inl attribute_error)"

record replay_factory =
  fa_revision :: pyval
  fa_open :: "replay_context \<Rightarrow> pyexc + (nat \<times> replay_session)"

record replay_host =
  ho_job :: "string \<Rightarrow> pyexc + pydict option"
  ho_source :: "string \<Rightarrow> pyexc + pydict option"
  ho_snapshot :: "string \<Rightarrow> pydict \<Rightarrow> pyexc + pydict option"
  ho_factory :: "string \<Rightarrow> pydict \<Rightarrow> pyexc + replay_factory option"
  ho_validate :: "pyval \<Rightarrow> pyexc + pydict"
  ho_clock :: "int \<Rightarrow> string \<Rightarrow> nat \<Rightarrow> rat"
  ho_request_id :: "int \<Rightarrow> string \<Rightarrow> string"
  ho_hash :: "pyval \<Rightarrow> string"
  ho_judge :: "pydict list \<Rightarrow> pydict list \<Rightarrow> pyval list \<Rightarrow> pyval list \<Rightarrow> pyexc + pydict"
  ho_feedback :: "string \<Rightarrow> pyval list \<Rightarrow> pydict list \<Rightarrow> string list \<Rightarrow> nat \<Rightarrow> pyexc + string"
  ho_trajectory :: "pyval list \<Rightarrow> pyexc + string"
  ho_paths :: "string \<Rightarrow> pydict list \<Rightarrow> pyval list \<times> pyval list"

definition recorded_snapshot_id :: "pydict \<Rightarrow> pydict \<Rightarrow> pyexc + string" where
  "recorded_snapshot_id provenance source =
     bindE (py_int (py_or (dget_none provenance ''turn_num'') (PInt 0))) (\<lambda>n.
     bindE (py_iter (py_or (dget_none source ''turns'') (PList []))) (\<lambda>turns.
     bindE (find_turn n turns) (\<lambda>turn.
     bindE (get_in turn ''context_usage'' ''context_snapshot_id'') (\<lambda>v.
       Inr (py_str (py_or v (PStr '''')))))))"

definition snapshot_of :: "replay_host \<Rightarrow> pydict \<Rightarrow> pydict \<Rightarrow> pyexc + pydict" where
  "snapshot_of h c source =
     (let provenance = as_dict (dget_none c ''provenance'')
      in case dget_none provenance ''context_snapshot'' of
           PDict d \<Rightarrow> Inr d
         | _ \<Rightarrow>
             bindE (if str_field provenance ''context_snapshot_id'' \<noteq> ''''
                    then Inr (str_field provenance ''context_snapshot_id'')
                    else recorded_snapshot_id provenance source) (\<lambda>i.
               if i = '''' then Inr []
               else bindE (ho_snapshot h i source) (\<lambda>found.
                 case found of
                   Some d \<Rightarrow> Inr d
                 | None \<Rightarrow> Inl (unsupported ''Recorded Context snapshot is unavailable to this tenant/user''))))"

definition make_context ::
  "string \<Rightarrow> string \<Rightarrow> pyval \<Rightarrow> pydict \<Rightarrow> pydict \<Rightarrow> int \<Rightarrow> pydict \<Rightarrow> pyexc + replay_context" where
  "make_context request_id branch skill c source timeout snapshot =
     bindE (source_runtime_type source) (\<lambda>runtime.
     bindE (py_iter (py_or (dget_none c ''materials'') (PList []))) (\<lambda>materials.
     bindE (get_in c ''provenance'' ''turn_num'') (\<lambda>turn.
     bindE (py_int (py_or turn (PInt 1))) (\<lambda>n.
       Inr \<lparr>cx_branch = branch, cx_runtime_type = runtime, cx_request_id = request_id,
            cx_snapshot = PDict snapshot, cx_materials = materials,
            cx_timeout = max 1 (min 1800 timeout),
            cx_skill = (case skill of PDict d \<Rightarrow> Some d | _ \<Rightarrow> None),
            cx_source = source, cx_turn_num = max 1 n\<rparr>))))"

section \<open>The pair of branches\<close>

type_synonym open_sessions = "(string \<times> nat \<times> replay_session) list"

definition open_branch :: "replay_factory \<Rightarrow> replay_context \<Rightarrow> open_sessions \<Rightarrow> pyexc + open_sessions" where
  "open_branch f cx sessions =
     bindE (fa_open f cx) (\<lambda>(i, se).
       if i \<in> set (map (fst \<circ> snd) sessions) then Inl (unsupported ''factory reused a Session across A/B branches'')
       else if \<not> session_ready (Some se) then Inl (PyExc ''TypeError'' ''factory must return a Session with send and close'')
       else Inr (sessions @ [(cx_branch cx, i, se)]))"

text \<open>The sessions open when the loop ends, and the exception that ended it.\<close>

fun open_pair :: "replay_factory \<Rightarrow> replay_context list \<Rightarrow> open_sessions \<Rightarrow> pyexc option \<times> open_sessions" where
  "open_pair f [] sessions = (None, sessions)"
| "open_pair f (cx # cxs) sessions =
     (case open_branch f cx sessions of
        Inl e \<Rightarrow> (Some e, sessions)
      | Inr sessions' \<Rightarrow> open_pair f cxs sessions')"

definition unsupported_result :: "pyexc \<Rightarrow> string \<Rightarrow> pydict" where
  "unsupported_result e branch =
     [(''branch'', PStr branch), (''ok'', PBool False), (''status'', PStr ''unsupported''),
      (''error_code'', PStr ''REPLAY_UNSUPPORTED''), (''error'', PStr (exc_text e)),
      (''checklist_report'', PDict [(''judge'', PStr ''unavailable''), (''all_satisfied'', PBool False)])]"

definition pair_args :: "replay_host \<Rightarrow> int \<Rightarrow> open_sessions \<Rightarrow> string \<Rightarrow> branch_args" where
  "pair_args h index sessions branch =
     \<lparr>ba_clock = ho_clock h index branch, ba_hash = ho_hash h, ba_judge = ho_judge h, ba_feedback = ho_feedback h,
      ba_open = Inr None, ba_session = map_option snd (map_of sessions branch)\<rparr>"

definition branch_run ::
  "replay_host \<Rightarrow> int \<Rightarrow> open_sessions \<Rightarrow> pydict \<Rightarrow> int \<Rightarrow> replay_context \<Rightarrow> pyexc + (string \<times> pydict \<times> branch_state)" where
  "branch_run h index sessions c max_interactions cx =
     bindE (run_branch (pair_args h index sessions (cx_branch cx)) cx c max_interactions)
       (\<lambda>(d, s). Inr (cx_branch cx, d, s))"

text \<open>
  The results by branch, and the identities of the sessions closed: all that were opened when
  the second cannot be opened, otherwise those whose branch closed them.
\<close>

definition execute_pair ::
  "replay_host \<Rightarrow> int \<Rightarrow> replay_factory \<Rightarrow> replay_context list \<Rightarrow> pydict \<Rightarrow> int \<Rightarrow>
   pyexc + ((string \<times> pydict) list \<times> nat list)" where
  "execute_pair h index f contexts c max_interactions =
     (case open_pair f contexts [] of
        (Some e, sessions) \<Rightarrow>
          Inr (map (\<lambda>cx. (cx_branch cx, unsupported_result e (cx_branch cx))) contexts, map (fst \<circ> snd) sessions)
      | (None, sessions) \<Rightarrow>
          bindE (mapE (branch_run h index sessions c max_interactions) contexts) (\<lambda>runs.
            Inr (map (\<lambda>(b, d, s). (b, d)) runs,
                 concat (map (\<lambda>(b, d, s). if bs_closes s = 0 then []
                   else (case map_of sessions b of None \<Rightarrow> [] | Some (i, se) \<Rightarrow> [i])) runs))))"

section \<open>Cases\<close>

definition annotate_case :: "replay_host \<Rightarrow> int \<Rightarrow> pyval \<Rightarrow> pyexc + pydict" where
  "annotate_case h index raw =
     (case raw of
        PDict c \<Rightarrow>
          bindE (normalize_case_checklist c) (\<lambda>checklist.
          bindE (progressive_config c) (\<lambda>disclosure.
          bindE (py_iter (py_or (dget_none c ''materials'') (PList []))) (\<lambda>raw_materials.
            let query = initial_query c; provenance = as_dict (dget_none c ''provenance'');
                metadata = as_dict (dget_none c ''metadata'');
                materials = [d. PDict d \<leftarrow> raw_materials, truthy (dget_none d ''path'')];
                (referenced, missing) = ho_paths h query materials
            in Inr (dmerge c
                 [(''index'', PInt index), (''query'', PStr query), (''checks'', PList (map PDict checklist)),
                  (''provenance'', PDict provenance),
                  (''replay'', PDict [(''progressive_disclosure'', PDict disclosure)]),
                  (''evaluation_profile'', PStr (str_field metadata ''evaluation_profile'')),
                  (''source_runtime'', PDict (as_dict (dget_none provenance ''source_runtime''))),
                  (''source_runtime_context'', PDict (as_dict (dget_none provenance ''source_runtime_context''))),
                  (''context_snapshot_id'', PStr (str_field provenance ''context_snapshot_id'')),
                  (''had_tool_calls'', PBool (truthy (dget_none metadata ''had_tool_calls''))),
                  (''materials'', PList (map PDict materials)), (''referenced_paths'', PList referenced),
                  (''missing_paths'', PList missing), (''grounded'', PBool (referenced \<noteq> [] \<and> missing = [])),
                  (''runnable'', PBool (missing = []))]))))
      | _ \<Rightarrow> Inl attribute_error)"

definition annotate_cases :: "replay_host \<Rightarrow> pydict \<Rightarrow> pyexc + pydict list" where
  "annotate_cases h job =
     bindE (py_iter (py_or (dget_none job ''replay_cases'') (PList []))) (\<lambda>raws.
       mapE (\<lambda>(i, raw). annotate_case h (int i) raw) (enumerate 0 raws))"

definition branch_failure :: "string \<times> pydict \<Rightarrow> string list" where
  "branch_failure = (\<lambda>(b, d). if truthy (dget_none d ''ok'') then []
     else [b @ '': '' @ py_str (dget_or d ''error'' (PStr ''branch failed''))])"

definition failed_policy :: pydict where
  "failed_policy = [(''accepted'', PBool False), (''verdict'', PStr ''inconclusive''), (''no_regression'', PBool False),
     (''decision_basis'', PStr ''branch_failure'')]"

text \<open>\<open>results[branch]\<close>, of a pair that has both.\<close>

definition of_branch :: "(string \<times> pydict) list \<Rightarrow> string \<Rightarrow> pydict" where
  "of_branch rs b = (case map_of rs b of None \<Rightarrow> [] | Some d \<Rightarrow> d)"

definition case_branch :: "replay_host \<Rightarrow> pydict \<Rightarrow> (string \<times> pydict) list \<Rightarrow> string \<times> pydict \<Rightarrow> pyexc + (string \<times> pyval)" where
  "case_branch h c checklists = (\<lambda>(b, d).
     bindE (get_in c ''provenance'' ''session_id'') (\<lambda>sid.
     bindE (get_in c ''provenance'' ''turn_num'') (\<lambda>turn.
     bindE (py_iter (py_or (dget_none d ''messages'') (PList []))) (\<lambda>messages.
     bindE (ho_trajectory h messages) (\<lambda>trajectory.
       Inr (b, PDict (dmerge d
         [(''checklist_report'', PDict (of_branch checklists b)),
          (''instruction'', dget_none c ''query''), (''session_id'', sid), (''turn_num'', turn),
          (''trajectory'', PStr trajectory)])))))))"

text \<open>\<open>case["checks"]\<close> and \<open>case["index"]\<close> of an annotated case.\<close>

definition case_checks :: "pydict \<Rightarrow> pydict list" where
  "case_checks c = [d. PDict d \<leftarrow> as_list (dget_none c ''checks'')]"

definition branch_checklist :: "pydict \<Rightarrow> string \<times> pydict \<Rightarrow> pyexc + (string \<times> pydict)" where
  "branch_checklist c = (\<lambda>(b, d). bindE (normalize_checklist_report d (case_checks c)) (\<lambda>r. Inr (b, r)))"

definition case_index :: "pydict \<Rightarrow> int" where
  "case_index c = (case dget_none c ''index'' of PInt i \<Rightarrow> i | _ \<Rightarrow> 0)"

definition branch_context ::
  "replay_host \<Rightarrow> pydict \<Rightarrow> pydict \<Rightarrow> pydict \<Rightarrow> int \<Rightarrow> pydict \<Rightarrow> string \<Rightarrow> pyexc + replay_context" where
  "branch_context h job c source timeout snapshot b =
     bindE (if b = ''baseline'' then Inr (dget_none job ''current_skill'')
            else (case dget job ''candidate_skill'' of None \<Rightarrow> Inl (PyExc ''KeyError'' '''') | Some v \<Rightarrow> Inr v))
       (\<lambda>treatment.
     bindE (treatment_for_case treatment c) (\<lambda>skill.
       make_context (ho_request_id h (case_index c) b) b skill c source timeout snapshot))"

definition job_contexts ::
  "replay_host \<Rightarrow> pydict \<Rightarrow> pydict \<Rightarrow> pydict \<Rightarrow> int \<Rightarrow> pydict \<Rightarrow> pyexc + replay_context list" where
  "job_contexts h job c source timeout snapshot =
     mapE (branch_context h job c source timeout snapshot) [''baseline'', ''candidate'']"

definition case_output ::
  "string \<Rightarrow> pydict \<Rightarrow> replay_factory \<Rightarrow> int \<Rightarrow> string list \<Rightarrow> pydict \<Rightarrow> pydict \<Rightarrow> (string \<times> pydict) list \<Rightarrow>
   (string \<times> pyval) list \<Rightarrow> string \<Rightarrow> pydict" where
  "case_output job_id c f max_interactions failures policy efficiency checklists branches runtime =
     [(''status'', PStr (if failures \<noteq> [] then ''failed'' else ''evaluated'')),
      (''mode'', PStr ''true_replay''), (''job_id'', PStr job_id),
      (''accepted'', dget_none policy ''accepted''), (''verdict'', dget_none policy ''verdict''),
      (''no_regression'', dget_none policy ''no_regression''), (''decision_policy'', PDict policy),
      (''efficiency'', PDict efficiency),
      (''checklist'', PDict (map (\<lambda>(b, r). (b, PDict r)) checklists)),
      (''reason'', if failures \<noteq> [] then PStr (join_with ''; '' failures)
                   else dget_or policy ''decision_basis'' (PStr '''')),
      (''adapter_revision'', fa_revision f), (''runtime_type'', PStr runtime),
      (''case_count'', PInt 1), (''case'', PDict [(''index'', PInt (case_index c))]),
      (''max_interactions'', PInt max_interactions),
      (''progressive_disclosure'', dget_none (as_dict (dget_none c ''replay'')) ''progressive_disclosure''),
      (''cases'', PList [PDict branches])]"

definition evaluate_case ::
  "replay_host \<Rightarrow> string \<Rightarrow> pydict \<Rightarrow> pydict \<Rightarrow> pydict \<Rightarrow> replay_factory \<Rightarrow> int \<Rightarrow> int \<Rightarrow> pyexc + pydict" where
  "evaluate_case h job_id job c source f timeout max_interactions =
     bindE (snapshot_of h c source) (\<lambda>snapshot.
     bindE (job_contexts h job c source timeout snapshot) (\<lambda>contexts.
     bindE (execute_pair h (case_index c) f contexts c max_interactions) (\<lambda>pair.
     let results = fst pair; failures = concat (map branch_failure results) in
     bindE (mapE (branch_checklist c) results) (\<lambda>checklists.
     bindE (compare_efficiency (of_branch results ''baseline'') (of_branch results ''candidate'')) (\<lambda>efficiency.
     bindE (progressive_replay_decision efficiency (of_branch checklists ''baseline'') (of_branch checklists ''candidate''))
       (\<lambda>decision.
     bindE (mapE (case_branch h c checklists) results) (\<lambda>branches.
     bindE (source_runtime_type source) (\<lambda>runtime.
       Inr (case_output job_id c f max_interactions failures
              (if failures \<noteq> [] then dmerge decision failed_policy else decision)
              efficiency checklists branches runtime)))))))))"

section \<open>Jobs\<close>

text \<open>\<open>{**a, **v}\<close>: only an object can be spread.\<close>

definition merge_value :: "pydict \<Rightarrow> pyval \<Rightarrow> pyexc + pydict" where
  "merge_value a v = (case v of PDict d \<Rightarrow> Inr (dmerge a d) | _ \<Rightarrow> Inl type_error)"

definition case_source :: "replay_host \<Rightarrow> pydict \<Rightarrow> pyexc + pydict" where
  "case_source h c =
     (let provenance = as_dict (dget_none c ''provenance''); sid = str_field provenance ''session_id''
      in bindE (if sid = '''' then Inr None else ho_source h sid) (\<lambda>found.
         let loaded = (case found of None \<Rightarrow> [] | Some d \<Rightarrow> d);
             s0 = (if dget loaded ''session_id'' = None
                   then dput ''session_id'' (dget_none provenance ''session_id'') loaded else loaded)
         in bindE (merge_value (as_dict (dget_none c ''source_runtime'')) (dget_or s0 ''runtime'' (PDict [])))
              (\<lambda>runtime. let s1 = dput ''runtime'' (PDict runtime) s0 in
            bindE (merge_value (as_dict (dget_none c ''source_runtime_context''))
                     (dget_or s1 ''runtime_context'' (PDict []))) (\<lambda>context.
              Inr (dput ''runtime_context'' (PDict context) s1)))))"

definition require_replayable :: "pydict \<Rightarrow> pyexc + unit" where
  "require_replayable source =
     (if dget_none source ''source'' = PStr ''managed_agent_candidate_audit'' \<or>
         truthy (dget_none (as_dict (dget_none source ''runtime_context'')) ''candidate_job_id'')
      then Inl (unsupported ''candidate-audit sessions cannot be Replay sources'')
      else bindE (source_runtime_type source) (\<lambda>runtime.
        if runtime = '''' then Inl (unsupported ''Test Dataset must specify source_runtime.type'') else Inr ()))"

definition resolve_factory :: "replay_host \<Rightarrow> pydict \<Rightarrow> pyexc + replay_factory" where
  "resolve_factory h source =
     bindE (source_runtime_type source) (\<lambda>runtime.
     bindE (ho_factory h runtime source) (\<lambda>found.
       case found of
         None \<Rightarrow> Inl (unsupported ''No available Replay adapter bound to this tenant'')
       | Some f \<Rightarrow> Inr f))"

text \<open>
  The \<open>try\<close> block of one case, with the factory kept from the case that resolved it: a case
  that fails later has already bound it for the next ones.
\<close>

definition run_case ::
  "replay_host \<Rightarrow> string \<Rightarrow> pydict \<Rightarrow> int \<Rightarrow> int \<Rightarrow> pydict \<Rightarrow> replay_factory option \<Rightarrow>
   (pyexc + pydict) \<times> replay_factory option" where
  "run_case h job_id job timeout max_interactions c =
     bindS (liftS (case_source h c)) (\<lambda>source.
     bindS (liftS (require_replayable source)) (\<lambda>_.
     bindS (\<lambda>bound. case bound of
              Some f \<Rightarrow> (Inr f, bound)
            | None \<Rightarrow> (case resolve_factory h source of
                Inl e \<Rightarrow> (Inl e, None)
              | Inr f \<Rightarrow> (Inr f, Some f))) (\<lambda>f.
       liftS (evaluate_case h job_id job c source f timeout (max 1 (min 20 max_interactions))))))"

definition failed_output :: "string \<Rightarrow> pyexc \<Rightarrow> pydict" where
  "failed_output job_id e =
     [(''status'', PStr (if exc_class e \<in> {''ReplayUnsupported'', ''AdapterError''} then ''skipped'' else ''failed'')),
      (''mode'', PStr ''true_replay''), (''accepted'', PBool False), (''verdict'', PStr ''inconclusive''),
      (''no_regression'', PBool False), (''job_id'', PStr job_id), (''reason'', PStr (exc_text e)),
      (''case_count'', PInt 0), (''cases'', PList [])]"

fun run_cases ::
  "replay_host \<Rightarrow> string \<Rightarrow> pydict \<Rightarrow> int \<Rightarrow> int \<Rightarrow> pydict list \<Rightarrow> replay_factory option \<Rightarrow> (string \<times> pydict) list" where
  "run_cases h job_id job timeout m [] bound = []"
| "run_cases h job_id job timeout m (c # cs) bound =
     (let (r, bound') = run_case h job_id job timeout m c bound
      in (int_str (case_index c), case r of Inl e \<Rightarrow> failed_output job_id e | Inr d \<Rightarrow> d) #
         run_cases h job_id job timeout m cs bound')"

definition static_rejection :: "string \<Rightarrow> pydict \<Rightarrow> pydict" where
  "static_rejection job_id validation =
     [(''status'', PStr ''evaluated''), (''mode'', PStr ''true_replay''), (''job_id'', PStr job_id),
      (''accepted'', PBool False), (''verdict'', PStr ''reject''), (''no_regression'', PBool False),
      (''static_validation'', PDict validation),
      (''reason'', PStr ''candidate bundle failed deterministic static checks''), (''cases'', PList [])]"

definition nothing_to_replay :: "string \<Rightarrow> pydict" where
  "nothing_to_replay job_id =
     [(''status'', PStr ''skipped''), (''mode'', PStr ''true_replay''), (''job_id'', PStr job_id),
      (''accepted'', PBool False), (''verdict'', PStr ''inconclusive''),
      (''reason'', PStr ''no matching Test Dataset''), (''cases'', PList [])]"

definition selected_cases :: "int option \<Rightarrow> pydict list \<Rightarrow> pydict list" where
  "selected_cases index cs =
     filter (\<lambda>c. truthy (dget_none c ''query'') \<and> (case index of None \<Rightarrow> True | Some i \<Rightarrow> case_index c = i)) cs"

definition evaluate_cases :: "replay_host \<Rightarrow> string \<Rightarrow> pydict \<Rightarrow> int \<Rightarrow> int \<Rightarrow> pydict list \<Rightarrow> pyexc + pydict" where
  "evaluate_cases h job_id job timeout max_interactions cs =
     (if cs = [] then Inr (nothing_to_replay job_id)
      else case run_cases h job_id job timeout max_interactions cs None of
             [(i, output)] \<Rightarrow> Inr output
           | outputs \<Rightarrow> bindE (aggregate_true_replay_windows outputs) (\<lambda>agg.
               Inr (dput ''job_id'' (PStr job_id) agg)))"

definition evaluate_selected ::
  "replay_host \<Rightarrow> string \<Rightarrow> pydict \<Rightarrow> int option \<Rightarrow> int \<Rightarrow> int \<Rightarrow> pyexc + pydict" where
  "evaluate_selected h job_id job index timeout max_interactions =
     bindE (annotate_cases h job) (\<lambda>annotated.
       evaluate_cases h job_id job timeout max_interactions (selected_cases index annotated))"

definition evaluate_found ::
  "replay_host \<Rightarrow> string \<Rightarrow> pydict \<Rightarrow> int option \<Rightarrow> int \<Rightarrow> int \<Rightarrow> pyexc + pydict" where
  "evaluate_found h job_id job index timeout max_interactions =
     bindE (ho_validate h (py_or (dget_none job ''candidate_skill'') (PDict []))) (\<lambda>validation.
       if \<not> truthy (dget_none validation ''passed'') then Inr (static_rejection job_id validation)
       else evaluate_selected h job_id job index timeout max_interactions)"

definition evaluate_job ::
  "replay_host \<Rightarrow> string \<Rightarrow> pydict option \<Rightarrow> int option \<Rightarrow> int \<Rightarrow> int \<Rightarrow> pyexc + pydict" where
  "evaluate_job h job_id given index timeout max_interactions =
     bindE (case given of Some job \<Rightarrow> Inr (Some job) | None \<Rightarrow> ho_job h job_id) (\<lambda>found.
       case found of
         None \<Rightarrow> Inr [(''status'', PStr ''not_found''), (''job_id'', PStr job_id)]
       | Some job \<Rightarrow> evaluate_found h job_id job index timeout max_interactions)"

end
