(* ===== verification/BranchProperties.thy ===== *)
theory BranchProperties imports ReplayBranch "HOL-Library.Sublist" begin

text \<open>
  What one replay branch does, whatever the runtime, the judge and the simulated user do:
  bounded turns, exactly one close, requests only as disclosed, metrics that are the sums of
  the turns, and completion only on evidence. The proofs go by triples over the statements
  of the branch.
\<close>

section \<open>Triples\<close>

text \<open>From a state with \<open>P\<close> a statement ends in \<open>Q\<close> with its value, or raises in \<open>E\<close>.\<close>

definition holdsS :: "('s \<Rightarrow> bool) \<Rightarrow> ('s \<Rightarrow> ('e + 'a) \<times> 's) \<Rightarrow> ('a \<Rightarrow> 's \<Rightarrow> bool) \<Rightarrow> ('s \<Rightarrow> bool) \<Rightarrow> bool" where
  "holdsS P m Q E \<longleftrightarrow>
     (\<forall>s. P s \<longrightarrow> (\<forall>e t. m s = (Inl e, t) \<longrightarrow> E t) \<and> (\<forall>x t. m s = (Inr x, t) \<longrightarrow> Q x t))"

lemma holdsS_I:
  "(\<And>s e t. P s \<Longrightarrow> m s = (Inl e, t) \<Longrightarrow> E t) \<Longrightarrow> (\<And>s x t. P s \<Longrightarrow> m s = (Inr x, t) \<Longrightarrow> Q x t) \<Longrightarrow>
   holdsS P m Q E"
  unfolding holdsS_def by blast

lemma holdsS_D:
  assumes "holdsS P m Q E" and "P s"
  shows "m s = (Inl e, t) \<Longrightarrow> E t" and "m s = (Inr x, t) \<Longrightarrow> Q x t"
  using assms unfolding holdsS_def by blast+

lemma bindS_Inl: "bindS m k s = (Inl e, t) \<longleftrightarrow> m s = (Inl e, t) \<or> (\<exists>x s1. m s = (Inr x, s1) \<and> k x s1 = (Inl e, t))"
  unfolding bindS_def by (cases "m s"; cases "fst (m s)") auto

lemma bindS_Inr: "bindS m k s = (Inr y, t) \<longleftrightarrow> (\<exists>x s1. m s = (Inr x, s1) \<and> k x s1 = (Inr y, t))"
  unfolding bindS_def by (cases "m s"; cases "fst (m s)") auto

lemma holdsS_bind:
  assumes "holdsS P m Q E" and "\<And>x. holdsS (Q x) (k x) R E"
  shows "holdsS P (bindS m k) R E"
  unfolding holdsS_def bindS_Inl bindS_Inr using holdsS_D [OF assms(1)] holdsS_D [OF assms(2)] by metis

lemma holdsS_lift: "(\<And>s. P s \<Longrightarrow> E s) \<Longrightarrow> holdsS P (liftS r) (\<lambda>x s. r = Inr x \<and> P s) E"
  unfolding holdsS_def liftS_def by simp

lemma holdsS_update: "(\<And>s. P s \<Longrightarrow> Q () (f s)) \<Longrightarrow> holdsS P (updateS f) Q E"
  unfolding holdsS_def updateS_def by simp

lemma holdsS_state: "(\<And>s. P s \<Longrightarrow> holdsS (\<lambda>t. t = s) m Q E) \<Longrightarrow> holdsS P m Q E"
  unfolding holdsS_def by blast

lemma holdsS_weaken: "holdsS P m Q E \<Longrightarrow> (\<And>s. P' s \<Longrightarrow> P s) \<Longrightarrow> (\<And>x s. Q x s \<Longrightarrow> Q' x s) \<Longrightarrow>
    (\<And>s. E s \<Longrightarrow> E' s) \<Longrightarrow> holdsS P' m Q' E'"
  unfolding holdsS_def by meson

section \<open>Metrics\<close>

definition prompt_of :: "pydict \<Rightarrow> string" where
  "prompt_of i = py_str (dget_none i ''prompt'')"

definition disclosed_message :: "pydict \<Rightarrow> string" where
  "disclosed_message d = py_str (dget_none d ''message'')"

definition turn_metric :: "string \<Rightarrow> pydict \<Rightarrow> pyval" where
  "turn_metric k i = dget_none (as_dict (dget_none i ''metrics'')) k"

text \<open>The sum over the turns, or unavailable as soon as one turn lacks the metric.\<close>

definition metric_sum :: "string \<Rightarrow> pydict list \<Rightarrow> pyval" where
  "metric_sum k is =
     (let vs = map (turn_metric k) is
      in if is = [] \<or> PStr unavailable \<in> set vs then PStr unavailable else foldl num_add (PInt 0) vs)"

definition available :: "string \<Rightarrow> pydict list \<Rightarrow> pyval list" where
  "available k is = filter (\<lambda>v. v \<noteq> PStr unavailable) (map (turn_metric k) is)"

definition totals_ok :: "branch_state \<Rightarrow> bool" where
  "totals_ok s \<longleftrightarrow> (\<forall>k\<in>set runtime_metrics.
     (k \<in> bs_unavailable s \<longleftrightarrow> PStr unavailable \<in> turn_metric k ` set (bs_interactions s)) \<and>
     dget (bs_totals s) k =
       (if available k (bs_interactions s) = [] then None
        else Some (foldl num_add (PInt 0) (available k (bs_interactions s)))))"

lemma totals_ok_sum:
  assumes "totals_ok s" and "k \<in> set runtime_metrics"
  shows "total_of s k = metric_sum k (bs_interactions s)"
proof (cases "PStr unavailable \<in> turn_metric k ` set (bs_interactions s)")
  case True
  then show ?thesis using assms
    by (auto simp: totals_ok_def total_of_def metric_sum_def Let_def split: option.splits)
next
  case False
  then have "available k (bs_interactions s) = map (turn_metric k) (bs_interactions s)"
    unfolding available_def filter_id_conv by (metis image_eqI image_set)
  with False show ?thesis using assms
    by (auto simp: totals_ok_def total_of_def metric_sum_def Let_def)
qed

lemma add_metrics:
  assumes "distinct ks"
  shows "\<exists>t u. fold (add_metric rm) ks s = s\<lparr>bs_totals := t, bs_unavailable := u\<rparr> \<and>
    u = bs_unavailable s \<union> {k \<in> set ks. dget rm k = None} \<and>
    (\<forall>k. dget t k = (if k \<in> set ks \<and> dget rm k \<noteq> None
       then Some (num_add (dget_or (bs_totals s) k (PInt 0)) (the (dget rm k))) else dget (bs_totals s) k))"
  using assms
proof (induction ks arbitrary: s)
  case Nil
  show ?case by (intro exI [of _ "bs_totals s"] exI [of _ "bs_unavailable s"]) simp
next
  case (Cons a ks)
  let ?s = "add_metric rm a s"
  from Cons.prems have "distinct ks" by simp
  from Cons.IH [OF this, of ?s] obtain t u
    where f: "fold (add_metric rm) ks ?s = ?s\<lparr>bs_totals := t, bs_unavailable := u\<rparr>"
    and u: "u = bs_unavailable ?s \<union> {k \<in> set ks. dget rm k = None}"
    and t: "\<forall>k. dget t k = (if k \<in> set ks \<and> dget rm k \<noteq> None
       then Some (num_add (dget_or (bs_totals ?s) k (PInt 0)) (the (dget rm k))) else dget (bs_totals ?s) k)"
    by (elim exE conjE)
  have "fold (add_metric rm) (a # ks) s = s\<lparr>bs_totals := t, bs_unavailable := u\<rparr>"
    using f by (simp add: add_metric_def split: option.splits)
  moreover have "u = bs_unavailable s \<union> {k \<in> set (a # ks). dget rm k = None}"
    using u by (auto simp: add_metric_def split: option.splits)
  moreover have "\<forall>k. dget t k = (if k \<in> set (a # ks) \<and> dget rm k \<noteq> None
       then Some (num_add (dget_or (bs_totals s) k (PInt 0)) (the (dget rm k))) else dget (bs_totals s) k)"
    using t Cons.prems by (auto simp: add_metric_def dget_dput dget_or_def split: option.splits)
  ultimately show ?case by blast
qed

lemma mapE_mem: "mapE f xs = Inr ys \<Longrightarrow> x \<in> set xs \<Longrightarrow> \<exists>y. f x = Inr y"
  by (induction xs arbitrary: ys) (auto simp: bindE_Inr_iff)

lemma runtime_metric_number:
  assumes "check_runtime_metric (k, v) = Inr u"
  shows "v \<noteq> PStr w"
  using assms by (auto simp: check_runtime_metric_def Let_def split: if_splits)

definition numeric_dict :: "pydict \<Rightarrow> bool" where
  "numeric_dict d \<longleftrightarrow> (\<forall>k v. dget d k = Some v \<longrightarrow> v \<noteq> PStr unavailable)"

lemma observation_numeric:
  assumes "validate_observation v = Inr ob"
  shows "numeric_dict (as_dict (ob_metrics ob))"
  unfolding numeric_dict_def
proof (intro allI impI)
  fix k x assume "dget (as_dict (ob_metrics ob)) k = Some x"
  then have mem: "(k, x) \<in> set (as_dict (ob_metrics ob))" by (simp add: dget_map_of map_of_SomeD)
  from assms obtain us where "mapE check_runtime_metric (as_dict (ob_metrics ob)) = Inr us"
    by (auto simp: validate_observation_def bindE_Inr_iff split: sent_value.splits if_splits)
  from mapE_mem [OF this mem] show "x \<noteq> PStr unavailable" by (auto dest: runtime_metric_number)
qed

lemma round_metrics_numeric:
  assumes "round_metrics ob = Inr rm" and "numeric_dict (as_dict (ob_metrics ob))"
  shows "numeric_dict rm"
proof -
  have put: "numeric_dict (dput k (PInt n) d)" if "numeric_dict d" for k n d
    using that unfolding numeric_dict_def dget_dput by auto
  show ?thesis using assms by (auto simp: round_metrics_def bindE_Inr_iff put split: if_splits)
qed

lemma dget_table: "dget (map (\<lambda>k. (k, f k)) ks) k = (if k \<in> set ks then Some (f k) else None)"
  by (induction ks) auto

lemma turn_metric_interaction:
  "k \<in> set runtime_metrics \<Longrightarrow> turn_metric k (interaction_of n p ob rm) = dget_or rm k (PStr unavailable)"
  by (simp add: turn_metric_def interaction_of_def as_dict_def dget_or_def [of "map _ _"] dget_table)

lemma prompt_interaction [simp]: "prompt_of (interaction_of n p ob rm) = p"
  by (simp add: prompt_of_def interaction_of_def)

lemma record_interaction_simps:
  "bs_interactions (record_interaction n ob rm s) = bs_interactions s @ [interaction_of n (bs_message s) ob rm]"
  "bs_sent (record_interaction n ob rm s) = bs_sent s" "bs_closes (record_interaction n ob rm s) = bs_closes s"
  "bs_completed (record_interaction n ob rm s) = bs_completed s" "bs_message (record_interaction n ob rm s) = bs_message s"
  "bs_disclosures (record_interaction n ob rm s) = bs_disclosures s"
  "bs_session (record_interaction n ob rm s) = bs_session s"
proof -
  have "distinct runtime_metrics" by (simp add: runtime_metrics_def)
  from add_metrics [OF this, of rm s] obtain t u
    where "fold (add_metric rm) runtime_metrics s = s\<lparr>bs_totals := t, bs_unavailable := u\<rparr>" by blast
  then show
    "bs_interactions (record_interaction n ob rm s) = bs_interactions s @ [interaction_of n (bs_message s) ob rm]"
    "bs_sent (record_interaction n ob rm s) = bs_sent s" "bs_closes (record_interaction n ob rm s) = bs_closes s"
    "bs_completed (record_interaction n ob rm s) = bs_completed s" "bs_message (record_interaction n ob rm s) = bs_message s"
    "bs_disclosures (record_interaction n ob rm s) = bs_disclosures s"
    "bs_session (record_interaction n ob rm s) = bs_session s"
    by (simp_all add: record_interaction_def Let_def)
qed

lemma record_interaction_totals:
  assumes "totals_ok s" and "numeric_dict rm"
  shows "totals_ok (record_interaction n ob rm s)"
proof -
  have d: "distinct runtime_metrics" by (simp add: runtime_metrics_def)
  let ?f = "fold (add_metric rm) runtime_metrics s" and ?i = "interaction_of n (bs_message s) ob rm"
  from add_metrics [OF d, of rm s] obtain t u where f: "?f = s\<lparr>bs_totals := t, bs_unavailable := u\<rparr>"
    and u: "u = bs_unavailable s \<union> {k \<in> set runtime_metrics. dget rm k = None}"
    and t: "\<And>k. dget t k = (if k \<in> set runtime_metrics \<and> dget rm k \<noteq> None
       then Some (num_add (dget_or (bs_totals s) k (PInt 0)) (the (dget rm k))) else dget (bs_totals s) k)" by blast
  have parts: "bs_unavailable (record_interaction n ob rm s) = u" "bs_totals (record_interaction n ob rm s) = t"
    by (simp_all add: record_interaction_def Let_def f)
  show ?thesis unfolding totals_ok_def parts record_interaction_simps(1)
  proof
    fix k assume k: "k \<in> set runtime_metrics"
    note m = turn_metric_interaction [OF k, of n "bs_message s" ob rm]
    note ok = assms(1) [unfolded totals_ok_def, rule_format, OF k]
    show "(k \<in> u \<longleftrightarrow> PStr unavailable \<in> turn_metric k ` set (bs_interactions s @ [?i])) \<and>
      dget t k = (if available k (bs_interactions s @ [?i]) = [] then None
        else Some (foldl num_add (PInt 0) (available k (bs_interactions s @ [?i]))))"
    proof (cases "dget rm k")
      case None
      with m k ok show ?thesis by (auto simp: u t available_def dget_or_def)
    next
      case (Some v)
      then have "v \<noteq> PStr unavailable" using assms(2) by (auto simp: numeric_dict_def)
      with Some m k ok show ?thesis by (auto simp: u t available_def dget_or_def)
    qed
  qed
qed

lemma record_report_simps:
  assumes "bs_interactions s \<noteq> []"
  shows "map prompt_of (bs_interactions (record_report r s)) = map prompt_of (bs_interactions s)"
    and "map (turn_metric k) (bs_interactions (record_report r s)) = map (turn_metric k) (bs_interactions s)"
    and "length (bs_interactions (record_report r s)) = length (bs_interactions s)"
proof -
  have same: "map f (bs_interactions (record_report r s)) = map f (bs_interactions s)"
    if "\<And>i. f (dput ''checklist_report'' (PDict r) i) = f i" for f :: "pydict \<Rightarrow> 'x"
  proof -
    have "map f (bs_interactions (record_report r s)) = map f (butlast (bs_interactions s) @ [last (bs_interactions s)])"
      by (simp add: record_report_def that)
    then show ?thesis using assms by simp
  qed
  show "map prompt_of (bs_interactions (record_report r s)) = map prompt_of (bs_interactions s)"
    "map (turn_metric k) (bs_interactions (record_report r s)) = map (turn_metric k) (bs_interactions s)"
    by (rule same; simp add: prompt_of_def turn_metric_def dget_or_dput)+
  show "length (bs_interactions (record_report r s)) = length (bs_interactions s)"
    using assms by (simp add: record_report_def)
qed

lemma totals_ok_cong:
  assumes "\<And>k. map (turn_metric k) (bs_interactions t) = map (turn_metric k) (bs_interactions s)"
    and "bs_totals t = bs_totals s" and "bs_unavailable t = bs_unavailable s"
  shows "totals_ok t = totals_ok s"
proof -
  have "turn_metric k ` set (bs_interactions t) = turn_metric k ` set (bs_interactions s)" for k
    using arg_cong [OF assms(1) [of k], of set] by simp
  then show ?thesis unfolding totals_ok_def available_def assms by simp
qed

section \<open>The loop\<close>

text \<open>The report is one the judge gave on the messages and artifacts recorded so far.\<close>

definition judged :: "branch_env \<Rightarrow> branch_state \<Rightarrow> bool" where
  "judged e s \<longleftrightarrow> bs_interactions s \<noteq> [] \<and> dget_none (bs_report s) ''judge'' \<noteq> PStr ''unavailable'' \<and>
     (\<exists>n r is. bs_report s = dput ''rounds'' (PInt n) r \<and>
        be_judge e (be_checklist e) is (bs_messages s) (bs_artifacts s) = Inr r)"

definition requests :: "string \<Rightarrow> branch_state \<Rightarrow> string list" where
  "requests q s = q # map disclosed_message (bs_disclosures s)"

definition prompts :: "branch_state \<Rightarrow> string list" where
  "prompts s = map prompt_of (bs_interactions s)"

definition branch_ok :: "branch_env \<Rightarrow> string \<Rightarrow> branch_state \<Rightarrow> bool" where
  "branch_ok e q s \<longleftrightarrow> bs_closes s = 0 \<and> totals_ok s \<and> prefix (prompts s) (bs_sent s) \<and>
     prefix (bs_sent s) (requests q s) \<and> (bs_sent s \<noteq> [] \<longrightarrow> session_ready (bs_session s)) \<and>
     (bs_completed s \<longrightarrow> judged e s \<and> truthy (dget_none (bs_report s) ''all_satisfied''))"

text \<open>
  Before a message is sent, when it has been sent, when its answer is recorded, and whenever
  the loop is left, by an exception or not.
\<close>

definition ready :: "branch_env \<Rightarrow> string \<Rightarrow> nat \<Rightarrow> branch_state \<Rightarrow> bool" where
  "ready e q k s \<longleftrightarrow> branch_ok e q s \<and> \<not> bs_completed s \<and> bs_sent s = prompts s \<and> length (prompts s) = k \<and>
     requests q s = bs_sent s @ [bs_message s] \<and> session_ready (bs_session s)"

definition asked :: "branch_env \<Rightarrow> string \<Rightarrow> nat \<Rightarrow> branch_state \<Rightarrow> bool" where
  "asked e q k s \<longleftrightarrow> branch_ok e q s \<and> \<not> bs_completed s \<and> bs_sent s = prompts s @ [bs_message s] \<and>
     length (prompts s) = k \<and> requests q s = bs_sent s"

definition answered :: "branch_env \<Rightarrow> string \<Rightarrow> nat \<Rightarrow> branch_state \<Rightarrow> bool" where
  "answered e q k s \<longleftrightarrow> branch_ok e q s \<and> \<not> bs_completed s \<and> bs_sent s = prompts s \<and> length (prompts s) = k \<and>
     requests q s = bs_sent s"

definition left_ok :: "branch_env \<Rightarrow> string \<Rightarrow> nat \<Rightarrow> branch_state \<Rightarrow> bool" where
  "left_ok e q n s \<longleftrightarrow> branch_ok e q s \<and> length (bs_sent s) \<le> n"

lemmas branch_phase_defs = ready_def asked_def answered_def left_ok_def branch_ok_def judged_def prompts_def requests_def

lemma phases_left:
  "ready e q k s \<Longrightarrow> k \<le> n \<Longrightarrow> left_ok e q n s"
  "asked e q k s \<Longrightarrow> Suc k \<le> n \<Longrightarrow> left_ok e q n s"
  "answered e q k s \<Longrightarrow> k \<le> n \<Longrightarrow> left_ok e q n s"
  by (simp_all add: ready_def asked_def answered_def left_ok_def)

lemma phases_reads:
  "totals_ok (s\<lparr>bs_reads := n\<rparr>) = totals_ok s"
  "ready e q k (s\<lparr>bs_reads := n\<rparr>) = ready e q k s" "asked e q k (s\<lparr>bs_reads := n\<rparr>) = asked e q k s"
  "answered e q k (s\<lparr>bs_reads := n\<rparr>) = answered e q k s" "left_ok e q k (s\<lparr>bs_reads := n\<rparr>) = left_ok e q k s"
  "judged e (s\<lparr>bs_reads := n\<rparr>) = judged e s"
proof -
  show t: "totals_ok (s\<lparr>bs_reads := n\<rparr>) = totals_ok s" by (rule totals_ok_cong) simp_all
  show "ready e q k (s\<lparr>bs_reads := n\<rparr>) = ready e q k s" "asked e q k (s\<lparr>bs_reads := n\<rparr>) = asked e q k s"
    "answered e q k (s\<lparr>bs_reads := n\<rparr>) = answered e q k s" "left_ok e q k (s\<lparr>bs_reads := n\<rparr>) = left_ok e q k s"
    "judged e (s\<lparr>bs_reads := n\<rparr>) = judged e s"
    by (simp_all add: branch_phase_defs t)
qed

lemma deadline_keeps:
  assumes "\<And>s n. P s \<Longrightarrow> P (s\<lparr>bs_reads := n\<rparr>)" and "\<And>s. P s \<Longrightarrow> E s" and "\<And>s n. E s \<Longrightarrow> E (s\<lparr>bs_reads := n\<rparr>)"
  shows "holdsS P (check_deadline e) (\<lambda>_. P) E"
  by (rule holdsS_I) (auto simp: check_deadline_def assms split: if_splits)

lemma send_asks:
  "holdsS (ready e q k) send_message (\<lambda>ob s. asked e q k s \<and> numeric_dict (as_dict (ob_metrics ob)))
     (left_ok e q (Suc k))"
proof (rule holdsS_I)
  have sent: "asked e q k (s\<lparr>bs_sent := bs_sent s @ [bs_message s]\<rparr>)" if "ready e q k s" for s
  proof -
    have "totals_ok (s\<lparr>bs_sent := bs_sent s @ [bs_message s]\<rparr>) = totals_ok s" by (rule totals_ok_cong) simp_all
    with that show ?thesis by (auto simp: ready_def asked_def branch_ok_def prompts_def requests_def)
  qed
  fix s t assume r: "ready e q k s"
  show "left_ok e q (Suc k) t" if "send_message s = (Inl x, t)" for x
    using that sent [OF r] by (auto simp: send_message_def Let_def intro: phases_left(2))
  show "asked e q k t \<and> numeric_dict (as_dict (ob_metrics ob))" if "send_message s = (Inr ob, t)" for ob
    using that sent [OF r] observation_numeric
    by (auto simp: send_message_def Let_def bindE_Inr_iff split: option.splits)
qed

lemma answer_recorded:
  "holdsS (\<lambda>s. asked e q k s \<and> numeric_dict rm) (updateS (record_interaction n ob rm)) (\<lambda>_. answered e q (Suc k)) E"
proof (rule holdsS_update)
  fix s assume "asked e q k s \<and> numeric_dict rm"
  then have a: "asked e q k s" and rm: "numeric_dict rm" by simp_all
  then have t: "totals_ok (record_interaction n ob rm s)"
    using record_interaction_totals [OF _ rm] by (simp add: asked_def branch_ok_def)
  show "answered e q (Suc k) (record_interaction n ob rm s)"
    using a t by (auto simp: asked_def answered_def branch_ok_def prompts_def requests_def record_interaction_simps)
qed

lemma report_recorded:
  assumes "answered e q (Suc k) s" and "be_judge e (be_checklist e) (bs_interactions s) (bs_messages s) (bs_artifacts s) = Inr r"
  shows "answered e q (Suc k) (record_report (dput ''rounds'' (PInt n) r) s)"
    and "dget_none r ''judge'' \<noteq> PStr ''unavailable'' \<Longrightarrow> judged e (record_report (dput ''rounds'' (PInt n) r) s)"
proof -
  let ?t = "record_report (dput ''rounds'' (PInt n) r) s"
  have ne: "bs_interactions s \<noteq> []" using assms(1) by (auto simp: answered_def prompts_def)
  note simps = record_report_simps [OF ne]
  have "totals_ok ?t = totals_ok s" by (rule totals_ok_cong) (simp_all only: simps, simp_all add: record_report_def)
  then show "answered e q (Suc k) ?t"
    using assms(1) unfolding answered_def branch_ok_def prompts_def requests_def simps by (simp add: record_report_def)
  have "bs_report ?t = dput ''rounds'' (PInt n) r" "bs_messages ?t = bs_messages s" "bs_artifacts ?t = bs_artifacts s"
    "bs_interactions ?t \<noteq> []" by (simp_all add: record_report_def)
  with assms(2) show "judged e ?t" if "dget_none r ''judge'' \<noteq> PStr ''unavailable''"
    unfolding judged_def using that by (auto simp: dget_or_dput)
qed

lemma judge_reports:
  "holdsS (answered e q (Suc k)) (judge_turn e n)
     (\<lambda>report s. answered e q (Suc k) s \<and> judged e s \<and> bs_report s = report) (left_ok e q (Suc k))"
proof (rule holdsS_I)
  fix s t assume a: "answered e q (Suc k) s"
  let ?j = "be_judge e (be_checklist e) (bs_interactions s) (bs_messages s) (bs_artifacts s)"
  have lost: "left_ok e q (Suc k) (u\<lparr>bs_judge_lost := True\<rparr>)" if "answered e q (Suc k) u" for u
  proof -
    have "totals_ok (u\<lparr>bs_judge_lost := True\<rparr>) = totals_ok u" by (rule totals_ok_cong) simp_all
    with that phases_left(3) [OF that] show ?thesis by (simp add: branch_phase_defs)
  qed
  show "left_ok e q (Suc k) t" if "judge_turn e n s = (Inl x, t)" for x
  proof (cases ?j)
    case (Inl y)
    with that phases_left(3) [OF a] show ?thesis by (auto simp: judge_turn_def bindS_def liftS_def)
  next
    case (Inr r)
    with that lost [OF report_recorded(1) [OF a Inr]] show ?thesis
      by (auto simp: judge_turn_def bindS_def liftS_def updateS_def Let_def split: if_splits)
  qed
  show "answered e q (Suc k) t \<and> judged e t \<and> bs_report t = report" if j: "judge_turn e n s = (Inr report, t)" for report
  proof (cases ?j)
    case (Inl y)
    with j show ?thesis by (simp add: judge_turn_def bindS_def liftS_def)
  next
    case (Inr r)
    with j have "t = record_report (dput ''rounds'' (PInt (int n)) r) s" "report = dput ''rounds'' (PInt (int n)) r"
      "dget_none r ''judge'' \<noteq> PStr ''unavailable''"
      by (auto simp: judge_turn_def bindS_def liftS_def updateS_def Let_def dget_or_dput split: if_splits)
    with report_recorded [OF a Inr] show ?thesis by (simp add: record_report_def)
  qed
qed

lemma disclosed_next:
  assumes "answered e q (Suc k) s"
  shows "ready e q (Suc k) (disclose n sel m s)"
proof -
  have "totals_ok (disclose n sel m s) = totals_ok s" by (rule totals_ok_cong) (simp_all add: disclose_def Let_def)
  with assms show ?thesis
    by (auto simp: answered_def ready_def branch_ok_def prompts_def requests_def disclose_def disclosed_message_def Let_def)
qed

text \<open>The state in which the next request is chosen.\<close>

definition reported :: "branch_env \<Rightarrow> string \<Rightarrow> nat \<Rightarrow> pydict \<Rightarrow> branch_state \<Rightarrow> bool" where
  "reported e q k report s \<longleftrightarrow> answered e q (Suc k) s \<and> judged e s \<and> bs_report s = report"

lemma reported_left: "reported e q k report s \<Longrightarrow> left_ok e q (Suc k) s"
  unfolding reported_def by (blast intro: phases_left(3))

lemma completion_ok:
  assumes "reported e q k report s" and "truthy (dget_none report ''all_satisfied'')"
  shows "left_ok e q (Suc k) (s\<lparr>bs_completed := True\<rparr>)"
proof -
  have "totals_ok (s\<lparr>bs_completed := True\<rparr>) = totals_ok s" by (rule totals_ok_cong) simp_all
  with assms show ?thesis by (auto simp: reported_def branch_phase_defs)
qed

lemma deadline_reported:
  "holdsS (reported e q k report) (check_deadline e) (\<lambda>_. reported e q k report) (left_ok e q (Suc k))"
  by (rule deadline_keeps) (auto simp: reported_def phases_reads intro: phases_left(3))

lemma missing_requested:
  "holdsS (reported e q k report) (request_missing e n ob report)
     (\<lambda>go s. left_ok e q (Suc k) s \<and> (go \<longrightarrow> ready e q (Suc k) s)) (left_ok e q (Suc k))"
  (is "holdsS ?P _ ?Q ?E")
proof (rule holdsS_I)
  fix s t assume P: "?P s"
  then have told: "ready e q (Suc k) (disclose n sel m s)" for sel m
    unfolding reported_def by (blast intro: disclosed_next)
  note out = reported_left [OF P] told phases_left(1) [OF told]
  let ?sel = "select_disclosure_items (be_checklist e) report (bs_disclosed_ids s) (be_batch_size e)"
  show "?E t" if "request_missing e n ob report s = (Inl x, t)" for x
    using that out(1)
    by (cases ?sel) (auto simp: request_missing_def bindS_Inl liftS_def updateS_def split: if_splits)
  show "?Q go t" if "request_missing e n ob report s = (Inr go, t)" for go
    using that out
    by (cases ?sel) (auto simp: request_missing_def bindS_Inr liftS_def updateS_def split: if_splits)
qed

lemma request_chosen:
  "holdsS (reported e q k report) (next_request e n ob report)
     (\<lambda>go s. left_ok e q (Suc k) s \<and> (go \<longrightarrow> ready e q (Suc k) s)) (left_ok e q (Suc k))"
  (is "holdsS ?P _ ?Q ?E")
  unfolding next_request_def
proof (rule holdsS_bind [OF deadline_reported], rule holdsS_I)
  have rest: "holdsS ?P (bindS (check_deadline e) (\<lambda>_. request_missing e n ob report)) ?Q ?E"
    by (rule holdsS_bind [OF deadline_reported missing_requested])
  fix s t y x assume P: "?P s"
  let ?m = "\<lambda>s. if truthy (dget_none report ''all_satisfied'') then (Inr False, s\<lparr>bs_completed := True\<rparr>)
       else if int n \<ge> be_max_interactions e then (Inr False, s)
       else bindS (check_deadline e) (\<lambda>_. request_missing e n ob report) s"
  show "?E t" if "?m s = (Inl x, t)"
    using that holdsS_D(1) [OF rest P] by (simp split: if_splits)
  show "?Q y t" if "?m s = (Inr y, t)"
    using that holdsS_D(2) [OF rest P, of y t] completion_ok [OF P] reported_left [OF P]
    by (cases "truthy (dget_none report ''all_satisfied'')"; cases "int n \<ge> be_max_interactions e") simp_all
qed

lemma turn_taken:
  "holdsS (ready e q k) (branch_turn e n)
     (\<lambda>go s. left_ok e q (Suc k) s \<and> (go \<longrightarrow> ready e q (Suc k) s)) (left_ok e q (Suc k))"
  unfolding branch_turn_def
proof (rule holdsS_bind)
  show "holdsS (ready e q k) (check_deadline e) (\<lambda>_. ready e q k) (left_ok e q (Suc k))"
    by (rule deadline_keeps) (auto simp: phases_reads intro: phases_left(1))
next
  fix u :: unit
  let ?E = "left_ok e q (Suc k)" and ?A = "\<lambda>ob s. asked e q k s \<and> numeric_dict (as_dict (ob_metrics ob))"
  show "holdsS (ready e q k) (bindS send_message (\<lambda>ob. bindS (check_deadline e) (\<lambda>_. bindS (liftS (round_metrics ob))
      (\<lambda>rm. bindS (updateS (record_interaction n ob rm)) (\<lambda>_. bindS (judge_turn e n) (next_request e n ob))))))
     (\<lambda>go s. left_ok e q (Suc k) s \<and> (go \<longrightarrow> ready e q (Suc k) s)) ?E"
  proof (rule holdsS_bind [OF send_asks], rule holdsS_bind)
    fix ob :: observation
    show "holdsS (?A ob) (check_deadline e) (\<lambda>_. ?A ob) ?E"
      by (rule deadline_keeps) (auto simp: phases_reads intro: phases_left(2))
    have rm: "holdsS (?A ob) (liftS (round_metrics ob)) (\<lambda>rm s. asked e q k s \<and> numeric_dict rm) ?E"
      by (rule holdsS_weaken [OF holdsS_lift [of "?A ob" ?E]]) (auto intro: phases_left(2) round_metrics_numeric)
    have judge: "holdsS (answered e q (Suc k)) (bindS (judge_turn e n) (next_request e n ob))
        (\<lambda>go s. left_ok e q (Suc k) s \<and> (go \<longrightarrow> ready e q (Suc k) s)) ?E"
      by (rule holdsS_bind [OF judge_reports]) (rule request_chosen [unfolded reported_def])
    show "holdsS (?A ob) (bindS (liftS (round_metrics ob))
      (\<lambda>rm. bindS (updateS (record_interaction n ob rm)) (\<lambda>_. bindS (judge_turn e n) (next_request e n ob))))
      (\<lambda>go s. left_ok e q (Suc k) s \<and> (go \<longrightarrow> ready e q (Suc k) s)) ?E"
      by (rule holdsS_bind [OF rm], rule holdsS_bind [OF answer_recorded judge])
  qed
qed

lemma left_ok_mono: "left_ok e q k s \<Longrightarrow> k \<le> n \<Longrightarrow> left_ok e q n s"
  by (simp add: left_ok_def)

lemma turns_taken:
  "holdsS (ready e q k) (branch_turns e ts) (\<lambda>_. left_ok e q (k + length ts)) (left_ok e q (k + length ts))"
proof (induction ts arbitrary: k)
  case Nil
  show ?case by (rule holdsS_I) (auto intro: phases_left(1))
next
  case (Cons n ts)
  have step: "holdsS (\<lambda>s. left_ok e q (Suc k) s \<and> (go \<longrightarrow> ready e q (Suc k) s))
      (\<lambda>s. if go then branch_turns e ts s else (Inr (), s))
      (\<lambda>_. left_ok e q (k + length (n # ts))) (left_ok e q (k + length (n # ts)))" for go
    using Cons.IH [of "Suc k"] by (cases go) (auto simp: holdsS_def intro: left_ok_mono)
  have unfold: "branch_turns e (n # ts) =
      bindS (branch_turn e n) (\<lambda>go s. if go then branch_turns e ts s else (Inr (), s))"
    by (rule ext) simp
  show ?case unfolding unfold
    by (rule holdsS_bind [OF _ step], rule holdsS_weaken [OF turn_taken [of e q k n]]) (auto intro: left_ok_mono)
qed

lemma branch_initial: "left_ok e q n (initial_branch_state q ses)"
proof -
  have "totals_ok (initial_branch_state q ses)"
    by (simp add: totals_ok_def initial_branch_state_def available_def)
  then show ?thesis by (simp add: left_ok_def branch_ok_def prompts_def initial_branch_state_def)
qed

lemma branch_opened:
  assumes "session_ready ses'"
  shows "ready e q 0 (initial_branch_state q ses\<lparr>bs_session := ses'\<rparr>)"
proof -
  have "totals_ok (initial_branch_state q ses\<lparr>bs_session := ses'\<rparr>)"
    by (simp add: totals_ok_def initial_branch_state_def available_def)
  with assms show ?thesis
    by (simp add: ready_def branch_ok_def prompts_def requests_def initial_branch_state_def)
qed

lemma body_leaves:
  "branch_body e fo (initial_branch_state q ses) = (r, t) \<Longrightarrow> left_ok e q (length (turn_numbers (be_max_interactions e))) t"
  (is "?body = _ \<Longrightarrow> left_ok e q ?n t")
proof -
  assume body: "?body = (r, t)"
  let ?i = "initial_branch_state q ses"
  have opened: "left_ok e q ?n t"
    if "(if \<not> session_ready (bs_session (?i\<lparr>bs_session := ses'\<rparr>)) then (Inl x, ?i\<lparr>bs_session := ses'\<rparr>)
         else branch_turns e (turn_numbers (be_max_interactions e)) (?i\<lparr>bs_session := ses'\<rparr>)) = (r, t)" for ses' x
  proof (cases "session_ready ses'")
    case False
    have "totals_ok (?i\<lparr>bs_session := ses'\<rparr>) = totals_ok ?i" by (rule totals_ok_cong) simp_all
    with branch_initial [of e q ?n ses] have "left_ok e q ?n (?i\<lparr>bs_session := ses'\<rparr>)"
      by (simp add: left_ok_def branch_ok_def prompts_def requests_def initial_branch_state_def)
    with False that show ?thesis by auto
  next
    case True
    with that have "branch_turns e (turn_numbers (be_max_interactions e)) (?i\<lparr>bs_session := ses'\<rparr>) = (r, t)" by simp
    then show ?thesis
      using holdsS_D [OF turns_taken branch_opened [OF True, of e q ses]] by (cases r) auto
  qed
  have same: "?i\<lparr>bs_session := ses\<rparr> = ?i" and ses: "bs_session ?i = ses" by (simp_all add: initial_branch_state_def)
  show ?thesis
  proof (cases "py_strip (bs_message ?i) = '''' \<or> be_checklist e = []")
    case True
    with body branch_initial show ?thesis by (auto simp: branch_body_def)
  next
    case False
    show ?thesis
    proof (cases "ses = None")
      case True
      show ?thesis
      proof (cases fo)
        case (Inl x)
        with False True ses body have "t = ?i" by (auto simp: branch_body_def bindS_def liftS_def)
        then show ?thesis by (simp only: branch_initial)
      next
        case (Inr b)
        from body show ?thesis
          unfolding branch_body_def if_not_P [OF False] ses Inr if_P [OF True]
          by (intro opened [of b]) (simp add: bindS_def liftS_def updateS_def)
      qed
    next
      case given: False
      from body show ?thesis
        unfolding branch_body_def if_not_P [OF False] ses if_not_P [OF given]
        by (intro opened [of ses, unfolded same]) (simp add: bindS_def liftS_def ses)
    qed
  qed
qed

section \<open>Results\<close>

lemma run_branch_parts:
  assumes "run_branch a cx c m = Inr (result, s')"
  obtains checklist config n e r s cl where
    "normalize_case_checklist c = Inr checklist" "progressive_config c = Inr config"
    "e = branch_env_of a cx m n checklist"
    "branch_body e (ba_open a) (initial_branch_state (str_field c ''query'') (ba_session a)) = (r, s)"
    "close_session s = (cl, s')"
    "result = dmerge (cleanup_outcome cl (branch_outcome r s (result_so_far (ba_hash a) cx (str_field c ''query'') m s)))
       (final_metrics (ba_clock a (bs_reads s') - ba_clock a 0) s')"
proof -
  from assms obtain checklist config where k: "normalize_case_checklist c = Inr checklist"
    and g: "progressive_config c = Inr config"
    by (auto simp: run_branch_def bindE_Inr_iff Let_def)
  define n where "n = (case dget_none config ''batch_size'' of PInt i \<Rightarrow> i | _ \<Rightarrow> 0)"
  obtain r s where b: "branch_body (branch_env_of a cx m n checklist) (ba_open a)
      (initial_branch_state (str_field c ''query'') (ba_session a)) = (r, s)" by fastforce
  obtain cl t where cl: "close_session s = (cl, t)" by fastforce
  from assms have "s' = t"
    "result = dmerge (cleanup_outcome cl (branch_outcome r s (result_so_far (ba_hash a) cx (str_field c ''query'') m s)))
       (final_metrics (ba_clock a (bs_reads t) - ba_clock a 0) t)"
    by (auto simp: run_branch_def Let_def k g b cl simp flip: n_def)
  with that [OF k g refl b] cl show thesis by simp
qed

lemma close_session_keeps:
  assumes "close_session s = (cl, t)"
  shows "bs_sent t = bs_sent s" "bs_interactions t = bs_interactions s" "bs_disclosures t = bs_disclosures s"
    "bs_report t = bs_report s" "bs_session t = bs_session s" "total_of t k = total_of s k"
    "bs_completed t = bs_completed s" "bs_closes t = bs_closes s + (if session_ready (bs_session s) then 1
       else bs_closes t - bs_closes s)" "bs_closes t \<le> bs_closes s + 1"
  using assms by (auto simp: close_session_def total_of_def session_ready_def split: option.splits)

lemma turn_numbers_length: "length (turn_numbers m) = nat (max 1 (min 20 m))"
  by (simp add: turn_numbers_def)

lemma env_of_simps [simp]:
  "be_max_interactions (branch_env_of a cx m n k) = m" "be_checklist (branch_env_of a cx m n k) = k"
  "be_judge (branch_env_of a cx m n k) = ba_judge a"
  by (simp_all add: branch_env_of_def)

lemma run_branch_left:
  assumes "run_branch a cx c m = Inr (result, s')"
  obtains e n checklist s cl where "e = branch_env_of a cx m n checklist" "normalize_case_checklist c = Inr checklist"
    "left_ok e (str_field c ''query'') (nat (max 1 (min 20 m))) s" "close_session s = (cl, s')"
proof -
  from assms obtain checklist config n e r s cl where k: "normalize_case_checklist c = Inr checklist"
    and e: "e = branch_env_of a cx m n checklist"
    and b: "branch_body e (ba_open a) (initial_branch_state (str_field c ''query'') (ba_session a)) = (r, s)"
    and cl: "close_session s = (cl, s')"
    by (rule run_branch_parts) blast
  from body_leaves [OF b] have "left_ok e (str_field c ''query'') (nat (max 1 (min 20 m))) s"
    by (simp add: e turn_numbers_length)
  with that [OF e k _ cl] show thesis .
qed

text \<open>The keys of the result that the last part does not overwrite.\<close>

lemma final_metrics_ok: "dict_ok (final_metrics x s)"
  by (simp add: dict_ok_def final_metrics_def runtime_metrics_def)

lemma result_field:
  assumes "dget (final_metrics x s') k = None" and "k \<notin> {''ok'', ''status'', ''error_code'', ''error''}"
  shows "dget (dmerge (cleanup_outcome cl (branch_outcome r s d)) (final_metrics x s')) k = dget d k"
proof -
  have "dget (dmerge d' (final_metrics x s')) k = dget d' k" for d'
    by (simp add: dget_dmerge_ok [OF final_metrics_ok] assms(1))
  moreover have "dget (cleanup_outcome cl d') k = dget d' k" for d'
    using assms(2) by (cases cl) (simp_all add: cleanup_outcome_def dget_dmerge)
  moreover have "dget (branch_outcome r s d) k = dget d k"
    using assms(2) by (cases r) (simp_all add: branch_outcome_def dget_dmerge dget_dput Let_def)
  ultimately show ?thesis by simp
qed

lemma result_metric:
  assumes "dget (final_metrics x s') k = Some v"
  shows "dget (dmerge d (final_metrics x s')) k = Some v"
  using assms by (simp add: dget_dmerge_ok [OF final_metrics_ok])

section \<open>The judge\<close>

text \<open>What a report of the language model's judge that passes the checks says when all is satisfied.\<close>

lemma report_on_evidence:
  assumes "judge_checklist completion checklist turns ms arts = Inr rep"
    and "dget_none rep ''judge'' \<noteq> PStr ''unavailable''" and "truthy (dget_none rep ''all_satisfied'')"
  shows "\<exists>items. checklist \<noteq> [] \<and> dget rep ''items'' = Some (PList (map PDict items)) \<and>
    map (\<lambda>i. str_field i ''id'') items = map (\<lambda>k. str_field k ''id'') checklist \<and>
    (\<forall>i\<in>set items. dget_none i ''satisfied'' = PBool True \<and> py_strip (evidence_of i) \<noteq> '''')"
proof -
  from assms(1,2) have "judge_model completion checklist turns ms arts = Inr rep"
    by (auto simp: judge_checklist_def bindE_Inr_iff dget_or_dmerge split: sum.splits)
  then obtain raw r where ne: "checklist \<noteq> []"
    and r: "normalize_checklist_report [(''checklist_report'', PDict raw)] checklist = Inr r"
    and rep: "rep = (let t = dput ''judge'' (PStr ''model'') r
      in if dget_none t ''satisfied_count'' = PInt 0 then dput ''positive_observations'' (PList []) t else t)"
    by (auto simp: judge_model_def Let_def bindE_Inr_iff split: if_splits)
  let ?raw = "as_list (dget_none raw ''items'')"
  let ?items = "report_items ?raw checklist"
  note f = report_fields [OF r]
  have same: "dget_none rep k = dget_none r k" if "k \<notin> {''judge'', ''positive_observations''}" for k
    using that by (auto simp: rep Let_def dget_or_dput)
  have items: "dget_none rep ''items'' = PList (map PDict ?items)" using same f(1) by (simp add: as_dict_def)
  have unmet: "filter (\<lambda>d. \<not> truthy (dget_none d ''satisfied'')) ?items = []"
    using same f(5) assms(3) by (simp add: as_dict_def)
  have ids: "str_field (expected_report_item ?raw k) ''id'' = str_field k ''id''" for k
    by (simp add: str_field_def expected_report_item_def Let_def dget_or_dmerge)
  have "dget_none i ''satisfied'' = PBool True \<and> py_strip (evidence_of i) \<noteq> ''''" if "i \<in> set ?items" for i
  proof -
    have "truthy (dget_none i ''satisfied'')" using unmet that by (auto simp: filter_empty_conv)
    with report_items_ok [OF that] show ?thesis by (auto simp: report_item_ok_def)
  qed
  moreover have "map (\<lambda>i. str_field i ''id'') ?items = map (\<lambda>k. str_field k ''id'') checklist"
    using ne by (simp add: report_items_def ids)
  moreover have "dget rep ''items'' = Some (PList (map PDict ?items))"
    using items by (auto simp: dget_or_def split: option.splits)
  ultimately show ?thesis using ne by blast
qed

section \<open>Properties\<close>

text \<open>
  C31: A replay branch is bounded and leaves nothing open. Whatever the runtime, the judge
  and the simulated user do, it sends at most \<open>max_interactions\<close> messages, never more than
  20: the query and then the messages it disclosed, in order. The reported interactions are
  about these messages, in order, and a runtime that was sent a message is closed exactly once.
\<close>

theorem replay_branch_is_bounded:
  assumes "run_branch a cx c m = Inr (result, s)"
  shows "length (bs_sent s) \<le> nat (max 1 (min 20 m)) \<and>
    prefix (bs_sent s) (str_field c ''query'' # map disclosed_message (bs_disclosures s)) \<and>
    prefix (map prompt_of (bs_interactions s)) (bs_sent s) \<and>
    dget result ''interactions'' = Some (PList (map PDict (bs_interactions s))) \<and>
    dget result ''interaction_turns'' = Some (PInt (int (length (bs_interactions s)))) \<and>
    bs_closes s \<le> 1 \<and> (bs_sent s \<noteq> [] \<longrightarrow> bs_closes s = 1)"
proof -
  from assms obtain checklist config n e r u cl where
    b: "branch_body e (ba_open a) (initial_branch_state (str_field c ''query'') (ba_session a)) = (r, u)"
    and e: "e = branch_env_of a cx m n checklist" and cl: "close_session u = (cl, s)"
    and result: "result = dmerge (cleanup_outcome cl (branch_outcome r u (result_so_far (ba_hash a) cx (str_field c ''query'') m u)))
       (final_metrics (ba_clock a (bs_reads s) - ba_clock a 0) s)"
    by (rule run_branch_parts)
  from body_leaves [OF b] have l: "left_ok e (str_field c ''query'') (nat (max 1 (min 20 m))) u"
    by (simp add: e turn_numbers_length)
  note k = close_session_keeps [OF cl]
  have "dget result ''interactions'' = Some (PList (map PDict (bs_interactions u)))"
    unfolding result by (subst result_field) (simp_all add: final_metrics_def runtime_metrics_def result_so_far_def)
  moreover have "dget result ''interaction_turns'' = Some (PInt (int (length (bs_interactions s))))"
    unfolding result by (rule result_metric) (simp add: final_metrics_def)
  moreover have "bs_sent u \<noteq> [] \<Longrightarrow> session_ready (bs_session u)" "bs_closes u = 0"
    using l by (simp_all add: left_ok_def branch_ok_def)
  ultimately show ?thesis using l k unfolding left_ok_def branch_ok_def prompts_def requests_def by auto
qed

text \<open>
  The metrics of a branch are the sums over its turns: every runtime metric of the
  result is the sum of that metric over the reported interactions, and unavailable when a
  single interaction lacks it or there is none.
\<close>

lemma branch_metrics_are_sums:
  assumes "run_branch a cx c m = Inr (result, s)" and "k \<in> set runtime_metrics"
  shows "\<exists>is. dget result ''interactions'' = Some (PList (map PDict is)) \<and> dget result k = Some (metric_sum k is)"
proof -
  from assms(1) obtain checklist config n e r u cl where
    b: "branch_body e (ba_open a) (initial_branch_state (str_field c ''query'') (ba_session a)) = (r, u)"
    and cl: "close_session u = (cl, s)"
    and result: "result = dmerge (cleanup_outcome cl (branch_outcome r u (result_so_far (ba_hash a) cx (str_field c ''query'') m u)))
       (final_metrics (ba_clock a (bs_reads s) - ba_clock a 0) s)"
    by (rule run_branch_parts)
  have "totals_ok u" using body_leaves [OF b] by (simp add: left_ok_def branch_ok_def)
  then have "total_of s k = metric_sum k (bs_interactions u)"
    using totals_ok_sum assms(2) close_session_keeps(6) [OF cl] by simp
  moreover have "dget (final_metrics x s) k = Some (total_of s k)" for x
  proof -
    have "k \<noteq> ''interaction_turns''" "k \<noteq> ''elapsed_seconds''" using assms(2) by (auto simp: runtime_metrics_def)
    then show ?thesis using assms(2) by (simp add: final_metrics_def dget_table)
  qed
  ultimately have "dget result k = Some (metric_sum k (bs_interactions u))"
    unfolding result by (intro result_metric) simp
  moreover have "dget result ''interactions'' = Some (PList (map PDict (bs_interactions u)))"
    unfolding result by (subst result_field) (simp_all add: final_metrics_def runtime_metrics_def result_so_far_def)
  ultimately show ?thesis by blast
qed


text \<open>
  C32: A branch completes only on evidence. With the checklist judge, whatever the language
  model answers, a completed branch had at least one turn and its report has, for every item
  of the case's checklist, an entry with the item's id that is satisfied with nonblank
  evidence.
\<close>

theorem completed_branch_has_evidence:
  assumes "run_branch (a\<lparr>ba_judge := judge_checklist completion\<rparr>) cx c m = Inr (result, s)"
    and "dget result ''completed'' = Some (PBool True)"
  shows "\<exists>checklist report items. normalize_case_checklist c = Inr checklist \<and> checklist \<noteq> [] \<and>
    dget result ''checklist_report'' = Some (PDict report) \<and> dget report ''items'' = Some (PList (map PDict items)) \<and>
    map (\<lambda>i. str_field i ''id'') items = map (\<lambda>k. str_field k ''id'') checklist \<and>
    (\<forall>i\<in>set items. dget_none i ''satisfied'' = PBool True \<and> py_strip (evidence_of i) \<noteq> '''') \<and>
    bs_interactions s \<noteq> []"
proof -
  let ?a = "a\<lparr>ba_judge := judge_checklist completion\<rparr>"
  from assms(1) obtain checklist config n e r u cl where k: "normalize_case_checklist c = Inr checklist"
    and e: "e = branch_env_of ?a cx m n checklist"
    and b: "branch_body e (ba_open ?a) (initial_branch_state (str_field c ''query'') (ba_session ?a)) = (r, u)"
    and cl: "close_session u = (cl, s)"
    and result: "result = dmerge (cleanup_outcome cl (branch_outcome r u (result_so_far (ba_hash ?a) cx (str_field c ''query'') m u)))
       (final_metrics (ba_clock ?a (bs_reads s) - ba_clock ?a 0) s)"
    by (rule run_branch_parts)
  have fields: "dget result ''completed'' = Some (PBool (bs_completed u))"
    "dget result ''checklist_report'' = Some (PDict (bs_report u))"
    unfolding result
    by (subst result_field; simp add: final_metrics_def runtime_metrics_def result_so_far_def)+
  with assms(2) body_leaves [OF b] have j: "judged e u" and all: "truthy (dget_none (bs_report u) ''all_satisfied'')"
    by (simp_all add: left_ok_def branch_ok_def)
  from j obtain i rep turns where report: "bs_report u = dput ''rounds'' (PInt i) rep"
    and rep: "judge_checklist completion checklist turns (bs_messages u) (bs_artifacts u) = Inr rep"
    and model: "dget_none rep ''judge'' \<noteq> PStr ''unavailable''"
    by (auto simp: judged_def e dget_or_dput)
  from report_on_evidence [OF rep model] all obtain items where ne: "checklist \<noteq> []"
    and items: "dget rep ''items'' = Some (PList (map PDict items))"
    "map (\<lambda>i. str_field i ''id'') items = map (\<lambda>k. str_field k ''id'') checklist"
    "\<forall>i\<in>set items. dget_none i ''satisfied'' = PBool True \<and> py_strip (evidence_of i) \<noteq> ''''"
    by (auto simp: report dget_or_dput)
  have "bs_interactions s \<noteq> []" using j close_session_keeps(2) [OF cl] by (simp add: judged_def)
  with k ne items fields(2) report show ?thesis by (auto simp: dget_dput)
qed

section \<open>Examples\<close>

definition demo_session :: replay_session where
  "demo_session = \<lparr>se_send = Some (\<lambda>sent. Inr (Observation \<lparr>ob_response = PStr ''done'', ob_messages = [],
     ob_artifacts = [], ob_metrics = PDict [(''api_calls'', PInt 2)], ob_trace_id = PStr '''', ob_reason = PStr ''''\<rparr>)),
     se_close = Some (Inr ())\<rparr>"

definition demo_completion :: "pyval \<Rightarrow> pyexc + pydict" where
  "demo_completion payload = Inr [(''items'', PList [PDict [(''id'', PStr ''k''), (''satisfied'', PBool True),
     (''evidence'', PStr ''seen'')]]), (''all_satisfied'', PBool True), (''positive_observations'', PList [])]"

definition demo_branch :: branch_args where
  "demo_branch = \<lparr>ba_clock = (\<lambda>n. 0), ba_hash = (\<lambda>v. ''h''), ba_judge = (\<lambda>k i m a. Inl value_error),
     ba_feedback = (\<lambda>r p sel d n. Inr ''more''), ba_open = Inr None, ba_session = Some demo_session\<rparr>"

definition demo_context :: replay_context where
  "demo_context = \<lparr>cx_branch = ''candidate'', cx_runtime_type = ''pi'', cx_request_id = ''r'', cx_snapshot = PDict [],
     cx_materials = [], cx_timeout = 10, cx_skill = None, cx_source = [], cx_turn_num = 1\<rparr>"

definition demo_replay_case :: pydict where
  "demo_replay_case = [(''query'', PStr ''q''), (''checks'', PList [PDict [(''id'', PStr ''k''), (''kind'', PStr ''output''),
     (''text'', PStr ''t'')]])]"

definition demo_summary :: "pyexc + (pydict \<times> branch_state) \<Rightarrow> (pyval option \<times> pyval option \<times> pyval option \<times> string list) option" where
  "demo_summary r = (case r of Inl e \<Rightarrow> None
     | Inr (d, s) \<Rightarrow> Some (dget d ''completed'', dget d ''api_calls'', dget d ''status'', bs_sent s))"

lemma demo_branch_runs:
  "demo_summary (run_branch (demo_branch\<lparr>ba_judge := judge_checklist demo_completion\<rparr>) demo_context demo_replay_case 4) =
     Some (Some (PBool True), Some (PInt 2), Some (PStr ''completed''), [''q''])"
  by code_simp

lemma demo_branch_result:
  obtains result s where
    "run_branch (demo_branch\<lparr>ba_judge := judge_checklist demo_completion\<rparr>) demo_context demo_replay_case 4 = Inr (result, s)"
    "dget result ''completed'' = Some (PBool True)" "dget result ''api_calls'' = Some (PInt 2)" "bs_sent s = [''q'']"
proof -
  have summary: "\<exists>d s. r = Inr (d, s) \<and> dget d ''completed'' = x \<and> dget d ''api_calls'' = y \<and> bs_sent s = l"
    if "demo_summary r = Some (x, y, z, l)" for r x y z l
    using that by (cases r) (auto simp: demo_summary_def)
  from summary [OF demo_branch_runs] that show thesis by metis
qed

theorem replay_branch_is_bounded_witness:
  "\<exists>result s. run_branch (demo_branch\<lparr>ba_judge := judge_checklist demo_completion\<rparr>) demo_context demo_replay_case 4 =
     Inr (result, s) \<and> bs_sent s = [''q''] \<and> bs_closes s = 1"
proof -
  from demo_branch_result obtain result s where
    r: "run_branch (demo_branch\<lparr>ba_judge := judge_checklist demo_completion\<rparr>) demo_context demo_replay_case 4 = Inr (result, s)"
    and "bs_sent s = [''q'']" by blast
  with replay_branch_is_bounded [OF r] show ?thesis by auto
qed

lemma branch_metrics_are_sums_witness:
  "\<exists>turns. metric_sum ''api_calls'' turns = PInt 2"
proof -
  from demo_branch_result obtain result s where
    r: "run_branch (demo_branch\<lparr>ba_judge := judge_checklist demo_completion\<rparr>) demo_context demo_replay_case 4 = Inr (result, s)"
    and m: "dget result ''api_calls'' = Some (PInt 2)" by blast
  have "''api_calls'' \<in> set runtime_metrics" by (simp add: runtime_metrics_def)
  from branch_metrics_are_sums [OF r this] m show ?thesis by auto
qed


theorem completed_branch_has_evidence_witness:
  "\<exists>checklist. normalize_case_checklist demo_replay_case = Inr checklist \<and> checklist \<noteq> []"
proof -
  from demo_branch_result obtain result s where
    r: "run_branch (demo_branch\<lparr>ba_judge := judge_checklist demo_completion\<rparr>) demo_context demo_replay_case 4 = Inr (result, s)"
    and d: "dget result ''completed'' = Some (PBool True)" by blast
  from completed_branch_has_evidence [OF r d] show ?thesis by blast
qed

end
