(* ===== verification/EngineProperties.thy ===== *)
theory EngineProperties imports ReplayEngine BranchProperties begin

text \<open>
  What the evaluation of a job promises: the sessions of a pair are closed, one factory runs
  all cases, and an accepted job ran every selected case on both branches with evidence for
  every item of the candidate's checklists.
\<close>

section \<open>The session of a branch\<close>

text \<open>A statement keeps the session it was given, whether it raises or not.\<close>

definition keeps_session :: "replay_session option \<Rightarrow> 'a branch_step \<Rightarrow> bool" where
  "keeps_session ses m \<longleftrightarrow> holdsS (\<lambda>s. bs_session s = ses) m (\<lambda>_ s. bs_session s = ses) (\<lambda>s. bs_session s = ses)"

lemma keeps_sessionD: "keeps_session ses m \<Longrightarrow> bs_session s = ses \<Longrightarrow> m s = (r, t) \<Longrightarrow> bs_session t = ses"
  unfolding keeps_session_def by (cases r) (auto dest: holdsS_D)

lemma keeps_bind [intro]:
  "keeps_session ses m \<Longrightarrow> (\<And>x. keeps_session ses (k x)) \<Longrightarrow> keeps_session ses (bindS m k)"
  unfolding keeps_session_def by (rule holdsS_bind)

lemma keeps_lift [intro]: "keeps_session ses (liftS r)"
  unfolding keeps_session_def holdsS_def liftS_def by simp

lemma keeps_update [intro]: "(\<And>s. bs_session (f s) = bs_session s) \<Longrightarrow> keeps_session ses (updateS f)"
  unfolding keeps_session_def by (rule holdsS_update) simp


lemma keeps_if: "keeps_session ses m \<Longrightarrow> keeps_session ses m' \<Longrightarrow>
    keeps_session ses (\<lambda>s. if b s then m s else m' s)"
  unfolding keeps_session_def holdsS_def by metis

lemma keeps_point:
  fixes f :: "branch_state \<Rightarrow> branch_state"
  assumes "\<And>s. bs_session (f s) = bs_session s"
  shows "keeps_session ses (\<lambda>s. (r s, f s))"
  unfolding keeps_session_def
proof (rule holdsS_I)
  fix s t :: branch_state
  assume s: "bs_session s = ses"
  show "bs_session t = ses" if "(r s, f s) = (Inl x, t)" for x using that s assms [of s] by simp
  show "bs_session t = ses" if "(r s, f s) = (Inr x, t)" for x using that s assms [of s] by simp
qed

lemma keeps_simple:
  "keeps_session ses (check_deadline e)" "keeps_session ses send_message"
  unfolding check_deadline_def [abs_def] send_message_def [abs_def] Let_def by (rule keeps_point, simp)+

text \<open>A statement may be chosen by the state it starts in.\<close>

lemma keeps_state: "(\<And>t. keeps_session ses (m t)) \<Longrightarrow> keeps_session ses (\<lambda>s. m s s)"
  unfolding keeps_session_def holdsS_def by blast

lemma keeps_judge: "keeps_session ses (judge_turn e n)"
  unfolding judge_turn_def [abs_def] Let_def
  by (rule keeps_state, intro keeps_bind keeps_lift keeps_update keeps_if keeps_point) (simp_all add: record_report_def)

lemma keeps_request: "keeps_session ses (request_missing e n ob report)"
  unfolding request_missing_def [abs_def]
proof (rule keeps_state, rule keeps_bind [OF keeps_lift], rule keeps_if)
  fix sel :: "pydict list"
  show "keeps_session ses (\<lambda>s. (Inr False, s))" by (rule keeps_point) simp
  show "keeps_session ses (\<lambda>s1. bindS (liftS (bindE (py_iter (py_or (dget_none report ''positive_observations'') (PList [])))
      (\<lambda>observed. be_feedback e (py_str (ob_response ob)) observed sel (bs_disclosed_texts s1) (n + 1))))
    (\<lambda>message. bindS (updateS (disclose n sel message)) (\<lambda>_. liftS (Inr True))) s1)"
    by (rule keeps_state, intro keeps_bind keeps_lift keeps_update) (simp add: disclose_def Let_def)
qed

lemma keeps_next: "keeps_session ses (next_request e n ob report)"
  unfolding next_request_def
  by (intro keeps_bind keeps_simple keeps_if keeps_point keeps_request) simp_all

lemma keeps_turn: "keeps_session ses (branch_turn e n)"
  unfolding branch_turn_def
  by (intro keeps_bind keeps_simple keeps_lift keeps_update keeps_judge keeps_next) (rule record_interaction_simps)

lemma keeps_turns: "keeps_session ses (branch_turns e ts)"
proof (induction ts)
  case Nil
  show ?case unfolding keeps_session_def holdsS_def by simp
next
  case (Cons n ts)
  have "branch_turns e (n # ts) = bindS (branch_turn e n) (\<lambda>go s. if go then branch_turns e ts s else (Inr (), s))"
    by (rule ext) simp
  then show ?case by (auto intro!: keeps_turn keeps_if keeps_point Cons.IH)
qed

lemma given_session_kept:
  assumes "branch_body e fo (initial_branch_state q (Some se)) = (r, t)"
  shows "bs_session t = Some se"
proof -
  let ?i = "initial_branch_state q (Some se)"
  have i: "bs_session ?i = Some se" by (simp add: initial_branch_state_def)
  from assms keeps_sessionD [OF keeps_turns i] show ?thesis
    unfolding branch_body_def i by (auto simp: bindS_def liftS_def i split: if_splits)
qed

lemma given_session_closed:
  assumes "run_branch a cx c m = Inr (d, s)" and "ba_session a = Some se" and "session_ready (Some se)"
  shows "bs_closes s = 1"
proof -
  from assms(1) obtain checklist config n e r u cl where
    b: "branch_body e (ba_open a) (initial_branch_state (str_field c ''query'') (ba_session a)) = (r, u)"
    and cl: "close_session u = (cl, s)" by (rule run_branch_parts)
  have "bs_session u = Some se" using given_session_kept b assms(2) by simp
  moreover have "bs_closes u = 0" using body_leaves [OF b] by (simp add: left_ok_def branch_ok_def)
  ultimately show ?thesis using cl assms(3) by (auto simp: close_session_def session_ready_def)
qed

section \<open>The checklist of a branch that is ok\<close>

lemma filterE_mem: "filterE f xs = Inr ys \<Longrightarrow> y \<in> set ys \<Longrightarrow> y \<in> set xs \<and> f y = Inr True"
  by (induction xs arbitrary: ys) (auto simp: bindE_Inr_iff split: if_splits)

lemma checklist_from_checks:
  assumes "normalize_case_checklist c = Inr checklist" and "checklist \<noteq> []"
  shows "case_checks c \<noteq> []"
proof -
  from assms obtain raw items where raw: "py_iter (py_or (dget_none c ''checks'') (PList [])) = Inr raw"
    and items: "filterE check_ok raw = Inr items" "items \<noteq> []"
    by (auto simp: normalize_case_checklist_def bindE_Inr_iff)
  then have "hd items \<in> set raw \<and> check_ok (hd items) = Inr True"
    using filterE_mem [OF items(1) hd_in_set [OF items(2)]] by blast
  then obtain v where v: "v \<in> set raw" "check_ok v = Inr True" by blast
  from v(2) obtain d where "v = PDict d" by (cases v) (simp_all add: check_ok_def)
  with v(1) raw have "\<exists>vs. dget_none c ''checks'' = PList vs \<and> PDict d \<in> set vs"
    by (cases "dget_none c ''checks''") (auto simp: py_iter_def py_or_def split: if_splits)
  then obtain vs where vs: "dget_none c ''checks'' = PList vs" "PDict d \<in> set vs" by blast
  then have "d \<in> set (case_checks c)" by (force simp: case_checks_def as_list_def)
  then show ?thesis by auto
qed

lemma branch_ok_checks:
  assumes "run_branch a cx c m = Inr (d, s)" and "truthy (dget_none d ''ok'')"
  shows "case_checks c \<noteq> []"
proof -
  from assms(1) obtain checklist config n e r u cl where k: "normalize_case_checklist c = Inr checklist"
    and e: "e = branch_env_of a cx m n checklist"
    and b: "branch_body e (ba_open a) (initial_branch_state (str_field c ''query'') (ba_session a)) = (r, u)"
    and d: "d = dmerge (cleanup_outcome cl (branch_outcome r u (result_so_far (ba_hash a) cx (str_field c ''query'') m u)))
       (final_metrics (ba_clock a (bs_reads s) - ba_clock a 0) s)"
    by (rule run_branch_parts)
  have "checklist \<noteq> []"
  proof
    assume "checklist = []"
    with b e obtain x where r: "r = Inl x" by (auto simp: branch_body_def)
    have "dget (branch_outcome r u (result_so_far (ba_hash a) cx (str_field c ''query'') m u)) ''ok'' = Some (PBool False)"
      by (simp add: r branch_outcome_def dget_dmerge dget_dput Let_def) (simp add: result_so_far_def)
    moreover have "dget (final_metrics x s) ''ok'' = None" for x by (simp add: final_metrics_def runtime_metrics_def)
    ultimately have "dget d ''ok'' = Some (PBool False)"
      unfolding d dget_dmerge_ok [OF final_metrics_ok] by (cases cl) (simp_all add: cleanup_outcome_def dget_dmerge)
    with assms(2) show False by (simp add: dget_or_def)
  qed
  with k show ?thesis by (rule checklist_from_checks)
qed

section \<open>The pair\<close>

lemma open_branch_Inr:
  assumes "open_branch f cx ss = Inr ss'"
  obtains i se where "fa_open f cx = Inr (i, se)" "i \<notin> set (map (fst \<circ> snd) ss)" "session_ready (Some se)"
    "ss' = ss @ [(cx_branch cx, i, se)]"
  using assms by (auto simp: open_branch_def bindE_Inr_iff split: if_splits)

lemma open_pair_sessions:
  assumes "open_pair f cxs ss = (r, ss')" and "distinct (map (fst \<circ> snd) ss)"
    and "\<forall>(b, i, se)\<in>set ss. session_ready (Some se)"
  shows "distinct (map (fst \<circ> snd) ss') \<and> (\<forall>(b, i, se)\<in>set ss'. session_ready (Some se)) \<and>
    (r = None \<longrightarrow> map fst ss' = map fst ss @ map cx_branch cxs)"
  using assms
proof (induction cxs arbitrary: ss)
  case Nil
  then show ?case by simp
next
  case (Cons cx cxs)
  show ?case
  proof (cases "open_branch f cx ss")
    case (Inl e)
    with Cons.prems show ?thesis by auto
  next
    case (Inr ss1)
    from open_branch_Inr [OF Inr] obtain i se where n: "i \<notin> set (map (fst \<circ> snd) ss)" "session_ready (Some se)"
      "ss1 = ss @ [(cx_branch cx, i, se)]" .
    have "open_pair f cxs ss1 = (r, ss')" using Cons.prems(1) Inr by simp
    moreover have "distinct (map (fst \<circ> snd) ss1)" using n(1,3) Cons.prems(2) by (simp add: comp_def)
    moreover have "\<forall>(b, i, se)\<in>set ss1. session_ready (Some se)" using n(2,3) Cons.prems(3) by simp
    ultimately have "distinct (map (fst \<circ> snd) ss') \<and> (\<forall>(b, i, se)\<in>set ss'. session_ready (Some se)) \<and>
      (r = None \<longrightarrow> map fst ss' = map fst ss1 @ map cx_branch cxs)" by (rule Cons.IH)
    then show ?thesis by (simp add: n(3) comp_def)
  qed
qed

lemma pair_opened:
  assumes "open_pair f cxs [] = (r, ss)"
  shows "distinct (map (fst \<circ> snd) ss)" and "(b, i, se) \<in> set ss \<Longrightarrow> session_ready (Some se)"
    and "r = None \<Longrightarrow> map fst ss = map cx_branch cxs"
  using open_pair_sessions [OF assms] by auto

text \<open>What ran when both sessions could be opened.\<close>

lemma mapE_Inr_all2: "mapE f xs = Inr ys \<longleftrightarrow> list_all2 (\<lambda>x y. f x = Inr y) xs ys"
proof (induction xs arbitrary: ys)
  case Nil
  show ?case by auto
next
  case (Cons x xs)
  then show ?case by (cases ys) (auto simp: bindE_Inr_iff)
qed

lemma execute_pair_ran:
  assumes "execute_pair h index f cxs c m = Inr (results, shut)" and "open_pair f cxs [] = (None, ss)"
  obtains runs where "mapE (branch_run h index ss c m) cxs = Inr runs" "results = map (\<lambda>(b, d, s). (b, d)) runs"
    "shut = concat (map (\<lambda>(b, d, s). if bs_closes s = 0 then []
       else (case map_of ss b of None \<Rightarrow> [] | Some (i, se) \<Rightarrow> [i])) runs)"
  using assms by (auto simp: execute_pair_def bindE_Inr_iff)

lemma runs_close:
  assumes "list_all2 (\<lambda>cx y. branch_run h index ss c m cx = Inr y) cxs runs" and "distinct (map fst ss)"
    and "map fst ss' = map cx_branch cxs" and "set ss' \<subseteq> set ss" and "\<And>b i se. (b, i, se) \<in> set ss \<Longrightarrow> session_ready (Some se)"
  shows "concat (map (\<lambda>(b, d, s). if bs_closes s = 0 then []
       else (case map_of ss b of None \<Rightarrow> [] | Some (i, se) \<Rightarrow> [i])) runs) = map (fst \<circ> snd) ss'"
  using assms(1,3,4)
proof (induction cxs runs arbitrary: ss' rule: list_all2_induct)
  case Nil
  then show ?case by simp
next
  case (Cons cx cxs y ys)
  from Cons.prems obtain i se ss1 where ss': "ss' = (cx_branch cx, i, se) # ss1" and rest: "map fst ss1 = map cx_branch cxs"
    by (cases ss') auto
  have mem: "(cx_branch cx, i, se) \<in> set ss" and sub: "set ss1 \<subseteq> set ss" using Cons.prems(2) ss' by auto
  then have look: "map_of ss (cx_branch cx) = Some (i, se)" using assms(2) by simp
  from Cons.hyps(1) obtain d s where run: "run_branch (pair_args h index ss (cx_branch cx)) cx c m = Inr (d, s)"
    and y: "y = (cx_branch cx, d, s)" by (auto simp: branch_run_def bindE_Inr_iff)
  have "bs_closes s = 1"
    by (rule given_session_closed [OF run _ assms(5) [OF mem]]) (simp add: pair_args_def look)
  with y look ss' Cons.IH [OF rest sub] show ?case by simp
qed

lemma branch_run_branch: "mapE (branch_run h index ss c m) cxs = Inr runs \<Longrightarrow> map fst runs = map cx_branch cxs"
  unfolding mapE_Inr_all2 by (induction rule: list_all2_induct) (auto simp: branch_run_def bindE_Inr_iff)

lemma pair_outcome:
  assumes "execute_pair h index f cxs c m = Inr (results, shut)" and "distinct (map cx_branch cxs)"
  shows "map fst results = map cx_branch cxs \<and> shut = map (fst \<circ> snd) (snd (open_pair f cxs [])) \<and> distinct shut \<and>
    (fst (open_pair f cxs []) \<noteq> None \<longrightarrow>
       (\<forall>(b, d)\<in>set results. dget d ''ok'' = Some (PBool False) \<and> dget d ''status'' = Some (PStr ''unsupported'')))"
proof -
  obtain r ss where o: "open_pair f cxs [] = (r, ss)" by fastforce
  note op = pair_opened [OF o]
  show ?thesis
  proof (cases r)
    case None
    with o assms(1) obtain runs where run: "mapE (branch_run h index ss c m) cxs = Inr runs"
      and res: "results = map (\<lambda>(b, d, s). (b, d)) runs"
      and shut: "shut = concat (map (\<lambda>(b, d, s). if bs_closes s = 0 then []
         else (case map_of ss b of None \<Rightarrow> [] | Some (i, se) \<Rightarrow> [i])) runs)" by (metis execute_pair_ran)
    have names: "map fst ss = map cx_branch cxs" by (rule op(3) [OF None])
    then have "shut = map (fst \<circ> snd) ss"
      unfolding shut using assms(2) op(2) run [unfolded mapE_Inr_all2] by (intro runs_close [where ss' = ss]) auto
    moreover have "map fst results = map cx_branch cxs"
      using branch_run_branch [OF run] by (simp add: res comp_def case_prod_beta)
    ultimately show ?thesis using o None op(1) by simp
  next
    case (Some e)
    with o assms(1) have "results = map (\<lambda>cx. (cx_branch cx, unsupported_result e (cx_branch cx))) cxs"
      "shut = map (fst \<circ> snd) ss" by (auto simp: execute_pair_def)
    with o op(1) show ?thesis by (auto simp: unsupported_result_def comp_def)
  qed
qed


section \<open>One case\<close>

lemma job_contexts_branches:
  assumes "job_contexts h job c source timeout snapshot = Inr cxs"
  shows "map cx_branch cxs = [''baseline'', ''candidate'']"
  using assms by (auto simp: job_contexts_def branch_context_def make_context_def bindE_Inr_iff split: if_splits)

lemma mapE_image: "mapE f xs = Inr ys \<Longrightarrow> x \<in> set xs \<Longrightarrow> \<exists>y\<in>set ys. f x = Inr y"
  by (induction xs arbitrary: ys) (auto simp: bindE_Inr_iff)

text \<open>What the output of a case holds: the two results, their reports, and the decision.\<close>

lemma evaluate_case_parts:
  assumes "evaluate_case h job_id job c source f timeout m = Inr out"
  obtains cxs db dc rb rc bb bc eff decision shut where
    "map cx_branch cxs = [''baseline'', ''candidate'']"
    "execute_pair h (case_index c) f cxs c m = Inr ([(''baseline'', db), (''candidate'', dc)], shut)"
    "normalize_checklist_report db (case_checks c) = Inr rb" "normalize_checklist_report dc (case_checks c) = Inr rc"
    "progressive_replay_decision eff rb rc = Inr decision"
    "dget out ''status'' = Some (PStr (if truthy (dget_none db ''ok'') \<and> truthy (dget_none dc ''ok'')
       then ''evaluated'' else ''failed''))"
    "truthy (dget_none db ''ok'') \<Longrightarrow> truthy (dget_none dc ''ok'') \<Longrightarrow>
       dget_none out ''accepted'' = dget_none decision ''accepted''"
    "dget out ''adapter_revision'' = Some (fa_revision f)"
    "dget out ''cases'' = Some (PList [PDict [(''baseline'', PDict bb), (''candidate'', PDict bc)]])"
    "dget_none bb ''ok'' = dget_none db ''ok''" "dget_none bc ''ok'' = dget_none dc ''ok''"
    "dget bc ''checklist_report'' = Some (PDict rc)"
proof -
  from assms obtain snapshot cxs results shut checklists eff decision branches runtime where
    cx: "job_contexts h job c source timeout snapshot = Inr cxs"
    and ep: "execute_pair h (case_index c) f cxs c m = Inr (results, shut)"
    and cl: "mapE (branch_checklist c) results = Inr checklists"
    and dec: "progressive_replay_decision eff (of_branch checklists ''baseline'') (of_branch checklists ''candidate'') =
        Inr decision"
    and br: "mapE (case_branch h c checklists) results = Inr branches"
    and out: "out = case_output job_id c f m (concat (map branch_failure results))
        (if concat (map branch_failure results) \<noteq> [] then dmerge decision failed_policy else decision)
        eff checklists branches runtime"
    unfolding evaluate_case_def Let_def bindE_Inr_iff by (metis prod.collapse sum.inject(2))
  note names = job_contexts_branches [OF cx]
  have "map fst results = [''baseline'', ''candidate'']" using pair_outcome [OF ep] names by simp
  then obtain db dc where results: "results = [(''baseline'', db), (''candidate'', dc)]" by (auto simp: map_eq_Cons_conv)
  from cl obtain rb rc where reports: "normalize_checklist_report db (case_checks c) = Inr rb"
    "normalize_checklist_report dc (case_checks c) = Inr rc" "checklists = [(''baseline'', rb), (''candidate'', rc)]"
    by (auto simp: results branch_checklist_def bindE_Inr_iff)
  from br obtain bb bc where b: "branches = [(''baseline'', PDict bb), (''candidate'', PDict bc)]"
    "dget_none bb ''ok'' = dget_none db ''ok''" "dget_none bc ''ok'' = dget_none dc ''ok''"
    "dget bc ''checklist_report'' = Some (PDict rc)"
    by (auto simp: results reports(3) case_branch_def of_branch_def bindE_Inr_iff dget_or_dmerge dget_dmerge)
  have fail: "concat (map branch_failure results) \<noteq> [] \<longleftrightarrow> \<not> (truthy (dget_none db ''ok'') \<and> truthy (dget_none dc ''ok''))"
    by (simp add: results branch_failure_def)
  show thesis
  proof (rule that [OF names ep [unfolded results] reports(1,2) _ _ _ _ _ b(2-4)])
    show "progressive_replay_decision eff rb rc = Inr decision" using dec by (simp add: reports(3) of_branch_def)
    show "dget out ''status'' = Some (PStr (if truthy (dget_none db ''ok'') \<and> truthy (dget_none dc ''ok'')
       then ''evaluated'' else ''failed''))"
      unfolding out case_output_def fail by simp
    show "dget_none out ''accepted'' = dget_none decision ''accepted''"
      if "truthy (dget_none db ''ok'')" "truthy (dget_none dc ''ok'')"
      unfolding out case_output_def fail using that by (simp add: dget_or_def)
    show "dget out ''adapter_revision'' = Some (fa_revision f)" unfolding out case_output_def by simp
    show "dget out ''cases'' = Some (PList [PDict [(''baseline'', PDict bb), (''candidate'', PDict bc)]])"
      unfolding out case_output_def b(1) by simp
  qed
qed

lemma pair_ok_checks:
  assumes "execute_pair h index f cxs c m = Inr (results, shut)" and "(b, d) \<in> set results" and "truthy (dget_none d ''ok'')"
  shows "case_checks c \<noteq> []"
proof -
  obtain r ss where o: "open_pair f cxs [] = (r, ss)" by fastforce
  have "r = None"
  proof (rule ccontr)
    assume "r \<noteq> None"
    then obtain e where "r = Some e" by blast
    with o assms(1,2) have "dget_none d ''ok'' = PBool False"
      by (auto simp: execute_pair_def unsupported_result_def dget_or_def)
    with assms(3) show False by simp
  qed
  with o assms(1) obtain runs where run: "mapE (branch_run h index ss c m) cxs = Inr runs"
    and res: "results = map (\<lambda>(b, d, s). (b, d)) runs" by (metis execute_pair_ran)
  from res assms(2) obtain s where "(b, d, s) \<in> set runs" by auto
  then obtain cx where "branch_run h index ss c m cx = Inr (b, d, s)"
    using run unfolding mapE_Inr_all2 by (auto simp: list_all2_conv_all_nth in_set_conv_nth)
  then have "run_branch (pair_args h index ss (cx_branch cx)) cx c m = Inr (d, s)"
    by (auto simp: branch_run_def bindE_Inr_iff)
  from branch_ok_checks [OF this assms(3)] show ?thesis .
qed

definition item_won :: "pydict \<Rightarrow> bool" where
  "item_won i \<longleftrightarrow> dget_none i ''satisfied'' = PBool True \<and> py_strip (evidence_of i) \<noteq> ''''"

text \<open>
  The output of a case: evaluated, both branches ok, and the candidate's report on the items
  of the case's checklist, at least one.
\<close>

definition case_ran :: "pydict \<Rightarrow> pydict \<Rightarrow> pydict \<Rightarrow> pydict list \<Rightarrow> bool" where
  "case_ran c out report items \<longleftrightarrow>
     (\<exists>bb bc. dget out ''status'' = Some (PStr ''evaluated'') \<and>
        dget out ''cases'' = Some (PList [PDict [(''baseline'', PDict bb), (''candidate'', PDict bc)]]) \<and>
        truthy (dget_none bb ''ok'') \<and> truthy (dget_none bc ''ok'') \<and>
        dget bc ''checklist_report'' = Some (PDict report)) \<and>
     dget_none report ''items'' = PList (map PDict items) \<and> items \<noteq> [] \<and>
     map (\<lambda>i. str_field i ''id'') items = map (\<lambda>k. str_field k ''id'') (case_checks c)"

lemma str_field_dmerge: "k \<notin> fst ` set b \<Longrightarrow> str_field (dmerge a b) k = str_field a k"
  by (simp add: str_field_def dget_or_dmerge map_of_eq_None_iff [THEN iffD2])

lemma expected_item_id: "str_field (expected_report_item raw k) ''id'' = str_field k ''id''"
  by (simp add: expected_report_item_def Let_def str_field_dmerge)

lemma satisfied_wins: "report_item_ok i \<Longrightarrow> truthy (dget_none i ''satisfied'') \<Longrightarrow> item_won i"
  by (auto simp: report_item_ok_def item_won_def)

lemma report_wins:
  assumes "normalize_checklist_report d expected = Inr r" and "truthy (dget_none r ''all_satisfied'')"
    and "i \<in> set (report_items (as_list (dget_none (as_dict (dget_none d ''checklist_report'')) ''items'')) expected)"
  shows "item_won i"
  using assms report_fields(5) [OF assms(1)] report_items_ok [OF assms(3)] satisfied_wins
  by (auto simp: filter_empty_conv)

lemma accepted_case_evaluated:
  assumes "evaluate_case h job_id job c source f timeout m = Inr out" and "dget_none out ''accepted'' = PBool True"
  shows "dget out ''status'' = Some (PStr ''evaluated'')"
proof -
  from assms(1) obtain failures policy eff checklists branches runtime where
    "out = case_output job_id c f m failures (if failures \<noteq> [] then dmerge policy failed_policy else policy)
      eff checklists branches runtime"
    unfolding evaluate_case_def Let_def bindE_Inr_iff by (metis sum.inject(2))
  with assms(2) show ?thesis
    by (cases "failures = []") (simp_all add: case_output_def failed_policy_def dget_or_def dget_dmerge)
qed

lemma evaluated_case:
  assumes "evaluate_case h job_id job c source f timeout m = Inr out" and "dget out ''status'' = Some (PStr ''evaluated'')"
  obtains report items where "case_ran c out report items"
    "dget_none out ''accepted'' = PBool True \<Longrightarrow> \<forall>i\<in>set items. item_won i" "\<forall>i\<in>set items. report_item_ok i"
proof -
  from assms(1) obtain cxs db dc rb rc bb bc eff decision shut where
    ep: "execute_pair h (case_index c) f cxs c m = Inr ([(''baseline'', db), (''candidate'', dc)], shut)"
    and rc: "normalize_checklist_report dc (case_checks c) = Inr rc"
    and dec: "progressive_replay_decision eff rb rc = Inr decision"
    and st: "dget out ''status'' = Some (PStr (if truthy (dget_none db ''ok'') \<and> truthy (dget_none dc ''ok'')
       then ''evaluated'' else ''failed''))"
    and acc: "truthy (dget_none db ''ok'') \<Longrightarrow> truthy (dget_none dc ''ok'') \<Longrightarrow>
       dget_none out ''accepted'' = dget_none decision ''accepted''"
    and out: "dget out ''cases'' = Some (PList [PDict [(''baseline'', PDict bb), (''candidate'', PDict bc)]])"
      "dget_none bb ''ok'' = dget_none db ''ok''" "dget_none bc ''ok'' = dget_none dc ''ok''"
      "dget bc ''checklist_report'' = Some (PDict rc)"
    by (rule evaluate_case_parts) (rule that; assumption | blast)
  have ok: "truthy (dget_none db ''ok'')" "truthy (dget_none dc ''ok'')" using st assms(2) by (simp_all split: if_splits)
  have checks: "case_checks c \<noteq> []" by (rule pair_ok_checks [OF ep _ ok(2), of "''candidate''"]) simp
  let ?items = "report_items (as_list (dget_none (as_dict (dget_none dc ''checklist_report'')) ''items'')) (case_checks c)"
  note r = report_fields [OF rc]
  have ne: "?items \<noteq> []" using checks by (simp add: report_items_def)
  have "map (\<lambda>i. str_field i ''id'') ?items = map (\<lambda>k. str_field k ''id'') (case_checks c)"
    using checks by (simp add: report_items_def expected_item_id)
  then have ran: "case_ran c out rc ?items" using assms(2) out ok r(1) ne by (auto simp: case_ran_def)
  have "\<forall>i\<in>set ?items. item_won i" if a: "dget_none out ''accepted'' = PBool True"
  proof
    fix i assume i: "i \<in> set ?items"
    from a acc [OF ok] have "dget_none decision ''accepted'' = PBool True" by simp
    with decision_checklist_first [OF dec] int_field_PInt [OF r(2)] ne
    have "truthy (dget_or rc ''all_satisfied'' (PBool True))" by auto
    then have "truthy (dget_none rc ''all_satisfied'')" using r(5) by (auto simp: dget_or_def split: option.splits)
    from report_wins [OF rc this i] show "item_won i" .
  qed
  with that [OF ran] report_items_ok show thesis by blast
qed

section \<open>Jobs\<close>

lemma failed_output_status: "dget (failed_output job_id e) ''status'' \<noteq> Some (PStr ''evaluated'')"
  "dget_none (failed_output job_id e) ''accepted'' = PBool False" "dget (failed_output job_id e) ''adapter_revision'' = None"
  "\<not> window_evaluated (failed_output job_id e)"
  by (simp_all add: failed_output_def window_evaluated_def str_field_def)

definition case_entry :: "string \<Rightarrow> pydict \<Rightarrow> (pyexc + pydict) \<Rightarrow> string \<times> pydict" where
  "case_entry job_id c r = (int_str (case_index c), case r of Inl e \<Rightarrow> failed_output job_id e | Inr d \<Rightarrow> d)"

text \<open>Each case has its entry, from the factory bound when it is reached.\<close>

lemma run_cases_entries:
  "list_all2 (\<lambda>c entry. \<exists>bound r. entry = case_entry job_id c r \<and> fst (run_case h job_id job timeout m c bound) = r)
     cs (run_cases h job_id job timeout m cs bound)"
proof (induction cs arbitrary: bound)
  case Nil
  show ?case by simp
next
  case (Cons c cs)
  obtain r b where "run_case h job_id job timeout m c bound = (r, b)" by fastforce
  with Cons.IH [of b] show ?case by (auto simp: case_entry_def intro!: exI [of _ bound])
qed

lemma run_case_evaluates:
  assumes "fst (run_case h job_id job timeout m c bound) = Inr d"
  obtains source f where "evaluate_case h job_id job c source f timeout (max 1 (min 20 m)) = Inr d"
proof -
  from assms obtain b where "run_case h job_id job timeout m c bound = (Inr d, b)" by (metis prod.collapse)
  then have "\<exists>source f. evaluate_case h job_id job c source f timeout (max 1 (min 20 m)) = Inr d"
    unfolding run_case_def bindS_Inr liftS_def by blast
  with that show thesis by blast
qed

lemma entry_evaluated:
  assumes "entry = case_entry job_id c r" and "fst (run_case h job_id job timeout m c bound) = r"
    and "window_evaluated (snd entry)"
  obtains source f where "evaluate_case h job_id job c source f timeout (max 1 (min 20 m)) = Inr (snd entry)"
    "dget (snd entry) ''status'' = Some (PStr ''evaluated'')"
proof (cases r)
  case (Inl e)
  with assms(1,3) show thesis by (simp add: case_entry_def failed_output_status)
next
  case (Inr d)
  then have d: "snd entry = d" using assms(1) by (simp add: case_entry_def)
  from run_case_evaluates [of h job_id job timeout m c bound d] assms(2) Inr obtain source f
    where ev: "evaluate_case h job_id job c source f timeout (max 1 (min 20 m)) = Inr d" by metis
  then obtain x y where "dget d ''status'' = Some (PStr (if x \<and> y then ''evaluated'' else ''failed''))"
    by (rule evaluate_case_parts) blast
  with assms(3) d have "dget d ''status'' = Some (PStr ''evaluated'')"
    by (auto simp: window_evaluated_def str_field_def dget_or_def split: if_splits)
  with ev d that show thesis by simp
qed

text \<open>A report that is normalised again keeps its verdicts.\<close>

lemma renormalized_wins:
  assumes "dget bc ''checklist_report'' = Some (PDict report)" and "dget_none report ''items'' = PList (map PDict items)"
    and "normalize_checklist_report bc [] = Inr r"
  shows "dget_none r ''total'' = PInt (int (length items))"
    and "truthy (dget_none r ''all_satisfied'') \<Longrightarrow> i \<in> set items \<Longrightarrow> item_won i"
proof -
  have items: "report_items (as_list (dget_none (as_dict (dget_none bc ''checklist_report'')) ''items'')) [] =
      map free_report_item items"
    using assms(1,2) by (simp add: dget_or_def as_dict_def as_list_def report_items_def comp_def)
  note r = report_fields [OF assms(3), unfolded items]
  show "dget_none r ''total'' = PInt (int (length items))" using r(2) by simp
  show "item_won i" if "truthy (dget_none r ''all_satisfied'')" "i \<in> set items"
    using that r(5) by (auto simp: filter_empty_conv free_report_item_def item_satisfied_def item_won_def)
qed

lemma window_case_reported:
  assumes "mapE window_cases results = Inr css" and "case_reports (concat css) ''candidate'' = Inr reports"
    and "entry \<in> set results" and "dget (snd entry) ''cases'' = Some (PList [PDict br])"
    and "dget br ''candidate'' = Some (PDict bc)"
  shows "\<exists>r. normalize_checklist_report bc [] = Inr r \<and> (\<forall>n. dget_none r ''total'' = PInt n \<longrightarrow> n > 0 \<longrightarrow> r \<in> set reports)"
proof -
  let ?c = "dput ''evidence_window'' (PStr (fst entry)) br"
  from mapE_image [OF assms(1,3)] obtain cs where "cs \<in> set css" "window_cases entry = Inr cs" by blast
  moreover from this have "PDict ?c \<in> set cs" using assms(4) by (auto simp: window_cases_def dget_or_def py_or_def py_iter_def)
  ultimately have "PDict ?c \<in> set (concat css)" by auto
  then have mem: "?c \<in> set [c. PDict c \<leftarrow> concat css]" by force
  have cand: "as_dict (dget_none ?c ''candidate'') = bc" using assms(5) by (simp add: dget_or_def dget_dput as_dict_def)
  from assms(2) obtain rs where rs: "mapE (\<lambda>c. normalize_checklist_report (as_dict (dget_none c ''candidate'')) [])
      [c. PDict c \<leftarrow> concat css] = Inr rs"
    and reports: "reports = filter (\<lambda>r. case dget_none r ''total'' of PInt n \<Rightarrow> n > 0 | _ \<Rightarrow> False) rs"
    unfolding case_reports_def bindE_Inr_iff by blast
  from mapE_image [OF rs mem] obtain r where "r \<in> set rs" "normalize_checklist_report bc [] = Inr r"
    unfolding cand by blast
  then show ?thesis unfolding reports by auto
qed

definition case_won :: "pydict \<Rightarrow> pydict \<Rightarrow> bool" where
  "case_won c out \<longleftrightarrow> (\<exists>report items. case_ran c out report items \<and> (\<forall>i\<in>set items. item_won i))"

lemma accepted_case_won:
  assumes "evaluate_case h job_id job c source f timeout m = Inr out" and "dget_none out ''accepted'' = PBool True"
  shows "case_won c out"
proof -
  have "dget out ''status'' = Some (PStr ''evaluated'')" by (rule accepted_case_evaluated [OF assms])
  from evaluated_case [OF assms(1) this] assms(2) show ?thesis unfolding case_won_def by metis
qed

lemma aggregated_case_won:
  assumes "mapE window_cases results = Inr css" and "case_reports (concat css) ''candidate'' = Inr reports"
    and "list_all (\<lambda>r. truthy (dget_none r ''all_satisfied'')) reports" and "entry \<in> set results"
    and "evaluate_case h job_id job c source f timeout m = Inr (snd entry)"
    and "dget (snd entry) ''status'' = Some (PStr ''evaluated'')"
  shows "case_won c (snd entry)"
proof -
  from evaluated_case [OF assms(5,6)] obtain report items where ran: "case_ran c (snd entry) report items" .
  then obtain bb bc where b: "dget (snd entry) ''cases'' = Some (PList [PDict [(''baseline'', PDict bb), (''candidate'', PDict bc)]])"
      "dget bc ''checklist_report'' = Some (PDict report)"
    and i: "dget_none report ''items'' = PList (map PDict items)" "items \<noteq> []" by (auto simp: case_ran_def)
  from window_case_reported [OF assms(1,2,4) b(1), of bc] obtain r where
    r: "normalize_checklist_report bc [] = Inr r" "\<And>n. dget_none r ''total'' = PInt n \<Longrightarrow> n > 0 \<Longrightarrow> r \<in> set reports"
    by auto
  note won = renormalized_wins [OF b(2) i(1) r(1)]
  have "truthy (dget_none r ''all_satisfied'')" using r(2) [OF won(1)] i(2) assms(3) by (simp add: list_all_iff)
  with won(2) ran show ?thesis unfolding case_won_def by blast
qed

lemma entries_won:
  assumes "\<And>c entry source f. entry \<in> set (run_cases h job_id job timeout m cs bound) \<Longrightarrow>
      evaluate_case h job_id job c source f timeout (max 1 (min 20 m)) = Inr (snd entry) \<Longrightarrow>
      dget (snd entry) ''status'' = Some (PStr ''evaluated'') \<Longrightarrow> case_won c (snd entry)"
    and "\<forall>entry\<in>set (run_cases h job_id job timeout m cs bound). window_evaluated (snd entry)"
  shows "list_all2 (\<lambda>c entry. case_won c (snd entry)) cs (run_cases h job_id job timeout m cs bound)"
proof (rule list.rel_mono_strong [OF run_cases_entries])
  fix c entry
  assume e: "entry \<in> set (run_cases h job_id job timeout m cs bound)"
    "\<exists>bound r. entry = case_entry job_id c r \<and> fst (run_case h job_id job timeout m c bound) = r"
  then obtain b r where r: "entry = case_entry job_id c r" "fst (run_case h job_id job timeout m c b) = r" by blast
  from e(1) assms(2) have "window_evaluated (snd entry)" by blast
  from entry_evaluated [OF r this] show "case_won c (snd entry)" using assms(1) [OF e(1)] by metis
qed

lemma aggregate_not_single:
  assumes "results \<noteq> []" and "(case results of [(i, output)] \<Rightarrow> Inr output
      | outputs \<Rightarrow> bindE (aggregate_true_replay_windows outputs) (\<lambda>agg. Inr (dput ''job_id'' (PStr job_id) agg))) = Inr out"
  shows "(\<exists>i. results = [(i, out)]) \<or>
    (\<exists>agg. aggregate_true_replay_windows results = Inr agg \<and> dget_none out ''accepted'' = dget_none agg ''accepted'')"
proof (cases results)
  case Nil
  with assms(1) show ?thesis by simp
next
  case (Cons e es)
  with assms(2) show ?thesis
    by (cases es; cases e) (auto simp: bindE_Inr_iff dget_or_dput)
qed

lemma accepted_outputs_won:
  assumes "(case run_cases h job_id job timeout m cs None of [(i, output)] \<Rightarrow> Inr output
      | outputs \<Rightarrow> bindE (aggregate_true_replay_windows outputs) (\<lambda>agg. Inr (dput ''job_id'' (PStr job_id) agg))) = Inr out"
    and "cs \<noteq> []" and "dget_none out ''accepted'' = PBool True"
  shows "list_all2 (\<lambda>c entry. case_won c (snd entry)) cs (run_cases h job_id job timeout m cs None)"
proof -
  let ?out = "run_cases h job_id job timeout m cs None"
  note entries = run_cases_entries [of job_id h job timeout m cs None]
  have "?out \<noteq> []" using list_all2_lengthD [OF entries] assms(2) by auto
  from aggregate_not_single [OF this assms(1)] show ?thesis
  proof (elim disjE exE conjE)
    fix i assume one: "?out = [(i, out)]"
    with entries obtain c b r where cs: "cs = [c]" and e: "(i, out) = case_entry job_id c r"
      "fst (run_case h job_id job timeout m c b) = r" by (auto simp: list_all2_Cons2)
    with assms(3) obtain d where "r = Inr d" by (cases r) (auto simp: case_entry_def failed_output_status)
    with e have "r = Inr out" by (simp add: case_entry_def)
    with e(2) obtain source f where ev: "evaluate_case h job_id job c source f timeout (max 1 (min 20 m)) = Inr out"
      by (metis run_case_evaluates)
    have "case_won c out" by (rule accepted_case_won [OF ev assms(3)])
    with one cs show ?thesis by simp
  next
    fix agg assume agg: "aggregate_true_replay_windows ?out = Inr agg" "dget_none out ''accepted'' = dget_none agg ''accepted''"
    with assms(3) have "dget_none agg ''accepted'' = PBool True" by simp
    from aggregate_accepts_only_complete_runs [OF agg(1) this] obtain css reports where all: "list_all (window_evaluated \<circ> snd) ?out"
      and rep: "mapE window_cases ?out = Inr css" "case_reports (concat css) ''candidate'' = Inr reports"
        "list_all (\<lambda>r. truthy (dget_none r ''all_satisfied'')) reports" by blast
    show ?thesis
      by (rule entries_won) (use aggregated_case_won [OF rep] all in \<open>auto simp: list_all_iff\<close>)
  qed
qed

text \<open>
  C29: An accepted job has evidence from every case. When the evaluation of a job accepts, its
  candidate passed the static validation, at least one case was selected, and every selected
  case ran: both branches of it are ok, and the candidate's report of it has, for each item of
  the case's checklist, an entry with the item's id that is satisfied with nonblank evidence.
\<close>

theorem accepted_job_has_evidence:
  assumes "evaluate_job h job_id given index timeout m = Inr out" and "dget_none out ''accepted'' = PBool True"
  shows "\<exists>job validation annotated. (case given of Some j \<Rightarrow> job = j | None \<Rightarrow> ho_job h job_id = Inr (Some job)) \<and>
    ho_validate h (py_or (dget_none job ''candidate_skill'') (PDict [])) = Inr validation \<and>
    truthy (dget_none validation ''passed'') \<and> annotate_cases h job = Inr annotated \<and>
    selected_cases index annotated \<noteq> [] \<and>
    list_all2 (\<lambda>c entry. case_won c (snd entry)) (selected_cases index annotated)
      (run_cases h job_id job timeout m (selected_cases index annotated) None)"
proof -
  from assms(1) obtain found where found: "(case given of Some job \<Rightarrow> Inr (Some job) | None \<Rightarrow> ho_job h job_id) = Inr found"
    and rest: "(case found of None \<Rightarrow> Inr [(''status'', PStr ''not_found''), (''job_id'', PStr job_id)]
       | Some job \<Rightarrow> evaluate_found h job_id job index timeout m) = Inr out"
    by (auto simp: evaluate_job_def bindE_Inr_iff)
  with assms(2) obtain job where job: "found = Some job" by (cases found) (auto simp: dget_or_def)
  with rest obtain validation where v: "ho_validate h (py_or (dget_none job ''candidate_skill'') (PDict [])) = Inr validation"
    and rest2: "(if \<not> truthy (dget_none validation ''passed'') then Inr (static_rejection job_id validation)
      else evaluate_selected h job_id job index timeout m) = Inr out"
    by (auto simp: evaluate_found_def bindE_Inr_iff)
  with assms(2) have passed: "truthy (dget_none validation ''passed'')"
    by (auto simp: static_rejection_def dget_or_def split: if_splits)
  with rest2 obtain annotated where a: "annotate_cases h job = Inr annotated"
    and rest3: "evaluate_cases h job_id job timeout m (selected_cases index annotated) = Inr out"
    by (auto simp: evaluate_selected_def bindE_Inr_iff)
  with assms(2) have ne: "selected_cases index annotated \<noteq> []"
    by (auto simp: evaluate_cases_def nothing_to_replay_def dget_or_def)
  with rest3 have "list_all2 (\<lambda>c entry. case_won c (snd entry)) (selected_cases index annotated)
      (run_cases h job_id job timeout m (selected_cases index annotated) None)"
    by (intro accepted_outputs_won [OF _ _ assms(2)]) (simp_all add: evaluate_cases_def)
  with found job v passed a ne show ?thesis by (auto split: option.splits)
qed

section \<open>One factory\<close>

lemma run_case_bound:
  assumes "run_case h job_id job timeout m c bound = (r, bound')"
  shows "bound' = bound \<or> bound = None \<and> (\<exists>source f. bound' = Some f \<and> case_source h c = Inr source \<and>
      require_replayable source = Inr () \<and> resolve_factory h source = Inr f)"
    and "r = Inr d \<Longrightarrow> \<exists>f. bound' = Some f \<and> dget d ''adapter_revision'' = Some (fa_revision f)"
proof -
  have parts: "bound' = bound \<and> (\<exists>e. r = Inl e) \<or>
    (\<exists>source f. case_source h c = Inr source \<and> require_replayable source = Inr () \<and> bound' = Some f \<and>
      (bound = Some f \<or> bound = None \<and> resolve_factory h source = Inr f) \<and>
      r = evaluate_case h job_id job c source f timeout (max 1 (min 20 m)))"
  proof (cases "case_source h c")
    case (Inl e)
    with assms have "bound' = bound \<and> r = Inl e" by (auto simp: run_case_def bindS_def liftS_def Inl)
    then show ?thesis by blast
  next
    case source: (Inr source)
    show ?thesis
    proof (cases "require_replayable source")
      case (Inl e)
      with assms source have "bound' = bound \<and> r = Inl e" by (auto simp: run_case_def bindS_def liftS_def Inl)
      then show ?thesis by blast
    next
      case (Inr u)
      with assms source show ?thesis
        by (cases bound; cases "resolve_factory h source") (auto simp: run_case_def bindS_def liftS_def)
    qed
  qed
  then show "bound' = bound \<or> bound = None \<and> (\<exists>source f. bound' = Some f \<and> case_source h c = Inr source \<and>
      require_replayable source = Inr () \<and> resolve_factory h source = Inr f)" by blast
  show "\<exists>f. bound' = Some f \<and> dget d ''adapter_revision'' = Some (fa_revision f)" if "r = Inr d"
  proof -
    from parts that obtain source f where f: "bound' = Some f"
      "evaluate_case h job_id job c source f timeout (max 1 (min 20 m)) = Inr d" by auto
    from f(2) have "dget d ''adapter_revision'' = Some (fa_revision f)" by (rule evaluate_case_parts)
    with f(1) show ?thesis by blast
  qed
qed

lemma run_cases_bound:
  "\<exists>last. (bound \<noteq> None \<longrightarrow> last = bound) \<and>
    (\<forall>f. last = Some f \<longrightarrow> bound = Some f \<or> (\<exists>c\<in>set cs. \<exists>source. case_source h c = Inr source \<and>
       require_replayable source = Inr () \<and> resolve_factory h source = Inr f)) \<and>
    (\<forall>entry\<in>set (run_cases h job_id job timeout m cs bound).
       dget (snd entry) ''adapter_revision'' = None \<or>
       (\<exists>f. last = Some f \<and> dget (snd entry) ''adapter_revision'' = Some (fa_revision f)))"
proof (induction cs arbitrary: bound)
  case Nil
  show ?case by (rule exI [of _ bound]) simp
next
  case (Cons c cs)
  obtain r b where rb: "run_case h job_id job timeout m c bound = (r, b)" by fastforce
  note head = run_case_bound [OF rb]
  from Cons.IH [of b] obtain last where last: "b \<noteq> None \<longrightarrow> last = b"
    "\<forall>f. last = Some f \<longrightarrow> b = Some f \<or> (\<exists>c\<in>set cs. \<exists>source. case_source h c = Inr source \<and>
       require_replayable source = Inr () \<and> resolve_factory h source = Inr f)"
    "\<forall>entry\<in>set (run_cases h job_id job timeout m cs b). dget (snd entry) ''adapter_revision'' = None \<or>
       (\<exists>f. last = Some f \<and> dget (snd entry) ''adapter_revision'' = Some (fa_revision f))"
    by (elim exE conjE) (rule that)
  have kept: "bound \<noteq> None \<longrightarrow> last = bound" using head(1) last(1) by auto
  have origin: "\<forall>f. last = Some f \<longrightarrow> bound = Some f \<or> (\<exists>c\<in>set (c # cs). \<exists>source. case_source h c = Inr source \<and>
       require_replayable source = Inr () \<and> resolve_factory h source = Inr f)"
  proof (intro allI impI)
    fix f assume "last = Some f"
    with last(2) consider "b = Some f" | "\<exists>c\<in>set cs. \<exists>source. case_source h c = Inr source \<and>
       require_replayable source = Inr () \<and> resolve_factory h source = Inr f" by blast
    then show "bound = Some f \<or> (\<exists>c\<in>set (c # cs). \<exists>source. case_source h c = Inr source \<and>
       require_replayable source = Inr () \<and> resolve_factory h source = Inr f)"
    proof cases
      case 1
      with head(1) show ?thesis by auto
    next
      case 2
      then show ?thesis by auto
    qed
  qed
  have "dget (snd (case_entry job_id c r)) ''adapter_revision'' = None \<or>
      (\<exists>f. last = Some f \<and> dget (snd (case_entry job_id c r)) ''adapter_revision'' = Some (fa_revision f))"
  proof (cases r)
    case (Inl e)
    then show ?thesis by (simp add: case_entry_def failed_output_status)
  next
    case (Inr d)
    from head(2) [OF Inr] obtain f where "b = Some f" "dget d ''adapter_revision'' = Some (fa_revision f)" by blast
    with last(1) Inr show ?thesis by (simp add: case_entry_def)
  qed
  with kept origin last(3) show ?case
    by (intro exI [of _ last] conjI) (simp_all add: rb flip: case_entry_def)
qed

text \<open>
  A job runs on one factory. All cases that reached the runtime ran on the same factory
  revision: the one resolved for a replayable source of one of the cases, and never again,
  however many of the cases fail.
\<close>

lemma job_binds_one_factory:
  "\<exists>bound. (\<forall>f. bound = Some f \<longrightarrow> (\<exists>c\<in>set cs. \<exists>source. case_source h c = Inr source \<and>
       require_replayable source = Inr () \<and> resolve_factory h source = Inr f)) \<and>
    (\<forall>entry\<in>set (run_cases h job_id job timeout m cs None).
       dget (snd entry) ''adapter_revision'' = None \<or>
       (\<exists>f. bound = Some f \<and> dget (snd entry) ''adapter_revision'' = Some (fa_revision f)))"
proof -
  from run_cases_bound [of None cs h job_id job timeout m] obtain last where
    "\<forall>f. last = Some f \<longrightarrow> None = Some f \<or> (\<exists>c\<in>set cs. \<exists>source. case_source h c = Inr source \<and>
       require_replayable source = Inr () \<and> resolve_factory h source = Inr f)"
    "\<forall>entry\<in>set (run_cases h job_id job timeout m cs None).
       dget (snd entry) ''adapter_revision'' = None \<or>
       (\<exists>f. last = Some f \<and> dget (snd entry) ''adapter_revision'' = Some (fa_revision f))"
    by (elim exE conjE) (rule that)
  then show ?thesis by (intro exI [of _ last]) simp
qed

section \<open>Examples\<close>

definition demo_reply :: "pyval list \<Rightarrow> replay_session" where
  "demo_reply messages = \<lparr>se_send = Some (\<lambda>sent. Inr (Observation \<lparr>ob_response = PStr ''done'', ob_messages = messages,
     ob_artifacts = [], ob_metrics = PNone, ob_trace_id = PStr '''', ob_reason = PStr ''''\<rparr>)), se_close = Some (Inr ())\<rparr>"

definition demo_report_of :: "bool \<Rightarrow> pydict" where
  "demo_report_of ok = [(''all_satisfied'', PBool ok), (''judge'', PStr ''model''),
     (''items'', PList [PDict [(''id'', PStr ''k''), (''satisfied'', PBool ok), (''evidence'', PStr ''seen'')]])]"

text \<open>The judge is satisfied with a branch that left no messages, the candidate.\<close>

definition demo_judge :: "pydict list \<Rightarrow> pydict list \<Rightarrow> pyval list \<Rightarrow> pyval list \<Rightarrow> pyexc + pydict" where
  "demo_judge k i ms a = (if ms = [] then Inr (demo_report_of True) else Inr (demo_report_of False))"

definition demo_factory :: replay_factory where
  "demo_factory = \<lparr>fa_revision = PStr ''r1'',
     fa_open = (\<lambda>cx. Inr (if cx_branch cx = ''baseline'' then (0, demo_reply [PDict []]) else (1, demo_reply [])))\<rparr>"

definition demo_host :: replay_host where
  "demo_host = \<lparr>ho_job = (\<lambda>i. Inr None), ho_source = (\<lambda>i. Inr None), ho_snapshot = (\<lambda>i d. Inr None),
     ho_factory = (\<lambda>t d. Inr (Some demo_factory)), ho_validate = (\<lambda>v. Inr [(''passed'', PBool True)]),
     ho_clock = (\<lambda>i b n. 0), ho_request_id = (\<lambda>i b. b), ho_hash = (\<lambda>v. ''h''),
     ho_judge = demo_judge, ho_feedback = (\<lambda>r p sel d n. Inr ''more''),
     ho_trajectory = (\<lambda>ms. Inr ''''), ho_paths = (\<lambda>q ms. ([], []))\<rparr>"

definition demo_job :: pydict where
  "demo_job = [(''candidate_skill'', PDict [(''name'', PStr ''s'')]), (''replay_cases'', PList [PDict
     [(''query'', PStr ''q''), (''provenance'', PDict [(''source_runtime'', PDict [(''type'', PStr ''pi'')])]),
      (''checks'', PList [PDict [(''id'', PStr ''k''), (''text'', PStr ''t''), (''kind'', PStr ''output'')]])]])]"

text \<open>The case as annotated, its source, and the context of a branch.\<close>

definition demo_case :: pydict where
  "demo_case = [(''query'', PStr ''q''), (''provenance'', PDict [(''source_runtime'', PDict [(''type'', PStr ''pi'')])]),
     (''checks'', PList [PDict [(''id'', PStr ''k''), (''text'', PStr ''t''), (''kind'', PStr ''output'')]]),
     (''index'', PInt 0),
     (''replay'', PDict [(''progressive_disclosure'', PDict [(''enabled'', PBool True),
        (''initial_visibility'', PStr ''query_only''), (''batch_size'', PInt 4),
        (''stop_when'', PStr ''all_checklist_items_satisfied'')])]),
     (''evaluation_profile'', PStr ''''), (''source_runtime'', PDict [(''type'', PStr ''pi'')]),
     (''source_runtime_context'', PDict []), (''context_snapshot_id'', PStr ''''), (''had_tool_calls'', PBool False),
     (''materials'', PList []), (''referenced_paths'', PList []), (''missing_paths'', PList []),
     (''grounded'', PBool False), (''runnable'', PBool True)]"

definition demo_source :: pydict where
  "demo_source = [(''session_id'', PNone), (''runtime'', PDict [(''type'', PStr ''pi'')]), (''runtime_context'', PDict [])]"

definition demo_cx :: "string \<Rightarrow> replay_context" where
  "demo_cx b = \<lparr>cx_branch = b, cx_runtime_type = ''pi'', cx_request_id = b, cx_snapshot = PDict [], cx_materials = [],
     cx_timeout = 60, cx_skill = (if b = ''baseline'' then None else Some [(''name'', PStr ''s'')]),
     cx_source = demo_source, cx_turn_num = 1\<rparr>"

lemma demo_annotated: "annotate_cases demo_host demo_job = Inr [demo_case]"
  by code_simp

lemma demo_case_source: "case_source demo_host demo_case = Inr demo_source" "require_replayable demo_source = Inr ()"
  by code_simp+

lemma demo_contexts:
  "job_contexts demo_host demo_job demo_case demo_source 60 [] = Inr [demo_cx ''baseline'', demo_cx ''candidate'']"
  by code_simp

definition demo_args :: "pyval list \<Rightarrow> branch_args" where
  "demo_args ms = \<lparr>ba_clock = (\<lambda>n. 0), ba_hash = (\<lambda>v. ''h''), ba_judge = demo_judge,
     ba_feedback = (\<lambda>r p sel d n. Inr ''more''), ba_open = Inr None, ba_session = Some (demo_reply ms)\<rparr>"

definition demo_result :: "string \<Rightarrow> pyval list \<Rightarrow> bool \<Rightarrow> pydict" where
  "demo_result b ms ok =
     (let report = PDict (demo_report_of ok @ [(''rounds'', PInt 1)])
      in [(''branch'', PStr b), (''runtime'', PStr ''pi''), (''request_id'', PStr b), (''ok'', PBool True),
          (''completed'', PBool ok), (''context_input_hash'', PStr ''h''), (''execution_manifest_hash'', PStr ''h''),
          (''messages'', PList ms),
          (''interactions'', PList [PDict [(''interaction_num'', PInt 1), (''prompt'', PStr ''q''), (''response'', PStr ''done''),
             (''metrics'', PDict (map (\<lambda>k. (k, PStr unavailable)) runtime_metrics)), (''trace_id'', PStr ''''),
             (''metrics_incomplete_reason'', PStr ''''), (''checklist_report'', report)]]),
          (''artifacts'', PList []), (''disclosures'', PList []), (''trace_ids'', PList []),
          (''metrics_incomplete_reasons'', PList []), (''checklist_report'', report), (''final_response'', PStr ''done''),
          (''status'', PStr (if ok then ''completed'' else ''checklist_incomplete'')),
          (''interaction_turns'', PInt 1), (''elapsed_seconds'', PFloat (Fin 0))] @
         map (\<lambda>k. (k, PStr unavailable)) runtime_metrics)"

definition demo_runs :: "(pyexc + pydict \<times> branch_state) \<Rightarrow> pydict \<Rightarrow> bool" where
  "demo_runs r d = (case r of Inr (d', s) \<Rightarrow> d' = d | Inl e \<Rightarrow> False)"

lemma demo_runs_D: "demo_runs r d \<Longrightarrow> \<exists>s. r = Inr (d, s)"
  by (auto simp: demo_runs_def split: sum.splits)

lemma demo_baseline_runs:
  "demo_runs (run_branch (demo_args [PDict []]) (demo_cx ''baseline'') demo_case 1)
     (demo_result ''baseline'' [PDict []] False)"
  by code_simp

lemma demo_candidate_runs:
  "demo_runs (run_branch (demo_args []) (demo_cx ''candidate'') demo_case 1) (demo_result ''candidate'' [] True)"
  by code_simp

definition field_is :: "pyexc + pydict \<Rightarrow> string \<Rightarrow> pyval \<Rightarrow> bool" where
  "field_is r k v = (case r of Inr d \<Rightarrow> dget_none d k = v | Inl e \<Rightarrow> False)"

lemma demo_decision:
  "(case compare_efficiency (demo_result ''baseline'' [PDict []] False) (demo_result ''candidate'' [] True) of
      Inr e \<Rightarrow> (case (normalize_checklist_report (demo_result ''baseline'' [PDict []] False) (case_checks demo_case),
                   normalize_checklist_report (demo_result ''candidate'' [] True) (case_checks demo_case)) of
        (Inr b, Inr c) \<Rightarrow> field_is (progressive_replay_decision e b c) ''accepted'' (PBool True)
      | _ \<Rightarrow> False) | _ \<Rightarrow> False)"
  by code_simp

definition demo_sessions :: open_sessions where
  "demo_sessions = [(''baseline'', 0, demo_reply [PDict []]), (''candidate'', 1, demo_reply [])]"

lemma demo_opened: "open_pair demo_factory [demo_cx ''baseline'', demo_cx ''candidate''] [] = (None, demo_sessions)"
  by (simp add: open_branch_def demo_factory_def demo_cx_def demo_sessions_def session_ready_def demo_reply_def)

lemma demo_pair_args:
  "pair_args demo_host 0 demo_sessions ''baseline'' = demo_args [PDict []]"
  "pair_args demo_host 0 demo_sessions ''candidate'' = demo_args []"
  by (simp_all add: pair_args_def demo_host_def demo_sessions_def demo_args_def)

lemma demo_pair_runs:
  obtains shut where
    "execute_pair demo_host 0 demo_factory [demo_cx ''baseline'', demo_cx ''candidate''] demo_case 1 =
       Inr ([(''baseline'', demo_result ''baseline'' [PDict []] False), (''candidate'', demo_result ''candidate'' [] True)], shut)"
proof -
  have b: "cx_branch (demo_cx b) = b" for b by (simp add: demo_cx_def)
  from demo_runs_D [OF demo_baseline_runs] demo_runs_D [OF demo_candidate_runs] obtain sb sc where
    "branch_run demo_host 0 demo_sessions demo_case 1 (demo_cx ''baseline'') =
       Inr (''baseline'', demo_result ''baseline'' [PDict []] False, sb)"
    "branch_run demo_host 0 demo_sessions demo_case 1 (demo_cx ''candidate'') =
       Inr (''candidate'', demo_result ''candidate'' [] True, sc)"
    by (auto simp: branch_run_def b demo_pair_args)
  then have "\<exists>shut. execute_pair demo_host 0 demo_factory [demo_cx ''baseline'', demo_cx ''candidate''] demo_case 1 =
       Inr ([(''baseline'', demo_result ''baseline'' [PDict []] False), (''candidate'', demo_result ''candidate'' [] True)], shut)"
    unfolding execute_pair_def demo_opened by simp
  with that show thesis by blast
qed

lemma demo_case_checked:
  "\<exists>ks. mapE (branch_checklist demo_case) [(''baseline'', demo_result ''baseline'' [PDict []] False),
     (''candidate'', demo_result ''candidate'' [] True)] = Inr [(''baseline'', fst ks), (''candidate'', snd ks)] \<and>
   (\<exists>e p. compare_efficiency (demo_result ''baseline'' [PDict []] False) (demo_result ''candidate'' [] True) = Inr e \<and>
     progressive_replay_decision e (fst ks) (snd ks) = Inr p \<and> dget_none p ''accepted'' = PBool True)"
  using demo_decision by (auto simp: branch_checklist_def field_is_def split: sum.splits prod.splits)

lemma demo_case_branches:
  "\<exists>bs. mapE (case_branch demo_host demo_case ks) [(''baseline'', demo_result ''baseline'' [PDict []] False),
     (''candidate'', demo_result ''candidate'' [] True)] = Inr bs"
  by (simp add: case_branch_def get_in_def demo_case_def py_get_def py_or_def demo_result_def py_iter_def demo_host_def
      demo_report_of_def Let_def)

lemma demo_case_accepted:
  obtains out where "evaluate_case demo_host ''j'' demo_job demo_case demo_source demo_factory 60 1 = Inr out"
    "dget_none out ''accepted'' = PBool True"
proof -
  let ?rs = "[(''baseline'', demo_result ''baseline'' [PDict []] False), (''candidate'', demo_result ''candidate'' [] True)]"
  from demo_pair_runs obtain shut where pair: "execute_pair demo_host 0 demo_factory
      [demo_cx ''baseline'', demo_cx ''candidate''] demo_case 1 = Inr (?rs, shut)" .
  from demo_case_checked obtain ks e p where k: "mapE (branch_checklist demo_case) ?rs =
      Inr [(''baseline'', fst ks), (''candidate'', snd ks)]"
    and d: "compare_efficiency (demo_result ''baseline'' [PDict []] False) (demo_result ''candidate'' [] True) = Inr e"
      "progressive_replay_decision e (fst ks) (snd ks) = Inr p" "dget_none p ''accepted'' = PBool True" by blast
  from demo_case_branches obtain bs where
    bs: "mapE (case_branch demo_host demo_case [(''baseline'', fst ks), (''candidate'', snd ks)]) ?rs = Inr bs" by blast
  have snap: "snapshot_of demo_host demo_case demo_source = Inr []" and index: "case_index demo_case = 0"
    and rt: "source_runtime_type demo_source = Inr ''pi''" by code_simp+
  have fails: "concat (map branch_failure ?rs) = []" by (simp add: branch_failure_def demo_result_def Let_def)
  have look: "of_branch [(''baseline'', x), (''candidate'', y)] ''baseline'' = x"
    "of_branch [(''baseline'', x), (''candidate'', y)] ''candidate'' = y" for x y by (simp_all add: of_branch_def)
  have "evaluate_case demo_host ''j'' demo_job demo_case demo_source demo_factory 60 1 =
      Inr (case_output ''j'' demo_case demo_factory 1 [] p e [(''baseline'', fst ks), (''candidate'', snd ks)] bs ''pi'')"
    unfolding evaluate_case_def snap index bindE_simps demo_contexts pair fst_conv Let_def fails k look d(1,2) bs rt by simp
  moreover have "dget_none (case_output ''j'' demo_case demo_factory 1 [] p e ks' bs ''pi'') ''accepted'' = PBool True" for ks'
    by (simp add: case_output_def d(3))
  ultimately show thesis by (rule that)
qed

lemma demo_case_run:
  obtains out where "run_cases demo_host ''j'' demo_job 60 1 [demo_case] None = [(''0'', out)]"
    "dget_none out ''accepted'' = PBool True" "dget out ''adapter_revision'' = Some (PStr ''r1'')"
proof -
  from demo_case_accepted obtain out where
    out: "evaluate_case demo_host ''j'' demo_job demo_case demo_source demo_factory 60 1 = Inr out"
    and acc: "dget_none out ''accepted'' = PBool True" .
  have rt: "source_runtime_type demo_source = Inr ''pi''" and index: "int_str (case_index demo_case) = ''0''"
    by (code_simp, code_simp)
  have f: "resolve_factory demo_host demo_source = Inr demo_factory"
    by (simp add: resolve_factory_def rt) (simp add: demo_host_def)
  have "run_case demo_host ''j'' demo_job 60 1 demo_case None = (Inr out, Some demo_factory)"
    by (simp add: run_case_def bindS_def liftS_def demo_case_source f out)
  then have "run_cases demo_host ''j'' demo_job 60 1 [demo_case] None = [(''0'', out)]" by (simp add: index)
  moreover from out have "dget out ''adapter_revision'' = Some (fa_revision demo_factory)" by (rule evaluate_case_parts)
  ultimately show thesis using acc by (intro that) (simp_all add: demo_factory_def)
qed

lemma demo_selected: "selected_cases None [demo_case] = [demo_case]"
  by (simp add: selected_cases_def demo_case_def)

lemma demo_job_accepted:
  obtains out where "evaluate_job demo_host ''j'' (Some demo_job) None 60 1 = Inr out" "dget_none out ''accepted'' = PBool True"
proof -
  from demo_case_run obtain out where out: "run_cases demo_host ''j'' demo_job 60 1 [demo_case] None = [(''0'', out)]"
    "dget_none out ''accepted'' = PBool True" .
  have "ho_validate demo_host v = Inr [(''passed'', PBool True)]" for v by (simp add: demo_host_def)
  then have "evaluate_job demo_host ''j'' (Some demo_job) None 60 1 = Inr out"
    by (simp add: evaluate_job_def evaluate_found_def evaluate_selected_def evaluate_cases_def demo_annotated
        demo_selected out(1) del: run_cases.simps)
  with out(2) that show thesis by blast
qed

theorem accepted_job_has_evidence_witness:
  "\<exists>out. evaluate_job demo_host ''j'' (Some demo_job) None 60 1 = Inr out \<and> dget_none out ''accepted'' = PBool True \<and>
     list_all2 (\<lambda>c entry. case_won c (snd entry)) [demo_case] (run_cases demo_host ''j'' demo_job 60 1 [demo_case] None)"
proof -
  from demo_job_accepted obtain out where
    out: "evaluate_job demo_host ''j'' (Some demo_job) None 60 1 = Inr out" "dget_none out ''accepted'' = PBool True" .
  from accepted_job_has_evidence [OF out] out show ?thesis by (auto simp: demo_annotated demo_selected simp del: run_cases.simps)
qed


end
