(* ===== verification/MemoryCompile.thy ===== *)
theory MemoryCompile imports PyValue begin

text \<open>
  Team memory: the tree reduction of sources and the resumable compile stages
  (src/team\_memory/merge.py, the stage table of repository.py, the guard of runs.py, and the
  plan of groups and the user inventory of pipeline.py; the states of a compile task from
  src/teamEvolver/openviking/schemas.py). A stage is driven by attempts that may raise or die
  between any two statements: an attempt is a program point, one transaction or one call of
  the compile service is a step, and what the outside does in a step is its reply. Attempts of
  a task do not overlap, as the fence of the task queue provides.
\<close>

section \<open>Tree reduction\<close>

text \<open>A group: its key, its inputs, and its output, empty for the target.\<close>

type_synonym merge_group = "string \<times> string list \<times> string"

function chunks :: "nat \<Rightarrow> 'a list \<Rightarrow> 'a list list" where
  "chunks n xs = (if xs = [] \<or> n = 0 then [] else take n xs # chunks n (drop n xs))"
  by pat_completeness auto
termination by (relation "measure (\<lambda>(n, xs). length xs)") auto

declare chunks.simps [simp del]

definition merge_output :: "string \<Rightarrow> nat \<Rightarrow> nat \<Rightarrow> string" where
  "merge_output work level i = work @ ''/merge-'' @ nat_str level @ ''-'' @ nat_str i"

definition merge_group_of :: "string \<Rightarrow> nat \<Rightarrow> nat \<times> string list \<Rightarrow> merge_group" where
  "merge_group_of work level = (\<lambda>(i, inputs).
     (''merge:'' @ nat_str level @ '':'' @ nat_str i, inputs, merge_output work level i))"

definition level_groups :: "string \<Rightarrow> nat \<Rightarrow> nat \<Rightarrow> string list \<Rightarrow> merge_group list" where
  "level_groups work fan_in level roots = map (merge_group_of work level) (enumerate 0 (chunks fan_in roots))"

text \<open>
  The generator: the levels it yields, with \<open>fuel\<close> for the turns of its loop. \<open>None\<close> is a
  loop that has not ended; a fan-in of zero makes \<open>range\<close> raise, which the bounds of the
  callers exclude.
\<close>

fun tree_levels_from :: "nat \<Rightarrow> string \<Rightarrow> nat \<Rightarrow> nat \<Rightarrow> string list \<Rightarrow> merge_group list list option" where
  "tree_levels_from 0 work fan_in level roots = None"
| "tree_levels_from (Suc fuel) work fan_in level roots =
     (if length roots \<le> fan_in then Some [[(''publish'', roots, '''')]]
      else let groups = level_groups work fan_in level roots
           in map_option ((#) groups) (tree_levels_from fuel work fan_in (Suc level) (map (snd \<circ> snd) groups)))"

definition tree_levels :: "nat \<Rightarrow> string list \<Rightarrow> nat \<Rightarrow> string \<Rightarrow> merge_group list list option" where
  "tree_levels fuel sources fan_in work = tree_levels_from fuel work fan_in 0 sources"

section \<open>The compile service\<close>

datatype compile_state = PENDING | RUNNING | SUCCEEDED | FAILED | CANCELLED

fun state_value :: "compile_state \<Rightarrow> string" where
  "state_value PENDING = ''pending''"
| "state_value RUNNING = ''running''"
| "state_value SUCCEEDED = ''succeeded''"
| "state_value FAILED = ''failed''"
| "state_value CANCELLED = ''cancelled''"

definition raw_state_map :: "(string \<times> compile_state) list" where
  "raw_state_map =
     [(''pending'', PENDING), (''queued'', PENDING), (''submitted'', PENDING),
      (''running'', RUNNING), (''in_progress'', RUNNING), (''processing'', RUNNING),
      (''succeeded'', SUCCEEDED), (''success'', SUCCEEDED), (''completed'', SUCCEEDED), (''done'', SUCCEEDED),
      (''ok'', SUCCEEDED), (''failed'', FAILED), (''error'', FAILED),
      (''cancelled'', CANCELLED), (''canceled'', CANCELLED), (''aborted'', CANCELLED)]"

definition normalize_state :: "pyval \<Rightarrow> compile_state" where
  "normalize_state raw =
     (case map_of raw_state_map (py_lower (py_strip (py_str (py_or raw (PStr ''''))))) of
        None \<Rightarrow> RUNNING | Some s \<Rightarrow> s)"

definition is_terminal :: "compile_state \<Rightarrow> bool" where
  "is_terminal s \<longleftrightarrow> s \<in> {SUCCEEDED, FAILED, CANCELLED}"

section \<open>A compile stage\<close>

record stage_row =
  sr_input_hash :: string
  sr_status :: string
  sr_upstream :: string
  sr_result_ref :: string

text \<open>
  The constants of a stage: the hash of the payload, the idempotency key, the reference of the
  artifact, and \<open>payload["to"]\<close>.
\<close>

record compile_args =
  ca_input_hash :: string
  ca_dedupe :: string
  ca_artifact :: string
  ca_to :: string

text \<open>
  What lasts: the row of the stage, the tasks of the compile service by idempotency key, and
  the artifacts. The service is not trusted to deduplicate: each submission makes a task.
\<close>

record compile_world =
  wo_row :: "stage_row option"
  wo_tasks :: "(string \<times> string) list"
  wo_artifacts :: "string list"

text \<open>
  The reply to a step: the attempt dies; the guard of a transaction raises or gives the
  cancellation flag; a call raises, with effect on the service or without; the id of a new
  task; the state of the task asked for.
\<close>

record reply =
  re_dies :: bool
  re_guard :: "pyexc + bool"
  re_call :: "pyexc option"
  re_lost :: bool
  re_task_id :: string
  re_raw_state :: pyval

datatype compile_point =
    At_read
  | At_renew "stage_row option"
  | At_lookup
  | At_mark "string option" bool
  | At_submit
  | At_upstream string
  | At_poll string
  | At_guard string
  | At_cancel string
  | At_status string bool
  | At_fail string compile_state bool
  | At_store string
  | Returned string
  | Raised pyexc

definition interrupted :: "string \<Rightarrow> pyexc" where
  "interrupted msg = PyExc ''InterruptedError'' msg"

text \<open>\<open>guard\<close>: the attempt holds its task; a requested cancellation raises unless it is allowed.\<close>

definition stage_guard :: "bool \<Rightarrow> reply \<Rightarrow> pyexc + bool" where
  "stage_guard allow_cancel r =
     (case re_guard r of
        Inl e \<Rightarrow> Inl e
      | Inr cancelled \<Rightarrow>
          if cancelled \<and> \<not> allow_cancel then Inl (interrupted ''Memory task cancelled'') else Inr cancelled)"

text \<open>\<open>save_stage\<close>: the insert, or the update of the row, which keeps its input hash.\<close>

definition save_stage :: "compile_args \<Rightarrow> string \<Rightarrow> string \<Rightarrow> string \<Rightarrow> compile_world \<Rightarrow> compile_world" where
  "save_stage a status upstream result_ref w =
     w\<lparr>wo_row := Some
       (case wo_row w of
          None \<Rightarrow> \<lparr>sr_input_hash = ca_input_hash a, sr_status = status, sr_upstream = upstream, sr_result_ref = result_ref\<rparr>
        | Some row \<Rightarrow> row\<lparr>sr_status := status, sr_upstream := upstream, sr_result_ref := result_ref\<rparr>)\<rparr>"

text \<open>One transaction under the guard, and one call of the service.\<close>

definition guarded ::
  "bool \<Rightarrow> reply \<Rightarrow> compile_world \<Rightarrow> (bool \<Rightarrow> compile_world \<times> compile_point) \<Rightarrow> compile_world \<times> compile_point" where
  "guarded allow_cancel r w k = (case stage_guard allow_cancel r of Inl e \<Rightarrow> (w, Raised e) | Inr c \<Rightarrow> k c)"

definition called :: "reply \<Rightarrow> compile_world \<Rightarrow> compile_point \<Rightarrow> compile_world \<times> compile_point" where
  "called r w p = (case re_call r of Some e \<Rightarrow> (w, Raised e) | None \<Rightarrow> (w, p))"

definition read_stage :: "compile_args \<Rightarrow> stage_row option \<Rightarrow> compile_point" where
  "read_stage a found =
     (case found of
        None \<Rightarrow> At_renew None
      | Some row \<Rightarrow>
          if sr_input_hash row \<noteq> ca_input_hash a then Raised (PyExc ''ValueError'' ''Memory checkpoint input changed'')
          else if sr_status row = ''succeeded'' then Returned (sr_result_ref row)
          else At_renew (Some row))"

definition resume_stage :: "stage_row option \<Rightarrow> compile_point" where
  "resume_stage found =
     (case found of
        None \<Rightarrow> At_mark None False
      | Some row \<Rightarrow>
          if sr_upstream row \<noteq> '''' then At_poll (sr_upstream row)
          else if sr_status row = ''running'' then At_lookup
          else At_mark None False)"

fun attempt_step :: "compile_args \<Rightarrow> reply \<Rightarrow> compile_world \<Rightarrow> compile_point \<Rightarrow> compile_world \<times> compile_point" where
  "attempt_step a r w At_read = guarded True r w (\<lambda>_. (w, read_stage a (wo_row w)))"
| "attempt_step a r w (At_renew found) = called r w (resume_stage found)"
| "attempt_step a r w At_lookup = called r w (At_mark (map_of (wo_tasks w) (ca_dedupe a)) True)"
| "attempt_step a r w (At_mark submitted allow_cancel) =
     guarded allow_cancel r w (\<lambda>_. (save_stage a ''running'' '''' '''' w,
       case submitted of None \<Rightarrow> At_submit | Some t \<Rightarrow> At_upstream t))"
| "attempt_step a r w At_submit =
     (let made = w\<lparr>wo_tasks := wo_tasks w @ [(ca_dedupe a, re_task_id r)]\<rparr>
      in case re_call r of
           Some e \<Rightarrow> (if re_lost r then made else w, Raised e)
         | None \<Rightarrow> (made, At_upstream (re_task_id r)))"
| "attempt_step a r w (At_upstream t) =
     guarded True r w (\<lambda>_. (save_stage a ''running'' t '''' w, At_poll t))"
| "attempt_step a r w (At_poll t) = called r w (At_guard t)"
| "attempt_step a r w (At_guard t) =
     guarded True r w (\<lambda>cancelled. (w, if cancelled then At_cancel t else At_status t False))"
| "attempt_step a r w (At_cancel t) = called r w (At_status t True)"
| "attempt_step a r w (At_status t cancelled) =
     (let s = normalize_state (re_raw_state r)
      in called r w (if \<not> is_terminal s then At_poll t
                     else if s \<noteq> SUCCEEDED \<or> cancelled then At_fail t s cancelled
                     else At_store t))"
| "attempt_step a r w (At_fail t s cancelled) =
     guarded True r w (\<lambda>_. (save_stage a (state_value s) t '''' w,
       Raised (if cancelled \<or> s = CANCELLED then interrupted ''Memory Compile cancelled''
               else PyExc ''ValueError'' (''Memory Compile '' @ state_value s))))"
| "attempt_step a r w (At_store t) =
     guarded True r w (\<lambda>cancelled.
       if cancelled then (save_stage a ''cancelled'' t '''' w, Raised (interrupted ''Memory Compile cancelled''))
       else (save_stage a ''succeeded'' t (ca_to a) (w\<lparr>wo_artifacts := ca_artifact a # wo_artifacts w\<rparr>),
             Returned (ca_to a)))"
| "attempt_step a r w (Returned x) = (w, At_read)"
| "attempt_step a r w (Raised e) = (w, At_read)"

text \<open>A dead attempt, and one that has ended, are followed by a new one.\<close>

definition stage_step :: "compile_args \<Rightarrow> reply \<Rightarrow> compile_world \<times> compile_point \<Rightarrow> compile_world \<times> compile_point" where
  "stage_step a r c = (if re_dies r then (fst c, At_read) else attempt_step a r (fst c) (snd c))"

definition stage_run :: "compile_args \<Rightarrow> reply list \<Rightarrow> compile_world \<times> compile_point \<Rightarrow> compile_world \<times> compile_point" where
  "stage_run a rs c = fold (stage_step a) rs c"

definition fresh_stage :: "compile_world \<times> compile_point" where
  "fresh_stage = (\<lparr>wo_row = None, wo_tasks = [], wo_artifacts = []\<rparr>, At_read)"

section \<open>The plan of a run\<close>

text \<open>The bounds \<open>pipeline\<close> puts on its settings.\<close>

definition bounded :: "int \<Rightarrow> int \<Rightarrow> int \<Rightarrow> nat" where
  "bounded low high v = nat (max low (min high v))"

record merge_plan_args =
  mp_work :: string
  mp_target :: string
  mp_fan_in :: int
  mp_incremental :: bool
  mp_full :: bool
  mp_batch_users :: int
  mp_threshold :: int
  mp_partitions :: int
  mp_hash :: "string \<Rightarrow> nat"

text \<open>\<open>source.rsplit("/", 1)[-1]\<close>, and \<open>{n:04d}\<close>.\<close>

definition last_segment :: "string \<Rightarrow> string" where
  "last_segment s = rev (takeWhile (\<lambda>c. c \<noteq> CHR ''/'') (rev s))"

definition padded4 :: "nat \<Rightarrow> string" where
  "padded4 n = replicate (4 - length (nat_str n)) CHR ''0'' @ nat_str n"

definition plan_fan_in :: "merge_plan_args \<Rightarrow> nat" where
  "plan_fan_in p = bounded 2 15 (mp_fan_in p)"

definition batch_groups :: "merge_plan_args \<Rightarrow> string list \<Rightarrow> merge_group list list" where
  "batch_groups p selected =
     (let size = nat (max 1 (min (int (plan_fan_in p)) (mp_batch_users p)))
      in map (\<lambda>(i, group). [(''batch:'' @ nat_str (i * size), group, mp_target p)]) (enumerate 0 (chunks size selected)))"

definition bucket_of :: "merge_plan_args \<Rightarrow> string \<Rightarrow> nat" where
  "bucket_of p source = mp_hash p (last_segment source) mod bounded 16 1024 (mp_partitions p)"

definition partition_group :: "merge_plan_args \<Rightarrow> nat \<Rightarrow> merge_group \<Rightarrow> merge_group" where
  "partition_group p bucket = (\<lambda>(key, inputs, output).
     (''partition:'' @ nat_str bucket @ '':'' @ key, inputs,
      if output \<noteq> '''' then output else mp_target p @ ''/partition-'' @ padded4 bucket))"

definition bucket_levels :: "nat \<Rightarrow> merge_plan_args \<Rightarrow> string list \<Rightarrow> nat \<Rightarrow> merge_group list list option" where
  "bucket_levels fuel p sources bucket =
     map_option (map (map (partition_group p bucket)))
       (tree_levels fuel (filter (\<lambda>s. bucket_of p s = bucket) sources) (plan_fan_in p)
          (mp_work p @ ''/partition-'' @ nat_str bucket))"

fun all_some :: "'a option list \<Rightarrow> 'a list option" where
  "all_some [] = Some []"
| "all_some (None # xs) = None"
| "all_some (Some x # xs) = map_option ((#) x) (all_some xs)"

definition plan_groups ::
  "nat \<Rightarrow> merge_plan_args \<Rightarrow> string list \<Rightarrow> string list \<Rightarrow> int \<Rightarrow> merge_group list list option" where
  "plan_groups fuel p sources changed users =
     (if mp_incremental p then Some (batch_groups p (if mp_full p then sources else changed))
      else if users \<ge> mp_threshold p
      then map_option concat (all_some (map (bucket_levels fuel p sources)
             (sort (remdups (map (bucket_of p) sources)))))
      else tree_levels fuel sources (plan_fan_in p) (mp_work p))"

text \<open>Where a group is compiled to: \<open>output or payload["target_uri"]\<close>.\<close>

definition compile_target :: "merge_plan_args \<Rightarrow> merge_group \<Rightarrow> string" where
  "compile_target p g = (if snd (snd g) \<noteq> '''' then snd (snd g) else mp_target p)"

section \<open>The inventory of users\<close>

text \<open>The rows of a page, with the rule for user ids and the answer of the service as arguments.\<close>

definition page_user :: "(pyval \<Rightarrow> pyexc + string) \<Rightarrow> pyval \<Rightarrow> pyexc + string" where
  "page_user norm_id row =
     (case row of
        PStr s \<Rightarrow> norm_id row
      | PDict d \<Rightarrow> norm_id (dget_or d ''user_id'' (dget_none d ''id''))
      | _ \<Rightarrow> Inl attribute_error)"

definition page_users :: "(pyval \<Rightarrow> pyexc + string) \<Rightarrow> pyval \<Rightarrow> pyexc + string list" where
  "page_users norm_id page =
     (case (case page of PDict d \<Rightarrow> dget_or d ''users'' (dget_or d ''items'' (PList [])) | _ \<Rightarrow> page) of
        PList items \<Rightarrow> mapE (page_user norm_id) items
      | _ \<Rightarrow> Inl (PyExc ''ValueError'' ''invalid account user inventory''))"

text \<open>
  The loop over the pages: \<open>fetch limit offset\<close> is the answer of the service. It ends whatever
  the service answers, which is the termination proof.
\<close>

definition page_size :: "int \<Rightarrow> nat" where
  "page_size page_len = bounded 1 1000 page_len"

definition user_limit :: "int \<Rightarrow> nat" where
  "user_limit limit = bounded 1 1000000 limit"

definition inventory_page ::
  "(pyval \<Rightarrow> pyexc + string) \<Rightarrow> (int \<Rightarrow> int \<Rightarrow> pyexc + pyval) \<Rightarrow> int \<Rightarrow> int \<Rightarrow> string list \<Rightarrow> pyexc + string list" where
  "inventory_page norm_id fetch page_len limit users =
     bindE (fetch (min (int (page_size page_len)) (int (user_limit limit) + 1 - int (length users))) (int (length users))) (\<lambda>page.
     bindE (page_users norm_id page) (\<lambda>rows.
       if set rows \<inter> set users \<noteq> {} then Inl (PyExc ''ValueError'' ''user pagination did not advance'')
       else if length users + length rows > user_limit limit
       then Inl (PyExc ''ValueError'' ''account user safety limit exceeded'')
       else Inr rows))"

lemma inventory_page_fits:
  "inventory_page norm_id fetch page_len limit users = Inr rows \<Longrightarrow> length users + length rows \<le> user_limit limit"
  by (auto simp: inventory_page_def bindE_Inr_iff split: if_splits)

lemma page_size_pos [simp]: "0 < page_size page_len"
  by (simp add: page_size_def bounded_def)

function inventory_from ::
  "(pyval \<Rightarrow> pyexc + string) \<Rightarrow> (int \<Rightarrow> int \<Rightarrow> pyexc + pyval) \<Rightarrow> int \<Rightarrow> int \<Rightarrow> string list \<Rightarrow> pyexc + string list" where
  "inventory_from norm_id fetch page_len limit users =
     (case inventory_page norm_id fetch page_len limit users of
        Inl e \<Rightarrow> Inl e
      | Inr rows \<Rightarrow>
          if length rows < page_size page_len then Inr (users @ rows)
          else inventory_from norm_id fetch page_len limit (users @ rows))"
  by pat_completeness auto
termination
proof (relation "measure (\<lambda>(norm_id, fetch, page_len, limit, users). user_limit limit - length users)")
  fix norm_id fetch page_len limit users rows
  assume page: "inventory_page norm_id fetch page_len limit users = Inr rows" and full: "\<not> length rows < page_size page_len"
  have "0 < length rows" using full page_size_pos [of page_len] by linarith
  with inventory_page_fits [OF page] have "user_limit limit - (length users + length rows) < user_limit limit - length users"
    by linarith
  then show "((norm_id, fetch, page_len, limit, users @ rows), (norm_id, fetch, page_len, limit, users))
      \<in> measure (\<lambda>(norm_id, fetch, page_len, limit, users). user_limit limit - length users)"
    by simp
qed simp

declare inventory_from.simps [simp del]

text \<open>The users given with the run, or those of the account but the one that merges.\<close>

definition inventory_users ::
  "(pyval \<Rightarrow> pyexc + string) \<Rightarrow> (int \<Rightarrow> int \<Rightarrow> pyexc + pyval) \<Rightarrow> int \<Rightarrow> int \<Rightarrow> string \<Rightarrow> string list option \<Rightarrow>
   pyexc + string list" where
  "inventory_users norm_id fetch page_len limit merge_user given =
     (case given of
        Some users \<Rightarrow> Inr users
      | None \<Rightarrow> bindE (inventory_from norm_id fetch page_len limit []) (\<lambda>users.
          Inr (filter (\<lambda>u. u \<noteq> merge_user) users)))"

end
