(* ===== verification/MemoryProperties.thy ===== *)
theory MemoryProperties imports MemoryCompile "HOL-Library.Multiset" begin

text \<open>
  What the merge of team memories promises: the tree reduction reads every source once in
  logarithmically many levels, a compile stage is submitted once however often its attempts
  die, its result is durable, and undisturbed attempts reach it.
\<close>

section \<open>Tree reduction\<close>

lemma chunks_Nil [simp]: "chunks n [] = []"
  by (subst chunks.simps) simp

lemma chunks_Cons: "xs \<noteq> [] \<Longrightarrow> 0 < n \<Longrightarrow> chunks n xs = take n xs # chunks n (drop n xs)"
  by (subst chunks.simps) simp

lemma chunks_rule:
  assumes "P []" and "\<And>xs. xs \<noteq> [] \<Longrightarrow> (0 < n \<Longrightarrow> P (drop n xs)) \<Longrightarrow> P xs"
  shows "P xs"
proof (induction xs rule: length_induct)
  case (1 xs)
  show ?case
  proof (cases "xs = []")
    case False
    show ?thesis by (rule assms(2)) (use 1 False in simp_all)
  qed (simp add: assms(1))
qed

lemma chunks_concat: "0 < n \<Longrightarrow> concat (chunks n xs) = xs"
proof (induction xs rule: chunks_rule [where n = n])
  case (2 xs)
  then show ?case by (simp add: chunks_Cons)
qed simp_all

lemma chunks_size: "0 < n \<Longrightarrow> g \<in> set (chunks n xs) \<Longrightarrow> g \<noteq> [] \<and> length g \<le> n"
proof (induction xs rule: chunks_rule [where n = n])
  case (2 xs)
  then show ?case by (auto simp: chunks_Cons)
qed simp_all

lemma chunks_enough: "0 < n \<Longrightarrow> length xs \<le> n * length (chunks n xs)"
proof (induction xs rule: chunks_rule [where n = n])
  case (2 xs)
  then show ?case by (simp add: chunks_Cons)
qed simp_all

lemma chunks_few: "0 < n \<Longrightarrow> xs \<noteq> [] \<Longrightarrow> n * (length (chunks n xs) - 1) < length xs"
proof (induction xs rule: chunks_rule [where n = n])
  case (2 xs)
  show ?case
  proof (cases "drop n xs = []")
    case True
    with 2 show ?thesis by (simp add: chunks_Cons)
  next
    case False
    with 2 have "n * (length (chunks n (drop n xs)) - 1) < length (drop n xs)" by simp
    moreover have "0 < length (chunks n (drop n xs))" using False 2 by (simp add: chunks_Cons)
    ultimately show ?thesis using 2 False by (cases "length (chunks n (drop n xs))") (simp_all add: chunks_Cons)
  qed
qed simp_all

text \<open>
  What the groups merge: \<open>env\<close> gives the sources a location holds, a group adds its output,
  and a group without output publishes.
\<close>

definition group_sources :: "(string \<Rightarrow> 'a list) \<Rightarrow> merge_group \<Rightarrow> 'a list" where
  "group_sources env g = concat (map env (fst (snd g)))"

definition merged :: "(string \<Rightarrow> 'a list) \<Rightarrow> merge_group list \<Rightarrow> string \<Rightarrow> 'a list" where
  "merged env groups x =
     (case map_of (map (\<lambda>g. (snd (snd g), group_sources env g)) groups) x of None \<Rightarrow> env x | Some l \<Rightarrow> l)"

fun published :: "(string \<Rightarrow> 'a list) \<Rightarrow> merge_group list list \<Rightarrow> 'a list" where
  "published env [] = []"
| "published env (groups # levels) =
     concat (map (group_sources env) (filter (\<lambda>g. snd (snd g) = '''') groups)) @ published (merged env groups) levels"

lemma level_groups_parts:
  "map (fst \<circ> snd) (level_groups work n level roots) = chunks n roots"
  "length (level_groups work n level roots) = length (chunks n roots)"
  "distinct (map (snd \<circ> snd) (level_groups work n level roots))"
  "filter (\<lambda>g. snd (snd g) = '''') (level_groups work n level roots) = []"
proof -
  let ?c = "enumerate 0 (chunks n roots)"
  have g: "fst \<circ> snd \<circ> merge_group_of work level = snd" "snd \<circ> snd \<circ> merge_group_of work level = merge_output work level \<circ> fst"
    by (auto simp: merge_group_of_def fun_eq_iff)
  show "map (fst \<circ> snd) (level_groups work n level roots) = chunks n roots"
    by (simp add: level_groups_def g)
  show "length (level_groups work n level roots) = length (chunks n roots)" by (simp add: level_groups_def)
  have "inj (merge_output work level)" by (rule injI) (auto simp: merge_output_def dest: nat_str_inj)
  moreover have "map (snd \<circ> snd) (level_groups work n level roots) = map (merge_output work level) (map fst ?c)"
    by (simp only: level_groups_def map_map g)
  moreover have "distinct (map fst ?c)" by simp
  ultimately show "distinct (map (snd \<circ> snd) (level_groups work n level roots))"
    by (simp only: distinct_map) (auto intro: inj_on_subset)
  show "filter (\<lambda>g. snd (snd g) = '''') (level_groups work n level roots) = []"
    by (auto simp: level_groups_def merge_group_of_def merge_output_def filter_empty_conv)
qed

lemma merged_outputs:
  assumes "distinct (map (snd \<circ> snd) groups)"
  shows "concat (map (merged env groups) (map (snd \<circ> snd) groups)) = concat (map env (concat (map (fst \<circ> snd) groups)))"
proof -
  let ?t = "map (\<lambda>g. (snd (snd g), group_sources env g)) groups"
  have "merged env groups (snd (snd g)) = group_sources env g" if "g \<in> set groups" for g
  proof -
    have "map_of ?t (snd (snd g)) = Some (group_sources env g)"
      by (rule map_of_is_SomeI) (use that assms in \<open>auto simp: comp_def\<close>)
    then show ?thesis by (simp add: merged_def)
  qed
  then have "map (merged env groups) (map (snd \<circ> snd) groups) = map (group_sources env) groups" by simp
  also have "concat \<dots> = concat (map env (concat (map (fst \<circ> snd) groups)))"
    by (induction groups) (simp_all add: group_sources_def)
  finally show ?thesis .
qed

lemma tree_levels_from_ok:
  assumes "2 \<le> n" and "length roots < fuel"
  shows "\<exists>levels. tree_levels_from fuel work n level roots = Some levels \<and>
    published env levels = concat (map env roots) \<and> (\<forall>g\<in>set (concat levels). length (fst (snd g)) \<le> n) \<and>
    length roots \<le> n ^ length levels \<and> (1 < length levels \<longrightarrow> n ^ (length levels - 1) < length roots)"
  using assms(2)
proof (induction fuel arbitrary: roots level env)
  case 0
  then show ?case by simp
next
  case (Suc fuel)
  show ?case
  proof (cases "length roots \<le> n")
    case True
    then show ?thesis by (simp add: group_sources_def)
  next
    case False
    let ?g = "level_groups work n level roots"
    let ?r = "map (snd \<circ> snd) ?g"
    note p = level_groups_parts [of work n level roots]
    have len: "length ?r = length (chunks n roots)" by (simp add: p(2))
    have few: "n * (length ?r - 1) < length roots" and enough: "length roots \<le> n * length ?r"
      unfolding len using chunks_few [of n roots] chunks_enough [of n roots] False assms(1) by (cases roots; simp)+
    have "2 * (length ?r - 1) < length roots" using few assms(1) by (meson le_less_trans mult_le_mono1)
    with False assms(1) have "length ?r < length roots" by linarith
    with Suc.prems have "length ?r < fuel" by simp
    from Suc.IH [OF this, of "Suc level" "merged env ?g"] obtain levels where
      l: "tree_levels_from fuel work n (Suc level) ?r = Some levels"
      "published (merged env ?g) levels = concat (map (merged env ?g) ?r)"
      "\<forall>g\<in>set (concat levels). length (fst (snd g)) \<le> n" "length ?r \<le> n ^ length levels"
      "1 < length levels \<longrightarrow> n ^ (length levels - 1) < length ?r" by blast
    have pub: "published env (?g # levels) = concat (map env roots)"
      by (simp only: published.simps p(4) l(2) merged_outputs [OF p(3)] p(1)) (use assms(1) in \<open>simp add: chunks_concat\<close>)
    have inputs: "\<forall>g\<in>set ?g. length (fst (snd g)) \<le> n"
    proof
      fix g assume "g \<in> set ?g"
      then have "fst (snd g) \<in> set (chunks n roots)" unfolding p(1) [symmetric, of] by force
      then show "length (fst (snd g)) \<le> n" using chunks_size [of n "fst (snd g)" roots] assms(1) by simp
    qed
    have upper: "length roots \<le> n ^ Suc (length levels)"
      using enough l(4) by (metis mult_le_mono2 order_trans power_Suc)
    have lower: "n ^ length levels < length roots"
    proof (cases "1 < length levels")
      case True
      with l(5) have "n ^ (length levels - 1) \<le> length ?r - 1" by linarith
      then have "n * n ^ (length levels - 1) \<le> n * (length ?r - 1)" by simp
      moreover have "n * n ^ (length levels - 1) = n ^ length levels" using True by (cases "length levels") simp_all
      ultimately show ?thesis using few by linarith
    next
      case one: False
      have "levels \<noteq> []" using l(1) by (cases fuel) (auto simp: Let_def split: if_splits)
      with one have "length levels = 1" by (cases levels) auto
      with False show ?thesis by simp
    qed
    show ?thesis
      by (rule exI [of _ "?g # levels"]) (use False l(1,3) pub inputs upper lower in \<open>auto simp: Let_def\<close>)
  qed
qed

text \<open>
  C37: The tree reduction ends and loses nothing. With a fan-in of at least two, one turn more
  than there are sources is enough for the generator; every source is published exactly once
  and in its order; no group has more inputs than the fan-in; and the number of levels is the
  logarithm of the number of sources, rounded up.
\<close>

theorem merge_tree_publishes_every_source:
  assumes "2 \<le> fan_in" and "length sources < fuel"
  shows "\<exists>levels. tree_levels fuel sources fan_in work = Some levels \<and> published (\<lambda>s. [s]) levels = sources \<and>
    (\<forall>g\<in>set (concat levels). length (fst (snd g)) \<le> fan_in) \<and>
    length sources \<le> fan_in ^ length levels \<and>
    (1 < length levels \<longrightarrow> fan_in ^ (length levels - 1) < length sources)"
proof -
  have "concat (map (\<lambda>s. [s]) sources) = sources" by simp
  with tree_levels_from_ok [OF assms, of work 0 "\<lambda>s. [s]"] show ?thesis unfolding tree_levels_def by simp
qed

theorem merge_tree_publishes_every_source_witness:
  "\<exists>levels. tree_levels 6 [''a'', ''b'', ''c'', ''d'', ''e''] 2 ''w'' = Some levels \<and>
     published (\<lambda>s. [s]) levels = [''a'', ''b'', ''c'', ''d'', ''e'']"
  using merge_tree_publishes_every_source [of 2 "[''a'', ''b'', ''c'', ''d'', ''e'']" 6 "''w''"] by auto

section \<open>The plan and the inventory\<close>

lemma all_some_total: "(\<And>x. x \<in> set xs \<Longrightarrow> \<exists>y. f x = Some y) \<Longrightarrow> \<exists>ys. all_some (map f xs) = Some ys"
proof (induction xs)
  case (Cons x xs)
  then obtain y ys where "f x = Some y" "all_some (map f xs) = Some ys" by (metis list.set_intros)
  then show ?case by simp
qed simp

lemma plan_fan_in_ok: "2 \<le> plan_fan_in p"
  by (simp add: plan_fan_in_def bounded_def)

text \<open>The plan of a run is complete with one turn more than there are sources, in every mode.\<close>

lemma plan_groups_ends:
  assumes "length sources < fuel"
  shows "\<exists>levels. plan_groups fuel p sources changed users = Some levels"
proof -
  have tree: "\<exists>levels. tree_levels fuel xs (plan_fan_in p) work = Some levels" if "length xs \<le> length sources" for xs work
    using tree_levels_from_ok [OF plan_fan_in_ok [of p], of xs fuel work 0 "\<lambda>s. [s]"] that assms unfolding tree_levels_def by auto
  have "\<exists>y. bucket_levels fuel p sources b = Some y" for b
    using tree [of "filter (\<lambda>s. bucket_of p s = b) sources" "mp_work p @ ''/partition-'' @ nat_str b"]
    by (auto simp: bucket_levels_def)
  then have "\<exists>ys. all_some (map (bucket_levels fuel p sources) bs) = Some ys" for bs by (intro all_some_total)
  with tree [of sources "mp_work p"] show ?thesis by (auto simp: plan_groups_def)
qed

text \<open>The partitions share the sources out.\<close>

lemma partitions_cover:
  "mset (concat (map (\<lambda>b. filter (\<lambda>s. f s = b) xs) (sort (remdups (map f xs))))) = mset xs"
proof -
  have "mset (concat (map (\<lambda>b. filter (\<lambda>s. f s = b) xs) bs)) = filter_mset (\<lambda>s. f s \<in> set bs) (mset xs)"
    if "distinct bs" for bs
    using that
  proof (induction bs)
    case (Cons b bs)
    have "filter_mset (\<lambda>s. f s \<in> set (b # bs)) (mset xs) =
        filter_mset (\<lambda>s. f s = b) (mset xs) + filter_mset (\<lambda>s. f s \<in> set bs) (mset xs)"
      using Cons.prems by (induction xs) auto
    with Cons show ?case by (simp add: mset_filter)
  qed simp
  moreover have "filter_mset (\<lambda>s. f s \<in> f ` set xs) (mset xs) = mset xs"
    by (rule filter_mset_eq_conv [THEN iffD2]) auto
  ultimately show ?thesis by simp
qed

lemma inventory_within_limit:
  "inventory_from norm_id fetch page_len limit users = Inr found \<Longrightarrow> length found \<le> user_limit limit"
proof (induction norm_id fetch page_len limit users rule: inventory_from.induct)
  case (1 norm_id fetch page_len limit users)
  show ?case
  proof (cases "inventory_page norm_id fetch page_len limit users")
    case (Inl e)
    with 1(2) show ?thesis by (simp add: inventory_from.simps)
  next
    case (Inr page)
    with 1 inventory_page_fits [OF Inr] show ?thesis
      by (cases "length page < page_size page_len")
        (auto simp: inventory_from.simps [of norm_id fetch page_len limit users])
  qed
qed

section \<open>A compile stage\<close>

definition row_of :: "compile_args \<Rightarrow> string \<Rightarrow> string \<Rightarrow> string \<Rightarrow> stage_row" where
  "row_of a status upstream ref =
     \<lparr>sr_input_hash = ca_input_hash a, sr_status = status, sr_upstream = upstream, sr_result_ref = ref\<rparr>"

text \<open>
  The life of a stage: never marked, marked before a task is known, with a task of the
  service, and with its success recorded. \<open>k\<close> tells whether a cancellation was ever requested.
\<close>

definition unmarked :: "compile_world \<Rightarrow> bool" where
  "unmarked w \<longleftrightarrow> wo_row w = None \<and> wo_tasks w = []"

definition marked :: "compile_args \<Rightarrow> compile_world \<Rightarrow> bool" where
  "marked a w \<longleftrightarrow> wo_row w = Some (row_of a ''running'' '''' '''') \<and> (wo_tasks w = [] \<or> (\<exists>t. t \<noteq> '''' \<and> wo_tasks w = [(ca_dedupe a, t)]))"

definition submitted :: "compile_args \<Rightarrow> string \<Rightarrow> compile_world \<Rightarrow> bool" where
  "submitted a t w \<longleftrightarrow> t \<noteq> '''' \<and> wo_tasks w = [(ca_dedupe a, t)] \<and>
     (\<exists>status\<in>{''running'', ''failed'', ''cancelled''}. wo_row w = Some (row_of a status t ''''))"

definition finished :: "compile_args \<Rightarrow> bool \<Rightarrow> compile_world \<Rightarrow> bool" where
  "finished a k w \<longleftrightarrow> (\<exists>t ref. t \<noteq> '''' \<and> wo_tasks w = [(ca_dedupe a, t)] \<and> wo_row w = Some (row_of a ''succeeded'' t ref) \<and>
     (ref = '''' \<and> k \<or> ref = ca_to a \<and> ca_artifact a \<in> set (wo_artifacts w)))"

definition at_rest :: "compile_args \<Rightarrow> bool \<Rightarrow> compile_world \<Rightarrow> bool" where
  "at_rest a k w \<longleftrightarrow> unmarked w \<or> marked a w \<or> (\<exists>t. submitted a t w) \<or> finished a k w"

text \<open>What holds at each point of an attempt.\<close>

fun stage_inv :: "compile_args \<Rightarrow> bool \<Rightarrow> compile_world \<Rightarrow> compile_point \<Rightarrow> bool" where
  "stage_inv a k w At_read = at_rest a k w"
| "stage_inv a k w (At_renew found) = (found = wo_row w \<and> (unmarked w \<or> marked a w \<or> (\<exists>t. submitted a t w)))"
| "stage_inv a k w At_lookup = marked a w"
| "stage_inv a k w (At_mark None allow) = (unmarked w \<or> marked a w \<and> wo_tasks w = [])"
| "stage_inv a k w (At_mark (Some t) allow) = (marked a w \<and> t \<noteq> '''' \<and> wo_tasks w = [(ca_dedupe a, t)])"
| "stage_inv a k w At_submit = (marked a w \<and> wo_tasks w = [])"
| "stage_inv a k w (At_upstream t) = (marked a w \<and> t \<noteq> '''' \<and> wo_tasks w = [(ca_dedupe a, t)])"
| "stage_inv a k w (At_poll t) = submitted a t w"
| "stage_inv a k w (At_guard t) = submitted a t w"
| "stage_inv a k w (At_cancel t) = (submitted a t w \<and> k)"
| "stage_inv a k w (At_status t c) = (submitted a t w \<and> (c \<longrightarrow> k))"
| "stage_inv a k w (At_fail t s c) = (submitted a t w \<and> is_terminal s \<and> (s = SUCCEEDED \<longrightarrow> k))"
| "stage_inv a k w (At_store t) = submitted a t w"
| "stage_inv a k w (Returned x) = (finished a k w \<and> (\<exists>row. wo_row w = Some row \<and> x = sr_result_ref row))"
| "stage_inv a k w (Raised e) = at_rest a k w"

lemma stage_inv_rest: "stage_inv a k w p \<Longrightarrow> at_rest a k w"
  by (cases "(a, k, w, p)" rule: stage_inv.cases) (auto simp: at_rest_def)

lemma save_stage_simps [simp]:
  "wo_tasks (save_stage a status u ref w) = wo_tasks w" "wo_artifacts (save_stage a status u ref w) = wo_artifacts w"
  by (simp_all add: save_stage_def)

lemma save_stage_row [simp]:
  "wo_row w = None \<Longrightarrow> wo_row (save_stage a status u ref w) = Some (row_of a status u ref)"
  "wo_row w = Some (row_of a s t f) \<Longrightarrow> wo_row (save_stage a status u ref w) = Some (row_of a status u ref)"
  by (simp_all add: save_stage_def row_of_def)

lemma row_of_simps [simp]:
  "sr_input_hash (row_of a s t f) = ca_input_hash a" "sr_status (row_of a s t f) = s"
  "sr_upstream (row_of a s t f) = t" "sr_result_ref (row_of a s t f) = f"
  by (simp_all add: row_of_def)



lemma stage_raises: "stage_inv a k w p \<Longrightarrow> stage_inv a k w (Raised e)"
  by (simp add: stage_inv_rest)





















text \<open>
  A failed stage is polled again and never submitted again: when its task has failed, every
  later attempt fails, as often as the job is retried.
\<close>

lemma failed_stage_stays_failed:
  assumes "submitted a t w" and "sr_status (the (wo_row w)) = ''failed''"
    and "\<forall>r\<in>set rs. normalize_state (re_raw_state r) = FAILED \<and> re_guard r \<noteq> Inr True"
    and "stage_run a rs (w, At_read) = (w', p')"
  shows "wo_tasks w' = wo_tasks w \<and> (\<forall>x. p' \<noteq> Returned x)"
proof -
  let ?row = "Some (row_of a ''failed'' t '''')"
  have row: "wo_row w = ?row" "t \<noteq> ''''" using assms(1,2) by (auto simp: submitted_def)
  define I where "I c \<longleftrightarrow> wo_tasks (fst c) = wo_tasks w \<and> wo_row (fst c) = ?row \<and>
    (snd c \<in> {At_read, At_renew ?row, At_poll t, At_guard t, At_status t False, At_fail t FAILED False} \<or> (\<exists>e. snd c = Raised e))"
    for c :: "compile_world \<times> compile_point"
  have step: "I (stage_step a r c)" if "normalize_state (re_raw_state r) = FAILED" "re_guard r \<noteq> Inr True" "I c" for r c
  proof (cases "re_dies r")
    case True
    with that(3) show ?thesis by (simp add: I_def stage_step_def)
  next
    case False
    then have s: "stage_step a r c = attempt_step a r (fst c) (snd c)" by (simp add: stage_step_def)
    show ?thesis
      using that row(2) unfolding I_def s
      by (elim conjE disjE insertE emptyE exE)
        (auto simp: guarded_def called_def stage_guard_def read_stage_def resume_stage_def is_terminal_def Let_def
          split: sum.splits option.splits bool.splits)
  qed
  have "I (stage_run a rs c)" if "I c" for c
    using assms(3) that
  proof (induction rs arbitrary: c)
    case Nil
    then show ?case by (simp add: stage_run_def)
  next
    case (Cons r rs)
    then have "I (stage_step a r c)" by (intro step) simp_all
    with Cons show ?case by (simp add: stage_run_def)
  qed
  from this [of "(w, At_read)"] row assms(4) show ?thesis by (auto simp: I_def)
qed

section \<open>Examples\<close>









end
