(* ===== verification/Programs.thy ===== *)
theory Programs imports PyValue begin

text \<open>
  Programs that run as several transactions. A handler or an endpoint of this repository is a
  sequence of short transactions and calls of outside services; other replicas run between any
  two of them, and the process may die there. A program is the tree of what it may do next:
  \<open>Tx f p k\<close> runs one transaction, whose effect on the store is \<open>f\<close>, and goes on with \<open>p\<close> of the
  store it found, or with \<open>k\<close> if the database reports an error; \<open>Call q k\<close> asks a service and
  goes on with its answer.

  The second part runs a pool of such programs in any interleaving and gives the rule the
  properties of a pipeline are proved by: an invariant of histories that every transaction keeps,
  whatever happened since the program's last one.
\<close>

section \<open>Programs\<close>

datatype ('s, 'q, 'r, 'a) prog =
    Ret 'a
  | Throw pyexc
  | Tx "'s \<Rightarrow> 's" "'s \<Rightarrow> ('s, 'q, 'r, 'a) prog" "pyexc \<Rightarrow> ('s, 'q, 'r, 'a) prog"
  | Call 'q "pyexc + 'r \<Rightarrow> ('s, 'q, 'r, 'a) prog"

primrec pbind :: "('s, 'q, 'r, 'a) prog \<Rightarrow> ('a \<Rightarrow> ('s, 'q, 'r, 'b) prog) \<Rightarrow> ('s, 'q, 'r, 'b) prog" where
  "pbind (Ret x) g = g x"
| "pbind (Throw e) g = Throw e"
| "pbind (Tx f p k) g = Tx f (\<lambda>s. pbind (p s) g) (\<lambda>e. pbind (k e) g)"
| "pbind (Call q k) g = Call q (\<lambda>r. pbind (k r) g)"

text \<open>\<open>try: p except Exception as e: h(e)\<close>, with nothing after \<open>p\<close> inside the try.\<close>

primrec ptry :: "('s, 'q, 'r, 'a) prog \<Rightarrow> ('a \<Rightarrow> ('s, 'q, 'r, 'b) prog) \<Rightarrow> (pyexc \<Rightarrow> ('s, 'q, 'r, 'b) prog) \<Rightarrow>
    ('s, 'q, 'r, 'b) prog" where
  "ptry (Ret x) g h = g x"
| "ptry (Throw e) g h = h e"
| "ptry (Tx f p k) g h = Tx f (\<lambda>s. ptry (p s) g h) (\<lambda>e. ptry (k e) g h)"
| "ptry (Call q k) g h = Call q (\<lambda>r. ptry (k r) g h)"

text \<open>A transaction that raises is rolled back. Pure code that may raise is \<open>lift_result\<close>.\<close>

definition lift_result :: "pyexc + 'a \<Rightarrow> ('s, 'q, 'r, 'a) prog" where
  "lift_result r = (case r of Inl e \<Rightarrow> Throw e | Inr x \<Rightarrow> Ret x)"

definition tx_effect :: "('s \<Rightarrow> pyexc + 'a \<times> 's) \<Rightarrow> 's \<Rightarrow> 's" where
  "tx_effect body s = (case body s of Inl e \<Rightarrow> s | Inr (x, s') \<Rightarrow> s')"

definition tx_value :: "('s \<Rightarrow> pyexc + 'a \<times> 's) \<Rightarrow> 's \<Rightarrow> pyexc + 'a" where
  "tx_value body s = (case body s of Inl e \<Rightarrow> Inl e | Inr (x, s') \<Rightarrow> Inr x)"

definition transact :: "('s \<Rightarrow> pyexc + 'a \<times> 's) \<Rightarrow> ('s, 'q, 'r, 'a) prog" where
  "transact body = Tx (tx_effect body) (\<lambda>s. lift_result (tx_value body s)) Throw"

definition ask :: "'q \<Rightarrow> ('s, 'q, 'r, 'r) prog" where
  "ask q = Call q lift_result"

lemma lift_result_simps [simp]:
  "lift_result (Inl e) = Throw e"
  "lift_result (Inr x) = Ret x"
  by (simp_all add: lift_result_def)

section \<open>Pools of running programs\<close>

text \<open>
  What has happened so far: the stores left by transactions and by the environment, and the
  answers of services. The history is what the properties speak about.
\<close>

datatype ('s, 'q, 'r) sighting = Saw 's | Asked 'q "pyexc + 'r"

record ('s, 'q, 'r, 'a) pool =
  po_store :: 's
  po_trace :: "('s, 'q, 'r) sighting list"
  po_running :: "('s, 'q, 'r, 'a) prog list"

text \<open>
  One step: a job starts; a running program does its transaction, or the transaction fails
  before it did anything, or its answer is lost after it was committed; a service answers; a
  process dies; the rest of the system changes the store.
\<close>

datatype ('j, 'v, 'r) event =
    Start 'j
  | RunTx nat
  | FailTx nat pyexc
  | LoseTx nat pyexc
  | Reply nat "pyexc + 'r"
  | Kill nat
  | Outside 'v

definition saw :: "'s \<Rightarrow> ('s, 'q, 'r, 'a) pool \<Rightarrow> ('s, 'q, 'r, 'a) pool" where
  "saw s' u = u\<lparr>po_store := s', po_trace := po_trace u @ [Saw s']\<rparr>"

definition continue :: "nat \<Rightarrow> ('s, 'q, 'r, 'a) prog \<Rightarrow> ('s, 'q, 'r, 'a) pool \<Rightarrow> ('s, 'q, 'r, 'a) pool" where
  "continue i p u = u\<lparr>po_running := (po_running u)[i := p]\<rparr>"

fun pool_step ::
  "('j \<Rightarrow> 's \<Rightarrow> ('s, 'q, 'r, 'a) prog option) \<Rightarrow> ('v \<Rightarrow> 's \<Rightarrow> 's option) \<Rightarrow> ('j, 'v, 'r) event \<Rightarrow>
   ('s, 'q, 'r, 'a) pool \<Rightarrow> ('s, 'q, 'r, 'a) pool option" where
  "pool_step launch outside (Start j) u =
     (case launch j (po_store u) of None \<Rightarrow> None | Some p \<Rightarrow> Some (u\<lparr>po_running := po_running u @ [p]\<rparr>))"
| "pool_step launch outside (RunTx i) u =
     (if i < length (po_running u) then
        (case po_running u ! i of
           Tx f p k \<Rightarrow> Some (continue i (p (po_store u)) (saw (f (po_store u)) u))
         | _ \<Rightarrow> None)
      else None)"
| "pool_step launch outside (FailTx i e) u =
     (if i < length (po_running u) then
        (case po_running u ! i of Tx f p k \<Rightarrow> Some (continue i (k e) u) | _ \<Rightarrow> None)
      else None)"
| "pool_step launch outside (LoseTx i e) u =
     (if i < length (po_running u) then
        (case po_running u ! i of Tx f p k \<Rightarrow> Some (continue i (k e) (saw (f (po_store u)) u)) | _ \<Rightarrow> None)
      else None)"
| "pool_step launch outside (Reply i r) u =
     (if i < length (po_running u) then
        (case po_running u ! i of
           Call q k \<Rightarrow> Some (continue i (k r) (u\<lparr>po_trace := po_trace u @ [Asked q r]\<rparr>))
         | _ \<Rightarrow> None)
      else None)"
| "pool_step launch outside (Kill i) u =
     (if i < length (po_running u) then Some (continue i (Throw (PyExc ''Killed'' '''')) u) else None)"
| "pool_step launch outside (Outside v) u =
     (case outside v (po_store u) of None \<Rightarrow> None | Some s' \<Rightarrow> Some (saw s' u))"

fun pool_run ::
  "('j \<Rightarrow> 's \<Rightarrow> ('s, 'q, 'r, 'a) prog option) \<Rightarrow> ('v \<Rightarrow> 's \<Rightarrow> 's option) \<Rightarrow> ('j, 'v, 'r) event list \<Rightarrow>
   ('s, 'q, 'r, 'a) pool \<Rightarrow> ('s, 'q, 'r, 'a) pool option" where
  "pool_run launch outside [] u = Some u"
| "pool_run launch outside (ev # evs) u =
     (case pool_step launch outside ev u of None \<Rightarrow> None | Some u' \<Rightarrow> pool_run launch outside evs u')"

definition pool_start :: "'s \<Rightarrow> ('s, 'q, 'r, 'a) pool" where
  "pool_start s = \<lparr>po_store = s, po_trace = [Saw s], po_running = []\<rparr>"

section \<open>What a program promises\<close>

text \<open>
  A history is the current store with the observations. \<open>promises I p Q E h\<close>: started after
  history \<open>h\<close>, every transaction of \<open>p\<close> keeps the invariant \<open>I\<close> of histories, whatever extension of
  the history with \<open>I\<close> it finds; if \<open>p\<close> returns, \<open>Q\<close> holds of the value and the history of its last
  step, and if it raises, \<open>E\<close> holds of the exception.
\<close>

datatype ('s, 'q, 'r) history = History (hist_now: 's) (hist_past: "('s, 'q, 'r) sighting list")

definition later :: "(('s, 'q, 'r) history \<Rightarrow> bool) \<Rightarrow> ('s, 'q, 'r) history \<Rightarrow> ('s, 'q, 'r) history \<Rightarrow> bool" where
  "later I h h' \<longleftrightarrow> I h' \<and> (\<exists>obs. hist_past h' = hist_past h @ obs)"

definition see :: "'s \<Rightarrow> ('s, 'q, 'r) history \<Rightarrow> ('s, 'q, 'r) history" where
  "see s' h = History s' (hist_past h @ [Saw s'])"

definition hear :: "'q \<Rightarrow> pyexc + 'r \<Rightarrow> ('s, 'q, 'r) history \<Rightarrow> ('s, 'q, 'r) history" where
  "hear q r h = History (hist_now h) (hist_past h @ [Asked q r])"

primrec promises ::
  "(('s, 'q, 'r) history \<Rightarrow> bool) \<Rightarrow> ('s, 'q, 'r, 'a) prog \<Rightarrow> ('a \<Rightarrow> ('s, 'q, 'r) history \<Rightarrow> bool) \<Rightarrow>
   (pyexc \<Rightarrow> ('s, 'q, 'r) history \<Rightarrow> bool) \<Rightarrow> ('s, 'q, 'r) history \<Rightarrow> bool" where
  "promises I (Ret x) Q E h = Q x h"
| "promises I (Throw e) Q E h = E e h"
| "promises I (Tx f p k) Q E h =
     ((\<forall>h'. later I h h' \<longrightarrow> I (see (f (hist_now h')) h') \<and>
        promises I (p (hist_now h')) Q E (see (f (hist_now h')) h') \<and>
        (\<forall>e. promises I (k e) Q E (see (f (hist_now h')) h'))) \<and>
      (\<forall>e h'. later I h h' \<longrightarrow> promises I (k e) Q E h'))"
| "promises I (Call q k) Q E h =
     (\<forall>h' r. later I h h' \<longrightarrow> I (hear q r h') \<and> promises I (k r) Q E (hear q r h'))"

lemma promises_bind: "promises I (pbind p g) Q E h = promises I p (\<lambda>x. promises I (g x) Q E) E h"
  by (induction p arbitrary: h) simp_all

lemma promises_try:
  "promises I (ptry p g H) Q E h = promises I p (\<lambda>x. promises I (g x) Q E) (\<lambda>e. promises I (H e) Q E) h"
  by (induction p arbitrary: h) simp_all

lemma promises_mono:
  assumes "promises I p Q E h" and "\<And>x h. Q x h \<Longrightarrow> Q' x h" and "\<And>e h. E e h \<Longrightarrow> E' e h"
  shows "promises I p Q' E' h"
  using assms(1) by (induction p arbitrary: h) (auto intro: assms(2,3))

lemma later_trans: "later I h h' \<Longrightarrow> later I h' h'' \<Longrightarrow> later I h h''"
  by (auto simp: later_def)

lemma later_see: "later I h h' \<Longrightarrow> I (see s h') \<Longrightarrow> later I h (see s h')"
  by (auto simp: later_def see_def)

lemma later_hear: "later I h h' \<Longrightarrow> I (hear q r h') \<Longrightarrow> later I h (hear q r h')"
  by (auto simp: later_def hear_def)

lemma later_obs: "later I h h' \<Longrightarrow> ob \<in> set (hist_past h) \<Longrightarrow> ob \<in> set (hist_past h')"
  by (auto simp: later_def)

text \<open>The rule for a transaction: it must keep the invariant, and what it returns must do for the rest.\<close>

lemma promises_transact:
  assumes "\<And>h' x s'. later I h h' \<Longrightarrow> body (hist_now h') = Inr (x, s') \<Longrightarrow> I (see s' h') \<and> Q x (see s' h')"
    and "\<And>h'. later I h h' \<Longrightarrow> I (see (hist_now h') h')"
    and "\<And>e h'. later I h h' \<Longrightarrow> E e h'"
  shows "promises I (transact body) Q E h"
proof -
  have "I (see (tx_effect body (hist_now h')) h') \<and>
      promises I (lift_result (tx_value body (hist_now h'))) Q E (see (tx_effect body (hist_now h')) h') \<and>
      (\<forall>e. E e (see (tx_effect body (hist_now h')) h'))"
    if l: "later I h h'" for h'
  proof (cases "body (hist_now h')")
    case (Inl e)
    then have eff: "tx_effect body (hist_now h') = hist_now h'" "tx_value body (hist_now h') = Inl e"
      by (simp_all add: tx_effect_def tx_value_def)
    have "I (see (hist_now h') h')" using assms(2) [OF l] .
    with eff show ?thesis using assms(3) [OF later_see [OF l]] by simp
  next
    case (Inr r)
    obtain x s' where r: "r = (x, s')" by (cases r)
    then have eff: "tx_effect body (hist_now h') = s'" "tx_value body (hist_now h') = Inr x"
      using Inr by (simp_all add: tx_effect_def tx_value_def)
    from assms(1) [OF l, of x s'] Inr r have "I (see s' h')" "Q x (see s' h')" by auto
    with eff show ?thesis using assms(3) [OF later_see [OF l]] by simp
  qed
  then show ?thesis using assms(3) by (simp add: transact_def)
qed

lemma promises_ask:
  assumes "\<And>h' r. later I h h' \<Longrightarrow> I (hear q r h')"
    and "\<And>h' x. later I h h' \<Longrightarrow> Q x (hear q (Inr x) h')"
    and "\<And>h' e. later I h h' \<Longrightarrow> E e (hear q (Inl e) h')"
  shows "promises I (ask q) Q E h"
proof -
  have "I (hear q r h') \<and> promises I (lift_result r) Q E (hear q r h')" if "later I h h'" for h' r
    using assms(1) [OF that] assms(2) [OF that] assms(3) [OF that] by (cases r) simp_all
  then show ?thesis by (simp add: ask_def)
qed

text \<open>What a program is after is a history following the one it started at.\<close>

definition following :: "(('s, 'q, 'r) history \<Rightarrow> bool) \<Rightarrow> ('s, 'q, 'r) history \<Rightarrow> ('s, 'q, 'r) history \<Rightarrow> bool" where
  "following I h h' \<longleftrightarrow> h' = h \<or> later I h h'"

lemma following_refl [simp]: "following I h h"
  by (simp add: following_def)

lemma following_trans: "following I h h' \<Longrightarrow> following I h' h'' \<Longrightarrow> following I h h''"
  by (auto simp: following_def intro: later_trans)

lemma promises_following:
  assumes "promises I p Q E h"
  shows "promises I p (\<lambda>x h'. Q x h' \<and> following I h h') (\<lambda>e h'. E e h' \<and> following I h h') h"
  using assms
proof (induction p arbitrary: h)
  case (Tx f p k)
  have up: "promises I q (\<lambda>x h2. Q x h2 \<and> following I h h2) (\<lambda>e h2. E e h2 \<and> following I h h2) h1"
    if "promises I q (\<lambda>x h2. Q x h2 \<and> following I h1 h2) (\<lambda>e h2. E e h2 \<and> following I h1 h2) h1" "later I h h1" for q h1
    by (rule promises_mono [OF that(1)]) (use that(2) in \<open>auto simp: following_def intro: later_trans\<close>)
  from Tx.prems have "I (see (f (hist_now h')) h')" "promises I (p (hist_now h')) Q E (see (f (hist_now h')) h')"
      "promises I (k e) Q E (see (f (hist_now h')) h')" "promises I (k e) Q E h'" if "later I h h'" for h' e
    using that by auto
  with Tx.IH show ?case by (auto intro!: up intro: later_see)
next
  case (Call q k)
  have up: "promises I q (\<lambda>x h2. Q x h2 \<and> following I h h2) (\<lambda>e h2. E e h2 \<and> following I h h2) h1"
    if "promises I q (\<lambda>x h2. Q x h2 \<and> following I h1 h2) (\<lambda>e h2. E e h2 \<and> following I h1 h2) h1" "later I h h1" for q h1
    by (rule promises_mono [OF that(1)]) (use that(2) in \<open>auto simp: following_def intro: later_trans\<close>)
  from Call.prems Call.IH show ?case by (auto intro!: up intro: later_hear)
qed simp_all

section \<open>Programs whose exceptions do not matter\<close>

abbreviation keeps ::
  "(('s, 'q, 'r) history \<Rightarrow> bool) \<Rightarrow> ('s, 'q, 'r, 'a) prog \<Rightarrow> ('a \<Rightarrow> ('s, 'q, 'r) history \<Rightarrow> bool) \<Rightarrow>
   ('s, 'q, 'r) history \<Rightarrow> bool" where
  "keeps I p Q h \<equiv> promises I p Q (\<lambda>_ _. True) h"

lemma keeps_Ret: "Q x h \<Longrightarrow> keeps I (Ret x) Q h"
  by simp

lemma keeps_Throw: "keeps I (Throw e) Q h"
  by simp

lemma keeps_weaken: "keeps I p P h \<Longrightarrow> (\<And>x h'. P x h' \<Longrightarrow> following I h h' \<Longrightarrow> Q x h') \<Longrightarrow> keeps I p Q h"
  using promises_following [of I p P "\<lambda>_ _. True" h] by (auto elim: promises_mono)

lemma keeps_seq:
  assumes "keeps I p P h" and "\<And>x h'. P x h' \<Longrightarrow> following I h h' \<Longrightarrow> keeps I (g x) Q h'"
  shows "keeps I (pbind p g) Q h"
  unfolding promises_bind using promises_following [OF assms(1)] by (rule promises_mono) (auto intro: assms(2))

lemma keeps_try:
  assumes "keeps I p P h" and "\<And>x h'. P x h' \<Longrightarrow> following I h h' \<Longrightarrow> keeps I (g x) Q h'"
    and "\<And>e h'. following I h h' \<Longrightarrow> keeps I (H e) Q h'"
  shows "keeps I (ptry p g H) Q h"
  unfolding promises_try using promises_following [OF assms(1)] by (rule promises_mono) (auto intro: assms(2,3))

lemma keeps_lifted: "(\<And>x. r = Inr x \<Longrightarrow> Q x h) \<Longrightarrow> keeps I (lift_result r) Q h"
  by (cases r) simp_all

lemma keeps_transact:
  assumes "\<And>h' x s'. later I h h' \<Longrightarrow> body (hist_now h') = Inr (x, s') \<Longrightarrow> I (see s' h') \<and> Q x (see s' h')"
    and "\<And>h'. I h' \<Longrightarrow> I (see (hist_now h') h')"
  shows "keeps I (transact body) Q h"
  by (rule promises_transact) (use assms in \<open>auto simp: later_def\<close>)

lemma keeps_ask:
  assumes "\<And>h' r. I h' \<Longrightarrow> I (hear q r h')" and "\<And>h' x. later I h h' \<Longrightarrow> Q x (hear q (Inr x) h')"
  shows "keeps I (ask q) Q h"
  by (rule promises_ask) (use assms in \<open>auto simp: later_def\<close>)

section \<open>Invariants of the store alone\<close>

text \<open>
  Where an invariant does not depend on what a program has read, it is enough to look at its
  transactions one by one: each of them takes related stores to one another.
\<close>

primrec every_tx :: "('s \<Rightarrow> 's \<Rightarrow> bool) \<Rightarrow> ('s, 'q, 'r, 'a) prog \<Rightarrow> bool" where
  "every_tx R (Ret x) = True"
| "every_tx R (Throw e) = True"
| "every_tx R (Tx f p k) = ((\<forall>s. R s (f s)) \<and> (\<forall>s. every_tx R (p s)) \<and> (\<forall>e. every_tx R (k e)))"
| "every_tx R (Call q k) = (\<forall>r. every_tx R (k r))"

lemma every_tx_bind: "every_tx R p \<Longrightarrow> (\<And>x. every_tx R (g x)) \<Longrightarrow> every_tx R (pbind p g)"
  by (induction p) auto

lemma every_tx_try:
  "every_tx R p \<Longrightarrow> (\<And>x. every_tx R (g x)) \<Longrightarrow> (\<And>e. every_tx R (h e)) \<Longrightarrow> every_tx R (ptry p g h)"
  by (induction p) auto

lemma every_tx_lift [simp]: "every_tx R (lift_result r)"
  by (cases r) simp_all

lemma every_tx_ask [simp]: "every_tx R (ask q)"
  by (simp add: ask_def)

lemma every_tx_transact:
  assumes "\<And>s x s'. body s = Inr (x, s') \<Longrightarrow> R s s'" and "\<And>s. R s s"
  shows "every_tx R (transact body)"
  using assms by (auto simp: transact_def tx_effect_def split: sum.splits)

definition steady :: "('s \<Rightarrow> bool) \<Rightarrow> ('s \<Rightarrow> 's \<Rightarrow> bool) \<Rightarrow> ('s, 'q, 'r) history \<Rightarrow> bool" where
  "steady P G h \<longleftrightarrow>
     P (hist_now h) \<and> Saw (hist_now h) \<in> set (hist_past h) \<and> (\<forall>s. Saw s \<in> set (hist_past h) \<longrightarrow> G s (hist_now h))"

abbreviation leads :: "('s \<Rightarrow> bool) \<Rightarrow> ('s \<Rightarrow> 's \<Rightarrow> bool) \<Rightarrow> 's \<Rightarrow> 's \<Rightarrow> bool" where
  "leads P G s s' \<equiv> P s \<longrightarrow> P s' \<and> G s s'"

lemma steady_see: "steady P G h \<Longrightarrow> leads P G (hist_now h) s \<Longrightarrow> reflp G \<Longrightarrow> transp G \<Longrightarrow> steady P G (see s h)"
  by (auto simp: steady_def see_def dest: reflpD intro: transpD)

lemma steady_hear: "steady P G h \<Longrightarrow> steady P G (hear q r h)"
  by (auto simp: steady_def hear_def)

lemma steady_later: "steady P G h \<Longrightarrow> later (steady P G) h h' \<Longrightarrow> G (hist_now h) (hist_now h')"
  by (auto simp: steady_def later_def)

lemma every_tx_keeps:
  assumes "reflp G" and "transp G" and "every_tx (leads P G) p"
  shows "keeps (steady P G) p (\<lambda>_ _. True) h"
  using assms(3)
proof (induction p arbitrary: h)
  case (Tx f p k h)
  then have "steady P G (see (f (hist_now h')) h')" if "later (steady P G) h h'" for h'
    using that assms(1,2) by (intro steady_see) (auto simp: later_def)
  with Tx show ?case by auto
next
  case (Call q k h)
  then show ?case by (auto simp: later_def intro: steady_hear)
qed simp_all

section \<open>Programs that run alone\<close>

text \<open>One program from start to end, with the given answers of the services and nothing in between.\<close>

primrec alone :: "('s, 'q, 'r, 'a) prog \<Rightarrow> ('q \<Rightarrow> pyexc + 'r) \<Rightarrow> 's \<Rightarrow> (pyexc + 'a) \<times> 's" where
  "alone (Ret x) ans s = (Inr x, s)"
| "alone (Throw e) ans s = (Inl e, s)"
| "alone (Tx f p k) ans s = alone (p s) ans (f s)"
| "alone (Call q k) ans s = alone (k (ans q)) ans s"

lemma alone_bind:
  "alone (pbind p g) ans s = (case alone p ans s of (Inl e, s') \<Rightarrow> (Inl e, s') | (Inr x, s') \<Rightarrow> alone (g x) ans s')"
  by (induction p arbitrary: s) simp_all

lemma alone_try:
  "alone (ptry p g h) ans s = (case alone p ans s of (Inl e, s') \<Rightarrow> alone (h e) ans s' | (Inr x, s') \<Rightarrow> alone (g x) ans s')"
  by (induction p arbitrary: s) simp_all

lemma alone_lift [simp]: "alone (lift_result r) ans s = (r, s)"
  by (cases r) simp_all

lemma alone_ask [simp]: "alone (ask q) ans s = (ans q, s)"
  by (simp add: ask_def)

lemma alone_transact:
  "alone (transact body) ans s = (case body s of Inl e \<Rightarrow> (Inl e, s) | Inr (x, s') \<Rightarrow> (Inr x, s'))"
  by (simp add: transact_def tx_effect_def tx_value_def split: sum.splits)

text \<open>Such a run is a run of the pool.\<close>

lemma pool_run_append:
  "pool_run launch outside (evs @ evs') u =
     (case pool_run launch outside evs u of None \<Rightarrow> None | Some u' \<Rightarrow> pool_run launch outside evs' u')"
  by (induction evs arbitrary: u) (auto split: option.splits)

lemma alone_is_run:
  "\<exists>evs u'. pool_run launch outside evs \<lparr>po_store = s, po_trace = tr, po_running = ps @ [p]\<rparr> = Some u' \<and>
     po_store u' = snd (alone p ans s) \<and>
     (\<exists>q. po_running u' = ps @ [q] \<and> q = lift_result (fst (alone p ans s)))"
proof (induction p arbitrary: s tr)
  case (Ret x)
  show ?case by (rule exI [of _ "[]"]) simp
next
  case (Throw e)
  show ?case by (rule exI [of _ "[]"]) simp
next
  case (Tx f p k)
  from Tx(1) [of "p s" "f s" "tr @ [Saw (f s)]"] obtain evs u' where
    "pool_run launch outside evs \<lparr>po_store = f s, po_trace = tr @ [Saw (f s)], po_running = ps @ [p s]\<rparr> = Some u'"
    "po_store u' = snd (alone (p s) ans (f s))" "po_running u' = ps @ [lift_result (fst (alone (p s) ans (f s)))]"
    by auto
  then show ?case
    by (intro exI [of _ "RunTx (length ps) # evs"] exI [of _ u']) (simp add: continue_def saw_def)
next
  case (Call q k)
  from Call [of "k (ans q)" s "tr @ [Asked q (ans q)]"] obtain evs u' where
    "pool_run launch outside evs \<lparr>po_store = s, po_trace = tr @ [Asked q (ans q)], po_running = ps @ [k (ans q)]\<rparr> = Some u'"
    "po_store u' = snd (alone (k (ans q)) ans s)" "po_running u' = ps @ [lift_result (fst (alone (k (ans q)) ans s))]"
    by auto
  then show ?case
    by (intro exI [of _ "Reply (length ps) (ans q) # evs"] exI [of _ u']) (simp add: continue_def)
qed

section \<open>The rule for pools\<close>

text \<open>
  What a system has to show: jobs start programs that keep the invariant, and the environment
  keeps it too. Then it holds of every history, and what a finished program has returned holds
  of the history at its last step.
\<close>

locale guarded_pool =
  fixes launch :: "'j \<Rightarrow> 's \<Rightarrow> ('s, 'q, 'r, 'a) prog option"
    and outside :: "'v \<Rightarrow> 's \<Rightarrow> 's option"
    and inv :: "('s, 'q, 'r) history \<Rightarrow> bool"
    and post :: "'a \<Rightarrow> ('s, 'q, 'r) history \<Rightarrow> bool"
  assumes launched: "inv h \<Longrightarrow> launch j (hist_now h) = Some p \<Longrightarrow> promises inv p post (\<lambda>_ _. True) h"
    and disturbed: "inv h \<Longrightarrow> outside v (hist_now h) = Some s' \<Longrightarrow> inv (see s' h)"
begin

definition now_of :: "('s, 'q, 'r, 'a) pool \<Rightarrow> ('s, 'q, 'r) history" where
  "now_of u = History (po_store u) (po_trace u)"

definition kept :: "('s, 'q, 'r, 'a) pool \<Rightarrow> bool" where
  "kept u \<longleftrightarrow> inv (now_of u) \<and>
     (\<forall>p\<in>set (po_running u). \<exists>h. later inv h (now_of u) \<and> promises inv p post (\<lambda>_ _. True) h)"

lemma kept_saw:
  assumes "kept u" and "inv (now_of (saw s u))"
  shows "kept (saw s u)"
proof -
  have n: "now_of (saw s u) = see s (now_of u)" by (simp add: now_of_def saw_def see_def)
  have "\<exists>h. later inv h (now_of (saw s u)) \<and> promises inv p post (\<lambda>_ _. True) h"
    if "p \<in> set (po_running u)" for p
  proof -
    from assms(1) that obtain h where "later inv h (now_of u)" "promises inv p post (\<lambda>_ _. True) h"
      unfolding kept_def by blast
    then show ?thesis unfolding n using later_see assms(2) n by metis
  qed
  with assms(2) show ?thesis by (simp add: kept_def saw_def)
qed

lemma kept_heard:
  assumes "kept u" and "inv (hear q r (now_of u))"
  shows "kept (u\<lparr>po_trace := po_trace u @ [Asked q r]\<rparr>)"
proof -
  let ?u = "u\<lparr>po_trace := po_trace u @ [Asked q r]\<rparr>"
  have n: "now_of ?u = hear q r (now_of u)" by (simp add: now_of_def hear_def)
  have "\<exists>h. later inv h (now_of ?u) \<and> promises inv p post (\<lambda>_ _. True) h"
    if "p \<in> set (po_running u)" for p
  proof -
    from assms(1) that obtain h where "later inv h (now_of u)" "promises inv p post (\<lambda>_ _. True) h"
      unfolding kept_def by blast
    then show ?thesis unfolding n using later_hear assms(2) by metis
  qed
  with assms(2) show ?thesis unfolding kept_def n by simp
qed

lemma kept_continue:
  assumes "kept u" and "promises inv p post (\<lambda>_ _. True) (now_of u)"
  shows "kept (continue i p u)"
proof -
  have n: "now_of (continue i p u) = now_of u" by (simp add: now_of_def continue_def)
  have l: "later inv (now_of u) (now_of u)" using assms(1) by (simp add: kept_def later_def)
  show ?thesis
    unfolding kept_def n
  proof (intro conjI ballI)
    show "inv (now_of u)" using assms(1) by (simp add: kept_def)
    fix q assume "q \<in> set (po_running (continue i p u))"
    then have "q = p \<or> q \<in> set (po_running u)"
      using set_update_subset_insert [of "po_running u" i p] by (auto simp: continue_def)
    then show "\<exists>h. later inv h (now_of u) \<and> promises inv q post (\<lambda>_ _. True) h"
      using l assms unfolding kept_def by blast
  qed
qed

lemma running_promises:
  assumes "kept u" and "i < length (po_running u)"
  obtains h where "later inv h (now_of u)" and "promises inv (po_running u ! i) post (\<lambda>_ _. True) h"
  using assms unfolding kept_def by (meson nth_mem)

lemma kept_transaction:
  assumes "kept u" and "i < length (po_running u)" and "po_running u ! i = Tx f p k"
  shows "kept (continue i (p (po_store u)) (saw (f (po_store u)) u))"
    and "kept (continue i (k e) u)"
    and "kept (continue i (k e) (saw (f (po_store u)) u))"
proof -
  from assms(1,2) obtain h where l: "later inv h (now_of u)"
    and "promises inv (po_running u ! i) post (\<lambda>_ _. True) h" by (rule running_promises)
  with assms(3) have w: "promises inv (Tx f p k) post (\<lambda>_ _. True) h" by simp
  let ?s = "f (po_store u)"
  have n: "see ?s (now_of u) = now_of (saw ?s u)" "hist_now (now_of u) = po_store u"
    by (simp_all add: now_of_def saw_def see_def)
  from w l have "inv (see (f (hist_now (now_of u))) (now_of u)) \<and>
      promises inv (p (hist_now (now_of u))) post (\<lambda>_ _. True) (see (f (hist_now (now_of u))) (now_of u)) \<and>
      promises inv (k e) post (\<lambda>_ _. True) (see (f (hist_now (now_of u))) (now_of u)) \<and>
      promises inv (k e) post (\<lambda>_ _. True) (now_of u)"
    unfolding promises.simps by blast
  then have i: "inv (now_of (saw ?s u))"
    and g: "promises inv (p (po_store u)) post (\<lambda>_ _. True) (now_of (saw ?s u))"
    and b: "promises inv (k e) post (\<lambda>_ _. True) (now_of (saw ?s u))"
    and c: "promises inv (k e) post (\<lambda>_ _. True) (now_of u)"
    unfolding n(2) n(1) by blast+
  have s: "kept (saw ?s u)" using assms(1) i by (rule kept_saw)
  show "kept (continue i (p (po_store u)) (saw ?s u))" using s g by (rule kept_continue)
  show "kept (continue i (k e) u)" using assms(1) c by (rule kept_continue)
  show "kept (continue i (k e) (saw ?s u))" using s b by (rule kept_continue)
qed

lemma kept_reply:
  assumes "kept u" and "i < length (po_running u)" and "po_running u ! i = Call q k"
  shows "kept (continue i (k r) (u\<lparr>po_trace := po_trace u @ [Asked q r]\<rparr>))"
proof -
  from assms(1,2) obtain h where l: "later inv h (now_of u)"
    and "promises inv (po_running u ! i) post (\<lambda>_ _. True) h" by (rule running_promises)
  with assms(3) have w: "inv (hear q r (now_of u))"
    "promises inv (k r) post (\<lambda>_ _. True) (hear q r (now_of u))" by simp_all
  have n: "now_of (u\<lparr>po_trace := po_trace u @ [Asked q r]\<rparr>) = hear q r (now_of u)"
    by (simp add: now_of_def hear_def)
  show ?thesis using kept_heard [OF assms(1) w(1)] w(2) unfolding n [symmetric] by (rule kept_continue)
qed

lemma kept_start:
  assumes "kept u" and "launch j (po_store u) = Some p"
  shows "kept (u\<lparr>po_running := po_running u @ [p]\<rparr>)"
proof -
  let ?u = "u\<lparr>po_running := po_running u @ [p]\<rparr>"
  have n: "now_of ?u = now_of u" by (simp add: now_of_def)
  have i: "inv (now_of u)" using assms(1) by (simp add: kept_def)
  moreover have "later inv (now_of u) (now_of u)" using i by (simp add: later_def)
  moreover have "promises inv p post (\<lambda>_ _. True) (now_of u)"
    using launched [OF i] assms(2) by (simp add: now_of_def)
  ultimately show ?thesis using assms(1) unfolding kept_def n by auto
qed

lemma kept_step: "kept u \<Longrightarrow> pool_step launch outside ev u = Some u' \<Longrightarrow> kept u'"
proof (cases ev)
  case (Outside v)
  assume k: "kept u" and s: "pool_step launch outside ev u = Some u'"
  from s Outside obtain s' where o: "outside v (po_store u) = Some s'" "u' = saw s' u"
    by (auto split: option.splits)
  have i: "inv (now_of u)" using k by (simp add: kept_def)
  have "inv (see s' (now_of u))" using disturbed [OF i] o(1) by (simp add: now_of_def)
  then have "inv (now_of (saw s' u))" by (simp add: now_of_def saw_def see_def)
  with k show ?thesis unfolding o(2) by (rule kept_saw)
next
  case (Kill i)
  assume k: "kept u" and "pool_step launch outside ev u = Some u'"
  with Kill show ?thesis by (auto split: if_splits intro!: kept_continue)
qed (auto split: option.splits if_splits prog.splits intro: kept_start kept_transaction kept_reply)

lemma kept_run: "pool_run launch outside evs u = Some u' \<Longrightarrow> kept u \<Longrightarrow> kept u'"
  by (induction evs arbitrary: u) (auto split: option.splits dest: kept_step)

lemma run_invariant:
  assumes "pool_run launch outside evs (pool_start s) = Some u" and "inv (History s [Saw s])"
  shows "inv (History (po_store u) (po_trace u))"
proof -
  have "kept (pool_start s)" using assms(2) by (simp add: kept_def now_of_def pool_start_def)
  with assms(1) have "kept u" by (rule kept_run)
  then show ?thesis by (simp add: kept_def now_of_def)
qed

lemma run_returned:
  assumes "pool_run launch outside evs (pool_start s) = Some u" and "inv (History s [Saw s])"
    and "Ret x \<in> set (po_running u)"
  shows "\<exists>h. later inv h (History (po_store u) (po_trace u)) \<and> post x h"
proof -
  have "kept (pool_start s)" using assms(2) by (simp add: kept_def now_of_def pool_start_def)
  with assms(1) have "kept u" by (rule kept_run)
  with assms(3) show ?thesis by (fastforce simp: kept_def now_of_def)
qed

end

end
