(* ===== verification/IngestStore.thy ===== *)
theory IngestStore imports Programs TaskQueue "HOL-Library.Product_Lexorder" begin

text \<open>
  The tables of session ingestion and the statements on them: session\_ingestion/schemas.py,
  identifiers.py, payloads.py, repository.py, queries.py and adapters/repository.py, with the tables
  of schema/002\_session\_ingestion.sql and 016\_session\_semantic\_split.sql. A store holds the rows of
  one tenant, the bound one; \<open>worker_tasks\<close> is the table of TaskQueue. A statement gives the
  exception it raises, or its result and the new store; a transaction composes them.
\<close>

section \<open>The libraries\<close>

text \<open>
  The JSON serialiser with sorted keys (with the default separators, with the compact ones, and with the
  compact ones and ASCII only), the
  parser, SHA-256 of a text, and \<open>datetime.fromisoformat\<close>: the instant and whether a zone was given.
\<close>

record codec =
  co_dumps :: "pyval \<Rightarrow> string"
  co_compact :: "pyval \<Rightarrow> string"
  co_ascii :: "pyval \<Rightarrow> string"
  co_loads :: "string \<Rightarrow> pyexc + pyval"
  co_sha :: "string \<Rightarrow> string"
  co_iso :: "string \<Rightarrow> (rat \<times> bool) option"

section \<open>Identifiers and payload contracts\<close>

text \<open>\<open>tenant_user_session_id\<close>: the key is the JSON array of the three parts.\<close>

definition tenant_user_session_id :: "codec \<Rightarrow> string \<Rightarrow> string \<Rightarrow> pyval \<Rightarrow> pyexc + string" where
  "tenant_user_session_id co tenant user external =
     (case external of
        PStr x \<Rightarrow>
          if py_strip x = '''' then Inl (PyExc ''InvalidSessionId'' ''session_id is required'')
          else if 4096 < length x then Inl (PyExc ''InvalidSessionId'' ''session_id is too long'')
          else Inr (''session_v2_'' @ co_sha co (co_compact co (PList [PStr tenant, PStr user, PStr x])))
      | _ \<Rightarrow> Inl (PyExc ''InvalidSessionId'' ''session_id is required''))"

definition safe_id_char :: "char \<Rightarrow> bool" where
  "safe_id_char c \<longleftrightarrow>
     (let n = of_char c :: nat
      in (48 \<le> n \<and> n \<le> 57) \<or> (65 \<le> n \<and> n \<le> 90) \<or> (97 \<le> n \<and> n \<le> 122) \<or> c \<in> {CHR ''_'', CHR ''.'', CHR ''-''})"

text \<open>\<open>re.sub(r"[^A-Za-z0-9_.-]+", "-", raw)\<close>: every run of other characters becomes one dash.\<close>

fun dash_runs :: "bool \<Rightarrow> string \<Rightarrow> string" where
  "dash_runs inside [] = []"
| "dash_runs inside (c # cs) =
     (if safe_id_char c then c # dash_runs False cs
      else if inside then dash_runs True cs else CHR ''-'' # dash_runs True cs)"

definition strip_chars :: "char set \<Rightarrow> string \<Rightarrow> string" where
  "strip_chars A s = rev (dropWhile (\<lambda>c. c \<in> A) (rev (dropWhile (\<lambda>c. c \<in> A) s)))"

definition sanitize_session_id :: "pyval \<Rightarrow> string option \<Rightarrow> pyexc + string" where
  "sanitize_session_id value fallback =
     (let raw = py_strip (py_str (py_or value (PStr '''')));
          cleaned = take 160 (strip_chars {CHR ''.'', CHR ''-'', CHR ''/''} (dash_runs False raw))
      in if raw = '''' then Inl (PyExc ''InvalidSessionId'' ''session_id is required'')
         else if cleaned \<noteq> '''' then Inr cleaned
         else case fallback of Some f \<Rightarrow> Inr f | None \<Rightarrow> Inl (PyExc ''InvalidSessionId'' ''invalid session_id''))"

definition mandatory_stages :: "string list" where
  "mandatory_stages = [''normalize'', ''split'', ''analyze'', ''trace_analyze'', ''archive'']"

abbreviation payload_schema :: string where "payload_schema \<equiv> ''session-ingestion.v1''"

record task_payload =
  tp_schema_version :: string
  tp_source :: string
  tp_ingestion_id :: string
  tp_tenant_id :: string
  tp_external_id :: string
  tp_user_id :: string
  tp_account_id :: string
  tp_config_revision :: int
  tp_adapter_id :: string
  tp_adapter_revision :: int
  tp_payload_ref :: string
  tp_payload_hash :: string
  tp_pull :: pydict

definition payload_dict :: "task_payload \<Rightarrow> pydict" where
  "payload_dict p =
     [(''schema_version'', PStr (tp_schema_version p)), (''source'', PStr (tp_source p)),
      (''ingestion_id'', PStr (tp_ingestion_id p)), (''tenant_id'', PStr (tp_tenant_id p)),
      (''external_id'', PStr (tp_external_id p)), (''user_id'', PStr (tp_user_id p)),
      (''account_id'', PStr (tp_account_id p)), (''config_revision'', PInt (tp_config_revision p)),
      (''adapter_id'', PStr (tp_adapter_id p)), (''adapter_revision'', PInt (tp_adapter_revision p)),
      (''payload_ref'', PStr (tp_payload_ref p)), (''payload_hash'', PStr (tp_payload_hash p)),
      (''pull'', PDict (tp_pull p))]"

definition payload_to_json :: "codec \<Rightarrow> task_payload \<Rightarrow> string" where
  "payload_to_json co p = co_compact co (PDict (payload_dict p))"

definition payload_fingerprint :: "codec \<Rightarrow> task_payload \<Rightarrow> string" where
  "payload_fingerprint co p = co_sha co (payload_to_json co p)"

text \<open>\<open>str(data.get(k) or "")\<close>, \<open>int(data.get(k) or 0)\<close> and \<open>dict(data.get(k) or {})\<close>.\<close>

definition text_field :: "pydict \<Rightarrow> string \<Rightarrow> string" where
  "text_field d k = py_str (py_or (dget_none d k) (PStr ''''))"

definition int_field_of :: "pydict \<Rightarrow> string \<Rightarrow> pyexc + int" where
  "int_field_of d k = py_int (py_or (dget_none d k) (PInt 0))"

definition dict_field_of :: "pydict \<Rightarrow> string \<Rightarrow> pyexc + pydict" where
  "dict_field_of d k = (case py_or (dget_none d k) (PDict []) of PDict x \<Rightarrow> Inr x | _ \<Rightarrow> Inl type_error)"

definition payload_of_dict :: "pydict \<Rightarrow> pyexc + task_payload" where
  "payload_of_dict d =
     bindE (int_field_of d ''config_revision'') (\<lambda>config.
     bindE (int_field_of d ''adapter_revision'') (\<lambda>adapter.
     bindE (dict_field_of d ''pull'') (\<lambda>pull.
       Inr \<lparr>tp_schema_version = text_field d ''schema_version'', tp_source = text_field d ''source'',
         tp_ingestion_id = text_field d ''ingestion_id'', tp_tenant_id = text_field d ''tenant_id'',
         tp_external_id = text_field d ''external_id'', tp_user_id = text_field d ''user_id'',
         tp_account_id = text_field d ''account_id'', tp_config_revision = config,
         tp_adapter_id = text_field d ''adapter_id'', tp_adapter_revision = adapter,
         tp_payload_ref = text_field d ''payload_ref'', tp_payload_hash = text_field d ''payload_hash'',
         tp_pull = pull\<rparr>)))"

definition payload_from_json :: "codec \<Rightarrow> string \<Rightarrow> pyexc + task_payload" where
  "payload_from_json co raw =
     bindE (co_loads co raw) (\<lambda>v. case v of PDict d \<Rightarrow> payload_of_dict d | _ \<Rightarrow> Inl attribute_error)"

definition session_payload_hash :: "codec \<Rightarrow> pyval \<Rightarrow> string" where
  "session_payload_hash co session = co_sha co (co_compact co session)"

record accepted_job =
  aj_ingestion_id :: string
  aj_job_id :: string
  aj_status :: string
  aj_dedupe :: bool

definition accepted_response :: "accepted_job \<Rightarrow> pydict" where
  "accepted_response j =
     [(''accepted'', PBool True), (''ingestion_id'', PStr (aj_ingestion_id j)), (''job_id'', PStr (aj_job_id j)),
      (''status'', PStr (aj_status j)), (''status_url'', PStr (''/api/jobs/'' @ aj_job_id j)),
      (''dedupe'', PBool (aj_dedupe j))]"

section \<open>Tables\<close>

datatype ingestion_status = IgAccepted | IgProcessing | IgArchived | IgSkipped | IgDuplicate | IgFailed

datatype stage_status = StPending | StSucceeded | StFailed

record ingestion =
  ig_id :: string
  ig_source :: string
  ig_external_id :: string
  ig_user_id :: string
  ig_account_id :: string
  ig_dedupe_key :: string
  ig_task_id :: string
  ig_adapter_id :: string
  ig_adapter_revision :: int
  ig_config_revision :: int
  ig_payload_ref :: string
  ig_payload_hash :: string
  ig_status :: ingestion_status
  ig_business_time :: "rat option"
  ig_updated_at :: rat

record ingest_stage =
  sg_ingestion_id :: string
  sg_stage :: string
  sg_status :: stage_status
  sg_result_ref :: string
  sg_detail :: pydict
  sg_error_code :: string
  sg_updated_at :: rat

record session_row =
  ss_session_id :: string
  ss_ingestion_id :: string
  ss_source :: string
  ss_external_id :: string
  ss_user_id :: string
  ss_account_id :: string
  ss_decision :: string
  ss_content_ref :: string
  ss_content_hash :: string
  ss_judge :: pyval
  ss_filter_audit :: pyval
  ss_consumption :: pyval
  ss_meta :: pydict
  ss_business_time :: "rat option"
  ss_ingested_at :: rat

record adapter_version =
  av_adapter_id :: string
  av_revision :: int
  av_source_hash :: string
  av_source :: string

record adapter_binding =
  ab_key :: string
  ab_adapter_id :: string
  ab_revision :: int

text \<open>
  The objects of the tenant (key and content), the revision of the session configuration, and the
  database clock are part of the store.
\<close>

record istore =
  is_ingestions :: "ingestion list"
  is_stages :: "ingest_stage list"
  is_sessions :: "session_row list"
  is_objects :: "(string \<times> string) list"
  is_tasks :: tasks
  is_adapters :: "(string \<times> string) list"
  is_versions :: "adapter_version list"
  is_bindings :: "adapter_binding list"
  is_config_revision :: int
  is_now :: rat

abbreviation unique_error :: pyexc where "unique_error \<equiv> PyExc ''UniqueViolationError'' ''''"

abbreviation check_error :: pyexc where "check_error \<equiv> PyExc ''CheckViolationError'' ''''"

abbreviation reference_error :: pyexc where "reference_error \<equiv> PyExc ''ForeignKeyViolationError'' ''''"

definition db_exc :: "db_error \<Rightarrow> pyexc" where
  "db_exc e = (case e of UniqueViolation \<Rightarrow> unique_error | InsufficientPrivilege \<Rightarrow> PyExc ''InsufficientPrivilegeError'' '''')"

section \<open>Objects\<close>

text \<open>
  \<open>_put_once\<close>: an insert that keeps the object already there and raises if its content is another.
  \<open>_read\<close> of a missing object raises.
\<close>

definition put_once :: "string \<Rightarrow> string \<Rightarrow> istore \<Rightarrow> pyexc + unit \<times> istore" where
  "put_once ref raw s =
     (case map_of (is_objects s) ref of
        None \<Rightarrow> Inr ((), s\<lparr>is_objects := is_objects s @ [(ref, raw)]\<rparr>)
      | Some old \<Rightarrow> if old = raw then Inr ((), s) else Inl (PyExc ''ValueError'' ''Session payload is immutable''))"

definition put_document :: "codec \<Rightarrow> string \<Rightarrow> pyval \<Rightarrow> istore \<Rightarrow> pyexc + unit \<times> istore" where
  "put_document co ref document = put_once ref (co_dumps co document)"

definition read_document :: "codec \<Rightarrow> string \<Rightarrow> istore \<Rightarrow> pyexc + pyval" where
  "read_document co ref s =
     (case map_of (is_objects s) ref of None \<Rightarrow> Inl (PyExc ''KeyError'' ref) | Some raw \<Rightarrow> co_loads co raw)"

text \<open>\<open>v[k]\<close> of a parsed document.\<close>

definition item_of :: "string \<Rightarrow> pyval \<Rightarrow> pyexc + pyval" where
  "item_of k v =
     (case v of PDict d \<Rightarrow> (case dget d k of None \<Rightarrow> Inl (PyExc ''KeyError'' k) | Some x \<Rightarrow> Inr x) | _ \<Rightarrow> Inl type_error)"

definition put_payload_json :: "codec \<Rightarrow> string \<Rightarrow> string \<Rightarrow> pyval \<Rightarrow> istore \<Rightarrow> pyexc + unit \<times> istore" where
  "put_payload_json co ref payload_json session =
     put_document co ref (PDict [(''payload'', PStr payload_json), (''session'', session)])"

definition get_payload_json :: "codec \<Rightarrow> string \<Rightarrow> istore \<Rightarrow> pyexc + pyval" where
  "get_payload_json co ref s = bindE (read_document co ref s) (item_of ''payload'')"

definition get_session :: "codec \<Rightarrow> string \<Rightarrow> istore \<Rightarrow> pyexc + pyval" where
  "get_session co ref s = bindE (read_document co ref s) (item_of ''session'')"

definition session_ref :: "codec \<Rightarrow> string \<Rightarrow> string \<Rightarrow> pyval \<Rightarrow> string" where
  "session_ref co ingestion_id stage session =
     ''session/'' @ co_sha co ingestion_id @ ''/'' @ stage @ ''/'' @ session_payload_hash co session @ ''.json''"

definition put_session :: "codec \<Rightarrow> string \<Rightarrow> string \<Rightarrow> pyval \<Rightarrow> istore \<Rightarrow> pyexc + (string \<times> string) \<times> istore" where
  "put_session co ingestion_id stage session s =
     (let ref = session_ref co ingestion_id stage session
      in bindE (put_document co ref (PDict [(''session'', session)]) s)
           (\<lambda>(_, s'). Inr ((ref, session_payload_hash co session), s')))"

section \<open>Acceptance records\<close>

record accept_request =
  ar_ingestion_id :: string
  ar_source :: string
  ar_external_id :: string
  ar_user_id :: string
  ar_account_id :: string
  ar_dedupe_key :: string
  ar_task_id :: string
  ar_adapter_id :: string
  ar_adapter_revision :: int
  ar_config_revision :: int
  ar_payload_ref :: string
  ar_payload_hash :: string
  ar_business_time :: pyval

text \<open>\<open>value.replace("Z", "+00:00")\<close>, then a time with a zone; what is no text goes to the driver.\<close>

definition zulu :: "string \<Rightarrow> string" where
  "zulu s = concat (map (\<lambda>c. if c = CHR ''Z'' then ''+00:00'' else [c]) s)"

definition business_time_of :: "codec \<Rightarrow> pyval \<Rightarrow> pyexc + rat option" where
  "business_time_of co v =
     (case v of
        PNone \<Rightarrow> Inr None
      | PStr x \<Rightarrow>
          (case co_iso co (zulu x) of
             None \<Rightarrow> Inl value_error
           | Some (t, zone) \<Rightarrow> if zone then Inr (Some t) else Inl (PyExc ''ValueError'' ''business_time requires timezone''))
      | _ \<Rightarrow> Inl (PyExc ''DataError'' ''''))"

definition ingestion_of :: "rat \<Rightarrow> rat option \<Rightarrow> accept_request \<Rightarrow> ingestion" where
  "ingestion_of now time a =
     \<lparr>ig_id = ar_ingestion_id a, ig_source = ar_source a, ig_external_id = ar_external_id a,
      ig_user_id = ar_user_id a, ig_account_id = ar_account_id a, ig_dedupe_key = ar_dedupe_key a,
      ig_task_id = ar_task_id a, ig_adapter_id = ar_adapter_id a, ig_adapter_revision = ar_adapter_revision a,
      ig_config_revision = ar_config_revision a, ig_payload_ref = ar_payload_ref a,
      ig_payload_hash = ar_payload_hash a, ig_status = IgAccepted, ig_business_time = time, ig_updated_at = now\<rparr>"

text \<open>The insert with the primary key, the partial unique index on the key and the check of the source.\<close>

definition insert_ingestion :: "ingestion \<Rightarrow> istore \<Rightarrow> pyexc + istore" where
  "insert_ingestion g s =
     (if ig_source g \<notin> {''push'', ''pull''} then Inl check_error
      else if ig_id g \<in> ig_id ` set (is_ingestions s) then Inl unique_error
      else if ig_dedupe_key g \<noteq> '''' \<and> ig_dedupe_key g \<in> ig_dedupe_key ` set (is_ingestions s) then Inl unique_error
      else Inr (s\<lparr>is_ingestions := is_ingestions s @ [g]\<rparr>))"

definition accept_ingestion :: "codec \<Rightarrow> accept_request \<Rightarrow> istore \<Rightarrow> pyexc + string \<times> istore" where
  "accept_ingestion co a s =
     (case (if ar_dedupe_key a \<noteq> '''' then find (\<lambda>g. ig_dedupe_key g = ar_dedupe_key a) (is_ingestions s) else None) of
        Some g \<Rightarrow> Inr (ig_id g, s)
      | None \<Rightarrow>
          bindE (business_time_of co (ar_business_time a)) (\<lambda>time.
          bindE (insert_ingestion (ingestion_of (is_now s) time a) s) (\<lambda>s'. Inr (ar_ingestion_id a, s'))))"

definition set_ingestion_status :: "string \<Rightarrow> ingestion_status \<Rightarrow> istore \<Rightarrow> bool \<times> istore" where
  "set_ingestion_status i st s =
     (i \<in> ig_id ` set (is_ingestions s),
      s\<lparr>is_ingestions := upd_where (\<lambda>g. ig_id g = i)
          (\<lambda>g. g\<lparr>ig_status := st, ig_updated_at := is_now s\<rparr>) (is_ingestions s)\<rparr>)"

definition get_ingestion :: "string \<Rightarrow> istore \<Rightarrow> ingestion option" where
  "get_ingestion i s = find (\<lambda>g. ig_id g = i) (is_ingestions s)"

section \<open>Stage results\<close>

text \<open>An upsert: the row of the ingestion and the stage, which must name an ingestion.\<close>

definition record_stage ::
  "string \<Rightarrow> string \<Rightarrow> stage_status \<Rightarrow> string \<Rightarrow> pydict \<Rightarrow> string \<Rightarrow> istore \<Rightarrow> pyexc + unit \<times> istore" where
  "record_stage i stage st ref detail code s =
     (let row = \<lparr>sg_ingestion_id = i, sg_stage = stage, sg_status = st, sg_result_ref = ref, sg_detail = detail,
                 sg_error_code = code, sg_updated_at = is_now s\<rparr>;
          same = (\<lambda>r. sg_ingestion_id r = i \<and> sg_stage r = stage)
      in if stage \<notin> set mandatory_stages then Inl check_error
         else if i \<notin> ig_id ` set (is_ingestions s) then Inl reference_error
         else Inr ((), s\<lparr>is_stages := (if \<exists>r\<in>set (is_stages s). same r then upd_where same (\<lambda>_. row) (is_stages s)
                                       else is_stages s @ [row])\<rparr>))"

definition stage_results :: "string \<Rightarrow> istore \<Rightarrow> ingest_stage list" where
  "stage_results i s = filter (\<lambda>r. sg_ingestion_id r = i) (is_stages s)"

definition succeeded_stages :: "string \<Rightarrow> istore \<Rightarrow> string list" where
  "succeeded_stages i s = map sg_stage (filter (\<lambda>r. sg_ingestion_id r = i \<and> sg_status r = StSucceeded) (is_stages s))"

section \<open>Formal sessions\<close>

definition write_session :: "session_row \<Rightarrow> istore \<Rightarrow> pyexc + unit \<times> istore" where
  "write_session r s =
     (let same = (\<lambda>x. ss_session_id x = ss_session_id r);
          replace = (\<lambda>x. x\<lparr>ss_ingestion_id := ss_ingestion_id r, ss_source := ss_source r,
            ss_decision := ss_decision r, ss_content_ref := ss_content_ref r, ss_content_hash := ss_content_hash r,
            ss_judge := ss_judge r, ss_filter_audit := ss_filter_audit r, ss_consumption := ss_consumption r,
            ss_meta := ss_meta r, ss_business_time := ss_business_time r, ss_ingested_at := is_now s\<rparr>)
      in if ss_decision r \<notin> {'''', ''valuable'', ''skipped''} then Inl check_error
         else Inr ((), s\<lparr>is_sessions := (if \<exists>x\<in>set (is_sessions s). same x then upd_where same replace (is_sessions s)
                                         else is_sessions s @ [r\<lparr>ss_ingested_at := is_now s\<rparr>])\<rparr>))"

section \<open>Queries\<close>

definition clamp_limit :: "int option \<Rightarrow> nat" where
  "clamp_limit limit = (case limit of None \<Rightarrow> 50 | Some n \<Rightarrow> if n \<le> 0 then 50 else nat (min n 200))"

text \<open>\<open>ORDER BY business_time DESC NULLS LAST, session_id DESC\<close>.\<close>

definition newest_first :: "session_row list \<Rightarrow> session_row list" where
  "newest_first rows =
     sort_key (\<lambda>r. case ss_business_time r of None \<Rightarrow> (1 :: nat, 0) | Some t \<Rightarrow> (0, - t)) (rev (sort_key ss_session_id rows))"

definition list_sessions :: "int option \<Rightarrow> rat option \<Rightarrow> istore \<Rightarrow> session_row list" where
  "list_sessions limit before s =
     take (clamp_limit limit) (newest_first (filter (\<lambda>r.
       case before of None \<Rightarrow> True
       | Some b \<Rightarrow> (case ss_business_time r of None \<Rightarrow> False | Some t \<Rightarrow> t < b)) (is_sessions s)))"

definition get_session_row :: "string \<Rightarrow> istore \<Rightarrow> session_row option" where
  "get_session_row i s = find (\<lambda>r. ss_session_id r = i) (is_sessions s)"

text \<open>The keyset pages of consumers: \<open>ORDER BY ingested_at, session_id\<close> after a cursor.\<close>

abbreviation ingest_key :: "session_row \<Rightarrow> rat \<times> string" where
  "ingest_key r \<equiv> (ss_ingested_at r, ss_session_id r)"

definition after_cursor :: "(rat \<times> string) option \<Rightarrow> session_row \<Rightarrow> bool" where
  "after_cursor after r \<longleftrightarrow> (case after of None \<Rightarrow> True | Some c \<Rightarrow> c < ingest_key r)"

definition evolution_page ::
  "string list option \<Rightarrow> (rat \<times> string) option \<Rightarrow> int option \<Rightarrow> istore \<Rightarrow> session_row list" where
  "evolution_page ids after limit s =
     take (clamp_limit limit) (sort_key ingest_key (filter (\<lambda>r.
       ss_decision r = ''valuable'' \<and> (case ids of None \<Rightarrow> True | Some xs \<Rightarrow> ss_session_id r \<in> set xs) \<and>
       after_cursor after r) (is_sessions s)))"

definition experience_page ::
  "rat \<Rightarrow> rat option \<Rightarrow> (rat \<times> string) option \<Rightarrow> int option \<Rightarrow> istore \<Rightarrow> session_row list" where
  "experience_page until since after limit s =
     take (clamp_limit limit) (sort_key ingest_key (filter (\<lambda>r.
       ss_ingested_at r \<le> until \<and> (case since of None \<Rightarrow> True | Some t \<Rightarrow> t \<le> ss_ingested_at r) \<and>
       after_cursor after r) (is_sessions s)))"

section \<open>Adapter versions and bindings\<close>

definition ensure_adapter :: "string \<Rightarrow> string \<Rightarrow> istore \<Rightarrow> istore" where
  "ensure_adapter adapter kind s =
     (if adapter \<in> fst ` set (is_adapters s) then s else s\<lparr>is_adapters := is_adapters s @ [(adapter, kind)]\<rparr>)"

definition latest_revision :: "string \<Rightarrow> istore \<Rightarrow> int" where
  "latest_revision adapter s = fold max (map av_revision (filter (\<lambda>v. av_adapter_id v = adapter) (is_versions s))) 0"

definition adapter_head :: "string \<Rightarrow> istore \<Rightarrow> adapter_version option" where
  "adapter_head adapter s =
     first_by (\<lambda>v w. av_revision w < av_revision v) (filter (\<lambda>v. av_adapter_id v = adapter) (is_versions s))"

text \<open>
  \<open>save_source\<close>. Between its read and its insert other transactions may commit; \<open>others\<close> are the versions
  they add, and the insert then does nothing if one of them has the revision.
\<close>

definition insert_adapter_version ::
  "string \<Rightarrow> int \<Rightarrow> string \<Rightarrow> string \<Rightarrow> istore \<Rightarrow> pyexc + int \<times> istore" where
  "insert_adapter_version adapter revision digest source s =
     (if \<exists>v\<in>set (is_versions s). av_adapter_id v = adapter \<and> av_revision v = revision
      then Inl (PyExc ''AdapterConflict'' '''')
      else Inr (revision, s\<lparr>is_versions := is_versions s @
        [\<lparr>av_adapter_id = adapter, av_revision = revision, av_source_hash = digest, av_source = source\<rparr>]\<rparr>))"

definition save_source ::
  "codec \<Rightarrow> string \<Rightarrow> string \<Rightarrow> string \<Rightarrow> adapter_version list \<Rightarrow> istore \<Rightarrow> pyexc + int \<times> istore" where
  "save_source co adapter source kind others s0 =
     (let s = ensure_adapter adapter kind s0; digest = co_sha co source; s' = s\<lparr>is_versions := is_versions s @ others\<rparr>
      in case adapter_head adapter s of
           Some v \<Rightarrow>
             if av_source_hash v = digest then Inr (av_revision v, s')
             else insert_adapter_version adapter (av_revision v + 1) digest source s'
         | None \<Rightarrow> insert_adapter_version adapter 1 digest source s')"

definition get_adapter_version :: "string \<Rightarrow> int \<Rightarrow> istore \<Rightarrow> adapter_version option" where
  "get_adapter_version adapter revision s =
     find (\<lambda>v. av_adapter_id v = adapter \<and> av_revision v = revision) (is_versions s)"

definition bind_adapter :: "string \<Rightarrow> string \<Rightarrow> int \<Rightarrow> istore \<Rightarrow> pyexc + unit \<times> istore" where
  "bind_adapter key adapter revision s =
     (let row = \<lparr>ab_key = key, ab_adapter_id = adapter, ab_revision = revision\<rparr>
      in if get_adapter_version adapter revision s = None then Inl reference_error
         else Inr ((), s\<lparr>is_bindings := (if key \<in> ab_key ` set (is_bindings s)
           then upd_where (\<lambda>b. ab_key b = key) (\<lambda>_. row) (is_bindings s) else is_bindings s @ [row])\<rparr>))"

definition adapter_binding_of :: "string \<Rightarrow> istore \<Rightarrow> adapter_binding option" where
  "adapter_binding_of key s = find (\<lambda>b. ab_key b = key) (is_bindings s)"

end
