(* ===== verification/SessionSplit.thy ===== *)
theory SessionSplit imports PyValue begin

text \<open>
  The semantic split of a session: session\_ingestion/split.py. A language model proposes topic
  boundaries over the turns; the code turns its reply into segments and builds one session per
  segment. Arguments: the model client, the reader of a JSON object in the reply
  (\<open>_extract_json_object\<close>, regular expressions over the model's text), the parser of timestamps, and
  the marks put into titles, which are Chinese text.
\<close>

section \<open>Boundaries\<close>

type_synonym boundary = "int \<times> int \<times> string"

text \<open>\<open>int(v)\<close> inside \<open>except (TypeError, ValueError)\<close>: other exceptions go through.\<close>

definition int_or_skip :: "pyval \<Rightarrow> pyexc + int option" where
  "int_or_skip v =
     (case py_int v of
        Inr i \<Rightarrow> Inr (Some i)
      | Inl e \<Rightarrow> if e = type_error \<or> e = value_error then Inr None else Inl e)"

definition parse_boundary :: "int \<Rightarrow> pyval \<Rightarrow> pyexc + boundary option" where
  "parse_boundary n v =
     (case v of
        PDict d \<Rightarrow>
          bindE (int_or_skip (dget_none d ''start'')) (\<lambda>start.
          case start of
            None \<Rightarrow> Inr None
          | Some a \<Rightarrow>
              bindE (int_or_skip (dget_none d ''end'')) (\<lambda>stop.
              case stop of
                None \<Rightarrow> Inr None
              | Some b \<Rightarrow>
                  if a < 1 \<or> b < a then Inr None
                  else Inr (Some (a, min b n, take 80 (py_strip (py_str (py_or (dget_none d ''topic'') (PStr ''''))))))))
      | _ \<Rightarrow> Inr None)"

definition parse_boundaries :: "int \<Rightarrow> pyval list \<Rightarrow> pyexc + boundary list" where
  "parse_boundaries n vs =
     bindE (mapE (parse_boundary n) vs) (\<lambda>found. Inr (map the (filter (\<lambda>x. x \<noteq> None) found)))"

text \<open>Overlaps are clipped; the second argument is the end of the last segment kept.\<close>

fun order_boundaries :: "int \<Rightarrow> int option \<Rightarrow> boundary list \<Rightarrow> boundary list" where
  "order_boundaries n last_end [] = []"
| "order_boundaries n last_end ((a, b, topic) # rest) =
     (case last_end of
        None \<Rightarrow> (a, min b n, topic) # order_boundaries n (Some (min b n)) rest
      | Some e \<Rightarrow>
          if a \<le> e then
            (if n < e + 1 then []
             else if b < e + 1 then order_boundaries n last_end rest
             else (e + 1, min b n, topic) # order_boundaries n (Some (min b n)) rest)
          else (a, min b n, topic) # order_boundaries n (Some (min b n)) rest)"

text \<open>Holes go to the segment before them, which is the head of the segments so far, latest first.\<close>

definition absorb :: "int \<Rightarrow> boundary list \<Rightarrow> boundary list" where
  "absorb until_turn filled =
     (case filled of (a, b, topic) # rest \<Rightarrow> (a, until_turn, topic) # rest | [] \<Rightarrow> [(1, until_turn, '''')])"

fun fill_holes :: "int \<Rightarrow> boundary list \<Rightarrow> boundary list \<Rightarrow> int \<times> boundary list" where
  "fill_holes covered filled [] = (covered, filled)"
| "fill_holes covered filled ((a, b, topic) # rest) =
     fill_holes b ((a, b, topic) # (if covered + 1 < a then absorb (a - 1) filled else filled)) rest"

definition complete_boundaries :: "int \<Rightarrow> boundary list \<Rightarrow> boundary list" where
  "complete_boundaries n parsed =
     (case fill_holes 0 [] (order_boundaries n None (sort_key fst parsed)) of
        (covered, filled) \<Rightarrow> rev (if covered < n then absorb n filled else filled))"

definition coerce_boundaries :: "(string \<Rightarrow> pydict option) \<Rightarrow> string \<Rightarrow> int \<Rightarrow> pyexc + boundary list" where
  "coerce_boundaries extract raw n =
     (case extract raw of
        None \<Rightarrow> Inr []
      | Some payload \<Rightarrow>
          (case dget_none payload ''segments'' of
             PList (v # vs) \<Rightarrow>
               bindE (parse_boundaries n (v # vs)) (\<lambda>parsed.
                 Inr (if parsed = [] then [] else complete_boundaries n parsed))
           | _ \<Rightarrow> Inr []))"

section \<open>Segments\<close>

text \<open>
  The outside of a split: the client of the model, if there is one (its answer to the request may be
  an exception), the reader of its reply, timestamps as ISO texts, and the marks of titles.
\<close>

record splitter =
  sp_enabled :: bool
  sp_client :: "(pydict \<Rightarrow> pyexc + pyval) option"
  sp_extract :: "string \<Rightarrow> pydict option"
  sp_iso :: "string \<Rightarrow> string option"
  sp_mark :: "nat \<Rightarrow> nat \<Rightarrow> string"
  sp_marked :: "nat \<Rightarrow> nat \<Rightarrow> string"

definition turn_timestamp :: "splitter \<Rightarrow> pydict \<Rightarrow> string option" where
  "turn_timestamp sp turn =
     (let langfuse = as_dict (dget_none turn ''_langfuse'');
          text = (\<lambda>v. py_strip (py_str (py_or v (PStr ''''))));
          first = text (dget_none turn ''timestamp''); second = text (dget_none langfuse ''timestamp'');
          read = (\<lambda>t. if t = '''' then None else sp_iso sp t)
      in case read first of Some t \<Rightarrow> Some t | None \<Rightarrow> read second)"

definition turn_int :: "pydict \<Rightarrow> string \<Rightarrow> pyexc + int" where
  "turn_int turn k =
     bindE (int_or_skip (py_or (dget_none (as_dict (dget_none turn ''metrics'')) k) (PInt 0)))
       (\<lambda>i. Inr (case i of None \<Rightarrow> 0 | Some x \<Rightarrow> x))"

definition sum_ints :: "pydict list \<Rightarrow> string \<Rightarrow> pyexc + int" where
  "sum_ints turns k = bindE (mapE (\<lambda>t. turn_int t k) turns) (\<lambda>xs. Inr (sum_list xs))"

text \<open>\<open>str.splitlines\<close>; a carriage return with a line feed is one break.\<close>

definition line_break :: "char \<Rightarrow> bool" where
  "line_break c \<longleftrightarrow> of_char c \<in> ({10, 11, 12, 13, 28, 29, 30, 133} :: nat set)"

fun split_lines_from :: "bool \<Rightarrow> string \<Rightarrow> string \<Rightarrow> string list" where
  "split_lines_from after_cr acc [] = (if acc = [] then [] else [rev acc])"
| "split_lines_from after_cr acc (c # cs) =
     (if after_cr \<and> c = CHR 0x0A then split_lines_from False acc cs
      else if line_break c then rev acc # split_lines_from (c = CHR 0x0D) [] cs
      else split_lines_from False (c # acc) cs)"

definition first_prompt_line :: "pydict \<Rightarrow> string" where
  "first_prompt_line turn =
     (case filter (\<lambda>l. l \<noteq> '''')
         (map py_strip (split_lines_from False [] (py_strip (py_str (py_or (dget_none turn ''prompt_text'') (PStr '''')))))) of
        [] \<Rightarrow> '''' | l # _ \<Rightarrow> take 80 l)"

definition turn_messages :: "pydict \<Rightarrow> pyexc + pydict list" where
  "turn_messages turn =
     bindE (py_iter (py_or (dget_none turn ''messages'') (PList []))) (\<lambda>ms. Inr (map as_dict (filter is_dict ms)))"

definition tool_calls_of :: "pydict \<Rightarrow> pyexc + int" where
  "tool_calls_of turn =
     bindE (turn_int turn ''tool_call_count'') (\<lambda>n.
       if n \<noteq> 0 then Inr n else py_len (py_or (dget_none turn ''tool_calls'') (PList [])))"

fun add_skills :: "pyval list \<Rightarrow> string list \<Rightarrow> string list" where
  "add_skills [] bucket = bucket"
| "add_skills (v # vs) bucket =
     (let s = py_strip (py_str v) in add_skills vs (if s \<noteq> '''' \<and> s \<notin> set bucket then bucket @ [s] else bucket))"

definition collect_skills :: "string \<Rightarrow> pydict list \<Rightarrow> pyexc + string list" where
  "collect_skills k turns =
     foldE (\<lambda>turn bucket. bindE (py_iter (py_or (dget_none turn k) (PList []))) (\<lambda>vs. Inr (add_skills vs bucket))) turns []"

definition pad3 :: "int \<Rightarrow> string" where
  "pad3 i = (let t = int_str i in replicate (3 - length t) (CHR ''0'') @ t)"

definition segment_suffix :: "int \<Rightarrow> int \<Rightarrow> string" where
  "segment_suffix a b = ''_s'' @ pad3 a @ ''-'' @ pad3 b"

text \<open>\<open>s[:k]\<close>, where a negative \<open>k\<close> counts from the end.\<close>

definition py_upto :: "int \<Rightarrow> 'a list \<Rightarrow> 'a list" where
  "py_upto k s = (if 0 \<le> k then take (nat k) s else take (length s - nat (- k)) s)"

definition segment_id :: "string \<Rightarrow> int \<Rightarrow> int \<Rightarrow> string" where
  "segment_id base_id a b =
     (let suffix = segment_suffix a b in py_upto (200 - int (length suffix)) base_id @ suffix)"

fun has_infix :: "string \<Rightarrow> string \<Rightarrow> bool" where
  "has_infix p [] = (p = [])"
| "has_infix p (c # cs) = (take (length p) (c # cs) = p \<or> has_infix p cs)"

definition segment_title :: "splitter \<Rightarrow> pydict \<Rightarrow> pydict list \<Rightarrow> string \<Rightarrow> nat \<Rightarrow> nat \<Rightarrow> string" where
  "segment_title sp base turns topic index count =
     (let given = (if topic \<noteq> '''' then topic else py_strip (py_str (py_or (dget_none base ''title'') (PStr ''''))));
          title = (if given \<noteq> '''' then given else case turns of t # _ \<Rightarrow> first_prompt_line t | [] \<Rightarrow> '''')
      in take 120 (if title \<noteq> '''' \<and> \<not> has_infix (sp_mark sp index count) title
                   then title @ sp_marked sp index count else title))"

text \<open>The fields taken over from the session, and the ones that depend on its others.\<close>

definition copy_if_given :: "pydict \<Rightarrow> string \<Rightarrow> pydict \<Rightarrow> pydict" where
  "copy_if_given base k d = (case dget_none base k of PNone \<Rightarrow> d | v \<Rightarrow> dput k v d)"

definition carry_over :: "splitter \<Rightarrow> pydict \<Rightarrow> pydict list \<Rightarrow> pydict \<Rightarrow> pydict" where
  "carry_over sp base turns segment =
     (let d1 = fold (copy_if_given base)
            [''user_alias'', ''user_id'', ''runtime'', ''runtime_context'', ''agent_id'', ''meta''] segment;
          stamp = (case turns of t # _ \<Rightarrow> turn_timestamp sp t | [] \<Rightarrow> None);
          d2 = (case stamp of
                  Some t \<Rightarrow> dput ''timestamp'' (PStr t) d1
                | None \<Rightarrow> if truthy (dget_none base ''timestamp'') then dput ''timestamp'' (dget_none base ''timestamp'') d1 else d1);
          d3 = copy_if_given base ''business_time'' d2;
          ids = map (\<lambda>t. PStr (py_str (dget_none t ''trace_id''))) (filter (\<lambda>t. truthy (dget_none t ''trace_id'')) turns);
          d4 = (case dget_none base ''langfuse'' of
                  PDict l \<Rightarrow> dput ''langfuse'' (PDict (dmerge l
                    [(''trace_count'', PInt (int (length ids))), (''trace_ids'', PList ids)])) d3
                | _ \<Rightarrow> d3);
          d5 = (if truthy (dget_none base ''force_reprocess'')
                then dput ''reprocess_reason'' (PStr (py_str (py_or (dget_none base ''reprocess_reason'')
                       (PStr ''split from original session'')))) (dput ''force_reprocess'' (PBool True) d4)
                else d4)
      in if truthy (dget_none base ''defer_evolution_trigger'') then dput ''defer_evolution_trigger'' (PBool True) d5 else d5)"

definition segment_metadata :: "pydict \<Rightarrow> string \<Rightarrow> int \<Rightarrow> int \<Rightarrow> string \<Rightarrow> nat \<Rightarrow> nat \<Rightarrow> pydict" where
  "segment_metadata metadata base_id a b topic index count =
     dput ''split_segment'' (PDict [(''index'', PInt (int index)), (''total'', PInt (int count)),
         (''turn_range'', PList [PInt a, PInt b]), (''topic'', PStr topic), (''strategy'', PStr ''semantic'')])
       (dput ''split_from_session'' (PStr base_id) metadata)"

definition build_segment ::
  "splitter \<Rightarrow> pydict \<Rightarrow> pydict list \<Rightarrow> int \<Rightarrow> int \<Rightarrow> string \<Rightarrow> nat \<Rightarrow> nat \<Rightarrow> pyexc + pydict" where
  "build_segment sp base turns a b topic index count =
     (let base_id = py_str (py_or (dget_none base ''session_id'') (PStr ''session''))
      in bindE (mapE turn_messages turns) (\<lambda>mss. let messages = concat mss in
         bindE (mapE tool_calls_of turns) (\<lambda>tools.
         bindE (sum_ints turns ''api_call_count'') (\<lambda>api.
         bindE (sum_ints turns ''input_tokens'') (\<lambda>input.
         bindE (sum_ints turns ''output_tokens'') (\<lambda>output.
         bindE (sum_ints turns ''total_tokens'') (\<lambda>tokens.
         bindE (collect_skills ''injected_skills'' turns) (\<lambda>injected.
         bindE (collect_skills ''used_skills'' turns) (\<lambda>used.
         bindE (case py_or (dget_none base ''metadata'') (PDict []) of PDict d \<Rightarrow> Inr d | _ \<Rightarrow> Inl type_error) (\<lambda>metadata.
           Inr (carry_over sp base turns
             [(''session_id'', PStr (segment_id base_id a b)),
              (''turns'', PList (map PDict turns)),
              (''messages'', PList (map PDict messages)),
              (''system_prompt'', py_or (dget_none base ''system_prompt'') (PStr '''')),
              (''injected_skills'', PList (map PStr injected)),
              (''used_skills'', PList (map PStr used)),
              (''source'', py_or (dget_none base ''source'') (PStr '''')),
              (''title'', PStr (segment_title sp base turns topic index count)),
              (''metrics'', PDict
                [(''interaction_turns'', PInt (int (length turns))),
                 (''message_count'', PInt (int (length messages))),
                 (''tool_call_count'', PInt (sum_list tools)), (''api_call_count'', PInt api),
                 (''input_tokens'', PInt input), (''output_tokens'', PInt output),
                 (''total_tokens'', PInt (if tokens \<noteq> 0 then tokens else input + output))]),
              (''metadata'', PDict (segment_metadata metadata base_id a b topic index count))])))))))))))"

section \<open>The split\<close>

definition boundary_request :: "pydict list \<Rightarrow> pydict" where
  "boundary_request turns =
     [(''total_turns'', PInt (int (length turns))),
      (''turns'', PList (map (\<lambda>(i, turn). PDict
         [(''i'', PInt (int i)),
          (''ts'', PStr (let t = (case dget_none turn ''_langfuse'' of PDict l \<Rightarrow> py_str (dget_none l ''timestamp'') | _ \<Rightarrow> '''')
                        in if t \<noteq> '''' then t else py_str (py_or (dget_none turn ''timestamp'') (PStr '''')))),
          (''text'', PStr (take 160 (py_strip (py_str (py_or (dget_none turn ''prompt_text'') (PStr ''''))))))])
        (enumerate 1 turns)))]"

definition llm_boundaries :: "splitter \<Rightarrow> (pydict \<Rightarrow> pyexc + pyval) \<Rightarrow> pydict list \<Rightarrow> pyexc + boundary list" where
  "llm_boundaries sp client turns =
     (case client (boundary_request turns) of
        Inl e \<Rightarrow> Inr []
      | Inr raw \<Rightarrow> coerce_boundaries (sp_extract sp) (py_str (py_or raw (PStr ''''))) (int (length turns)))"

text \<open>\<open>turns[a - 1 : b]\<close> for \<open>a\<close> from 1.\<close>

definition turn_slice :: "'a list \<Rightarrow> int \<Rightarrow> int \<Rightarrow> 'a list" where
  "turn_slice turns a b = drop (nat (a - 1)) (take (nat b) turns)"

definition session_turns :: "pydict \<Rightarrow> pyexc + pydict list" where
  "session_turns session =
     bindE (py_iter (py_or (dget_none session ''turns'') (PList []))) (\<lambda>ts. Inr (map as_dict (filter is_dict ts)))"

definition split_session :: "splitter \<Rightarrow> pyval \<Rightarrow> pyexc + pyval list" where
  "split_session sp session =
     (case session of
        PDict base \<Rightarrow>
          if \<not> sp_enabled sp \<or> truthy (dget_none (as_dict (dget_none base ''metadata'')) ''split_from_session'') \<or>
            py_strip (py_str (py_or (dget_none (as_dict (dget_none base ''runtime_context'')) ''candidate_job_id'') (PStr ''''))) \<noteq> ''''
          then Inr [session]
          else bindE (session_turns base) (\<lambda>turns.
            if turns = [] then Inr [session]
            else case sp_client sp of
              None \<Rightarrow> Inr [session]
            | Some client \<Rightarrow>
                bindE (llm_boundaries sp client turns) (\<lambda>bs.
                  if length bs \<le> 1 then Inr [session]
                  else mapE (\<lambda>(index, a, b, topic).
                    bindE (build_segment sp base (turn_slice turns a b) a b topic index (length bs)) (\<lambda>d. Inr (PDict d)))
                    (enumerate 1 bs)))
      | _ \<Rightarrow> Inr [session])"

end
