(* ===== verification/IngestHandlers.thy ===== *)
theory IngestHandlers imports IngestStore SessionSplit Registry begin

text \<open>
  The handlers of session ingestion as programs: session\_ingestion/handlers, stages.py and
  projections.py. A \<open>tenant_tx\<close> block is one transaction, as is every access to the object store; the
  model services (split, analyze, trace analyze) and the data source are asked. The session a stage
  works on is a mutable dict of the code: what a service makes of it comes back with its answer.
\<close>

section \<open>Programs of this component\<close>

datatype service =
    AskSplit pyval
  | AskAnalyze pyval
  | AskTrace pyval
  | AskItem string int pydict nat
  | AskAdapterTest string pydict

text \<open>An answer is the session as the service leaves it, and the result.\<close>

type_synonym 'a iprog = "(istore, service, pyval \<times> pyval, 'a) prog"

definition fetch :: "(istore \<Rightarrow> pyexc + 'a) \<Rightarrow> 'a iprog" where
  "fetch f = transact (\<lambda>s. bindE (f s) (\<lambda>v. Inr (v, s)))"

definition error_name :: "pyexc \<Rightarrow> string" where
  "error_name e = (case e of PyExc c msg \<Rightarrow> c)"

definition queue_task :: "string \<Rightarrow> enqueue_request \<Rightarrow> istore \<Rightarrow> pyexc + unit \<times> istore" where
  "queue_task tn e s =
     (case enqueue tn (is_now s) e (is_tasks s) of
        Inl er \<Rightarrow> Inl (db_exc er)
      | Inr (tid, t) \<Rightarrow> Inr ((), s\<lparr>is_tasks := t\<rparr>))"

definition stage_request :: "string \<Rightarrow> string \<Rightarrow> task_payload \<Rightarrow> string \<Rightarrow> string \<Rightarrow> string \<Rightarrow> enqueue_request" where
  "stage_request tn kind p ref hash trace =
     \<lparr>eq_tenant_id = tn, eq_task_id = tp_ingestion_id p @ '':'' @ kind, eq_kind = kind,
      eq_subject_type = ''ingestion'', eq_subject_id = tp_ingestion_id p, eq_schema_version = payload_schema,
      eq_dedupe_key = tp_ingestion_id p @ '':'' @ kind, eq_payload_ref = ref, eq_payload_hash = hash,
      eq_config_revision = tp_config_revision p, eq_adapter_revision = tp_adapter_revision p,
      eq_trace_id = trace, eq_available_in_seconds = 0\<rparr>"

text \<open>\<open>_enqueue_next\<close>: the task of the next stage, in a transaction of its own.\<close>

definition enqueue_next :: "string \<Rightarrow> claimed_task \<Rightarrow> string \<Rightarrow> task_payload \<Rightarrow> unit iprog" where
  "enqueue_next tn task kind p =
     transact (queue_task tn (stage_request tn kind p (ct_payload_ref task) (ct_payload_hash task) (ct_trace_id task)))"

definition load_payload :: "codec \<Rightarrow> claimed_task \<Rightarrow> task_payload iprog" where
  "load_payload co task =
     pbind (fetch (get_payload_json co (ct_payload_ref task))) (\<lambda>v.
       lift_result (case v of PStr raw \<Rightarrow> payload_from_json co raw | _ \<Rightarrow> Inl type_error))"

definition record_only ::
  "string \<Rightarrow> string \<Rightarrow> stage_status \<Rightarrow> string \<Rightarrow> pydict \<Rightarrow> string \<Rightarrow> unit iprog" where
  "record_only i stage st ref detail code = transact (record_stage i stage st ref detail code)"

definition record_and_set ::
  "string \<Rightarrow> string \<Rightarrow> stage_status \<Rightarrow> string \<Rightarrow> pydict \<Rightarrow> string \<Rightarrow> ingestion_status \<Rightarrow> unit iprog" where
  "record_and_set i stage st ref detail code ist =
     transact (\<lambda>s. bindE (record_stage i stage st ref detail code s) (\<lambda>(_, s1). Inr ((), snd (set_ingestion_status i ist s1))))"

text \<open>\<open>_record_failed\<close>: bookkeeping that never raises.\<close>

definition record_failed :: "claimed_task \<Rightarrow> string \<Rightarrow> pyexc \<Rightarrow> unit iprog" where
  "record_failed task stage e =
     ptry (record_only (ct_subject_id task) stage StFailed '''' [] (error_name e)) Ret (\<lambda>_. Ret ())"

definition retry_after :: "claimed_task \<Rightarrow> string \<Rightarrow> string \<Rightarrow> pyexc \<Rightarrow> handler_result iprog" where
  "retry_after task stage prefix e =
     pbind (record_failed task stage e) (\<lambda>_. Ret (result_retry (prefix @ '':'' @ error_name e) 0))"

section \<open>Stages\<close>

definition normalize_stage :: "pyval \<Rightarrow> pyexc + pyval" where
  "normalize_stage session =
     bindE (py_get session ''turns'') (\<lambda>turns.
       if is_list turns \<and> truthy turns then Inr session else Inl (PyExc ''ValueError'' ''Session requires turns''))"

text \<open>\<open>previous\<close>: the output of the succeeded row of a stage.\<close>

definition stage_ref :: "string \<Rightarrow> string \<Rightarrow> istore \<Rightarrow> pyexc + string" where
  "stage_ref i stage s =
     (case find (\<lambda>r. sg_ingestion_id r = i \<and> sg_stage r = stage \<and> sg_status r = StSucceeded) (is_stages s) of
        None \<Rightarrow> Inr '''' | Some r \<Rightarrow> Inr (sg_result_ref r))"

definition previous :: "codec \<Rightarrow> string \<Rightarrow> string \<Rightarrow> pyval iprog" where
  "previous co i stage =
     pbind (fetch (stage_ref i stage)) (\<lambda>ref.
       if ref = '''' then Throw (PyExc ''ValueError'' (''mandatory '' @ stage @ '' output is missing''))
       else fetch (get_session co ref))"

definition split_stage :: "codec \<Rightarrow> task_payload \<Rightarrow> pyval \<Rightarrow> pyval iprog" where
  "split_stage co p session =
     (if \<not> is_dict session then Throw attribute_error
      else pbind (previous co (tp_ingestion_id p) ''normalize'') (\<lambda>v.
        if is_dict v then pbind (ask (AskSplit v)) (\<lambda>r. Ret (snd r)) else Throw type_error))"

definition analyze_input :: "pyval \<Rightarrow> pyexc + pyval" where
  "analyze_input plan =
     (case dget_none (as_dict plan) ''segments'' of
        PList [PDict d] \<Rightarrow> Inr (PDict d)
      | _ \<Rightarrow> Inl (PyExc ''ValueError'' ''split stage must provide exactly one Session for analysis''))"

definition analyze_stage :: "codec \<Rightarrow> task_payload \<Rightarrow> pyval \<Rightarrow> (pyval \<times> pyval) iprog" where
  "analyze_stage co p session =
     pbind (previous co (tp_ingestion_id p) ''split'') (\<lambda>plan.
     pbind (lift_result (analyze_input plan)) (\<lambda>v.
       if is_dict session then ask (AskAnalyze v) else Throw attribute_error))"

definition trace_stage :: "pyval \<Rightarrow> pyval iprog" where
  "trace_stage session =
     pbind (ask (AskTrace session)) (\<lambda>(after, analysis).
       case after of PDict d \<Rightarrow> Ret (PDict (dput ''trace_analysis'' analysis d)) | _ \<Rightarrow> Throw type_error)"

record archived =
  ac_decision :: string
  ac_session :: pyval
  ac_judge :: pyval
  ac_audit :: pyval
  ac_meta :: pyval
  ac_business_time :: pyval

definition archive_of :: "pyval \<Rightarrow> pyexc + archived" where
  "archive_of session =
     bindE (item_of ''value_judge'' session) (\<lambda>judge.
     bindE (item_of ''decision'' judge) (\<lambda>decision.
     bindE (item_of ''_judge_scores'' session) (\<lambda>scores.
       let d = as_dict session in
       Inr \<lparr>ac_decision = (if decision = PStr ''valuable'' then ''valuable'' else ''skipped''),
         ac_session = session, ac_judge = scores, ac_audit = judge,
         ac_meta = dget_or d ''meta'' (PDict []),
         ac_business_time = py_or (dget_none d ''business_time'') (dget_none d ''timestamp'')\<rparr>)))"

definition archive_stage :: "codec \<Rightarrow> task_payload \<Rightarrow> archived iprog" where
  "archive_stage co p = pbind (previous co (tp_ingestion_id p) ''trace_analyze'') (\<lambda>v. lift_result (archive_of v))"

section \<open>The console projection\<close>

definition dict_or :: "pyval \<Rightarrow> pyexc + pydict" where
  "dict_or v = (case v of PDict d \<Rightarrow> Inr d | _ \<Rightarrow> if truthy v then Inl type_error else Inr [])"

fun distinct_names :: "pyval list \<Rightarrow> string list \<Rightarrow> string list" where
  "distinct_names [] seen = seen"
| "distinct_names (v # vs) seen =
     (let n = py_strip (py_str (py_or v (PStr ''''))) in distinct_names vs (if n \<noteq> '''' \<and> n \<notin> set seen then seen @ [n] else seen))"

definition session_list_meta :: "pydict \<Rightarrow> pyval \<Rightarrow> pyexc + pydict" where
  "session_list_meta session meta =
     bindE (dict_or (py_or meta (dget_none session ''meta''))) (\<lambda>result.
     bindE (py_iter (py_or (dget_none session ''turns'') (PList []))) (\<lambda>all_turns.
     bindE (py_iter (py_or (dget_none session ''used_skills'') (PList []))) (\<lambda>own.
     bindE (mapE (\<lambda>t. py_iter (py_or (dget_none (as_dict t) ''used_skills'') (PList []))) (filter is_dict all_turns)) (\<lambda>names.
       let turns = filter is_dict all_turns;
           runtime = as_dict (dget_none session ''runtime_context'');
           trace = (case filter (\<lambda>v. py_strip (py_str (py_or v (PStr ''''))) \<noteq> '''')
               [dget_none result ''trace_id'', dget_none session ''trace_id'', dget_none runtime ''trace_id'',
                dget_none result ''session_id'', dget_none runtime ''source_session_id'', dget_none session ''session_id'']
             of [] \<Rightarrow> '''' | v # _ \<Rightarrow> py_strip (py_str v));
           d = dput ''used_skills'' (PList (map PStr (distinct_names (own @ concat names) [])))
                 (dput ''num_turns'' (PInt (int (length turns))) result)
       in Inr (if trace \<noteq> '''' then dput ''trace_id'' (PStr trace) d else d)))))"

section \<open>session.normalize\<close>

definition handle_normalize :: "codec \<Rightarrow> string \<Rightarrow> claimed_task \<Rightarrow> handler_result iprog" where
  "handle_normalize co tn task =
     pbind (load_payload co task) (\<lambda>p.
     pbind (fetch (get_session co (ct_payload_ref task))) (\<lambda>session.
     case normalize_stage session of
       Inl e \<Rightarrow> retry_after task ''normalize'' ''normalize_failed'' e
     | Inr normalized \<Rightarrow>
         pbind (transact (put_session co (tp_ingestion_id p) ''normalize'' normalized)) (\<lambda>(ref, digest).
         pbind (record_and_set (tp_ingestion_id p) ''normalize'' StSucceeded ref [] '''' IgProcessing) (\<lambda>_.
         pbind (enqueue_next tn task ''session.split'' p) (\<lambda>_. Ret (result_succeed ref))))))"

section \<open>session.split\<close>

abbreviation plan_schema :: string where "plan_schema \<equiv> ''session-split-plan.v1''"

definition check_segment :: "pyval \<Rightarrow> pyexc + pydict" where
  "check_segment v =
     (case v of
        PDict d \<Rightarrow>
          if py_strip (py_str (py_or (dget_none d ''session_id'') (PStr ''''))) = ''''
          then Inl (PyExc ''ValueError'' ''semantic split Session requires session_id'')
          else (case dget_none d ''turns'' of
                  PList (t # ts) \<Rightarrow> Inr d
                | _ \<Rightarrow> Inl (PyExc ''ValueError'' ''semantic split Session requires turns''))
      | _ \<Rightarrow> Inl (PyExc ''ValueError'' ''semantic split returned a non-object Session''))"

definition validated_segments :: "pyval \<Rightarrow> pyexc + pydict list" where
  "validated_segments v =
     (case v of
        PList (x # xs) \<Rightarrow> mapE check_segment (x # xs)
      | _ \<Rightarrow> Inl (PyExc ''ValueError'' ''semantic split must return at least one Session''))"

definition plan_document :: "pydict list \<Rightarrow> pyval" where
  "plan_document segments =
     PDict [(''schema_version'', PStr plan_schema), (''segments'', PList (map PDict segments))]"

definition is_plan :: "pyval \<Rightarrow> bool" where
  "is_plan v \<longleftrightarrow> (case v of PDict d \<Rightarrow> dget_none d ''schema_version'' = PStr plan_schema | _ \<Rightarrow> False)"

definition create_plan :: "codec \<Rightarrow> claimed_task \<Rightarrow> task_payload \<Rightarrow> (pydict list \<times> string) iprog" where
  "create_plan co task p =
     pbind (fetch (get_session co (ct_payload_ref task))) (\<lambda>session.
     pbind (split_stage co p session) (\<lambda>v.
     pbind (lift_result (validated_segments v)) (\<lambda>segments.
     pbind (transact (put_session co (tp_ingestion_id p) ''split-plan'' (plan_document segments))) (\<lambda>(ref, digest).
     pbind (record_only (tp_ingestion_id p) ''split'' StPending ref
              [(''segments'', PInt (int (length segments)))] '''') (\<lambda>_.
       Ret (segments, ref))))))"

definition saved_plan :: "string \<Rightarrow> istore \<Rightarrow> pyexc + ingest_stage option" where
  "saved_plan i s = Inr (find (\<lambda>r. sg_stage r = ''split'' \<and> sg_result_ref r \<noteq> '''') (stage_results i s))"

definition load_or_create_plan :: "codec \<Rightarrow> claimed_task \<Rightarrow> task_payload \<Rightarrow> (pydict list \<times> string) iprog" where
  "load_or_create_plan co task p =
     pbind (fetch (saved_plan (tp_ingestion_id p))) (\<lambda>existing.
     case existing of
       None \<Rightarrow> create_plan co task p
     | Some r \<Rightarrow>
         pbind (fetch (get_session co (sg_result_ref r))) (\<lambda>document.
           if is_plan document
           then pbind (lift_result (validated_segments (dget_none (as_dict document) ''segments'')))
                  (\<lambda>segments. Ret (segments, sg_result_ref r))
           else create_plan co task p))"

section \<open>Child sessions\<close>

definition dashed :: "string \<Rightarrow> string" where
  "dashed s = py_replace_char (CHR '':'') (CHR ''-'') s"

definition payload_ref_of :: "string \<Rightarrow> string \<Rightarrow> string" where
  "payload_ref_of tn i = ''ingest/'' @ tn @ ''/'' @ i @ ''.json''"

definition child_request :: "task_payload \<Rightarrow> pyval \<Rightarrow> accept_request" where
  "child_request c time =
     \<lparr>ar_ingestion_id = tp_ingestion_id c, ar_source = tp_source c, ar_external_id = tp_external_id c,
      ar_user_id = tp_user_id c, ar_account_id = tp_account_id c, ar_dedupe_key = tp_ingestion_id c,
      ar_task_id = tp_ingestion_id c @ '':session.normalize'', ar_adapter_id = tp_adapter_id c,
      ar_adapter_revision = tp_adapter_revision c, ar_config_revision = tp_config_revision c,
      ar_payload_ref = tp_payload_ref c, ar_payload_hash = tp_payload_hash c, ar_business_time = time\<rparr>"

text \<open>\<open>_accept_and_enqueue_child\<close>: the payload first, then the ingestion and its task together.\<close>

definition accept_child :: "codec \<Rightarrow> string \<Rightarrow> task_payload \<Rightarrow> pydict \<Rightarrow> bool iprog" where
  "accept_child co tn c session =
     pbind (transact (put_payload_json co (tp_payload_ref c) (payload_to_json co c) (PDict session))) (\<lambda>_.
     transact (\<lambda>s.
       bindE (accept_ingestion co (child_request c (dget_none session ''business_time'')) s) (\<lambda>(accepted, s1).
         if accepted \<noteq> tp_ingestion_id c then Inr (False, s1)
         else bindE (queue_task tn (stage_request tn ''session.normalize'' c (tp_payload_ref c) (tp_payload_hash c) '''') s1)
                (\<lambda>(_, s2). Inr (True, s2)))))"

definition child_id :: "string \<Rightarrow> nat \<Rightarrow> string" where
  "child_id parent index = parent @ '':split:'' @ pad3 (int index)"

definition split_child :: "codec \<Rightarrow> string \<Rightarrow> task_payload \<Rightarrow> nat \<Rightarrow> pydict \<Rightarrow> task_payload" where
  "split_child co tn p index segment =
     (let i = child_id (tp_ingestion_id p) index
      in \<lparr>tp_schema_version = payload_schema, tp_source = tp_source p, tp_ingestion_id = i, tp_tenant_id = tn,
          tp_external_id = py_str (dget_none segment ''session_id''), tp_user_id = tp_user_id p,
          tp_account_id = tp_account_id p, tp_config_revision = tp_config_revision p,
          tp_adapter_id = tp_adapter_id p, tp_adapter_revision = tp_adapter_revision p,
          tp_payload_ref = payload_ref_of tn (dashed i), tp_payload_hash = session_payload_hash co (PDict segment),
          tp_pull = []\<rparr>)"

text \<open>The loop over the segments: the identifiers reached, and the exception that ended it if one did.\<close>

fun fan_out :: "codec \<Rightarrow> string \<Rightarrow> task_payload \<Rightarrow> (nat \<times> pydict) list \<Rightarrow> string list \<Rightarrow> (pyexc option \<times> string list) iprog" where
  "fan_out co tn p [] ids = Ret (None, ids)"
| "fan_out co tn p ((index, segment) # rest) ids =
     (let ids' = ids @ [child_id (tp_ingestion_id p) index]
      in ptry (accept_child co tn (split_child co tn p index segment) segment)
           (\<lambda>_. fan_out co tn p rest ids') (\<lambda>e. Ret (Some e, ids')))"

definition handle_split :: "codec \<Rightarrow> string \<Rightarrow> claimed_task \<Rightarrow> handler_result iprog" where
  "handle_split co tn task =
     pbind (load_payload co task) (\<lambda>p.
     ptry (load_or_create_plan co task p)
       (\<lambda>(segments, plan_ref).
          let i = tp_ingestion_id p; n = PInt (int (length segments)) in
          if length segments = 1
          then pbind (record_and_set i ''split'' StSucceeded plan_ref
                        [(''segments'', PInt 1), (''split'', PBool False)] '''' IgProcessing) (\<lambda>_.
               pbind (enqueue_next tn task ''session.analyze'' p) (\<lambda>_. Ret (result_succeed plan_ref)))
          else pbind (fan_out co tn p (enumerate 1 segments) []) (\<lambda>(failure, ids).
               case failure of
                 Some e \<Rightarrow>
                   pbind (record_only i ''split'' StPending plan_ref
                            [(''segments'', n), (''children'', PList (map PStr ids))] (error_name e)) (\<lambda>_.
                     Ret (result_retry (''split_fanout_failed:'' @ error_name e) 0))
               | None \<Rightarrow>
                   pbind (record_and_set i ''split'' StSucceeded plan_ref
                            [(''segments'', n), (''children'', PList (map PStr ids)), (''split'', PBool True)] '''' IgSkipped)
                     (\<lambda>_. Ret (result_succeed plan_ref))))
       (retry_after task ''split'' ''split_failed''))"

section \<open>session.analyze\<close>

definition handle_analyze :: "codec \<Rightarrow> string \<Rightarrow> claimed_task \<Rightarrow> handler_result iprog" where
  "handle_analyze co tn task =
     pbind (load_payload co task) (\<lambda>p. let i = tp_ingestion_id p in
     pbind (fetch (get_session co (ct_payload_ref task))) (\<lambda>session.
     ptry (analyze_stage co p session)
       (\<lambda>(analyzed, analysis).
          case py_get analysis ''decision'' of
            Inl e \<Rightarrow> Throw e
          | Inr _ \<Rightarrow>
              pbind (record_only i ''analyze'' StSucceeded ''''
                       [(''decision'', dget_or (as_dict analysis) ''decision'' (PStr ''''))] '''') (\<lambda>_.
              ptry (trace_stage analyzed)
                (\<lambda>traced.
                   pbind (transact (put_session co i ''analyze'' traced)) (\<lambda>(ref, digest).
                   pbind (record_only i ''trace_analyze'' StSucceeded ref [] '''') (\<lambda>_.
                   pbind (enqueue_next tn task ''session.archive'' p) (\<lambda>_. Ret (result_succeed ref)))))
                (retry_after task ''trace_analyze'' ''trace_analyze_failed'')))
       (retry_after task ''analyze'' ''analyze_failed'')))"

section \<open>session.archive\<close>

definition missing_stages :: "string \<Rightarrow> istore \<Rightarrow> string list" where
  "missing_stages i s =
     sort (filter (\<lambda>x. x \<noteq> ''archive'' \<and> x \<notin> set (succeeded_stages i s)) mandatory_stages)"

definition session_row_of :: "codec \<Rightarrow> task_payload \<Rightarrow> archived \<Rightarrow> string \<Rightarrow> string \<Rightarrow> pydict \<Rightarrow> rat option \<Rightarrow> session_row" where
  "session_row_of co p a ref digest meta time =
     \<lparr>ss_session_id = ''session_'' @ tp_ingestion_id p, ss_ingestion_id = tp_ingestion_id p, ss_source = tp_source p,
      ss_external_id = tp_external_id p, ss_user_id = tp_user_id p, ss_account_id = tp_account_id p,
      ss_decision = ac_decision a, ss_content_ref = ref, ss_content_hash = digest,
      ss_judge = py_or (ac_judge a) (PDict []), ss_filter_audit = py_or (ac_audit a) (PDict []),
      ss_consumption = PDict [], ss_meta = meta, ss_business_time = time, ss_ingested_at = 0\<rparr>"

definition archive_write :: "codec \<Rightarrow> task_payload \<Rightarrow> archived \<Rightarrow> pyval \<Rightarrow> string \<Rightarrow> string \<Rightarrow> istore \<Rightarrow> pyexc + unit \<times> istore" where
  "archive_write co p a content ref digest s =
     (let i = tp_ingestion_id p in
      bindE (session_list_meta (as_dict content) (ac_meta a)) (\<lambda>meta.
      bindE (business_time_of co (ac_business_time a)) (\<lambda>time.
      bindE (write_session (session_row_of co p a ref digest meta time) s) (\<lambda>(_, s1).
      bindE (record_stage i ''archive'' StSucceeded ref [(''decision'', PStr (ac_decision a))] '''' s1) (\<lambda>(_, s2).
        Inr ((), snd (set_ingestion_status i (if ac_decision a = ''skipped'' then IgSkipped else IgArchived) s2)))))))"

definition handle_archive :: "codec \<Rightarrow> string \<Rightarrow> claimed_task \<Rightarrow> handler_result iprog" where
  "handle_archive co tn task =
     pbind (load_payload co task) (\<lambda>p. let i = tp_ingestion_id p in
     pbind (fetch (get_session co (ct_payload_ref task))) (\<lambda>session.
     pbind (fetch (\<lambda>s. Inr (missing_stages i s))) (\<lambda>missing.
     if missing \<noteq> [] then
       pbind (record_and_set i ''archive'' StFailed '''' [(''missing'', PList (map PStr missing))]
                ''mandatory_stages_incomplete'' IgFailed) (\<lambda>_.
         Ret (result_fail (''mandatory_stages_incomplete:'' @ join_with '','' missing)))
     else
       ptry (archive_stage co p)
         (\<lambda>a. let content = py_or (ac_session a) session in
            pbind (transact (put_session co i ''archive'' content)) (\<lambda>(ref, digest).
            pbind (transact (archive_write co p a content ref digest)) (\<lambda>_. Ret (result_succeed ref))))
         (retry_after task ''archive'' ''archive_failed''))))"

end
