(* ===== verification/IngestApi.thy ===== *)
theory IngestApi imports IngestHandlers begin

text \<open>
  Acceptance of sessions and the pull handler: session\_ingestion/api, push/protocol.py,
  handlers.handle\_pull and the identity rule of teamEvolver/security/agent\_principal.py, and the
  system of all these programs running at once.
\<close>

section \<open>session.pull\<close>

record pull_counts =
  pc_fetched :: int
  pc_enqueued :: int
  pc_empty :: int
  pc_error :: int
  pc_duplicate :: int

definition counts_dict :: "pull_counts \<Rightarrow> pyval" where
  "counts_dict c =
     PDict [(''fetched'', PInt (pc_fetched c)), (''enqueued'', PInt (pc_enqueued c)), (''empty'', PInt (pc_empty c)),
            (''error'', PInt (pc_error c)), (''duplicate'', PInt (pc_duplicate c))]"

text \<open>\<open>dict(v)\<close> of a value.\<close>

definition dict_call :: "pyval \<Rightarrow> pyexc + pydict" where
  "dict_call v =
     (case v of PDict d \<Rightarrow> Inr d | _ \<Rightarrow> if v \<in> {PList [], PStr ''''} then Inr [] else Inl type_error)"

definition pull_filters :: "pydict \<Rightarrow> pyexc + pydict" where
  "pull_filters pull =
     bindE (dict_call (dget_or pull ''filters'' (PDict []))) (\<lambda>d.
       Inr (fold (\<lambda>k f. case dget pull k of None \<Rightarrow> f | Some v \<Rightarrow> dput k v f) [''from_timestamp'', ''to_timestamp''] d))"

definition pull_child :: "codec \<Rightarrow> string \<Rightarrow> task_payload \<Rightarrow> string \<Rightarrow> pydict \<Rightarrow> task_payload" where
  "pull_child co tn p external session =
     (let i = tp_ingestion_id p @ '':'' @ external
      in \<lparr>tp_schema_version = payload_schema, tp_source = tp_source p, tp_ingestion_id = i, tp_tenant_id = tn,
          tp_external_id = external, tp_user_id = text_field session ''user_id'', tp_account_id = tp_account_id p,
          tp_config_revision = tp_config_revision p, tp_adapter_id = tp_adapter_id p,
          tp_adapter_revision = tp_adapter_revision p, tp_payload_ref = payload_ref_of tn (dashed i),
          tp_payload_hash = session_payload_hash co (PDict session), tp_pull = []\<rparr>)"

definition pull_item :: "codec \<Rightarrow> string \<Rightarrow> task_payload \<Rightarrow> pyval \<Rightarrow> pull_counts \<Rightarrow> pull_counts iprog" where
  "pull_item co tn p item c0 =
     (let c = c0\<lparr>pc_fetched := pc_fetched c0 + 1\<rparr> in
      pbind (lift_result (py_get item ''status'')) (\<lambda>st.
      if st = PStr ''error'' then Ret (c\<lparr>pc_error := pc_error c + 1\<rparr>)
      else let session = dget_none (as_dict item) ''session'' in
        if \<not> truthy session then Ret (c\<lparr>pc_empty := pc_empty c + 1\<rparr>)
        else pbind (lift_result (item_of ''external_id'' item)) (\<lambda>external.
          case session of
            PDict d \<Rightarrow>
              let child = pull_child co tn p (py_str external) d in
              pbind (transact (put_session co (tp_ingestion_id child) ''raw'' session)) (\<lambda>_.
              pbind (accept_child co tn child d) (\<lambda>new.
                Ret (if new then c\<lparr>pc_enqueued := pc_enqueued c + 1\<rparr> else c\<lparr>pc_duplicate := pc_duplicate c + 1\<rparr>)))
          | _ \<Rightarrow> Throw attribute_error)))"

text \<open>
  The loop over the items of the data source, which may go on for ever: the fuel bounds the number
  of items, and a loop that needs more ends like an attempt whose process dies there.
\<close>

fun pull_items :: "codec \<Rightarrow> string \<Rightarrow> task_payload \<Rightarrow> pydict \<Rightarrow> nat \<Rightarrow> nat \<Rightarrow> pull_counts \<Rightarrow> pull_counts iprog" where
  "pull_items co tn p filters 0 k c = Throw (PyExc ''OutOfFuel'' '''')"
| "pull_items co tn p filters (Suc fuel) k c =
     pbind (ask (AskItem (tp_adapter_id p) (tp_adapter_revision p) filters k)) (\<lambda>(_, item).
       if item = PNone then Ret c
       else pbind (pull_item co tn p item c) (\<lambda>c'. pull_items co tn p filters fuel (Suc k) c'))"

definition pull_all :: "codec \<Rightarrow> string \<Rightarrow> task_payload \<Rightarrow> nat \<Rightarrow> pull_counts iprog" where
  "pull_all co tn p fuel =
     pbind (lift_result (pull_filters (tp_pull p))) (\<lambda>filters.
       pull_items co tn p filters fuel 0
         \<lparr>pc_fetched = 0, pc_enqueued = 0, pc_empty = 0, pc_error = 0, pc_duplicate = 0\<rparr>)"

definition handle_pull :: "codec \<Rightarrow> string \<Rightarrow> bool \<Rightarrow> nat \<Rightarrow> claimed_task \<Rightarrow> handler_result iprog" where
  "handle_pull co tn has_source fuel task =
     (if \<not> has_source then Ret (result_fail ''pull_adapter_source_missing'')
      else pbind (load_payload co task) (\<lambda>p.
        pbind (fetch (\<lambda>s. Inr (get_adapter_version (tp_adapter_id p) (tp_adapter_revision p) s))) (\<lambda>version.
        case version of
          None \<Rightarrow> Ret (result_fail ''pull_adapter_revision_not_found'')
        | Some v \<Rightarrow>
            if dget_or (tp_pull p) ''operation'' (PStr ''pull'') \<noteq> PStr ''pull''
            then pbind (ask (AskAdapterTest (av_source v) (tp_pull p))) (\<lambda>(_, result).
                 pbind (transact (put_session co (tp_ingestion_id p) ''adapter-test'' result)) (\<lambda>(ref, _).
                   Ret (result_succeed ref)))
            else ptry (pull_all co tn p fuel)
                   (\<lambda>counts. pbind (transact (put_session co (tp_ingestion_id p) ''pull-result'' (counts_dict counts)))
                     (\<lambda>(ref, _). Ret (result_succeed ref)))
                   (\<lambda>e. Ret (result_retry (''pull_failed:'' @ error_name e) 0)))))"

section \<open>Acceptance\<close>

definition status_text :: "ingestion_status \<Rightarrow> string" where
  "status_text st =
     (case st of IgAccepted \<Rightarrow> ''accepted'' | IgProcessing \<Rightarrow> ''processing'' | IgArchived \<Rightarrow> ''archived''
      | IgSkipped \<Rightarrow> ''skipped'' | IgDuplicate \<Rightarrow> ''duplicate'' | IgFailed \<Rightarrow> ''failed'')"

record submission =
  sb_ingestion_id :: string
  sb_source :: string
  sb_external_id :: string
  sb_user_id :: string
  sb_account_id :: string
  sb_session :: pyval
  sb_pull :: pydict
  sb_adapter_id :: string
  sb_adapter_revision :: int
  sb_business_time :: pyval
  sb_kind :: string

definition dedupe_key_of :: "codec \<Rightarrow> string \<Rightarrow> string \<Rightarrow> pydict \<Rightarrow> string" where
  "dedupe_key_of co source external pull =
     (if source = ''push'' then (if external \<noteq> '''' then ''push:'' @ external else '''')
      else ''pull:'' @ co_ascii co (PDict pull))"

definition submission_payload :: "codec \<Rightarrow> string \<Rightarrow> submission \<Rightarrow> int \<Rightarrow> task_payload" where
  "submission_payload co tn sb config =
     \<lparr>tp_schema_version = payload_schema, tp_source = sb_source sb, tp_ingestion_id = sb_ingestion_id sb,
      tp_tenant_id = tn, tp_external_id = sb_external_id sb, tp_user_id = sb_user_id sb,
      tp_account_id = sb_account_id sb, tp_config_revision = config, tp_adapter_id = sb_adapter_id sb,
      tp_adapter_revision = sb_adapter_revision sb, tp_payload_ref = payload_ref_of tn (sb_ingestion_id sb),
      tp_payload_hash = session_payload_hash co (sb_session sb), tp_pull = sb_pull sb\<rparr>"

definition submission_request :: "codec \<Rightarrow> submission \<Rightarrow> task_payload \<Rightarrow> accept_request" where
  "submission_request co sb p =
     \<lparr>ar_ingestion_id = sb_ingestion_id sb, ar_source = sb_source sb, ar_external_id = sb_external_id sb,
      ar_user_id = sb_user_id sb, ar_account_id = sb_account_id sb,
      ar_dedupe_key = dedupe_key_of co (sb_source sb) (sb_external_id sb) (sb_pull sb),
      ar_task_id = sb_ingestion_id sb @ '':'' @ sb_kind sb, ar_adapter_id = sb_adapter_id sb,
      ar_adapter_revision = sb_adapter_revision sb, ar_config_revision = tp_config_revision p,
      ar_payload_ref = tp_payload_ref p, ar_payload_hash = tp_payload_hash p,
      ar_business_time = sb_business_time sb\<rparr>"

text \<open>The last transaction of \<open>_accept\<close>: the ingestion with its task, or the ingestion of an earlier submission.\<close>

definition accept_write :: "codec \<Rightarrow> string \<Rightarrow> submission \<Rightarrow> task_payload \<Rightarrow> istore \<Rightarrow> pyexc + accepted_job \<times> istore" where
  "accept_write co tn sb p s =
     bindE (accept_ingestion co (submission_request co sb p) s) (\<lambda>(accepted, s1).
       if accepted \<noteq> sb_ingestion_id sb
       then Inr (case get_ingestion accepted s1 of
           None \<Rightarrow> \<lparr>aj_ingestion_id = accepted, aj_job_id = accepted @ '':'' @ sb_kind sb, aj_status = ''accepted'', aj_dedupe = True\<rparr>
         | Some g \<Rightarrow> \<lparr>aj_ingestion_id = accepted,
             aj_job_id = (if ig_task_id g \<noteq> '''' then ig_task_id g else accepted @ '':'' @ sb_kind sb),
             aj_status = status_text (ig_status g), aj_dedupe = True\<rparr>, s1)
       else bindE (queue_task tn (stage_request tn (sb_kind sb) p (tp_payload_ref p) (tp_payload_hash p) '''') s1) (\<lambda>(_, s2).
         Inr (\<lparr>aj_ingestion_id = sb_ingestion_id sb, aj_job_id = sb_ingestion_id sb @ '':'' @ sb_kind sb,
           aj_status = ''accepted'', aj_dedupe = False\<rparr>, s2)))"

definition accept_submission :: "codec \<Rightarrow> string \<Rightarrow> submission \<Rightarrow> accepted_job iprog" where
  "accept_submission co tn sb =
     pbind (fetch (\<lambda>s. Inr (is_config_revision s))) (\<lambda>config.
     let p = submission_payload co tn sb config in
     pbind (transact (put_payload_json co (tp_payload_ref p) (payload_to_json co p) (sb_session sb))) (\<lambda>_.
       transact (accept_write co tn sb p)))"

section \<open>The push protocol\<close>

text \<open>Unicode normalisation (NFKC) and \<open>str.isalnum\<close> of a character belong to the Unicode tables.\<close>

record unicode =
  un_nfkc :: "string \<Rightarrow> string"
  un_alnum :: "char \<Rightarrow> bool"

fun has_dots :: "string \<Rightarrow> bool" where
  "has_dots (a # b # cs) = (a = CHR ''.'' \<and> b = CHR ''.'' \<or> has_dots (b # cs))"
| "has_dots _ = False"

definition normalize_user_id :: "unicode \<Rightarrow> pyval \<Rightarrow> pyexc + string" where
  "normalize_user_id un v =
     (case v of
        PNone \<Rightarrow> Inl (PyExc ''ValueError'' ''USER_ID_REQUIRED'')
      | PStr x \<Rightarrow>
          (let u = py_strip (un_nfkc un x)
           in if x = '''' \<or> u = '''' then Inl (PyExc ''ValueError'' ''USER_ID_REQUIRED'')
              else if 160 < length u \<or> u \<in> {''.'', ''..''} \<or> has_dots u \<or>
                (\<exists>c\<in>set u. \<not> (un_alnum un c \<or> c \<in> set ''_-.@''))
              then Inl (PyExc ''ValueError'' ''USER_ID_INVALID'')
              else Inr u)
      | _ \<Rightarrow> Inl (PyExc ''ValueError'' ''USER_ID_INVALID''))"

abbreviation session_schema :: string where "session_schema \<equiv> ''teamevolver.agent-session.v2''"

definition envelope_error :: "string \<Rightarrow> pyexc" where
  "envelope_error msg = PyExc ''AgentProtocolError'' msg"

definition is_current_session_payload :: "pydict \<Rightarrow> bool" where
  "is_current_session_payload d \<longleftrightarrow>
     dget_none d ''schema_version'' = PStr session_schema \<or>
     take 2 (py_str (py_or (dget_none d ''protocol_version'') (PStr ''''))) = ''2.''"

definition check_usage :: "pydict \<Rightarrow> pyexc + unit" where
  "check_usage turn =
     (case dget_none turn ''context_usage'' of
        PNone \<Rightarrow> Inr ()
      | PDict usage \<Rightarrow>
          (case filter (\<lambda>k. case dget usage k of None \<Rightarrow> False | Some v \<Rightarrow> \<not> is_list v) [''memory_refs'', ''skill_refs''] of
             [] \<Rightarrow> Inr ()
           | k # _ \<Rightarrow> Inl (envelope_error (''context_usage.'' @ k @ '' must be a list'')))
      | _ \<Rightarrow> Inl (envelope_error ''context_usage must be an object''))"

definition drop_key :: "string \<Rightarrow> pydict \<Rightarrow> pydict" where
  "drop_key k d = filter (\<lambda>(k', v). k' \<noteq> k) d"

definition dict_field :: "pydict \<Rightarrow> string \<Rightarrow> pydict option" where
  "dict_field d k = (case py_or (dget_none d k) (PDict []) of PDict x \<Rightarrow> Some x | _ \<Rightarrow> None)"

definition normalize_session_envelope :: "unicode \<Rightarrow> pyval \<Rightarrow> pyexc + pydict" where
  "normalize_session_envelope un v =
     (case v of
        PDict d \<Rightarrow>
          if dget_none d ''schema_version'' \<noteq> PStr session_schema then Inl (envelope_error ''unsupported session schema'')
          else if dget_none d ''protocol_version'' \<noteq> PStr ''2.0'' then Inl (envelope_error ''PROTOCOL_VERSION_UNSUPPORTED'')
          else (case (dict_field d ''runtime'', dict_field d ''runtime_context'') of
            (Some runtime, Some context) \<Rightarrow>
              let runtime_type = py_lower (py_strip (py_str (py_or (dget_none runtime ''type'') (PStr '''')))) in
              if dget runtime ''integration_id'' \<noteq> None \<or> dget context ''external_subject'' \<noteq> None
              then Inl (envelope_error ''retired Agent identity fields are not accepted'')
              else if runtime_type = '''' then Inl (envelope_error ''V2 session runtime.type is required'')
              else if py_strip (py_str (py_or (dget_none d ''session_id'') (PStr ''''))) = ''''
              then Inl (envelope_error ''V2 session session_id is required'')
              else (case normalize_user_id un (dget_none context ''user_id'') of
                Inl e \<Rightarrow> Inl (case e of PyExc c msg \<Rightarrow> envelope_error msg)
              | Inr user \<Rightarrow>
                  let turns = as_list (dget_none d ''turns'') in
                  if turns = [] \<or> (\<exists>t\<in>set turns. \<not> is_dict t)
                  then Inl (envelope_error ''V2 session turns must be a non-empty list of objects'')
                  else bindE (mapE (check_usage \<circ> as_dict) turns) (\<lambda>_.
                    Inr (dmerge d [(''schema_version'', PStr session_schema), (''protocol_version'', PStr ''2.0''),
                      (''runtime'', PDict (drop_key ''integration_id'' (dput ''type'' (PStr runtime_type) runtime))),
                      (''runtime_context'', PDict (drop_key ''external_subject'' (dput ''user_id'' (PStr user) context)))])))
          | _ \<Rightarrow> Inl (envelope_error ''runtime and runtime_context must be objects''))
      | _ \<Rightarrow> Inl (envelope_error ''session payload must be an object''))"

text \<open>
  What the tenant middleware knows of the request: the authorization header, where the tenant came
  from, whether it is active, and the account of its configuration.
\<close>

record request_identity =
  ri_authorization :: string
  ri_by_token :: bool
  ri_tenant_active :: bool
  ri_tenant_id :: string
  ri_account :: string

record principal =
  pr_tenant_id :: string
  pr_account_id :: string
  pr_user_id :: string

definition http_exc :: "nat \<Rightarrow> string \<Rightarrow> pyexc" where
  "http_exc code msg = PyExc (''HTTP '' @ nat_str code) msg"

definition resolve_agent_principal :: "unicode \<Rightarrow> request_identity \<Rightarrow> pyval \<Rightarrow> pyexc + principal" where
  "resolve_agent_principal un ri user =
     (let auth = py_strip (ri_authorization ri);
          token = (if py_lower (take 7 auth) = ''bearer '' then py_strip (drop 7 auth) else auth)
      in if take 5 token \<noteq> ''tevt_'' \<or> \<not> ri_by_token ri \<or> \<not> ri_tenant_active ri
         then Inl (http_exc 401 ''TENANT_TOKEN_REQUIRED'')
         else (case normalize_user_id un user of
           Inl e \<Rightarrow> Inl (case e of PyExc c msg \<Rightarrow> http_exc 400 msg)
         | Inr u \<Rightarrow>
             if py_strip (ri_account ri) = '''' then Inl (http_exc 503 ''TENANT_ACCOUNT_REQUIRED'')
             else Inr \<lparr>pr_tenant_id = ri_tenant_id ri, pr_account_id = py_strip (ri_account ri), pr_user_id = u\<rparr>))"

text \<open>
  \<open>ingest_session\<close> up to the acceptance: the submission of a pushed body under a fresh identifier. The
  verifier of context usage, when there is one, is an argument.
\<close>

definition push_submission ::
  "codec \<Rightarrow> unicode \<Rightarrow> request_identity \<Rightarrow> (principal \<Rightarrow> pyval \<Rightarrow> pyexc + pyval) option \<Rightarrow> string \<Rightarrow> pyval \<Rightarrow> pyexc + submission" where
  "push_submission co un ri verifier fresh body0 =
     bindE (case normalize_session_envelope un body0 of Inl (PyExc c msg) \<Rightarrow> Inl (http_exc 400 msg) | Inr b \<Rightarrow> Inr b) (\<lambda>body.
     bindE (resolve_agent_principal un ri (dget_none (as_dict (dget_none body ''runtime_context'')) ''user_id'')) (\<lambda>pr.
     case dget_none body ''session_id'' of
       PStr external \<Rightarrow>
         if py_strip external = '''' then Inl (http_exc 400 ''session_id is required'')
         else (case tenant_user_session_id co (pr_tenant_id pr) (pr_user_id pr) (PStr external) of
           Inl (PyExc c msg) \<Rightarrow> Inl (http_exc 400 msg)
         | Inr _ \<Rightarrow>
             let session = dmerge body [(''tenant_id'', PStr (pr_tenant_id pr)), (''account_id'', PStr (pr_account_id pr)),
               (''meta'', PDict (dmerge (as_dict (dget_none body ''meta''))
                 [(''user_id'', PStr (pr_user_id pr)), (''session_id'', PStr external)]))]
             in bindE (case verifier of
                  None \<Rightarrow> Inr session
                | Some verify \<Rightarrow> (case verify pr (py_or (dget_none body ''turns'') (PList [])) of
                    Inl (PyExc c msg) \<Rightarrow> Inl (if c = ''ValueError'' then http_exc 400 msg else PyExc c msg)
                  | Inr turns \<Rightarrow> Inr (dput ''turns'' turns session))) (\<lambda>verified.
                Inr \<lparr>sb_ingestion_id = fresh, sb_source = ''push'', sb_external_id = external,
                  sb_user_id = pr_user_id pr, sb_account_id = pr_account_id pr, sb_session = PDict verified, sb_pull = [],
                  sb_adapter_id = '''', sb_adapter_revision = 0, sb_business_time = dget_none body ''business_time'',
                  sb_kind = ''session.normalize''\<rparr>))
     | _ \<Rightarrow> Inl (http_exc 400 ''session_id is required'')))"

definition ingest_session ::
  "codec \<Rightarrow> unicode \<Rightarrow> request_identity \<Rightarrow> (principal \<Rightarrow> pyval \<Rightarrow> pyexc + pyval) option \<Rightarrow> string \<Rightarrow> pyval \<Rightarrow> accepted_job iprog" where
  "ingest_session co un ri verifier fresh body =
     pbind (lift_result (push_submission co un ri verifier fresh body)) (\<lambda>sb. accept_submission co (ri_tenant_id ri) sb)"

text \<open>The pull endpoint; the body is an object and the caller an administrator of the tenant.\<close>

definition pull_endpoint :: "codec \<Rightarrow> string \<Rightarrow> string \<Rightarrow> string \<Rightarrow> pydict \<Rightarrow> accepted_job iprog" where
  "pull_endpoint co tn account fresh body =
     (if \<not> set (dkeys body) \<subseteq> {''adapter_id'', ''from_timestamp'', ''to_timestamp'', ''filters''}
      then Throw (http_exc 400 ''expected adapter_id, timestamps and filters'')
      else let key = py_str (py_or (dget_none body ''adapter_id'') (PStr ''datasource''));
               filters = concat (map (\<lambda>k. case dget body k of None \<Rightarrow> [] | Some v \<Rightarrow> [(k, v)])
                 [''from_timestamp'', ''to_timestamp'', ''filters'']) in
        pbind (fetch (\<lambda>s. Inr (adapter_binding_of key s))) (\<lambda>binding.
        case binding of
          None \<Rightarrow> Throw (http_exc 409 (''adapter '' @ repr_str key @ '' is not bound to a revision''))
        | Some b \<Rightarrow> accept_submission co tn
            \<lparr>sb_ingestion_id = fresh, sb_source = ''pull'', sb_external_id = '''', sb_user_id = '''', sb_account_id = account,
             sb_session = PDict [(''_pull'', PDict filters)], sb_pull = filters, sb_adapter_id = ab_adapter_id b,
             sb_adapter_revision = ab_revision b, sb_business_time = PNone, sb_kind = ''session.pull''\<rparr>))"

section \<open>The system\<close>

text \<open>
  Jobs are submissions of the two endpoints and attempts of the worker on a task of the queue. An attempt
  may start on any task of a kind of this component, any number of times and whatever the row's status:
  this covers every schedule of the worker, with attempts that overlap after a lost lease. The tasks
  other than these, the state of the rows, the clock and the configuration change from outside.
\<close>

datatype ingest_job =
    SubmitPush string string string string pyval pyval
  | SubmitPull string string pydict string int
  | Attempt string nat

datatype outcome = Accepted accepted_job | Handled handler_result

definition push_of :: "string \<Rightarrow> string \<Rightarrow> string \<Rightarrow> string \<Rightarrow> pyval \<Rightarrow> pyval \<Rightarrow> submission" where
  "push_of fresh external user account session time =
     \<lparr>sb_ingestion_id = fresh, sb_source = ''push'', sb_external_id = external, sb_user_id = user,
      sb_account_id = account, sb_session = session, sb_pull = [], sb_adapter_id = '''', sb_adapter_revision = 0,
      sb_business_time = time, sb_kind = ''session.normalize''\<rparr>"

definition pull_of :: "string \<Rightarrow> string \<Rightarrow> pydict \<Rightarrow> string \<Rightarrow> int \<Rightarrow> submission" where
  "pull_of fresh account filters adapter revision =
     \<lparr>sb_ingestion_id = fresh, sb_source = ''pull'', sb_external_id = '''', sb_user_id = '''', sb_account_id = account,
      sb_session = PDict [(''_pull'', PDict filters)], sb_pull = filters, sb_adapter_id = adapter,
      sb_adapter_revision = revision, sb_business_time = PNone, sb_kind = ''session.pull''\<rparr>"

definition handler_of :: "codec \<Rightarrow> string \<Rightarrow> nat \<Rightarrow> claimed_task \<Rightarrow> handler_result iprog option" where
  "handler_of co tn fuel task =
     (let k = ct_kind task in
      if k = ''session.pull'' then Some (handle_pull co tn True fuel task)
      else if k = ''session.normalize'' then Some (handle_normalize co tn task)
      else if k = ''session.split'' then Some (handle_split co tn task)
      else if k = ''session.analyze'' then Some (handle_analyze co tn task)
      else if k = ''session.archive'' then Some (handle_archive co tn task)
      else None)"

definition session_kinds :: "string list" where
  "session_kinds = [''session.pull'', ''session.normalize'', ''session.split'', ''session.analyze'', ''session.archive'']"

text \<open>Fresh identifiers are \<open>uuid4().hex\<close>: hexadecimal digits.\<close>

definition hex_id :: "string \<Rightarrow> bool" where
  "hex_id s \<longleftrightarrow> set s \<subseteq> set ''0123456789abcdef''"

definition ingest_launch :: "codec \<Rightarrow> string \<Rightarrow> ingest_job \<Rightarrow> istore \<Rightarrow> outcome iprog option" where
  "ingest_launch co tn j s =
     (case j of
        SubmitPush fresh external user account session time \<Rightarrow>
          if \<not> hex_id fresh then None
          else Some (pbind (accept_submission co tn (push_of fresh external user account session time)) (\<lambda>a. Ret (Accepted a)))
      | SubmitPull fresh account filters adapter revision \<Rightarrow>
          if \<not> hex_id fresh then None
          else Some (pbind (accept_submission co tn (pull_of fresh account filters adapter revision)) (\<lambda>a. Ret (Accepted a)))
      | Attempt tid fuel \<Rightarrow>
          (case find (\<lambda>r. wt_task_id r = tid \<and> wt_kind r \<in> set session_kinds) (is_tasks s) of
             None \<Rightarrow> None
           | Some r \<Rightarrow> map_option (\<lambda>p. pbind p (\<lambda>x. Ret (Handled x))) (handler_of co tn fuel (claimed_of ''worker'' r))))"

text \<open>What an attempt reads of its row, which no statement of the queue but the insert writes.\<close>

definition same_job :: "task \<Rightarrow> task \<Rightarrow> bool" where
  "same_job r r' \<longleftrightarrow>
     wt_tenant_id r' = wt_tenant_id r \<and> wt_task_id r' = wt_task_id r \<and> wt_kind r' = wt_kind r \<and>
     wt_subject_id r' = wt_subject_id r \<and> wt_payload_ref r' = wt_payload_ref r \<and>
     wt_payload_hash r' = wt_payload_hash r \<and> wt_trace_id r' = wt_trace_id r \<and> wt_dedupe_key r' = wt_dedupe_key r"

datatype outside_event =
    QueueState tasks
  | OtherTask enqueue_request
  | Clock rat
  | Configure int
  | SaveAdapter string string string
  | BindAdapter string string int

definition ingest_outside :: "codec \<Rightarrow> string \<Rightarrow> outside_event \<Rightarrow> istore \<Rightarrow> istore option" where
  "ingest_outside co tn v s =
     (case v of
        QueueState t \<Rightarrow> if list_all2 same_job (is_tasks s) t then Some (s\<lparr>is_tasks := t\<rparr>) else None
      | OtherTask e \<Rightarrow>
          if eq_kind e \<in> set session_kinds then None
          else (case enqueue tn (is_now s) e (is_tasks s) of Inl _ \<Rightarrow> None | Inr (_, t) \<Rightarrow> Some (s\<lparr>is_tasks := t\<rparr>))
      | Clock t \<Rightarrow> if is_now s \<le> t then Some (s\<lparr>is_now := t\<rparr>) else None
      | Configure n \<Rightarrow> Some (s\<lparr>is_config_revision := n\<rparr>)
      | SaveAdapter adapter source kind \<Rightarrow>
          (case save_source co adapter source kind [] s of Inl _ \<Rightarrow> None | Inr (_, s') \<Rightarrow> Some s')
      | BindAdapter key adapter revision \<Rightarrow>
          (case bind_adapter key adapter revision s of Inl _ \<Rightarrow> None | Inr (_, s') \<Rightarrow> Some s'))"

definition istore_empty :: istore where
  "istore_empty =
     \<lparr>is_ingestions = [], is_stages = [], is_sessions = [], is_objects = [], is_tasks = [], is_adapters = [],
      is_versions = [], is_bindings = [], is_config_revision = 0, is_now = 0\<rparr>"

definition ingest_run ::
  "codec \<Rightarrow> string \<Rightarrow> (ingest_job, outside_event, pyval \<times> pyval) event list \<Rightarrow>
   (istore, service, pyval \<times> pyval, outcome) pool option" where
  "ingest_run co tn evs = pool_run (ingest_launch co tn) (ingest_outside co tn) evs (pool_start istore_empty)"

end
