(* ===== verification/IngestInvariant.thy ===== *)
theory IngestInvariant imports IngestApi begin

text \<open>
  The invariant of session ingestion. Objects are written once; every result of a stage that has a
  reference is the outcome of the stages before it for the session accepted under the ingestion; and a
  formal session was written after all mandatory stages had succeeded. It is an invariant of
  histories, because it speaks of the answers of the services and of states that have been passed.
\<close>

section \<open>JSON documents\<close>

text \<open>What the parser gives back of a serialised value: its dicts in the order of their keys.\<close>

fun canonical :: "pyval \<Rightarrow> pyval" where
  "canonical (PList xs) = PList (map canonical xs)"
| "canonical (PDict d) = PDict (sort_key fst (map (\<lambda>(k, v). (k, canonical v)) d))"
| "canonical v = v"

definition codec_ok :: "codec \<Rightarrow> bool" where
  "codec_ok co \<longleftrightarrow> (\<forall>v. co_loads co (co_dumps co v) = Inr (canonical v) \<and> co_loads co (co_compact co v) = Inr (canonical v))"

lemma canonical_idem: "canonical (canonical v) = canonical v"
proof (induction v rule: canonical.induct)
  case (2 d)
  have "map (\<lambda>(k, v). (k, canonical v)) (sort_key fst (map (\<lambda>(k, v). (k, canonical v)) d)) =
      sort_key fst (map (\<lambda>(k, v). (k, canonical v)) d)"
    by (rule map_idI) (use 2 in fastforce)
  then show ?case by (simp add: sort_key_id_if_sorted)
qed auto

definition session_doc :: "codec \<Rightarrow> pyval \<Rightarrow> string" where
  "session_doc co session = co_dumps co (PDict [(''session'', session)])"

definition payload_doc :: "codec \<Rightarrow> task_payload \<Rightarrow> pyval \<Rightarrow> string" where
  "payload_doc co p session =
     co_dumps co (PDict [(''payload'', PStr (payload_to_json co p)), (''session'', session)])"

definition has_object :: "istore \<Rightarrow> string \<Rightarrow> string \<Rightarrow> bool" where
  "has_object s ref raw \<longleftrightarrow> map_of (is_objects s) ref = Some raw"

lemma payload_before_session: "sort_key fst [(''payload'', x), (''session'', y :: pyval)] = [(''payload'', x), (''session'', y)]"
proof -
  have "''payload'' \<le> (''session'' :: string)" by code_simp
  then show ?thesis by (intro sort_key_id_if_sorted) simp
qed

lemma get_session_of_doc:
  assumes "codec_ok co" and "has_object s ref (session_doc co v)"
  shows "get_session co ref s = Inr (canonical v)"
  using assms by (simp add: get_session_def read_document_def has_object_def session_doc_def codec_ok_def item_of_def)

lemma get_session_of_payload:
  assumes "codec_ok co" and "has_object s ref (payload_doc co p v)"
  shows "get_session co ref s = Inr (canonical v)"
  using assms
  by (simp add: get_session_def read_document_def has_object_def payload_doc_def codec_ok_def item_of_def payload_before_session
      del: sort_key_simps)

lemma get_payload_of_doc:
  assumes "codec_ok co" and "has_object s ref (payload_doc co p v)"
  shows "get_payload_json co ref s = Inr (PStr (payload_to_json co p))"
  using assms
  by (simp add: get_payload_json_def read_document_def has_object_def payload_doc_def codec_ok_def item_of_def
      payload_before_session del: sort_key_simps)

section \<open>Where results come from\<close>

type_synonym ingest_history = "(istore, service, pyval \<times> pyval) history"

text \<open>The session \<open>v\<close> was accepted under the ingestion \<open>i\<close>: it is in the payload of its row.\<close>

definition accepted :: "codec \<Rightarrow> istore \<Rightarrow> string \<Rightarrow> pyval \<Rightarrow> bool" where
  "accepted co s i v \<longleftrightarrow>
     (\<exists>g\<in>set (is_ingestions s). \<exists>p. ig_id g = i \<and> tp_ingestion_id p = i \<and> has_object s (ig_payload_ref g) (payload_doc co p v))"

text \<open>The split service answered these segments for the accepted session.\<close>

definition planned :: "codec \<Rightarrow> ingest_history \<Rightarrow> string \<Rightarrow> pydict list \<Rightarrow> bool" where
  "planned co h i segments \<longleftrightarrow>
     (\<exists>v w answer. accepted co (hist_now h) i v \<and>
        Asked (AskSplit (canonical v)) (Inr (w, answer)) \<in> set (hist_past h) \<and> validated_segments answer = Inr segments)"

text \<open>The analysis services answered for the only segment, and \<open>v\<close> is what they left.\<close>

definition traced :: "codec \<Rightarrow> ingest_history \<Rightarrow> string \<Rightarrow> pyval \<Rightarrow> bool" where
  "traced co h i v \<longleftrightarrow>
     (\<exists>segment w analysis d t. planned co h i [segment] \<and>
        Asked (AskAnalyze (canonical (PDict segment))) (Inr (w, analysis)) \<in> set (hist_past h) \<and>
        Asked (AskTrace w) (Inr (PDict d, t)) \<in> set (hist_past h) \<and> v = PDict (dput ''trace_analysis'' t d))"

definition result_ok :: "codec \<Rightarrow> ingest_history \<Rightarrow> string \<Rightarrow> string \<Rightarrow> string \<Rightarrow> bool" where
  "result_ok co h i stage ref \<longleftrightarrow>
     (stage = ''normalize'' \<longrightarrow> (\<exists>v. accepted co (hist_now h) i v \<and> has_object (hist_now h) ref (session_doc co (canonical v)))) \<and>
     (stage = ''split'' \<longrightarrow> (\<exists>segments. planned co h i segments \<and> has_object (hist_now h) ref (session_doc co (plan_document segments)))) \<and>
     (stage = ''trace_analyze'' \<longrightarrow> (\<exists>v. traced co h i v \<and> has_object (hist_now h) ref (session_doc co v)))"

definition stage_ok :: "codec \<Rightarrow> ingest_history \<Rightarrow> ingest_stage \<Rightarrow> bool" where
  "stage_ok co h r \<longleftrightarrow> sg_result_ref r = '''' \<or> result_ok co h (sg_ingestion_id r) (sg_stage r) (sg_result_ref r)"

definition session_ok :: "codec \<Rightarrow> ingest_history \<Rightarrow> session_row \<Rightarrow> bool" where
  "session_ok co h r \<longleftrightarrow>
     ss_session_id r = ''session_'' @ ss_ingestion_id r \<and>
     (\<exists>s. Saw s \<in> set (hist_past h) \<and> missing_stages (ss_ingestion_id r) s = []) \<and>
     (\<exists>v a. traced co h (ss_ingestion_id r) v \<and> archive_of (canonical v) = Inr a \<and> ss_decision r = ac_decision a \<and>
        has_object (hist_now h) (ss_content_ref r) (session_doc co (canonical v)))"

definition task_ok :: "codec \<Rightarrow> istore \<Rightarrow> task \<Rightarrow> bool" where
  "task_ok co s r \<longleftrightarrow>
     (wt_kind r \<in> set session_kinds \<longrightarrow>
        (\<exists>g\<in>set (is_ingestions s). \<exists>p v. ig_id g = tp_ingestion_id p \<and> ig_payload_ref g = wt_payload_ref r \<and>
           has_object s (wt_payload_ref r) (payload_doc co p v)))"

text \<open>What only grows: objects, and the ingestions with their payloads.\<close>

definition grows :: "istore \<Rightarrow> istore \<Rightarrow> bool" where
  "grows s s' \<longleftrightarrow>
     (\<forall>ref raw. has_object s ref raw \<longrightarrow> has_object s' ref raw) \<and>
     (\<forall>g\<in>set (is_ingestions s). \<exists>g'\<in>set (is_ingestions s'). ig_id g' = ig_id g \<and> ig_payload_ref g' = ig_payload_ref g)"

text \<open>Every payload lies where its ingestion's identifier says.\<close>

definition refs_ok :: "string \<Rightarrow> istore \<Rightarrow> bool" where
  "refs_ok tn s \<longleftrightarrow> (\<forall>g\<in>set (is_ingestions s). ig_payload_ref g = payload_ref_of tn (dashed (ig_id g)))"

definition ingest_inv :: "codec \<Rightarrow> string \<Rightarrow> ingest_history \<Rightarrow> bool" where
  "ingest_inv co tn h \<longleftrightarrow>
     refs_ok tn (hist_now h) \<and>
     Saw (hist_now h) \<in> set (hist_past h) \<and>
     (\<forall>s. Saw s \<in> set (hist_past h) \<longrightarrow> grows s (hist_now h)) \<and>
     (\<forall>r\<in>set (is_stages (hist_now h)). stage_ok co h r) \<and>
     (\<forall>r\<in>set (is_sessions (hist_now h)). session_ok co h r) \<and>
     (\<forall>r\<in>set (is_tasks (hist_now h)). task_ok co (hist_now h) r)"

section \<open>Monotonicity\<close>

definition hle :: "ingest_history \<Rightarrow> ingest_history \<Rightarrow> bool" where
  "hle h h' \<longleftrightarrow> grows (hist_now h) (hist_now h') \<and> set (hist_past h) \<subseteq> set (hist_past h')"

lemma grows_refl [simp]: "grows s s"
  by (auto simp: grows_def)

lemma grows_trans: "grows s t \<Longrightarrow> grows t u \<Longrightarrow> grows s u"
  unfolding grows_def by (metis (no_types, lifting))

lemma accepted_mono: "accepted co s i v \<Longrightarrow> grows s s' \<Longrightarrow> accepted co s' i v"
  unfolding accepted_def grows_def by (metis (no_types, lifting))

lemma object_mono: "has_object s ref raw \<Longrightarrow> grows s s' \<Longrightarrow> has_object s' ref raw"
  by (simp add: grows_def)

lemma planned_mono: "planned co h i segs \<Longrightarrow> hle h h' \<Longrightarrow> planned co h' i segs"
  unfolding planned_def hle_def using accepted_mono by blast

lemma traced_mono: "traced co h i v \<Longrightarrow> hle h h' \<Longrightarrow> traced co h' i v"
proof -
  assume t: "traced co h i v" and le: "hle h h'"
  from t obtain segment w analysis d t where f: "planned co h i [segment]"
      "Asked (AskAnalyze (canonical (PDict segment))) (Inr (w, analysis)) \<in> set (hist_past h)"
      "Asked (AskTrace w) (Inr (PDict d, t)) \<in> set (hist_past h)" "v = PDict (dput ''trace_analysis'' t d)"
    unfolding traced_def by (elim exE conjE) (rule that)
  have "set (hist_past h) \<subseteq> set (hist_past h')" using le by (simp add: hle_def)
  with f(2,3) have "Asked (AskAnalyze (canonical (PDict segment))) (Inr (w, analysis)) \<in> set (hist_past h')"
      "Asked (AskTrace w) (Inr (PDict d, t)) \<in> set (hist_past h')" by blast+
  with planned_mono [OF f(1) le] f(4) show ?thesis unfolding traced_def by (intro exI conjI)
qed

lemma hle_objects: "hle h h' \<Longrightarrow> has_object (hist_now h) ref raw \<Longrightarrow> has_object (hist_now h') ref raw"
  by (auto simp: hle_def intro: object_mono)

lemma hle_accepted: "hle h h' \<Longrightarrow> accepted co (hist_now h) i v \<Longrightarrow> accepted co (hist_now h') i v"
  by (auto simp: hle_def intro: accepted_mono)

lemma result_mono: "result_ok co h i stage ref \<Longrightarrow> hle h h' \<Longrightarrow> result_ok co h' i stage ref"
  unfolding result_ok_def
  by (elim conjE, intro conjI) (blast intro: hle_objects hle_accepted planned_mono traced_mono)+

lemma stage_mono: "stage_ok co h r \<Longrightarrow> hle h h' \<Longrightarrow> stage_ok co h' r"
  unfolding stage_ok_def using result_mono by blast

lemma session_mono: "session_ok co h r \<Longrightarrow> hle h h' \<Longrightarrow> session_ok co h' r"
  unfolding session_ok_def
  by (elim conjE, intro conjI) (auto simp: hle_def intro: hle_objects [unfolded hle_def] traced_mono [unfolded hle_def])

lemma task_mono: "task_ok co s r \<Longrightarrow> grows s s' \<Longrightarrow> task_ok co s' r"
  unfolding task_ok_def grows_def by (metis (no_types, lifting))

lemma hle_see: "grows (hist_now h) s \<Longrightarrow> hle h (see s h)"
  by (auto simp: hle_def see_def)

lemma hle_hear: "hle h (hear q r h)"
  by (auto simp: hle_def hear_def)

lemma hle_following: "ingest_inv co tn h \<Longrightarrow> following (ingest_inv co tn) h h' \<Longrightarrow> hle h h' \<and> ingest_inv co tn h'"
  by (auto simp: following_def later_def hle_def ingest_inv_def)

lemma inv_hear: "ingest_inv co tn h \<Longrightarrow> ingest_inv co tn (hear q r h)"
  using hle_hear [of h q r] unfolding ingest_inv_def
  by (auto simp: hear_def intro: stage_mono [unfolded hear_def] session_mono [unfolded hear_def])

text \<open>The rule for a new store: it grows, and its new rows are accounted for.\<close>

lemma inv_see:
  assumes "ingest_inv co tn h" and "grows (hist_now h) s" and "refs_ok tn s"
    and "\<And>r. r \<in> set (is_stages s) \<Longrightarrow> r \<in> set (is_stages (hist_now h)) \<or> stage_ok co (see s h) r"
    and "\<And>r. r \<in> set (is_sessions s) \<Longrightarrow> r \<in> set (is_sessions (hist_now h)) \<or> session_ok co (see s h) r"
    and "\<And>r. r \<in> set (is_tasks s) \<Longrightarrow> r \<in> set (is_tasks (hist_now h)) \<or> task_ok co s r"
  shows "ingest_inv co tn (see s h)"
proof -
  have le: "hle h (see s h)" using assms(2) by (rule hle_see)
  have "grows t s" if "Saw t \<in> set (hist_past h)" for t
    using assms(1,2) that grows_trans unfolding ingest_inv_def by blast
  then have seen: "\<forall>t. Saw t \<in> set (hist_past (see s h)) \<longrightarrow> grows t (hist_now (see s h))" by (auto simp: see_def)
  have "stage_ok co (see s h) r" if "r \<in> set (is_stages s)" for r
    using assms(4) [OF that] stage_mono [OF _ le] assms(1) unfolding ingest_inv_def by blast
  moreover have "session_ok co (see s h) r" if "r \<in> set (is_sessions s)" for r
    using assms(5) [OF that] session_mono [OF _ le] assms(1) unfolding ingest_inv_def by blast
  moreover have "task_ok co s r" if "r \<in> set (is_tasks s)" for r
    using assms(6) [OF that] task_mono [OF _ assms(2)] assms(1) unfolding ingest_inv_def by blast
  ultimately show ?thesis using seen assms(3) by (simp add: ingest_inv_def) (simp add: see_def)
qed

lemma inv_see_same: "ingest_inv co tn h \<Longrightarrow> ingest_inv co tn (see (hist_now h) h)"
  by (rule inv_see) (auto simp: ingest_inv_def)

section \<open>Statements\<close>

lemma grows_same:
  assumes "is_objects s' = is_objects s" and "is_ingestions s' = is_ingestions s"
  shows "grows s s'"
  using assms by (auto simp: grows_def has_object_def)

lemma put_once_Inr:
  assumes "put_once ref raw s = Inr (u, s')"
  shows "grows s s'" and "has_object s' ref raw" and "is_ingestions s' = is_ingestions s" and "is_stages s' = is_stages s"
    and "is_sessions s' = is_sessions s" and "is_tasks s' = is_tasks s"
  using assms
  by (auto simp: put_once_def grows_def has_object_def map_add_def split: option.splits if_splits)

lemma put_session_Inr:
  assumes "put_session co i stage v s = Inr ((ref, digest), s')"
  shows "grows s s'" and "has_object s' ref (session_doc co v)" and "is_ingestions s' = is_ingestions s"
    and "is_stages s' = is_stages s" and "is_sessions s' = is_sessions s" and "is_tasks s' = is_tasks s" and "ref \<noteq> ''''"
  using assms unfolding put_session_def put_document_def session_doc_def
  by (auto simp: Let_def bindE_Inr_iff session_ref_def dest: put_once_Inr)

lemma set_status_simps [simp]:
  "is_objects (snd (set_ingestion_status i st s)) = is_objects s"
  "is_stages (snd (set_ingestion_status i st s)) = is_stages s"
  "is_sessions (snd (set_ingestion_status i st s)) = is_sessions s"
  "is_tasks (snd (set_ingestion_status i st s)) = is_tasks s"
  by (simp_all add: set_ingestion_status_def)

lemma set_status_grows: "grows s (snd (set_ingestion_status i st s))"
proof -
  have "\<exists>g'\<in>set (is_ingestions (snd (set_ingestion_status i st s))). ig_id g' = ig_id g \<and> ig_payload_ref g' = ig_payload_ref g"
    if "g \<in> set (is_ingestions s)" for g
    using imageI [OF that, of "\<lambda>g. if ig_id g = i then g\<lparr>ig_status := st, ig_updated_at := is_now s\<rparr> else g"]
    by (intro bexI [of _ "if ig_id g = i then g\<lparr>ig_status := st, ig_updated_at := is_now s\<rparr> else g"])
      (simp_all add: set_ingestion_status_def upd_where_def)
  then show ?thesis by (simp add: grows_def has_object_def)
qed

lemma set_status_refs: "refs_ok tn s \<Longrightarrow> refs_ok tn (snd (set_ingestion_status i st s))"
  by (auto simp: refs_ok_def set_ingestion_status_def upd_where_def)

lemma record_stage_Inr:
  assumes "record_stage i stage st ref detail code s = Inr (u, s')"
  shows "is_objects s' = is_objects s" and "is_ingestions s' = is_ingestions s" and "is_sessions s' = is_sessions s"
    and "is_tasks s' = is_tasks s"
    and "r \<in> set (is_stages s') \<Longrightarrow>
      r \<in> set (is_stages s) \<or> sg_ingestion_id r = i \<and> sg_stage r = stage \<and> sg_status r = st \<and> sg_result_ref r = ref"
  using assms by (auto simp: record_stage_def Let_def set_upd_where split: if_splits)

lemma write_session_Inr:
  assumes "write_session x s = Inr (u, s')"
  shows "is_objects s' = is_objects s" and "is_ingestions s' = is_ingestions s" and "is_stages s' = is_stages s"
    and "is_tasks s' = is_tasks s"
    and "r \<in> set (is_sessions s') \<Longrightarrow>
      r \<in> set (is_sessions s) \<or> ss_session_id r = ss_session_id x \<and> ss_ingestion_id r = ss_ingestion_id x \<and>
        ss_decision r = ss_decision x \<and> ss_content_ref r = ss_content_ref x"
  using assms by (auto simp: write_session_def Let_def set_upd_where split: if_splits)

lemma queue_task_Inr:
  assumes "queue_task tn e s = Inr (u, s')"
  shows "is_objects s' = is_objects s" and "is_ingestions s' = is_ingestions s" and "is_stages s' = is_stages s"
    and "is_sessions s' = is_sessions s"
    and "r \<in> set (is_tasks s') \<Longrightarrow> r \<in> set (is_tasks s) \<or> wt_kind r = eq_kind e \<and> wt_payload_ref r = eq_payload_ref e"
  using assms
  by (auto simp: queue_task_def enqueue_def tasks_insert_def new_task_row_def bindE_Inr_iff split: sum.splits option.splits if_splits)

lemma accept_ingestion_Inr:
  assumes "accept_ingestion co a s = Inr (i, s')" and "refs_ok tn s"
    and "ar_payload_ref a = payload_ref_of tn (dashed (ar_ingestion_id a))"
  shows "grows s s'" and "refs_ok tn s'" and "is_objects s' = is_objects s" and "is_stages s' = is_stages s"
    and "is_sessions s' = is_sessions s" and "is_tasks s' = is_tasks s"
    and "i = ar_ingestion_id a \<Longrightarrow> \<exists>g\<in>set (is_ingestions s'). ig_id g = i \<and> ig_payload_ref g = ar_payload_ref a"
proof -
  consider g where "find (\<lambda>g. ig_dedupe_key g = ar_dedupe_key a) (is_ingestions s) = Some g" "i = ig_id g" "s' = s"
    | time where "i = ar_ingestion_id a" "s' = s\<lparr>is_ingestions := is_ingestions s @ [ingestion_of (is_now s) time a]\<rparr>"
  proof (cases "if ar_dedupe_key a \<noteq> '''' then find (\<lambda>g. ig_dedupe_key g = ar_dedupe_key a) (is_ingestions s) else None")
    case None
    with assms(1) obtain time where
      "insert_ingestion (ingestion_of (is_now s) time a) s = Inr s'" "i = ar_ingestion_id a"
      unfolding accept_ingestion_def None by (auto simp: bindE_Inr_iff)
    then show ?thesis by (intro that(2) [of time]) (auto simp: insert_ingestion_def split: if_splits)
  next
    case (Some g)
    with assms(1) have "i = ig_id g" "s' = s" unfolding accept_ingestion_def Some by auto
    with Some show ?thesis using that(1) by (simp split: if_splits)
  qed
  then have "grows s s' \<and> refs_ok tn s' \<and> is_objects s' = is_objects s \<and> is_stages s' = is_stages s \<and>
      is_sessions s' = is_sessions s \<and> is_tasks s' = is_tasks s \<and>
      (i = ar_ingestion_id a \<longrightarrow> (\<exists>g\<in>set (is_ingestions s'). ig_id g = i \<and> ig_payload_ref g = ar_payload_ref a))"
  proof cases
    case 1
    then have "g \<in> set (is_ingestions s)" using find_Some_mem by fastforce
    then have "ig_payload_ref g = payload_ref_of tn (dashed (ig_id g))" using assms(2) by (simp add: refs_ok_def)
    with 1 \<open>g \<in> _\<close> show ?thesis using assms(2,3) by auto
  next
    case 2
    then show ?thesis using assms(2,3) by (auto simp: grows_def has_object_def refs_ok_def ingestion_of_def)
  qed
  then show "grows s s'" "refs_ok tn s'" "is_objects s' = is_objects s" "is_stages s' = is_stages s"
    "is_sessions s' = is_sessions s" "is_tasks s' = is_tasks s"
    "i = ar_ingestion_id a \<Longrightarrow> \<exists>g\<in>set (is_ingestions s'). ig_id g = i \<and> ig_payload_ref g = ar_payload_ref a" by blast+
qed

section \<open>Payloads\<close>

lemma dget_map_values: "dget (map (\<lambda>(k, v). (k, f v)) d) k = map_option f (dget d k)"
  by (induction d) auto

lemma dget_sort: "dict_ok d \<Longrightarrow> dget (sort_key fst d) k = dget d k"
proof -
  assume "dict_ok d"
  then have "distinct (map fst d)" by (simp add: dict_ok_def)
  moreover from this have "distinct (map fst (sort_key fst d))" by (simp add: distinct_map)
  ultimately have "map_of (sort_key fst d) = map_of d" by (subst map_of_inject_set) simp_all
  then show ?thesis by (simp add: dget_map_of)
qed

lemma payload_dict_ok: "dict_ok (payload_dict p)"
  unfolding dict_ok_def payload_dict_def by simp

text \<open>Reading back a payload gives it, with the filters of a pull in the order of their keys.\<close>

definition canonical_dict :: "pydict \<Rightarrow> pydict" where
  "canonical_dict d = sort_key fst (map (\<lambda>(k, v). (k, canonical v)) d)"

lemma dget_canonical: "dict_ok d \<Longrightarrow> dget (canonical_dict d) k = map_option canonical (dget d k)"
  unfolding canonical_dict_def by (subst dget_sort) (simp_all add: dict_ok_def dget_map_values comp_def case_prod_beta)

lemma canonical_dict_Nil: "canonical_dict d = [] \<longleftrightarrow> d = []"
  by (metis (no_types) canonical_dict_def length_0_conv length_map length_sort)

lemma payload_round_trip:
  assumes "codec_ok co"
  shows "payload_from_json co (payload_to_json co p) = Inr (p\<lparr>tp_pull := canonical_dict (tp_pull p)\<rparr>)"
proof -
  let ?d = "canonical_dict (payload_dict p)"
  have load: "co_loads co (payload_to_json co p) = Inr (PDict ?d)"
    using assms by (simp add: codec_ok_def payload_to_json_def canonical_dict_def)
  have get: "dget_none ?d k = (case dget (payload_dict p) k of None \<Rightarrow> PNone | Some v \<Rightarrow> canonical v)" for k
    by (simp add: dget_or_def dget_canonical payload_dict_ok split: option.splits)
  have str: "py_str (py_or (PStr x) (PStr '''')) = x" for x by (cases "x = ''''") simp_all
  have num: "py_int (py_or (PInt n) (PInt 0)) = Inr n" for n by (cases "n = 0") (simp_all add: py_int_def)
  have dic: "(case py_or (PDict x) (PDict []) of PDict y \<Rightarrow> Inr y | _ \<Rightarrow> Inl type_error) = Inr x" for x
    by (cases "x = []") simp_all
  have can: "canonical (PDict x) = PDict (canonical_dict x)" for x by (simp add: canonical_dict_def)
  have "text_field ?d k = x" if "dget (payload_dict p) k = Some (PStr x)" for k x
    using that by (simp add: text_field_def get str)
  moreover have "int_field_of ?d k = Inr n" if "dget (payload_dict p) k = Some (PInt n)" for k n
    using that by (simp add: int_field_of_def get num)
  moreover have "dict_field_of ?d ''pull'' = Inr (canonical_dict (tp_pull p))"
    unfolding dict_field_of_def get by (simp add: payload_dict_def can dic del: canonical.simps)
  ultimately show ?thesis
    by (simp add: payload_from_json_def load payload_of_dict_def payload_dict_def)
qed

section \<open>What an attempt starts from\<close>

definition job :: "codec \<Rightarrow> istore \<Rightarrow> claimed_task \<Rightarrow> string \<Rightarrow> pyval \<Rightarrow> bool" where
  "job co s task i v \<longleftrightarrow>
     (\<exists>g\<in>set (is_ingestions s). \<exists>p. ig_id g = i \<and> tp_ingestion_id p = i \<and> ig_payload_ref g = ct_payload_ref task \<and>
        has_object s (ct_payload_ref task) (payload_doc co p v))"

lemma job_mono: "job co s task i v \<Longrightarrow> grows s s' \<Longrightarrow> job co s' task i v"
  unfolding job_def grows_def by (metis (no_types, lifting))

lemma job_accepted: "job co s task i v \<Longrightarrow> accepted co s i v"
  unfolding job_def accepted_def by metis

lemma job_reads:
  assumes "codec_ok co" and "job co s task i v"
  shows "get_session co (ct_payload_ref task) s = Inr (canonical v)"
    and "\<exists>raw p. get_payload_json co (ct_payload_ref task) s = Inr (PStr raw) \<and>
      payload_from_json co raw = Inr p \<and> tp_ingestion_id p = i"
  using assms get_session_of_payload [OF assms(1)] get_payload_of_doc [OF assms(1)] payload_round_trip [OF assms(1)]
  unfolding job_def by (metis, fastforce)

end
