(* ===== verification/IngestSafety.thy ===== *)
theory IngestSafety imports IngestInvariant begin

text \<open>
  Every program of session ingestion keeps the invariant, in every interleaving: one lemma per building
  block, then one per handler and endpoint, and the interpretation of the rule for pools.
\<close>

section \<open>Building blocks\<close>

definition working :: "codec \<Rightarrow> string \<Rightarrow> claimed_task \<Rightarrow> string \<Rightarrow> pyval \<Rightarrow> ingest_history \<Rightarrow> bool" where
  "working co tn task i v h \<longleftrightarrow> codec_ok co \<and> ingest_inv co tn h \<and> job co (hist_now h) task i v"

lemma working_following:
  "working co tn task i v h \<Longrightarrow> following (ingest_inv co tn) h h' \<Longrightarrow> working co tn task i v h'"
  using hle_following [of co tn h h'] job_mono unfolding working_def hle_def by blast

lemma working_later: "working co tn task i v h \<Longrightarrow> later (ingest_inv co tn) h h' \<Longrightarrow> working co tn task i v h'"
  using working_following [of co tn task i v h h'] by (simp add: following_def)

lemma later_hle: "ingest_inv co tn h \<Longrightarrow> later (ingest_inv co tn) h h' \<Longrightarrow> hle h h' \<and> ingest_inv co tn h'"
  using hle_following [of co tn h h'] by (simp add: following_def)

lemma fetch_keeps:
  assumes "\<And>h' x. later (ingest_inv co tn) h h' \<Longrightarrow> f (hist_now h') = Inr x \<Longrightarrow> Q x (see (hist_now h') h')"
  shows "keeps (ingest_inv co tn) (fetch f) Q h"
  unfolding fetch_def
  by (rule keeps_transact) (use assms in \<open>auto simp: bindE_Inr_iff later_def intro: inv_see_same\<close>)

lemma transact_keeps:
  assumes "\<And>h' x s. later (ingest_inv co tn) h h' \<Longrightarrow> body (hist_now h') = Inr (x, s) \<Longrightarrow>
      ingest_inv co tn (see s h') \<and> Q x (see s h')"
  shows "keeps (ingest_inv co tn) (transact body) Q h"
  by (rule keeps_transact) (use assms inv_see_same in auto)

lemma ask_keeps:
  assumes "\<And>h' x. later (ingest_inv co tn) h h' \<Longrightarrow> Q x (hear q (Inr x) h')"
  shows "keeps (ingest_inv co tn) (ask q) Q h"
  by (rule keeps_ask) (use assms inv_hear in auto)

lemma load_keeps:
  assumes "working co tn task i v h"
  shows "keeps (ingest_inv co tn) (load_payload co task) (\<lambda>p _. tp_ingestion_id p = i) h"
  unfolding load_payload_def
proof (rule keeps_seq [where P = "\<lambda>x _. \<exists>raw p. x = PStr raw \<and> payload_from_json co raw = Inr p \<and> tp_ingestion_id p = i"])
  show "keeps (ingest_inv co tn) (fetch (get_payload_json co (ct_payload_ref task)))
    (\<lambda>x _. \<exists>raw p. x = PStr raw \<and> payload_from_json co raw = Inr p \<and> tp_ingestion_id p = i) h"
  proof (rule fetch_keeps)
    fix h' x
    assume "later (ingest_inv co tn) h h'" and x: "get_payload_json co (ct_payload_ref task) (hist_now h') = Inr x"
    with assms have "working co tn task i v h'" by (auto dest: working_later)
    then have "codec_ok co" "job co (hist_now h') task i v" by (simp_all add: working_def)
    from job_reads(2) [OF this] x show "\<exists>raw p. x = PStr raw \<and> payload_from_json co raw = Inr p \<and> tp_ingestion_id p = i" by auto
  qed
qed (auto intro: keeps_lifted)

lemma session_keeps:
  assumes "working co tn task i v h"
  shows "keeps (ingest_inv co tn) (fetch (get_session co (ct_payload_ref task))) (\<lambda>x _. x = canonical v) h"
proof (rule fetch_keeps)
  fix h' x
  assume "later (ingest_inv co tn) h h'" and x: "get_session co (ct_payload_ref task) (hist_now h') = Inr x"
  with assms have "working co tn task i v h'" by (auto dest: working_later)
  then have "codec_ok co" "job co (hist_now h') task i v" by (simp_all add: working_def)
  from job_reads(1) [OF this] x show "x = canonical v" by simp
qed

lemma stage_row_see:
  assumes "ingest_inv co tn h" and "record_stage i stage st ref detail code (hist_now h) = Inr (u, s)"
    and "ref = '''' \<or> result_ok co h i stage ref" and "grows (hist_now h) s'" and "is_stages s' = is_stages s"
    and "r \<in> set (is_stages s')"
  shows "r \<in> set (is_stages (hist_now h)) \<or> stage_ok co (see s' h) r"
  using record_stage_Inr(5) [OF assms(2), of r] assms(3,5,6) result_mono [OF _ hle_see [OF assms(4)]]
  by (auto simp: stage_ok_def)

lemma record_keeps:
  assumes "ingest_inv co tn h" and "ref = '''' \<or> result_ok co h i stage ref"
  shows "keeps (ingest_inv co tn) (record_only i stage st ref detail code) (\<lambda>_ _. True) h"
    and "keeps (ingest_inv co tn) (record_and_set i stage st ref detail code ist) (\<lambda>_ _. True) h"
proof -
  have ok: "ref = '''' \<or> result_ok co h' i stage ref" if "later (ingest_inv co tn) h h'" for h'
    using assms later_hle [OF assms(1) that] result_mono by blast
  show "keeps (ingest_inv co tn) (record_only i stage st ref detail code) (\<lambda>_ _. True) h"
    unfolding record_only_def
  proof (rule transact_keeps)
    fix h' u s
    assume l: "later (ingest_inv co tn) h h'" and r: "record_stage i stage st ref detail code (hist_now h') = Inr (u, s)"
    have i': "ingest_inv co tn h'" using l by (simp add: later_def)
    note same = record_stage_Inr(1-4) [OF r]
    have g: "grows (hist_now h') s" by (rule grows_same) (simp_all add: same)
    have "refs_ok tn s" using i' by (simp add: ingest_inv_def refs_ok_def same)
    then show "ingest_inv co tn (see s h') \<and> True"
      using inv_see [OF i' g] stage_row_see [OF i' r ok [OF l] g] by (simp add: same)
  qed
  show "keeps (ingest_inv co tn) (record_and_set i stage st ref detail code ist) (\<lambda>_ _. True) h"
    unfolding record_and_set_def
  proof (rule transact_keeps)
    fix h' u s
    assume l: "later (ingest_inv co tn) h h'"
      and "bindE (record_stage i stage st ref detail code (hist_now h'))
        (\<lambda>(_, s1). Inr ((), snd (set_ingestion_status i ist s1))) = Inr (u, s)"
    then obtain w s1 where r: "record_stage i stage st ref detail code (hist_now h') = Inr (w, s1)"
        and s: "s = snd (set_ingestion_status i ist s1)" by (auto simp: bindE_Inr_iff)
    have i': "ingest_inv co tn h'" using l by (simp add: later_def)
    note same = record_stage_Inr(1-4) [OF r]
    have g: "grows (hist_now h') s" unfolding s
      by (rule grows_trans [OF grows_same set_status_grows]) (simp_all add: same)
    have "refs_ok tn s1" using i' by (simp add: ingest_inv_def refs_ok_def same)
    then have "refs_ok tn s" unfolding s by (rule set_status_refs)
    then show "ingest_inv co tn (see s h') \<and> True"
      using inv_see [OF i' g] stage_row_see [OF i' r ok [OF l] g] by (simp add: same s)
  qed
qed

lemma retry_keeps: "ingest_inv co tn h \<Longrightarrow> keeps (ingest_inv co tn) (retry_after task stage prefix e) (\<lambda>_ _. True) h"
  unfolding retry_after_def record_failed_def
  by (rule keeps_seq [where P = "\<lambda>_ _. True"], rule keeps_try [where P = "\<lambda>_ _. True"])
    (auto intro: record_keeps keeps_Ret)

lemma put_keeps:
  "keeps (ingest_inv co tn) (transact (put_session co i stage v))
    (\<lambda>(ref, digest) h'. has_object (hist_now h') ref (session_doc co v) \<and> ref \<noteq> '''') h"
proof (rule transact_keeps)
  fix h' x s
  assume l: "later (ingest_inv co tn) h h'" and p: "put_session co i stage v (hist_now h') = Inr (x, s)"
  obtain ref digest where x: "x = (ref, digest)" by (cases x)
  have i': "ingest_inv co tn h'" using l by (simp add: later_def)
  note same = put_session_Inr [OF p [unfolded x]]
  have "refs_ok tn s" using i' by (simp add: ingest_inv_def refs_ok_def same)
  then have "ingest_inv co tn (see s h')" by (rule inv_see [OF i' same(1)]) (simp_all add: same)
  then show "ingest_inv co tn (see s h') \<and>
      (case x of (ref, digest) \<Rightarrow> \<lambda>h'. has_object (hist_now h') ref (session_doc co v) \<and> ref \<noteq> '''') (see s h')"
    using same(2,7) by (simp add: x see_def)
qed

lemma queue_keeps:
  assumes "working co tn task i v h" and "tp_ingestion_id p = i"
  shows "keeps (ingest_inv co tn) (enqueue_next tn task kind p) (\<lambda>_ _. True) h"
  unfolding enqueue_next_def
proof (rule transact_keeps)
  fix h' u s
  let ?e = "stage_request tn kind p (ct_payload_ref task) (ct_payload_hash task) (ct_trace_id task)"
  assume l: "later (ingest_inv co tn) h h'" and q: "queue_task tn ?e (hist_now h') = Inr (u, s)"
  have w: "working co tn task i v h'" using assms(1) l by (rule working_later)
  then have i': "ingest_inv co tn h'" by (simp add: working_def)
  note same = queue_task_Inr(1-4) [OF q]
  have g: "grows (hist_now h') s" by (rule grows_same) (simp_all add: same)
  have j: "job co s task i v" using w job_mono [OF _ g] by (simp add: working_def)
  have "task_ok co s r" if "wt_payload_ref r = ct_payload_ref task" for r
    using j that unfolding task_ok_def job_def by metis
  then have "r \<in> set (is_tasks (hist_now h')) \<or> task_ok co s r" if "r \<in> set (is_tasks s)" for r
    using queue_task_Inr(5) [OF q that] by (auto simp: stage_request_def)
  moreover have "refs_ok tn s" using i' by (simp add: ingest_inv_def refs_ok_def same)
  ultimately show "ingest_inv co tn (see s h') \<and> True" using inv_see [OF i' g] by (simp add: same)
qed

lemma previous_keeps:
  assumes "ingest_inv co tn h"
  shows "keeps (ingest_inv co tn) (previous co i stage)
    (\<lambda>x h'. \<exists>ref. result_ok co h' i stage ref \<and> get_session co ref (hist_now h') = Inr x) h"
  unfolding previous_def
proof (rule keeps_seq [where P = "\<lambda>ref h'. ref = '''' \<or> result_ok co h' i stage ref"])
  show "keeps (ingest_inv co tn) (fetch (stage_ref i stage)) (\<lambda>ref h'. ref = '''' \<or> result_ok co h' i stage ref) h"
  proof (rule fetch_keeps)
    fix h' ref
    assume l: "later (ingest_inv co tn) h h'" and f: "stage_ref i stage (hist_now h') = Inr ref"
    have inv': "ingest_inv co tn h'" using l by (simp add: later_def)
    show "ref = '''' \<or> result_ok co (see (hist_now h') h') i stage ref"
    proof (cases "ref = ''''")
      case False
      with f obtain r where r: "r \<in> set (is_stages (hist_now h'))" "sg_ingestion_id r = i" "sg_stage r = stage" "sg_result_ref r = ref"
        by (auto simp: stage_ref_def split: option.splits dest!: find_Some_mem)
      then have "result_ok co h' i stage ref" using inv' False by (auto simp: ingest_inv_def stage_ok_def)
      then show ?thesis using result_mono hle_see [OF grows_refl] by blast
    qed simp
  qed
next
  fix ref h'
  assume "ref = '''' \<or> result_ok co h' i stage ref" and f: "following (ingest_inv co tn) h h'"
  then show "keeps (ingest_inv co tn)
      (if ref = '''' then Throw (PyExc ''ValueError'' (''mandatory '' @ stage @ '' output is missing''))
       else fetch (get_session co ref))
      (\<lambda>x h'. \<exists>ref. result_ok co h' i stage ref \<and> get_session co ref (hist_now h') = Inr x) h'"
  proof (cases "ref = ''''")
    case False
    with \<open>ref = '''' \<or> _\<close> have ok: "result_ok co h' i stage ref" by simp
    have inv': "ingest_inv co tn h'" using hle_following [OF assms f] by simp
    have "keeps (ingest_inv co tn) (fetch (get_session co ref))
        (\<lambda>x h'. \<exists>ref. result_ok co h' i stage ref \<and> get_session co ref (hist_now h') = Inr x) h'"
    proof (rule fetch_keeps)
      fix h2 x
      assume l: "later (ingest_inv co tn) h' h2" and x: "get_session co ref (hist_now h2) = Inr x"
      have "hle h' (see (hist_now h2) h2)"
        using later_hle [OF inv' l] by (auto simp: hle_def see_def)
      with ok have "result_ok co (see (hist_now h2) h2) i stage ref" by (rule result_mono)
      then show "\<exists>ref. result_ok co (see (hist_now h2) h2) i stage ref \<and>
          get_session co ref (hist_now (see (hist_now h2) h2)) = Inr x"
        using x by (auto simp: see_def)
    qed
    with False show ?thesis by simp
  qed simp
qed

section \<open>Sequencing\<close>

text \<open>One rule per statement of a handler: what holds when the rest of the handler starts.\<close>

lemma then_working:
  assumes "working co tn task i v h" and "following (ingest_inv co tn) h h'"
  shows "working co tn task i v h'" and "hle h h'"
proof -
  show "working co tn task i v h'" using assms by (rule working_following)
  have "ingest_inv co tn h" using assms(1) by (simp add: working_def)
  then show "hle h h'" using hle_following assms(2) by blast
qed

lemma load_then:
  assumes "working co tn task i v h"
    and "\<And>p h'. working co tn task i v h' \<Longrightarrow> tp_ingestion_id p = i \<Longrightarrow> keeps (ingest_inv co tn) (g p) Q h'"
  shows "keeps (ingest_inv co tn) (pbind (load_payload co task) g) Q h"
  by (rule keeps_seq [OF load_keeps [OF assms(1)]]) (use assms then_working in blast)

lemma session_then:
  assumes "working co tn task i v h"
    and "\<And>h'. working co tn task i v h' \<Longrightarrow> hle h h' \<Longrightarrow> keeps (ingest_inv co tn) (g (canonical v)) Q h'"
  shows "keeps (ingest_inv co tn) (pbind (fetch (get_session co (ct_payload_ref task))) g) Q h"
  by (rule keeps_seq [OF session_keeps [OF assms(1)]]) (use assms then_working in blast)

lemma put_then:
  assumes "working co tn task i v h"
    and "\<And>ref digest h'. working co tn task i v h' \<Longrightarrow> hle h h' \<Longrightarrow> has_object (hist_now h') ref (session_doc co x) \<Longrightarrow>
      keeps (ingest_inv co tn) (g (ref, digest)) Q h'"
  shows "keeps (ingest_inv co tn) (pbind (transact (put_session co j stage x)) g) Q h"
  by (rule keeps_seq [OF put_keeps]) (use assms then_working in \<open>auto split: prod.splits\<close>)

lemma record_then:
  assumes "working co tn task i v h" and "ref = '''' \<or> result_ok co h j stage ref"
    and "\<And>h'. working co tn task i v h' \<Longrightarrow> hle h h' \<Longrightarrow> keeps (ingest_inv co tn) (g ()) Q h'"
  shows "keeps (ingest_inv co tn) (pbind (record_only j stage st ref detail code) g) Q h"
    and "keeps (ingest_inv co tn) (pbind (record_and_set j stage st ref detail code ist) g) Q h"
proof -
  have inv: "ingest_inv co tn h" using assms(1) by (simp add: working_def)
  show "keeps (ingest_inv co tn) (pbind (record_only j stage st ref detail code) g) Q h"
    by (rule keeps_seq [OF record_keeps(1) [OF inv assms(2)]]) (auto intro: assms(3) then_working [OF assms(1)])
  show "keeps (ingest_inv co tn) (pbind (record_and_set j stage st ref detail code ist) g) Q h"
    by (rule keeps_seq [OF record_keeps(2) [OF inv assms(2)]]) (auto intro: assms(3) then_working [OF assms(1)])
qed

lemma queue_then:
  assumes "working co tn task i v h" and "tp_ingestion_id p = i"
    and "\<And>h'. working co tn task i v h' \<Longrightarrow> keeps (ingest_inv co tn) (g ()) Q h'"
  shows "keeps (ingest_inv co tn) (pbind (enqueue_next tn task kind p) g) Q h"
  by (rule keeps_seq [OF queue_keeps [OF assms(1,2)]]) (auto intro: assms(3) then_working [OF assms(1)])

lemma previous_then:
  assumes "working co tn task i v h"
    and "\<And>x ref h'. working co tn task i v h' \<Longrightarrow> hle h h' \<Longrightarrow> result_ok co h' j stage ref \<Longrightarrow>
      get_session co ref (hist_now h') = Inr x \<Longrightarrow> keeps (ingest_inv co tn) (g x) Q h'"
  shows "keeps (ingest_inv co tn) (pbind (previous co j stage) g) Q h"
proof (rule keeps_seq [OF previous_keeps])
  show "ingest_inv co tn h" using assms(1) by (simp add: working_def)
qed (use assms then_working in blast)

lemma ask_then:
  assumes "working co tn task i v h"
    and "\<And>x h'. working co tn task i v h' \<Longrightarrow> hle h h' \<Longrightarrow> Asked q (Inr x) \<in> set (hist_past h') \<Longrightarrow>
      keeps (ingest_inv co tn) (g x) Q h'"
  shows "keeps (ingest_inv co tn) (pbind (ask q) g) Q h"
proof (rule keeps_seq [OF ask_keeps [where Q = "\<lambda>x h'. Asked q (Inr x) \<in> set (hist_past h')"]])
  fix h' x show "Asked q (Inr x) \<in> set (hist_past (hear q (Inr x) h'))" by (simp add: hear_def)
qed (use assms then_working in blast)

lemma try_then:
  assumes "working co tn task i v h" and "keeps (ingest_inv co tn) p P h"
    and "\<And>x h'. P x h' \<Longrightarrow> working co tn task i v h' \<Longrightarrow> hle h h' \<Longrightarrow> keeps (ingest_inv co tn) (g x) Q h'"
    and "\<And>e h'. working co tn task i v h' \<Longrightarrow> keeps (ingest_inv co tn) (H e) Q h'"
  shows "keeps (ingest_inv co tn) (ptry p g H) Q h"
  by (rule keeps_try [OF assms(2)]) (use assms(1,3,4) then_working in blast)+

lemma bind_then:
  assumes "working co tn task i v h" and "keeps (ingest_inv co tn) p P h"
    and "\<And>x h'. P x h' \<Longrightarrow> working co tn task i v h' \<Longrightarrow> hle h h' \<Longrightarrow> keeps (ingest_inv co tn) (g x) Q h'"
  shows "keeps (ingest_inv co tn) (pbind p g) Q h"
  by (rule keeps_seq [OF assms(2)]) (use assms(1,3) then_working in blast)

lemma lift_then: "(\<And>x. r = Inr x \<Longrightarrow> keeps I (g x) Q h) \<Longrightarrow> keeps I (pbind (lift_result r) g) Q h"
  by (cases r) simp_all

lemma working_inv: "working co tn task i v h \<Longrightarrow> ingest_inv co tn h"
  by (simp add: working_def)

lemma working_accepted: "working co tn task i v h \<Longrightarrow> accepted co (hist_now h) i v"
  unfolding working_def by (blast intro: job_accepted)

section \<open>The handlers\<close>

lemma normalize_keeps:
  assumes "working co tn task i v h"
  shows "keeps (ingest_inv co tn) (handle_normalize co tn task) (\<lambda>_ _. True) h"
  unfolding handle_normalize_def
proof (rule load_then [OF assms], rule session_then, assumption, goal_cases)
  case (1 p h1 h2)
  show ?case
  proof (cases "normalize_stage (canonical v)")
    case (Inl e)
    then show ?thesis using retry_keeps working_inv 1(3) by auto
  next
    case (Inr n)
    then have n: "n = canonical v" by (auto simp: normalize_stage_def bindE_Inr_iff split: if_splits)
    have "result_ok co h' i ''normalize'' ref"
      if "working co tn task i v h'" "has_object (hist_now h') ref (session_doc co (canonical v))" for h' ref
      using that working_accepted by (fastforce simp: result_ok_def)
    then show ?thesis using 1(2,3) unfolding Inr n
      by (auto intro!: put_then [OF 1(3)] record_then(2) queue_then keeps_Ret)
  qed
qed

lemma split_stage_keeps:
  assumes "working co tn task i v h" and "tp_ingestion_id p = i"
  shows "keeps (ingest_inv co tn) (split_stage co p x)
    (\<lambda>answer h'. \<forall>segs. validated_segments answer = Inr segs \<longrightarrow> planned co h' i segs) h"
proof (cases "is_dict x")
  case True
  have co: "codec_ok co" using assms(1) by (simp add: working_def)
  from True have eq: "split_stage co p x = pbind (previous co i ''normalize'') (\<lambda>v.
      if is_dict v then pbind (ask (AskSplit v)) (\<lambda>r. Ret (snd r)) else Throw type_error)"
    by (simp add: split_stage_def assms(2))
  show ?thesis
    unfolding eq
  proof (rule previous_then [OF assms(1)])
    fix y ref h1
    assume w1: "working co tn task i v h1" and r: "result_ok co h1 i ''normalize'' ref" "get_session co ref (hist_now h1) = Inr y"
    then obtain u where u: "accepted co (hist_now h1) i u" "has_object (hist_now h1) ref (session_doc co (canonical u))"
      by (auto simp: result_ok_def)
    with r(2) have y: "y = canonical u" using get_session_of_doc [OF co u(2)] by (simp add: canonical_idem)
    show "keeps (ingest_inv co tn) (if is_dict y then pbind (ask (AskSplit y)) (\<lambda>r. Ret (snd r)) else Throw type_error)
        (\<lambda>answer h'. \<forall>segs. validated_segments answer = Inr segs \<longrightarrow> planned co h' i segs) h1"
    proof (cases "is_dict y")
      case True
      have "keeps (ingest_inv co tn) (pbind (ask (AskSplit y)) (\<lambda>r. Ret (snd r)))
          (\<lambda>answer h'. \<forall>segs. validated_segments answer = Inr segs \<longrightarrow> planned co h' i segs) h1"
      proof (rule ask_then [OF w1], rule keeps_Ret, intro allI impI)
        fix z h2 segs
        assume "hle h1 h2" and a: "Asked (AskSplit y) (Inr z) \<in> set (hist_past h2)" "validated_segments (snd z) = Inr segs"
        then have "accepted co (hist_now h2) i u" using u(1) hle_accepted by blast
        with a show "planned co h2 i segs" unfolding planned_def y by (cases z) auto
      qed
      with True show ?thesis by simp
    qed simp
  qed
qed (simp add: split_stage_def)

definition plan_post :: "codec \<Rightarrow> string \<Rightarrow> pydict list \<times> string \<Rightarrow> ingest_history \<Rightarrow> bool" where
  "plan_post co i r h \<longleftrightarrow> result_ok co h i ''split'' (snd r)"

lemma create_plan_keeps:
  assumes "working co tn task i v h" and "tp_ingestion_id p = i"
  shows "keeps (ingest_inv co tn) (create_plan co task p) (plan_post co i) h"
  unfolding create_plan_def assms(2)
proof (rule session_then [OF assms(1)], rule bind_then, assumption, rule split_stage_keeps, assumption, rule assms(2),
    rule lift_then, rule put_then, assumption)
  fix h1 answer h2 segs ref digest h3
  assume w3: "working co tn task i v h3" and le: "hle h2 h3"
    and a: "\<forall>segs. validated_segments answer = Inr segs \<longrightarrow> planned co h2 i segs" "validated_segments answer = Inr segs"
    and o: "has_object (hist_now h3) ref (session_doc co (plan_document segs))"
  from a le have "planned co h3 i segs" using planned_mono by blast
  with o have ok: "result_ok co h3 i ''split'' ref" by (auto simp: result_ok_def)
  then show "keeps (ingest_inv co tn) (case (ref, digest) of (ref, digest) \<Rightarrow>
      pbind (record_only i ''split'' StPending ref [(''segments'', PInt (int (length segs)))] '''') (\<lambda>_. Ret (segs, ref)))
      (plan_post co i) h3"
    using w3 by (auto intro!: record_then(1) keeps_Ret simp: plan_post_def intro: result_mono)
qed

lemma plan_keeps:
  assumes "working co tn task i v h" and "tp_ingestion_id p = i"
  shows "keeps (ingest_inv co tn) (load_or_create_plan co task p) (plan_post co i) h"
  unfolding load_or_create_plan_def assms(2)
proof (rule bind_then [OF assms(1) fetch_keeps [where Q = "\<lambda>x h'. \<forall>r. x = Some r \<longrightarrow> result_ok co h' i ''split'' (sg_result_ref r)"]])
  fix h1 x
  assume l: "later (ingest_inv co tn) h h1" and x: "saved_plan i (hist_now h1) = Inr x"
  show "\<forall>r. x = Some r \<longrightarrow> result_ok co (see (hist_now h1) h1) i ''split'' (sg_result_ref r)"
  proof (intro allI impI)
    fix r assume "x = Some r"
    with x have r: "r \<in> set (is_stages (hist_now h1))" "sg_ingestion_id r = i" "sg_stage r = ''split''" "sg_result_ref r \<noteq> ''''"
      by (auto simp: saved_plan_def stage_results_def dest!: find_Some_mem)
    with l have "result_ok co h1 i ''split'' (sg_result_ref r)" by (auto simp: later_def ingest_inv_def stage_ok_def)
    then show "result_ok co (see (hist_now h1) h1) i ''split'' (sg_result_ref r)"
      using result_mono hle_see [OF grows_refl] by blast
  qed
next
  fix x h1
  assume x: "\<forall>r. x = Some r \<longrightarrow> result_ok co h1 i ''split'' (sg_result_ref r)" and w1: "working co tn task i v h1"
  show "keeps (ingest_inv co tn) (case x of None \<Rightarrow> create_plan co task p
      | Some r \<Rightarrow> pbind (fetch (get_session co (sg_result_ref r))) (\<lambda>document.
          if is_plan document
          then pbind (lift_result (validated_segments (dget_none (as_dict document) ''segments'')))
                 (\<lambda>segments. Ret (segments, sg_result_ref r))
          else create_plan co task p)) (plan_post co i) h1"
  proof (cases x)
    case None
    then show ?thesis using create_plan_keeps [OF w1 assms(2)] by simp
  next
    case (Some r)
    with x have ok: "result_ok co h1 i ''split'' (sg_result_ref r)" by simp
    have "keeps (ingest_inv co tn) (pbind (fetch (get_session co (sg_result_ref r))) (\<lambda>document.
          if is_plan document
          then pbind (lift_result (validated_segments (dget_none (as_dict document) ''segments'')))
                 (\<lambda>segments. Ret (segments, sg_result_ref r))
          else create_plan co task p)) (plan_post co i) h1"
      by (rule bind_then [OF w1 fetch_keeps [where Q = "\<lambda>_ _. True"]])
        (auto intro!: lift_then keeps_Ret create_plan_keeps assms(2) simp: plan_post_def intro: result_mono [OF ok])
    with Some show ?thesis by simp
  qed
qed

text \<open>An acceptance with its task, of a child or of a submission.\<close>

lemma accept_and_queue_see:
  assumes "ingest_inv co tn h" and "accept_ingestion co a (hist_now h) = Inr (j, s1)"
    and "ar_payload_ref a = payload_ref_of tn (dashed (ar_ingestion_id a))"
  shows "ingest_inv co tn (see s1 h)"
    and "j = ar_ingestion_id a \<Longrightarrow> has_object (hist_now h) (ar_payload_ref a) (payload_doc co p v) \<Longrightarrow>
      tp_ingestion_id p = ar_ingestion_id a \<Longrightarrow> eq_payload_ref e = ar_payload_ref a \<Longrightarrow>
      queue_task tn e s1 = Inr (u, s2) \<Longrightarrow> ingest_inv co tn (see s2 h)"
proof -
  have refs: "refs_ok tn (hist_now h)" using assms(1) by (simp add: ingest_inv_def)
  note acc = accept_ingestion_Inr [OF assms(2) refs assms(3)]
  show "ingest_inv co tn (see s1 h)" by (rule inv_see [OF assms(1) acc(1,2)]) (simp_all add: acc)
  assume j: "j = ar_ingestion_id a" and o: "has_object (hist_now h) (ar_payload_ref a) (payload_doc co p v)"
    and p: "tp_ingestion_id p = ar_ingestion_id a" and e: "eq_payload_ref e = ar_payload_ref a"
    and q: "queue_task tn e s1 = Inr (u, s2)"
  note same = queue_task_Inr(1-4) [OF q]
  have g: "grows (hist_now h) s2" by (rule grows_trans [OF acc(1) grows_same]) (simp_all add: same)
  from acc(7) [OF j] obtain g where gg: "g \<in> set (is_ingestions s2)" "ig_id g = j" "ig_payload_ref g = ar_payload_ref a"
    unfolding same by blast
  have "has_object s2 (ar_payload_ref a) (payload_doc co p v)" using o g by (rule object_mono)
  then have "task_ok co s2 r" if "wt_payload_ref r = ar_payload_ref a" for r
    using gg p j that unfolding task_ok_def by metis
  then have "r \<in> set (is_tasks (hist_now h)) \<or> task_ok co s2 r" if "r \<in> set (is_tasks s2)" for r
    using queue_task_Inr(5) [OF q that] acc(6) e by auto
  moreover have "refs_ok tn s2" using acc(2) by (simp add: refs_ok_def same)
  ultimately show "ingest_inv co tn (see s2 h)" using inv_see [OF assms(1) g] by (simp add: same acc)
qed

lemma put_payload_keeps:
  "keeps (ingest_inv co tn) (transact (put_payload_json co ref (payload_to_json co c) v))
     (\<lambda>_ h'. has_object (hist_now h') ref (payload_doc co c v)) h"
proof (rule transact_keeps)
  fix h' u s
  assume l: "later (ingest_inv co tn) h h'" and "put_payload_json co ref (payload_to_json co c) v (hist_now h') = Inr (u, s)"
  then have p: "put_once ref (payload_doc co c v) (hist_now h') = Inr (u, s)"
    by (simp add: put_payload_json_def put_document_def payload_doc_def)
  have i': "ingest_inv co tn h'" using l by (simp add: later_def)
  note same = put_once_Inr [OF p]
  have "refs_ok tn s" using i' by (simp add: ingest_inv_def refs_ok_def same)
  then have "ingest_inv co tn (see s h')" by (rule inv_see [OF i' same(1)]) (simp_all add: same)
  then show "ingest_inv co tn (see s h') \<and> has_object (hist_now (see s h')) ref (payload_doc co c v)"
    using same(2) by (simp add: see_def)
qed

lemma accept_child_keeps:
  assumes "ingest_inv co tn h" and "tp_payload_ref c = payload_ref_of tn (dashed (tp_ingestion_id c))"
  shows "keeps (ingest_inv co tn) (accept_child co tn c session) (\<lambda>_ _. True) h"
  unfolding accept_child_def
proof (rule keeps_seq [OF put_payload_keeps], rule transact_keeps)
  fix u h1 h2 b s
  let ?a = "child_request c (dget_none session ''business_time'')"
  let ?e = "stage_request tn ''session.normalize'' c (tp_payload_ref c) (tp_payload_hash c) ''''"
  assume o: "has_object (hist_now h1) (tp_payload_ref c) (payload_doc co c (PDict session))"
    and f: "following (ingest_inv co tn) h h1" and l: "later (ingest_inv co tn) h1 h2"
    and body: "bindE (accept_ingestion co ?a (hist_now h2)) (\<lambda>(accepted, s1).
         if accepted \<noteq> tp_ingestion_id c then Inr (False, s1)
         else bindE (queue_task tn ?e s1) (\<lambda>(_, s2). Inr (True, s2))) = Inr (b, s)"
  have inv: "ingest_inv co tn h1" "ingest_inv co tn h2" "hle h1 h2"
    using hle_following [OF assms(1) f] later_hle l by blast+
  from body obtain j s1 where a: "accept_ingestion co ?a (hist_now h2) = Inr (j, s1)"
    and rest: "j \<noteq> tp_ingestion_id c \<and> s = s1 \<or> j = tp_ingestion_id c \<and> (\<exists>u. queue_task tn ?e s1 = Inr (u, s))"
    by (auto simp: bindE_Inr_iff split: if_splits)
  have ref: "ar_payload_ref ?a = payload_ref_of tn (dashed (ar_ingestion_id ?a))" using assms(2) by (simp add: child_request_def)
  have "has_object (hist_now h2) (tp_payload_ref c) (payload_doc co c (PDict session))" using o inv(3) hle_objects by blast
  then have o2: "has_object (hist_now h2) (ar_payload_ref ?a) (payload_doc co c (PDict session))"
    by (simp add: child_request_def)
  have ids: "ar_ingestion_id ?a = tp_ingestion_id c" "eq_payload_ref ?e = ar_payload_ref ?a"
    by (simp_all add: child_request_def stage_request_def)
  from rest show "ingest_inv co tn (see s h2) \<and> True"
  proof (elim disjE conjE exE)
    assume s: "s = s1"
    show ?thesis unfolding s by (rule conjI [OF accept_and_queue_see(1) [OF inv(2) a ref] TrueI])
  next
    fix w assume j: "j = tp_ingestion_id c" and q: "queue_task tn ?e s1 = Inr (w, s)"
    have "j = ar_ingestion_id ?a" unfolding ids(1) by (rule j)
    from accept_and_queue_see(2) [OF inv(2) a ref this o2 ids(1) [symmetric] ids(2) q]
    show ?thesis by (rule conjI) (rule TrueI)
  qed
qed

lemma fan_out_keeps:
  "ingest_inv co tn h \<Longrightarrow> keeps (ingest_inv co tn) (fan_out co tn p xs ids) (\<lambda>_ _. True) h"
proof (induction xs arbitrary: ids h)
  case Nil
  then show ?case by simp
next
  case (Cons x xs)
  obtain index segment where x: "x = (index, segment)" by (cases x)
  have "keeps (ingest_inv co tn) (accept_child co tn (split_child co tn p index segment) segment) (\<lambda>_ _. True) h"
    by (rule accept_child_keeps [OF Cons.prems]) (simp add: split_child_def Let_def)
  then show ?case
    unfolding x fan_out.simps Let_def
    by (rule keeps_try) (auto intro: Cons.IH dest: hle_following [OF Cons.prems])
qed

lemma split_keeps:
  assumes "working co tn task i v h"
  shows "keeps (ingest_inv co tn) (handle_split co tn task) (\<lambda>_ _. True) h"
  unfolding handle_split_def
proof (rule load_then [OF assms], rule try_then, assumption, rule plan_keeps, assumption, assumption, goal_cases)
  case (1 p h1 x h2)
  obtain segs ref where x: "x = (segs, ref)" by (cases x)
  have ok: "result_ok co h2 i ''split'' ref" using 1(3) by (simp add: plan_post_def x)
  have fan: "keeps (ingest_inv co tn) (fan_out co tn p (enumerate (Suc 0) segs) []) (\<lambda>_ _. True) h2"
    using fan_out_keeps working_inv 1(4) by blast
  show ?case
    unfolding x using 1(2,4) ok
    by (auto simp: Let_def intro!: record_then queue_then keeps_Ret bind_then [OF 1(4) fan] split: option.splits
        intro: result_mono)
next
  case (2 p h1 e h2)
  then show ?case using retry_keeps working_inv by blast
qed

text \<open>The plan read back is the plan stored, and analysis takes its only segment.\<close>

lemma canonical_plan: "canonical (plan_document segs) = PDict (canonical_dict
    [(''schema_version'', PStr plan_schema), (''segments'', PList (map PDict segs))])"
  by (simp add: plan_document_def canonical_dict_def)

lemma analyze_input_of_plan:
  assumes "analyze_input (canonical (plan_document segs)) = Inr x"
  shows "\<exists>segment. segs = [segment] \<and> x = canonical (PDict segment)"
proof -
  have "dget_none (as_dict (canonical (plan_document segs))) ''segments'' = PList (map (canonical \<circ> PDict) segs)"
    unfolding canonical_plan
    by (simp add: as_dict_def dget_or_def dget_canonical dict_ok_def)
  with assms have "analyze_input (canonical (plan_document segs)) = (case PList (map (canonical \<circ> PDict) segs) of
      PList [PDict d] \<Rightarrow> Inr (PDict d)
    | _ \<Rightarrow> Inl (PyExc ''ValueError'' ''split stage must provide exactly one Session for analysis''))"
    by (simp only: analyze_input_def)
  with assms show ?thesis by (cases segs rule: remdups_adj.cases) (auto split: pyval.splits)
qed

lemma analyze_stage_keeps:
  assumes "working co tn task i v h" and "tp_ingestion_id p = i"
  shows "keeps (ingest_inv co tn) (analyze_stage co p session) (\<lambda>(w, analysis) h'. \<exists>segment. planned co h' i [segment] \<and>
    Asked (AskAnalyze (canonical (PDict segment))) (Inr (w, analysis)) \<in> set (hist_past h')) h"
  unfolding analyze_stage_def assms(2)
proof (rule previous_then [OF assms(1)], rule lift_then)
  fix plan ref h1 x
  assume w1: "working co tn task i v h1" and r: "result_ok co h1 i ''split'' ref" "get_session co ref (hist_now h1) = Inr plan"
    and x: "analyze_input plan = Inr x"
  have co: "codec_ok co" using w1 by (simp add: working_def)
  from r(1) obtain segs where segs: "planned co h1 i segs" "has_object (hist_now h1) ref (session_doc co (plan_document segs))"
    by (auto simp: result_ok_def)
  with r(2) have "plan = canonical (plan_document segs)" using get_session_of_doc [OF co segs(2)] by simp
  with x obtain segment where s: "segs = [segment]" "x = canonical (PDict segment)" using analyze_input_of_plan by blast
  have "keeps (ingest_inv co tn) (ask (AskAnalyze x)) (\<lambda>(w, analysis) h'. \<exists>segment. planned co h' i [segment] \<and>
      Asked (AskAnalyze (canonical (PDict segment))) (Inr (w, analysis)) \<in> set (hist_past h')) h1"
  proof (rule ask_keeps)
    fix h2 z
    assume l: "later (ingest_inv co tn) h1 h2"
    have "hle h1 h2" using later_hle [OF working_inv [OF w1] l] by simp
    then have "hle h1 (hear (AskAnalyze x) (Inr z) h2)" by (auto simp: hle_def hear_def)
    with segs(1) s(1) have "planned co (hear (AskAnalyze x) (Inr z) h2) i [segment]" using planned_mono by blast
    moreover have "Asked (AskAnalyze x) (Inr z) \<in> set (hist_past (hear (AskAnalyze x) (Inr z) h2))" by (simp add: hear_def)
    ultimately show "(case z of (w, analysis) \<Rightarrow> \<lambda>h'. \<exists>segment. planned co h' i [segment] \<and>
        Asked (AskAnalyze (canonical (PDict segment))) (Inr (w, analysis)) \<in> set (hist_past h'))
        (hear (AskAnalyze x) (Inr z) h2)"
      unfolding s(2) by (cases z) auto
  qed
  then show "keeps (ingest_inv co tn) (if is_dict session then ask (AskAnalyze x) else Throw attribute_error)
      (\<lambda>(w, analysis) h'. \<exists>segment. planned co h' i [segment] \<and>
      Asked (AskAnalyze (canonical (PDict segment))) (Inr (w, analysis)) \<in> set (hist_past h')) h1" by simp
qed

lemma trace_stage_keeps:
  assumes "working co tn task i v h"
  shows "keeps (ingest_inv co tn) (trace_stage w) (\<lambda>x h'. \<exists>d t. Asked (AskTrace w) (Inr (PDict d, t)) \<in> set (hist_past h') \<and>
    x = PDict (dput ''trace_analysis'' t d)) h"
  unfolding trace_stage_def
proof (rule ask_then [OF assms])
  fix z and h1 :: ingest_history
  assume "Asked (AskTrace w) (Inr z) \<in> set (hist_past h1)"
  then show "keeps (ingest_inv co tn) (case z of (after, analysis) \<Rightarrow>
      (case after of PDict d \<Rightarrow> Ret (PDict (dput ''trace_analysis'' analysis d)) | _ \<Rightarrow> Throw type_error))
      (\<lambda>x h'. \<exists>d t. Asked (AskTrace w) (Inr (PDict d, t)) \<in> set (hist_past h') \<and>
        x = PDict (dput ''trace_analysis'' t d)) h1"
    by (auto split: prod.splits pyval.splits)
qed

lemma analyze_keeps:
  assumes "working co tn task i v h"
  shows "keeps (ingest_inv co tn) (handle_analyze co tn task) (\<lambda>_ _. True) h"
  unfolding handle_analyze_def Let_def
proof (rule load_then [OF assms], rule session_then, assumption, rule try_then, assumption, rule analyze_stage_keeps,
    assumption, assumption, goal_cases)
  case (1 p h1 h2 x h3)
  obtain w analysis where x: "x = (w, analysis)" by (cases x)
  from 1(5) obtain segment where a: "planned co h3 i [segment]"
    "Asked (AskAnalyze (canonical (PDict segment))) (Inr (w, analysis)) \<in> set (hist_past h3)" by (auto simp: x)
  show ?case
  proof (cases "py_get analysis ''decision''")
    case (Inl e)
    then show ?thesis by (simp add: x)
  next
    case (Inr y)
    show ?thesis
      unfolding x prod.case Inr sum.case
    proof (rule record_then(1) [OF 1(6)], simp, rule try_then, assumption, rule trace_stage_keeps, assumption,
        rule put_then, assumption, unfold prod.case, goal_cases)
      case (1 h4 z h5 ref digest h6)
      from 1(3) obtain d t where z: "Asked (AskTrace w) (Inr (PDict d, t)) \<in> set (hist_past h5)"
        "z = PDict (dput ''trace_analysis'' t d)" by blast
      have "hle h3 h6" using 1(2,5,7) grows_trans unfolding hle_def by blast
      then have "planned co h6 i [segment]" "Asked (AskAnalyze (canonical (PDict segment))) (Inr (w, analysis)) \<in> set (hist_past h6)"
        using a planned_mono by (blast, auto simp: hle_def)
      moreover have "Asked (AskTrace w) (Inr (PDict d, t)) \<in> set (hist_past h6)" using z(1) 1(7) by (auto simp: hle_def)
      ultimately have "traced co h6 i z" using z(2) unfolding traced_def by blast
      with 1(8) have "result_ok co h6 i ''trace_analyze'' ref" by (auto simp: result_ok_def)
      with 1(6) \<open>tp_ingestion_id p = i\<close> show ?case
        by (auto intro!: record_then(1) queue_then keeps_Ret)
    next
      case (2 h4 e h5)
      then show ?case using retry_keeps working_inv by blast
    qed
  qed
next
  case (2 p h1 h2 e h3)
  then show ?case using retry_keeps working_inv by blast
qed

section \<open>Archiving\<close>

lemma traced_is_nonempty: "traced co h i v \<Longrightarrow> \<exists>d. canonical v = PDict d \<and> d \<noteq> []"
proof -
  assume "traced co h i v"
  then obtain d t where "v = PDict (dput ''trace_analysis'' t d)" unfolding traced_def by blast
  moreover have "dput ''trace_analysis'' t d \<noteq> []" by (cases d) (auto split: if_splits)
  then have "canonical_dict (dput ''trace_analysis'' t d) \<noteq> []" by (simp add: canonical_dict_Nil)
  ultimately show ?thesis by (simp add: canonical_dict_def)
qed

lemma archive_of_session: "archive_of x = Inr a \<Longrightarrow> ac_session a = x"
  by (auto simp: archive_of_def bindE_Inr_iff Let_def)

lemma archive_stage_keeps:
  assumes "working co tn task i v h" and "tp_ingestion_id p = i"
  shows "keeps (ingest_inv co tn) (archive_stage co p)
    (\<lambda>a h'. \<exists>u. traced co h' i u \<and> archive_of (canonical u) = Inr a) h"
  unfolding archive_stage_def assms(2)
proof (rule previous_then [OF assms(1)], rule keeps_lifted)
  fix x ref h1 a
  assume w1: "working co tn task i v h1" and r: "result_ok co h1 i ''trace_analyze'' ref" "get_session co ref (hist_now h1) = Inr x"
    and a: "archive_of x = Inr a"
  have co: "codec_ok co" using w1 by (simp add: working_def)
  from r(1) obtain u where u: "traced co h1 i u" "has_object (hist_now h1) ref (session_doc co u)"
    by (auto simp: result_ok_def)
  with r(2) have "x = canonical u" using get_session_of_doc [OF co u(2)] by simp
  with u(1) a show "\<exists>u. traced co h1 i u \<and> archive_of (canonical u) = Inr a" by blast
qed

lemma archive_write_Inr:
  assumes "archive_write co p a content ref digest s = Inr (u, s')"
  shows "grows s s'" and "refs_ok tn s \<Longrightarrow> refs_ok tn s'" and "is_tasks s' = is_tasks s"
    and "r \<in> set (is_stages s') \<Longrightarrow> r \<in> set (is_stages s) \<or> sg_ingestion_id r = tp_ingestion_id p \<and> sg_stage r = ''archive''"
    and "q \<in> set (is_sessions s') \<Longrightarrow> q \<in> set (is_sessions s) \<or> ss_session_id q = ''session_'' @ tp_ingestion_id p \<and>
      ss_ingestion_id q = tp_ingestion_id p \<and> ss_decision q = ac_decision a \<and> ss_content_ref q = ref"
proof -
  from assms obtain meta time w1 s1 w2 s2 where
      w: "write_session (session_row_of co p a ref digest meta time) s = Inr (w1, s1)"
    and r: "record_stage (tp_ingestion_id p) ''archive'' StSucceeded ref [(''decision'', PStr (ac_decision a))] '''' s1 = Inr (w2, s2)"
    and s': "s' = snd (set_ingestion_status (tp_ingestion_id p) (if ac_decision a = ''skipped'' then IgSkipped else IgArchived) s2)"
    unfolding archive_write_def Let_def by (auto simp: bindE_Inr_iff)
  note ws = write_session_Inr(1-4) [OF w] and rs = record_stage_Inr(1-4) [OF r]
  have "grows s s2" by (rule grows_same) (simp_all add: ws rs)
  then show "grows s s'" unfolding s' using set_status_grows grows_trans by blast
  show "refs_ok tn s \<Longrightarrow> refs_ok tn s'" unfolding s' by (rule set_status_refs) (simp add: refs_ok_def ws rs)
  show "is_tasks s' = is_tasks s" by (simp add: s' ws rs)
  show "r \<in> set (is_stages s) \<or> sg_ingestion_id r = tp_ingestion_id p \<and> sg_stage r = ''archive''" if "r \<in> set (is_stages s')"
    using record_stage_Inr(5) [OF r, of r] that by (auto simp: s' ws)
  show "q \<in> set (is_sessions s) \<or> ss_session_id q = ''session_'' @ tp_ingestion_id p \<and>
      ss_ingestion_id q = tp_ingestion_id p \<and> ss_decision q = ac_decision a \<and> ss_content_ref q = ref"
    if "q \<in> set (is_sessions s')"
    using write_session_Inr(5) [OF w, of q] that by (auto simp: s' rs session_row_of_def)
qed

lemma archive_write_keeps:
  assumes "working co tn task i v h" and "tp_ingestion_id p = i" and "traced co h i x" and "archive_of (canonical x) = Inr a"
    and "Saw s \<in> set (hist_past h)" and "missing_stages i s = []" and "has_object (hist_now h) ref (session_doc co (canonical x))"
  shows "keeps (ingest_inv co tn) (transact (archive_write co p a content ref digest)) (\<lambda>_ _. True) h"
proof (rule transact_keeps)
  fix h' u s'
  assume l: "later (ingest_inv co tn) h h'" and b: "archive_write co p a content ref digest (hist_now h') = Inr (u, s')"
  have inv': "ingest_inv co tn h'" using l by (simp add: later_def)
  note wr = archive_write_Inr [OF b, unfolded assms(2)]
  have le: "hle h (see s' h')"
    using later_hle [OF working_inv [OF assms(1)] l] hle_see [OF wr(1)] grows_trans by (auto simp: hle_def)
  have past: "Saw s \<in> set (hist_past (see s' h'))" using le assms(5) by (auto simp: hle_def)
  note tr = traced_mono [OF assms(3) le] and ob = hle_objects [OF le assms(7)]
  have "session_ok co (see s' h') q"
    if q: "ss_session_id q = ''session_'' @ i" "ss_ingestion_id q = i" "ss_decision q = ac_decision a" "ss_content_ref q = ref" for q
    unfolding session_ok_def q
  proof (intro conjI)
    show "''session_'' @ i = ''session_'' @ i" by (rule refl)
    show "\<exists>s. Saw s \<in> set (hist_past (see s' h')) \<and> missing_stages i s = []" using past assms(6) by blast
    show "\<exists>v a'. traced co (see s' h') i v \<and> archive_of (canonical v) = Inr a' \<and> ac_decision a = ac_decision a' \<and>
        has_object (hist_now (see s' h')) ref (session_doc co (canonical v))"
      using tr assms(4) ob by (intro exI conjI) (rule tr, rule assms(4), rule refl, rule ob)
  qed
  moreover have "stage_ok co (see s' h') r" if "sg_stage r = ''archive''" for r
    by (simp add: stage_ok_def result_ok_def that)
  moreover have "refs_ok tn s'" using inv' wr(2) by (simp add: ingest_inv_def)
  ultimately show "ingest_inv co tn (see s' h') \<and> True"
    using inv_see [OF inv' wr(1)] wr(3-5) by metis
qed

lemma archive_keeps:
  assumes "working co tn task i v h"
  shows "keeps (ingest_inv co tn) (handle_archive co tn task) (\<lambda>_ _. True) h"
  unfolding handle_archive_def Let_def
proof (rule load_then [OF assms], rule session_then, assumption,
    rule bind_then [OF _ fetch_keeps [where Q = "\<lambda>x h'. \<exists>s. Saw s \<in> set (hist_past h') \<and> x = missing_stages i s"]],
    assumption, goal_cases)
  case (1 p h1 h2 h3 x)
  then show ?case by (auto simp: see_def)
next
  case (2 p h1 h2 missing h3)
  then obtain s where s: "Saw s \<in> set (hist_past h3)" "missing = missing_stages i s" by blast
  have p: "tp_ingestion_id p = i" and w3: "working co tn task i v h3" using 2 by simp_all
  show ?case
  proof (cases "missing = []")
    case False
    then show ?thesis by (auto intro!: record_then(2) [OF w3] keeps_Ret)
  next
    case True
    have "keeps (ingest_inv co tn) (ptry (archive_stage co p)
         (\<lambda>a. pbind (transact (put_session co i ''archive'' (py_or (ac_session a) (canonical v)))) (\<lambda>(ref, digest).
            pbind (transact (archive_write co p a (py_or (ac_session a) (canonical v)) ref digest)) (\<lambda>_. Ret (result_succeed ref))))
         (retry_after task ''archive'' ''archive_failed'')) (\<lambda>_ _. True) h3"
    proof (rule try_then [OF w3 archive_stage_keeps [OF w3 p]], goal_cases)
      case (1 a h4)
      then obtain x where x: "traced co h4 i x" "archive_of (canonical x) = Inr a" by blast
      have c: "py_or (ac_session a) (canonical v) = canonical x"
        using traced_is_nonempty [OF x(1)] archive_of_session [OF x(2)] by auto
      show ?case
        unfolding c
      proof (rule put_then [OF 1(2)], unfold prod.case)
        fix ref digest h5
        assume w5: "working co tn task i v h5" and le: "hle h4 h5" and o: "has_object (hist_now h5) ref (session_doc co (canonical x))"
        have "Saw s \<in> set (hist_past h5)" using s(1) 1(3) le by (auto simp: hle_def)
        moreover have "missing_stages i s = []" using True s(2) by simp
        ultimately have wk: "keeps (ingest_inv co tn) (transact (archive_write co p a (canonical x) ref digest)) (\<lambda>_ _. True) h5"
          using archive_write_keeps [OF w5 p traced_mono [OF x(1) le] x(2) _ _ o] by blast
        show "keeps (ingest_inv co tn) (pbind (transact (archive_write co p a (canonical x) ref digest)) (\<lambda>_. Ret (result_succeed ref)))
            (\<lambda>_ _. True) h5"
          by (rule bind_then [OF w5 wk]) (rule keeps_Ret, rule TrueI)
      qed
    next
      case (2 e h4)
      then show ?case using retry_keeps working_inv by blast
    qed
    with True p show ?thesis by simp
  qed
qed

section \<open>Pulling\<close>

lemma inv_bind:
  assumes "ingest_inv co tn h" and "keeps (ingest_inv co tn) p P h"
    and "\<And>x h'. P x h' \<Longrightarrow> ingest_inv co tn h' \<Longrightarrow> keeps (ingest_inv co tn) (g x) Q h'"
  shows "keeps (ingest_inv co tn) (pbind p g) Q h"
  by (rule keeps_seq [OF assms(2)]) (use assms hle_following in blast)

lemma put_any_keeps: "keeps (ingest_inv co tn) (transact (put_session co i stage v)) (\<lambda>_ _. True) h"
  by (rule keeps_weaken [OF put_keeps]) simp

lemma ask_any_keeps: "keeps (ingest_inv co tn) (ask q) (\<lambda>_ _. True) h"
  by (rule ask_keeps) simp

lemma fetch_any_keeps: "keeps (ingest_inv co tn) (fetch f) (\<lambda>_ _. True) h"
  by (rule fetch_keeps) simp

lemma pull_item_keeps:
  assumes "ingest_inv co tn h"
  shows "keeps (ingest_inv co tn) (pull_item co tn p item c) (\<lambda>_ _. True) h"
proof -
  have child: "keeps (ingest_inv co tn) (pbind (transact (put_session co j ''raw'' v)) (\<lambda>_.
      pbind (accept_child co tn (pull_child co tn p external d) d) (\<lambda>new. Ret (f new)))) (\<lambda>_ _. True) h"
    for j v external d and f :: "bool \<Rightarrow> pull_counts"
  proof (rule inv_bind [OF assms put_any_keeps], rule inv_bind, assumption, rule accept_child_keeps)
    show "tp_payload_ref (pull_child co tn p external d) = payload_ref_of tn (dashed (tp_ingestion_id (pull_child co tn p external d)))"
      by (simp add: pull_child_def Let_def)
  qed (auto intro: keeps_Ret)
  show ?thesis
    unfolding pull_item_def Let_def
    by (rule lift_then) (auto intro!: lift_then child split: pyval.splits)
qed

lemma pull_items_keep:
  "ingest_inv co tn h \<Longrightarrow> keeps (ingest_inv co tn) (pull_items co tn p filters fuel k c) (\<lambda>_ _. True) h"
proof (induction fuel arbitrary: k c h)
  case (Suc fuel)
  have "keeps (ingest_inv co tn) (if item = PNone then Ret c
      else pbind (pull_item co tn p item c) (\<lambda>c'. pull_items co tn p filters fuel (Suc k) c')) (\<lambda>_ _. True) h'"
    if "ingest_inv co tn h'" for item h'
  proof (cases "item = PNone")
    case False
    have "keeps (ingest_inv co tn) (pbind (pull_item co tn p item c) (\<lambda>c'. pull_items co tn p filters fuel (Suc k) c')) (\<lambda>_ _. True) h'"
      by (rule inv_bind [OF that pull_item_keeps [OF that]]) (rule Suc.IH)
    with False show ?thesis by simp
  qed simp
  then show ?case by (auto intro!: inv_bind [OF Suc.prems ask_any_keeps])
qed simp

lemma pull_keeps:
  assumes "working co tn task i v h"
  shows "keeps (ingest_inv co tn) (handle_pull co tn b fuel task) (\<lambda>_ _. True) h"
proof -
  have all: "keeps (ingest_inv co tn) (pull_all co tn p fuel) (\<lambda>_ _. True) h'" if "ingest_inv co tn h'" for p h'
    unfolding pull_all_def by (rule lift_then) (rule pull_items_keep [OF that])
  have put: "keeps (ingest_inv co tn) (pbind (transact (put_session co j stage x)) (\<lambda>(ref, _). Ret (result_succeed ref))) (\<lambda>_ _. True) h'"
    if "ingest_inv co tn h'" for j stage x h'
    by (rule inv_bind [OF that put_any_keeps]) (auto intro: keeps_Ret)
  have test: "keeps (ingest_inv co tn) (pbind (ask q) (\<lambda>(_, result).
      pbind (transact (put_session co j ''adapter-test'' result)) (\<lambda>(ref, _). Ret (result_succeed ref)))) (\<lambda>_ _. True) h'"
    if "ingest_inv co tn h'" for q j h'
    by (rule inv_bind [OF that ask_any_keeps]) (auto intro: put)
  have rest: "keeps (ingest_inv co tn) (ptry (pull_all co tn p fuel)
      (\<lambda>counts. pbind (transact (put_session co j stage (counts_dict counts))) (\<lambda>(ref, _). Ret (result_succeed ref)))
      (\<lambda>e. Ret (f e))) (\<lambda>_ _. True) h'"
    if "ingest_inv co tn h'" for p j stage f h'
    by (rule keeps_try [OF all [OF that]], rule put) (use hle_following [OF that] in \<open>auto intro: keeps_Ret\<close>)
  show ?thesis
  proof (cases b)
    case True
    have "keeps (ingest_inv co tn) (pbind (load_payload co task) (\<lambda>p.
        pbind (fetch (\<lambda>s. Inr (get_adapter_version (tp_adapter_id p) (tp_adapter_revision p) s))) (\<lambda>version.
        case version of
          None \<Rightarrow> Ret (result_fail ''pull_adapter_revision_not_found'')
        | Some v \<Rightarrow>
            if dget_or (tp_pull p) ''operation'' (PStr ''pull'') \<noteq> PStr ''pull''
            then pbind (ask (AskAdapterTest (av_source v) (tp_pull p))) (\<lambda>(_, result).
                 pbind (transact (put_session co (tp_ingestion_id p) ''adapter-test'' result)) (\<lambda>(ref, _).
                   Ret (result_succeed ref)))
            else ptry (pull_all co tn p fuel)
                   (\<lambda>counts. pbind (transact (put_session co (tp_ingestion_id p) ''pull-result'' (counts_dict counts)))
                     (\<lambda>(ref, _). Ret (result_succeed ref)))
                   (\<lambda>e. Ret (result_retry (''pull_failed:'' @ error_name e) 0))))) (\<lambda>_ _. True) h"
    proof (rule load_then [OF assms], rule inv_bind [OF working_inv fetch_any_keeps], assumption)
      fix p h1 and x and h2 :: ingest_history
      assume inv: "ingest_inv co tn h2"
      show "keeps (ingest_inv co tn) (case x of
          None \<Rightarrow> Ret (result_fail ''pull_adapter_revision_not_found'')
        | Some v \<Rightarrow>
            if dget_or (tp_pull p) ''operation'' (PStr ''pull'') \<noteq> PStr ''pull''
            then pbind (ask (AskAdapterTest (av_source v) (tp_pull p))) (\<lambda>(_, result).
                 pbind (transact (put_session co (tp_ingestion_id p) ''adapter-test'' result)) (\<lambda>(ref, _).
                   Ret (result_succeed ref)))
            else ptry (pull_all co tn p fuel)
                   (\<lambda>counts. pbind (transact (put_session co (tp_ingestion_id p) ''pull-result'' (counts_dict counts)))
                     (\<lambda>(ref, _). Ret (result_succeed ref)))
                   (\<lambda>e. Ret (result_retry (''pull_failed:'' @ error_name e) 0))) (\<lambda>_ _. True) h2"
        using test [OF inv] rest [OF inv] by (cases x) (simp_all)
    qed
    with True show ?thesis by (simp add: handle_pull_def)
  qed (simp add: handle_pull_def)
qed

section \<open>Submissions\<close>

lemma dashed_hex: "hex_id s \<Longrightarrow> dashed s = s"
  by (induction s) (auto simp: hex_id_def dashed_def py_replace_char_def)

lemma accept_write_see:
  assumes "ingest_inv co tn h" and "accept_write co tn sb p (hist_now h) = Inr (x, s)"
    and "hex_id (sb_ingestion_id sb)" and "p = submission_payload co tn sb config"
    and "has_object (hist_now h) (tp_payload_ref p) (payload_doc co p v)"
  shows "ingest_inv co tn (see s h)"
proof -
  let ?a = "submission_request co sb p"
  let ?e = "stage_request tn (sb_kind sb) p (tp_payload_ref p) (tp_payload_hash p) ''''"
  have ids: "tp_ingestion_id p = sb_ingestion_id sb" "ar_ingestion_id ?a = sb_ingestion_id sb"
    "ar_payload_ref ?a = tp_payload_ref p" "eq_payload_ref ?e = tp_payload_ref p"
    "tp_payload_ref p = payload_ref_of tn (sb_ingestion_id sb)"
    by (simp_all add: assms(4) submission_payload_def submission_request_def stage_request_def)
  have ref: "ar_payload_ref ?a = payload_ref_of tn (dashed (ar_ingestion_id ?a))"
    using ids dashed_hex [OF assms(3)] by simp
  from assms(2) obtain j s1 where a: "accept_ingestion co ?a (hist_now h) = Inr (j, s1)"
    and rest: "j \<noteq> sb_ingestion_id sb \<and> s = s1 \<or> j = sb_ingestion_id sb \<and> (\<exists>u. queue_task tn ?e s1 = Inr (u, s))"
    unfolding accept_write_def by (auto simp: bindE_Inr_iff split: if_splits)
  note seen = accept_and_queue_see [OF assms(1) a ref]
  from rest show ?thesis
  proof (elim disjE conjE exE)
    assume "s = s1"
    then show ?thesis using seen(1) by simp
  next
    fix u assume j: "j = sb_ingestion_id sb" and q: "queue_task tn ?e s1 = Inr (u, s)"
    show ?thesis by (rule seen(2) [of p v ?e u s]) (use ids j q assms(5) in simp_all)
  qed
qed

lemma submission_keeps:
  assumes "ingest_inv co tn h" and "hex_id (sb_ingestion_id sb)"
  shows "keeps (ingest_inv co tn) (accept_submission co tn sb) (\<lambda>_ _. True) h"
  unfolding accept_submission_def Let_def
proof (rule inv_bind [OF assms(1) fetch_any_keeps], rule inv_bind, assumption, rule put_payload_keeps, rule transact_keeps)
  fix config h1 u h2 h3 x s
  let ?p = "submission_payload co tn sb config"
  assume o: "has_object (hist_now h2) (tp_payload_ref ?p) (payload_doc co ?p (sb_session sb))" and i2: "ingest_inv co tn h2"
    and l: "later (ingest_inv co tn) h2 h3" and b: "accept_write co tn sb ?p (hist_now h3) = Inr (x, s)"
  have "hle h2 h3" "ingest_inv co tn h3" using later_hle [OF i2 l] by simp_all
  with o accept_write_see [OF _ b assms(2) refl] show "ingest_inv co tn (see s h3) \<and> True" using hle_objects by blast
qed

section \<open>The system\<close>

lemma claimed_fields [simp]:
  "ct_payload_ref (claimed_of w r) = wt_payload_ref r"
  "ct_kind (claimed_of w r) = wt_kind r"
  by (simp_all add: claimed_of_def)

lemma handler_keeps:
  assumes "working co tn task i v h" and "handler_of co tn fuel task = Some p"
  shows "keeps (ingest_inv co tn) p (\<lambda>_ _. True) h"
  using assms(2) pull_keeps [OF assms(1)] normalize_keeps [OF assms(1)] split_keeps [OF assms(1)]
    analyze_keeps [OF assms(1)] archive_keeps [OF assms(1)]
  by (auto simp: handler_of_def Let_def split: if_splits)

lemma task_works:
  assumes "codec_ok co" and "ingest_inv co tn h" and "r \<in> set (is_tasks (hist_now h))" and "wt_kind r \<in> set session_kinds"
  shows "\<exists>i v. working co tn (claimed_of w r) i v h"
proof -
  have "task_ok co (hist_now h) r" using assms(2,3) by (simp add: ingest_inv_def)
  with assms(4) obtain g p v where g: "g \<in> set (is_ingestions (hist_now h))" "ig_id g = tp_ingestion_id p"
    "ig_payload_ref g = wt_payload_ref r" "has_object (hist_now h) (wt_payload_ref r) (payload_doc co p v)"
    unfolding task_ok_def by blast
  have "job co (hist_now h) (claimed_of w r) (tp_ingestion_id p) v"
    unfolding job_def claimed_fields by (rule bexI [OF _ g(1)]) (use g in blast)
  with assms(1,2) show ?thesis unfolding working_def by blast
qed

lemma launch_keeps:
  assumes "codec_ok co" and "ingest_inv co tn h" and "ingest_launch co tn j (hist_now h) = Some p"
  shows "keeps (ingest_inv co tn) p (\<lambda>_ _. True) h"
proof -
  have sub: "keeps (ingest_inv co tn) (pbind (accept_submission co tn sb) (\<lambda>a. Ret (Accepted a))) (\<lambda>_ _. True) h"
    if "hex_id (sb_ingestion_id sb)" for sb
    by (rule inv_bind [OF assms(2) submission_keeps [OF assms(2) that]]) (auto intro: keeps_Ret)
  show ?thesis
  proof (cases j)
    case (SubmitPush fresh external user account session time)
    with assms(3) sub [of "push_of fresh external user account session time"] show ?thesis
      by (simp add: ingest_launch_def push_of_def split: if_splits)
  next
    case (SubmitPull fresh account filters adapter revision)
    with assms(3) sub [of "pull_of fresh account filters adapter revision"] show ?thesis
      by (simp add: ingest_launch_def pull_of_def split: if_splits)
  next
    case (Attempt tid fuel)
    with assms(3) obtain r q where "find (\<lambda>r. wt_task_id r = tid \<and> wt_kind r \<in> set session_kinds) (is_tasks (hist_now h)) = Some r"
      and q: "handler_of co tn fuel (claimed_of ''worker'' r) = Some q" "p = pbind q (\<lambda>x. Ret (Handled x))"
      by (auto simp: ingest_launch_def split: option.splits)
    then have r: "r \<in> set (is_tasks (hist_now h))" "wt_kind r \<in> set session_kinds" by (auto dest!: find_Some_mem)
    from task_works [OF assms(1,2) r] obtain i v where w: "working co tn (claimed_of ''worker'' r) i v h" by blast
    show ?thesis
      unfolding q(2) by (rule inv_bind [OF assms(2) handler_keeps [OF w q(1)]]) (auto intro: keeps_Ret)
  qed
qed

lemma same_job_task_ok: "same_job r r' \<Longrightarrow> task_ok co s r \<Longrightarrow> task_ok co s r'"
  by (simp add: same_job_def task_ok_def)

lemma outside_see:
  assumes "ingest_inv co tn h" and "is_objects s = is_objects (hist_now h)" and "is_ingestions s = is_ingestions (hist_now h)"
    and "is_stages s = is_stages (hist_now h)" and "is_sessions s = is_sessions (hist_now h)"
    and "\<And>r. r \<in> set (is_tasks s) \<Longrightarrow> r \<in> set (is_tasks (hist_now h)) \<or> task_ok co s r"
  shows "ingest_inv co tn (see s h)"
proof -
  have "refs_ok tn s" using assms(1,3) by (simp add: ingest_inv_def refs_ok_def)
  with inv_see [OF assms(1) grows_same [OF assms(2,3)]] assms(4-6) show ?thesis by simp
qed

lemma adapters_untouched:
  "save_source co adapter source kind tags s = Inr (x, s') \<Longrightarrow> is_objects s' = is_objects s \<and> is_ingestions s' = is_ingestions s \<and>
     is_stages s' = is_stages s \<and> is_sessions s' = is_sessions s \<and> is_tasks s' = is_tasks s"
  "bind_adapter key adapter revision s = Inr (u, s') \<Longrightarrow> is_objects s' = is_objects s \<and> is_ingestions s' = is_ingestions s \<and>
     is_stages s' = is_stages s \<and> is_sessions s' = is_sessions s \<and> is_tasks s' = is_tasks s"
  by (auto simp: save_source_def bind_adapter_def ensure_adapter_def insert_adapter_version_def Let_def bindE_Inr_iff split: if_splits option.splits)

lemma outside_keeps:
  assumes "ingest_inv co tn h" and "ingest_outside co tn v (hist_now h) = Some s"
  shows "ingest_inv co tn (see s h)"
proof (cases v)
  case (QueueState t)
  with assms(2) have t: "list_all2 same_job (is_tasks (hist_now h)) t" "s = hist_now h\<lparr>is_tasks := t\<rparr>"
    by (auto simp: ingest_outside_def split: if_splits)
  have "task_ok co s r" if "r \<in> set (is_tasks s)" for r
  proof -
    from that t obtain r0 where r0: "r0 \<in> set (is_tasks (hist_now h))" "same_job r0 r"
      by (auto simp: in_set_conv_nth list_all2_conv_all_nth) (metis nth_mem)
    then have "task_ok co (hist_now h) r0" using assms(1) by (simp add: ingest_inv_def)
    then have "task_ok co s r0" by (rule task_mono) (rule grows_same, simp_all add: t(2))
    with r0(2) show ?thesis by (rule same_job_task_ok)
  qed
  then show ?thesis by (intro outside_see [OF assms(1)]) (simp_all add: t(2))
next
  case (OtherTask e)
  with assms(2) obtain x t where e: "eq_kind e \<notin> set session_kinds"
      "enqueue tn (is_now (hist_now h)) e (is_tasks (hist_now h)) = Inr (x, t)" "s = hist_now h\<lparr>is_tasks := t\<rparr>"
    by (auto simp: ingest_outside_def split: if_splits sum.splits)
  then have q: "queue_task tn e (hist_now h) = Inr ((), s)" by (simp add: queue_task_def)
  have "r \<in> set (is_tasks (hist_now h)) \<or> task_ok co s r" if "r \<in> set (is_tasks s)" for r
    using queue_task_Inr(5) [OF q that] e(1) by (auto simp: task_ok_def)
  then show ?thesis by (intro outside_see [OF assms(1)]) (simp_all add: e(3))
next
  case (SaveAdapter adapter source kind)
  with assms(2) obtain x where "save_source co adapter source kind [] (hist_now h) = Inr (x, s)"
    by (auto simp: ingest_outside_def split: sum.splits)
  from adapters_untouched(1) [OF this] show ?thesis by (intro outside_see [OF assms(1)]) simp_all
next
  case (BindAdapter key adapter revision)
  with assms(2) obtain x where "bind_adapter key adapter revision (hist_now h) = Inr (x, s)"
    by (auto simp: ingest_outside_def split: sum.splits)
  from adapters_untouched(2) [OF this] show ?thesis by (intro outside_see [OF assms(1)]) simp_all
qed (use assms(2) in \<open>auto simp: ingest_outside_def split: if_splits intro!: outside_see [OF assms(1)]\<close>)

text \<open>
  The rule for pools on this system. A codec that is not one launches nothing here, so that the laws
  hold of the model as it is.
\<close>

definition guarded_launch :: "codec \<Rightarrow> string \<Rightarrow> ingest_job \<Rightarrow> istore \<Rightarrow> outcome iprog option" where
  "guarded_launch co tn j s = (if codec_ok co then ingest_launch co tn j s else None)"

interpretation ing: guarded_pool "guarded_launch co tn" "ingest_outside co tn" "ingest_inv co tn" "\<lambda>_ _. True" for co tn
proof
  fix h j p
  assume "ingest_inv co tn h" and "guarded_launch co tn j (hist_now h) = Some p"
  then show "promises (ingest_inv co tn) p (\<lambda>_ _. True) (\<lambda>_ _. True) h"
    using launch_keeps by (auto simp: guarded_launch_def split: if_splits)
next
  fix h v s
  assume "ingest_inv co tn h" and "ingest_outside co tn v (hist_now h) = Some s"
  then show "ingest_inv co tn (see s h)" by (rule outside_keeps)
qed

lemma ingest_start: "ingest_inv co tn (History istore_empty [Saw istore_empty])"
  by (simp add: ingest_inv_def istore_empty_def refs_ok_def)

lemma ingest_run_inv:
  assumes "codec_ok co" and "ingest_run co tn evs = Some u"
  shows "ingest_inv co tn (History (po_store u) (po_trace u))"
proof -
  have "guarded_launch co tn = ingest_launch co tn" using assms(1) by (simp add: guarded_launch_def fun_eq_iff)
  then show ?thesis using ing.run_invariant [OF _ ingest_start] assms(2) by (simp add: ingest_run_def)
qed

end
