(* ===== verification/IngestPipeline.thy ===== *)
theory IngestPipeline imports IngestSafety begin

text \<open>
  A session that is left alone is archived: its submission and the attempts on its four tasks, one after the
  other and with services that answer, end with the formal session, from any store that has not seen
  its identifiers.
\<close>

section \<open>Jobs one after the other\<close>

fun run_jobs :: "codec \<Rightarrow> string \<Rightarrow> (service \<Rightarrow> pyexc + pyval \<times> pyval) \<Rightarrow> ingest_job list \<Rightarrow> istore \<Rightarrow> (istore \<times> outcome list) option" where
  "run_jobs co tn ans [] s = Some (s, [])"
| "run_jobs co tn ans (j # js) s =
     (case ingest_launch co tn j s of
        None \<Rightarrow> None
      | Some p \<Rightarrow>
          (case alone p ans s of
             (Inl e, s') \<Rightarrow> None
           | (Inr x, s') \<Rightarrow> map_option (\<lambda>(s2, xs). (s2, x # xs)) (run_jobs co tn ans js s')))"

text \<open>It is one of the runs of the system.\<close>

lemma drain_is_run:
  "run_jobs co tn ans js s = Some (s', xs) \<Longrightarrow>
   \<exists>evs u. pool_run (ingest_launch co tn) (ingest_outside co tn) evs \<lparr>po_store = s, po_trace = tr, po_running = ps\<rparr> = Some u \<and>
     po_store u = s' \<and> po_running u = ps @ map Ret xs"
proof (induction js arbitrary: s tr ps xs)
  case Nil
  then show ?case by (intro exI [of _ "[]"]) simp
next
  case (Cons j js)
  from Cons.prems obtain p x s1 ys where p: "ingest_launch co tn j s = Some p" "alone p ans s = (Inr x, s1)"
    "run_jobs co tn ans js s1 = Some (s', ys)" "xs = x # ys" by (auto split: option.splits prod.splits sum.splits)
  from alone_is_run [of "ingest_launch co tn" "ingest_outside co tn" s tr ps p ans] p(2) obtain evs u where
    r: "pool_run (ingest_launch co tn) (ingest_outside co tn) evs \<lparr>po_store = s, po_trace = tr, po_running = ps @ [p]\<rparr> = Some u"
    "po_store u = s1" "po_running u = ps @ [Ret x]" by auto
  obtain tr' where u: "u = \<lparr>po_store = s1, po_trace = tr', po_running = ps @ [Ret x]\<rparr>" using r(2,3) by (cases u) simp
  from Cons.IH [OF p(3), of tr' "ps @ [Ret x]"] obtain evs' u' where
    "pool_run (ingest_launch co tn) (ingest_outside co tn) evs' u = Some u'" "po_store u' = s'"
    "po_running u' = ps @ map Ret xs" by (auto simp: u p(4))
  with r(1) p(1) show ?case
    by (intro exI [of _ "Start j # evs @ evs'"] exI [of _ u']) (simp add: pool_run_append)
qed

section \<open>Statements on a store that has not seen the row\<close>

definition free_stage :: "codec \<Rightarrow> string \<Rightarrow> string \<Rightarrow> istore \<Rightarrow> bool" where
  "free_stage co i stage s \<longleftrightarrow>
     (\<forall>ref\<in>fst ` set (is_objects s). \<forall>h. ref \<noteq> ''session/'' @ co_sha co i @ ''/'' @ stage @ ''/'' @ h)"

definition free_task :: "string \<Rightarrow> string \<Rightarrow> istore \<Rightarrow> bool" where
  "free_task i kind s \<longleftrightarrow> (\<forall>r\<in>set (is_tasks s). wt_task_id r \<noteq> i @ '':'' @ kind \<and> wt_dedupe_key r \<noteq> i @ '':'' @ kind)"

lemma free_stage_ref: "free_stage co i stage s \<Longrightarrow> session_ref co i stage v \<notin> fst ` set (is_objects s)"
  unfolding free_stage_def session_ref_def by blast

lemma find_last_only: "(\<And>x. x \<in> set xs \<Longrightarrow> \<not> P x) \<Longrightarrow> P y \<Longrightarrow> find P (xs @ [y]) = Some y"
  by (induction xs) auto

lemma put_session_free:
  assumes "free_stage co i stage s"
  shows "put_session co i stage v s = Inr ((session_ref co i stage v, session_payload_hash co v),
    s\<lparr>is_objects := is_objects s @ [(session_ref co i stage v, session_doc co v)]\<rparr>)"
proof -
  have "session_ref co i stage v \<notin> fst ` set (is_objects s)"
    using assms by (rule free_stage_ref)
  then have "map_of (is_objects s) (session_ref co i stage v) = None" by (simp add: map_of_eq_None_iff)
  then show ?thesis
    by (simp add: put_session_def Let_def put_document_def put_once_def session_doc_def)
qed

lemma queue_task_free:
  assumes "free_task (tp_ingestion_id p) kind s" and "dedupe_index_ok (is_tasks s)" and "tn \<noteq> ''''"
  shows "queue_task tn (stage_request tn kind p ref hash trace) s =
    Inr ((), s\<lparr>is_tasks := is_tasks s @ [new_task_row (is_now s) (stage_request tn kind p ref hash trace)]\<rparr>)"
    and "dedupe_index_ok (is_tasks s @ [new_task_row (is_now s) (stage_request tn kind p ref hash trace)])"
proof -
  let ?e = "stage_request tn kind p ref hash trace"
  have "find (\<lambda>r. rls_visible tn (wt_tenant_id r) \<and> wt_kind r = eq_kind ?e \<and>
      wt_dedupe_key r = eq_dedupe_key ?e \<and> wt_status r \<notin> set terminal_states) (is_tasks s) = None"
    using assms(1) by (auto simp: find_None_iff free_task_def stage_request_def)
  then have look: "enqueue_dedupe_lookup tn ?e (is_tasks s) = None" by (simp add: enqueue_dedupe_lookup_def)
  show ix: "dedupe_index_ok (is_tasks s @ [new_task_row (is_now s) ?e])"
    using assms(1,2) by (auto simp: dedupe_index_ok_def free_task_def stage_request_def new_task_row_def)
  have "task_key (new_task_row (is_now s) ?e) \<notin> task_key ` set (is_tasks s)"
    using assms(1) by (auto simp: free_task_def stage_request_def new_task_row_def)
  with look ix assms(3) show "queue_task tn ?e s =
      Inr ((), s\<lparr>is_tasks := is_tasks s @ [new_task_row (is_now s) ?e]\<rparr>)"
    by (simp add: queue_task_def enqueue_def tasks_insert_def rls_visible_def)
      (simp add: new_task_row_def stage_request_def)
qed

text \<open>The rows of an ingestion by stage, status and reference, and the upsert of one of them.\<close>

definition marks :: "string \<Rightarrow> istore \<Rightarrow> (string \<times> stage_status \<times> string) list" where
  "marks i s = map (\<lambda>r. (sg_stage r, sg_status r, sg_result_ref r)) (stage_results i s)"

definition mark :: "string \<times> stage_status \<times> string \<Rightarrow> (string \<times> stage_status \<times> string) list \<Rightarrow>
    (string \<times> stage_status \<times> string) list" where
  "mark m ms = (if fst m \<in> fst ` set ms then upd_where (\<lambda>x. fst x = fst m) (\<lambda>_. m) ms else ms @ [m])"

lemma marks_eq: "marks i s = map (\<lambda>r. (sg_stage r, sg_status r, sg_result_ref r)) (filter (\<lambda>r. sg_ingestion_id r = i) (is_stages s))"
  by (simp add: marks_def stage_results_def)

lemma record_stage_marks:
  assumes "i \<in> ig_id ` set (is_ingestions s)" and "stage \<in> set mandatory_stages"
  obtains rows where "record_stage i stage st ref detail code s = Inr ((), s\<lparr>is_stages := rows\<rparr>)"
    and "marks i (s\<lparr>is_stages := rows\<rparr>) = mark (stage, st, ref) (marks i s)"
proof -
  let ?row = "\<lparr>sg_ingestion_id = i, sg_stage = stage, sg_status = st, sg_result_ref = ref, sg_detail = detail,
    sg_error_code = code, sg_updated_at = is_now s\<rparr>"
  let ?same = "\<lambda>r. sg_ingestion_id r = i \<and> sg_stage r = stage"
  let ?rows = "if \<exists>r\<in>set (is_stages s). ?same r then upd_where ?same (\<lambda>_. ?row) (is_stages s) else is_stages s @ [?row]"
  have known: "stage \<in> fst ` set (marks i s) \<longleftrightarrow> (\<exists>r\<in>set (is_stages s). ?same r)"
    unfolding marks_eq by force
  have "map (\<lambda>r. (sg_stage r, sg_status r, sg_result_ref r)) (filter (\<lambda>r. sg_ingestion_id r = i) (upd_where ?same (\<lambda>_. ?row) t)) =
      upd_where (\<lambda>x. fst x = stage) (\<lambda>_. (stage, st, ref))
        (map (\<lambda>r. (sg_stage r, sg_status r, sg_result_ref r)) (filter (\<lambda>r. sg_ingestion_id r = i) t))" for t
    by (induction t) (auto simp: upd_where_def)
  with known have "marks i (s\<lparr>is_stages := ?rows\<rparr>) = mark (stage, st, ref) (marks i s)"
    by (simp add: mark_def marks_eq) blast
  moreover have "record_stage i stage st ref detail code s = Inr ((), s\<lparr>is_stages := ?rows\<rparr>)"
    using assms by (simp add: record_stage_def Let_def)
  ultimately show ?thesis using that by blast
qed

lemma stage_ref_marks:
  "stage_ref i stage s = Inr (case find (\<lambda>(a, b, c). a = stage \<and> b = StSucceeded) (marks i s) of None \<Rightarrow> '''' | Some (a, b, c) \<Rightarrow> c)"
proof -
  have "(case find (\<lambda>r. sg_ingestion_id r = i \<and> sg_stage r = stage \<and> sg_status r = StSucceeded) t of
        None \<Rightarrow> '''' | Some r \<Rightarrow> sg_result_ref r) =
      (case find (\<lambda>(a, b, c). a = stage \<and> b = StSucceeded)
          (map (\<lambda>r. (sg_stage r, sg_status r, sg_result_ref r)) (filter (\<lambda>r. sg_ingestion_id r = i) t)) of
        None \<Rightarrow> '''' | Some (a, b, c) \<Rightarrow> c)" for t
    by (induction t) auto
  note eq = this
  show ?thesis unfolding stage_ref_def marks_eq eq [symmetric] by (simp split: option.splits)
qed

lemma saved_plan_marks: "''split'' \<notin> fst ` set (marks i s) \<Longrightarrow> saved_plan i s = Inr None"
  by (auto simp: saved_plan_def marks_def find_None_iff image_iff)

lemma missing_stages_marks:
  "missing_stages i s = sort (filter (\<lambda>x. x \<noteq> ''archive'' \<and> (\<forall>ref. (x, StSucceeded, ref) \<notin> set (marks i s))) mandatory_stages)"
  unfolding missing_stages_def
  by (rule arg_cong [where f = sort], rule filter_cong) (force simp: succeeded_stages_def marks_eq)+

section \<open>Progress of one session\<close>

text \<open>
  What is in the store (stage marks, objects) and what is not yet there (results of later stages, later tasks).
\<close>

definition progress ::
  "codec \<Rightarrow> task_payload \<Rightarrow> (string \<times> stage_status \<times> string) list \<Rightarrow> (string \<times> string) list \<Rightarrow> string list \<Rightarrow>
   string list \<Rightarrow> string \<Rightarrow> istore \<Rightarrow> bool" where
  "progress co p ms objs stages kinds q s \<longleftrightarrow>
     (let i = tp_ingestion_id p in
      i \<in> ig_id ` set (is_ingestions s) \<and> marks i s = ms \<and>
      (\<forall>(ref, raw)\<in>set objs. has_object s ref raw) \<and> (\<forall>st\<in>set stages. free_stage co i st s) \<and>
      (\<forall>k\<in>set kinds. free_task i k s) \<and> dedupe_index_ok (is_tasks s) \<and>
      (\<forall>r\<in>set (is_sessions s). ss_session_id r \<noteq> ''session_'' @ i) \<and>
      (\<exists>r. find (\<lambda>r. wt_task_id r = i @ '':'' @ q \<and> wt_kind r \<in> set session_kinds) (is_tasks s) = Some r \<and>
         wt_kind r = q \<and> wt_payload_ref r = tp_payload_ref p))"

definition no_clash :: "string \<Rightarrow> string list \<Rightarrow> bool" where
  "no_clash st stages \<longleftrightarrow> (\<forall>st'\<in>set stages. \<forall>h h'. st @ ''/'' @ h \<noteq> st' @ ''/'' @ h')"

lemma put_progress:
  assumes "progress co p ms objs (st # stages) kinds q s" and "no_clash st stages"
  obtains s' where "alone (transact (put_session co (tp_ingestion_id p) st v)) ans s =
      (Inr (session_ref co (tp_ingestion_id p) st v, session_payload_hash co v), s')"
    and "progress co p ms ((session_ref co (tp_ingestion_id p) st v, session_doc co v) # objs) stages kinds q s'"
proof
  let ?i = "tp_ingestion_id p"
  let ?s = "s\<lparr>is_objects := is_objects s @ [(session_ref co ?i st v, session_doc co v)]\<rparr>"
  have free: "free_stage co ?i st s" using assms(1) by (simp add: progress_def Let_def)
  show "alone (transact (put_session co ?i st v)) ans s = (Inr (session_ref co ?i st v, session_payload_hash co v), ?s)"
    by (simp add: alone_transact put_session_free [OF free])
  have new: "session_ref co ?i st v \<notin> fst ` set (is_objects s)" using free by (rule free_stage_ref)
  have "has_object ?s ref raw" if "has_object s ref raw" for ref raw
    using that by (simp add: has_object_def map_add_def)
  moreover have "has_object ?s (session_ref co ?i st v) (session_doc co v)"
    using new by (simp add: has_object_def map_add_def map_of_eq_None_iff [THEN iffD2])
  moreover have "free_stage co ?i st' ?s" if "st' \<in> set stages" "free_stage co ?i st' s" for st'
    using that assms(2) by (auto simp: free_stage_def session_ref_def no_clash_def)
  moreover have "free_task ?i k ?s = free_task ?i k s" "marks ?i ?s = marks ?i s" for k
    by (simp_all add: free_task_def marks_eq)
  ultimately show "progress co p ms ((session_ref co ?i st v, session_doc co v) # objs) stages kinds q ?s"
    using assms(1) by (auto simp: progress_def Let_def)
qed

lemma progress_stages:
  assumes "progress co p ms objs stages kinds q s" and "marks (tp_ingestion_id p) s' = ms'"
    and "ig_id ` set (is_ingestions s') = ig_id ` set (is_ingestions s)" and "is_objects s' = is_objects s"
    and "is_tasks s' = is_tasks s" and "is_sessions s' = is_sessions s"
  shows "progress co p ms' objs stages kinds q s'"
  using assms by (auto simp: progress_def Let_def has_object_def free_stage_def free_task_def)

lemma set_status_ids [simp]: "ig_id ` set (is_ingestions (snd (set_ingestion_status i st s))) = ig_id ` set (is_ingestions s)"
proof -
  have "map ig_id (is_ingestions (snd (set_ingestion_status i st s))) = map ig_id (is_ingestions s)"
    by (simp add: set_ingestion_status_def upd_where_def)
  then show ?thesis by (metis list.set_map)
qed

lemma marks_status [simp]: "marks i (snd (set_ingestion_status j st s)) = marks i s"
  by (simp add: marks_eq)

lemma record_progress:
  assumes "progress co p ms objs stages kinds q s" and "stage \<in> set mandatory_stages"
  shows "\<exists>s'. alone (record_only (tp_ingestion_id p) stage st ref detail code) ans s = (Inr (), s') \<and>
      progress co p (mark (stage, st, ref) ms) objs stages kinds q s'"
    and "\<exists>s'. alone (record_and_set (tp_ingestion_id p) stage st ref detail code ist) ans s = (Inr (), s') \<and>
      progress co p (mark (stage, st, ref) ms) objs stages kinds q s'"
proof -
  let ?i = "tp_ingestion_id p"
  have i: "?i \<in> ig_id ` set (is_ingestions s)" and ms: "marks ?i s = ms" using assms(1) by (simp_all add: progress_def Let_def)
  obtain rows where r: "record_stage ?i stage st ref detail code s = Inr ((), s\<lparr>is_stages := rows\<rparr>)"
    "marks ?i (s\<lparr>is_stages := rows\<rparr>) = mark (stage, st, ref) (marks ?i s)"
    using record_stage_marks [OF i assms(2)] by blast
  let ?s = "s\<lparr>is_stages := rows\<rparr>"
  let ?s2 = "snd (set_ingestion_status ?i ist ?s)"
  have "alone (record_only ?i stage st ref detail code) ans s = (Inr (), ?s)"
    by (simp add: record_only_def alone_transact r(1))
  moreover have "progress co p (mark (stage, st, ref) ms) objs stages kinds q ?s"
    by (rule progress_stages [OF assms(1)]) (simp_all add: r(2) ms)
  ultimately show "\<exists>s'. alone (record_only ?i stage st ref detail code) ans s = (Inr (), s') \<and>
      progress co p (mark (stage, st, ref) ms) objs stages kinds q s'" by blast
  have "alone (record_and_set ?i stage st ref detail code ist) ans s = (Inr (), ?s2)"
    by (simp add: record_and_set_def alone_transact r(1))
  moreover have "progress co p (mark (stage, st, ref) ms) objs stages kinds q ?s2"
    by (rule progress_stages [OF assms(1)]) (simp_all add: r(2) ms)
  ultimately show "\<exists>s'. alone (record_and_set ?i stage st ref detail code ist) ans s = (Inr (), s') \<and>
      progress co p (mark (stage, st, ref) ms) objs stages kinds q s'" by blast
qed

lemma mandatory [simp]: "''normalize'' \<in> set mandatory_stages" "''split'' \<in> set mandatory_stages"
  "''analyze'' \<in> set mandatory_stages" "''trace_analyze'' \<in> set mandatory_stages" "''archive'' \<in> set mandatory_stages"
  by (simp_all add: mandatory_stages_def)

lemma queue_progress:
  assumes "progress co p ms objs stages (k # kinds) q s" and "tn \<noteq> ''''" and "k \<in> set session_kinds" and "k \<notin> set kinds"
    and "ct_payload_ref task = tp_payload_ref p"
  obtains s' where "alone (enqueue_next tn task k p) ans s = (Inr (), s')" and "progress co p ms objs stages kinds k s'"
proof
  let ?i = "tp_ingestion_id p"
  let ?row = "new_task_row (is_now s) (stage_request tn k p (ct_payload_ref task) (ct_payload_hash task) (ct_trace_id task))"
  let ?s = "s\<lparr>is_tasks := is_tasks s @ [?row]\<rparr>"
  have f: "free_task ?i k s" "dedupe_index_ok (is_tasks s)" using assms(1) by (simp_all add: progress_def Let_def)
  note q = queue_task_free [OF f assms(2)]
  show "alone (enqueue_next tn task k p) ans s = (Inr (), ?s)" by (simp add: enqueue_next_def alone_transact q)
  have row: "wt_task_id ?row = ?i @ '':'' @ k" "wt_dedupe_key ?row = ?i @ '':'' @ k" "wt_kind ?row = k"
    "wt_payload_ref ?row = tp_payload_ref p" by (simp_all add: new_task_row_def stage_request_def assms(5))
  have "find (\<lambda>r. wt_task_id r = ?i @ '':'' @ k \<and> wt_kind r \<in> set session_kinds) (is_tasks s @ [?row]) = Some ?row"
    using f(1) row assms(3) by (intro find_last_only) (auto simp: free_task_def)
  moreover have "free_task ?i k' ?s" if "free_task ?i k' s" "k' \<in> set kinds" for k'
    using that row assms(4) by (auto simp: free_task_def)
  moreover have "free_stage co ?i st ?s = free_stage co ?i st s" "marks ?i ?s = marks ?i s" "has_object ?s = has_object s" for st
    by (auto simp: free_stage_def marks_eq has_object_def fun_eq_iff)
  ultimately show "progress co p ms objs stages kinds k ?s"
    using assms(1) q(2) row by (auto simp: progress_def Let_def)
qed

section \<open>The handlers\<close>

lemma alone_fetch [simp]: "alone (fetch f) ans s = (f s, s)"
  by (simp add: fetch_def alone_transact split: sum.splits) (simp add: bindE_def split: sum.splits)

definition my_job :: "codec \<Rightarrow> task_payload \<Rightarrow> pyval \<Rightarrow> claimed_task \<Rightarrow> bool" where
  "my_job co p v task \<longleftrightarrow> codec_ok co \<and> tp_pull p = [] \<and> ct_payload_ref task = tp_payload_ref p"

lemma reads_alone:
  assumes "my_job co p v task" and "progress co p ms objs stages kinds q s"
    and "(tp_payload_ref p, payload_doc co p v) \<in> set objs"
  shows "alone (load_payload co task) ans s = (Inr p, s)" and "get_session co (ct_payload_ref task) s = Inr (canonical v)"
proof -
  have o: "has_object s (ct_payload_ref task) (payload_doc co p v)" and co: "codec_ok co"
    using assms by (auto simp: my_job_def progress_def Let_def)
  have "p\<lparr>tp_pull := canonical_dict (tp_pull p)\<rparr> = p" using assms(1) by (simp add: my_job_def canonical_dict_def)
  then show "alone (load_payload co task) ans s = (Inr p, s)"
    by (simp add: load_payload_def alone_bind get_payload_of_doc [OF co o] payload_round_trip [OF co])
  show "get_session co (ct_payload_ref task) s = Inr (canonical v)" by (rule get_session_of_payload [OF co o])
qed

lemma previous_alone:
  assumes "codec_ok co" and "progress co p ms objs stages kinds q s"
    and "find (\<lambda>(a, b, c). a = stage \<and> b = StSucceeded) ms = Some (stage, StSucceeded, ref)" and "ref \<noteq> ''''"
    and "(ref, session_doc co u) \<in> set objs"
  shows "alone (previous co (tp_ingestion_id p) stage) ans s = (Inr (canonical u), s)"
proof -
  have "marks (tp_ingestion_id p) s = ms" "has_object s ref (session_doc co u)"
    using assms(2,5) by (auto simp: progress_def Let_def)
  then show ?thesis using assms(3,4)
    by (simp add: previous_def alone_bind stage_ref_marks get_session_of_doc [OF assms(1)])
qed

lemma session_ref_nonempty [simp]: "session_ref co i stage v \<noteq> ''''"
  by (simp add: session_ref_def)

lemma stages_distinct: "no_clash ''normalize'' [''split-plan'', ''analyze'', ''archive'']"
  "no_clash ''split-plan'' [''analyze'', ''archive'']" "no_clash ''analyze'' [''archive'']" "no_clash ''archive'' []"
  by (simp_all add: no_clash_def)

abbreviation result_ref :: "codec \<Rightarrow> task_payload \<Rightarrow> string \<Rightarrow> pyval \<Rightarrow> string" where
  "result_ref co p stage v \<equiv> session_ref co (tp_ingestion_id p) stage v"

abbreviation doc_of :: "codec \<Rightarrow> task_payload \<Rightarrow> string \<Rightarrow> pyval \<Rightarrow> string \<times> string" where
  "doc_of co p stage v \<equiv> (result_ref co p stage v, session_doc co v)"

lemma normalize_alone:
  assumes "my_job co p v task" and "tn \<noteq> ''''" and "normalize_stage (canonical v) = Inr (canonical v)"
    and "progress co p [] [(tp_payload_ref p, payload_doc co p v)] [''normalize'', ''split-plan'', ''analyze'', ''archive'']
      [''session.split'', ''session.analyze'', ''session.archive''] q s"
  obtains s' where "alone (handle_normalize co tn task) ans s = (Inr (result_succeed (result_ref co p ''normalize'' (canonical v))), s')"
    and "progress co p [(''normalize'', StSucceeded, result_ref co p ''normalize'' (canonical v))]
      [doc_of co p ''normalize'' (canonical v), (tp_payload_ref p, payload_doc co p v)]
      [''split-plan'', ''analyze'', ''archive''] [''session.analyze'', ''session.archive''] ''session.split'' s'"
proof -
  have ref: "ct_payload_ref task = tp_payload_ref p" using assms(1) by (simp add: my_job_def)
  obtain s1 where s1: "alone (transact (put_session co (tp_ingestion_id p) ''normalize'' (canonical v))) ans s =
      (Inr (result_ref co p ''normalize'' (canonical v), session_payload_hash co (canonical v)), s1)"
    "progress co p [] [doc_of co p ''normalize'' (canonical v), (tp_payload_ref p, payload_doc co p v)]
      [''split-plan'', ''analyze'', ''archive''] [''session.split'', ''session.analyze'', ''session.archive''] q s1"
    by (rule put_progress [OF assms(4) stages_distinct(1)])
  obtain s2 where s2: "alone (record_and_set (tp_ingestion_id p) ''normalize'' StSucceeded
      (result_ref co p ''normalize'' (canonical v)) [] '''' IgProcessing) ans s1 = (Inr (), s2)"
    "progress co p (mark (''normalize'', StSucceeded, result_ref co p ''normalize'' (canonical v)) [])
      [doc_of co p ''normalize'' (canonical v), (tp_payload_ref p, payload_doc co p v)]
      [''split-plan'', ''analyze'', ''archive''] [''session.split'', ''session.analyze'', ''session.archive''] q s2"
    using record_progress(2) [OF s1(2) mandatory(1)] by blast
  obtain s3 where s3: "alone (enqueue_next tn task ''session.split'' p) ans s2 = (Inr (), s3)"
    "progress co p (mark (''normalize'', StSucceeded, result_ref co p ''normalize'' (canonical v)) [])
      [doc_of co p ''normalize'' (canonical v), (tp_payload_ref p, payload_doc co p v)]
      [''split-plan'', ''analyze'', ''archive''] [''session.analyze'', ''session.archive''] ''session.split'' s3"
    by (rule queue_progress [OF s2(2) assms(2) _ _ ref]) (simp_all add: session_kinds_def)
  show ?thesis
  proof
    show "alone (handle_normalize co tn task) ans s = (Inr (result_succeed (result_ref co p ''normalize'' (canonical v))), s3)"
      by (simp add: handle_normalize_def alone_bind reads_alone [OF assms(1,4)] assms(3) s1(1) s2(1) s3(1))
  qed (use s3(2) in \<open>simp add: mark_def\<close>)
qed

lemma validated_one: "check_segment (PDict seg) = Inr seg' \<Longrightarrow> validated_segments (PList [PDict seg]) = Inr [seg] \<and> seg' = seg"
  by (auto simp: validated_segments_def check_segment_def split: if_splits pyval.splits list.splits)

lemma split_alone:
  assumes "my_job co p v task" and "tn \<noteq> ''''" and "is_dict (canonical v)"
    and "progress co p [(''normalize'', StSucceeded, result_ref co p ''normalize'' (canonical v))]
      [doc_of co p ''normalize'' (canonical v), (tp_payload_ref p, payload_doc co p v)]
      [''split-plan'', ''analyze'', ''archive''] [''session.analyze'', ''session.archive''] ''session.split'' s"
    and "ans (AskSplit (canonical v)) = Inr (w, PList [PDict seg])" and "check_segment (PDict seg) = Inr seg"
  obtains s' where
    "alone (handle_split co tn task) ans s = (Inr (result_succeed (result_ref co p ''split-plan'' (plan_document [seg]))), s')"
    and "progress co p [(''normalize'', StSucceeded, result_ref co p ''normalize'' (canonical v)),
        (''split'', StSucceeded, result_ref co p ''split-plan'' (plan_document [seg]))]
      [doc_of co p ''split-plan'' (plan_document [seg]), doc_of co p ''normalize'' (canonical v), (tp_payload_ref p, payload_doc co p v)]
      [''analyze'', ''archive''] [''session.archive''] ''session.analyze'' s'"
proof -
  let ?r = "result_ref co p ''split-plan'' (plan_document [seg])"
  let ?n = "(''normalize'', StSucceeded, result_ref co p ''normalize'' (canonical v))"
  have ref: "ct_payload_ref task = tp_payload_ref p" and co: "codec_ok co" using assms(1) by (simp_all add: my_job_def)
  have unplanned: "saved_plan (tp_ingestion_id p) s = Inr None"
    using assms(4) by (intro saved_plan_marks) (simp add: progress_def Let_def)
  have stage: "alone (split_stage co p (canonical v)) ans s = (Inr (PList [PDict seg]), s)"
    using previous_alone [OF co assms(4), of "''normalize''" "result_ref co p ''normalize'' (canonical v)" "canonical v" ans]
    by (simp add: split_stage_def assms(3,5) alone_bind canonical_idem)
  obtain s1 where s1: "alone (transact (put_session co (tp_ingestion_id p) ''split-plan'' (plan_document [seg]))) ans s =
      (Inr (?r, session_payload_hash co (plan_document [seg])), s1)"
    "progress co p [?n] [doc_of co p ''split-plan'' (plan_document [seg]), doc_of co p ''normalize'' (canonical v),
       (tp_payload_ref p, payload_doc co p v)] [''analyze'', ''archive''] [''session.analyze'', ''session.archive''] ''session.split'' s1"
    by (rule put_progress [OF assms(4) stages_distinct(2)])
  obtain s2 where s2: "alone (record_only (tp_ingestion_id p) ''split'' StPending ?r [(''segments'', PInt 1)] '''') ans s1 = (Inr (), s2)"
    "progress co p (mark (''split'', StPending, ?r) [?n]) [doc_of co p ''split-plan'' (plan_document [seg]),
       doc_of co p ''normalize'' (canonical v), (tp_payload_ref p, payload_doc co p v)]
       [''analyze'', ''archive''] [''session.analyze'', ''session.archive''] ''session.split'' s2"
    using record_progress(1) [OF s1(2) mandatory(2)] by blast
  obtain s3 where s3: "alone (record_and_set (tp_ingestion_id p) ''split'' StSucceeded ?r
       [(''segments'', PInt 1), (''split'', PBool False)] '''' IgProcessing) ans s2 = (Inr (), s3)"
    "progress co p (mark (''split'', StSucceeded, ?r) (mark (''split'', StPending, ?r) [?n]))
       [doc_of co p ''split-plan'' (plan_document [seg]),
       doc_of co p ''normalize'' (canonical v), (tp_payload_ref p, payload_doc co p v)]
       [''analyze'', ''archive''] [''session.analyze'', ''session.archive''] ''session.split'' s3"
    using record_progress(2) [OF s2(2) mandatory(2)] by blast
  obtain s4 where s4: "alone (enqueue_next tn task ''session.analyze'' p) ans s3 = (Inr (), s4)"
    "progress co p (mark (''split'', StSucceeded, ?r) (mark (''split'', StPending, ?r) [?n]))
       [doc_of co p ''split-plan'' (plan_document [seg]),
       doc_of co p ''normalize'' (canonical v), (tp_payload_ref p, payload_doc co p v)]
       [''analyze'', ''archive''] [''session.archive''] ''session.analyze'' s4"
    by (rule queue_progress [OF s3(2) assms(2) _ _ ref]) (simp_all add: session_kinds_def)
  have plan: "alone (load_or_create_plan co task p) ans s = (Inr ([seg], ?r), s2)"
    using validated_one [OF assms(6)] reads_alone(2) [OF assms(1,4)] stage s1(1) s2(1)
    by (simp add: load_or_create_plan_def create_plan_def alone_bind unplanned)
  show ?thesis
  proof
    show "alone (handle_split co tn task) ans s = (Inr (result_succeed ?r), s4)"
      by (simp add: handle_split_def alone_bind alone_try reads_alone [OF assms(1,4)] plan s3(1) s4(1) Let_def)
  qed (use s4(2) in \<open>simp add: mark_def upd_where_def\<close>)
qed

lemma analyze_input_plan: "analyze_input (canonical (plan_document [seg])) = Inr (canonical (PDict seg))"
proof -
  have "dget_none (as_dict (canonical (plan_document [seg]))) ''segments'' = PList [canonical (PDict seg)]"
    unfolding canonical_plan by (simp add: as_dict_def dget_or_def dget_canonical dict_ok_def)
  then show ?thesis by (simp add: analyze_input_def)
qed

lemma analyze_alone:
  assumes "my_job co p v task" and "tn \<noteq> ''''" and "is_dict (canonical v)"
    and "progress co p [(''normalize'', StSucceeded, n), (''split'', StSucceeded, result_ref co p ''split-plan'' (plan_document [seg]))]
      [doc_of co p ''split-plan'' (plan_document [seg]), nd, (tp_payload_ref p, payload_doc co p v)]
      [''analyze'', ''archive''] [''session.archive''] ''session.analyze'' s"
    and "ans (AskAnalyze (canonical (PDict seg))) = Inr (w, analysis)" and "py_get analysis ''decision'' = Inr decision"
    and "ans (AskTrace w) = Inr (PDict d, t)" and x: "x = PDict (dput ''trace_analysis'' t d)"
  obtains s' where
    "alone (handle_analyze co tn task) ans s = (Inr (result_succeed (result_ref co p ''analyze'' x)), s')"
    and "progress co p [(''normalize'', StSucceeded, n), (''split'', StSucceeded, result_ref co p ''split-plan'' (plan_document [seg])),
        (''analyze'', StSucceeded, ''''), (''trace_analyze'', StSucceeded, result_ref co p ''analyze'' x)]
      [doc_of co p ''analyze'' x, doc_of co p ''split-plan'' (plan_document [seg]), nd, (tp_payload_ref p, payload_doc co p v)]
      [''archive''] [] ''session.archive'' s'"
proof -
  let ?plan = "doc_of co p ''split-plan'' (plan_document [seg])"
  let ?objs = "[?plan, nd, (tp_payload_ref p, payload_doc co p v)]"
  let ?r = "result_ref co p ''analyze'' x"
  let ?ms = "[(''normalize'', StSucceeded, n), (''split'', StSucceeded, fst ?plan)]"
  have ref: "ct_payload_ref task = tp_payload_ref p" and co: "codec_ok co" using assms(1) by (simp_all add: my_job_def)
  have "alone (previous co (tp_ingestion_id p) ''split'') ans s = (Inr (canonical (plan_document [seg])), s)"
    by (rule previous_alone [OF co assms(4)], simp, simp, simp)
  then have stage: "alone (analyze_stage co p (canonical v)) ans s = (Inr (w, analysis), s)"
    by (simp add: analyze_stage_def alone_bind analyze_input_plan assms(3,5) del: canonical.simps)
  obtain s1 where s1: "alone (record_only (tp_ingestion_id p) ''analyze'' StSucceeded ''''
      [(''decision'', dget_or (as_dict analysis) ''decision'' (PStr ''''))] '''') ans s = (Inr (), s1)"
    "progress co p (mark (''analyze'', StSucceeded, '''') ?ms) ?objs [''analyze'', ''archive''] [''session.archive''] ''session.analyze'' s1"
    using record_progress(1) [OF assms(4) mandatory(3)] unfolding fst_conv by blast
  have trace: "alone (trace_stage w) ans s1 = (Inr x, s1)" by (simp add: trace_stage_def alone_bind assms(7) x)
  obtain s2 where s2: "alone (transact (put_session co (tp_ingestion_id p) ''analyze'' x)) ans s1 =
      (Inr (?r, session_payload_hash co x), s2)"
    "progress co p (mark (''analyze'', StSucceeded, '''') ?ms) (doc_of co p ''analyze'' x # ?objs) [''archive''] [''session.archive'']
      ''session.analyze'' s2"
    by (rule put_progress [OF s1(2) stages_distinct(3)])
  obtain s3 where s3: "alone (record_only (tp_ingestion_id p) ''trace_analyze'' StSucceeded ?r [] '''') ans s2 = (Inr (), s3)"
    "progress co p (mark (''trace_analyze'', StSucceeded, ?r) (mark (''analyze'', StSucceeded, '''') ?ms))
      (doc_of co p ''analyze'' x # ?objs) [''archive''] [''session.archive''] ''session.analyze'' s3"
    using record_progress(1) [OF s2(2) mandatory(4)] by blast
  obtain s4 where s4: "alone (enqueue_next tn task ''session.archive'' p) ans s3 = (Inr (), s4)"
    "progress co p (mark (''trace_analyze'', StSucceeded, ?r) (mark (''analyze'', StSucceeded, '''') ?ms))
      (doc_of co p ''analyze'' x # ?objs) [''archive''] [] ''session.archive'' s4"
    by (rule queue_progress [OF s3(2) assms(2) _ _ ref]) (simp_all add: session_kinds_def)
  show ?thesis
  proof
    show "alone (handle_analyze co tn task) ans s = (Inr (result_succeed ?r), s4)"
      using reads_alone [OF assms(1,4)] s1(1)
      by (simp add: handle_analyze_def alone_bind alone_try stage assms(6) trace s2(1) s3(1) s4(1) Let_def)
  qed (use s4(2) in \<open>simp add: mark_def\<close>)
qed

lemma archive_decision: "archive_of x = Inr a \<Longrightarrow> ac_decision a \<in> {''valuable'', ''skipped''}"
  by (auto simp: archive_of_def bindE_Inr_iff Let_def split: if_splits)

text \<open>The rows of the last transaction.\<close>

definition archived_as :: "codec \<Rightarrow> string \<Rightarrow> pyval \<Rightarrow> archived \<Rightarrow> istore \<Rightarrow> bool" where
  "archived_as co i x a s \<longleftrightarrow>
     (\<exists>r\<in>set (is_sessions s). ss_session_id r = ''session_'' @ i \<and> ss_ingestion_id r = i \<and> ss_decision r = ac_decision a \<and>
        get_session co (ss_content_ref r) s = Inr x) \<and>
     (\<forall>g\<in>set (is_ingestions s). ig_id g = i \<longrightarrow> ig_status g = (if ac_decision a = ''skipped'' then IgSkipped else IgArchived))"

lemma set_status_done:
  "g \<in> set (is_ingestions (snd (set_ingestion_status i st s))) \<Longrightarrow> ig_id g = i \<Longrightarrow> ig_status g = st"
proof -
  assume g: "g \<in> set (is_ingestions (snd (set_ingestion_status i st s)))" and i: "ig_id g = i"
  from g obtain g0 where g0: "g = (if ig_id g0 = i then g0\<lparr>ig_status := st, ig_updated_at := is_now s\<rparr> else g0)"
    unfolding set_ingestion_status_def by (simp add: set_upd_where) blast
  with i show ?thesis by (cases "ig_id g0 = i") simp_all
qed

lemma archive_alone:
  assumes "my_job co p v task"
    and "progress co p ms [doc_of co p ''analyze'' x, pd, nd, (tp_payload_ref p, payload_doc co p v)] [''archive''] [] q s"
    and ms: "ms = [(''normalize'', StSucceeded, n), (''split'', StSucceeded, sp), (''analyze'', StSucceeded, ''''),
      (''trace_analyze'', StSucceeded, result_ref co p ''analyze'' x)]"
    and "archive_of (canonical x) = Inr a" and "canonical x = PDict d" and "d \<noteq> []"
    and "session_list_meta d (ac_meta a) = Inr meta" and "business_time_of co (ac_business_time a) = Inr time"
  obtains s' where
    "alone (handle_archive co tn task) ans s = (Inr (result_succeed (result_ref co p ''archive'' (canonical x))), s')"
    and "archived_as co (tp_ingestion_id p) (canonical x) a s'"
proof -
  let ?i = "tp_ingestion_id p"
  let ?r = "result_ref co p ''archive'' (canonical x)"
  let ?h = "session_payload_hash co (canonical x)"
  let ?row = "session_row_of co p a ?r ?h meta time"
  have co: "codec_ok co" using assms(1) by (simp add: my_job_def)
  have "missing_stages ?i s = []"
    using assms(2) unfolding missing_stages_marks progress_def Let_def ms by (auto simp: mandatory_stages_def)
  note none = this
  have "alone (previous co ?i ''trace_analyze'') ans s = (Inr (canonical x), s)"
    by (rule previous_alone [OF co assms(2)], simp add: ms, simp, simp)
  then have stage: "alone (archive_stage co p) ans s = (Inr a, s)" by (simp add: archive_stage_def alone_bind assms(4))
  have content: "py_or (ac_session a) (canonical v) = canonical x" using archive_of_session [OF assms(4)] assms(5,6) by simp
  obtain s1 where s1: "alone (transact (put_session co ?i ''archive'' (canonical x))) ans s = (Inr (?r, ?h), s1)"
    "progress co p ms (doc_of co p ''archive'' (canonical x) # [doc_of co p ''analyze'' x, pd, nd, (tp_payload_ref p, payload_doc co p v)])
      [] [] q s1"
    by (rule put_progress [OF assms(2) stages_distinct(4)])
  let ?s2 = "s1\<lparr>is_sessions := is_sessions s1 @ [?row\<lparr>ss_ingested_at := is_now s1\<rparr>]\<rparr>"
  have written: "write_session ?row s1 = Inr ((), ?s2)"
    using s1(2) archive_decision [OF assms(4)]
    by (auto simp: write_session_def session_row_of_def progress_def Let_def)
  have i: "?i \<in> ig_id ` set (is_ingestions ?s2)" and o: "has_object s1 ?r (session_doc co (canonical x))"
    using s1(2) by (simp_all add: progress_def Let_def)
  obtain rows where rec: "record_stage ?i ''archive'' StSucceeded ?r [(''decision'', PStr (ac_decision a))] '''' ?s2 =
      Inr ((), ?s2\<lparr>is_stages := rows\<rparr>)"
    using record_stage_marks [OF i mandatory(5)] by blast
  let ?s3 = "snd (set_ingestion_status ?i (if ac_decision a = ''skipped'' then IgSkipped else IgArchived) (?s2\<lparr>is_stages := rows\<rparr>))"
  have dict: "as_dict (canonical x) = d" by (simp add: assms(5) as_dict_def)
  have last: "alone (transact (archive_write co p a (canonical x) ?r ?h)) ans s1 = (Inr (), ?s3)"
    by (simp add: alone_transact archive_write_def Let_def dict assms(7,8) written rec)
  show ?thesis
  proof
    show "alone (handle_archive co tn task) ans s = (Inr (result_succeed ?r), ?s3)"
      using reads_alone [OF assms(1,2)]
      by (simp add: handle_archive_def alone_bind alone_try stage none content s1(1) last Let_def)
    have got: "get_session co ?r ?s3 = Inr (canonical x)"
      using get_session_of_doc [OF co, of ?s3 ?r "canonical x"] o by (simp add: has_object_def canonical_idem)
    have new: "?row\<lparr>ss_ingested_at := is_now s1\<rparr> \<in> set (is_sessions ?s3)" by simp
    have "ss_session_id ?row = ''session_'' @ ?i \<and> ss_ingestion_id ?row = ?i \<and> ss_decision ?row = ac_decision a \<and> ss_content_ref ?row = ?r"
      by (simp add: session_row_of_def)
    with got have "\<exists>r\<in>set (is_sessions ?s3). ss_session_id r = ''session_'' @ ?i \<and> ss_ingestion_id r = ?i \<and>
        ss_decision r = ac_decision a \<and> get_session co (ss_content_ref r) ?s3 = Inr (canonical x)"
      by (intro bexI [OF _ new]) (simp del: set_status_simps)
    moreover have "\<forall>g\<in>set (is_ingestions ?s3). ig_id g = ?i \<longrightarrow>
        ig_status g = (if ac_decision a = ''skipped'' then IgSkipped else IgArchived)"
      using set_status_done by blast
    ultimately show "archived_as co ?i (canonical x) a ?s3"
      unfolding archived_as_def by (rule conjI)
  qed
qed

section \<open>The submission\<close>

text \<open>A store that has not seen the identifiers of a submission.\<close>

definition unseen :: "codec \<Rightarrow> string \<Rightarrow> string \<Rightarrow> string \<Rightarrow> istore \<Rightarrow> bool" where
  "unseen co tn i external s \<longleftrightarrow>
     i \<notin> ig_id ` set (is_ingestions s) \<and> ''push:'' @ external \<notin> ig_dedupe_key ` set (is_ingestions s) \<and>
     payload_ref_of tn i \<notin> fst ` set (is_objects s) \<and> marks i s = [] \<and>
     (\<forall>st\<in>{''normalize'', ''split-plan'', ''analyze'', ''archive''}. free_stage co i st s) \<and>
     (\<forall>k\<in>set session_kinds. free_task i k s) \<and> dedupe_index_ok (is_tasks s) \<and>
     (\<forall>r\<in>set (is_sessions s). ss_session_id r \<noteq> ''session_'' @ i)"

lemma submission_alone:
  assumes "unseen co tn i external s" and "tn \<noteq> ''''" and "business_time_of co time = Inr t"
    and sb: "sb = push_of i external user account v time" and p: "p = submission_payload co tn sb (is_config_revision s)"
  obtains s' a where "alone (accept_submission co tn sb) ans s = (Inr a, s')"
    and "progress co p [] [(tp_payload_ref p, payload_doc co p v)] [''normalize'', ''split-plan'', ''analyze'', ''archive'']
      [''session.split'', ''session.analyze'', ''session.archive''] ''session.normalize'' s'"
proof -
  let ?s1 = "s\<lparr>is_objects := is_objects s @ [(tp_payload_ref p, payload_doc co p v)]\<rparr>"
  let ?a = "submission_request co sb p"
  let ?s2 = "?s1\<lparr>is_ingestions := is_ingestions s @ [ingestion_of (is_now s) t ?a]\<rparr>"
  have ids: "tp_ingestion_id p = i" "tp_payload_ref p = payload_ref_of tn i" "ar_ingestion_id ?a = i" "sb_ingestion_id sb = i"
    "sb_kind sb = ''session.normalize''" "sb_session sb = v"
    by (simp_all add: p sb submission_payload_def submission_request_def push_of_def)
  have new: "payload_ref_of tn i \<notin> fst ` set (is_objects s)" using assms(1) by (simp add: unseen_def)
  then have "map_of (is_objects s) (tp_payload_ref p) = None" by (simp add: map_of_eq_None_iff ids)
  then have put: "put_payload_json co (tp_payload_ref p) (payload_to_json co p) v s = Inr ((), ?s1)"
    by (simp add: put_payload_json_def put_document_def put_once_def payload_doc_def)
  have key: "ar_dedupe_key ?a \<in> {'''', ''push:'' @ external}" "ar_source ?a = ''push''" "ar_business_time ?a = time"
    by (auto simp: submission_request_def sb push_of_def dedupe_key_of_def)
  with assms(1) have "ar_dedupe_key ?a = '''' \<or> ar_dedupe_key ?a \<notin> ig_dedupe_key ` set (is_ingestions s)"
    by (auto simp: unseen_def)
  then have look: "(if ar_dedupe_key ?a \<noteq> '''' then find (\<lambda>g. ig_dedupe_key g = ar_dedupe_key ?a) (is_ingestions s) else None) = None"
    and fresh: "\<not> (ar_dedupe_key ?a \<noteq> '''' \<and> ar_dedupe_key ?a \<in> ig_dedupe_key ` set (is_ingestions s))"
    by (auto simp: find_None_iff image_iff)
  have "i \<notin> ig_id ` set (is_ingestions s)" using assms(1) by (simp add: unseen_def)
  with fresh key(2) ids(3) have "insert_ingestion (ingestion_of (is_now s) t ?a) ?s1 = Inr ?s2"
    by (simp add: insert_ingestion_def ingestion_of_def)
  then have accept: "accept_ingestion co ?a ?s1 = Inr (i, ?s2)"
    using look by (cases "ar_dedupe_key ?a = ''''") (simp_all add: accept_ingestion_def key(3) assms(3) ids(3))
  have free: "free_task i k s" if "k \<in> set session_kinds" for k using assms(1) that by (simp add: unseen_def)
  have f: "free_task (tp_ingestion_id p) ''session.normalize'' ?s2" "dedupe_index_ok (is_tasks ?s2)"
    using free [of "''session.normalize''"] assms(1) by (simp_all add: free_task_def ids unseen_def session_kinds_def)
  let ?row = "new_task_row (is_now s) (stage_request tn ''session.normalize'' p (tp_payload_ref p) (tp_payload_hash p) '''')"
  let ?s3 = "?s2\<lparr>is_tasks := is_tasks s @ [?row]\<rparr>"
  have queue: "queue_task tn (stage_request tn ''session.normalize'' p (tp_payload_ref p) (tp_payload_hash p) '''') ?s2 = Inr ((), ?s3)"
    using queue_task_free(1) [OF f assms(2)] by simp
  have ix: "dedupe_index_ok (is_tasks ?s3)" using queue_task_free(2) [OF f assms(2)] by simp
  have row: "wt_task_id ?row = i @ '':session.normalize''" "wt_dedupe_key ?row = i @ '':session.normalize''"
    "wt_kind ?row = ''session.normalize''" "wt_payload_ref ?row = tp_payload_ref p"
    by (simp_all add: new_task_row_def stage_request_def ids)
  show ?thesis
  proof
    show "alone (accept_submission co tn sb) ans s =
        (Inr \<lparr>aj_ingestion_id = i, aj_job_id = i @ '':session.normalize'', aj_status = ''accepted'', aj_dedupe = False\<rparr>, ?s3)"
      by (simp add: accept_submission_def alone_bind alone_transact Let_def p [symmetric] ids(1,3-6) put accept_write_def accept queue)
    have "find (\<lambda>r. wt_task_id r = i @ '':session.normalize'' \<and> wt_kind r \<in> set session_kinds) (is_tasks s @ [?row]) = Some ?row"
      using free [of "''session.normalize''"] row
      by (intro find_last_only) (auto simp: free_task_def session_kinds_def)
    moreover have "has_object ?s3 (tp_payload_ref p) (payload_doc co p v)"
      using new by (simp add: has_object_def map_add_def ids map_of_eq_None_iff [THEN iffD2])
    moreover have "free_stage co i st ?s3" if "free_stage co i st s" for st
      using that by (auto simp: free_stage_def ids payload_ref_of_def)
    moreover have "free_task i k ?s3" if "k \<in> {''session.split'', ''session.analyze'', ''session.archive''}" for k
      using that free [of k] row by (auto simp: free_task_def session_kinds_def)
    moreover have "marks i ?s3 = []" using assms(1) by (simp add: marks_eq unseen_def)
    moreover have "i \<in> ig_id ` set (is_ingestions ?s3)" by (simp add: ingestion_of_def ids)
    ultimately show "progress co p [] [(tp_payload_ref p, payload_doc co p v)] [''normalize'', ''split-plan'', ''analyze'', ''archive'']
        [''session.split'', ''session.analyze'', ''session.archive''] ''session.normalize'' ?s3"
      using assms(1) ix row by (simp add: progress_def Let_def ids unseen_def)
  qed
qed

section \<open>The pipeline\<close>

lemma attempt_launch:
  assumes "progress co p ms objs stages kinds q s"
  obtains r where "ingest_launch co tn (Attempt (tp_ingestion_id p @ '':'' @ q) fuel) s =
      map_option (\<lambda>h. pbind h (\<lambda>x. Ret (Handled x))) (handler_of co tn fuel (claimed_of ''worker'' r))"
    and "ct_kind (claimed_of ''worker'' r) = q" and "ct_payload_ref (claimed_of ''worker'' r) = tp_payload_ref p"
proof -
  from assms obtain r where "find (\<lambda>r. wt_task_id r = tp_ingestion_id p @ '':'' @ q \<and> wt_kind r \<in> set session_kinds) (is_tasks s) = Some r"
      "wt_kind r = q" "wt_payload_ref r = tp_payload_ref p" by (auto simp: progress_def Let_def)
  then show ?thesis by (intro that [of r]) (simp_all add: ingest_launch_def)
qed

lemma drain_attempt:
  assumes "ingest_launch co tn j s = Some (pbind h (\<lambda>x. Ret (Handled x)))" and "alone h ans s = (Inr r, s1)"
    and "run_jobs co tn ans js s1 = Some (s', xs)"
  shows "run_jobs co tn ans (j # js) s = Some (s', Handled r # xs)"
  using assms by (simp add: alone_bind)

definition pipeline_jobs :: "string \<Rightarrow> ingest_job list" where
  "pipeline_jobs i = map (\<lambda>k. Attempt (i @ '':'' @ k) 0) [''session.normalize'', ''session.split'', ''session.analyze'', ''session.archive'']"

lemma pipeline_alone:
  assumes "codec_ok co" and "tn \<noteq> ''''" and "tp_pull p = []"
    and "normalize_stage (canonical v) = Inr (canonical v)" and "is_dict (canonical v)"
    and "ans (AskSplit (canonical v)) = Inr (w1, PList [PDict seg])" and "check_segment (PDict seg) = Inr seg"
    and "ans (AskAnalyze (canonical (PDict seg))) = Inr (w, analysis)" and "py_get analysis ''decision'' = Inr decision"
    and "ans (AskTrace w) = Inr (PDict d, t)" and "x = PDict (dput ''trace_analysis'' t d)"
    and "archive_of (canonical x) = Inr a" and "canonical x = PDict y" and "y \<noteq> []"
    and "session_list_meta y (ac_meta a) = Inr meta" and "business_time_of co (ac_business_time a) = Inr time"
    and "progress co p [] [(tp_payload_ref p, payload_doc co p v)] [''normalize'', ''split-plan'', ''analyze'', ''archive'']
      [''session.split'', ''session.analyze'', ''session.archive''] ''session.normalize'' s"
  shows "\<exists>s' xs. run_jobs co tn ans (pipeline_jobs (tp_ingestion_id p)) s = Some (s', xs) \<and>
    archived_as co (tp_ingestion_id p) (canonical x) a s'"
proof -
  have job: "my_job co p v (claimed_of ''worker'' r)" if "wt_payload_ref r = tp_payload_ref p" for r
    using that assms(1,3) by (simp add: my_job_def)
  obtain r1 where r1: "ingest_launch co tn (Attempt (tp_ingestion_id p @ '':session.normalize'') 0) s =
      Some (pbind (handle_normalize co tn (claimed_of ''worker'' r1)) (\<lambda>x. Ret (Handled x)))" "my_job co p v (claimed_of ''worker'' r1)"
    using attempt_launch [OF assms(17), of tn 0] job by (auto simp: handler_of_def)
  obtain s1 where s1: "alone (handle_normalize co tn (claimed_of ''worker'' r1)) ans s =
      (Inr (result_succeed (result_ref co p ''normalize'' (canonical v))), s1)"
    "progress co p [(''normalize'', StSucceeded, result_ref co p ''normalize'' (canonical v))]
      [doc_of co p ''normalize'' (canonical v), (tp_payload_ref p, payload_doc co p v)]
      [''split-plan'', ''analyze'', ''archive''] [''session.analyze'', ''session.archive''] ''session.split'' s1"
    by (rule normalize_alone [OF r1(2) assms(2,4,17)])
  obtain r2 where r2: "ingest_launch co tn (Attempt (tp_ingestion_id p @ '':session.split'') 0) s1 =
      Some (pbind (handle_split co tn (claimed_of ''worker'' r2)) (\<lambda>x. Ret (Handled x)))" "my_job co p v (claimed_of ''worker'' r2)"
    using attempt_launch [OF s1(2), of tn 0] job by (auto simp: handler_of_def)
  obtain s2 where s2: "alone (handle_split co tn (claimed_of ''worker'' r2)) ans s1 =
      (Inr (result_succeed (result_ref co p ''split-plan'' (plan_document [seg]))), s2)"
    "progress co p [(''normalize'', StSucceeded, result_ref co p ''normalize'' (canonical v)),
        (''split'', StSucceeded, result_ref co p ''split-plan'' (plan_document [seg]))]
      [doc_of co p ''split-plan'' (plan_document [seg]), doc_of co p ''normalize'' (canonical v), (tp_payload_ref p, payload_doc co p v)]
      [''analyze'', ''archive''] [''session.archive''] ''session.analyze'' s2"
    by (rule split_alone [where ans = ans, OF r2(2) assms(2,5) s1(2) assms(6,7)])
  obtain r3 where r3: "ingest_launch co tn (Attempt (tp_ingestion_id p @ '':session.analyze'') 0) s2 =
      Some (pbind (handle_analyze co tn (claimed_of ''worker'' r3)) (\<lambda>x. Ret (Handled x)))" "my_job co p v (claimed_of ''worker'' r3)"
    using attempt_launch [OF s2(2), of tn 0] job by (auto simp: handler_of_def)
  obtain s3 where s3: "alone (handle_analyze co tn (claimed_of ''worker'' r3)) ans s2 =
      (Inr (result_succeed (result_ref co p ''analyze'' x)), s3)"
    "progress co p [(''normalize'', StSucceeded, result_ref co p ''normalize'' (canonical v)),
        (''split'', StSucceeded, result_ref co p ''split-plan'' (plan_document [seg])),
        (''analyze'', StSucceeded, ''''), (''trace_analyze'', StSucceeded, result_ref co p ''analyze'' x)]
      [doc_of co p ''analyze'' x, doc_of co p ''split-plan'' (plan_document [seg]), doc_of co p ''normalize'' (canonical v),
        (tp_payload_ref p, payload_doc co p v)]
      [''archive''] [] ''session.archive'' s3"
    by (rule analyze_alone [where ans = ans, OF r3(2) assms(2,5) s2(2) assms(8-11)])
  obtain r4 where r4: "ingest_launch co tn (Attempt (tp_ingestion_id p @ '':session.archive'') 0) s3 =
      Some (pbind (handle_archive co tn (claimed_of ''worker'' r4)) (\<lambda>x. Ret (Handled x)))" "my_job co p v (claimed_of ''worker'' r4)"
    using attempt_launch [OF s3(2), of tn 0] job by (auto simp: handler_of_def)
  obtain s4 where s4: "alone (handle_archive co tn (claimed_of ''worker'' r4)) ans s3 =
      (Inr (result_succeed (result_ref co p ''archive'' (canonical x))), s4)"
    "archived_as co (tp_ingestion_id p) (canonical x) a s4"
    by (rule archive_alone [OF r4(2) s3(2) refl assms(12-16)])
  have "run_jobs co tn ans [] s4 = Some (s4, [])" by simp
  from drain_attempt [OF r4(1) s4(1) this] have "\<exists>xs. run_jobs co tn ans
      [Attempt (tp_ingestion_id p @ '':session.archive'') 0] s3 = Some (s4, xs)" by blast
  then show ?thesis
    using drain_attempt [OF r1(1) s1(1) drain_attempt [OF r2(1) s2(1) drain_attempt [OF r3(1) s3(1)]]] s4(2)
    unfolding pipeline_jobs_def list.map append.simps by blast
qed

lemma pushed_pipeline:
  assumes "codec_ok co" and "tn \<noteq> ''''" and "hex_id i" and "unseen co tn i external s"
    and "business_time_of co time = Inr bt"
    and "normalize_stage (canonical v) = Inr (canonical v)" and "is_dict (canonical v)"
    and "ans (AskSplit (canonical v)) = Inr (w1, PList [PDict seg])" and "check_segment (PDict seg) = Inr seg"
    and "ans (AskAnalyze (canonical (PDict seg))) = Inr (w, analysis)" and "py_get analysis ''decision'' = Inr decision"
    and "ans (AskTrace w) = Inr (PDict d, t)" and "x = PDict (dput ''trace_analysis'' t d)"
    and "archive_of (canonical x) = Inr a" and "canonical x = PDict y" and "y \<noteq> []"
    and "session_list_meta y (ac_meta a) = Inr meta" and "business_time_of co (ac_business_time a) = Inr time'"
  shows "\<exists>s' xs. run_jobs co tn ans (SubmitPush i external user account v time # pipeline_jobs i) s = Some (s', xs) \<and>
    archived_as co i (canonical x) a s'"
proof -
  let ?sb = "push_of i external user account v time"
  let ?p = "submission_payload co tn ?sb (is_config_revision s)"
  have p: "tp_ingestion_id ?p = i" "tp_pull ?p = []" by (simp_all add: submission_payload_def push_of_def)
  obtain s1 b where s1: "alone (accept_submission co tn ?sb) ans s = (Inr b, s1)"
    "progress co ?p [] [(tp_payload_ref ?p, payload_doc co ?p v)] [''normalize'', ''split-plan'', ''analyze'', ''archive'']
      [''session.split'', ''session.analyze'', ''session.archive''] ''session.normalize'' s1"
    by (rule submission_alone [where ans = ans, OF assms(4,2,5) refl refl])
  from pipeline_alone [where ans = ans, OF assms(1,2) p(2) assms(6-18) s1(2)] obtain s' xs where
    "run_jobs co tn ans (pipeline_jobs i) s1 = Some (s', xs)" "archived_as co i (canonical x) a s'" by (auto simp: p(1))
  then show ?thesis using s1(1) assms(3) by (simp add: ingest_launch_def alone_bind)
qed

end
