(* ===== verification/IngestAcceptance.thy ===== *)
theory IngestAcceptance imports IngestSafety TaskInvariants begin

text \<open>
  Acceptance is atomic: in every reached store each ingestion has the task that starts its work, no two
  ingestions share an identifier or a deduplication key, and the statements of the queue are changes the
  environment of the handlers may make. None of this depends on what a program has read, so it is proved
  transaction by transaction.
\<close>

section \<open>The invariant\<close>

definition first_kinds :: "string list" where
  "first_kinds = [''session.normalize'', ''session.pull'']"

definition has_work :: "tasks \<Rightarrow> string \<Rightarrow> bool" where
  "has_work t i \<longleftrightarrow> (\<exists>r\<in>set t. wt_kind r \<in> set first_kinds \<and> wt_subject_id r = i)"

definition named_jobs :: "tasks \<Rightarrow> bool" where
  "named_jobs t \<longleftrightarrow> (\<forall>r\<in>set t. wt_kind r \<in> set session_kinds \<longrightarrow> wt_dedupe_key r = wt_subject_id r @ '':'' @ wt_kind r)"

definition dedupe_keys :: "ingestion list \<Rightarrow> string list" where
  "dedupe_keys gs = filter (\<lambda>k. k \<noteq> '''') (map ig_dedupe_key gs)"

definition acceptance_ok :: "istore \<Rightarrow> bool" where
  "acceptance_ok s \<longleftrightarrow>
     (\<forall>i\<in>ig_id ` set (is_ingestions s). has_work (is_tasks s) i) \<and> named_jobs (is_tasks s) \<and>
     distinct (map ig_id (is_ingestions s)) \<and> distinct (dedupe_keys (is_ingestions s))"

definition ids_stay :: "istore \<Rightarrow> istore \<Rightarrow> bool" where
  "ids_stay s s' \<longleftrightarrow> ig_id ` set (is_ingestions s) \<subseteq> ig_id ` set (is_ingestions s')"

lemma ids_stay_order: "reflp ids_stay" "transp ids_stay"
  by (auto simp: ids_stay_def intro!: reflpI transpI)

abbreviation safe_tx :: "istore \<Rightarrow> istore \<Rightarrow> bool" where
  "safe_tx \<equiv> leads acceptance_ok ids_stay"

lemma safe_same:
  assumes "is_tasks s' = is_tasks s" and "map ig_id (is_ingestions s') = map ig_id (is_ingestions s)"
    and "map ig_dedupe_key (is_ingestions s') = map ig_dedupe_key (is_ingestions s)"
  shows "safe_tx s s'"
proof -
  have "ig_id ` set (is_ingestions s') = ig_id ` set (is_ingestions s)" using assms(2) by (metis list.set_map)
  then show ?thesis using assms by (simp add: acceptance_ok_def ids_stay_def dedupe_keys_def)
qed

lemma safe_trans: "safe_tx s t \<Longrightarrow> safe_tx t u \<Longrightarrow> safe_tx s u"
  by (auto simp: ids_stay_def)

lemma safe_status: "safe_tx s (snd (set_ingestion_status i st s))"
  by (rule safe_same) (auto simp: set_ingestion_status_def upd_where_def)

text \<open>A task that is queued, or deduplicated against one of the same job.\<close>

lemma queue_task_rows:
  assumes "queue_task tn e s = Inr (u, s')"
  shows "is_tasks s' = is_tasks s \<and> (\<exists>r\<in>set (is_tasks s). wt_kind r = eq_kind e \<and> wt_dedupe_key r = eq_dedupe_key e) \<or>
    is_tasks s' = is_tasks s @ [new_task_row (is_now s) e]"
  using assms
  by (auto simp: queue_task_def enqueue_def enqueue_dedupe_lookup_def tasks_insert_def bindE_Inr_iff
      split: sum.splits option.splits if_splits dest!: find_Some_mem)

lemma queue_task_works:
  assumes "queue_task tn e s = Inr (u, s')" and "named_jobs (is_tasks s)"
    and "eq_kind e \<in> set session_kinds \<longrightarrow> eq_dedupe_key e = eq_subject_id e @ '':'' @ eq_kind e"
  shows "named_jobs (is_tasks s')" and "has_work (is_tasks s) i \<Longrightarrow> has_work (is_tasks s') i"
    and "eq_kind e \<in> set first_kinds \<Longrightarrow> has_work (is_tasks s') (eq_subject_id e)"
proof -
  have new: "wt_kind (new_task_row (is_now s) e) = eq_kind e" "wt_subject_id (new_task_row (is_now s) e) = eq_subject_id e"
    "wt_dedupe_key (new_task_row (is_now s) e) = eq_dedupe_key e" by (simp_all add: new_task_row_def)
  note cases = queue_task_rows [OF assms(1)]
  show "named_jobs (is_tasks s')" using cases assms(2,3) new by (auto simp: named_jobs_def)
  show "has_work (is_tasks s') i" if "has_work (is_tasks s) i" using cases that by (auto simp: has_work_def)
  assume k: "eq_kind e \<in> set first_kinds"
  then have "eq_kind e \<in> set session_kinds" by (auto simp: first_kinds_def session_kinds_def)
  with assms(3) have d: "eq_dedupe_key e = eq_subject_id e @ '':'' @ eq_kind e" by simp
  from cases show "has_work (is_tasks s') (eq_subject_id e)"
  proof (elim disjE conjE bexE)
    fix r assume t: "is_tasks s' = is_tasks s" and r: "r \<in> set (is_tasks s)" "wt_kind r = eq_kind e" "wt_dedupe_key r = eq_dedupe_key e"
    with assms(2) \<open>eq_kind e \<in> set session_kinds\<close> have "wt_subject_id r = eq_subject_id e" by (auto simp: named_jobs_def d)
    with r(2) k show ?thesis unfolding has_work_def t by (intro bexI [OF _ r(1)]) simp
  next
    assume "is_tasks s' = is_tasks s @ [new_task_row (is_now s) e]"
    with k new show ?thesis by (auto simp: has_work_def)
  qed
qed

lemma queue_safe:
  assumes "queue_task tn e s = Inr (u, s')"
    and "eq_kind e \<in> set session_kinds \<longrightarrow> eq_dedupe_key e = eq_subject_id e @ '':'' @ eq_kind e"
  shows "safe_tx s s'"
proof
  assume ok: "acceptance_ok s"
  then have "named_jobs (is_tasks s)" by (simp add: acceptance_ok_def)
  note works = queue_task_works [OF assms(1) this assms(2)]
  show "acceptance_ok s' \<and> ids_stay s s'"
    using ok works(1,2) by (auto simp: acceptance_ok_def ids_stay_def queue_task_Inr(2) [OF assms(1)])
qed

lemma stage_request_named:
  "eq_dedupe_key (stage_request tn kind p ref hash trace) =
   eq_subject_id (stage_request tn kind p ref hash trace) @ '':'' @ eq_kind (stage_request tn kind p ref hash trace)"
  by (simp add: stage_request_def)

section \<open>Acceptance\<close>

text \<open>Either the ingestion of an earlier acceptance, or a new row.\<close>

lemma accept_ingestion_cases:
  assumes "accept_ingestion co a s = Inr (j, s1)"
  obtains (old) g where "s1 = s" "g \<in> set (is_ingestions s)" "ig_dedupe_key g = ar_dedupe_key a" "j = ig_id g"
  | (new) time where "j = ar_ingestion_id a" "s1 = s\<lparr>is_ingestions := is_ingestions s @ [ingestion_of (is_now s) time a]\<rparr>"
      "ar_ingestion_id a \<notin> ig_id ` set (is_ingestions s)"
      "ar_dedupe_key a = '''' \<or> ar_dedupe_key a \<notin> ig_dedupe_key ` set (is_ingestions s)"
proof (cases "if ar_dedupe_key a \<noteq> '''' then find (\<lambda>g. ig_dedupe_key g = ar_dedupe_key a) (is_ingestions s) else None")
  case None
  with assms obtain time where
    "insert_ingestion (ingestion_of (is_now s) time a) s = Inr s1" "j = ar_ingestion_id a"
    unfolding accept_ingestion_def None by (auto simp: bindE_Inr_iff)
  then show ?thesis by (intro new [of time]) (auto simp: insert_ingestion_def ingestion_of_def split: if_splits)
next
  case (Some g)
  with assms have "j = ig_id g" "s1 = s" unfolding accept_ingestion_def Some by auto
  with Some show ?thesis by (intro old [of g]) (auto split: if_splits dest!: find_Some_mem)
qed

text \<open>A new row is only left behind together with its task.\<close>

lemma accept_and_queue_safe:
  assumes "accept_ingestion co a s = Inr (j, s1)"
    and "j \<noteq> ar_ingestion_id a \<and> s' = s1 \<or> j = ar_ingestion_id a \<and> queue_task tn e s1 = Inr (u, s')"
    and "eq_subject_id e = ar_ingestion_id a" and "eq_dedupe_key e = eq_subject_id e @ '':'' @ eq_kind e"
    and "eq_kind e \<in> set first_kinds"
  shows "safe_tx s s'"
  using assms(1)
proof (cases rule: accept_ingestion_cases)
  case old
  with assms(2,4) queue_safe [of tn e s u s'] show ?thesis by (auto simp: ids_stay_def)
next
  case (new time)
  with assms(2) have q: "queue_task tn e s1 = Inr (u, s')" by auto
  show ?thesis
  proof
    assume ok: "acceptance_ok s"
    then have "named_jobs (is_tasks s1)" using new(2) by (simp add: acceptance_ok_def)
    note works = queue_task_works [OF q this]
    have gs: "is_ingestions s' = is_ingestions s @ [ingestion_of (is_now s) time a]"
      using queue_task_Inr(2) [OF q] new(2) by simp
    have "has_work (is_tasks s') i" if "i \<in> ig_id ` set (is_ingestions s')" for i
    proof (cases "i = ar_ingestion_id a")
      case True
      then show ?thesis using works(3) assms(3-5) by simp
    next
      case False
      with that have "i \<in> ig_id ` set (is_ingestions s)" by (auto simp: gs ingestion_of_def)
      with ok have "has_work (is_tasks s1) i" using new(2) by (auto simp: acceptance_ok_def)
      with works(2) assms(4) show ?thesis by simp
    qed
    moreover have "named_jobs (is_tasks s')" using works(1) assms(4) by simp
    ultimately show "acceptance_ok s' \<and> ids_stay s s'"
      using ok new(3,4) by (auto simp: acceptance_ok_def gs ingestion_of_def dedupe_keys_def ids_stay_def)
  qed
qed

section \<open>Every program\<close>

named_theorems safe

lemma fetch_safe [safe]: "every_tx safe_tx (fetch f)"
  unfolding fetch_def by (rule every_tx_transact) (auto simp: bindE_Inr_iff ids_stay_def)

lemma put_safe [safe]: "every_tx safe_tx (transact (put_session co i stage v))"
proof (rule every_tx_transact)
  fix s x s' assume p: "put_session co i stage v s = Inr (x, s')"
  obtain ref digest where x: "x = (ref, digest)" by (cases x)
  from put_session_Inr [OF p [unfolded x]] show "safe_tx s s'" by (intro safe_same) simp_all
qed (simp add: ids_stay_def)

lemma put_payload_safe [safe]: "every_tx safe_tx (transact (put_payload_json co ref raw v))"
proof (rule every_tx_transact)
  fix s u s' assume "put_payload_json co ref raw v s = Inr (u, s')"
  then have "put_once ref (co_dumps co (PDict [(''payload'', PStr raw), (''session'', v)])) s = Inr (u, s')"
    by (simp add: put_payload_json_def put_document_def)
  from put_once_Inr [OF this] show "safe_tx s s'" by (intro safe_same) simp_all
qed (simp add: ids_stay_def)

lemma record_stage_safe: "record_stage i stage st ref detail code s = Inr (u, s') \<Longrightarrow> safe_tx s s'"
  by (rule safe_same) (simp_all add: record_stage_Inr)

lemma record_safe [safe]:
  "every_tx safe_tx (record_only i stage st ref detail code)"
  "every_tx safe_tx (record_and_set i stage st ref detail code ist)"
proof -
  show "every_tx safe_tx (record_only i stage st ref detail code)"
    unfolding record_only_def by (rule every_tx_transact, erule record_stage_safe) (simp add: ids_stay_def)
  have "safe_tx s s'"
    if "bindE (record_stage i stage st ref detail code s) (\<lambda>(_, s1). Inr ((), snd (set_ingestion_status i ist s1))) = Inr (u, s')"
    for s u s'
  proof -
    from that obtain w s1 where "record_stage i stage st ref detail code s = Inr (w, s1)"
        "s' = snd (set_ingestion_status i ist s1)" by (auto simp: bindE_Inr_iff)
    then show ?thesis using safe_trans record_stage_safe safe_status by blast
  qed
  then show "every_tx safe_tx (record_and_set i stage st ref detail code ist)"
    unfolding record_and_set_def by (intro every_tx_transact) (simp_all add: ids_stay_def)
qed

lemma enqueue_next_safe [safe]: "every_tx safe_tx (enqueue_next tn task kind p)"
  unfolding enqueue_next_def
  by (rule every_tx_transact, rule queue_safe, assumption) (simp_all add: stage_request_named ids_stay_def)

lemma accept_child_safe [safe]: "every_tx safe_tx (accept_child co tn c session)"
  unfolding accept_child_def
proof (rule every_tx_bind [OF put_payload_safe], rule every_tx_transact)
  fix s b s'
  let ?a = "child_request c (dget_none session ''business_time'')"
  let ?e = "stage_request tn ''session.normalize'' c (tp_payload_ref c) (tp_payload_hash c) ''''"
  assume "bindE (accept_ingestion co ?a s) (\<lambda>(accepted, s1).
         if accepted \<noteq> tp_ingestion_id c then Inr (False, s1)
         else bindE (queue_task tn ?e s1) (\<lambda>(_, s2). Inr (True, s2))) = Inr (b, s')"
  then obtain j s1 u where a: "accept_ingestion co ?a s = Inr (j, s1)"
    and "j \<noteq> tp_ingestion_id c \<and> s' = s1 \<or> j = tp_ingestion_id c \<and> queue_task tn ?e s1 = Inr (u, s')"
    by (auto simp: bindE_Inr_iff split: if_splits)
  then show "safe_tx s s'"
    by (intro accept_and_queue_safe [OF a, where e = ?e])
      (simp_all add: child_request_def stage_request_def first_kinds_def)
qed (simp add: ids_stay_def)

lemma accept_write_safe:
  assumes "sb_kind sb \<in> set first_kinds" and "tp_ingestion_id p = sb_ingestion_id sb"
  shows "every_tx safe_tx (transact (accept_write co tn sb p))"
proof (rule every_tx_transact)
  fix s x s'
  let ?e = "stage_request tn (sb_kind sb) p (tp_payload_ref p) (tp_payload_hash p) ''''"
  assume "accept_write co tn sb p s = Inr (x, s')"
  then obtain j s1 u where a: "accept_ingestion co (submission_request co sb p) s = Inr (j, s1)"
    and "j \<noteq> sb_ingestion_id sb \<and> s' = s1 \<or> j = sb_ingestion_id sb \<and> queue_task tn ?e s1 = Inr (u, s')"
    unfolding accept_write_def by (auto simp: bindE_Inr_iff split: if_splits)
  then show "safe_tx s s'"
    using assms by (intro accept_and_queue_safe [OF a, where e = ?e]) (simp_all add: submission_request_def stage_request_def)
qed (simp add: ids_stay_def)

lemma archive_write_safe [safe]: "every_tx safe_tx (transact (archive_write co p a content ref digest))"
proof (rule every_tx_transact)
  fix s u s' assume "archive_write co p a content ref digest s = Inr (u, s')"
  then obtain x w1 s1 w2 s2 where w: "write_session x s = Inr (w1, s1)"
    and r: "record_stage (tp_ingestion_id p) ''archive'' StSucceeded ref [(''decision'', PStr (ac_decision a))] '''' s1 = Inr (w2, s2)"
    and s': "s' = snd (set_ingestion_status (tp_ingestion_id p) (if ac_decision a = ''skipped'' then IgSkipped else IgArchived) s2)"
    unfolding archive_write_def Let_def by (auto simp: bindE_Inr_iff)
  have "safe_tx s s1" by (rule safe_same) (simp_all add: write_session_Inr [OF w])
  with record_stage_safe [OF r] show "safe_tx s s'" unfolding s' using safe_trans safe_status by blast
qed (simp add: ids_stay_def)

lemma retry_after_safe [safe]: "every_tx safe_tx (retry_after task stage prefix e)"
  unfolding retry_after_def record_failed_def by (intro every_tx_bind every_tx_try safe) simp_all

lemma load_payload_safe [safe]: "every_tx safe_tx (load_payload co task)"
  unfolding load_payload_def by (intro every_tx_bind safe) simp

lemma previous_safe [safe]: "every_tx safe_tx (previous co i stage)"
  unfolding previous_def by (intro every_tx_bind safe) (simp add: safe)

lemma fan_out_safe [safe]: "every_tx safe_tx (fan_out co tn p xs ids)"
  by (induction co tn p xs ids rule: fan_out.induct) (simp_all add: Let_def every_tx_try safe)

lemma pull_items_safe [safe]: "every_tx safe_tx (pull_items co tn p filters fuel k c)"
proof (induction fuel arbitrary: k c)
  case (Suc fuel)
  have "every_tx safe_tx (pull_item co tn p item c)" for item c
    unfolding pull_item_def Let_def
    by (intro every_tx_bind every_tx_lift) (auto intro!: every_tx_bind safe split: pyval.splits)
  then show ?case using Suc by (auto intro!: every_tx_bind)
qed simp

lemma plan_safe [safe]: "every_tx safe_tx (load_or_create_plan co task p)"
proof -
  have create: "every_tx safe_tx (create_plan co task p)"
    unfolding create_plan_def split_stage_def
    by (intro every_tx_bind safe) (auto intro!: every_tx_bind safe split: prod.splits)
  then show ?thesis
    unfolding load_or_create_plan_def
    by (intro every_tx_bind safe) (auto intro!: every_tx_bind safe split: option.splits)
qed

lemma stages_safe [safe]:
  "every_tx safe_tx (analyze_stage co p session)"
  "every_tx safe_tx (trace_stage session)"
  "every_tx safe_tx (archive_stage co p)"
  unfolding analyze_stage_def trace_stage_def archive_stage_def
  by (auto intro!: every_tx_bind safe split: prod.splits pyval.splits)

lemma handlers_safe [safe]:
  "every_tx safe_tx (handle_pull co tn b fuel task)"
  "every_tx safe_tx (handle_normalize co tn task)"
  "every_tx safe_tx (handle_split co tn task)"
  "every_tx safe_tx (handle_analyze co tn task)"
  "every_tx safe_tx (handle_archive co tn task)"
proof -
  show "every_tx safe_tx (handle_pull co tn b fuel task)"
    unfolding handle_pull_def pull_all_def
    by (auto intro!: every_tx_bind every_tx_try safe split: option.splits prod.splits)
  show "every_tx safe_tx (handle_normalize co tn task)"
    unfolding handle_normalize_def by (auto intro!: every_tx_bind safe split: sum.splits prod.splits)
  show "every_tx safe_tx (handle_split co tn task)"
    unfolding handle_split_def Let_def
    by (auto intro!: every_tx_bind every_tx_try safe split: option.splits prod.splits)
  show "every_tx safe_tx (handle_analyze co tn task)"
    unfolding handle_analyze_def Let_def
    by (auto intro!: every_tx_bind every_tx_try safe split: sum.splits prod.splits)
  show "every_tx safe_tx (handle_archive co tn task)"
    unfolding handle_archive_def Let_def
    by (auto intro!: every_tx_bind every_tx_try safe split: prod.splits)
qed

section \<open>The system\<close>

abbreviation acceptance_inv :: "ingest_history \<Rightarrow> bool" where
  "acceptance_inv \<equiv> steady acceptance_ok ids_stay"

definition accepted_post :: "outcome \<Rightarrow> ingest_history \<Rightarrow> bool" where
  "accepted_post x h \<longleftrightarrow>
     (case x of
        Accepted a \<Rightarrow> \<exists>s. Saw s \<in> set (hist_past h) \<and> aj_ingestion_id a \<in> ig_id ` set (is_ingestions s)
      | Handled r \<Rightarrow> True)"

lemma accept_write_id:
  assumes "accept_write co tn sb p s = Inr (a, s')" and "tp_ingestion_id p = sb_ingestion_id sb"
  shows "aj_ingestion_id a \<in> ig_id ` set (is_ingestions s')"
proof -
  let ?e = "stage_request tn (sb_kind sb) p (tp_payload_ref p) (tp_payload_hash p) ''''"
  from assms(1) obtain j s1 where acc: "accept_ingestion co (submission_request co sb p) s = Inr (j, s1)"
    and rest: "j \<noteq> sb_ingestion_id sb \<and> s' = s1 \<and> aj_ingestion_id a = j \<or>
      j = sb_ingestion_id sb \<and> (\<exists>u. queue_task tn ?e s1 = Inr (u, s')) \<and> aj_ingestion_id a = j"
    unfolding accept_write_def by (auto simp: bindE_Inr_iff split: if_splits option.splits)
  from acc have "j \<in> ig_id ` set (is_ingestions s1)"
    by (cases rule: accept_ingestion_cases) (auto simp: ingestion_of_def)
  with rest show ?thesis by (auto simp: queue_task_Inr)
qed

lemma transact_leads:
  assumes "every_tx R (transact body)" and "body s = Inr (x, s')"
  shows "R s s'"
proof -
  from assms(1) have "R s (tx_effect body s)" by (simp add: transact_def)
  with assms(2) show ?thesis by (simp add: tx_effect_def)
qed

lemma submission_post:
  assumes "sb_kind sb \<in> set first_kinds"
  shows "keeps acceptance_inv (pbind (accept_submission co tn sb) (\<lambda>a. Ret (Accepted a))) accepted_post h"
  unfolding accept_submission_def Let_def
proof (rule keeps_seq, rule keeps_seq [OF every_tx_keeps [OF ids_stay_order fetch_safe]],
    rule keeps_seq [OF every_tx_keeps [OF ids_stay_order put_payload_safe]],
    rule keeps_transact [where Q = "\<lambda>a h'. accepted_post (Accepted a) h'"])
  fix config and h1 h2 h3 :: ingest_history and a s
  let ?p = "submission_payload co tn sb config"
  assume l: "later acceptance_inv h2 h3" and b: "accept_write co tn sb ?p (hist_now h3) = Inr (a, s)"
  have p: "tp_ingestion_id ?p = sb_ingestion_id sb" by (simp add: submission_payload_def)
  have "safe_tx (hist_now h3) s"
    by (rule transact_leads [OF accept_write_safe [OF assms p] b])
  with l have "acceptance_inv (see s h3)" using ids_stay_order by (intro steady_see) (simp_all add: later_def)
  moreover have "accepted_post (Accepted a) (see s h3)"
    using accept_write_id [OF b p] by (auto simp: accepted_post_def see_def)
  ultimately show "acceptance_inv (see s h3) \<and> accepted_post (Accepted a) (see s h3)" ..
next
  fix h' :: ingest_history assume "acceptance_inv h'"
  then show "acceptance_inv (see (hist_now h') h')" using ids_stay_order by (intro steady_see) (simp_all add: ids_stay_def)
qed (auto intro: keeps_Ret)

lemma attempt_post:
  assumes "handler_of co tn fuel task = Some p"
  shows "keeps acceptance_inv (pbind p (\<lambda>x. Ret (Handled x))) accepted_post h"
proof (rule keeps_seq)
  have "every_tx safe_tx p" using assms safe by (auto simp: handler_of_def Let_def split: if_splits)
  then show "keeps acceptance_inv p (\<lambda>_ _. True) h" by (rule every_tx_keeps [OF ids_stay_order])
qed (simp add: accepted_post_def)

lemma launch_post:
  assumes "ingest_launch co tn j s = Some p"
  shows "keeps acceptance_inv p accepted_post h"
proof (cases j)
  case (SubmitPush fresh external user account session time)
  with assms show ?thesis
    by (auto simp: ingest_launch_def split: if_splits intro!: submission_post) (simp add: push_of_def first_kinds_def)
next
  case (SubmitPull fresh account filters adapter revision)
  with assms show ?thesis
    by (auto simp: ingest_launch_def split: if_splits intro!: submission_post) (simp add: pull_of_def first_kinds_def)
next
  case (Attempt tid fuel)
  with assms show ?thesis by (auto simp: ingest_launch_def split: option.splits intro: attempt_post)
qed

text \<open>The environment: the queue's own statements keep the columns of a job.\<close>

lemma same_job_refl [simp]: "same_job r r"
  by (simp add: same_job_def)

lemma updated_jobs:
  "(\<And>r. same_job r (f r)) \<Longrightarrow> list_all2 same_job t (upd_where P f t)"
  by (induction t) (auto simp: upd_where_def)

lemma tasks_update_jobs:
  "tasks_update c P f t = Inr (rows, t') \<Longrightarrow> (\<And>r. same_job r (f r)) \<Longrightarrow> list_all2 same_job t t'"
  by (auto simp: tasks_update_def Let_def updated_jobs split: if_splits)

lemma same_jobs_work:
  assumes "list_all2 same_job t t'"
  shows "has_work t i \<Longrightarrow> has_work t' i" and "named_jobs t \<Longrightarrow> named_jobs t'"
  using assms by (induction rule: list_all2_induct) (auto simp: has_work_def named_jobs_def same_job_def)

lemma outside_safe: "ingest_outside co tn v s = Some s' \<Longrightarrow> safe_tx s s'"
proof (cases v)
  case (QueueState t)
  assume "ingest_outside co tn v s = Some s'"
  with QueueState have "list_all2 same_job (is_tasks s) t" "s' = s\<lparr>is_tasks := t\<rparr>"
    by (auto simp: ingest_outside_def split: if_splits)
  then show ?thesis using same_jobs_work by (auto simp: acceptance_ok_def ids_stay_def)
next
  case (OtherTask e)
  assume "ingest_outside co tn v s = Some s'"
  with OtherTask have "queue_task tn e s = Inr ((), s')" "eq_kind e \<notin> set session_kinds"
    by (auto simp: ingest_outside_def queue_task_def split: if_splits sum.splits)
  then show ?thesis by (intro queue_safe) auto
qed (auto simp: ingest_outside_def acceptance_ok_def ids_stay_def split: if_splits sum.splits dest!: adapters_untouched)

interpretation acc: guarded_pool "ingest_launch co tn" "ingest_outside co tn" acceptance_inv accepted_post for co tn
proof
  fix h :: ingest_history and j p
  assume "ingest_launch co tn j (hist_now h) = Some p"
  then show "promises acceptance_inv p accepted_post (\<lambda>_ _. True) h" by (rule launch_post)
next
  fix h :: ingest_history and v s
  assume "acceptance_inv h" and "ingest_outside co tn v (hist_now h) = Some s"
  then show "acceptance_inv (see s h)" using outside_safe ids_stay_order by (intro steady_see) simp_all
qed

lemma acceptance_start: "acceptance_inv (History istore_empty [Saw istore_empty])"
  by (simp add: steady_def acceptance_ok_def istore_empty_def named_jobs_def dedupe_keys_def ids_stay_def)

lemma ingest_run_acceptance:
  assumes "ingest_run co tn evs = Some u"
  shows "acceptance_inv (History (po_store u) (po_trace u))"
  using acc.run_invariant [OF _ acceptance_start] assms by (simp add: ingest_run_def)

lemma ingest_run_returned:
  assumes "ingest_run co tn evs = Some u" and "Ret (Accepted a) \<in> set (po_running u)"
  shows "aj_ingestion_id a \<in> ig_id ` set (is_ingestions (po_store u))"
proof -
  have run: "pool_run (ingest_launch co tn) (ingest_outside co tn) evs (pool_start istore_empty) = Some u"
    using assms(1) by (simp add: ingest_run_def)
  from acc.run_returned [OF run acceptance_start assms(2)] obtain h where
    l: "later acceptance_inv h (History (po_store u) (po_trace u))" and p: "accepted_post (Accepted a) h" by blast
  from p obtain s where s: "Saw s \<in> set (hist_past h)" "aj_ingestion_id a \<in> ig_id ` set (is_ingestions s)"
    by (auto simp: accepted_post_def)
  from l s(1) have "Saw s \<in> set (po_trace u)" using later_obs by fastforce
  with ingest_run_acceptance [OF assms(1)] have "ids_stay s (po_store u)" by (simp add: steady_def)
  with s(2) show ?thesis by (auto simp: ids_stay_def)
qed

lemma queue_statements_keep_jobs:
  assumes "task_step t t'" and "length t' = length t"
  shows "list_all2 same_job t t'"
proof -
  have trans: "list_all2 same_job t t'"
    if "transition c now tid owner fence sets states t = Inr (b, t')" "\<And>r. same_job r (sets r)"
    for c now tid owner fence sets states b
    using that by (auto simp: transition_def bindE_Inr_iff same_job_def elim!: tasks_update_jobs)
  from assms(1) obtain c where "task_step_on c t t'" by (auto simp: task_step_def)
  then show ?thesis
  proof cases
    case (ts_enqueue now e tid)
    with assms(2) show ?thesis
      by (auto simp: enqueue_def tasks_insert_def bindE_Inr_iff list_all2_refl split: option.splits if_splits)
  next
    case (ts_claim now locked owner secs kinds res)
    have "list_all2 same_job t t'"
      if "tasks_update c P (claim_set owner now secs) t = Inr (rows, t')" for P rows
      using that by (rule tasks_update_jobs) (simp add: claim_set_def same_job_def)
    note upd = this
    show ?thesis
    proof (cases "claim_pick c now locked kinds t")
      case None
      with ts_claim show ?thesis by (simp add: claim_def list_all2_refl)
    next
      case (Some p)
      with ts_claim obtain rows t2 where
          u: "tasks_update c (\<lambda>r. task_key r = task_key p) (claim_set owner now secs) t = Inr (rows, t2)"
        and "(case rows of [] \<Rightarrow> Inr (None, t2) | r # _ \<Rightarrow> Inr (Some (claimed_of owner r), t2)) = (Inr (res, t') :: db_error + _)"
        by (auto simp: claim_def bindE_def split: sum.splits)
      then have "t2 = t'" by (cases rows) simp_all
      with u upd show ?thesis by blast
    qed
  next
    case (ts_heartbeat now clock tid owner fence secs b)
    then show ?thesis by (auto simp: heartbeat_def bindE_Inr_iff same_job_def elim!: tasks_update_jobs)
  next
    case (ts_request_cancel now tid s)
    then show ?thesis by (auto simp: request_cancel_def bindE_Inr_iff same_job_def elim!: tasks_update_jobs)
  next
    case (ts_requeue now tid s)
    then show ?thesis by (auto simp: requeue_def bindE_Inr_iff same_job_def elim!: tasks_update_jobs)
  qed (auto simp: op_defs same_job_def elim!: trans)
qed

end
