(* ===== verification/IngestProperties.thy ===== *)
theory IngestProperties imports IngestPipeline IngestAcceptance "HOL-Library.Countable" begin

text \<open>
  What session ingestion guarantees, over every run of submissions, attempts, failures and outside changes.
  The witnesses use a codec that satisfies the laws, and one session that goes through the pipeline.
\<close>

section \<open>A codec\<close>

instance pyfloat :: countable
  by countable_datatype

instance pyval :: countable
  by countable_datatype

text \<open>The document of a value is as many marks as the number of its canonical form.\<close>

definition marks_codec :: codec where
  "marks_codec =
     \<lparr>co_dumps = \<lambda>v. replicate (to_nat (canonical v)) CHR ''x'', co_compact = \<lambda>v. replicate (to_nat (canonical v)) CHR ''x'',
      co_ascii = \<lambda>v. replicate (to_nat (canonical v)) CHR ''x'', co_loads = \<lambda>s. Inr (from_nat (length s)),
      co_sha = \<lambda>s. s, co_iso = \<lambda>s. None\<rparr>"

lemma marks_codec_ok: "codec_ok marks_codec"
  by (simp add: codec_ok_def marks_codec_def)

section \<open>One session\<close>

definition sample_session :: pyval where
  "sample_session = PDict [(''turns'', PList [PStr ''question''])]"

definition sample_segment :: pydict where
  "sample_segment = [(''session_id'', PStr ''s''), (''turns'', PList [PStr ''question''])]"

definition sample_after :: pydict where
  "sample_after = [(''_judge_scores'', PDict []), (''value_judge'', PDict [(''decision'', PStr ''valuable'')])]"

definition sample_services :: "service \<Rightarrow> pyexc + pyval \<times> pyval" where
  "sample_services q =
     (case q of
        AskSplit v \<Rightarrow> Inr (v, PList [PDict sample_segment])
      | AskAnalyze v \<Rightarrow> Inr (PDict [], PDict [(''decision'', PStr ''valuable'')])
      | AskTrace v \<Rightarrow> Inr (PDict sample_after, PStr ''fine'')
      | _ \<Rightarrow> Inl type_error)"

definition sample_result :: pydict where
  "sample_result = [(''_judge_scores'', PDict []), (''trace_analysis'', PStr ''fine''), (''value_judge'', PDict [(''decision'', PStr ''valuable'')])]"

definition sample_archived :: archived where
  "sample_archived =
     \<lparr>ac_decision = ''valuable'', ac_session = PDict sample_result, ac_judge = PDict [],
      ac_audit = PDict [(''decision'', PStr ''valuable'')], ac_meta = PDict [], ac_business_time = PNone\<rparr>"

lemma sample_order: "''_judge_scores'' \<le> (''trace_analysis'' :: string)" "''trace_analysis'' \<le> (''value_judge'' :: string)"
  "''_judge_scores'' \<le> (''value_judge'' :: string)" "\<not> ''value_judge'' \<le> (''trace_analysis'' :: string)"
  by code_simp+

lemma sample_canonical:
  "canonical sample_session = sample_session"
  "canonical (PDict (dput ''trace_analysis'' (PStr ''fine'') sample_after)) = PDict sample_result"
  using sample_order by (simp_all add: sample_session_def sample_after_def sample_result_def)

lemma unseen_empty: "unseen co tn i external istore_empty"
  by (simp add: unseen_def istore_empty_def marks_eq free_stage_def free_task_def dedupe_index_ok_def)

lemma sample_facts:
  "normalize_stage sample_session = Inr sample_session" "is_dict sample_session"
  "sample_services (AskSplit sample_session) = Inr (sample_session, PList [PDict sample_segment])"
  "check_segment (PDict sample_segment) = Inr sample_segment"
  "sample_services (AskAnalyze v) = Inr (PDict [], PDict [(''decision'', PStr ''valuable'')])"
  "py_get (PDict [(''decision'', PStr ''valuable'')]) ''decision'' = Inr (PStr ''valuable'')"
  "sample_services (AskTrace (PDict [])) = Inr (PDict sample_after, PStr ''fine'')"
  "archive_of (PDict sample_result) = Inr sample_archived"
  "session_list_meta sample_result (ac_meta sample_archived) = Inr [(''num_turns'', PInt 0), (''used_skills'', PList [])]"
  "business_time_of co (ac_business_time sample_archived) = Inr None"
  by code_simp+

text \<open>From any reached store a session that has not been seen yet goes through the pipeline.\<close>

lemma pipeline_continues:
  assumes "ingest_run co tn evs = Some u" and "run_jobs co tn ans js (po_store u) = Some (s', xs)"
  obtains more u' where "ingest_run co tn (evs @ more) = Some u'" and "po_store u' = s'" and "Ret ` set xs \<subseteq> set (po_running u')"
proof -
  obtain s tr ps where u: "u = \<lparr>po_store = s, po_trace = tr, po_running = ps\<rparr>" by (cases u) simp
  from drain_is_run [OF assms(2), of tr ps] obtain more u' where
    "pool_run (ingest_launch co tn) (ingest_outside co tn) more u = Some u'" "po_store u' = s'" "po_running u' = ps @ map Ret xs"
    by (auto simp: u)
  with assms(1) that [of more u'] show ?thesis by (simp add: ingest_run_def pool_run_append)
qed

lemma empty_run: "ingest_run co tn [] = Some (pool_start istore_empty)"
  by (simp add: ingest_run_def)

lemma start_store [simp]: "po_store (pool_start s) = s"
  by (simp add: pool_start_def)

lemma sample_run:
  obtains evs u where "ingest_run marks_codec ''t'' evs = Some u"
    and "archived_as marks_codec ''a1'' (PDict sample_result) sample_archived (po_store u)"
proof -
  have bt: "business_time_of marks_codec PNone = Inr None" "hex_id ''a1''" by (simp_all add: business_time_of_def hex_id_def)
  have "\<exists>s' xs. run_jobs marks_codec ''t'' sample_services (SubmitPush ''a1'' ''s'' ''u'' ''acc'' sample_session PNone # pipeline_jobs ''a1'')
      istore_empty = Some (s', xs) \<and>
    archived_as marks_codec ''a1'' (canonical (PDict (dput ''trace_analysis'' (PStr ''fine'') sample_after))) sample_archived s'"
    by (rule pushed_pipeline [OF marks_codec_ok _ bt(2) unseen_empty bt(1) _ _ _ sample_facts(4) sample_facts(5) sample_facts(6)
        sample_facts(7) refl _ sample_canonical(2) _ sample_facts(9) sample_facts(10)])
      (simp, unfold sample_canonical, rule sample_facts(1), rule sample_facts(2), rule sample_facts(3), rule sample_facts(8),
        simp add: sample_result_def)
  then obtain s' xs where d: "run_jobs marks_codec ''t'' sample_services (SubmitPush ''a1'' ''s'' ''u'' ''acc'' sample_session PNone #
      pipeline_jobs ''a1'') istore_empty = Some (s', xs)"
    "archived_as marks_codec ''a1'' (PDict sample_result) sample_archived s'"
    unfolding sample_canonical by blast
  from pipeline_continues [OF empty_run, unfolded start_store, OF d(1)] obtain more u' where
    "ingest_run marks_codec ''t'' ([] @ more) = Some u'" "po_store u' = s'" by blast
  with d(2) that show ?thesis by simp
qed

lemma archived_session: "archived_as co i x a s \<Longrightarrow> \<exists>r\<in>set (is_sessions s). ss_ingestion_id r = i"
  by (auto simp: archived_as_def)

section \<open>Formal sessions\<close>

lemma run_session_ok:
  assumes "codec_ok co" and "ingest_run co tn evs = Some u" and "r \<in> set (is_sessions (po_store u))"
  shows "session_ok co (History (po_store u) (po_trace u)) r"
  using ingest_run_inv [OF assms(1,2)] assms(3) by (simp add: ingest_inv_def)

lemma session_ok_content:
  "session_ok co h r \<Longrightarrow> \<exists>v. traced co h (ss_ingestion_id r) v \<and> has_object (hist_now h) (ss_content_ref r) (session_doc co (canonical v))"
  unfolding session_ok_def by (elim conjE exE) (intro exI conjI, assumption+)

text \<open>
  C1: No stage is skipped. Whatever attempts run, overlap, fail, lose their answers or are repeated, a
  formal session exists only if at some moment of the run every mandatory stage before the archive had
  a succeeded result for its ingestion.
\<close>

theorem formal_sessions_follow_every_stage:
  assumes "codec_ok co" and "ingest_run co tn evs = Some u" and "r \<in> set (is_sessions (po_store u))"
  shows "\<exists>s. Saw s \<in> set (po_trace u) \<and>
    (\<forall>stage\<in>set mandatory_stages. stage \<noteq> ''archive'' \<longrightarrow> stage \<in> set (succeeded_stages (ss_ingestion_id r) s))"
proof -
  from run_session_ok [OF assms] obtain s where "Saw s \<in> set (po_trace u)" "missing_stages (ss_ingestion_id r) s = []"
    unfolding session_ok_def by auto
  moreover from this have "set (missing_stages (ss_ingestion_id r) s) = {}" by simp
  then have "\<forall>stage\<in>set mandatory_stages. stage \<noteq> ''archive'' \<longrightarrow> stage \<in> set (succeeded_stages (ss_ingestion_id r) s)"
    by (auto simp: missing_stages_def)
  ultimately show ?thesis by blast
qed

theorem formal_sessions_follow_every_stage_witness:
  "\<exists>evs u r s. ingest_run marks_codec ''t'' evs = Some u \<and> r \<in> set (is_sessions (po_store u)) \<and> Saw s \<in> set (po_trace u) \<and>
     ''trace_analyze'' \<in> set (succeeded_stages (ss_ingestion_id r) s)"
proof -
  obtain evs u where run: "ingest_run marks_codec ''t'' evs = Some u"
    and "archived_as marks_codec ''a1'' (PDict sample_result) sample_archived (po_store u)" by (rule sample_run)
  then obtain r where r: "r \<in> set (is_sessions (po_store u))" using archived_session by blast
  from formal_sessions_follow_every_stage [OF marks_codec_ok run r] obtain s where s: "Saw s \<in> set (po_trace u)"
    "\<forall>stage\<in>set mandatory_stages. stage \<noteq> ''archive'' \<longrightarrow> stage \<in> set (succeeded_stages (ss_ingestion_id r) s)"
    by (elim exE conjE) (rule that)
  from s(2) have "''trace_analyze'' \<in> set (succeeded_stages (ss_ingestion_id r) s)" by (simp add: mandatory_stages_def)
  with run r s(1) show ?thesis by (intro exI conjI)
qed

text \<open>
  C2: What is archived is what the services said of the session that was accepted. The content of a formal
  session reads back as the value the trace analysis left, of the analysis, of the only segment the
  split service answered for the session stored with the accepted ingestion.
\<close>

theorem archived_content_is_analyzed_session:
  assumes "codec_ok co" and "ingest_run co tn evs = Some u" and "r \<in> set (is_sessions (po_store u))"
  shows "\<exists>v w answer segment analyzed analysis after trace.
    accepted co (po_store u) (ss_ingestion_id r) v \<and>
    Asked (AskSplit (canonical v)) (Inr (w, answer)) \<in> set (po_trace u) \<and> validated_segments answer = Inr [segment] \<and>
    Asked (AskAnalyze (canonical (PDict segment))) (Inr (analyzed, analysis)) \<in> set (po_trace u) \<and>
    Asked (AskTrace analyzed) (Inr (PDict after, trace)) \<in> set (po_trace u) \<and>
    get_session co (ss_content_ref r) (po_store u) = Inr (canonical (PDict (dput ''trace_analysis'' trace after)))"
proof -
  let ?h = "History (po_store u) (po_trace u)"
  from session_ok_content [OF run_session_ok [OF assms]] obtain x where x: "traced co ?h (ss_ingestion_id r) x"
    "has_object (po_store u) (ss_content_ref r) (session_doc co (canonical x))" unfolding history.sel by (elim exE conjE) (rule that)
  have "get_session co (ss_content_ref r) (po_store u) = Inr (canonical x)"
    using get_session_of_doc [OF assms(1) x(2)] by (simp add: canonical_idem)
  with x(1) show ?thesis unfolding traced_def planned_def history.sel by (elim exE conjE) (intro exI conjI, assumption+, simp)
qed

theorem archived_content_is_analyzed_session_witness:
  "\<exists>evs u r v. ingest_run marks_codec ''t'' evs = Some u \<and> r \<in> set (is_sessions (po_store u)) \<and>
     accepted marks_codec (po_store u) (ss_ingestion_id r) v"
proof -
  obtain evs u where run: "ingest_run marks_codec ''t'' evs = Some u"
    and "archived_as marks_codec ''a1'' (PDict sample_result) sample_archived (po_store u)" by (rule sample_run)
  then obtain r where r: "r \<in> set (is_sessions (po_store u))" using archived_session by blast
  with archived_content_is_analyzed_session [OF marks_codec_ok run r] run show ?thesis by blast
qed

section \<open>Acceptance\<close>

text \<open>
  C3: An accepted session is never lost. When a submission has been answered, the ingestion it names is in
  the store in every state afterwards, together with the task that starts its work; so it is for a
  repeated submission, which names the ingestion of the first.
\<close>

theorem accepted_session_has_its_task:
  assumes "ingest_run co tn evs = Some u" and "Ret (Accepted a) \<in> set (po_running u)"
  shows "\<exists>g\<in>set (is_ingestions (po_store u)). ig_id g = aj_ingestion_id a \<and>
    (\<exists>r\<in>set (is_tasks (po_store u)). wt_kind r \<in> {''session.normalize'', ''session.pull''} \<and> wt_subject_id r = ig_id g)"
proof -
  have id: "aj_ingestion_id a \<in> ig_id ` set (is_ingestions (po_store u))" by (rule ingest_run_returned [OF assms])
  have "acceptance_ok (po_store u)" using ingest_run_acceptance [OF assms(1)] by (simp add: steady_def)
  with id have "has_work (is_tasks (po_store u)) (aj_ingestion_id a)" by (auto simp: acceptance_ok_def)
  then obtain r where r: "r \<in> set (is_tasks (po_store u))" "wt_kind r \<in> {''session.normalize'', ''session.pull''}"
    "wt_subject_id r = aj_ingestion_id a" by (auto simp: has_work_def first_kinds_def)
  from id obtain g where g: "g \<in> set (is_ingestions (po_store u))" "ig_id g = aj_ingestion_id a" by auto
  show ?thesis by (intro bexI [OF _ g(1)] conjI g(2) bexI [OF _ r(1)] r(2)) (simp add: r(3) g(2))
qed

lemma sample_push:
  obtains evs u a where "ingest_run marks_codec ''t'' evs = Some u" and "Ret (Accepted a) \<in> set (po_running u)"
    and "''a1'' \<in> ig_id ` set (is_ingestions (po_store u))"
proof -
  let ?sb = "push_of ''a1'' ''s'' ''u'' ''acc'' sample_session PNone"
  have bt: "business_time_of marks_codec PNone = Inr None" by (simp add: business_time_of_def)
  obtain s' a where s: "alone (accept_submission marks_codec ''t'' ?sb) sample_services istore_empty = (Inr a, s')"
    "progress marks_codec (submission_payload marks_codec ''t'' ?sb (is_config_revision istore_empty)) []
      [(tp_payload_ref (submission_payload marks_codec ''t'' ?sb (is_config_revision istore_empty)),
        payload_doc marks_codec (submission_payload marks_codec ''t'' ?sb (is_config_revision istore_empty)) sample_session)]
      [''normalize'', ''split-plan'', ''analyze'', ''archive'']
      [''session.split'', ''session.analyze'', ''session.archive''] ''session.normalize'' s'"
    by (rule submission_alone [where ans = sample_services and tn = "''t''" and i = "''a1''" and external = "''s''" and
        user = "''u''" and account = "''acc''" and v = sample_session, OF unseen_empty _ bt refl refl]) simp
  then have "run_jobs marks_codec ''t'' sample_services [SubmitPush ''a1'' ''s'' ''u'' ''acc'' sample_session PNone] istore_empty =
      Some (s', [Accepted a])"
    by (simp add: ingest_launch_def hex_id_def alone_bind)
  from pipeline_continues [OF empty_run, unfolded start_store, OF this] obtain more u' where
    "ingest_run marks_codec ''t'' ([] @ more) = Some u'" "po_store u' = s'" "Ret ` set [Accepted a] \<subseteq> set (po_running u')" by blast
  moreover have "''a1'' \<in> ig_id ` set (is_ingestions s')"
    using s(2) by (simp add: progress_def Let_def submission_payload_def push_of_def)
  ultimately show ?thesis using that by simp
qed

theorem accepted_session_has_its_task_witness:
  "\<exists>evs u a. ingest_run marks_codec ''t'' evs = Some u \<and> Ret (Accepted a) \<in> set (po_running u) \<and>
     (\<exists>r\<in>set (is_tasks (po_store u)). wt_kind r \<in> {''session.normalize'', ''session.pull''} \<and> wt_subject_id r = aj_ingestion_id a)"
proof -
  obtain evs u a where run: "ingest_run marks_codec ''t'' evs = Some u" "Ret (Accepted a) \<in> set (po_running u)" by (rule sample_push)
  from accepted_session_has_its_task [OF run] run show ?thesis by metis
qed








section \<open>The pipeline\<close>



section \<open>Pages\<close>

definition evolution_rows :: "string list option \<Rightarrow> (rat \<times> string) option \<Rightarrow> istore \<Rightarrow> session_row list" where
  "evolution_rows ids after s =
     sort_key ingest_key (filter (\<lambda>r.
       ss_decision r = ''valuable'' \<and> (case ids of None \<Rightarrow> True | Some xs \<Rightarrow> ss_session_id r \<in> set xs) \<and>
       after_cursor after r) (is_sessions s))"

lemma evolution_page_rows: "evolution_page ids after limit s = take (clamp_limit limit) (evolution_rows ids after s)"
  by (simp add: evolution_page_def evolution_rows_def)

lemma after_key_of_sorted:
  assumes "sorted_wrt (\<lambda>r r'. ingest_key r < ingest_key r') (xs @ [c] @ ys)"
  shows "filter (\<lambda>r. ingest_key c < ingest_key r) (xs @ [c] @ ys) = ys"
proof -
  have "filter (\<lambda>r. ingest_key c < ingest_key r) xs = []"
    using assms by (auto simp: filter_empty_conv sorted_wrt_append dest: less_not_sym)
  moreover have "filter (\<lambda>r. ingest_key c < ingest_key r) ys = ys"
    using assms by (auto simp: filter_id_conv sorted_wrt_append)
  ultimately show ?thesis by simp
qed

lemma strictly_sorted_key:
  assumes "sorted (map f xs)" and "distinct (map f xs)"
  shows "sorted_wrt (\<lambda>x y. f x < f y) xs"
  using assms by (induction xs) (auto simp: order_less_le image_iff)

lemma evolution_rows_after:
  assumes "distinct (map ss_session_id (is_sessions s))" and "evolution_rows ids after s = xs @ [c] @ ys"
  shows "evolution_rows ids (Some (ingest_key c)) s = ys"
proof -
  let ?P = "\<lambda>r. ss_decision r = ''valuable'' \<and> (case ids of None \<Rightarrow> True | Some xs \<Rightarrow> ss_session_id r \<in> set xs)"
  let ?all = "evolution_rows ids after s"
  have "distinct (map ingest_key (is_sessions s))"
    using assms(1) by (auto simp: distinct_map inj_on_def)
  then have "distinct (map ingest_key ?all)"
    by (simp add: evolution_rows_def distinct_map inj_on_def distinct_filter)
  then have st: "sorted_wrt (\<lambda>r r'. ingest_key r < ingest_key r') ?all"
    by (intro strictly_sorted_key) (simp add: evolution_rows_def)
  have "c \<in> set ?all" by (simp add: assms(2))
  then have c: "after_cursor after c" by (simp add: evolution_rows_def)
  have "evolution_rows ids (Some (ingest_key c)) s = filter (\<lambda>r. ingest_key c < ingest_key r) ?all"
    unfolding evolution_rows_def filter_sort filter_filter
    using c by (intro arg_cong [where f = "sort_key ingest_key"] filter_cong)
      (auto simp: after_cursor_def split: option.splits dest: less_trans)
  also have "\<dots> = ys" using st after_key_of_sorted unfolding assms(2) by simp
  finally show ?thesis .
qed

text \<open>
  C40: The pages of the sessions for evolution neither repeat nor lose one. A page taken after the last session of a
  page is exactly its continuation in the order of ingestion, so together they are the first sessions of that order;
  sessions ingested at the same time included.
\<close>

theorem evolution_pages_are_consecutive:
  assumes "distinct (map ss_session_id (is_sessions s))" and "evolution_page ids after limit s = xs @ [c]"
  shows "(xs @ [c]) @ evolution_page ids (Some (ingest_key c)) limit' s =
    take (length (xs @ [c]) + clamp_limit limit') (evolution_rows ids after s)"
proof -
  let ?all = "evolution_rows ids after s"
  obtain rest where all: "?all = xs @ [c] @ rest"
    using assms(2) append_take_drop_id [of "clamp_limit limit" ?all] by (metis append.assoc evolution_page_rows)
  from evolution_rows_after [OF assms(1) this] have "evolution_page ids (Some (ingest_key c)) limit' s =
      take (clamp_limit limit') rest" by (simp add: evolution_page_rows)
  then show ?thesis by (simp add: all)
qed

definition sample_row :: "string \<Rightarrow> session_row" where
  "sample_row i =
     \<lparr>ss_session_id = i, ss_ingestion_id = i, ss_source = ''push'', ss_external_id = i, ss_user_id = ''u'', ss_account_id = ''acc'',
      ss_decision = ''valuable'', ss_content_ref = '''', ss_content_hash = '''', ss_judge = PNone, ss_filter_audit = PNone,
      ss_consumption = PNone, ss_meta = [], ss_business_time = Some 1, ss_ingested_at = 5\<rparr>"

definition sample_rows :: istore where
  "sample_rows = istore_empty\<lparr>is_sessions := [sample_row ''b'', sample_row ''a'']\<rparr>"

theorem evolution_pages_are_consecutive_witness:
  "[''a''] @ map ss_session_id (evolution_page None (Some (5, ''a'')) (Some 1) sample_rows) = [''a'', ''b'']"
proof -
  have p: "evolution_page None None (Some 1) sample_rows = [] @ [sample_row ''a'']"
    "evolution_rows None None sample_rows = [sample_row ''a'', sample_row ''b'']" "ingest_key (sample_row ''a'') = (5, ''a'')"
    "clamp_limit (Some 1) = 1" by code_simp+
  have "distinct (map ss_session_id (is_sessions sample_rows))" by code_simp
  from evolution_pages_are_consecutive [OF this p(1), of "Some 1"] have
    "sample_row ''a'' # evolution_page None (Some (5, ''a'')) (Some 1) sample_rows = [sample_row ''a'', sample_row ''b'']"
    by (simp add: p)
  then show ?thesis by (simp add: sample_row_def)
qed

text \<open>The list of the console goes by the business time alone, and misses what has the time of its cursor.\<close>

lemma console_pages_skip_ties:
  "map ss_session_id (list_sessions (Some 1) None sample_rows) = [''b'']"
  "list_sessions (Some 1) (Some 1) sample_rows = []"
  by code_simp+

section \<open>Retries\<close>

text \<open>A split that fails after its plan was saved forgets the plan: the next attempt asks the model again.\<close>

lemma failed_split_forgets_plan:
  "record_stage i ''split'' StFailed '''' detail code s = Inr (u, s') \<Longrightarrow> saved_plan i s' = Inr None"
  by (auto simp: record_stage_def Let_def saved_plan_def stage_results_def find_None_iff set_upd_where split: if_splits)

text \<open>
  A fan-out that is repeated after the task of a child has ended cannot accept that child again: the child names
  itself, so its task is queued again and its identifier is taken.
\<close>

lemma finished_child_blocks_retry:
  assumes "has_object s (tp_payload_ref c) (payload_doc co c (PDict segment))" and "tp_ingestion_id c \<noteq> ''''"
    and "find (\<lambda>g. ig_dedupe_key g = tp_ingestion_id c) (is_ingestions s) = Some g" and "ig_id g = tp_ingestion_id c"
    and "r \<in> set (is_tasks s)" and "task_key r = (tn, tp_ingestion_id c @ '':session.normalize'')" and "tn \<noteq> ''''"
    and "enqueue_dedupe_lookup tn (stage_request tn ''session.normalize'' c (tp_payload_ref c) (tp_payload_hash c) '''') (is_tasks s) = None"
  shows "alone (accept_child co tn c segment) ans s = (Inl unique_error, s)"
proof -
  let ?e = "stage_request tn ''session.normalize'' c (tp_payload_ref c) (tp_payload_hash c) ''''"
  have put: "put_payload_json co (tp_payload_ref c) (payload_to_json co c) (PDict segment) s = Inr ((), s)"
    using assms(1) by (simp add: put_payload_json_def put_document_def put_once_def has_object_def payload_doc_def)
  have "task_key (new_task_row (is_now s) ?e) \<in> task_key ` set (is_tasks s)"
    using assms(5,6) by (intro rev_image_eqI [of r]) (simp_all add: new_task_row_def stage_request_def)
  then have "tasks_insert tn (new_task_row (is_now s) ?e) (is_tasks s) = Inl UniqueViolation"
    using assms(7) by (simp add: tasks_insert_def rls_visible_def) (simp add: new_task_row_def stage_request_def)
  then have queue: "queue_task tn ?e s = Inl unique_error"
    using assms(8) by (simp add: queue_task_def enqueue_def db_exc_def)
  have "accept_ingestion co (child_request c (dget_none segment ''business_time'')) s = Inr (tp_ingestion_id c, s)"
    using assms(2-4) by (simp add: accept_ingestion_def child_request_def)
  with put queue show ?thesis by (simp add: accept_child_def alone_bind alone_transact)
qed

end
