(* ===== verification/SplitProperties.thy ===== *)
theory SplitProperties imports SessionSplit begin

text \<open>
  What the split of a session promises whatever the model replies: the segments cover every turn of
  the session exactly once and in order; and if the boundaries the model gives start within the
  session, every segment has a turn and an identifier of its own. Boundaries that start behind the
  last turn give segments without turns, which the handler of the stage then refuses.
\<close>

section \<open>Ordered boundaries\<close>

text \<open>
  What the clipping leaves, after a segment that starts at \<open>a0\<close> and ends at \<open>e\<close>: starts behind the
  end before; a segment ends before it starts only if it starts behind the last turn.
\<close>

fun ordered_ok :: "int \<Rightarrow> int \<Rightarrow> int \<Rightarrow> boundary list \<Rightarrow> bool" where
  "ordered_ok n e a0 [] = True"
| "ordered_ok n e a0 ((a, b, topic) # rest) =
     (a0 \<le> a \<and> e < a \<and> b \<le> n \<and> (a \<le> b \<or> n < a \<and> b = n) \<and> ordered_ok n b a rest)"

definition parsed_ok :: "int \<Rightarrow> boundary \<Rightarrow> bool" where
  "parsed_ok n x \<longleftrightarrow> 1 \<le> fst x \<and> fst (snd x) \<le> n \<and> (fst x \<le> fst (snd x) \<or> n < fst x \<and> fst (snd x) = n)"

lemma order_boundaries_from:
  assumes "sorted (map fst xs)" and "\<forall>x\<in>set xs. parsed_ok n x \<and> s0 \<le> fst x"
    and "a0 \<le> e \<or> n < a0 \<and> e = n \<and> a0 \<le> s0"
  shows "ordered_ok n e a0 (order_boundaries n (Some e) xs)"
  using assms
proof (induction xs arbitrary: e a0 s0)
  case Nil
  then show ?case by simp
next
  case (Cons x xs)
  obtain a b topic where x: "x = (a, b, topic)" by (cases x)
  from Cons.prems(2) x have p: "1 \<le> a" "b \<le> n" "a \<le> b \<or> n < a \<and> b = n" "s0 \<le> a" by (auto simp: parsed_ok_def)
  have rest: "sorted (map fst xs)" "\<forall>y\<in>set xs. parsed_ok n y \<and> a \<le> fst y"
    using Cons.prems(1,2) x by (auto simp: parsed_ok_def)
  have weaker: "\<forall>y\<in>set xs. parsed_ok n y \<and> s0 \<le> fst y" using Cons.prems(2) by simp
  show ?case
  proof (cases "a \<le> e")
    case True
    then have "a0 \<le> e" using Cons.prems(3) p(4) by auto
    then show ?thesis using True x p Cons.IH [OF rest(1) weaker, of a0 e] Cons.IH [OF rest, of "e + 1" b] Cons.prems(3)
      by (auto simp: min_def)
  next
    case False
    with p Cons.prems(3) show ?thesis using x Cons.IH [OF rest, of a b] by (auto simp: min_def)
  qed
qed

lemma order_boundaries_ok:
  assumes "sorted (map fst xs)" and "\<forall>x\<in>set xs. parsed_ok n x"
  shows "ordered_ok n 0 1 (order_boundaries n None xs)"
proof (cases xs)
  case Nil
  then show ?thesis by simp
next
  case (Cons x rest)
  obtain a b topic where x: "x = (a, b, topic)" by (cases x)
  have "ordered_ok n b a (order_boundaries n (Some b) rest)"
    by (rule order_boundaries_from [of _ _ a]) (use assms Cons x in \<open>auto simp: parsed_ok_def\<close>)
  then show ?thesis using assms(2) Cons x by (auto simp: parsed_ok_def min_def)
qed

section \<open>Segments without holes\<close>

text \<open>Segments, the latest first, that end at \<open>e\<close> and start where the one before ends.\<close>

fun chain :: "boundary list \<Rightarrow> int \<Rightarrow> bool" where
  "chain [] e = (e = 0)"
| "chain ((a, b, topic) # rest) e = (b = e \<and> 1 \<le> a \<and> a - 1 \<le> b \<and> chain rest (a - 1))"

text \<open>The last segment may also be one that starts behind the last turn.\<close>

definition filled_ok :: "int \<Rightarrow> int \<Rightarrow> int \<Rightarrow> boundary list \<Rightarrow> bool" where
  "filled_ok n c a0 filled \<longleftrightarrow>
     (case filled of
        [] \<Rightarrow> c = 0 \<and> a0 = 1
      | (a, b, topic) # rest \<Rightarrow> a = a0 \<and> b = c \<and> 1 \<le> a \<and> c \<le> n \<and> chain rest (a - 1) \<and> (a \<le> b \<or> n < a \<and> b = n))"

lemma filled_chain: "filled_ok n c a0 filled \<Longrightarrow> a0 - 1 \<le> c \<or> filled = [] \<Longrightarrow> chain filled c"
  by (cases filled) (auto simp: filled_ok_def)

lemma absorb_chain:
  assumes "filled_ok n c a0 filled" and "c \<le> u" and "a0 - 1 \<le> u" and "0 \<le> u"
  shows "chain (absorb u filled) u"
  using assms by (cases filled) (auto simp: filled_ok_def absorb_def)

lemma fill_holes_ok:
  assumes "filled_ok n c a0 filled" and "ordered_ok n c a0 xs" and "0 \<le> n"
  shows "\<exists>a1. filled_ok n (fst (fill_holes c filled xs)) a1 (snd (fill_holes c filled xs))"
  using assms(1,2)
proof (induction xs arbitrary: c a0 filled)
  case Nil
  then show ?case by auto
next
  case (Cons x xs)
  obtain a b topic where x: "x = (a, b, topic)" by (cases x)
  from Cons.prems(2) x have o: "a0 \<le> a" "c < a" "b \<le> n" "a \<le> b \<or> n < a \<and> b = n" "ordered_ok n b a xs" by auto
  have a1: "1 \<le> a0" using Cons.prems(1) by (auto simp: filled_ok_def split: list.splits)
  let ?f = "if c + 1 < a then absorb (a - 1) filled else filled"
  have "chain ?f (a - 1)"
  proof (cases "c + 1 < a")
    case True
    then show ?thesis using absorb_chain [OF Cons.prems(1), of "a - 1"] o a1 by simp
  next
    case False
    with o have "c = a - 1" by simp
    moreover have "a0 - 1 \<le> c \<or> filled = []"
      using Cons.prems(1) o False by (auto simp: filled_ok_def split: list.splits)
    ultimately show ?thesis using filled_chain [OF Cons.prems(1)] False by simp
  qed
  then have "filled_ok n b a ((a, b, topic) # ?f)" using o a1 by (simp add: filled_ok_def)
  from Cons.IH [OF this o(5)] show ?case by (simp add: x)
qed

section \<open>Slices\<close>

abbreviation slices :: "'a list \<Rightarrow> boundary list \<Rightarrow> 'a list list" where
  "slices turns bs \<equiv> map (\<lambda>(a, b, topic). turn_slice turns a b) bs"

lemma chain_nonneg: "chain filled e \<Longrightarrow> 0 \<le> e"
  by (cases filled) auto

lemma slices_chain: "chain filled e \<Longrightarrow> concat (slices turns (rev filled)) = take (nat e) turns"
proof (induction filled arbitrary: e)
  case Nil
  then show ?case by simp
next
  case (Cons x rest)
  obtain a b topic where x: "x = (a, b, topic)" by (cases x)
  with Cons.prems have c: "b = e" "1 \<le> a" "a - 1 \<le> e" "chain rest (a - 1)" by auto
  have "take (nat (a - 1)) turns = take (nat (a - 1)) (take (nat e) turns)" using c(3) by (simp add: min_def nat_mono)
  then have "take (nat (a - 1)) turns @ turn_slice turns a e = take (nat e) turns"
    unfolding turn_slice_def by (metis append_take_drop_id)
  with Cons.IH [OF c(4)] show ?case by (simp add: x c(1))
qed

lemma slices_complete:
  assumes "\<forall>x\<in>set parsed. parsed_ok (int (length turns)) x"
  shows "concat (slices turns (complete_boundaries (int (length turns)) parsed)) = turns"
proof -
  let ?n = "int (length turns)" and ?xs = "order_boundaries (int (length turns)) None (sort_key fst parsed)"
  obtain c filled where f: "fill_holes 0 [] ?xs = (c, filled)" by (cases "fill_holes 0 [] ?xs")
  have "ordered_ok ?n 0 1 ?xs" by (rule order_boundaries_ok) (use assms in auto)
  moreover have "filled_ok ?n 0 1 []" by (simp add: filled_ok_def)
  ultimately obtain a1 where ok: "filled_ok ?n c a1 filled" using fill_holes_ok [of ?n 0 1 "[]" ?xs] f by auto
  have c: "c \<le> ?n" using ok by (auto simp: filled_ok_def split: list.splits)
  have all: "complete_boundaries ?n parsed = rev (if c < ?n then absorb ?n filled else filled)"
    by (simp add: complete_boundaries_def f)
  show ?thesis
  proof (cases "c < ?n")
    case True
    then have "a1 - 1 \<le> ?n" using ok by (auto simp: filled_ok_def split: list.splits)
    with True have "chain (absorb ?n filled) ?n" by (intro absorb_chain [OF ok]) auto
    from slices_chain [OF this, of turns] show ?thesis using True by (simp add: all)
  next
    case False
    with c have cn: "c = ?n" by simp
    show ?thesis
    proof (cases "a1 - 1 \<le> c \<or> filled = []")
      case True
      from slices_chain [OF filled_chain [OF ok True], of turns] show ?thesis using False cn by (simp add: all)
    next
      case behind: False
      then obtain b topic rest where fl: "filled = (a1, b, topic) # rest" "b = c" "?n < a1" "chain rest (a1 - 1)"
        using ok by (auto simp: filled_ok_def split: list.splits)
      have "concat (slices turns (rev rest)) = turns" using slices_chain [OF fl(4), of turns] fl(3) by simp
      moreover have "turn_slice turns a1 b = []" using fl cn by (simp add: turn_slice_def)
      ultimately show ?thesis using False fl(1) by (simp add: all)
    qed
  qed
qed

section \<open>Boundaries that start within the session\<close>

definition proper :: "int \<Rightarrow> boundary \<Rightarrow> bool" where
  "proper n x \<longleftrightarrow> 1 \<le> fst x \<and> fst x \<le> fst (snd x) \<and> fst (snd x) \<le> n"

lemma order_proper:
  "\<forall>x\<in>set xs. proper n x \<Longrightarrow> (case last_end of None \<Rightarrow> True | Some e \<Rightarrow> 0 \<le> e) \<Longrightarrow>
   \<forall>x\<in>set (order_boundaries n last_end xs). proper n x"
  by (induction n last_end xs rule: order_boundaries.induct) (auto simp: proper_def min_def split: option.splits)

lemma absorb_proper:
  assumes "\<forall>x\<in>set filled. proper n x" and "1 \<le> u" and "u \<le> n" and "\<forall>x\<in>set filled. fst x \<le> u"
  shows "\<forall>x\<in>set (absorb u filled). proper n x"
  using assms by (cases filled) (auto simp: absorb_def proper_def)

text \<open>The starts of the segments so far are at most where they end.\<close>

lemma fill_holes_proper:
  assumes "ordered_ok n c a0 xs" and "\<forall>x\<in>set xs. proper n x" and "\<forall>x\<in>set filled. proper n x \<and> fst x \<le> c"
    and "0 \<le> c" and "c \<le> n"
  shows "(\<forall>x\<in>set (snd (fill_holes c filled xs)). proper n x \<and> fst x \<le> fst (fill_holes c filled xs)) \<and>
    0 \<le> fst (fill_holes c filled xs)"
  using assms
proof (induction xs arbitrary: c a0 filled)
  case Nil
  then show ?case by simp
next
  case (Cons x xs)
  obtain a b topic where x: "x = (a, b, topic)" by (cases x)
  from Cons.prems(1,2) x have o: "c < a" "ordered_ok n b a xs" "1 \<le> a" "a \<le> b" "b \<le> n" by (auto simp: proper_def)
  let ?f = "if c + 1 < a then absorb (a - 1) filled else filled"
  have starts: "\<forall>y\<in>set ?f. fst y \<le> b"
  proof (cases filled)
    case Nil
    then show ?thesis using o by (simp add: absorb_def)
  next
    case (Cons y rest)
    have "fst y \<le> b" "\<forall>z\<in>set rest. fst z \<le> b" using Cons.prems(3) o unfolding Cons by force+
    then show ?thesis by (cases y) (simp add: absorb_def Cons)
  qed
  have "\<forall>y\<in>set ?f. proper n y"
  proof (cases "c + 1 < a")
    case True
    then show ?thesis using absorb_proper [of filled n "a - 1"] Cons.prems(3,4) o by fastforce
  next
    case False
    then show ?thesis using Cons.prems(3) by simp
  qed
  with starts have "\<forall>y\<in>set ((a, b, topic) # ?f). proper n y \<and> fst y \<le> b" using o by (auto simp: proper_def)
  from Cons.IH [OF o(2) _ this] Cons.prems(2) o show ?case by (simp add: x)
qed

lemma complete_proper:
  assumes "\<forall>x\<in>set parsed. proper n x" and "1 \<le> n"
  shows "\<forall>x\<in>set (complete_boundaries n parsed). proper n x"
proof -
  let ?xs = "order_boundaries n None (sort_key fst parsed)"
  obtain c filled where f: "fill_holes 0 [] ?xs = (c, filled)" by (cases "fill_holes 0 [] ?xs")
  have "ordered_ok n 0 1 ?xs"
    by (rule order_boundaries_ok) (use assms in \<open>auto simp: proper_def parsed_ok_def\<close>)
  moreover have "\<forall>x\<in>set ?xs. proper n x" by (rule order_proper) (use assms in auto)
  ultimately have "\<forall>x\<in>set filled. proper n x \<and> fst x \<le> c"
    using fill_holes_proper [of n 0 1 ?xs "[]"] f assms(2) by auto
  moreover from this have "c < n \<Longrightarrow> \<forall>x\<in>set (absorb n filled). proper n x"
    by (intro absorb_proper) (use assms(2) in fastforce)+
  ultimately show ?thesis by (simp add: complete_boundaries_def f)
qed

text \<open>Segments that leave no hole start at different turns.\<close>

lemma chain_starts: "chain filled e \<Longrightarrow> \<forall>x\<in>set filled. proper n x \<Longrightarrow> distinct (map fst filled) \<and> (\<forall>x\<in>set filled. fst x \<le> e)"
proof (induction filled arbitrary: e)
  case Nil
  then show ?case by simp
next
  case (Cons x rest)
  obtain a b topic where x: "x = (a, b, topic)" by (cases x)
  with Cons.prems have "b = e" "a \<le> b" "chain rest (a - 1)" by (auto simp: proper_def)
  with Cons.IH [of "a - 1"] Cons.prems(2) show ?case by (fastforce simp: x)
qed

section \<open>Identifiers of segments\<close>

lemma digit_chars: "c \<in> set (nat_str n) \<Longrightarrow> \<exists>d < 10. c = digit_char d"
proof (induction n rule: nat_str.induct)
  case (1 n)
  show ?case
  proof (cases "n < 10")
    case True
    with 1(2) show ?thesis by (subst (asm) nat_str.simps) auto
  next
    case False
    with 1(2) have "c \<in> set (nat_str (n div 10)) \<or> c = digit_char (n mod 10)"
      by (subst (asm) nat_str.simps) auto
    moreover have "n mod 10 < 10" by simp
    ultimately show ?thesis using 1(1) False by blast
  qed
qed

lemma digit_char_not: "d < 10 \<Longrightarrow> digit_char d \<notin> {CHR ''_'', CHR ''-''}"
proof -
  have "\<forall>d\<in>{0..<10}. digit_char d \<notin> {CHR ''_'', CHR ''-''}" by code_simp
  then show "d < 10 \<Longrightarrow> ?thesis" by simp
qed

text \<open>The value of a numeral does not change by zeros in front of it.\<close>

definition numeral_value :: "string \<Rightarrow> nat" where
  "numeral_value s = foldl (\<lambda>v c. v * 10 + (of_char c - 48)) 0 s"

lemma digit_char_value: "d < 10 \<Longrightarrow> of_char (digit_char d) - 48 = d"
  by (simp add: digit_char_def)

lemma numeral_value_nat_str: "numeral_value (nat_str n) = n"
proof (induction n rule: nat_str.induct)
  case (1 n)
  show ?case
  proof (cases "n < 10")
    case True
    then show ?thesis by (subst nat_str.simps) (simp add: numeral_value_def digit_char_value)
  next
    case False
    then have "numeral_value (nat_str n) = numeral_value (nat_str (n div 10)) * 10 + n mod 10"
      by (subst nat_str.simps) (simp add: numeral_value_def digit_char_value)
    with 1 False show ?thesis by simp
  qed
qed

lemma numeral_value_zeros: "numeral_value (replicate k (CHR ''0'') @ s) = numeral_value s"
  by (induction k) (simp_all add: numeral_value_def)

lemma pad3_inj: "0 \<le> a \<Longrightarrow> 0 \<le> b \<Longrightarrow> pad3 a = pad3 b \<Longrightarrow> a = b"
proof -
  assume ab: "0 \<le> a" "0 \<le> b" and "pad3 a = pad3 b"
  then have "numeral_value (pad3 a) = numeral_value (pad3 b)" by simp
  with ab have "nat a = nat b" by (simp add: pad3_def Let_def numeral_value_zeros numeral_value_nat_str int_str_def)
  with ab show "a = b" by simp
qed

lemma pad3_chars: "0 \<le> a \<Longrightarrow> c \<in> set (pad3 a) \<Longrightarrow> c \<noteq> CHR ''_'' \<and> c \<noteq> CHR ''-''"
  using digit_chars digit_char_not by (fastforce simp: pad3_def Let_def int_str_def split: if_splits)

lemma suffix_determines:
  assumes "x @ CHR ''_'' # y = x' @ CHR ''_'' # y'" and "CHR ''_'' \<notin> set y" and "CHR ''_'' \<notin> set y'"
  shows "y = y'"
proof -
  have "takeWhile (\<lambda>c. c \<noteq> CHR ''_'') (rev (u @ CHR ''_'' # v)) = rev v" if "CHR ''_'' \<notin> set v" for u v :: string
  proof -
    have "takeWhile (\<lambda>c. c \<noteq> CHR ''_'') (rev v @ CHR ''_'' # rev u) = rev v"
      by (subst takeWhile_append2) (use that in auto)
    then show ?thesis by simp
  qed
  from this [OF assms(2), of x] this [OF assms(3), of x'] assms(1) show ?thesis by simp
qed

lemma segment_id_inj:
  assumes "0 \<le> a" and "0 \<le> b" and "0 \<le> a'" and "0 \<le> b'" and "segment_id base a b = segment_id base' a' b'"
  shows "a = a'"
proof -
  define t t' where "t = CHR ''s'' # pad3 a @ CHR ''-'' # pad3 b" and "t' = CHR ''s'' # pad3 a' @ CHR ''-'' # pad3 b'"
  from assms(5) have "\<exists>x x'. x @ CHR ''_'' # t = x' @ CHR ''_'' # t'"
    by (auto simp: segment_id_def segment_suffix_def t_def t'_def Let_def)
  moreover have "CHR ''_'' \<notin> set t" "CHR ''_'' \<notin> set t'"
    using pad3_chars assms(1-4) by (auto simp: t_def t'_def)
  ultimately have "t = t'" using suffix_determines by metis
  then have "pad3 a @ CHR ''-'' # pad3 b = pad3 a' @ CHR ''-'' # pad3 b'" by (simp add: t_def t'_def)
  moreover have "takeWhile (\<lambda>c. c \<noteq> CHR ''-'') (pad3 x @ CHR ''-'' # y) = pad3 x" if "0 \<le> x" for x y
    by (subst takeWhile_append2) (use pad3_chars [OF that] in auto)
  ultimately have "pad3 a = pad3 a'" using assms(1,3) by metis
  then show ?thesis by (rule pad3_inj [OF assms(1,3)])
qed

section \<open>The split of a session\<close>

lemma parse_boundary_ok: "parse_boundary n v = Inr (Some x) \<Longrightarrow> parsed_ok n x"
  by (auto simp: parse_boundary_def bindE_Inr_iff parsed_ok_def min_def split: pyval.splits option.splits if_splits)

definition starts_within :: "int \<Rightarrow> pyval list \<Rightarrow> bool" where
  "starts_within n vs \<longleftrightarrow> (\<forall>v\<in>set vs. case py_int (dget_none (as_dict v) ''start'') of Inr a \<Rightarrow> a \<le> n | Inl e \<Rightarrow> True)"

lemma int_or_skip_Some: "int_or_skip v = Inr (Some i) \<Longrightarrow> py_int v = Inr i"
  by (auto simp: int_or_skip_def split: sum.splits if_splits)

lemma parse_boundary_proper:
  assumes "parse_boundary n v = Inr (Some x)" and "starts_within n vs" and "v \<in> set vs"
  shows "proper n x"
proof -
  from assms(1) obtain d a b t where v: "v = PDict d" "int_or_skip (dget_none d ''start'') = Inr (Some a)"
      and x: "x = (a, min b n, t)" "\<not> a < 1" "\<not> b < a"
    by (auto simp: parse_boundary_def bindE_Inr_iff split: pyval.splits option.splits if_splits)
  from int_or_skip_Some [OF v(2)] v(1) assms(2,3) have "a \<le> n" by (fastforce simp: starts_within_def as_dict_def)
  with x show ?thesis by (simp add: proper_def)
qed

lemma parse_boundaries_each:
  assumes "parse_boundaries n vs = Inr parsed" and "\<And>v x. v \<in> set vs \<Longrightarrow> parse_boundary n v = Inr (Some x) \<Longrightarrow> P x"
  shows "\<forall>x\<in>set parsed. P x"
proof -
  from assms(1) obtain found where f: "mapE (parse_boundary n) vs = Inr found"
      "parsed = map the (filter (\<lambda>x. x \<noteq> None) found)"
    by (auto simp: parse_boundaries_def bindE_Inr_iff)
  have "\<forall>y\<in>set found. case y of None \<Rightarrow> True | Some x \<Rightarrow> P x"
    by (rule mapE_all [OF f(1)]) (auto split: option.splits intro: assms(2))
  then show ?thesis by (auto simp: f(2))
qed

lemma coerce_boundaries_Inr:
  assumes "coerce_boundaries extract raw n = Inr bs" and "bs \<noteq> []"
  obtains payload vs parsed where "extract raw = Some payload" and "dget_none payload ''segments'' = PList vs"
    and "parse_boundaries n vs = Inr parsed" and "parsed \<noteq> []" and "bs = complete_boundaries n parsed"
  using assms that
  by (auto simp: coerce_boundaries_def bindE_Inr_iff split: option.splits pyval.splits list.splits if_splits)

lemma copy_if_given_keeps: "k \<noteq> k' \<Longrightarrow> dget (copy_if_given base k' d) k = dget d k"
  by (simp add: copy_if_given_def dget_dput split: pyval.splits)

lemma carry_over_keeps:
  assumes "k \<notin> {''user_alias'', ''user_id'', ''runtime'', ''runtime_context'', ''agent_id'', ''meta'', ''timestamp'',
      ''business_time'', ''langfuse'', ''force_reprocess'', ''reprocess_reason'', ''defer_evolution_trigger''}"
  shows "dget (carry_over sp base turns d) k = dget d k"
  using assms
  by (simp add: carry_over_def Let_def dget_dput copy_if_given_keeps split: option.splits pyval.splits)

lemma build_segment_fields:
  assumes "build_segment sp base turns a b topic index count = Inr d"
  shows "dget d ''turns'' = Some (PList (map PDict turns))"
    and "dget d ''session_id'' = Some (PStr (segment_id (py_str (py_or (dget_none base ''session_id'') (PStr ''session''))) a b))"
  using assms unfolding build_segment_def by (auto simp: Let_def bindE_Inr_iff carry_over_keeps)

lemma mapE_image_eq:
  "mapE f xs = Inr ys \<Longrightarrow> (\<And>x y. x \<in> set xs \<Longrightarrow> f x = Inr y \<Longrightarrow> g y = h x) \<Longrightarrow> map g ys = map h xs"
  by (induction xs arbitrary: ys) (auto simp: bindE_Inr_iff)

text \<open>A session that is split has the segments of the boundaries of a reply.\<close>

lemma split_session_segments:
  assumes "split_session sp (PDict base) = Inr segments" and "session_turns base = Inr turns"
  obtains "segments = [PDict base]"
  | client raw bs where "sp_client sp = Some client" and "client (boundary_request turns) = Inr raw"
    and "coerce_boundaries (sp_extract sp) (py_str (py_or raw (PStr ''''))) (int (length turns)) = Inr bs"
    and "2 \<le> length bs" and "turns \<noteq> []"
    and "map (\<lambda>s. dget_none (as_dict s) ''turns'') segments = map (\<lambda>ts. PList (map PDict ts)) (slices turns bs)"
    and "map (\<lambda>s. dget_none (as_dict s) ''session_id'') segments = map (\<lambda>(a, b, topic). PStr (segment_id
      (py_str (py_or (dget_none base ''session_id'') (PStr ''session''))) a b)) bs"
    and "\<forall>s\<in>set segments. is_dict s"
proof -
  let ?f = "\<lambda>count (index, a, b, topic). bindE (build_segment sp base (turn_slice turns a b) a b topic index count) (\<lambda>d. Inr (PDict d))"
  show thesis
  proof (cases "segments = [PDict base]")
    case True
    then show thesis by (rule that(1))
  next
    case False
    with assms obtain client bs where c: "sp_client sp = Some client" "turns \<noteq> []"
        "llm_boundaries sp client turns = Inr bs" "2 \<le> length bs" "mapE (?f (length bs)) (enumerate 1 bs) = Inr segments"
      by (auto simp: split_session_def bindE_Inr_iff split: if_splits option.splits)
    from c(3,4) obtain raw where r: "client (boundary_request turns) = Inr raw"
        "coerce_boundaries (sp_extract sp) (py_str (py_or raw (PStr ''''))) (int (length turns)) = Inr bs"
      by (auto simp: llm_boundaries_def split: sum.splits)
    note segs = c(5)
    have t: "map (\<lambda>s. dget_none (as_dict s) ''turns'') segments =
        map (\<lambda>(i, a, b, topic). PList (map PDict (turn_slice turns a b))) (enumerate 1 bs)"
      by (rule mapE_image_eq [OF segs]) (auto simp: bindE_Inr_iff as_dict_def dget_or_def dest!: build_segment_fields(1))
    have i: "map (\<lambda>s. dget_none (as_dict s) ''session_id'') segments = map (\<lambda>(i, a, b, topic). PStr (segment_id
        (py_str (py_or (dget_none base ''session_id'') (PStr ''session''))) a b)) (enumerate 1 bs)"
      by (rule mapE_image_eq [OF segs]) (auto simp: bindE_Inr_iff as_dict_def dget_or_def dest!: build_segment_fields(2))
    have snd: "map (\<lambda>(i, a, b, topic). g a b) (enumerate k bs) = map (\<lambda>(a, b, topic). g a b) bs"
      for g :: "int \<Rightarrow> int \<Rightarrow> pyval" and k
      by (induction bs arbitrary: k) auto
    have sl: "map (\<lambda>ts. PList (map PDict ts)) (slices turns bs) =
        map (\<lambda>(a, b, topic). PList (map PDict (turn_slice turns a b))) bs" by auto
    have d: "\<forall>s\<in>set segments. is_dict s"
      by (rule mapE_all [OF segs]) (auto simp: bindE_Inr_iff)
    show thesis
    proof (rule that(2) [OF c(1) r c(4,2) _ _ d])
      show "map (\<lambda>s. dget_none (as_dict s) ''turns'') segments = map (\<lambda>ts. PList (map PDict ts)) (slices turns bs)"
        unfolding t snd sl ..
      show "map (\<lambda>s. dget_none (as_dict s) ''session_id'') segments = map (\<lambda>(a, b, topic). PStr (segment_id
          (py_str (py_or (dget_none base ''session_id'') (PStr ''session''))) a b)) bs"
        unfolding i snd ..
    qed
  qed
qed

text \<open>
  C6: A split loses and doubles nothing. Whatever the model replies, the segments of a session that
  is split have, one after the other, exactly the turns of the session in their order; a session that
  is not split stays as it is.
\<close>

theorem split_covers_every_turn:
  assumes "split_session sp (PDict base) = Inr segments" and "session_turns base = Inr turns"
  shows "segments = [PDict base] \<or>
    (\<exists>parts. map (\<lambda>s. dget_none (as_dict s) ''turns'') segments = map (\<lambda>ts. PList (map PDict ts)) parts \<and>
       concat parts = turns \<and> 2 \<le> length parts)"
proof (rule split_session_segments [OF assms])
  fix client raw bs
  assume bs: "coerce_boundaries (sp_extract sp) (py_str (py_or raw (PStr ''''))) (int (length turns)) = Inr bs" "2 \<le> length bs"
    and segs: "map (\<lambda>s. dget_none (as_dict s) ''turns'') segments = map (\<lambda>ts. PList (map PDict ts)) (slices turns bs)"
  from bs(2) have "bs \<noteq> []" by auto
  from coerce_boundaries_Inr [OF bs(1) this] obtain vs parsed
    where p: "parse_boundaries (int (length turns)) vs = Inr parsed" "bs = complete_boundaries (int (length turns)) parsed"
    by metis
  have "\<forall>x\<in>set parsed. parsed_ok (int (length turns)) x" by (rule parse_boundaries_each [OF p(1)]) (rule parse_boundary_ok)
  then have "concat (slices turns bs) = turns" unfolding p(2) by (rule slices_complete)
  with segs bs(2) show ?thesis by (intro disjI2 exI [of _ "slices turns bs"]) simp
qed simp

text \<open>Three turns; the model gives the second boundary only, which takes the first turn with it.\<close>

definition sample_splitter :: splitter where
  "sample_splitter =
     \<lparr>sp_enabled = True, sp_client = Some (\<lambda>request. Inr (PStr ''reply'')),
      sp_extract = (\<lambda>raw. Some [(''segments'', PList
        [PDict [(''start'', PInt 3), (''end'', PInt 9), (''topic'', PStr ''b'')],
         PDict [(''start'', PInt 1), (''end'', PInt 1), (''topic'', PStr ''a'')]])]),
      sp_iso = (\<lambda>t. None), sp_mark = (\<lambda>i n. ''''), sp_marked = (\<lambda>i n. '''')\<rparr>"

definition sample_base :: pydict where
  "sample_base = [(''session_id'', PStr ''s''), (''turns'', PList
     [PDict [(''n'', PInt 1)], PDict [(''n'', PInt 2)], PDict [(''n'', PInt 3)]])]"

theorem split_covers_every_turn_witness:
  "\<exists>segments. split_session sample_splitter (PDict sample_base) = Inr segments \<and> length segments = 2 \<and>
     (\<exists>parts. map (\<lambda>s. dget_none (as_dict s) ''turns'') segments = map (\<lambda>ts. PList (map PDict ts)) parts \<and>
        concat parts = [[(''n'', PInt 1)], [(''n'', PInt 2)], [(''n'', PInt 3)]])"
proof -
  have "case split_session sample_splitter (PDict sample_base) of Inl _ \<Rightarrow> False | Inr segments \<Rightarrow> length segments = 2"
    by code_simp
  then obtain segments where s: "split_session sample_splitter (PDict sample_base) = Inr segments" "length segments = 2"
    by (cases "split_session sample_splitter (PDict sample_base)") auto
  have t: "session_turns sample_base = Inr [[(''n'', PInt 1)], [(''n'', PInt 2)], [(''n'', PInt 3)]]" by code_simp
  from split_covers_every_turn [OF s(1) t] s show ?thesis by auto
qed

lemma complete_starts:
  assumes "\<forall>x\<in>set parsed. proper n x" and "1 \<le> n"
  shows "distinct (map fst (complete_boundaries n parsed))"
proof -
  let ?xs = "order_boundaries n None (sort_key fst parsed)"
  obtain c filled where f: "fill_holes 0 [] ?xs = (c, filled)" by (cases "fill_holes 0 [] ?xs")
  have ord: "ordered_ok n 0 1 ?xs"
    by (rule order_boundaries_ok) (use assms in \<open>auto simp: proper_def parsed_ok_def\<close>)
  moreover have "filled_ok n 0 1 []" by (simp add: filled_ok_def)
  ultimately obtain a1 where ok: "filled_ok n c a1 filled" using fill_holes_ok [of n 0 1 "[]" ?xs] f assms(2) by auto
  have "\<forall>x\<in>set ?xs. proper n x" by (rule order_proper) (use assms in auto)
  then have within: "\<forall>x\<in>set filled. proper n x \<and> fst x \<le> c"
    using fill_holes_proper [OF ord, of "[]"] f assms(2) by simp
  have le: "a1 - 1 \<le> c \<or> filled = []" using ok within by (auto simp: filled_ok_def split: list.splits)
  have c: "0 \<le> c" "c \<le> n" using ok assms(2) within by (auto simp: filled_ok_def proper_def split: list.splits)
  have "chain (if c < n then absorb n filled else filled) n"
  proof (cases "c < n")
    case True
    then show ?thesis using absorb_chain [OF ok, of n] le c ok by (auto simp: filled_ok_def split: list.splits)
  next
    case False
    then show ?thesis using filled_chain [OF ok le] c by simp
  qed
  moreover have "\<forall>x\<in>set (if c < n then absorb n filled else filled). proper n x"
    using complete_proper [OF assms] by (simp add: complete_boundaries_def f)
  ultimately have "distinct (map fst (if c < n then absorb n filled else filled))" by (rule chain_starts [THEN conjunct1])
  then show ?thesis by (simp add: complete_boundaries_def f rev_map [symmetric])
qed

lemma py_strip_Nil_iff: "py_strip s = '''' \<longleftrightarrow> (\<forall>c\<in>set s. is_space c)"
proof
  assume "py_strip s = ''''"
  then have "\<forall>c\<in>set (dropWhile is_space s). is_space c" by (simp add: py_strip_def dropWhile_eq_Nil_conv)
  moreover have "\<forall>c\<in>set (takeWhile is_space s). is_space c" by (auto dest: set_takeWhileD)
  ultimately show "\<forall>c\<in>set s. is_space c" by (metis Un_iff set_append takeWhile_dropWhile_id)
next
  assume "\<forall>c\<in>set s. is_space c"
  then have "dropWhile is_space s = []" by (induction s) (simp_all del: dropWhile_eq_Nil_conv)
  then show "py_strip s = ''''" by (simp add: py_strip_def del: dropWhile_eq_Nil_conv)
qed

text \<open>With boundaries that start within the session, every segment has turns and its own identifier.\<close>

lemma split_within_is_proper:
  assumes "split_session sp (PDict base) = Inr segments" and "session_turns base = Inr turns"
    and "\<And>client raw payload. sp_client sp = Some client \<Longrightarrow> client (boundary_request turns) = Inr raw \<Longrightarrow>
      sp_extract sp (py_str (py_or raw (PStr ''''))) = Some payload \<Longrightarrow>
      starts_within (int (length turns)) (as_list (dget_none payload ''segments''))"
  shows "segments = [PDict base] \<or>
    (\<forall>s\<in>set segments. is_dict s \<and> (\<exists>t ts. dget_none (as_dict s) ''turns'' = PList (t # ts))) \<and>
    (\<exists>ids. map (\<lambda>s. dget_none (as_dict s) ''session_id'') segments = map PStr ids \<and> distinct ids \<and> (\<forall>i\<in>set ids. py_strip i \<noteq> ''''))"
proof (rule split_session_segments [OF assms(1,2)])
  fix client raw bs
  let ?n = "int (length turns)"
  let ?id = "\<lambda>(a, b, topic :: string). segment_id (py_str (py_or (dget_none base ''session_id'') (PStr ''session''))) a b"
  assume c: "sp_client sp = Some client" "client (boundary_request turns) = Inr raw"
    and bs: "coerce_boundaries (sp_extract sp) (py_str (py_or raw (PStr ''''))) ?n = Inr bs" "2 \<le> length bs" "turns \<noteq> []"
    and segs: "map (\<lambda>s. dget_none (as_dict s) ''turns'') segments = map (\<lambda>ts. PList (map PDict ts)) (slices turns bs)"
    and ids: "map (\<lambda>s. dget_none (as_dict s) ''session_id'') segments = map (\<lambda>(a, b, topic). PStr (segment_id
      (py_str (py_or (dget_none base ''session_id'') (PStr ''session''))) a b)) bs"
    and dicts: "\<forall>s\<in>set segments. is_dict s"
  from bs(2) have "bs \<noteq> []" by auto
  from coerce_boundaries_Inr [OF bs(1) this] obtain payload vs parsed
    where p: "sp_extract sp (py_str (py_or raw (PStr ''''))) = Some payload" "dget_none payload ''segments'' = PList vs"
      "parse_boundaries ?n vs = Inr parsed" "bs = complete_boundaries ?n parsed" by metis
  have "starts_within ?n vs" using assms(3) [OF c p(1)] p(2) by (simp add: as_list_def)
  then have pr: "\<forall>x\<in>set parsed. proper ?n x" by (intro parse_boundaries_each [OF p(3)]) (rule parse_boundary_proper)
  have n: "1 \<le> ?n" using bs(3) by (cases turns) simp_all
  have props: "\<forall>x\<in>set bs. proper ?n x" unfolding p(4) by (rule complete_proper [OF pr n])
  have "\<exists>t ts. dget_none (as_dict s) ''turns'' = PList (t # ts)" if s: "s \<in> set segments" for s
  proof -
    from s have "dget_none (as_dict s) ''turns'' \<in> set (map (\<lambda>ts. PList (map PDict ts)) (slices turns bs))"
      unfolding segs [symmetric] by simp
    then obtain a b topic where x: "(a, b, topic) \<in> set bs" "dget_none (as_dict s) ''turns'' = PList (map PDict (turn_slice turns a b))"
      by auto
    from props x(1) have "proper ?n (a, b, topic)" by blast
    then have "turn_slice turns a b \<noteq> []" by (auto simp: proper_def turn_slice_def)
    with x(2) show ?thesis by (cases "turn_slice turns a b") auto
  qed
  moreover have "map (\<lambda>s. dget_none (as_dict s) ''session_id'') segments = map PStr (map ?id bs)" unfolding ids by auto
  moreover have "distinct (map ?id bs)"
  proof -
    have "inj_on ?id (set bs)"
    proof (rule inj_onI)
      fix x y assume xy: "x \<in> set bs" "y \<in> set bs" "?id x = ?id y"
      obtain a b t where x: "x = (a, b, t)" by (cases x)
      obtain a' b' t' where y: "y = (a', b', t')" by (cases y)
      have "proper ?n x" "proper ?n y" using props xy by blast+
      then have "a = a'" using xy(3) by (intro segment_id_inj [of a b a' b']) (auto simp: x y proper_def)
      moreover have "inj_on fst (set bs)" using complete_starts [OF pr n] by (simp add: p(4) distinct_map)
      ultimately show "x = y" using xy(1,2) by (intro inj_onD [of fst "set bs"]) (simp_all add: x y)
    qed
    moreover have "distinct bs" using complete_starts [OF pr n] by (simp add: p(4) distinct_map)
    ultimately show ?thesis by (simp add: distinct_map)
  qed
  moreover have "\<forall>i\<in>set (map ?id bs). py_strip i \<noteq> ''''"
    by (auto simp: segment_id_def segment_suffix_def Let_def py_strip_Nil_iff is_space_def)
  ultimately show ?thesis using dicts by blast
qed simp

end
