(* ===== verification/Spec2Isabelle.thy ===== *)
theory Spec2Isabelle
  imports Prelude TaskProperties Leases WorkerProperties Jobs Lifecycle MetricsProperties PolicyProperties
    Aggregation RuntimeMatrix Protocol Contracts LibraryProperties CandidateProperties BundleChanges SkillEdits
    ContextProperties DatasetProperties EngineProperties MemoryProperties IngestProperties SplitProperties
begin

text \<open>
  teamEvolver: a verification development.

  The program. teamEvolver receives sessions of agents, distils them into skill candidates,
  replays a candidate against its baseline in the real agent, and publishes what the replay
  and the checklist accept as a new version of a team skill. PostgreSQL is the only
  authority for mutable state; every replica runs the same code in the role \<open>api\<close> or
  \<open>worker\<close>. Work is a row of \<open>worker_tasks\<close>: an endpoint enqueues it, a worker claims
  it under a lease with a fence, runs the handler of its kind while renewing the lease, and
  writes the result under its fence. A handler decides with the functions of
  \<open>team_replay\<close> whether a candidate is better, and candidates and skills are kept by two
  repositories with an audit log and an append-only version chain. Agents append their
  context events to sessions of the context store.

  \<^bold>\<open>Shared theories.\<close>
  Prelude (raises as \<open>Inl\<close>, \<open>ORDER BY ... LIMIT 1\<close>, updates of tables as lists of rows);
  Logs (sequences of transactions and the contract of append-only tables, the locale
  \<open>append_log\<close>); PyValue (JSON values with the Python operations the code uses on them);
  Bytes (UTF-8 validity, base64, ASCII text operations); Programs (programs of several transactions and calls
  of services, pools of them in any interleaving with failures, and the rule for their invariants, the
  locale \<open>guarded_pool\<close>).

  \<^bold>\<open>Task queue and worker\<close> (src/teamEvolver/runtime).
  \<^item> TaskQueue: repository.py, \<open>WorkerTaskRepository\<close>: one definition per SQL statement over the
    rows of a table, constraints and row-level security included.
  \<^item> Fencing: the fencing contract as a locale; TaskInvariants: the table invariant, the row
    state machine, the interpretation of the contract; TaskProperties: what it promises, over all
    interleavings of repository calls.
  \<^item> Leases: repository.py, \<open>ResourceLeaseRepository\<close>, and leases.py.
  \<^item> Registry: tasks.py and services.py. Lifecycle: lifecycle.py. Jobs: the job endpoints of
    src/teamEvolver/operations/api.
  \<^item> Worker and WorkerProperties: worker.py; a round of the worker is refined to steps of the
    queue.

  \<^bold>\<open>Skills\<close> (src/team\_skills).
  \<^item> Bundle and BundleProperties: library/bundle.py. Frontmatter: library/frontmatter.py,
    render.py and the name check of editor.py.
  \<^item> Library and LibraryProperties: library/repository.py: heads, versions, version files,
    blobs and mutations as five lists of rows, one call one transaction; the invariant
    \<open>library_ok\<close>, immutability of versions, replay of mutations, and the round trip of a
    published bundle.
  \<^item> Candidates and CandidateProperties: candidates/repository.py: the closed state machine and
    the event log that determines the state of every candidate.
  \<^item> BundleChanges and SkillEdits: evolution/kernel/bundle\_changes.py and skill\_edits.py: what a
    language model may change of a bundle, and edits that apply all or not at all.

  \<^bold>\<open>Replay decisions\<close> (src/team\_replay).
  \<^item> Metrics, MetricsProperties: metrics.py. Policy, PolicyProperties: policy.py. Aggregation:
    aggregation.py. RuntimeMatrix: runtime\_matrix.py. Protocol: protocol.py. Contracts:
    contracts.py. Datasets, DatasetProperties: datasets/schema.py: an accepted dataset document is a
    normal form of the normalisation, and its cases refer to declared skills only.
  \<^item> ReplayBranch, BranchProperties: execution.py, hooks.py and judging.py: the turn loop of one branch,
    a statement being a function of the branch's state to an exception or a value and a new state. The
    proofs go by triples over such statements (\<open>holdsS\<close>, one exit for values and one for exceptions).
  \<^item> ReplayEngine, EngineProperties: engine.py and the treatments of artifacts.py: contexts, the pair of
    branches, one case, one job. What a job accepts rests on the lemmas of all the theories above.

  \<^bold>\<open>Context store\<close> (src/teamEvolver/context).
  \<^item> ContextStore and ContextProperties: repository.py and the append endpoint of api: the event
    log of a session is contiguous.

  \<^bold>\<open>Session ingestion\<close> (src/session\_ingestion). A session is pushed, or pulled from a data source, and accepted
  with a task; the handlers normalise it, split it by topic, analyze it and archive it, each enqueuing the next.
  \<^item> IngestStore: identifiers.py, schemas.py, payloads.py, repository.py, queries.py and adapters/repository.py:
    payloads and identifiers, the tables and the objects with their statements and constraints.
  \<^item> SessionSplit and SplitProperties: split.py: boundaries of a model made into segments, which have every turn
    once and in order.
  \<^item> IngestHandlers: stages.py, projections.py and handlers: every handler as a program, one transaction per
    \<open>tenant_tx\<close> block. IngestApi: acceptance, push/protocol.py, the identity rule of
    teamEvolver/security/agent\_principal.py, \<open>handle_pull\<close>, and the system: submissions and attempts of
    the worker that start at any moment and any number of times, die, fail or lose their answers, while the
    rows of the queue, the clock, the configuration and the adapters change.
  \<^item> IngestInvariant: where every stage result and formal session comes from, as an invariant of histories.
    IngestSafety: every program keeps it, and the interpretation of \<open>guarded_pool\<close>. IngestAcceptance: a second
    interpretation, for what depends on the store alone: no ingestion without its task. IngestPipeline: a
    session left alone is archived. IngestProperties: the properties, with a session that goes through.

  \<^bold>\<open>Team memory\<close> (src/team\_memory).
  \<^item> MemoryCompile and MemoryProperties: merge.py, the plan of groups and the inventory of users of
    pipeline.py, the stage rows of repository.py: the tree reduction, and a compile stage as the steps of
    attempts that may die between any two of them, over a compile service that need not deduplicate.

  \<^bold>\<open>Correspondence.\<close> A table is the list of its rows, in insertion order; a row is a record with
  the columns the code reads or writes. A statement reads the transaction's \<open>now()\<close> as an argument,
  as are owner ids, random jitter, and which rows other replicas lock. A Python exception is a value
  \<open>PyExc class message\<close>; a constraint violation of the database is one too. A dict is the list of
  its items in insertion order. Definitions keep the names of the source except where HOL or another
  theory has the name already.

  \<^bold>\<open>Arguments of the model.\<close> The SHA-256 function (\<open>sha\<close>; assumed injective only where a property
  says so), the YAML loader and dumper, the diff library, handlers and what they do, the outcome of
  database connections and commits; for a replay the customer's runtime (what \<open>send\<close> answers to the messages
  sent so far), the factory, the host, the language model of the judge, the simulated user, the clock and
  the hash. Each may also raise. For session ingestion the codec (\<open>json.dumps\<close> with sorted keys,
  \<open>json.loads\<close>, SHA-256, ISO dates; where a property says so, parsing what was dumped gives the value with its
  dicts in key order), the Unicode tables, the analysis and split services and the data source (what they
  answer is part of a run), the verifier of context usage, and the marks a title of a segment gets.

  \<^bold>\<open>Bounds and approximations.\<close> The events while a handler runs and the iterations of the worker loop
  are finite lists given from outside: a list that ends before the handler or the loop does gives \<open>None\<close>,
  and the properties say which lists suffice. The tree reduction takes fuel, one turn more than there are
  sources, which MemoryProperties shows to be enough. The loop of a pull over the items of its source, which may
  never end, takes the number of items it may read; an attempt that reaches it ends like one whose process
  died, and the properties hold for every number. No other definition needs fuel. Floats are rationals with
  infinities and NaN (binary rounding is not modelled), except that powers of two overflow and integers
  beyond the doubles raise where the code converts them. In PyValue and the theories on it characters are
  the code points up to 255; in Bytes and the theories on it a text is its UTF-8 encoding, and case and white
  space are the ASCII ones. The JSON serialiser is modelled for hashing only as far as its text is needed.

  \<^bold>\<open>Not modelled.\<close> Functions that only read or write files, directories or HTTP connections; SQL in
  text form; the transport endpoints and their authentication; language model prompts; the services named in
  the manifest as not modelled, with reasons.

  \<^bold>\<open>Plan.\<close> Next: publication and mutations above the library repository, the dataset repository, the
  tenant registry, then the parts of the miner that are pure: body patches, candidate identity and source
  units.
\<close>

end
